(* ===== verification/Prelude.thy ===== *)
theory Prelude
  imports Main "HOL-Library.Word" "HOL-Library.Monad_Syntax"
begin

text \<open>
  Shared vocabulary of the development: the C integer types as words, C buffers as byte lists
  (\<open>patch\<close> is a \<open>memcpy\<close> into a buffer), memories as functions from addresses to bytes
  (\<open>mem_upd\<close>, \<open>mem_get\<close>), 32-bit unsigned arithmetic on \<open>nat\<close> with the wrap-around written
  out, the little-endian layout of \<open>u16\<close> and \<open>u32\<close>, and the counting semaphores of the OS layer.
  Procedures that may block or leave the defined behaviour of C return an \<open>option\<close>; \<open>None\<close>
  means that the call does not return normally.
\<close>

unbundle bit_operations_syntax

named_theorems buf_simps \<open>lengths and elements of patched buffers and updated memories\<close>
named_theorems enc_simps \<open>little-endian encodings\<close>

section \<open>Integer types\<close>

type_synonym u8 = "8 word"
type_synonym u16 = "16 word"
type_synonym u32 = "32 word"
type_synonym bytes = "u8 list"
type_synonym memory = "nat \<Rightarrow> u8"

text \<open>Unsigned 32-bit addition and subtraction on \<open>nat\<close>, as C computes them.\<close>

definition add32 :: "nat \<Rightarrow> nat \<Rightarrow> nat" where
  "add32 a b = (a + b) mod 2 ^ 32"

definition sub32 :: "nat \<Rightarrow> nat \<Rightarrow> nat" where
  "sub32 a b = (a + (2 ^ 32 - b mod 2 ^ 32)) mod 2 ^ 32"

lemma add32_small [simp]: "a + b < 4294967296 \<Longrightarrow> add32 a b = a + b"
  by (simp add: add32_def)

lemma sub32_small [simp]:
  assumes "b \<le> a" "a < 4294967296"
  shows "sub32 a b = a - b"
proof -
  obtain c where c: "a = b + c" using assms(1) by (auto simp: le_iff_add)
  have "a + (4294967296 - b) = c + 4294967296" using assms c by simp
  then show ?thesis using assms c by (simp add: sub32_def)
qed

lemma aligned_room:
  assumes "n dvd (c :: nat)" "k * n < c"
  shows "k * n + n \<le> c"
proof -
  obtain q where q: "c = n * q" using assms(1) by blast
  then have "Suc k \<le> q" using assms(2) by (simp add: mult.commute)
  then have "Suc k * n \<le> q * n" by (rule mult_le_mono1)
  then show ?thesis using q by (simp add: mult.commute add.commute)
qed

lemma and_mask_mod: "(x::nat) AND (2 ^ n - 1) = x mod 2 ^ n"
  using take_bit_eq_mask [of n x] by (simp add: take_bit_eq_mod mask_eq_exp_minus_1)

lemma and_20bit [simp]: "(x::nat) AND 0xFFFFF = x mod 0x100000"
  using and_mask_mod [of x 20] by simp

lemma and_27bit [simp]: "(x::nat) AND 0x7FFFFFF = x mod 0x8000000"
  using and_mask_mod [of x 27] by simp

section \<open>Buffers\<close>

text \<open>\<open>patch xs off ys\<close> is the buffer \<open>xs\<close> after \<open>memcpy(xs + off, ys, length ys)\<close>.\<close>

definition patch :: "'a list \<Rightarrow> nat \<Rightarrow> 'a list \<Rightarrow> 'a list" where
  "patch xs off ys = take off xs @ ys @ drop (off + length ys) xs"

definition slice :: "nat \<Rightarrow> nat \<Rightarrow> 'a list \<Rightarrow> 'a list" where
  "slice off n xs = take n (drop off xs)"

lemma length_patch [simp, buf_simps]:
  "off + length ys \<le> length xs \<Longrightarrow> length (patch xs off ys) = length xs"
  by (simp add: patch_def)

lemma nth_patch [buf_simps]:
  assumes "off + length ys \<le> length xs" "i < length xs"
  shows "patch xs off ys ! i =
    (if off \<le> i \<and> i < off + length ys then ys ! (i - off) else xs ! i)"
  using assms by (auto simp: patch_def nth_append min_def)

lemma patch_Nil [simp]: "patch xs off [] = xs"
  by (simp add: patch_def)

lemma patch_all: "length ys = length xs \<Longrightarrow> patch xs 0 ys = ys"
  by (simp add: patch_def)

lemma length_slice [simp, buf_simps]: "off + n \<le> length xs \<Longrightarrow> length (slice off n xs) = n"
  by (simp add: slice_def)

lemma nth_slice [buf_simps]:
  "off + n \<le> length xs \<Longrightarrow> i < n \<Longrightarrow> slice off n xs ! i = xs ! (off + i)"
  by (simp add: slice_def)

lemma slice_patch_same [simp, buf_simps]:
  "off + length ys \<le> length xs \<Longrightarrow> slice off (length ys) (patch xs off ys) = ys"
  by (simp add: slice_def patch_def)

lemma slice_patch_other [buf_simps]:
  assumes "off + length ys \<le> length xs" "a + n \<le> length xs" "a + n \<le> off \<or> off + length ys \<le> a"
  shows "slice a n (patch xs off ys) = slice a n xs"
  using assms by (intro nth_equalityI) (auto simp: nth_slice nth_patch)

lemma patch_patch_same:
  assumes "off + length ys \<le> length xs" "length zs = length ys"
  shows "patch (patch xs off ys) off zs = patch xs off zs"
  using assms by (intro nth_equalityI) (auto simp: nth_patch)

lemma patch_append:
  "off + length xs + length ys \<le> length buf \<Longrightarrow>
   patch (patch buf off xs) (off + length xs) ys = patch buf off (xs @ ys)"
  by (simp add: patch_def add.commute add.left_commute)

lemma patch_slice_id:
  assumes "off + n \<le> length xs"
  shows "patch xs off (slice off n xs) = xs"
  using assms by (intro nth_equalityI) (auto simp: nth_patch nth_slice)

section \<open>Memories\<close>

definition mem_upd :: "memory \<Rightarrow> nat \<Rightarrow> bytes \<Rightarrow> memory" where
  "mem_upd m a xs = (\<lambda>i. if a \<le> i \<and> i < a + length xs then xs ! (i - a) else m i)"

definition mem_get :: "memory \<Rightarrow> nat \<Rightarrow> nat \<Rightarrow> bytes" where
  "mem_get m a n = map m [a..<a + n]"

lemma length_mem_get [simp, buf_simps]: "length (mem_get m a n) = n"
  by (simp add: mem_get_def)

lemma nth_mem_get [buf_simps]: "i < n \<Longrightarrow> mem_get m a n ! i = m (a + i)"
  by (simp add: mem_get_def)

lemma mem_get_0 [simp]: "mem_get m a 0 = []"
  by (simp add: mem_get_def)

lemma mem_get_add: "mem_get m a (n + k) = mem_get m a n @ mem_get m (a + n) k"
  by (intro nth_equalityI) (auto simp: nth_mem_get nth_append algebra_simps)

lemma slice_mem_get [buf_simps]: "off + k \<le> n \<Longrightarrow> slice off k (mem_get m a n) = mem_get m (a + off) k"
  by (intro nth_equalityI) (auto simp: nth_slice nth_mem_get algebra_simps)

lemma mem_upd_Nil [simp]: "mem_upd m a [] = m"
  by (rule ext) (auto simp: mem_upd_def)

lemma mem_get_upd_same [simp, buf_simps]: "mem_get (mem_upd m a xs) a (length xs) = xs"
  by (intro nth_equalityI) (auto simp: nth_mem_get mem_upd_def)

lemma mem_get_upd_other [buf_simps]:
  "b + n \<le> a \<or> a + length xs \<le> b \<Longrightarrow> mem_get (mem_upd m a xs) b n = mem_get m b n"
  by (intro nth_equalityI) (auto simp: nth_mem_get mem_upd_def)

lemma mem_get_upd_inside:
  "b + length xs = a + n \<and> a \<le> b \<Longrightarrow>
   mem_get (mem_upd m b xs) a n = mem_get m a (b - a) @ xs"
  by (intro nth_equalityI) (auto simp: nth_mem_get mem_upd_def nth_append add.commute)

lemma mem_upd_append:
  "mem_upd (mem_upd m a xs) (a + length xs) ys = mem_upd m a (xs @ ys)"
  by (rule ext) (auto simp: mem_upd_def nth_append)

lemma mem_upd_cover:
  "length ys = length xs \<Longrightarrow> mem_upd (mem_upd m a xs) a ys = mem_upd m a ys"
  by (rule ext) (auto simp: mem_upd_def)

lemma mem_upd_commute:
  "a + length xs \<le> b \<or> b + length ys \<le> a \<Longrightarrow>
   mem_upd (mem_upd m a xs) b ys = mem_upd (mem_upd m b ys) a xs"
  by (rule ext) (auto simp: mem_upd_def)

text \<open>Writing back a patched copy of a region changes exactly the patched part.\<close>

lemma mem_upd_patch_get:
  assumes "off + length ys \<le> n"
  shows "mem_upd m a (patch (mem_get m a n) off ys) = mem_upd m (a + off) ys"
  using assms
  by (intro ext) (auto simp: mem_upd_def nth_patch nth_mem_get)

text \<open>A region read in two parts into adjacent places.\<close>

lemma patch_mem_get:
  assumes "pos + n + k \<le> length buf"
  shows "patch (patch buf pos (mem_get m a n)) (pos + n) (mem_get m (a + n) k) = patch buf pos (mem_get m a (n + k))"
  using patch_append [of pos "mem_get m a n" "mem_get m (a + n) k" buf] assms by (simp add: mem_get_add)

section \<open>Little-endian integers\<close>

definition le16 :: "u16 \<Rightarrow> bytes" where
  "le16 w = [ucast w, ucast (drop_bit 8 w)]"

definition of_le16 :: "bytes \<Rightarrow> u16" where
  "of_le16 bs = ucast (bs ! 0) OR push_bit 8 (ucast (bs ! 1))"

definition le32 :: "u32 \<Rightarrow> bytes" where
  "le32 w = [ucast w, ucast (drop_bit 8 w), ucast (drop_bit 16 w), ucast (drop_bit 24 w)]"

definition of_le32 :: "bytes \<Rightarrow> u32" where
  "of_le32 bs = ucast (bs ! 0) OR push_bit 8 (ucast (bs ! 1))
     OR push_bit 16 (ucast (bs ! 2)) OR push_bit 24 (ucast (bs ! 3))"

lemma length_le16 [simp, enc_simps]: "length (le16 w) = 2"
  by (simp add: le16_def)

lemma length_le32 [simp, enc_simps]: "length (le32 w) = 4"
  by (simp add: le32_def)

lemma of_le16_le16 [simp, enc_simps]: "of_le16 (le16 w) = w"
  by (rule bit_word_eqI) (auto simp: of_le16_def le16_def bit_simps)

lemma of_le32_le32 [simp, enc_simps]: "of_le32 (le32 w) = w"
proof (rule bit_word_eqI)
  fix n :: nat
  assume "n < LENGTH(32)"
  then consider "n < 8" | "8 \<le> n" "n < 16" | "16 \<le> n" "n < 24" | "24 \<le> n" "n < 32"
    by fastforce
  then show "bit (of_le32 (le32 w)) n = bit w n"
    by cases (auto simp: of_le32_def le32_def bit_simps)
qed

lemma le32_of_le32:
  assumes "length xs = 4"
  shows "le32 (of_le32 xs) = xs"
proof -
  obtain a b c d where xs: "xs = [a, b, c, d]"
    using assms by (auto simp: numeral_eq_Suc length_Suc_conv)
  define w where "w = of_le32 xs"
  have w: "bit w n \<longleftrightarrow> bit a n \<or> (8 \<le> n \<and> bit b (n - 8)) \<or> (16 \<le> n \<and> bit c (n - 16)) \<or>
      (24 \<le> n \<and> bit d (n - 24))" if "n < 32" for n
    using that by (auto simp: w_def xs of_le32_def bit_or_iff bit_push_bit_iff bit_ucast_iff
        dest: bit_imp_le_length)
  have hi: "\<not> bit (x :: u8) (8 + n)" "\<not> bit x (16 + n)" "\<not> bit x (24 + n)" for x n
    using bit_imp_le_length [of x] by fastforce+
  have "ucast w = a" "ucast (drop_bit 8 w) = b" "ucast (drop_bit 16 w) = c" "ucast (drop_bit 24 w) = d"
    by (rule bit_word_eqI; simp add: bit_ucast_iff bit_drop_bit_eq w hi)+
  then have "le32 w = xs" by (simp add: le32_def xs)
  then show ?thesis by (simp add: w_def)
qed

section \<open>Semaphores\<close>

text \<open>
  A semaphore of the OS layer is its count. \<open>tls_os_sem_acquire(sem, 0)\<close> waits for ever on a
  count of zero, which is \<open>None\<close> here: with no other task running, the caller never returns.
\<close>

definition sem_acquire :: "nat \<Rightarrow> nat option" where
  "sem_acquire c = (if c = 0 then None else Some (c - 1))"

definition sem_release :: "nat \<Rightarrow> nat" where
  "sem_release c = c + 1"

lemma sem_acquire_Suc [simp]: "sem_acquire (Suc c) = Some c"
  by (simp add: sem_acquire_def)

lemma sem_acquire_0 [simp]: "sem_acquire 0 = None"
  by (simp add: sem_acquire_def)

lemma sem_release_Suc [simp]: "sem_release c = Suc c"
  by (simp add: sem_release_def)

section \<open>Memory accesses through pointers\<close>

text \<open>
  A pointer argument is the buffer it points to. \<open>buf_put\<close> is a \<open>memcpy\<close> into it and \<open>buf_get\<close>
  a read from it; an access outside the buffer is undefined behaviour, here \<open>None\<close>.
\<close>

definition buf_put :: "'a list \<Rightarrow> nat \<Rightarrow> 'a list \<Rightarrow> 'a list option" where
  "buf_put buf off xs = (if off + length xs \<le> length buf then Some (patch buf off xs) else None)"

definition buf_get :: "'a list \<Rightarrow> nat \<Rightarrow> nat \<Rightarrow> 'a list option" where
  "buf_get buf off n = (if off + n \<le> length buf then Some (slice off n buf) else None)"

lemma buf_put_ok [simp]: "off + length xs \<le> length buf \<Longrightarrow> buf_put buf off xs = Some (patch buf off xs)"
  by (simp add: buf_put_def)

lemma buf_get_ok [simp]: "off + n \<le> length buf \<Longrightarrow> buf_get buf off n = Some (slice off n buf)"
  by (simp add: buf_get_def)

lemma slice_all [simp]: "slice 0 (length xs) xs = xs"
  by (simp add: slice_def)

lemma slice_0 [simp]: "slice off 0 xs = []"
  by (simp add: slice_def)

lemma slice_append_slice:
  "slice off n xs @ slice (off + n) k xs = slice off (n + k) xs"
  by (simp add: slice_def take_add add.commute [of n off])

lemma slice_drop: "slice off n (drop k xs) = slice (k + off) n xs"
  by (simp add: slice_def add.commute)

text \<open>A buffer after \<open>memset(buf, 0, n)\<close>.\<close>

definition zeros :: "nat \<Rightarrow> bytes" where
  "zeros n = replicate n 0"

lemma length_zeros [simp]: "length (zeros n) = n"
  by (simp add: zeros_def)

section \<open>The heap\<close>

text \<open>
  \<open>tls_mem_alloc\<close> either returns a fresh block with unknown contents or NULL. The outcomes of the
  coming calls are the list \<open>heap\<close> (the empty list: every call succeeds), the contents of a fresh
  block are \<open>junk\<close>.
\<close>

record os_state =
  heap :: "bool list"
  junk :: "nat \<Rightarrow> u8"

definition fresh :: "nat \<Rightarrow> 'z os_state_scheme \<Rightarrow> bytes" where
  "fresh n s = map (junk s) [0..<n]"

lemma length_fresh [simp]: "length (fresh n s) = n"
  by (simp add: fresh_def)

definition tls_mem_alloc :: "nat \<Rightarrow> 'z os_state_scheme \<Rightarrow> bytes option \<times> 'z os_state_scheme" where
  "tls_mem_alloc n s =
     (case heap s of
        [] \<Rightarrow> (Some (fresh n s), s)
      | ok # rest \<Rightarrow> (if ok then Some (fresh n s) else None, s\<lparr>heap := rest\<rparr>))"

text \<open>\<open>tls_os_sem_create\<close> allocates its control block from the same heap.\<close>

definition tls_os_sem_create :: "'z os_state_scheme \<Rightarrow> bool \<times> 'z os_state_scheme" where
  "tls_os_sem_create s =
     (case heap s of [] \<Rightarrow> (True, s) | ok # rest \<Rightarrow> (ok, s\<lparr>heap := rest\<rparr>))"

lemma tls_os_sem_create_ok [simp]: "heap s = [] \<Longrightarrow> tls_os_sem_create s = (True, s)"
  by (simp add: tls_os_sem_create_def)

lemma tls_mem_alloc_ok [simp]:
  "heap s = [] \<Longrightarrow> tls_mem_alloc n s = (Some (fresh n s), s)"
  by (simp add: tls_mem_alloc_def)

lemma tls_mem_alloc_fail:
  "heap s = False # r \<Longrightarrow> tls_mem_alloc n s = (None, s\<lparr>heap := r\<rparr>)"
  by (simp add: tls_mem_alloc_def)

end
