(* ===== verification/Conv.thy ===== *)
theory Conv
  imports Prelude
begin

text \<open>
  String conversions of \<^verbatim>\<open>src/Platform/Common/utils/utils.c\<close>: decimal, hexadecimal and
  dotted-quad parsing and printing. A \<open>char *\<close> is the list of the bytes from the pointer to the
  end of its buffer, the terminating NUL included; a read past that list and a signed overflow
  are undefined in C and give \<open>None\<close>. Output parameters are an \<open>option\<close> that is \<open>None\<close> when the
  function returns without writing them.
\<close>

named_theorems conv_simps \<open>printing and parsing of digits\<close>

section \<open>Decimal\<close>

definition atodec :: "u8 \<Rightarrow> int" where
  "atodec ch = (if ch \<ge> 48 \<and> ch \<le> 57 then uint ch - 48 else - 1)"

text \<open>The loop of \<open>strtodec\<close>: the last digit \<open>i\<close> and the value \<open>dd\<close>; \<open>Inl\<close> is the early return.\<close>

fun strtodec_loop :: "int \<Rightarrow> int \<Rightarrow> bytes \<Rightarrow> (unit + int \<times> int) option" where
  "strtodec_loop i dd [] = None"
| "strtodec_loop i dd (c # str) =
     (if c = 0 then Some (Inr (i, dd))
      else let i' = atodec c
           in if i' < 0 then Some (Inl ())
              else if dd * 10 + i' \<ge> 2 ^ 31 then None
              else strtodec_loop i' (dd * 10 + i') str)"

definition strtodec :: "bytes \<Rightarrow> (int \<times> int option) option" where
  "strtodec str =
     (case str of [] \<Rightarrow> None
      | c # cs \<Rightarrow>
        let sign = (if c = 45 then - 1 else 1); rest = (if c = 45 then cs else str)
        in case strtodec_loop (- 1) 0 rest of
             None \<Rightarrow> None
           | Some (Inl _) \<Rightarrow> Some (- 1, None)
           | Some (Inr (i, dd)) \<Rightarrow> Some (if i < 0 then - 1 else 0, Some (dd * sign)))"

section \<open>Hexadecimal\<close>

definition atohex :: "u8 \<Rightarrow> int" where
  "atohex ch =
     (if ch \<ge> 48 \<and> ch \<le> 57 then uint ch - 48
      else if ch \<ge> 97 \<and> ch \<le> 102 then uint ch - 97 + 10
      else if ch \<ge> 65 \<and> ch \<le> 70 then uint ch - 65 + 10
      else - 1)"

fun strtohex_loop :: "int \<Rightarrow> nat \<Rightarrow> u32 \<Rightarrow> bytes \<Rightarrow> (unit + int \<times> u32) option" where
  "strtohex_loop n i dd [] = None"
| "strtohex_loop n i dd (c # str) =
     (if c = 0 then Some (Inr (n, dd))
      else let n' = atohex c
           in if n' < 0 then Some (Inl ())
              else let dd' = push_bit 4 dd + word_of_int n'
                   in if i + 1 > 8 then Some (Inl ())
                      else strtohex_loop n' (i + 1) dd' str)"

definition strtohex :: "bytes \<Rightarrow> (int \<times> u32 option) option" where
  "strtohex str =
     (case strtohex_loop (- 1) 0 0 str of
        None \<Rightarrow> None
      | Some (Inl _) \<Rightarrow> Some (- 1, None)
      | Some (Inr (n, dd)) \<Rightarrow> Some (if n < 0 then - 1 else 0, Some dd))"

text \<open>\<open>strtohexarray\<close> returns its code and the bytes written to the array so far.\<close>

fun strtohexarray :: "nat \<Rightarrow> bytes \<Rightarrow> (int \<times> bytes) option" where
  "strtohexarray 0 str =
     (case str of [] \<Rightarrow> None | c # _ \<Rightarrow> Some (if c = 0 then 0 else - 1, []))"
| "strtohexarray (Suc cnt) str =
     (case str of [] \<Rightarrow> None
      | c1 # str1 \<Rightarrow>
        if atohex c1 < 0 then Some (- 1, [])
        else let tmp = (word_of_int (atohex c1 * 16) :: u8) AND 0xF0
             in case str1 of [] \<Rightarrow> None
                | c2 # str2 \<Rightarrow>
                  if atohex c2 < 0 then Some (- 1, [])
                  else let tmp' = tmp OR (word_of_int (atohex c2) AND 0x0F)
                       in case strtohexarray cnt str2 of None \<Rightarrow> None
                          | Some (ret, des) \<Rightarrow> Some (ret, tmp' # des))"

definition hex_to_digit :: "int \<Rightarrow> int" where
  "hex_to_digit c =
     (if 48 \<le> c \<and> c \<le> 57 then c - 48
      else if 65 \<le> c \<and> c \<le> 70 then c - (65 - 10)
      else if 97 \<le> c \<and> c \<le> 102 then c - (97 - 10)
      else - 1)"

definition digit_to_hex :: "int \<Rightarrow> int" where
  "digit_to_hex c =
     (if 0 \<le> c \<and> c \<le> 9 then c + 48
      else if 10 \<le> c \<and> c \<le> 15 then c - 10 + 65
      else - 1)"

text \<open>\<open>strlen\<close>: the distance to the first NUL, \<open>None\<close> when the buffer holds none.\<close>

fun strlen :: "bytes \<Rightarrow> nat option" where
  "strlen [] = None"
| "strlen (c # cs) = (if c = 0 then Some 0 else map_option Suc (strlen cs))"

fun hexstr_loop :: "u32 \<Rightarrow> bytes \<Rightarrow> int \<times> u32" where
  "hexstr_loop d [] = (0, d)"
| "hexstr_loop d (ch # buf) =
     (let c = hex_to_digit (uint ch)
      in if c < 0 then (- 1, d)
         else hexstr_loop (ucast (word_of_int c :: u8) OR push_bit 4 d) buf)"

definition hexstr_to_unit :: "bytes \<Rightarrow> (int \<times> u32) option" where
  "hexstr_to_unit buf =
     (case strlen buf of None \<Rightarrow> None
      | Some len \<Rightarrow> if len > 8 then Some (- 1, 0) else Some (hexstr_loop 0 (take len buf)))"

section \<open>Unsigned decimal\<close>

definition isdigit :: "u8 \<Rightarrow> bool" where
  "isdigit c \<longleftrightarrow> c \<ge> 48 \<and> c \<le> 57"

fun dec_value :: "nat \<Rightarrow> bytes \<Rightarrow> nat" where
  "dec_value n [] = n"
| "dec_value n (c # cs) = dec_value (n * 10 + (unat c - 48)) cs"

text \<open>\<open>atoi\<close> of a digit string is its value; a value outside \<open>int\<close> is undefined.\<close>

definition string_to_uint :: "bytes \<Rightarrow> (int \<times> u32 option) option" where
  "string_to_uint buf =
     (case strlen buf of None \<Rightarrow> None
      | Some len \<Rightarrow>
        if len > 11 \<or> len = 0 then Some (- 1, None)
        else if \<not> list_all isdigit (take len buf) then Some (- 1, None)
        else if dec_value 0 (take len buf) \<ge> 2 ^ 31 then None
        else Some (0, Some (word_of_nat (dec_value 0 (take len buf)))))"

section \<open>Dotted quads and MAC addresses\<close>

text \<open>
  \<open>strtoip\<close> overwrites each dot with a NUL while it parses the number before it and restores it
  afterwards; a number it refuses leaves the NUL in place, so the string is part of the result.
  The scan for the next dot has no test for the end of the string.
\<close>

datatype ip_scan = Fail bytes | Quads bytes nat u32

function strtoip_scan :: "nat \<Rightarrow> nat \<Rightarrow> nat \<Rightarrow> u32 \<Rightarrow> bytes \<Rightarrow> ip_scan option" where
  "strtoip_scan i head tail ip str =
     (if i < 3 then
        if tail \<ge> length str then None
        else if str ! tail = 46 then
          let str0 = str[tail := 0]; ip' = push_bit 8 ip
          in case strtodec (drop head str0) of
               None \<Rightarrow> None
             | Some (ret, dec) \<Rightarrow>
               if ret < 0 then Some (Fail str0)
               else case dec of None \<Rightarrow> Some (Fail str0)
                    | Some n \<Rightarrow> if n < 0 \<or> n > 255 then Some (Fail str0)
                        else strtoip_scan (i + 1) (tail + 1) (tail + 1)
                               (ip' + word_of_int n) (str0[tail := 46])
        else strtoip_scan i head (tail + 1) ip str
      else Some (Quads str head ip))"
  by pat_completeness auto
termination
  by (relation "measure (\<lambda>(i, head, tail, ip, str). length str - tail)") auto

declare strtoip_scan.simps [simp del]

definition strtoip :: "bytes \<Rightarrow> (int \<times> u32 option \<times> bytes) option" where
  "strtoip str =
     (case strtoip_scan 0 0 0 0 str of
        None \<Rightarrow> None
      | Some (Fail str') \<Rightarrow> Some (- 1, None, str')
      | Some (Quads str' head ip) \<Rightarrow>
        let ip' = push_bit 8 ip
        in case strtodec (drop head str') of
             None \<Rightarrow> None
           | Some (ret, dec) \<Rightarrow>
             if ret < 0 then Some (- 1, None, str')
             else case dec of None \<Rightarrow> Some (- 1, None, str')
                  | Some n \<Rightarrow> if n < 0 \<or> n > 255 then Some (- 1, None, str')
                      else let ip'' = ip' + word_of_int n
                           in Some (if ip'' = 0 then - 1 else 0, Some ip'', str'))"

text \<open>The conversions \<open>%d\<close> (of a value from 0 to 255) and \<open>%02x\<close> of \<open>sprintf\<close>.\<close>

definition dec_char :: "nat \<Rightarrow> u8" where
  "dec_char k = word_of_nat (48 + k)"

definition print_dec :: "nat \<Rightarrow> bytes" where
  "print_dec n =
     (if n < 10 then [dec_char n]
      else if n < 100 then [dec_char (n div 10), dec_char (n mod 10)]
      else [dec_char (n div 100), dec_char (n div 10 mod 10), dec_char (n mod 10)])"

definition hex_char :: "nat \<Rightarrow> u8" where
  "hex_char n = (if n < 10 then word_of_nat (48 + n) else word_of_nat (87 + n))"

definition iptostr :: "u32 \<Rightarrow> bytes" where
  "iptostr ip =
     print_dec (unat (drop_bit 24 ip AND 0xFF)) @ [46]
     @ print_dec (unat (drop_bit 16 ip AND 0xFF)) @ [46]
     @ print_dec (unat (drop_bit 8 ip AND 0xFF)) @ [46]
     @ print_dec (unat (drop_bit 0 ip AND 0xFF)) @ [0]"

definition mactostr :: "bytes \<Rightarrow> bytes" where
  "mactostr mac =
     concat (map (\<lambda>i. [hex_char (unat (mac ! i) div 16), hex_char (unat (mac ! i) mod 16)]) [0..<6])
     @ [0]"

section \<open>Digits\<close>

lemma unat_word_of_nat_u8: "n < 256 \<Longrightarrow> unat (word_of_nat n :: u8) = n"
  by (simp add: unsigned_of_nat take_bit_nat_eq_self)

lemma unat_dec_char: "k < 10 \<Longrightarrow> unat (dec_char k) = 48 + k"
  unfolding dec_char_def by (rule unat_word_of_nat_u8) simp

lemma unat_hex_char: "k < 16 \<Longrightarrow> unat (hex_char k) = (if k < 10 then 48 + k else 87 + k)"
  unfolding hex_char_def by (simp only: unat_word_of_nat_u8 split: if_split) auto

lemma uint_from_unat: "unat w = n \<Longrightarrow> uint w = int n"
  by (simp add: uint_nat)

lemma atodec_dec_char [simp]: "k < 10 \<Longrightarrow> atodec (dec_char k) = int k"
  using unat_dec_char [of k] uint_from_unat [OF unat_dec_char, of k]
  by (simp add: atodec_def word_le_nat_alt)

lemma dec_char_neq [simp]:
  assumes "k < 10"
  shows "dec_char k \<noteq> 0" "dec_char k \<noteq> 45" "dec_char k \<noteq> 46" "46 \<noteq> dec_char k"
  using unat_dec_char [OF assms] assms by auto

lemma atohex_hex_char [simp]: "k < 16 \<Longrightarrow> atohex (hex_char k) = int k"
  using unat_hex_char [of k] uint_from_unat [OF unat_hex_char, of k]
  by (auto simp add: atohex_def word_le_nat_alt)

lemma strtodec_loop_digit:
  assumes "k < 10" "dd * 10 + int k < 2 ^ 31" "0 \<le> dd"
  shows "strtodec_loop i dd (dec_char k # str) = strtodec_loop (int k) (dd * 10 + int k) str"
  using assms by (simp add: Let_def)

lemma dec_split: "(n :: nat) = 100 * (n div 100) + 10 * (n div 10 mod 10) + n mod 10"
proof -
  have "n div 100 = n div 10 div 10" by (simp flip: div_mult2_eq)
  moreover have "n = 10 * (n div 10) + n mod 10" by simp
  moreover have "n div 10 = 10 * (n div 10 div 10) + n div 10 mod 10"
    by (rule mult_div_mod_eq [symmetric])
  ultimately show ?thesis by linarith
qed

lemma print_dec_digits:
  assumes "n < 256"
  obtains (one) "n < 10" "print_dec n = [dec_char n]"
  | (two) a b where "a < 10" "b < 10" "n = 10 * a + b" "print_dec n = [dec_char a, dec_char b]"
  | (three) a b c where "a < 10" "b < 10" "c < 10" "n = 100 * a + 10 * b + c"
      "print_dec n = [dec_char a, dec_char b, dec_char c]"
proof (cases "n < 10")
  case True
  then show ?thesis using one by (simp add: print_dec_def)
next
  case ge10: False
  show ?thesis
  proof (cases "n < 100")
    case True
    then show ?thesis
      using ge10 two [of "n div 10" "n mod 10"] by (simp add: print_dec_def)
  next
    case False
    have "n = 100 * (n div 100) + 10 * (n div 10 mod 10) + n mod 10"
      by (rule dec_split)
    moreover have "n div 100 < 10" using assms by simp
    ultimately show ?thesis
      using False three [of "n div 100" "n div 10 mod 10" "n mod 10"]
      by (simp add: print_dec_def)
  qed
qed

lemma strtodec_print_dec:
  assumes "n < 256"
  shows "strtodec (print_dec n @ 0 # rest) = Some (0, Some (int n))"
  by (rule print_dec_digits [OF assms]) (simp_all add: strtodec_def Let_def)

lemma print_dec_no_dot: "n < 256 \<Longrightarrow> 46 \<notin> set (print_dec n)"
  by (erule print_dec_digits) simp_all

section \<open>The dot scan\<close>

lemma scan_done: "\<not> i < 3 \<Longrightarrow> strtoip_scan i head tail ip str = Some (Quads str head ip)"
  by (simp add: strtoip_scan.simps)

lemma scan_skip:
  assumes "i < 3" "46 \<notin> set xs"
  shows "strtoip_scan i head (length pre) ip (pre @ xs @ post) =
    strtoip_scan i head (length pre + length xs) ip (pre @ xs @ post)"
  using assms(2)
proof (induction xs arbitrary: pre)
  case Nil
  then show ?case by simp
next
  case (Cons x xs)
  have "strtoip_scan i head (length pre) ip (pre @ (x # xs) @ post) =
    strtoip_scan i head (length pre + 1) ip (pre @ (x # xs) @ post)"
    using assms(1) Cons.prems by (subst strtoip_scan.simps) (auto simp: nth_append)
  also have "\<dots> = strtoip_scan i head (length (pre @ [x]) + length xs) ip (pre @ (x # xs) @ post)"
    using Cons.IH [of "pre @ [x]"] Cons.prems by simp
  finally show ?case by simp
qed

lemma scan_quad:
  assumes "i < 3" "n < 256"
  shows "strtoip_scan i (length pre) (length pre) ip (pre @ print_dec n @ 46 # post) =
    strtoip_scan (i + 1) (length (pre @ print_dec n @ [46])) (length (pre @ print_dec n @ [46]))
      (push_bit 8 ip + word_of_nat n) (pre @ print_dec n @ 46 # post)"
proof -
  let ?str = "pre @ print_dec n @ 46 # post"
  let ?t = "length pre + length (print_dec n)"
  have at: "?str ! ?t = 46" and len: "?t < length ?str"
    by (simp_all add: nth_append)
  have upd: "?str[?t := 0] = pre @ print_dec n @ 0 # post"
    by (simp add: list_update_append)
  have "strtoip_scan i (length pre) (length pre) ip ?str =
      strtoip_scan i (length pre) ?t ip ?str"
    using assms(1) print_dec_no_dot [OF assms(2)]
    by (rule scan_skip [of i "print_dec n" _ pre ip "46 # post"])
  also have "\<dots> = strtoip_scan (i + 1) (?t + 1) (?t + 1) (push_bit 8 ip + word_of_nat n) ?str"
    using assms at len
    by (subst strtoip_scan.simps) (simp add: upd strtodec_print_dec Let_def list_update_append)
  finally show ?thesis by simp
qed

lemma no_dot_overread:
  assumes "i < 3" "46 \<notin> set (drop tail str)" "tail \<le> length str"
  shows "strtoip_scan i head tail ip str = None"
proof -
  have "strtoip_scan i head tail ip str = strtoip_scan i head (length str) ip str"
    using scan_skip [OF assms(1,2), of head "take tail str" ip "[]"] assms(3) by simp
  also have "\<dots> = None" using assms(1) by (simp add: strtoip_scan.simps)
  finally show ?thesis .
qed

section \<open>Bytes of a 32-bit value\<close>

lemma unat_byte_of: "unat (drop_bit k (ip :: u32) AND 0xFF) = unat ip div 2 ^ k mod 256"
proof -
  have "drop_bit k ip AND 0xFF = take_bit 8 (drop_bit k ip)"
    by (simp only: take_bit_eq_mask) (simp add: mask_eq_exp_minus_1)
  moreover have "unat (take_bit 8 (drop_bit k ip)) = take_bit 8 (unat (drop_bit k ip))"
    by (simp only: unsigned_take_bit_eq)
  moreover have "unat (drop_bit k ip) = drop_bit k (unat ip)"
    by (rule unat_drop_bit_eq)
  ultimately show ?thesis by (simp only: take_bit_eq_mod drop_bit_eq_div) simp
qed

lemma nat_from_bytes:
  fixes x :: nat
  assumes "x < 4294967296"
  shows "((x div 16777216 mod 256 * 256 + x div 65536 mod 256) * 256 + x div 256 mod 256) * 256
    + x mod 256 = x"
proof -
  have "x div 16777216 mod 256 = x div 16777216" using assms by simp
  moreover have "x div 16777216 = x div 65536 div 256" "x div 65536 = x div 256 div 256"
    by (simp_all flip: div_mult2_eq)
  ultimately show ?thesis by (simp add: mult.commute)
qed

lemma quads_value:
  "((word_of_nat (unat (drop_bit 24 ip AND 0xFF)) * 256
       + word_of_nat (unat (drop_bit 16 ip AND 0xFF))) * 256
       + word_of_nat (unat (drop_bit 8 ip AND 0xFF))) * 256
       + word_of_nat (unat (ip AND 0xFF)) = (ip :: u32)"
  (is "?lhs = ip")
proof -
  let ?x = "unat ip"
  have low: "unat (ip AND 0xFF) = ?x mod 256"
    using unat_byte_of [of 0 ip] by simp
  have "?lhs = word_of_nat (((?x div 16777216 mod 256 * 256 + ?x div 65536 mod 256) * 256
      + ?x div 256 mod 256) * 256 + ?x mod 256)"
    unfolding low unat_byte_of by simp
  also have "\<dots> = ip"
  proof -
    have "?x < 4294967296" using unsigned_less [of ip, where 'a = nat] by simp
    then show ?thesis by (simp only: nat_from_bytes) simp
  qed
  finally show ?thesis .
qed

lemma byte_from_nibbles:
  "((word_of_nat (unat b div 16) * 16 :: u8) AND 0xF0) OR (word_of_nat (unat b mod 16) AND 0x0F)
   = (b :: u8)"
proof -
  have "unat b div 16 = unat (drop_bit 4 b)"
    by (simp only: unat_drop_bit_eq) (simp add: drop_bit_eq_div)
  then have hi: "(word_of_nat (unat b div 16) * 16 :: u8) = push_bit 4 (drop_bit 4 b)"
    by (simp only: push_bit_eq_mult) simp
  have "unat b mod 16 = unat (take_bit 4 b)"
    by (simp only: unsigned_take_bit_eq) (simp add: take_bit_eq_mod)
  then have lo: "(word_of_nat (unat b mod 16) :: u8) = take_bit 4 b"
    by simp
  have masks: "(0x0F :: u8) = mask 4" "(0xF0 :: u8) = NOT (mask 4)"
    by (simp_all add: mask_eq_exp_minus_1)
  show ?thesis unfolding hi lo masks
    by (rule bit_word_eqI) (auto simp: bit_simps)
qed

lemma strtohexarray_byte:
  "strtohexarray (Suc n) (hex_char (unat b div 16) # hex_char (unat b mod 16) # rest) =
   map_option (\<lambda>(ret, des). (ret, b # des)) (strtohexarray n rest)"
proof -
  have "unat b div 16 < 16" using unsigned_less [of b, where 'a = nat] by simp
  then show ?thesis
    by (simp add: Let_def byte_from_nibbles split: option.split)
qed

section \<open>Properties\<close>

text \<open>\<open>strtoip\<close> reads back what \<open>iptostr\<close> prints for every address, leaves the string as it
  was, and refuses (return value -1, with the address still stored) exactly the address 0.0.0.0.\<close>

theorem strtoip_iptostr:
  "strtoip (iptostr ip) = Some (if ip = 0 then - 1 else 0, Some ip, iptostr ip)"
proof -
  define q where "q k = unat (drop_bit k ip AND 0xFF)" for k
  have q: "q k < 256" for k
    unfolding q_def unat_byte_of by simp
  have str: "iptostr ip = print_dec (q 24) @ 46 # print_dec (q 16) @ 46 # print_dec (q 8)
      @ 46 # print_dec (q 0) @ [0]"
    by (simp add: iptostr_def q_def)
  let ?p1 = "print_dec (q 24) @ [46]"
  let ?p2 = "?p1 @ print_dec (q 16) @ [46]"
  let ?p3 = "?p2 @ print_dec (q 8) @ [46]"
  let ?v = "(word_of_nat (q 24) * 256 + word_of_nat (q 16)) * 256 + word_of_nat (q 8) :: u32"
  have "strtoip_scan 0 0 0 0 (iptostr ip) =
      strtoip_scan 1 (length ?p1) (length ?p1) (word_of_nat (q 24)) (iptostr ip)"
    using scan_quad [of 0 "q 24" "[]" 0] q by (simp add: str)
  also have "\<dots> = strtoip_scan 2 (length ?p2) (length ?p2)
      (word_of_nat (q 24) * 256 + word_of_nat (q 16)) (iptostr ip)"
    using scan_quad [of 1 "q 16" ?p1 "word_of_nat (q 24)"] q
    by (simp add: str push_bit_eq_mult numeral_2_eq_2)
  also have "\<dots> = strtoip_scan 3 (length ?p3) (length ?p3) ?v (iptostr ip)"
    using scan_quad [of 2 "q 8" ?p2 "word_of_nat (q 24) * 256 + word_of_nat (q 16)"] q
    by (simp add: str push_bit_eq_mult numeral_3_eq_3)
  also have "\<dots> = Some (Quads (iptostr ip) (length ?p3) ?v)"
    by (simp add: scan_done)
  finally have scan: "strtoip_scan 0 0 0 0 (iptostr ip) =
      Some (Quads (iptostr ip) (length ?p3) ?v)" .
  have rest: "drop (length ?p3) (iptostr ip) = print_dec (q 0) @ 0 # []"
  proof -
    have "iptostr ip = ?p3 @ print_dec (q 0) @ 0 # []" by (simp add: str)
    then show ?thesis by (metis append_eq_conv_conj)
  qed
  have val_eq: "push_bit 8 ?v + word_of_nat (q 0) = ip"
    using quads_value [of ip] by (simp add: q_def push_bit_eq_mult)
  show ?thesis
    using val_eq q [of 0] unfolding strtoip_def scan option.case ip_scan.case Let_def rest
    by (simp add: strtodec_print_dec)
qed

text \<open>\<open>strtohexarray\<close> reads back the six bytes of a MAC address that \<open>mactostr\<close> printed, with
  return value 0.\<close>

theorem strtohexarray_mactostr:
  assumes "length mac = 6"
  shows "strtohexarray 6 (mactostr mac) = Some (0, mac)"
proof -
  obtain a b c d e f where mac: "mac = [a, b, c, d, e, f]"
    using assms by (auto simp: numeral_eq_Suc length_Suc_conv)
  have six: "6 = Suc (Suc (Suc (Suc (Suc (Suc 0)))))" by simp
  have idx: "[0..<6] = [0, 1, 2, 3, 4, 5]" by code_simp
  show ?thesis
    unfolding mac mactostr_def idx six list.map concat.simps append.simps
    by (simp add: strtohexarray_byte del: strtohexarray.simps(2))
qed

theorem strtohexarray_mactostr_witness:
  "strtohexarray 6 (mactostr [0, 0x25, 8, 0xAB, 0xCD, 0xEF]) = Some (0, [0, 0x25, 8, 0xAB, 0xCD, 0xEF])"
  by (rule strtohexarray_mactostr) simp

text \<open>On a string in which the terminating NUL is reached before any dot, \<open>strtoip\<close> runs past
  the end of the buffer: the scan for three dots has no test for the end of the string.\<close>

theorem strtoip_overread:
  assumes "46 \<notin> set str"
  shows "strtoip str = None"
  using no_dot_overread [of 0 0 str 0 0] assms by (simp add: strtoip_def)

theorem strtoip_overread_witness: "strtoip [49, 50, 0] = None"
  by (rule strtoip_overread) simp

end
