(* ===== verification/Crc.thy ===== *)
theory Crc
  imports Prelude
begin

text \<open>
  Checksums of \<^verbatim>\<open>src/Platform/Common/utils/utils.c\<close>: the table-driven CRC-8
  (\<open>chk_crc8\<close>, \<open>get_crc8\<close>, \<open>calculate_crc8\<close>), the unrolled CRC-32 (\<open>_cal_crc32\<close>,
  \<open>get_crc32\<close>) that guards the parameter partitions, and the running \<open>checksum\<close>. A pointer and
  its length are the list of the bytes they delimit. The CRC-8 table is shown to be eight steps of
  the reflected shift register of the polynomial 0x07, and the 32 exclusive-or equations of
  \<open>_cal_crc32\<close> to be eight steps of the shift register of 0x04C11DB7, so that \<open>get_crc32\<close> is the
  standard reflected CRC-32.
\<close>

section \<open>CRC-8\<close>

definition crc8_tbl :: bytes where
  "crc8_tbl = [
    0x00, 0x91, 0xe3, 0x72, 0x07, 0x96, 0xe4, 0x75,
    0x0e, 0x9f, 0xed, 0x7c, 0x09, 0x98, 0xea, 0x7b,
    0x1c, 0x8d, 0xff, 0x6e, 0x1b, 0x8a, 0xf8, 0x69,
    0x12, 0x83, 0xf1, 0x60, 0x15, 0x84, 0xf6, 0x67,
    0x38, 0xa9, 0xdb, 0x4a, 0x3f, 0xae, 0xdc, 0x4d,
    0x36, 0xa7, 0xd5, 0x44, 0x31, 0xa0, 0xd2, 0x43,
    0x24, 0xb5, 0xc7, 0x56, 0x23, 0xb2, 0xc0, 0x51,
    0x2a, 0xbb, 0xc9, 0x58, 0x2d, 0xbc, 0xce, 0x5f,
    0x70, 0xe1, 0x93, 0x02, 0x77, 0xe6, 0x94, 0x05,
    0x7e, 0xef, 0x9d, 0x0c, 0x79, 0xe8, 0x9a, 0x0b,
    0x6c, 0xfd, 0x8f, 0x1e, 0x6b, 0xfa, 0x88, 0x19,
    0x62, 0xf3, 0x81, 0x10, 0x65, 0xf4, 0x86, 0x17,
    0x48, 0xd9, 0xab, 0x3a, 0x4f, 0xde, 0xac, 0x3d,
    0x46, 0xd7, 0xa5, 0x34, 0x41, 0xd0, 0xa2, 0x33,
    0x54, 0xc5, 0xb7, 0x26, 0x53, 0xc2, 0xb0, 0x21,
    0x5a, 0xcb, 0xb9, 0x28, 0x5d, 0xcc, 0xbe, 0x2f,
    0xe0, 0x71, 0x03, 0x92, 0xe7, 0x76, 0x04, 0x95,
    0xee, 0x7f, 0x0d, 0x9c, 0xe9, 0x78, 0x0a, 0x9b,
    0xfc, 0x6d, 0x1f, 0x8e, 0xfb, 0x6a, 0x18, 0x89,
    0xf2, 0x63, 0x11, 0x80, 0xf5, 0x64, 0x16, 0x87,
    0xd8, 0x49, 0x3b, 0xaa, 0xdf, 0x4e, 0x3c, 0xad,
    0xd6, 0x47, 0x35, 0xa4, 0xd1, 0x40, 0x32, 0xa3,
    0xc4, 0x55, 0x27, 0xb6, 0xc3, 0x52, 0x20, 0xb1,
    0xca, 0x5b, 0x29, 0xb8, 0xcd, 0x5c, 0x2e, 0xbf,
    0x90, 0x01, 0x73, 0xe2, 0x97, 0x06, 0x74, 0xe5,
    0x9e, 0x0f, 0x7d, 0xec, 0x99, 0x08, 0x7a, 0xeb,
    0x8c, 0x1d, 0x6f, 0xfe, 0x8b, 0x1a, 0x68, 0xf9,
    0x82, 0x13, 0x61, 0xf0, 0x85, 0x14, 0x66, 0xf7,
    0xa8, 0x39, 0x4b, 0xda, 0xaf, 0x3e, 0x4c, 0xdd,
    0xa6, 0x37, 0x45, 0xd4, 0xa1, 0x30, 0x42, 0xd3,
    0xb4, 0x25, 0x57, 0xc6, 0xb3, 0x22, 0x50, 0xc1,
    0xba, 0x2b, 0x59, 0xc8, 0xbd, 0x2c, 0x5e, 0xcf]"

definition calculate_crc8 :: "u8 \<Rightarrow> bytes \<Rightarrow> u8" where
  "calculate_crc8 crc8 ptr = foldl (\<lambda>crc8 data. crc8_tbl ! unat (crc8 XOR data)) crc8 ptr"

definition get_crc8 :: "bytes \<Rightarrow> u8" where
  "get_crc8 ptr = foldl (\<lambda>crc8 data. crc8_tbl ! unat (crc8 XOR data)) 0 ptr"

definition chk_crc8 :: "bytes \<Rightarrow> int" where
  "chk_crc8 ptr =
     (let crc8 = foldl (\<lambda>crc8 data. crc8_tbl ! unat (crc8 XOR data)) 0 ptr
      in if crc8 = 0 then 0 else - 1)"

section \<open>CRC-32\<close>

definition in_data_bits :: "u8 \<Rightarrow> bytes" where
  "in_data_bits data_8 = map (\<lambda>i. drop_bit i data_8 AND 1) [0..<8]"

definition crc_bits :: "u32 \<Rightarrow> bytes" where
  "crc_bits crc_result = map (\<lambda>i. ucast (drop_bit i crc_result) AND 1) [0..<32]"

text \<open>The 32 equations of \<open>_cal_crc32\<close>, with \<open>d\<close> for \<open>in_data_buf\<close> and \<open>c\<close> for \<open>crc_buf\<close>.\<close>

definition crc_out :: "bytes \<Rightarrow> bytes \<Rightarrow> bytes" where
  "crc_out d c = [
    d ! 1 XOR d ! 7 XOR c ! 30 XOR c ! 24,
    d ! 0 XOR d ! 1 XOR d ! 6 XOR d ! 7 XOR c ! 31 XOR c ! 30 XOR c ! 25 XOR c ! 24,
    d ! 0 XOR d ! 1 XOR d ! 5 XOR d ! 6 XOR d ! 7 XOR c ! 31 XOR c ! 30 XOR c ! 26
      XOR c ! 25 XOR c ! 24,
    d ! 0 XOR d ! 4 XOR d ! 5 XOR d ! 6 XOR c ! 31 XOR c ! 27 XOR c ! 26 XOR c ! 25,
    d ! 1 XOR d ! 3 XOR d ! 4 XOR d ! 5 XOR d ! 7 XOR c ! 30 XOR c ! 28 XOR c ! 27
      XOR c ! 26 XOR c ! 24,
    d ! 0 XOR d ! 1 XOR d ! 2 XOR d ! 3 XOR d ! 4 XOR d ! 6 XOR d ! 7 XOR c ! 31 XOR c ! 30
      XOR c ! 29 XOR c ! 28 XOR c ! 27 XOR c ! 25 XOR c ! 24,
    d ! 0 XOR d ! 1 XOR d ! 2 XOR d ! 3 XOR d ! 5 XOR d ! 6 XOR c ! 31 XOR c ! 30 XOR c ! 29
      XOR c ! 28 XOR c ! 26 XOR c ! 25,
    d ! 0 XOR d ! 2 XOR d ! 4 XOR d ! 5 XOR d ! 7 XOR c ! 31 XOR c ! 29 XOR c ! 27
      XOR c ! 26 XOR c ! 24,
    d ! 3 XOR d ! 4 XOR d ! 6 XOR d ! 7 XOR c ! 28 XOR c ! 27 XOR c ! 25 XOR c ! 24
      XOR c ! 0,
    d ! 2 XOR d ! 3 XOR d ! 5 XOR d ! 6 XOR c ! 29 XOR c ! 28 XOR c ! 26 XOR c ! 25
      XOR c ! 1,
    d ! 2 XOR d ! 4 XOR d ! 5 XOR d ! 7 XOR c ! 29 XOR c ! 27 XOR c ! 26 XOR c ! 24
      XOR c ! 2,
    d ! 3 XOR d ! 4 XOR d ! 6 XOR d ! 7 XOR c ! 28 XOR c ! 27 XOR c ! 25 XOR c ! 24
      XOR c ! 3,
    d ! 1 XOR d ! 2 XOR d ! 3 XOR d ! 5 XOR d ! 6 XOR d ! 7 XOR c ! 30 XOR c ! 29 XOR c ! 28
      XOR c ! 26 XOR c ! 25 XOR c ! 24 XOR c ! 4,
    d ! 0 XOR d ! 1 XOR d ! 2 XOR d ! 4 XOR d ! 5 XOR d ! 6 XOR c ! 31 XOR c ! 30 XOR c ! 29
      XOR c ! 27 XOR c ! 26 XOR c ! 25 XOR c ! 5,
    d ! 0 XOR d ! 1 XOR d ! 3 XOR d ! 4 XOR d ! 5 XOR c ! 31 XOR c ! 30 XOR c ! 28
      XOR c ! 27 XOR c ! 26 XOR c ! 6,
    d ! 0 XOR d ! 2 XOR d ! 3 XOR d ! 4 XOR c ! 31 XOR c ! 29 XOR c ! 28 XOR c ! 27
      XOR c ! 7,
    d ! 2 XOR d ! 3 XOR d ! 7 XOR c ! 29 XOR c ! 28 XOR c ! 24 XOR c ! 8,
    d ! 1 XOR d ! 2 XOR d ! 6 XOR c ! 30 XOR c ! 29 XOR c ! 25 XOR c ! 9,
    d ! 0 XOR d ! 1 XOR d ! 5 XOR c ! 31 XOR c ! 30 XOR c ! 26 XOR c ! 10,
    d ! 0 XOR d ! 4 XOR c ! 31 XOR c ! 27 XOR c ! 11,
    d ! 3 XOR c ! 28 XOR c ! 12,
    d ! 2 XOR c ! 29 XOR c ! 13,
    d ! 7 XOR c ! 24 XOR c ! 14,
    d ! 1 XOR d ! 6 XOR d ! 7 XOR c ! 30 XOR c ! 25 XOR c ! 24 XOR c ! 15,
    d ! 0 XOR d ! 5 XOR d ! 6 XOR c ! 31 XOR c ! 26 XOR c ! 25 XOR c ! 16,
    d ! 4 XOR d ! 5 XOR c ! 27 XOR c ! 26 XOR c ! 17,
    d ! 1 XOR d ! 3 XOR d ! 4 XOR d ! 7 XOR c ! 30 XOR c ! 28 XOR c ! 27 XOR c ! 24
      XOR c ! 18,
    d ! 0 XOR d ! 2 XOR d ! 3 XOR d ! 6 XOR c ! 31 XOR c ! 29 XOR c ! 28 XOR c ! 25
      XOR c ! 19,
    d ! 1 XOR d ! 2 XOR d ! 5 XOR c ! 30 XOR c ! 29 XOR c ! 26 XOR c ! 20,
    d ! 0 XOR d ! 1 XOR d ! 4 XOR c ! 31 XOR c ! 30 XOR c ! 27 XOR c ! 21,
    d ! 0 XOR d ! 3 XOR c ! 31 XOR c ! 28 XOR c ! 22,
    d ! 2 XOR c ! 23 XOR c ! 29]"

definition bits_to_u32 :: "bytes \<Rightarrow> u32" where
  "bits_to_u32 out =
     foldl (\<lambda>crc_result i. if out ! i \<noteq> 0 then crc_result OR push_bit i 1 else crc_result)
       0 [0..<32]"

definition cal_crc32 :: "u32 \<Rightarrow> u8 \<Rightarrow> u32" where
  "cal_crc32 crc_result data_8 =
     bits_to_u32 (crc_out (in_data_bits data_8) (crc_bits crc_result))"

definition get_crc32 :: "bytes \<Rightarrow> u32" where
  "get_crc32 data =
     (let crc_result = foldl cal_crc32 0xFFFFFFFF data;
          val = foldl (\<lambda>val i. if drop_bit i crc_result AND 1 \<noteq> 0
                               then val OR push_bit (31 - i) 1 else val) 0 [0..<32]
      in NOT val)"

section \<open>The running checksum\<close>

text \<open>
  \<open>checksum\<close> keeps its 64-bit sum in a static variable: the model takes the sum before the call
  and returns the checksum with the sum after it.
\<close>

definition checksum :: "64 word \<Rightarrow> u32 list \<Rightarrow> u32 \<Rightarrow> u32 \<times> 64 word" where
  "checksum static_sum data init =
     (let sum0 = (if init = 0 then 0 else static_sum);
          sum1 = foldl (\<lambda>s d. s + ucast d) sum0 data
      in (NOT (ucast (drop_bit 32 sum1) + ucast sum1), sum1))"

section \<open>CRC-8 against its shift register\<close>

definition crc8_step :: "u8 \<Rightarrow> u8" where
  "crc8_step c = (if c AND 1 \<noteq> 0 then drop_bit 1 c XOR 0xE0 else drop_bit 1 c)"

definition crc8_steps :: "u8 \<Rightarrow> u8" where
  "crc8_steps c = crc8_step (crc8_step (crc8_step (crc8_step
     (crc8_step (crc8_step (crc8_step (crc8_step c)))))))"

definition crc8_ref :: "u8 \<Rightarrow> bytes \<Rightarrow> u8" where
  "crc8_ref crc ptr = foldl (\<lambda>crc data. crc8_steps (crc XOR data)) crc ptr"

lemma length_crc8_tbl: "length crc8_tbl = 256"
  by (simp add: crc8_tbl_def)

lemma upt_256: "[0..<256] = [
     0,1,2,3,4,5,6,7,8,9,10,11,12,13,14,15,16,17,18,19,
     20,21,22,23,24,25,26,27,28,29,30,31,32,33,34,35,36,37,38,39,
     40,41,42,43,44,45,46,47,48,49,50,51,52,53,54,55,56,57,58,59,
     60,61,62,63,64,65,66,67,68,69,70,71,72,73,74,75,76,77,78,79,
     80,81,82,83,84,85,86,87,88,89,90,91,92,93,94,95,96,97,98,99,
     100,101,102,103,104,105,106,107,108,109,110,111,112,113,114,115,116,117,118,119,
     120,121,122,123,124,125,126,127,128,129,130,131,132,133,134,135,136,137,138,139,
     140,141,142,143,144,145,146,147,148,149,150,151,152,153,154,155,156,157,158,159,
     160,161,162,163,164,165,166,167,168,169,170,171,172,173,174,175,176,177,178,179,
     180,181,182,183,184,185,186,187,188,189,190,191,192,193,194,195,196,197,198,199,
     200,201,202,203,204,205,206,207,208,209,210,211,212,213,214,215,216,217,218,219,
     220,221,222,223,224,225,226,227,228,229,230,231,232,233,234,235,236,237,238,239,
     240,241,242,243,244,245,246,247,248,249,250,251,252,253,254,255]"
  by code_simp

lemma crc8_tbl_eq_map: "crc8_tbl = map (\<lambda>n. crc8_steps (word_of_nat n)) [0..<256]"
  unfolding upt_256 crc8_tbl_def list.map by (simp add: crc8_steps_def crc8_step_def)

lemma unat_u8_less: "unat (x :: 8 word) < 256"
  using unsigned_less [of x] by simp

lemma crc8_tbl_steps: "crc8_tbl ! unat (x :: u8) = crc8_steps x"
  using unat_u8_less [of x] by (simp add: crc8_tbl_eq_map)

lemma and_one_iff_bit0: "(c :: u8) AND 1 \<noteq> 0 \<longleftrightarrow> bit c 0"
  by (auto simp add: and_one_eq bit_0 mod_2_eq_odd)

lemma crc8_step_shift:
  "crc8_step c = (if bit c 0 then drop_bit 1 c XOR 0xE0 else drop_bit 1 c)"
  by (simp add: crc8_step_def and_one_iff_bit0)

lemma bit7_shifted: "\<not> bit (drop_bit 1 c :: u8) 7"
  using bit_imp_le_length [of c 8] by (auto simp add: bit_drop_bit_eq)

lemma crc8_step_top: "bit (crc8_step c) 7 = bit c 0"
  using bit7_shifted [of c] by (simp add: crc8_step_shift bit_xor_iff)

lemma crc8_step_low:
  "drop_bit (Suc 0) c = (if bit c 0 then crc8_step c XOR 0xE0 else crc8_step c)"
  by (simp add: crc8_step_shift xor.assoc)

lemma crc8_step_inj:
  assumes eq: "crc8_step c = crc8_step c'"
  shows "c = c'"
proof (rule bit_word_eqI)
  fix n
  have b0: "bit c 0 = bit c' 0"
    using eq crc8_step_top [of c] crc8_step_top [of c'] by simp
  with eq have "drop_bit (Suc 0) c = drop_bit (Suc 0) c'" by (simp add: crc8_step_low)
  then have "bit (drop_bit (Suc 0) c) (n - 1) = bit (drop_bit (Suc 0) c') (n - 1)" by simp
  then show "bit c n = bit c' n"
    using b0 by (cases n) (simp_all add: bit_drop_bit_eq)
qed

lemma crc8_tbl_inj: "crc8_tbl ! unat (x :: u8) = crc8_tbl ! unat y \<longleftrightarrow> x = y"
  unfolding crc8_tbl_steps crc8_steps_def by (auto dest!: crc8_step_inj)

lemma crc8_tbl_zero: "crc8_tbl ! 0 = 0"
  by (simp add: crc8_tbl_def)

lemma calculate_crc8_append:
  "calculate_crc8 c (xs @ ys) = calculate_crc8 (calculate_crc8 c xs) ys"
  by (simp add: calculate_crc8_def)

lemma get_crc8_calculate: "get_crc8 xs = calculate_crc8 0 xs"
  by (simp add: get_crc8_def calculate_crc8_def)

lemma chk_crc8_calculate: "chk_crc8 xs = 0 \<longleftrightarrow> calculate_crc8 0 xs = 0"
  by (simp add: chk_crc8_def calculate_crc8_def)

lemma xor_cancel_right: "(a :: 'a :: len word) XOR b = c XOR b \<longleftrightarrow> a = c"
  by (auto dest: arg_cong [where f = "\<lambda>x. x XOR b"] simp: xor.assoc)

lemma calculate_crc8_inj: "calculate_crc8 c xs = calculate_crc8 c' xs \<longleftrightarrow> c = c'"
proof (induction xs arbitrary: c c')
  case Nil
  then show ?case by (simp add: calculate_crc8_def)
next
  case (Cons x xs)
  have "calculate_crc8 c (x # xs) = calculate_crc8 (crc8_tbl ! unat (c XOR x)) xs" for c
    by (simp add: calculate_crc8_def)
  moreover have "c XOR x = c' XOR x \<longleftrightarrow> c = c'"
    by (rule xor_cancel_right)
  ultimately show ?case by (simp add: Cons.IH crc8_tbl_inj)
qed

section \<open>CRC-32 against its shift register\<close>

definition crc32_poly_bits :: bytes where
  "crc32_poly_bits = [1,1,1,0,1,1,0,1, 1,0,1,1,1,0,0,0, 1,0,0,0,0,0,1,1, 0,0,1,0,0,0,0,0]"

definition lfsr_bits :: "bytes \<Rightarrow> u8 \<Rightarrow> bytes" where
  "lfsr_bits c b =
     (let f = c ! 31 XOR b
      in f # map (\<lambda>i. if crc32_poly_bits ! Suc i = 1 then c ! i XOR f else c ! i) [0..<31])"

definition crc32_poly :: u32 where
  "crc32_poly = 0x04C11DB7"

definition lfsr_word :: "u32 \<Rightarrow> bool \<Rightarrow> u32" where
  "lfsr_word c b =
     (if bit c 31 = b then push_bit 1 c else push_bit 1 c XOR crc32_poly)"

lemma lfsr_bits_expand:
  "lfsr_bits [
      c0, c1, c2, c3, c4, c5, c6, c7, c8, c9, c10, c11, c12, c13, c14, c15, c16, c17,
      c18, c19, c20, c21, c22, c23, c24, c25, c26, c27, c28, c29, c30, c31] b = [
      c31 XOR b, c0 XOR (c31 XOR b), c1 XOR (c31 XOR b), c2, c3 XOR (c31 XOR b),
      c4 XOR (c31 XOR b), c5, c6 XOR (c31 XOR b), c7 XOR (c31 XOR b), c8,
      c9 XOR (c31 XOR b), c10 XOR (c31 XOR b), c11 XOR (c31 XOR b), c12, c13, c14,
      c15 XOR (c31 XOR b), c16, c17, c18, c19, c20, c21 XOR (c31 XOR b),
      c22 XOR (c31 XOR b), c23, c24, c25 XOR (c31 XOR b), c26, c27, c28, c29, c30]"
  by (simp add: lfsr_bits_def crc32_poly_bits_def upt_rec Let_def)

lemmas xor_norm = xor.assoc xor.commute xor.left_commute xor_self_eq xor.right_neutral xor.left_neutral

lemma crc_out_lfsr_bits:
  "crc_out [d0,d1,d2,d3,d4,d5,d6,d7] [
      c0, c1, c2, c3, c4, c5, c6, c7, c8, c9, c10, c11, c12, c13, c14, c15, c16, c17,
      c18, c19, c20, c21, c22, c23, c24, c25, c26, c27, c28, c29, c30, c31] =
   foldl lfsr_bits [
      c0, c1, c2, c3, c4, c5, c6, c7, c8, c9, c10, c11, c12, c13, c14, c15, c16, c17,
      c18, c19, c20, c21, c22, c23, c24, c25, c26, c27, c28, c29, c30, c31]
     [d0,d1,d2,d3,d4,d5,d6,d7]"
  by (simp add: crc_out_def lfsr_bits_expand xor.assoc xor.commute xor.left_commute)

text \<open>The bits of a byte and of a register as 0/1 bytes, and the word step on these bits.\<close>

lemma low_bit_of_bool: "(drop_bit i d :: u8) AND 1 = of_bool (bit d i)"
  by (simp add: and_one_eq bit_iff_odd_drop_bit mod_2_eq_odd)

lemma low_bit_u32: "ucast (drop_bit i (c :: u32)) AND (1 :: u8) = of_bool (bit c i)"
  by (rule bit_word_eqI) (auto simp: bit_simps)

lemma crc_bits_alt: "crc_bits c = map (\<lambda>i. of_bool (bit c i)) [0..<32]"
  by (simp add: crc_bits_def low_bit_u32)

lemma in_data_bits_alt: "in_data_bits d = map (\<lambda>i. of_bool (bit d i)) [0..<8]"
  by (simp add: in_data_bits_def low_bit_of_bool)

lemma of_bool_xor: "of_bool p XOR of_bool q = (of_bool (p \<noteq> q) :: u8)"
  by (cases p; cases q) simp_all

lemma bit_lfsr_word:
  assumes "n < 32"
  shows "bit (lfsr_word c b) n =
    ((n \<noteq> 0 \<and> bit c (n - 1)) \<noteq> ((bit c 31 \<noteq> b) \<and> bit crc32_poly n))"
proof -
  have "bit (push_bit 1 c) n = (n \<noteq> 0 \<and> bit c (n - 1))"
    using assms by (simp only: bit_push_bit_iff) auto
  then show ?thesis by (auto simp only: lfsr_word_def bit_xor_iff split: if_splits)
qed

lemma crc32_poly_bits: "map (\<lambda>n. of_bool (bit crc32_poly n)) [0..<32] = crc32_poly_bits"
  by (simp add: crc32_poly_def crc32_poly_bits_def upt_rec bit_numeral_rec)

lemma crc32_poly_bit: "n < 32 \<Longrightarrow> crc32_poly_bits ! n = of_bool (bit crc32_poly n)"
  unfolding crc32_poly_bits [symmetric] by simp

lemma nth_crc_bits: "n < 32 \<Longrightarrow> crc_bits c ! n = of_bool (bit c n)"
  by (simp add: crc_bits_alt)

lemma length_crc_bits: "length (crc_bits c) = 32"
  by (simp add: crc_bits_alt)

lemma nth_lfsr_bits:
  assumes "n < 32"
  shows "lfsr_bits c b ! n =
    (case n of 0 \<Rightarrow> c ! 31 XOR b
     | Suc i \<Rightarrow> if bit crc32_poly n then c ! i XOR (c ! 31 XOR b) else c ! i)"
  using assms by (cases n) (simp_all add: lfsr_bits_def Let_def crc32_poly_bit)

lemma length_lfsr_bits: "length (lfsr_bits c b) = 32"
  by (simp add: lfsr_bits_def Let_def)

lemma bit0_crc32_poly: "bit crc32_poly 0"
  by (simp add: crc32_poly_def bit_numeral_rec)

lemma lfsr_bits_word: "lfsr_bits (crc_bits c) (of_bool b) = crc_bits (lfsr_word c b)"
proof (rule nth_equalityI)
  show "length (lfsr_bits (crc_bits c) (of_bool b)) = length (crc_bits (lfsr_word c b))"
    by (simp only: length_lfsr_bits length_crc_bits)
next
  fix n
  assume "n < length (lfsr_bits (crc_bits c) (of_bool b))"
  then have n: "n < 32" by (simp only: length_lfsr_bits)
  show "lfsr_bits (crc_bits c) (of_bool b) ! n = crc_bits (lfsr_word c b) ! n"
  proof (cases n)
    case 0
    then show ?thesis
      by (simp only: nth_lfsr_bits nth_crc_bits of_bool_xor bit_lfsr_word bit0_crc32_poly
          nat.case zero_less_numeral less_numeral_simps) (simp add: nth_crc_bits of_bool_xor)
  next
    case (Suc i)
    with n have "i < 32" by simp
    then show ?thesis
      using n Suc by (simp only: nth_lfsr_bits nth_crc_bits of_bool_xor bit_lfsr_word
          nat.case less_numeral_simps) (auto simp: nth_crc_bits of_bool_xor)
  qed
qed

definition byte_bits :: "u8 \<Rightarrow> bool list" where
  "byte_bits d = map (bit d) [0..<8]"

lemma foldl_lfsr_bits_word:
  "foldl lfsr_bits (crc_bits c) (map of_bool bs) = crc_bits (foldl lfsr_word c bs)"
  by (induction bs arbitrary: c) (simp_all only: list.map foldl.simps lfsr_bits_word)

lemma length_32_iff:
  "length xs = 32 \<longleftrightarrow> xs = map (nth xs) [0..<32]"
  by (metis length_map length_upt diff_zero map_nth)

lemma list32: "length xs = 32 \<Longrightarrow> xs = [
  xs ! 0, xs ! 1, xs ! 2, xs ! 3, xs ! 4, xs ! 5, xs ! 6, xs ! 7,
  xs ! 8, xs ! 9, xs ! 10, xs ! 11, xs ! 12, xs ! 13, xs ! 14, xs ! 15,
  xs ! 16, xs ! 17, xs ! 18, xs ! 19, xs ! 20, xs ! 21, xs ! 22, xs ! 23,
  xs ! 24, xs ! 25, xs ! 26, xs ! 27, xs ! 28, xs ! 29, xs ! 30, xs ! 31]"
  by (subst length_32_iff [THEN iffD1], assumption) (simp add: upt_rec numeral_eq_Suc)

lemma list8: "length xs = 8 \<Longrightarrow>
  xs = [xs ! 0, xs ! 1, xs ! 2, xs ! 3, xs ! 4, xs ! 5, xs ! 6, xs ! 7]"
  by (subst map_nth [symmetric]) (simp add: upt_rec numeral_eq_Suc)

lemma crc_out_steps:
  assumes "length d = 8" "length c = 32"
  shows "crc_out d c = foldl lfsr_bits c d"
proof -
  note steps = crc_out_lfsr_bits [of "d ! 0" "d ! 1" "d ! 2" "d ! 3" "d ! 4" "d ! 5" "d ! 6" "d ! 7"
    "c ! 0" "c ! 1" "c ! 2" "c ! 3" "c ! 4" "c ! 5" "c ! 6" "c ! 7"
    "c ! 8" "c ! 9" "c ! 10" "c ! 11" "c ! 12" "c ! 13" "c ! 14" "c ! 15"
    "c ! 16" "c ! 17" "c ! 18" "c ! 19" "c ! 20" "c ! 21" "c ! 22" "c ! 23"
    "c ! 24" "c ! 25" "c ! 26" "c ! 27" "c ! 28" "c ! 29" "c ! 30" "c ! 31"]
  show ?thesis
    using steps by (simp only: list8 [OF assms(1), symmetric] list32 [OF assms(2), symmetric])
qed

lemma bit_shifted_one: "bit (push_bit k 1 :: u32) n \<longleftrightarrow> n = k \<and> n < 32"
  using bit_exp_iff [of k n, where 'a = "32 word"] by (auto simp add: push_bit_eq_mult)

lemma bit_fold_set:
  "bit (foldl (\<lambda>r i. if P i then r OR push_bit (f i) 1 else r) (w :: u32) is) n =
   (bit w n \<or> (n < 32 \<and> (\<exists>i \<in> set is. P i \<and> f i = n)))"
proof (induction "is" arbitrary: w)
  case Nil
  then show ?case by simp
next
  case (Cons i "is")
  show ?case
    by (cases "P i")
      (auto simp only: foldl.simps if_True if_False Cons.IH bit_or_iff bit_shifted_one
        list.set insert_iff bex_simps)
qed

lemma bits_to_u32_crc_bits: "bits_to_u32 (crc_bits c) = c"
proof (rule bit_word_eqI)
  fix n
  assume "n < LENGTH(32)"
  then have n: "n < 32" by simp
  show "bit (bits_to_u32 (crc_bits c)) n = bit c n"
    unfolding bits_to_u32_def using n
    by (auto simp: bit_fold_set [where f = "\<lambda>i. i"] nth_crc_bits)
qed

lemma cal_crc32_lfsr: "cal_crc32 c d = foldl lfsr_word c (byte_bits d)"
proof -
  have d: "in_data_bits d = map of_bool (byte_bits d)"
    by (simp add: in_data_bits_alt byte_bits_def)
  have "crc_out (in_data_bits d) (crc_bits c) = crc_bits (foldl lfsr_word c (byte_bits d))"
    unfolding d foldl_lfsr_bits_word [symmetric]
    by (rule crc_out_steps) (simp_all add: byte_bits_def length_crc_bits)
  then show ?thesis by (simp only: cal_crc32_def bits_to_u32_crc_bits)
qed

section \<open>The standard reflected CRC-32\<close>

definition crc32_step :: "u32 \<Rightarrow> u32" where
  "crc32_step c = (if bit c 0 then drop_bit 1 c XOR 0xEDB88320 else drop_bit 1 c)"

definition crc32_ref :: "bytes \<Rightarrow> u32" where
  "crc32_ref data = NOT (foldl (\<lambda>c d. (crc32_step ^^ 8) (c XOR ucast d)) 0xFFFFFFFF data)"

definition refl_bit :: "u32 \<Rightarrow> bool \<Rightarrow> u32" where
  "refl_bit c b = (if bit c 0 = b then drop_bit 1 c else drop_bit 1 c XOR 0xEDB88320)"

definition reflect32 :: "u32 \<Rightarrow> u32" where
  "reflect32 c = foldl (\<lambda>val i. if drop_bit i c AND 1 \<noteq> 0 then val OR push_bit (31 - i) 1 else val)
     0 [0..<32]"

lemma drop_bit_and_one: "(drop_bit i (c :: u32) AND 1 \<noteq> 0) = bit c i"
  by (auto simp add: and_one_eq bit_iff_odd_drop_bit mod_2_eq_odd)

lemma bit_reflect32: "bit (reflect32 c) n \<longleftrightarrow> n < 32 \<and> bit c (31 - n)"
  unfolding reflect32_def bit_fold_set drop_bit_and_one
  by (auto simp: Bex_def intro: exI [of _ "31 - n"])

lemma upt_32: "[0..<32] = [0,1,2,3,4,5,6,7,8,9,10,11,12,13,14,15,
    16,17,18,19,20,21,22,23,24,25,26,27,28,29,30,31]"
  by code_simp

lemma reflected_poly_bits:
  "map (\<lambda>n. bit (0xEDB88320 :: u32) n) [0..<32] = map (\<lambda>n. bit crc32_poly (31 - n)) [0..<32]"
  unfolding upt_32 list.map crc32_poly_def by (simp add: bit_numeral_rec)

lemma reflected_poly_bit:
  assumes "n < 32"
  shows "bit (0xEDB88320 :: u32) n = bit crc32_poly (31 - n)"
  using arg_cong [OF reflected_poly_bits, of "\<lambda>xs. xs ! n"] assms by simp

lemma reflect32_lfsr: "reflect32 (lfsr_word c b) = refl_bit (reflect32 c) b"
proof (rule bit_word_eqI)
  fix n
  assume "n < LENGTH(32)"
  then have n: "n < 32" by simp
  have shift: "bit (drop_bit 1 (reflect32 c)) n = (31 - n \<noteq> 0 \<and> bit c (31 - n - 1))"
    using n by (auto simp: bit_drop_bit_eq bit_reflect32)
  have top: "bit (reflect32 c) 0 = bit c 31"
    by (simp add: bit_reflect32)
  have "bit (refl_bit (reflect32 c) b) n =
      ((31 - n \<noteq> 0 \<and> bit c (31 - n - 1)) \<noteq> ((bit c 31 \<noteq> b) \<and> bit crc32_poly (31 - n)))"
    unfolding refl_bit_def top if_distrib [of "\<lambda>x. bit x n"] bit_xor_iff shift
      reflected_poly_bit [OF n]
    by auto
  moreover have "bit (reflect32 (lfsr_word c b)) n = bit (lfsr_word c b) (31 - n)"
    using n by (simp add: bit_reflect32)
  ultimately show "bit (reflect32 (lfsr_word c b)) n = bit (refl_bit (reflect32 c) b) n"
    using bit_lfsr_word [of "31 - n" c b] by simp
qed

lemma crc32_step_split: "crc32_step (c XOR w) = refl_bit c (bit w 0) XOR drop_bit 1 w"
  by (auto simp: crc32_step_def refl_bit_def bit_xor_iff drop_bit_xor xor_norm)

lemma crc32_steps_split:
  "(crc32_step ^^ k) (c XOR w) = foldl refl_bit c (map (bit w) [0..<k]) XOR drop_bit k w"
proof (induction k arbitrary: c w)
  case 0
  then show ?case by simp
next
  case (Suc k)
  have bits: "map (bit w) [0..<Suc k] = bit w 0 # map (bit (drop_bit 1 w)) [0..<k]"
    by (simp add: upt_conv_Cons map_Suc_upt [symmetric] bit_drop_bit_eq o_def del: upt_Suc)
  show ?case
    unfolding bits funpow_Suc_right comp_def crc32_step_split
    by (simp add: Suc.IH)
qed

lemma crc32_byte: "(crc32_step ^^ 8) (c XOR ucast d) = foldl refl_bit c (byte_bits d)"
proof -
  have "drop_bit 8 (ucast d :: u32) = 0"
    by (rule bit_word_eqI) (auto simp add: bit_simps dest: bit_imp_le_length)
  moreover have "map (bit (ucast d :: u32)) [0..<8] = byte_bits d"
    by (simp add: byte_bits_def bit_simps)
  ultimately show ?thesis by (simp only: crc32_steps_split xor.right_neutral)
qed

lemma reflect32_byte: "reflect32 (cal_crc32 c d) = (crc32_step ^^ 8) (reflect32 c XOR ucast d)"
proof -
  have "reflect32 (foldl lfsr_word c bs) = foldl refl_bit (reflect32 c) bs" for bs
    by (induction bs arbitrary: c) (simp_all only: foldl.simps reflect32_lfsr)
  then show ?thesis by (simp only: cal_crc32_lfsr crc32_byte)
qed

lemma reflect32_ones: "reflect32 0xFFFFFFFF = 0xFFFFFFFF"
proof (rule bit_word_eqI)
  fix n
  have ones: "(0xFFFFFFFF :: u32) = - 1" by simp
  assume "n < LENGTH(32)"
  then show "bit (reflect32 0xFFFFFFFF) n = bit (0xFFFFFFFF :: u32) n"
    unfolding ones bit_reflect32 by simp
qed

lemma reflect32_fold:
  "reflect32 (foldl cal_crc32 c data) =
   foldl (\<lambda>c d. (crc32_step ^^ 8) (c XOR ucast d)) (reflect32 c) data"
  by (induction data arbitrary: c) (simp_all only: foldl.simps reflect32_byte)

lemma get_crc32_reflect: "get_crc32 data = NOT (reflect32 (foldl cal_crc32 0xFFFFFFFF data))"
  by (simp only: get_crc32_def reflect32_def Let_def)

section \<open>Properties\<close>

text \<open>C23: the unrolled \<open>get_crc32\<close> (32 exclusive-or equations per byte, register reflected and
  complemented at the end) computes the standard reflected CRC-32 with polynomial 0xEDB88320,
  initial value and final exclusive-or 0xFFFFFFFF.\<close>

theorem get_crc32_standard: "get_crc32 data = crc32_ref data"
  by (simp only: get_crc32_reflect reflect32_fold reflect32_ones crc32_ref_def)

text \<open>The table-driven \<open>calculate_crc8\<close> computes the CRC of the reflected polynomial 0x07
  bit by bit, from any starting value; \<open>get_crc8\<close> is the case of the starting value 0.\<close>

theorem calculate_crc8_bitwise:
  "calculate_crc8 crc ptr = crc8_ref crc ptr \<and> get_crc8 ptr = crc8_ref 0 ptr"
  by (simp add: calculate_crc8_def get_crc8_def crc8_ref_def crc8_tbl_steps)

text \<open>A message followed by its own \<open>get_crc8\<close> passes \<open>chk_crc8\<close>, and every corruption of a
  single byte of a message that passes, whatever its position, makes \<open>chk_crc8\<close> return -1.\<close>

theorem chk_crc8_accepts_and_detects:
  assumes "chk_crc8 (xs @ b # ys) = 0" and "b' \<noteq> b"
  shows "chk_crc8 (xs @ b' # ys) = - 1 \<and> chk_crc8 (zs @ [get_crc8 zs]) = 0"
proof -
  have step: "calculate_crc8 c (a # as) = calculate_crc8 (crc8_tbl ! unat (c XOR a)) as" for c a as
    by (simp add: calculate_crc8_def)
  let ?c = "calculate_crc8 0 xs"
  have "?c XOR b' \<noteq> ?c XOR b"
    using assms(2) by (metis xor.commute xor_cancel_right)
  then have "calculate_crc8 ?c (b' # ys) \<noteq> calculate_crc8 ?c (b # ys)"
    by (simp add: step calculate_crc8_inj crc8_tbl_inj)
  moreover have "calculate_crc8 ?c (b # ys) = 0"
    using assms(1) by (simp add: chk_crc8_calculate calculate_crc8_append)
  ultimately have "chk_crc8 (xs @ b' # ys) \<noteq> 0"
    by (simp add: chk_crc8_calculate calculate_crc8_append)
  moreover have "chk_crc8 (zs @ [get_crc8 zs]) = 0"
    by (simp add: chk_crc8_calculate get_crc8_calculate calculate_crc8_append step crc8_tbl_zero)
      (simp add: calculate_crc8_def)
  ultimately show ?thesis by (auto simp: chk_crc8_def Let_def split: if_splits)
qed

theorem chk_crc8_accepts_and_detects_witness:
  "chk_crc8 ([] @ 1 # [0x91]) = 0 \<and> chk_crc8 ([] @ 3 # [0x91]) = - 1
   \<and> chk_crc8 ([7, 8] @ [get_crc8 [7, 8]]) = 0"
proof -
  have ok: "chk_crc8 ([] @ 1 # [0x91]) = 0"
    by (simp add: chk_crc8_def crc8_tbl_def Let_def)
  show ?thesis
    using ok chk_crc8_accepts_and_detects [OF ok, of 3 "[7, 8]"] by simp
qed

end
