(* ===== verification/Flash_Spec.thy ===== *)
theory Flash_Spec
  imports Prelude
begin

text \<open>
  What the two flash drivers share: the status codes of \<^verbatim>\<open>src/Include/Driver/wm_flash.h\<close>, the
  algebra of NOR flash contents (programming can only clear bits, erasing sets a whole sector to
  0xFF), and the contract \<open>flash_store\<close> that a flash driver offers to its clients: a read returns
  the contents, a write replaces exactly the bytes it is given. The locale is met by the driver of
  the external SPI flash and by the driver of the internal flash; the parameter store and the
  firmware updater rely on nothing else.
\<close>

section \<open>Status codes\<close>

abbreviation (input) TLS_FLS_STATUS_OK :: int where "TLS_FLS_STATUS_OK \<equiv> 0"
abbreviation (input) TLS_FLS_STATUS_EINVAL :: int where "TLS_FLS_STATUS_EINVAL \<equiv> 1"
abbreviation (input) TLS_FLS_STATUS_EBUSY :: int where "TLS_FLS_STATUS_EBUSY \<equiv> 2"
abbreviation (input) TLS_FLS_STATUS_EPERM :: int where "TLS_FLS_STATUS_EPERM \<equiv> 3"
abbreviation (input) TLS_FLS_STATUS_ENOSUPPORT :: int where "TLS_FLS_STATUS_ENOSUPPORT \<equiv> 4"
abbreviation (input) TLS_FLS_STATUS_EEXIST :: int where "TLS_FLS_STATUS_EEXIST \<equiv> 5"
abbreviation (input) TLS_FLS_STATUS_ENOMEM :: int where "TLS_FLS_STATUS_ENOMEM \<equiv> 6"
abbreviation (input) TLS_FLS_STATUS_EIO :: int where "TLS_FLS_STATUS_EIO \<equiv> 10"
abbreviation (input) TLS_FLS_STATUS_ENODRV :: int where "TLS_FLS_STATUS_ENODRV \<equiv> 11"

abbreviation (input) TLS_FLS_PARAM_TYPE_ID :: nat where "TLS_FLS_PARAM_TYPE_ID \<equiv> 0"
abbreviation (input) TLS_FLS_PARAM_TYPE_SIZE :: nat where "TLS_FLS_PARAM_TYPE_SIZE \<equiv> 1"
abbreviation (input) TLS_FLS_PARAM_TYPE_PAGE_SIZE :: nat where "TLS_FLS_PARAM_TYPE_PAGE_SIZE \<equiv> 2"
abbreviation (input) TLS_FLS_PARAM_TYPE_PROG_SIZE :: nat where "TLS_FLS_PARAM_TYPE_PROG_SIZE \<equiv> 3"
abbreviation (input) TLS_FLS_PARAM_TYPE_SECTOR_SIZE :: nat where "TLS_FLS_PARAM_TYPE_SECTOR_SIZE \<equiv> 4"

section \<open>NOR flash contents\<close>

definition nor_program :: "memory \<Rightarrow> nat \<Rightarrow> bytes \<Rightarrow> memory" where
  "nor_program m a xs = (\<lambda>i. if a \<le> i \<and> i < a + length xs then m i AND xs ! (i - a) else m i)"

definition nor_erase :: "memory \<Rightarrow> nat \<Rightarrow> nat \<Rightarrow> memory" where
  "nor_erase m a n = (\<lambda>i. if a \<le> i \<and> i < a + n then 0xFF else m i)"

lemma and_FF [simp]: "(0xFF :: u8) AND x = x"
proof -
  have "(0xFF :: u8) = - 1" by simp
  then show ?thesis by (simp only: and.left_neutral)
qed

lemma nor_erase_0 [simp]: "nor_erase m a 0 = m"
  by (rule ext) (auto simp: nor_erase_def)

lemma nor_erase_append: "nor_erase (nor_erase m a n) (a + n) k = nor_erase m a (n + k)"
  by (rule ext) (auto simp: nor_erase_def)

lemma nor_erase_clean: "list_all (\<lambda>b. b = 0xFF) (mem_get m a n) \<Longrightarrow> nor_erase m a n = m"
  by (rule ext) (auto simp: nor_erase_def mem_get_def list_all_iff)

text \<open>Programming the pages of an erased area one after the other stores the data.\<close>

definition nor_pages :: "memory \<Rightarrow> nat \<Rightarrow> nat \<Rightarrow> bytes \<Rightarrow> nat \<Rightarrow> memory" where
  "nor_pages m a p xs k =
     (\<lambda>i. if a \<le> i \<and> i < a + k * p then xs ! (i - a) else if a \<le> i \<and> i < a + length xs then 0xFF else m i)"

lemma nor_pages_0: "length xs = n \<Longrightarrow> nor_erase m a n = nor_pages m a p xs 0"
  by (rule ext) (auto simp: nor_erase_def nor_pages_def)

lemma nor_pages_Suc:
  assumes "(k + 1) * p \<le> length xs"
  shows "nor_program (nor_pages m a p xs k) (a + k * p) (slice (k * p) p xs) = nor_pages m a p xs (Suc k)"
proof
  fix i
  have len: "length (slice (k * p) p xs) = p"
    using assms by (simp add: algebra_simps)
  consider "i < a + k * p" | "a + k * p \<le> i" "i < a + k * p + p" | "a + k * p + p \<le> i"
    by linarith
  then show "nor_program (nor_pages m a p xs k) (a + k * p) (slice (k * p) p xs) i =
      nor_pages m a p xs (Suc k) i"
  proof cases
    case 2
    then have "slice (k * p) p xs ! (i - (a + k * p)) = xs ! (i - a)"
      using assms by (subst nth_slice) (auto simp: algebra_simps)
    then show ?thesis
      using 2 assms len by (auto simp: nor_program_def nor_pages_def algebra_simps)
  qed (use assms len in \<open>auto simp: nor_program_def nor_pages_def algebra_simps\<close>)
qed

lemma nor_pages_all: "k * p = length xs \<Longrightarrow> nor_pages m a p xs k = mem_upd m a xs"
  by (rule ext) (auto simp: nor_pages_def mem_upd_def)

section \<open>The contract of a flash driver\<close>

locale flash_store =
  fixes wf :: "'s \<Rightarrow> bool"
    and contents :: "'s \<Rightarrow> memory"
    and accessible :: "nat \<Rightarrow> nat \<Rightarrow> bool"
    and rd :: "nat \<Rightarrow> bytes option \<Rightarrow> nat \<Rightarrow> 's \<Rightarrow> (int \<times> bytes option \<times> 's) option"
    and wr :: "nat \<Rightarrow> bytes option \<Rightarrow> nat \<Rightarrow> 's \<Rightarrow> (int \<times> 's) option"
  assumes rd_ok: "\<lbrakk>wf s; accessible a n; n \<le> length buf\<rbrakk> \<Longrightarrow>
      \<exists>s'. rd a (Some buf) n s = Some (TLS_FLS_STATUS_OK, Some (patch buf 0 (mem_get (contents s) a n)), s')
        \<and> wf s' \<and> contents s' = contents s"
    and wr_ok: "\<lbrakk>wf s; accessible a n; n \<le> length buf\<rbrakk> \<Longrightarrow>
      \<exists>s'. wr a (Some buf) n s = Some (TLS_FLS_STATUS_OK, s')
        \<and> wf s' \<and> contents s' = mem_upd (contents s) a (take n buf)"
begin

lemma rdE:
  assumes "wf s" "accessible a n" "n \<le> length buf"
  obtains s' where
    "rd a (Some buf) n s = Some (TLS_FLS_STATUS_OK, Some (patch buf 0 (mem_get (contents s) a n)), s')"
    "wf s'" "contents s' = contents s"
  using rd_ok [OF assms] by blast

lemma wrE:
  assumes "wf s" "accessible a n" "n \<le> length buf"
  obtains s' where "wr a (Some buf) n s = Some (TLS_FLS_STATUS_OK, s')" "wf s'"
    "contents s' = mem_upd (contents s) a (take n buf)"
  using wr_ok [OF assms] by blast

lemma read_after_write:
  assumes "wf s" "accessible a n" "n \<le> length buf" "n \<le> length dst"
  shows "\<exists>s1 s2. wr a (Some buf) n s = Some (TLS_FLS_STATUS_OK, s1) \<and>
    rd a (Some dst) n s1 = Some (TLS_FLS_STATUS_OK, Some (patch dst 0 (take n buf)), s2) \<and>
    contents s2 = mem_upd (contents s) a (take n buf)"
proof -
  obtain s1 where s1: "wr a (Some buf) n s = Some (TLS_FLS_STATUS_OK, s1)" "wf s1"
      "contents s1 = mem_upd (contents s) a (take n buf)"
    using wrE assms by blast
  then obtain s2 where "rd a (Some dst) n s1 =
      Some (TLS_FLS_STATUS_OK, Some (patch dst 0 (mem_get (contents s1) a n)), s2)"
      "contents s2 = contents s1"
    using rdE [of s1 a n dst] assms by metis
  moreover have "mem_get (contents s1) a n = take n buf"
    using mem_get_upd_same [of "contents s" a "take n buf"] assms(3) s1(3) by (simp add: min_absorb2)
  ultimately show ?thesis using s1 by auto
qed

lemma read_other_after_write:
  assumes "wf s" "accessible a n" "n \<le> length buf" "accessible b k" "k \<le> length dst"
    and "b + k \<le> a \<or> a + n \<le> b"
  shows "\<exists>s1 s2. wr a (Some buf) n s = Some (TLS_FLS_STATUS_OK, s1) \<and>
    rd b (Some dst) k s1 = Some (TLS_FLS_STATUS_OK, Some (patch dst 0 (mem_get (contents s) b k)), s2)"
proof -
  obtain s1 where s1: "wr a (Some buf) n s = Some (TLS_FLS_STATUS_OK, s1)" "wf s1"
      "contents s1 = mem_upd (contents s) a (take n buf)"
    using wrE assms by blast
  then obtain s2 where "rd b (Some dst) k s1 =
      Some (TLS_FLS_STATUS_OK, Some (patch dst 0 (mem_get (contents s1) b k)), s2)"
    using rdE [of s1 b k dst] assms by metis
  moreover have "mem_get (contents s1) b k = mem_get (contents s) b k"
    using s1(3) assms by (auto simp: mem_get_upd_other min_def)
  ultimately show ?thesis using s1 by auto
qed

end

end
