(* ===== verification/Spi_Flash.thy ===== *)
theory Spi_Flash
  imports Flash_Spec
begin

text \<open>
  The driver of the external SPI flash: \<^verbatim>\<open>src/Platform/Drivers/flash/wm_fls_gd25qxx.c\<close> (the
  chip commands) and \<^verbatim>\<open>src/Platform/Drivers/flash/wm_fls.c\<close> (the driver framework with its lock
  and the read-modify-write of whole sectors). The SPI master of
  \<^verbatim>\<open>src/Platform/Drivers/spi/wm_hostspi.c\<close> is a parameter: a record of the transfer functions
  over a bus state of any type. The locale \<open>spi_nor\<close> states what the data sheets of the serial NOR
  chips promise for the commands the driver sends, and the driver is proved to offer the contract
  \<open>flash_store\<close> on top of it.
\<close>

section \<open>Data\<close>

record 'b spi_ops =
  tls_spi_write :: "bytes \<Rightarrow> 'b \<Rightarrow> int \<times> 'b"
  tls_spi_read_with_cmd :: "bytes \<Rightarrow> nat \<Rightarrow> 'b \<Rightarrow> int \<times> bytes \<times> 'b"
  tls_spi_write_with_cmd :: "bytes \<Rightarrow> bytes \<Rightarrow> 'b \<Rightarrow> int \<times> 'b"
  tls_spi_setup :: "nat \<Rightarrow> nat \<Rightarrow> nat \<Rightarrow> 'b \<Rightarrow> 'b"

abbreviation (input) TLS_SPI_STATUS_OK :: int where "TLS_SPI_STATUS_OK \<equiv> 0"

text \<open>The only driver object of the source is the static \<open>exspi_fls\<close>; a pointer to a driver is a
  value of \<open>drv_ref\<close>, and the calls through its function pointers go to the functions it is
  initialised with.\<close>

datatype drv_ref = Exspi_fls

record tls_fls_drv =
  drv_id :: u32
  total_size :: nat
  page_size :: nat
  program_size :: nat
  sector_size :: nat
  clock :: nat
  mode :: nat
  cs_active :: nat
  flags :: nat

record tls_fls =
  fls_drvs :: "drv_ref list"
  current_drv :: "drv_ref option"
  fls_lock :: nat

record 'b spi_state = os_state +
  bus :: 'b
  spi_fls :: "tls_fls option"
  exspi_fls :: tls_fls_drv
  exspifls_drv :: "drv_ref option"

definition exspi_fls_init :: tls_fls_drv where
  "exspi_fls_init = \<lparr>drv_id = 0, total_size = 0, page_size = 0, program_size = 0, sector_size = 0,
     clock = 10000000, mode = 0, cs_active = 0, flags = 0\<rparr>"

fun drv_get :: "('b, 'z) spi_state_scheme \<Rightarrow> drv_ref \<Rightarrow> tls_fls_drv" where
  "drv_get s Exspi_fls = exspi_fls s"

section \<open>The chip driver\<close>

definition swap32 :: "u32 \<Rightarrow> u32" where
  "swap32 v = push_bit 24 (v AND 0xff) OR push_bit 8 (v AND 0xff00) OR
     drop_bit 8 (v AND 0xff0000) OR drop_bit 24 v"

definition tls_spifls_drv_write_enable ::
    "'b spi_ops \<Rightarrow> ('b, 'z) spi_state_scheme \<Rightarrow> int \<times> ('b, 'z) spi_state_scheme" where
  "tls_spifls_drv_write_enable ops s =
     (let (err, b) = tls_spi_write ops [0x06] (bus s)
      in (if err \<noteq> TLS_SPI_STATUS_OK then TLS_FLS_STATUS_EIO else TLS_FLS_STATUS_OK, s\<lparr>bus := b\<rparr>))"

text \<open>The two polling loops end when the status register says so; while it does not, they go on for
  ever.\<close>

partial_function (option) wait_write_enable_loop ::
    "'b spi_ops \<Rightarrow> bytes \<Rightarrow> 'b \<Rightarrow> (int \<times> 'b) option" where
  "wait_write_enable_loop ops sr b =
     (case tls_spi_read_with_cmd ops [0x05] 1 b of (err, rx, b') \<Rightarrow>
        do {
          sr \<leftarrow> buf_put sr 0 rx;
          if err \<noteq> TLS_SPI_STATUS_OK then Some (TLS_FLS_STATUS_EIO, b')
          else if sr ! 0 AND 2 \<noteq> 0 then Some (TLS_FLS_STATUS_OK, b')
          else wait_write_enable_loop ops sr b'
        })"

definition tls_spifls_drv_wait_write_enable ::
    "'b spi_ops \<Rightarrow> ('b, 'z) spi_state_scheme \<Rightarrow> (int \<times> ('b, 'z) spi_state_scheme) option" where
  "tls_spifls_drv_wait_write_enable ops s =
     do { (err, b) \<leftarrow> wait_write_enable_loop ops [0] (bus s); Some (err, s\<lparr>bus := b\<rparr>) }"

partial_function (option) wait_flash_ready_loop ::
    "'b spi_ops \<Rightarrow> bytes \<Rightarrow> 'b \<Rightarrow> (int \<times> 'b) option" where
  "wait_flash_ready_loop ops sr b =
     (case tls_spi_read_with_cmd ops [0x05] 1 b of (err, rx, b') \<Rightarrow>
        do {
          sr \<leftarrow> buf_put sr 0 rx;
          if err \<noteq> TLS_SPI_STATUS_OK then Some (TLS_FLS_STATUS_EIO, b')
          else if sr ! 0 AND 1 = 0 then Some (TLS_FLS_STATUS_OK, b')
          else wait_flash_ready_loop ops sr b'
        })"

definition tls_spifls_drv_wait_flash_ready ::
    "'b spi_ops \<Rightarrow> ('b, 'z) spi_state_scheme \<Rightarrow> (int \<times> ('b, 'z) spi_state_scheme) option" where
  "tls_spifls_drv_wait_flash_ready ops s =
     do { (err, b) \<leftarrow> wait_flash_ready_loop ops [0] (bus s); Some (err, s\<lparr>bus := b\<rparr>) }"

definition tls_spifls_drv_read ::
    "'b spi_ops \<Rightarrow> nat \<Rightarrow> bytes \<Rightarrow> nat \<Rightarrow> ('b, 'z) spi_state_scheme \<Rightarrow>
     (int \<times> bytes \<times> ('b, 'z) spi_state_scheme) option" where
  "tls_spifls_drv_read ops addr buf len s =
     (let cmd = 0x03 OR (swap32 (of_nat addr) AND 0xffffff00);
          (err, rx, b) = tls_spi_read_with_cmd ops (le32 cmd) len (bus s)
      in do {
        buf \<leftarrow> buf_put buf 0 rx;
        Some (if err \<noteq> TLS_SPI_STATUS_OK then TLS_FLS_STATUS_EIO else TLS_FLS_STATUS_OK, buf, s\<lparr>bus := b\<rparr>)
      })"

definition tls_spifls_drv_fast_read :: int where
  "tls_spifls_drv_fast_read = TLS_FLS_STATUS_ENOSUPPORT"

text \<open>\<open>buf\<close> holds the bytes the pointer gives access to, of which the driver sends \<open>page_size\<close>.\<close>

definition tls_spifls_drv_page_write ::
    "'b spi_ops \<Rightarrow> nat \<Rightarrow> bytes \<Rightarrow> ('b, 'z) spi_state_scheme \<Rightarrow> (int \<times> ('b, 'z) spi_state_scheme) option" where
  "tls_spifls_drv_page_write ops page buf s =
     (let (err, s) = tls_spifls_drv_write_enable ops s
      in if err \<noteq> TLS_SPI_STATUS_OK then Some (TLS_FLS_STATUS_EIO, s)
      else do {
        (err, s) \<leftarrow> tls_spifls_drv_wait_write_enable ops s;
        if err \<noteq> TLS_SPI_STATUS_OK then Some (TLS_FLS_STATUS_EIO, s)
        else do {
          r \<leftarrow> exspifls_drv s;
          let cmd = 0x02 OR (swap32 (of_nat (page * page_size (drv_get s r))) AND 0xffffff00);
          tx \<leftarrow> buf_get buf 0 (page_size (drv_get s r));
          let (err, b) = tls_spi_write_with_cmd ops (le32 cmd) tx (bus s);
          let s = s\<lparr>bus := b\<rparr>;
          if err \<noteq> TLS_SPI_STATUS_OK then Some (TLS_FLS_STATUS_EIO, s)
          else do {
            (err, s) \<leftarrow> tls_spifls_drv_wait_flash_ready ops s;
            Some (if err \<noteq> TLS_SPI_STATUS_OK then TLS_FLS_STATUS_EIO else TLS_FLS_STATUS_OK, s)
          }
        }
      })"

definition tls_spifls_drv_erase ::
    "'b spi_ops \<Rightarrow> nat \<Rightarrow> ('b, 'z) spi_state_scheme \<Rightarrow> (int \<times> ('b, 'z) spi_state_scheme) option" where
  "tls_spifls_drv_erase ops sector s =
     (let (err, s) = tls_spifls_drv_write_enable ops s
      in if err \<noteq> TLS_SPI_STATUS_OK then Some (TLS_FLS_STATUS_EIO, s)
      else do {
        (err, s) \<leftarrow> tls_spifls_drv_wait_write_enable ops s;
        if err \<noteq> TLS_SPI_STATUS_OK then Some (TLS_FLS_STATUS_EIO, s)
        else do {
          r \<leftarrow> exspifls_drv s;
          let cmd = 0x20 OR (swap32 (of_nat (sector * sector_size (drv_get s r))) AND 0xffffff00);
          let (err, b) = tls_spi_write ops (le32 cmd) (bus s);
          let s = s\<lparr>bus := b\<rparr>;
          if err \<noteq> TLS_SPI_STATUS_OK then Some (TLS_FLS_STATUS_EIO, s)
          else do {
            (err, s) \<leftarrow> tls_spifls_drv_wait_flash_ready ops s;
            Some (if err \<noteq> TLS_SPI_STATUS_OK then TLS_FLS_STATUS_EIO else TLS_FLS_STATUS_OK, s)
          }
        }
      })"

definition tls_spifls_drv_chip_erase ::
    "'b spi_ops \<Rightarrow> ('b, 'z) spi_state_scheme \<Rightarrow> (int \<times> ('b, 'z) spi_state_scheme) option" where
  "tls_spifls_drv_chip_erase ops s =
     (let (err, s) = tls_spifls_drv_write_enable ops s
      in if err \<noteq> TLS_SPI_STATUS_OK then Some (TLS_FLS_STATUS_EIO, s)
      else do {
        (err, s) \<leftarrow> tls_spifls_drv_wait_write_enable ops s;
        if err \<noteq> TLS_SPI_STATUS_OK then Some (TLS_FLS_STATUS_EIO, s)
        else do {
          let (err, b) = tls_spi_write ops [0xc7] (bus s);
          let s = s\<lparr>bus := b\<rparr>;
          if err \<noteq> TLS_SPI_STATUS_OK then Some (TLS_FLS_STATUS_EIO, s)
          else do {
            (err, s) \<leftarrow> tls_spifls_drv_wait_flash_ready ops s;
            Some (if err \<noteq> TLS_SPI_STATUS_OK then TLS_FLS_STATUS_EIO else TLS_FLS_STATUS_OK, s)
          }
        }
      })"

text \<open>The capacity byte of the identification is an exponent; the shift is undefined from 31 on.\<close>

definition tls_spifls_drv_probe ::
    "u32 \<Rightarrow> ('b, 'z) spi_state_scheme \<Rightarrow> (int \<times> ('b, 'z) spi_state_scheme) option" where
  "tls_spifls_drv_probe ident s =
     (if ident = 0 then Some (TLS_FLS_STATUS_EINVAL, s)
      else do {
        size \<leftarrow> (if drop_bit 16 ident AND 0xFF \<noteq> 0
                 then (let e = unat (drop_bit 16 ident) in if e < 31 then Some (2 ^ e) else None)
                 else Some (1024 * 1024));
        Some (TLS_FLS_STATUS_OK,
          s\<lparr>exspi_fls := (exspi_fls s)\<lparr>drv_id := ident, total_size := size, page_size := 256,
              program_size := 256, sector_size := 4096\<rparr>,
            exspifls_drv := Some Exspi_fls\<rparr>)
      })"

definition tls_spifls_drv_remove :: "('b, 'z) spi_state_scheme \<Rightarrow> ('b, 'z) spi_state_scheme" where
  "tls_spifls_drv_remove s = s\<lparr>exspifls_drv := None\<rparr>"

section \<open>The driver framework\<close>

definition tls_spifls_read_id ::
    "'b spi_ops \<Rightarrow> ('b, 'z) spi_state_scheme \<Rightarrow> (int \<times> u32 \<times> ('b, 'z) spi_state_scheme) option" where
  "tls_spifls_read_id ops s =
     (let (err, rx, b) = tls_spi_read_with_cmd ops (le32 0x9F) 3 (bus s)
      in do {
        ident \<leftarrow> buf_put (le32 0) 0 rx;
        Some (if err \<noteq> TLS_SPI_STATUS_OK then TLS_FLS_STATUS_EIO else TLS_FLS_STATUS_OK,
          of_le32 ident, s\<lparr>bus := b\<rparr>)
      })"

text \<open>
  \<open>set_lock\<close> is the store to the semaphore behind \<open>spi_fls->fls_lock\<close>. A read returns the caller's
  buffer as the driver leaves it; a NULL buffer is \<open>None\<close>.
\<close>

definition set_lock :: "nat \<Rightarrow> ('b, 'z) spi_state_scheme \<Rightarrow> ('b, 'z) spi_state_scheme" where
  "set_lock n s = s\<lparr>spi_fls := map_option (\<lambda>f. f\<lparr>fls_lock := n\<rparr>) (spi_fls s)\<rparr>"

definition lock_count :: "('b, 'z) spi_state_scheme \<Rightarrow> nat" where
  "lock_count s = (case spi_fls s of None \<Rightarrow> 0 | Some f \<Rightarrow> fls_lock f)"

definition tls_spifls_read ::
    "'b spi_ops \<Rightarrow> nat \<Rightarrow> bytes option \<Rightarrow> nat \<Rightarrow> ('b, 'z) spi_state_scheme \<Rightarrow>
     (int \<times> bytes option \<times> ('b, 'z) spi_state_scheme) option" where
  "tls_spifls_read ops addr buf len s =
     (case spi_fls s of
        None \<Rightarrow> Some (TLS_FLS_STATUS_EPERM, buf, s)
      | Some fls \<Rightarrow>
        (case current_drv fls of
           None \<Rightarrow> Some (TLS_FLS_STATUS_ENODRV, buf, s)
         | Some r \<Rightarrow>
           (case buf of
              None \<Rightarrow> Some (TLS_FLS_STATUS_EINVAL, buf, s)
            | Some dst \<Rightarrow>
              if addr \<ge> total_size (drv_get s r) \<or> len = 0 then Some (TLS_FLS_STATUS_EINVAL, buf, s)
              else do {
                n \<leftarrow> sem_acquire (lock_count s);
                let s = set_lock n s;
                let drv = drv_get s r;
                let read_bytes =
                  (if add32 addr len > total_size drv then total_size drv - addr else len);
                (err, dst, s) \<leftarrow> tls_spifls_drv_read ops addr dst read_bytes s;
                let s = set_lock (sem_release (lock_count s)) s;
                Some (err, Some dst, s)
              })))"

definition tls_spifls_fast_read ::
    "nat \<Rightarrow> bytes option \<Rightarrow> nat \<Rightarrow> ('b, 'z) spi_state_scheme \<Rightarrow> int" where
  "tls_spifls_fast_read addr buf len s =
     (case spi_fls s of
        None \<Rightarrow> TLS_FLS_STATUS_EPERM
      | Some fls \<Rightarrow>
        (case current_drv fls of
           None \<Rightarrow> TLS_FLS_STATUS_ENODRV
         | Some r \<Rightarrow>
           if addr \<ge> total_size (drv_get s r) \<or> len = 0 \<or> buf = None then TLS_FLS_STATUS_EINVAL
           else if flags (drv_get s r) AND 2 \<noteq> 2 then TLS_FLS_STATUS_ENOSUPPORT
           else tls_spifls_drv_fast_read))"

text \<open>The loop of \<open>tls_spifls_page_write\<close> over the pages, from page number \<open>i\<close> of the request on,
  with \<open>n\<close> pages to go.\<close>

fun page_write_loop ::
    "'b spi_ops \<Rightarrow> nat \<Rightarrow> bytes \<Rightarrow> nat \<Rightarrow> nat \<Rightarrow> nat \<Rightarrow> ('b, 'z) spi_state_scheme \<Rightarrow>
     (int \<times> ('b, 'z) spi_state_scheme) option" where
  "page_write_loop ops page buf psize i 0 s = Some (TLS_FLS_STATUS_OK, s)"
| "page_write_loop ops page buf psize i (Suc n) s =
     do {
       (err, s) \<leftarrow> tls_spifls_drv_page_write ops (page + i) (drop (i * psize) buf) s;
       if err \<noteq> TLS_FLS_STATUS_OK then Some (err, s)
       else page_write_loop ops page buf psize (Suc i) n s
     }"

definition tls_spifls_page_write ::
    "'b spi_ops \<Rightarrow> nat \<Rightarrow> bytes option \<Rightarrow> nat \<Rightarrow> ('b, 'z) spi_state_scheme \<Rightarrow>
     (int \<times> ('b, 'z) spi_state_scheme) option" where
  "tls_spifls_page_write ops page buf page_cnt s =
     (case spi_fls s of
        None \<Rightarrow> Some (TLS_FLS_STATUS_EPERM, s)
      | Some fls \<Rightarrow>
        (case current_drv fls of
           None \<Rightarrow> Some (TLS_FLS_STATUS_ENODRV, s)
         | Some r \<Rightarrow>
           (case buf of
              None \<Rightarrow> Some (TLS_FLS_STATUS_EINVAL, s)
            | Some src \<Rightarrow>
              (let drv = drv_get s r; pages = total_size drv div page_size drv
               in if page \<ge> pages \<or> page_cnt = 0 then Some (TLS_FLS_STATUS_EINVAL, s)
                  else page_write_loop ops page src (page_size drv) 0
                    (if add32 page page_cnt > pages then pages - page else page_cnt) s))))"

text \<open>
  One round of the loop of \<open>tls_spifls_write\<close>: read the sector into the cache, lay the new data over
  it, erase the sector, write the pages. The result is either the remaining \<open>buf\<close> and
  \<open>write_bytes\<close>, or the error with which the loop is left; the error branches release the lock,
  which the function does once more at its end.
\<close>

definition spifls_write_step ::
    "'b spi_ops \<Rightarrow> nat \<Rightarrow> nat \<Rightarrow> nat \<Rightarrow> nat \<Rightarrow> tls_fls_drv \<Rightarrow> bytes \<Rightarrow> bytes \<Rightarrow> nat \<Rightarrow>
     ('b, 'z) spi_state_scheme \<Rightarrow>
     ((int + bytes \<times> bytes \<times> nat) \<times> ('b, 'z) spi_state_scheme) option" where
  "spifls_write_step ops addr sector_addr sector_num i drv cache buf write_bytes s =
     do {
       (err, cache, s) \<leftarrow> tls_spifls_drv_read ops ((sector_addr + i) * sector_size drv) cache (sector_size drv) s;
       if err \<noteq> TLS_FLS_STATUS_OK then Some (Inl err, set_lock (sem_release (lock_count s)) s)
       else do {
         let k = (if sector_num = 1 then write_bytes
                  else if i = 0 then sector_size drv - addr mod sector_size drv
                  else if i = sector_num - 1 then write_bytes
                  else sector_size drv);
         src \<leftarrow> buf_get buf 0 k;
         cache \<leftarrow> buf_put cache (if sector_num = 1 \<or> i = 0 then addr mod sector_size drv else 0) src;
         (err, s) \<leftarrow> tls_spifls_drv_erase ops (sector_addr + i) s;
         if err \<noteq> TLS_FLS_STATUS_OK then Some (Inl err, set_lock (sem_release (lock_count s)) s)
         else do {
           (err, s) \<leftarrow> tls_spifls_page_write ops
              ((sector_addr + i) * (sector_size drv div page_size drv)) (Some cache)
              (sector_size drv div page_size drv) s;
           if err \<noteq> TLS_FLS_STATUS_OK then Some (Inl err, set_lock (sem_release (lock_count s)) s)
           else Some (Inr (cache, drop k buf, sub32 write_bytes k), s)
         }
       }
     }"

text \<open>\<open>n\<close> counts the rounds that are left, so that the loop variable is \<open>sector_num - n\<close>.\<close>

fun spifls_write_loop ::
    "'b spi_ops \<Rightarrow> nat \<Rightarrow> nat \<Rightarrow> nat \<Rightarrow> tls_fls_drv \<Rightarrow> nat \<Rightarrow> bytes \<Rightarrow> bytes \<Rightarrow> nat \<Rightarrow>
     ('b, 'z) spi_state_scheme \<Rightarrow> (int \<times> ('b, 'z) spi_state_scheme) option" where
  "spifls_write_loop ops addr sector_addr sector_num drv 0 cache buf write_bytes s =
     Some (TLS_FLS_STATUS_OK, s)"
| "spifls_write_loop ops addr sector_addr sector_num drv (Suc n) cache buf write_bytes s =
     do {
       (r, s) \<leftarrow> spifls_write_step ops addr sector_addr sector_num (sector_num - Suc n) drv cache buf
                  write_bytes s;
       (case r of
          Inl err \<Rightarrow> Some (err, s)
        | Inr (cache, buf, write_bytes) \<Rightarrow>
            spifls_write_loop ops addr sector_addr sector_num drv n cache buf write_bytes s)
     }"

definition tls_spifls_write ::
    "'b spi_ops \<Rightarrow> nat \<Rightarrow> bytes option \<Rightarrow> nat \<Rightarrow> ('b, 'z) spi_state_scheme \<Rightarrow>
     (int \<times> ('b, 'z) spi_state_scheme) option" where
  "tls_spifls_write ops addr buf len s =
     (case spi_fls s of
        None \<Rightarrow> Some (TLS_FLS_STATUS_EPERM, s)
      | Some fls \<Rightarrow>
        (case current_drv fls of
           None \<Rightarrow> Some (TLS_FLS_STATUS_ENODRV, s)
         | Some r \<Rightarrow>
           (case buf of
              None \<Rightarrow> Some (TLS_FLS_STATUS_EINVAL, s)
            | Some src \<Rightarrow>
              if addr \<ge> total_size (drv_get s r) \<or> len = 0 then Some (TLS_FLS_STATUS_EINVAL, s)
              else do {
                n \<leftarrow> sem_acquire (lock_count s);
                let s = set_lock n s;
                let drv = drv_get s r;
                let write_bytes =
                  (if add32 addr len > total_size drv then total_size drv - addr else len);
                let sector_addr = addr div sector_size drv;
                let sector_num =
                  add32 (sub32 (sub32 (add32 addr write_bytes) 1 div sector_size drv) sector_addr) 1;
                let (cache, s) = tls_mem_alloc (sector_size drv) s;
                (case cache of
                   None \<Rightarrow> Some (TLS_FLS_STATUS_ENOMEM, set_lock (sem_release (lock_count s)) s)
                 | Some cache \<Rightarrow> do {
                     (err, s) \<leftarrow> spifls_write_loop ops addr sector_addr sector_num drv sector_num cache
                                  src write_bytes s;
                     Some (err, set_lock (sem_release (lock_count s)) s)
                   })
              })))"

definition tls_spifls_erase ::
    "'b spi_ops \<Rightarrow> nat \<Rightarrow> ('b, 'z) spi_state_scheme \<Rightarrow> (int \<times> ('b, 'z) spi_state_scheme) option" where
  "tls_spifls_erase ops sector s =
     (case spi_fls s of
        None \<Rightarrow> Some (TLS_FLS_STATUS_EPERM, s)
      | Some fls \<Rightarrow>
        (case current_drv fls of
           None \<Rightarrow> Some (TLS_FLS_STATUS_ENODRV, s)
         | Some r \<Rightarrow>
           if sector \<ge> total_size (drv_get s r) div sector_size (drv_get s r)
           then Some (TLS_FLS_STATUS_EINVAL, s)
           else do {
             n \<leftarrow> sem_acquire (lock_count s);
             (err, s) \<leftarrow> tls_spifls_drv_erase ops sector (set_lock n s);
             Some (err, set_lock (sem_release (lock_count s)) s)
           }))"

definition tls_spifls_chip_erase ::
    "'b spi_ops \<Rightarrow> ('b, 'z) spi_state_scheme \<Rightarrow> (int \<times> ('b, 'z) spi_state_scheme) option" where
  "tls_spifls_chip_erase ops s =
     (case spi_fls s of
        None \<Rightarrow> Some (TLS_FLS_STATUS_EPERM, s)
      | Some fls \<Rightarrow>
        (case current_drv fls of
           None \<Rightarrow> Some (TLS_FLS_STATUS_ENODRV, s)
         | Some r \<Rightarrow> tls_spifls_drv_chip_erase ops s))"

text \<open>The out parameter is \<open>None\<close> for a NULL pointer; the lock is taken and released.\<close>

definition tls_spifls_get_param ::
    "nat \<Rightarrow> nat option \<Rightarrow> ('b, 'z) spi_state_scheme \<Rightarrow> (int \<times> nat option) option" where
  "tls_spifls_get_param type param s =
     (case spi_fls s of
        None \<Rightarrow> Some (TLS_FLS_STATUS_EPERM, param)
      | Some fls \<Rightarrow>
        (case current_drv fls of
           None \<Rightarrow> Some (TLS_FLS_STATUS_ENODRV, param)
         | Some r \<Rightarrow>
           if param = None then Some (TLS_FLS_STATUS_EINVAL, param)
           else do {
             _ \<leftarrow> sem_acquire (lock_count s);
             let drv = drv_get s r;
             Some (if type = TLS_FLS_PARAM_TYPE_ID then (TLS_FLS_STATUS_OK, Some (unat (drv_id drv)))
               else if type = TLS_FLS_PARAM_TYPE_SIZE then (TLS_FLS_STATUS_OK, Some (total_size drv))
               else if type = TLS_FLS_PARAM_TYPE_PAGE_SIZE then (TLS_FLS_STATUS_OK, Some (page_size drv))
               else if type = TLS_FLS_PARAM_TYPE_PROG_SIZE then (TLS_FLS_STATUS_OK, Some (program_size drv))
               else if type = TLS_FLS_PARAM_TYPE_SECTOR_SIZE then (TLS_FLS_STATUS_OK, Some (sector_size drv))
               else (TLS_FLS_STATUS_EINVAL, param))
           }))"

definition tls_spifls_drv_register ::
    "drv_ref option \<Rightarrow> ('b, 'z) spi_state_scheme \<Rightarrow> (int \<times> ('b, 'z) spi_state_scheme) option" where
  "tls_spifls_drv_register fls_drv s =
     (case fls_drv of
        None \<Rightarrow> Some (TLS_FLS_STATUS_EINVAL, s)
      | Some r \<Rightarrow> do {
          fls \<leftarrow> spi_fls s;
          if \<exists>d \<in> set (fls_drvs fls). drv_id (drv_get s d) = drv_id (drv_get s r)
          then Some (TLS_FLS_STATUS_EEXIST, s)
          else Some (TLS_FLS_STATUS_OK, s\<lparr>spi_fls := Some (fls\<lparr>fls_drvs := fls_drvs fls @ [r]\<rparr>)\<rparr>)
        })"

definition tls_spifls_drv_unregister :: int where
  "tls_spifls_drv_unregister = TLS_FLS_STATUS_EPERM"

text \<open>Every round of the loop over the drivers returns or breaks, so that only the first driver of the
  list is ever probed.\<close>

definition tls_spifls_probe ::
    "'b spi_ops \<Rightarrow> ('b, 'z) spi_state_scheme \<Rightarrow> (int \<times> ('b, 'z) spi_state_scheme) option" where
  "tls_spifls_probe ops s =
     (case spi_fls s of
        None \<Rightarrow> Some (TLS_FLS_STATUS_EPERM, s)
      | Some fls \<Rightarrow>
        if current_drv fls \<noteq> None then Some (TLS_FLS_STATUS_EBUSY, s)
        else do {
          (err, ident, s) \<leftarrow> tls_spifls_read_id ops s;
          if err \<noteq> TLS_FLS_STATUS_OK then Some (err, s)
          else (case fls_drvs fls of
             [] \<Rightarrow> Some (TLS_FLS_STATUS_ENODRV, s)
           | r # _ \<Rightarrow> do {
               (err, s) \<leftarrow> tls_spifls_drv_probe ident s;
               if err \<noteq> TLS_FLS_STATUS_OK then Some (err, s)
               else (let drv = drv_get s r in
                 Some (TLS_FLS_STATUS_OK,
                   s\<lparr>bus := tls_spi_setup ops (mode drv) (cs_active drv) (clock drv) (bus s),
                     spi_fls := Some (fls\<lparr>current_drv := Some r\<rparr>)\<rparr>))
             })
        })"

definition tls_spifls_drv_install ::
    "'b spi_ops \<Rightarrow> ('b, 'z) spi_state_scheme \<Rightarrow> (int \<times> ('b, 'z) spi_state_scheme) option" where
  "tls_spifls_drv_install ops s =
     do {
       (err, s) \<leftarrow> tls_spifls_drv_register (Some Exspi_fls) s;
       if err = TLS_FLS_STATUS_EEXIST then Some (err, s) else tls_spifls_probe ops s
     }"

definition tls_spifls_init ::
    "'b spi_ops \<Rightarrow> ('b, 'z) spi_state_scheme \<Rightarrow> (int \<times> ('b, 'z) spi_state_scheme) option" where
  "tls_spifls_init ops s =
     (if spi_fls s \<noteq> None then Some (TLS_FLS_STATUS_EBUSY, s)
      else (let (fls, s) = tls_mem_alloc 16 s in
        case fls of
          None \<Rightarrow> Some (TLS_FLS_STATUS_ENOMEM, s)
        | Some _ \<Rightarrow>
          (let (ok, s) = tls_os_sem_create s in
           if \<not> ok then Some (TLS_FLS_STATUS_ENOMEM, s)
           else do {
             (_, s) \<leftarrow> tls_spifls_drv_install ops
               (s\<lparr>spi_fls := Some \<lparr>fls_drvs = [], current_drv = None, fls_lock = 1\<rparr>\<rparr>);
             Some (TLS_FLS_STATUS_OK, s)
           })))"

definition tls_spifls_exit :: int where
  "tls_spifls_exit = TLS_FLS_STATUS_EPERM"

section \<open>What the chip promises\<close>

definition addr24 :: "nat \<Rightarrow> bytes" where
  "addr24 a = [of_nat (a div 65536), of_nat (a div 256), of_nat a]"

text \<open>
  The commands of the serial NOR chips the driver supports, seen through the SPI master: \<open>cmem\<close> is
  the contents of the array, \<open>wel\<close> the write enable latch, \<open>busy\<close> the number of status reads that
  still report an operation in progress. The SPI master moves at most 8160 bytes per read.
\<close>

locale spi_nor =
  fixes ops :: "'b spi_ops"
    and cmem :: "'b \<Rightarrow> memory"
    and wel :: "'b \<Rightarrow> bool"
    and busy :: "'b \<Rightarrow> nat"
    and capacity :: nat
  assumes capacity: "0 < capacity" "4096 dvd capacity" "capacity \<le> 16777216"
    and bus_setup: "cmem (tls_spi_setup ops md cs ck b) = cmem b" "busy (tls_spi_setup ops md cs ck b) = busy b"
    and write_enable: "busy b = 0 \<Longrightarrow>
      \<exists>b'. tls_spi_write ops [0x06] b = (TLS_SPI_STATUS_OK, b') \<and> cmem b' = cmem b \<and> wel b' \<and> busy b' = 0"
    and read_status:
      "\<exists>sr b'. tls_spi_read_with_cmd ops [0x05] 1 b = (TLS_SPI_STATUS_OK, [sr], b') \<and>
        (sr AND 1 \<noteq> 0 \<longleftrightarrow> 0 < busy b) \<and> (sr AND 2 \<noteq> 0 \<longleftrightarrow> wel b) \<and> cmem b' = cmem b \<and>
        busy b' = busy b - 1 \<and> (busy b = 0 \<longrightarrow> wel b' = wel b)"
    and data_read: "\<lbrakk>busy b = 0; 0 < n; n \<le> 8160; a + n \<le> capacity\<rbrakk> \<Longrightarrow>
      \<exists>b'. tls_spi_read_with_cmd ops (0x03 # addr24 a) n b = (TLS_SPI_STATUS_OK, mem_get (cmem b) a n, b') \<and>
        cmem b' = cmem b \<and> busy b' = 0"
    and page_program: "\<lbrakk>busy b = 0; wel b; 256 dvd a; a < capacity; length xs = 256\<rbrakk> \<Longrightarrow>
      \<exists>b'. tls_spi_write_with_cmd ops (0x02 # addr24 a) xs b = (TLS_SPI_STATUS_OK, b') \<and>
        cmem b' = nor_program (cmem b) a xs"
    and sector_erase: "\<lbrakk>busy b = 0; wel b; 4096 dvd a; a < capacity\<rbrakk> \<Longrightarrow>
      \<exists>b'. tls_spi_write ops (0x20 # addr24 a) b = (TLS_SPI_STATUS_OK, b') \<and>
        cmem b' = nor_erase (cmem b) a 4096"
    and chip_erase: "\<lbrakk>busy b = 0; wel b\<rbrakk> \<Longrightarrow>
      \<exists>b'. tls_spi_write ops [0xc7] b = (TLS_SPI_STATUS_OK, b') \<and>
        cmem b' = nor_erase (cmem b) 0 capacity"

text \<open>The driver is installed and has found the chip, which is idle, and no allocation is about to
  fail; \<open>spi_ready\<close> says also that the lock is free.\<close>

definition drv_ready :: "('b \<Rightarrow> nat) \<Rightarrow> nat \<Rightarrow> ('b, 'z) spi_state_scheme \<Rightarrow> bool" where
  "drv_ready busy capacity s \<longleftrightarrow>
     heap s = [] \<and> busy (bus s) = 0 \<and>
     (\<exists>f. spi_fls s = Some f \<and> current_drv f = Some Exspi_fls) \<and>
     exspifls_drv s = Some Exspi_fls \<and> total_size (exspi_fls s) = capacity \<and>
     page_size (exspi_fls s) = 256 \<and> sector_size (exspi_fls s) = 4096"

definition spi_ready :: "('b \<Rightarrow> nat) \<Rightarrow> nat \<Rightarrow> ('b, 'z) spi_state_scheme \<Rightarrow> bool" where
  "spi_ready busy capacity s \<longleftrightarrow> drv_ready busy capacity s \<and> 0 < lock_count s"

section \<open>Commands\<close>

lemma mask_byte_bit:
  "bit ((v :: u32) AND 0xff) n \<longleftrightarrow> n < 8 \<and> bit v n"
  "bit (v AND 0xff00) n \<longleftrightarrow> 8 \<le> n \<and> n < 16 \<and> bit v n"
  "bit (v AND 0xff0000) n \<longleftrightarrow> 16 \<le> n \<and> n < 24 \<and> bit v n"
  "bit (v AND 0xffffff00) n \<longleftrightarrow> 8 \<le> n \<and> bit v n"
proof -
  have m: "(0xff :: u32) = mask 8" "(0xff00 :: u32) = push_bit 8 (mask 8)"
      "(0xff0000 :: u32) = push_bit 16 (mask 8)" "(0xffffff00 :: u32) = NOT (mask 8)"
    by (simp_all add: mask_eq_exp_minus_1 push_bit_eq_mult)
  show "bit (v AND 0xff) n \<longleftrightarrow> n < 8 \<and> bit v n" "bit (v AND 0xff00) n \<longleftrightarrow> 8 \<le> n \<and> n < 16 \<and> bit v n"
    "bit (v AND 0xff0000) n \<longleftrightarrow> 16 \<le> n \<and> n < 24 \<and> bit v n" "bit (v AND 0xffffff00) n \<longleftrightarrow> 8 \<le> n \<and> bit v n"
    unfolding m by (auto simp: bit_simps dest: bit_imp_le_length)
qed

lemma swap32_bits:
  "n < 8 \<Longrightarrow> bit (swap32 v) (8 + n) = bit v (16 + n)"
  "n < 8 \<Longrightarrow> bit (swap32 v) (16 + n) = bit v (8 + n)"
  "n < 8 \<Longrightarrow> bit (swap32 v) (24 + n) = bit v n"
  by (simp_all only: swap32_def bit_or_iff bit_push_bit_iff bit_drop_bit_eq mask_byte_bit comp_def)
    (auto dest: bit_imp_le_length)

lemma le32_cmd:
  "le32 (ucast (c :: u8) OR (swap32 (of_nat a) AND 0xffffff00)) = c # addr24 a"
proof -
  define w :: u32 where "w = ucast c OR (swap32 (of_nat a) AND 0xffffff00)"
  have b: "bit w n = (bit c n \<or> (8 \<le> n \<and> bit (swap32 (of_nat a)) n))" for n
    by (auto simp add: w_def bit_or_iff bit_ucast_iff mask_byte_bit dest: bit_imp_le_length)
  have c: "\<not> bit c (8 + n)" "\<not> bit c (16 + n)" "\<not> bit c (24 + n)" for n
    using bit_imp_le_length [of c] by fastforce+
  have low: "bit c n \<Longrightarrow> n < 8" for n
    using bit_imp_le_length [of c] by fastforce
  have byte: "bit (a div 2 ^ k) n = bit a (k + n)" for k n
    by (simp add: bit_iff_odd div_mult2_eq power_add)
  have e: "(ucast w :: u8) = c"
    by (rule bit_word_eqI) (simp add: bit_ucast_iff b)
  have f: "(ucast (drop_bit 8 w) :: u8) = of_nat (a div 65536)"
    using byte [of 16]
    by (intro bit_word_eqI) (simp add: bit_ucast_iff bit_drop_bit_eq b c swap32_bits bit_of_nat_iff)
  have g: "(ucast (drop_bit 16 w) :: u8) = of_nat (a div 256)"
    using byte [of 8]
    by (intro bit_word_eqI) (simp add: bit_ucast_iff bit_drop_bit_eq b c swap32_bits bit_of_nat_iff)
  have h: "(ucast (drop_bit 24 w) :: u8) = of_nat a"
    by (intro bit_word_eqI) (simp add: bit_ucast_iff bit_drop_bit_eq b c swap32_bits bit_of_nat_iff)
  show ?thesis unfolding w_def [symmetric] le32_def addr24_def e f g h ..
qed

lemma le32_cmds:
  "le32 (0x03 OR (swap32 (of_nat a) AND 0xffffff00)) = 0x03 # addr24 a"
  "le32 (0x02 OR (swap32 (of_nat a) AND 0xffffff00)) = 0x02 # addr24 a"
  "le32 (0x20 OR (swap32 (of_nat a) AND 0xffffff00)) = 0x20 # addr24 a"
  using le32_cmd [of 3 a] le32_cmd [of 2 a] le32_cmd [of 32 a]
  by (simp_all only: unsigned_numeral) (simp_all add: take_bit_eq_mod)

lemma set_lock_simps [simp]:
  "heap (set_lock n s) = heap s" "junk (set_lock n s) = junk s" "bus (set_lock n s) = bus s"
  "exspi_fls (set_lock n s) = exspi_fls s" "exspifls_drv (set_lock n s) = exspifls_drv s"
  "spi_fls s = Some f \<Longrightarrow> spi_fls (set_lock n s) = Some (f\<lparr>fls_lock := n\<rparr>)"
  "set_lock n (s\<lparr>bus := b\<rparr>) = (set_lock n s)\<lparr>bus := b\<rparr>"
  "set_lock m (set_lock n s) = set_lock m s"
  by (cases "spi_fls s"; simp add: set_lock_def)+

lemma lock_count_simps [simp]:
  "lock_count (s\<lparr>bus := b\<rparr>) = lock_count s"
  "spi_fls s = Some f \<Longrightarrow> lock_count (set_lock n s) = n"
  by (simp_all add: lock_count_def set_lock_def)

lemma set_lock_count [simp]: "set_lock (lock_count s) s = s"
  by (cases "spi_fls s") (simp_all add: set_lock_def lock_count_def)

lemma first_sector_part:
  assumes "(off :: nat) + wb = (num - 1) * 4096 + r + 1" "r < 4096" "off < 4096" "0 < num"
    and "k = (if num = 1 then wb else 4096 - off)"
  shows "off + k \<le> 4096 \<and> k \<le> wb \<and> (num \<noteq> 1 \<longrightarrow> (num - 2) * 4096 < wb - k \<and> wb - k \<le> (num - 1) * 4096)"
proof (cases "num = 1")
  case True
  then show ?thesis using assms by auto
next
  case False
  then obtain j where "num = Suc (Suc j)" using assms(4) by (metis One_nat_def not0_implies_Suc less_numeral_extra(3))
  then show ?thesis using assms by auto
qed

lemma sector_count:
  assumes "0 < n" "addr + n < 4294967296"
  shows "add32 (sub32 (sub32 (add32 addr n) 1 div 4096) (addr div 4096)) 1 =
    (addr + n - 1) div 4096 - addr div 4096 + 1"
proof -
  have le: "addr div 4096 \<le> (addr + n - 1) div 4096" using assms(1) by (intro div_le_mono) simp
  have q: "(addr + n - 1) div 4096 \<le> addr + n - 1" by (rule div_le_dividend)
  then have "sub32 ((addr + n - 1) div 4096) (addr div 4096) = (addr + n - 1) div 4096 - addr div 4096"
    using le assms by (intro sub32_small) linarith+
  moreover have "(addr + n - 1) div 4096 - addr div 4096 + 1 < 4294967296"
    using assms q by linarith
  ultimately show ?thesis using assms by simp
qed

context spi_nor
begin

lemma wait_write_enable_loop_ok:
  assumes "wel b" "busy b = 0"
  shows "\<exists>b'. wait_write_enable_loop ops [x] b = Some (TLS_FLS_STATUS_OK, b') \<and> cmem b' = cmem b \<and>
    wel b' \<and> busy b' = 0"
  using read_status [of b] assms
  by (subst wait_write_enable_loop.simps) (auto simp: patch_def)

lemma wait_flash_ready_loop_ok:
  "\<exists>b'. wait_flash_ready_loop ops [x] b = Some (TLS_FLS_STATUS_OK, b') \<and> cmem b' = cmem b \<and> busy b' = 0"
proof (induction "busy b" arbitrary: b x)
  case 0
  then show ?case
    using read_status [of b] by (subst wait_flash_ready_loop.simps) (auto simp: patch_def)
next
  case (Suc n)
  obtain sr b' where rd: "tls_spi_read_with_cmd ops [0x05] 1 b = (TLS_SPI_STATUS_OK, [sr], b')"
      "sr AND 1 \<noteq> 0" "cmem b' = cmem b" "busy b' = n"
    using read_status [of b] Suc(2) by (metis diff_Suc_1 zero_less_Suc)
  then show ?case
    using Suc(1) [of b' sr] by (subst wait_flash_ready_loop.simps) (auto simp: patch_def)
qed

lemma drv_erase_ok:
  assumes "drv_ready busy capacity s" "sector * 4096 < capacity"
  shows "\<exists>b'. tls_spifls_drv_erase ops sector s = Some (TLS_FLS_STATUS_OK, s\<lparr>bus := b'\<rparr>) \<and>
    cmem b' = nor_erase (cmem (bus s)) (sector * 4096) 4096 \<and> busy b' = 0"
proof -
  have s: "busy (bus s) = 0" "exspifls_drv s = Some Exspi_fls" "sector_size (exspi_fls s) = 4096"
    using assms(1) by (auto simp: drv_ready_def)
  obtain b1 where b1: "tls_spi_write ops [0x06] (bus s) = (TLS_SPI_STATUS_OK, b1)"
      "cmem b1 = cmem (bus s)" "wel b1" "busy b1 = 0"
    using write_enable s by blast
  obtain b2 where b2: "wait_write_enable_loop ops [0] b1 = Some (TLS_FLS_STATUS_OK, b2)"
      "cmem b2 = cmem b1" "wel b2" "busy b2 = 0"
    using wait_write_enable_loop_ok b1 by blast
  obtain b3 where b3: "tls_spi_write ops (0x20 # addr24 (sector * 4096)) b2 = (TLS_SPI_STATUS_OK, b3)"
      "cmem b3 = nor_erase (cmem b2) (sector * 4096) 4096"
    using sector_erase [of b2 "sector * 4096"] b2 assms(2) by auto
  obtain b4 where b4: "wait_flash_ready_loop ops [0] b3 = Some (TLS_FLS_STATUS_OK, b4)"
      "cmem b4 = cmem b3" "busy b4 = 0"
    using wait_flash_ready_loop_ok by blast
  show ?thesis
    using b1 b2 b3 b4 s
    by (intro exI [of _ b4]) (simp add: tls_spifls_drv_erase_def tls_spifls_drv_write_enable_def
        tls_spifls_drv_wait_write_enable_def tls_spifls_drv_wait_flash_ready_def le32_cmds
        del: of_nat_mult)
qed

lemma drv_page_write_ok:
  assumes "drv_ready busy capacity s" "page * 256 < capacity" "256 \<le> length buf"
  shows "\<exists>b'. tls_spifls_drv_page_write ops page buf s = Some (TLS_FLS_STATUS_OK, s\<lparr>bus := b'\<rparr>) \<and>
    cmem b' = nor_program (cmem (bus s)) (page * 256) (slice 0 256 buf) \<and> busy b' = 0"
proof -
  have s: "busy (bus s) = 0" "exspifls_drv s = Some Exspi_fls" "page_size (exspi_fls s) = 256"
    using assms(1) by (auto simp: drv_ready_def)
  obtain b1 where b1: "tls_spi_write ops [0x06] (bus s) = (TLS_SPI_STATUS_OK, b1)"
      "cmem b1 = cmem (bus s)" "wel b1" "busy b1 = 0"
    using write_enable s by blast
  obtain b2 where b2: "wait_write_enable_loop ops [0] b1 = Some (TLS_FLS_STATUS_OK, b2)"
      "cmem b2 = cmem b1" "wel b2" "busy b2 = 0"
    using wait_write_enable_loop_ok b1 by blast
  obtain b3 where b3: "tls_spi_write_with_cmd ops (0x02 # addr24 (page * 256)) (slice 0 256 buf) b2
        = (TLS_SPI_STATUS_OK, b3)"
      "cmem b3 = nor_program (cmem b2) (page * 256) (slice 0 256 buf)"
    using page_program [of b2 "page * 256" "slice 0 256 buf"] b2 assms(2,3) by auto
  obtain b4 where b4: "wait_flash_ready_loop ops [0] b3 = Some (TLS_FLS_STATUS_OK, b4)"
      "cmem b4 = cmem b3" "busy b4 = 0"
    using wait_flash_ready_loop_ok by blast
  show ?thesis
    using b1 b2 b3 b4 s assms(3)
    by (intro exI [of _ b4]) (simp add: tls_spifls_drv_page_write_def tls_spifls_drv_write_enable_def
        tls_spifls_drv_wait_write_enable_def tls_spifls_drv_wait_flash_ready_def le32_cmds
        del: of_nat_mult)
qed

lemma drv_chip_erase_ok:
  assumes "busy (bus s) = 0"
  shows "\<exists>b'. tls_spifls_drv_chip_erase ops s = Some (TLS_FLS_STATUS_OK, s\<lparr>bus := b'\<rparr>) \<and>
    cmem b' = nor_erase (cmem (bus s)) 0 capacity \<and> busy b' = 0"
proof -
  obtain b1 where b1: "tls_spi_write ops [0x06] (bus s) = (TLS_SPI_STATUS_OK, b1)"
      "cmem b1 = cmem (bus s)" "wel b1" "busy b1 = 0"
    using write_enable assms by blast
  obtain b2 where b2: "wait_write_enable_loop ops [0] b1 = Some (TLS_FLS_STATUS_OK, b2)"
      "cmem b2 = cmem b1" "wel b2" "busy b2 = 0"
    using wait_write_enable_loop_ok b1 by blast
  obtain b3 where b3: "tls_spi_write ops [0xc7] b2 = (TLS_SPI_STATUS_OK, b3)"
      "cmem b3 = nor_erase (cmem b2) 0 capacity"
    using chip_erase [of b2] b2 by auto
  obtain b4 where b4: "wait_flash_ready_loop ops [0] b3 = Some (TLS_FLS_STATUS_OK, b4)"
      "cmem b4 = cmem b3" "busy b4 = 0"
    using wait_flash_ready_loop_ok by blast
  show ?thesis
    using b1 b2 b3 b4
    by (intro exI [of _ b4]) (simp add: tls_spifls_drv_chip_erase_def tls_spifls_drv_write_enable_def
        tls_spifls_drv_wait_write_enable_def tls_spifls_drv_wait_flash_ready_def)
qed

lemma drv_read_ok:
  assumes "busy (bus s) = 0" "a + n \<le> capacity" "0 < n" "n \<le> 8160" "n \<le> length buf"
  shows "\<exists>b'. tls_spifls_drv_read ops a buf n s =
      Some (TLS_FLS_STATUS_OK, patch buf 0 (mem_get (cmem (bus s)) a n), s\<lparr>bus := b'\<rparr>) \<and>
    cmem b' = cmem (bus s) \<and> busy b' = 0"
  using data_read [of "bus s" n a] assms
  by (auto simp add: tls_spifls_drv_read_def le32_cmds)

lemma ready_bus: "drv_ready busy capacity s \<Longrightarrow> busy b = 0 \<Longrightarrow> drv_ready busy capacity (s\<lparr>bus := b\<rparr>)"
  by (auto simp: drv_ready_def)

lemma page_write_loop_ok:
  assumes "drv_ready busy capacity s" "4096 dvd base" "base < capacity" "length xs = 4096"
    and "i + n = 16" "cmem (bus s) = nor_pages m base 256 xs i"
  shows "\<exists>b'. page_write_loop ops (base div 256) xs 256 i n s = Some (TLS_FLS_STATUS_OK, s\<lparr>bus := b'\<rparr>) \<and>
    cmem b' = mem_upd m base xs \<and> busy b' = 0"
  using assms
proof (induction n arbitrary: i s)
  case 0
  then have "cmem (bus s) = mem_upd m base xs" using nor_pages_all [of 16 256 xs] by simp
  then show ?case using 0(1) by (intro exI [of _ "bus s"]) (simp add: drv_ready_def)
next
  case (Suc n)
  have addr: "(base div 256 + i) * 256 = base + i * 256"
    using Suc.prems(2) by (auto simp: dvd_def)
  have in_chip: "base + i * 256 < capacity"
    using Suc.prems capacity by (auto simp: dvd_def)
  have sl: "slice 0 256 (drop (i * 256) xs) = slice (i * 256) 256 xs"
    by (simp add: slice_drop)
  have room: "256 \<le> length (drop (i * 256) xs)" using Suc.prems by simp
  obtain b where b: "tls_spifls_drv_page_write ops (base div 256 + i) (drop (i * 256) xs) s =
        Some (TLS_FLS_STATUS_OK, s\<lparr>bus := b\<rparr>)"
      "cmem b = nor_program (cmem (bus s)) (base + i * 256) (slice (i * 256) 256 xs)" "busy b = 0"
    using drv_page_write_ok [OF Suc.prems(1) _ room, of "base div 256 + i"] in_chip
    unfolding addr sl by auto
  have "cmem b = nor_pages m base 256 xs (Suc i)"
    using b Suc.prems by (simp add: nor_pages_Suc)
  then have "\<exists>b'. page_write_loop ops (base div 256) xs 256 (Suc i) n (s\<lparr>bus := b\<rparr>) =
      Some (TLS_FLS_STATUS_OK, s\<lparr>bus := b\<rparr>\<lparr>bus := b'\<rparr>) \<and> cmem b' = mem_upd m base xs \<and> busy b' = 0"
    using Suc.prems b by (intro Suc.IH) (auto simp: ready_bus)
  then show ?case using b by auto
qed

text \<open>One round replaces \<open>k\<close> bytes at offset \<open>o\<close> of one sector and keeps the rest of it.\<close>

lemma write_step_ok:
  assumes "drv_ready busy capacity s" "(sa + i) * 4096 < capacity" "length cache = 4096"
    and "k = (if num = 1 then wb else if i = 0 then 4096 - addr mod 4096 else if i = num - 1 then wb else 4096)"
    and "off = (if num = 1 \<or> i = 0 then addr mod 4096 else 0)"
    and "off + k \<le> 4096" "k \<le> length buf" "k \<le> wb" "wb < 4294967296"
  shows "\<exists>b' cache'. spifls_write_step ops addr sa num i (exspi_fls s) cache buf wb s =
      Some (Inr (cache', drop k buf, wb - k), s\<lparr>bus := b'\<rparr>) \<and> length cache' = 4096 \<and>
      cmem b' = mem_upd (cmem (bus s)) ((sa + i) * 4096 + off) (take k buf) \<and> busy b' = 0"
proof -
  let ?base = "(sa + i) * 4096"
  have s: "busy (bus s) = 0" "sector_size (exspi_fls s) = 4096" "page_size (exspi_fls s) = 256"
      "total_size (exspi_fls s) = capacity"
    using assms(1) by (auto simp: drv_ready_def)
  obtain f where f: "spi_fls s = Some f" "current_drv f = Some Exspi_fls"
    using assms(1) by (auto simp: drv_ready_def)
  have fits: "?base + 4096 \<le> capacity"
    using aligned_room [OF capacity(2) assms(2)] by simp
  define old where "old = mem_get (cmem (bus s)) ?base 4096"
  define new where "new = patch old off (take k buf)"
  have new_len: "length new = 4096" "length old = 4096" using assms by (simp_all add: new_def old_def)
  obtain b1 where b1: "tls_spifls_drv_read ops ?base cache 4096 s = Some (TLS_FLS_STATUS_OK, old, s\<lparr>bus := b1\<rparr>)"
      "cmem b1 = cmem (bus s)" "busy b1 = 0"
    using drv_read_ok [of s ?base 4096 cache] s fits assms(3) patch_all [of old cache]
    by (auto simp: old_def)
  obtain b2 where b2: "tls_spifls_drv_erase ops (sa + i) (s\<lparr>bus := b1\<rparr>) = Some (TLS_FLS_STATUS_OK, s\<lparr>bus := b2\<rparr>)"
      "cmem b2 = nor_erase (cmem b1) ?base 4096" "busy b2 = 0"
    using drv_erase_ok [of "s\<lparr>bus := b1\<rparr>" "sa + i"] assms(1,2) b1 by (auto simp: ready_bus)
  obtain b3 where b3: "page_write_loop ops (?base div 256) new 256 0 16 (s\<lparr>bus := b2\<rparr>) =
        Some (TLS_FLS_STATUS_OK, s\<lparr>bus := b3\<rparr>)"
      "cmem b3 = mem_upd (cmem (bus s)) ?base new" "busy b3 = 0"
    using page_write_loop_ok [of "s\<lparr>bus := b2\<rparr>" ?base new 0 16 "cmem (bus s)"] assms(1,2) b1 b2 new_len
      nor_pages_0 [OF new_len(1), of "cmem (bus s)" ?base 256]
    by (auto simp: ready_bus)
  have pages: "?base div 256 = (sa + i) * 16" by simp
  have "(sa + i) * 16 < capacity div 256" using fits by simp
  moreover have "add32 ((sa + i) * 16) 16 \<le> capacity div 256"
    using fits capacity(3) by simp
  ultimately have pw: "tls_spifls_page_write ops ((sa + i) * 16) (Some new) 16 (s\<lparr>bus := b2\<rparr>) =
      Some (TLS_FLS_STATUS_OK, s\<lparr>bus := b3\<rparr>)"
    using b3(1) f s unfolding pages by (simp add: tls_spifls_page_write_def not_le del: distrib_right)
  have put: "buf_put old off (take k buf) = Some new"
    using assms new_len by (simp add: new_def)
  have get: "buf_get buf 0 k = Some (take k buf)"
    using assms by (simp add: slice_def)
  have cm: "cmem b3 = mem_upd (cmem (bus s)) (?base + off) (take k buf)"
    using b3(2) assms by (simp add: new_def old_def mem_upd_patch_get)
  have "spifls_write_step ops addr sa num i (exspi_fls s) cache buf wb s =
      Some (Inr (new, drop k buf, wb - k), s\<lparr>bus := b3\<rparr>)"
    using b1(1) b2(1) pw put get assms(8,9)
    unfolding spifls_write_step_def s assms(4) [symmetric] assms(5) [symmetric] by simp
  then show ?thesis using new_len cm b3 by blast
qed

lemma write_loop_ok:
  assumes "drv_ready busy capacity s" "length cache = 4096"
    and "n < num" "(n - 1) * 4096 < wb" "wb \<le> n * 4096" "wb \<le> length buf"
    and "(sa + (num - n)) * 4096 + wb \<le> capacity"
  shows "\<exists>b'. spifls_write_loop ops addr sa num (exspi_fls s) n cache buf wb s =
      Some (TLS_FLS_STATUS_OK, s\<lparr>bus := b'\<rparr>) \<and>
      cmem b' = mem_upd (cmem (bus s)) ((sa + (num - n)) * 4096) (take wb buf) \<and> busy b' = 0"
  using assms
proof (induction n arbitrary: cache buf wb s)
  case 0
  then show ?case by (intro exI [of _ "bus s"]) (simp add: drv_ready_def)
next
  case (Suc n)
  let ?i = "num - Suc n"
  let ?k = "if n = 0 then wb else 4096"
  have wb: "wb < 4294967296" using Suc.prems capacity by simp
  obtain b c where step: "spifls_write_step ops addr sa num ?i (exspi_fls s) cache buf wb s =
        Some (Inr (c, drop ?k buf, wb - ?k), s\<lparr>bus := b\<rparr>)" "length c = 4096"
      "cmem b = mem_upd (cmem (bus s)) ((sa + ?i) * 4096 + 0) (take ?k buf)" "busy b = 0"
    using write_step_ok [of s sa ?i cache ?k num wb addr 0 buf] Suc.prems wb
    by (fastforce split: if_splits)
  show ?case
  proof (cases "n = 0")
    case True
    then show ?thesis using step by auto
  next
    case False
    have next_i: "num - n = Suc ?i" using Suc.prems(3) by simp
    have "\<exists>b'. spifls_write_loop ops addr sa num (exspi_fls (s\<lparr>bus := b\<rparr>)) n c (drop 4096 buf) (wb - 4096)
          (s\<lparr>bus := b\<rparr>) = Some (TLS_FLS_STATUS_OK, s\<lparr>bus := b\<rparr>\<lparr>bus := b'\<rparr>) \<and>
        cmem b' = mem_upd (cmem b) ((sa + (num - n)) * 4096) (take (wb - 4096) (drop 4096 buf)) \<and> busy b' = 0"
      using Suc.IH [of "s\<lparr>bus := b\<rparr>" c "wb - 4096" "drop 4096 buf"] Suc.prems False step next_i
      by (auto simp: ready_bus algebra_simps)
    then obtain b' where b': "spifls_write_loop ops addr sa num (exspi_fls s) n c (drop 4096 buf) (wb - 4096)
          (s\<lparr>bus := b\<rparr>) = Some (TLS_FLS_STATUS_OK, s\<lparr>bus := b'\<rparr>)"
        "cmem b' = mem_upd (cmem b) ((sa + (num - n)) * 4096) (take (wb - 4096) (drop 4096 buf))" "busy b' = 0"
      by auto
    have len: "length (take 4096 buf) = 4096" "4096 \<le> wb" using Suc.prems False by auto
    have "cmem b' = mem_upd (cmem (bus s)) ((sa + ?i) * 4096) (take 4096 buf @ take (wb - 4096) (drop 4096 buf))"
      using b'(2) step(3) False len mem_upd_append [of "cmem (bus s)" "(sa + ?i) * 4096" "take 4096 buf"]
      by (simp add: next_i algebra_simps)
    also have "take 4096 buf @ take (wb - 4096) (drop 4096 buf) = take wb buf"
      using len take_add [of 4096 "wb - 4096" buf] by simp
    finally show ?thesis using b' step False by auto
  qed
qed

lemma drv_ready_lock: "drv_ready busy capacity s \<Longrightarrow> drv_ready busy capacity (set_lock n s)"
  by (auto simp: drv_ready_def)

lemma spi_ready_bus: "spi_ready busy capacity s \<Longrightarrow> busy b = 0 \<Longrightarrow> spi_ready busy capacity (s\<lparr>bus := b\<rparr>)"
  by (simp add: spi_ready_def ready_bus)

lemma spi_readyE:
  assumes "spi_ready busy capacity s"
  obtains f c where "spi_fls s = Some f" "current_drv f = Some Exspi_fls" "lock_count s = Suc c"
    "set_lock (Suc c) s = s" "drv_ready busy capacity (set_lock c s)" "heap s = []" "busy (bus s) = 0"
    "total_size (exspi_fls s) = capacity" "sector_size (exspi_fls s) = 4096"
proof -
  obtain c where c: "lock_count s = Suc c"
    using assms gr0_implies_Suc by (auto simp: spi_ready_def)
  then have "set_lock (Suc c) s = s" using set_lock_count [of s] by simp
  moreover obtain f where "spi_fls s = Some f" "current_drv f = Some Exspi_fls"
    using assms by (auto simp: spi_ready_def drv_ready_def)
  moreover have "drv_ready busy capacity (set_lock c s)"
    using assms by (simp add: spi_ready_def drv_ready_lock)
  ultimately show ?thesis
    using that c assms by (auto simp: spi_ready_def drv_ready_def)
qed

lemma spifls_read_ok:
  assumes "spi_ready busy capacity s" "addr < capacity" "0 < len" "addr + len < 4294967296"
    and "n = min len (capacity - addr)" "n \<le> 8160" "n \<le> length buf"
  shows "\<exists>b'. tls_spifls_read ops addr (Some buf) len s =
      Some (TLS_FLS_STATUS_OK, Some (patch buf 0 (mem_get (cmem (bus s)) addr n)), s\<lparr>bus := b'\<rparr>) \<and>
    cmem b' = cmem (bus s) \<and> busy b' = 0"
  using assms(1)
proof (rule spi_readyE)
  fix f c
  assume f: "spi_fls s = Some f" "current_drv f = Some Exspi_fls" "lock_count s = Suc c"
    "set_lock (Suc c) s = s" "total_size (exspi_fls s) = capacity" "busy (bus s) = 0"
  have "addr + n \<le> capacity" "0 < n" using assms by auto
  then obtain b where b: "tls_spifls_drv_read ops addr buf n (set_lock c s) =
        Some (TLS_FLS_STATUS_OK, patch buf 0 (mem_get (cmem (bus s)) addr n), (set_lock c s)\<lparr>bus := b\<rparr>)"
      "cmem b = cmem (bus s)" "busy b = 0"
    using drv_read_ok [of "set_lock c s" addr n buf] assms(6,7) f by auto
  have n: "(if add32 addr len > capacity then capacity - addr else len) = n"
    using assms(2-5) by auto
  show ?thesis
    using b f assms(2,3) n by (auto simp: tls_spifls_read_def Let_def)
qed

text \<open>The whole loop, first sector included.\<close>

lemma write_all_ok:
  assumes "drv_ready busy capacity s" "length cache = 4096" "0 < wb" "addr + wb \<le> capacity"
    and "wb \<le> length buf" "num = (addr + wb - 1) div 4096 - addr div 4096 + 1"
  shows "\<exists>b'. spifls_write_loop ops addr (addr div 4096) num (exspi_fls s) num cache buf wb s =
      Some (TLS_FLS_STATUS_OK, s\<lparr>bus := b'\<rparr>) \<and> cmem b' = mem_upd (cmem (bus s)) addr (take wb buf) \<and> busy b' = 0"
proof -
  let ?sa = "addr div 4096" and ?off = "addr mod 4096"
  let ?k = "if num = 1 then wb else 4096 - ?off"
  have addr: "?sa * 4096 + ?off = addr" by simp
  have off: "?off < 4096" by simp
  have le: "?sa \<le> (addr + wb - 1) div 4096" using assms(3) by (intro div_le_mono) simp
  have last: "(addr + wb - 1) div 4096 = ?sa + num - 1" using le assms(6) by simp
  have ext: "?off + wb = (num - 1) * 4096 + (addr + wb - 1) mod 4096 + 1"
  proof -
    have "addr + wb - 1 = (?sa + (num - 1)) * 4096 + (addr + wb - 1) mod 4096"
      using last assms(6) div_mult_mod_eq [of "addr + wb - 1" 4096] by simp
    then show ?thesis using addr assms(3) unfolding distrib_right by linarith
  qed
  have r: "(addr + wb - 1) mod 4096 < 4096" by simp
  have k: "?off + ?k \<le> 4096" "?k \<le> wb" "?k \<le> length buf"
    using first_sector_part [OF ext r off _ refl] assms(5,6) by auto
  have wb: "wb < 4294967296" using assms(4) capacity by simp
  have sector: "(?sa + 0) * 4096 < capacity" unfolding add_0_right using addr assms(3,4) by linarith
  obtain m where m: "num = Suc m" using assms(6) by simp
  have k_def: "?k = (if num = 1 then wb else if (0::nat) = 0 then 4096 - ?off
      else if 0 = num - 1 then wb else 4096)" by simp
  obtain b c where step: "spifls_write_step ops addr ?sa num 0 (exspi_fls s) cache buf wb s =
        Some (Inr (c, drop ?k buf, wb - ?k), s\<lparr>bus := b\<rparr>)" "length c = 4096"
      "cmem b = mem_upd (cmem (bus s)) ((?sa + 0) * 4096 + ?off) (take ?k buf)" "busy b = 0"
    using write_step_ok [OF assms(1) sector assms(2) k_def _ k(1,3,2) wb] by auto
  show ?thesis
  proof (cases "m = 0")
    case True
    then show ?thesis using step addr m by (intro exI [of _ b]) auto
  next
    case False
    let ?k' = "4096 - ?off"
    have k': "?k = ?k'" using False m by simp
    have rest: "(m - 1) * 4096 < wb - ?k'" "wb - ?k' \<le> m * 4096"
      using first_sector_part [OF ext r off _ refl] m False k' by auto
    have nxt: "(?sa + (num - m)) * 4096 = addr + ?k'"
    proof -
      have "num - m = 1" using m by simp
      then show ?thesis unfolding distrib_right using addr off by linarith
    qed
    have bound: "(?sa + (num - m)) * 4096 + (wb - ?k') \<le> capacity"
      unfolding nxt using assms(4) k(2) k' by simp
    have len: "wb - ?k' \<le> length (drop ?k' buf)" using assms(5) by simp
    have small: "m < num" using m by simp
    obtain b' where b': "spifls_write_loop ops addr ?sa num (exspi_fls (s\<lparr>bus := b\<rparr>)) m c (drop ?k' buf) (wb - ?k')
          (s\<lparr>bus := b\<rparr>) = Some (TLS_FLS_STATUS_OK, s\<lparr>bus := b\<rparr>\<lparr>bus := b'\<rparr>)"
        "cmem b' = mem_upd (cmem (bus (s\<lparr>bus := b\<rparr>))) ((?sa + (num - m)) * 4096) (take (wb - ?k') (drop ?k' buf))"
        "busy b' = 0"
      using write_loop_ok [OF ready_bus [OF assms(1) step(4)] step(2) small rest len bound] by blast
    have bus_upd: "bus (s\<lparr>bus := b\<rparr>) = b" by simp
    have tk: "length (take ?k' buf) = ?k'" using k(3) unfolding k' length_take by (rule min_absorb2)
    have cb: "cmem b = mem_upd (cmem (bus s)) addr (take ?k' buf)"
      using step(3) unfolding k' add_0_right addr .
    have "cmem b' = mem_upd (cmem (bus s)) addr (take ?k' buf @ take (wb - ?k') (drop ?k' buf))"
      using b'(2) mem_upd_append [of "cmem (bus s)" addr "take ?k' buf"] unfolding nxt tk bus_upd cb
      by (simp only:)
    moreover have "take ?k' buf @ take (wb - ?k') (drop ?k' buf) = take wb buf"
      using k(2) unfolding k' by (metis le_add_diff_inverse take_add)
    ultimately have "cmem b' = mem_upd (cmem (bus s)) addr (take wb buf)" by (simp only:)
    then show ?thesis using b'(1,3) step(1) k' m by (intro exI [of _ b']) simp
  qed
qed

lemma spifls_write_ok:
  assumes "spi_ready busy capacity s" "addr < capacity" "0 < len" "addr + len < 4294967296"
    and "n = min len (capacity - addr)" "n \<le> length buf"
  shows "\<exists>b'. tls_spifls_write ops addr (Some buf) len s = Some (TLS_FLS_STATUS_OK, s\<lparr>bus := b'\<rparr>) \<and>
    cmem b' = mem_upd (cmem (bus s)) addr (take n buf) \<and> busy b' = 0"
  using assms(1)
proof (rule spi_readyE)
  fix f c
  assume f: "spi_fls s = Some f" "current_drv f = Some Exspi_fls" "lock_count s = Suc c"
    "set_lock (Suc c) s = s" "drv_ready busy capacity (set_lock c s)" "heap s = []"
    "total_size (exspi_fls s) = capacity" "sector_size (exspi_fls s) = 4096"
  have n: "0 < n" "addr + n \<le> capacity" "(if add32 addr len > capacity then capacity - addr else len) = n"
    using assms(2-5) by auto
  let ?num = "(addr + n - 1) div 4096 - addr div 4096 + 1"
  have small: "addr + n < 4294967296" using n capacity by simp
  have num: "add32 (sub32 (sub32 (add32 addr n) 1 div 4096) (addr div 4096)) 1 = ?num"
    by (rule sector_count [OF n(1) small])
  define k where "k = ?num"
  define sa where "sa = addr div 4096"
  obtain b where b: "spifls_write_loop ops addr sa k (exspi_fls (set_lock c s)) k
        (fresh 4096 (set_lock c s)) buf n (set_lock c s) = Some (TLS_FLS_STATUS_OK, (set_lock c s)\<lparr>bus := b\<rparr>)"
      "cmem b = mem_upd (cmem (bus s)) addr (take n buf)" "busy b = 0"
    using write_all_ok [OF f(5) _ n(1,2) assms(6) k_def, of "fresh 4096 (set_lock c s)"]
    unfolding sa_def by auto
  show ?thesis
    using f b assms(2,3) num [folded k_def sa_def] n(3) unfolding tls_spifls_write_def
    by (intro exI [of _ b]) (simp add: Let_def sa_def [symmetric] del: One_nat_def add32_small sub32_small cong: if_cong split del: if_split)
qed

lemma spifls_erase_ok:
  assumes "spi_ready busy capacity s" "sector * 4096 < capacity"
  shows "\<exists>b'. tls_spifls_erase ops sector s = Some (TLS_FLS_STATUS_OK, s\<lparr>bus := b'\<rparr>) \<and>
    cmem b' = nor_erase (cmem (bus s)) (sector * 4096) 4096 \<and> busy b' = 0"
  using assms(1)
proof (rule spi_readyE)
  fix f c
  assume f: "spi_fls s = Some f" "current_drv f = Some Exspi_fls" "lock_count s = Suc c"
    "set_lock (Suc c) s = s" "drv_ready busy capacity (set_lock c s)" "heap s = []"
    "total_size (exspi_fls s) = capacity" "sector_size (exspi_fls s) = 4096"
  have "sector < capacity div 4096" using aligned_room [OF capacity(2) assms(2)] by simp
  then show ?thesis
    using drv_erase_ok [OF f(5) assms(2)] f
    by (auto simp: tls_spifls_erase_def not_le)
qed

lemma spifls_chip_erase_ok:
  assumes "drv_ready busy capacity s"
  shows "\<exists>b'. tls_spifls_chip_erase ops s = Some (TLS_FLS_STATUS_OK, s\<lparr>bus := b'\<rparr>) \<and>
    cmem b' = nor_erase (cmem (bus s)) 0 capacity \<and> busy b' = 0"
  using assms drv_chip_erase_ok [of s] by (auto simp: drv_ready_def tls_spifls_chip_erase_def)

end

definition spi_accessible :: "nat \<Rightarrow> nat \<Rightarrow> nat \<Rightarrow> bool" where
  "spi_accessible capacity a n \<longleftrightarrow> 0 < n \<and> n \<le> 8160 \<and> a + n \<le> capacity"

sublocale spi_nor \<subseteq> spi: flash_store "spi_ready busy capacity" "\<lambda>s. cmem (bus s)"
  "spi_accessible capacity" "tls_spifls_read ops" "tls_spifls_write ops"
proof
  fix s :: "('b, 'c) spi_state_scheme" and a n and buf :: bytes
  assume s: "spi_ready busy capacity s" and acc: "spi_accessible capacity a n" and len: "n \<le> length buf"
  have a: "a < capacity" "0 < n" "a + n < 4294967296" "n = min n (capacity - a)" "n \<le> 8160"
    using acc capacity(3) by (auto simp: spi_accessible_def)
  show "\<exists>s'. tls_spifls_read ops a (Some buf) n s =
      Some (TLS_FLS_STATUS_OK, Some (patch buf 0 (mem_get (cmem (bus s)) a n)), s') \<and>
      spi_ready busy capacity s' \<and> cmem (bus s') = cmem (bus s)"
    using spifls_read_ok [OF s a(1-4) a(5) len] spi_ready_bus [OF s] by fastforce
  show "\<exists>s'. tls_spifls_write ops a (Some buf) n s = Some (TLS_FLS_STATUS_OK, s') \<and>
      spi_ready busy capacity s' \<and> cmem (bus s') = mem_upd (cmem (bus s)) a (take n buf)"
    using spifls_write_ok [OF s a(1-4) len] spi_ready_bus [OF s] by fastforce
qed

context spi_nor
begin

text \<open>Installing the driver on an idle chip whose identification carries its capacity.\<close>

lemma spifls_init_ready:
  assumes "spi_fls s = None" "heap s = []"
    and "tls_spi_read_with_cmd ops (le32 0x9F) 3 (bus s) = (TLS_SPI_STATUS_OK, [m, d, c], b)"
    and "cmem b = cmem (bus s)" "busy b = 0" "c \<noteq> 0" "unat c < 31" "capacity = 2 ^ unat c"
  shows "\<exists>s'. tls_spifls_init ops s = Some (TLS_FLS_STATUS_OK, s') \<and> spi_ready busy capacity s' \<and>
    lock_count s' = 1 \<and> cmem (bus s') = cmem (bus s)"
proof -
  define ident where "ident = of_le32 [m, d, c, 0]"
  have hi: "drop_bit 16 ident = ucast c"
  proof (rule bit_word_eqI)
    fix n :: nat
    have "\<not> bit m (16 + n)" "\<not> bit d (8 + n)" using bit_imp_le_length [of m "16 + n"]
        bit_imp_le_length [of d "8 + n"] by auto
    then show "bit (drop_bit 16 ident) n = bit (ucast c :: u32) n"
      by (auto simp: ident_def of_le32_def bit_simps dest: bit_imp_le_length)
  qed
  have e: "unat (ucast c :: u32) = unat c" using unsigned_less [of c, where 'a = nat]
    by (simp add: unsigned_ucast_eq take_bit_nat_eq_self)
  have cz: "(ucast c :: u32) \<noteq> 0" using assms(6) e by (metis unsigned_0 unsigned_word_eqI)
  have "(ucast c :: u32) AND mask 8 = ucast c"
    by (rule bit_word_eqI) (auto simp: bit_simps dest: bit_imp_le_length)
  then have nz: "(ucast c :: u32) AND 0xFF \<noteq> 0" "ident \<noteq> 0"
    using cz hi by (auto simp: mask_eq_exp_minus_1)
  have id_ok: "buf_put (le32 0) 0 [m, d, c] = Some [m, d, c, 0]"
    by (simp add: le32_def patch_def)
  show ?thesis
    using assms nz e
    by (simp add: tls_spifls_init_def tls_spifls_drv_install_def tls_spifls_drv_register_def
        tls_spifls_probe_def tls_spifls_read_id_def tls_spifls_drv_probe_def id_ok hi
        ident_def [symmetric] spi_ready_def drv_ready_def lock_count_def bus_setup)
qed

end

section \<open>A concrete chip\<close>

text \<open>A serial NOR chip that decodes the frames of the driver, with the SPI master in front of it: the
  contract is met by it.\<close>

record chip =
  c_mem :: memory
  c_wel :: bool
  c_busy :: nat

definition chip_addr :: "bytes \<Rightarrow> nat" where
  "chip_addr a = unat (a ! 0) * 65536 + unat (a ! 1) * 256 + unat (a ! 2)"

lemma chip_addr_addr24 [simp]: "a < 16777216 \<Longrightarrow> chip_addr (addr24 a) = a"
proof -
  assume a: "a < 16777216"
  have "unat (word_of_nat k :: u8) = k mod 256" for k
    by (simp add: unsigned_of_nat take_bit_eq_mod)
  moreover have "a div 65536 < 256" using a by simp
  moreover have "a = a div 65536 * 65536 + (a div 256 mod 256 * 256 + a mod 256)"
  proof -
    have "a = a div 256 * 256 + a mod 256" by simp
    moreover have "a div 256 = a div 256 div 256 * 256 + a div 256 mod 256" by simp
    moreover have "a div 256 div 256 = a div 65536" by (simp add: div_mult2_eq [symmetric])
    ultimately show ?thesis by linarith
  qed
  ultimately show ?thesis by (simp add: chip_addr_def addr24_def)
qed

fun chip_write :: "nat \<Rightarrow> bytes \<Rightarrow> chip \<Rightarrow> int \<times> chip" where
  "chip_write cap [] b = (- 1, b)"
| "chip_write cap (c # a) b =
     (TLS_SPI_STATUS_OK,
      if 0 < c_busy b then b
      else if c = 0x06 then b\<lparr>c_wel := True\<rparr>
      else if c = 0x20 \<and> c_wel b
        then b\<lparr>c_mem := nor_erase (c_mem b) (chip_addr a) 4096, c_wel := False, c_busy := 3\<rparr>
      else if c = 0xc7 \<and> c_wel b
        then b\<lparr>c_mem := nor_erase (c_mem b) 0 cap, c_wel := False, c_busy := 9\<rparr>
      else b)"

fun chip_read :: "bytes \<Rightarrow> bytes \<Rightarrow> nat \<Rightarrow> chip \<Rightarrow> int \<times> bytes \<times> chip" where
  "chip_read ident [] n b = (- 1, [], b)"
| "chip_read ident (c # a) n b =
     (if c = 0x05
      then (TLS_SPI_STATUS_OK, replicate n ((if 0 < c_busy b then 1 else 0) OR (if c_wel b then 2 else 0)),
            b\<lparr>c_busy := c_busy b - 1\<rparr>)
      else if 0 < c_busy b then (TLS_SPI_STATUS_OK, replicate n 0xFF, b)
      else if c = 0x9F then (TLS_SPI_STATUS_OK, take n ident, b)
      else if n \<le> 8160 \<and> c = 0x03 then (TLS_SPI_STATUS_OK, mem_get (c_mem b) (chip_addr a) n, b)
      else (- 1, [], b))"

fun chip_write_with_cmd :: "bytes \<Rightarrow> bytes \<Rightarrow> chip \<Rightarrow> int \<times> chip" where
  "chip_write_with_cmd [] xs b = (- 1, b)"
| "chip_write_with_cmd (c # a) xs b =
     (TLS_SPI_STATUS_OK,
      if 0 < c_busy b then b
      else if c = 0x02 \<and> c_wel b
        then b\<lparr>c_mem := nor_program (c_mem b) (chip_addr a) xs, c_wel := False, c_busy := 2\<rparr>
      else b)"

definition chip_ops :: "nat \<Rightarrow> bytes \<Rightarrow> chip spi_ops" where
  "chip_ops cap ident = \<lparr>tls_spi_write = chip_write cap, tls_spi_read_with_cmd = chip_read ident,
     tls_spi_write_with_cmd = chip_write_with_cmd, tls_spi_setup = (\<lambda>_ _ _ b. b)\<rparr>"

abbreviation (input) chip_1M :: "chip spi_ops" where
  "chip_1M \<equiv> chip_ops 1048576 [0xC8, 0x40, 0x14]"

interpretation chip: spi_nor chip_1M c_mem c_wel c_busy 1048576
  by unfold_locales (auto simp: chip_ops_def)

definition chip_board :: "chip spi_state" where
  "chip_board = \<lparr>heap = [], junk = (\<lambda>_. 0), bus = \<lparr>c_mem = (\<lambda>_. 0xFF), c_wel = False, c_busy = 0\<rparr>,
     spi_fls = None, exspi_fls = exspi_fls_init, exspifls_drv = None\<rparr>"

definition chip_board_ready :: "chip spi_state" where
  "chip_board_ready = chip_board\<lparr>
     spi_fls := Some \<lparr>fls_drvs = [Exspi_fls], current_drv = Some Exspi_fls, fls_lock = 1\<rparr>,
     exspi_fls := exspi_fls_init\<lparr>drv_id := 0x1440C8, total_size := 1048576, page_size := 256,
       program_size := 256, sector_size := 4096\<rparr>,
     exspifls_drv := Some Exspi_fls\<rparr>"

lemma chip_board_ready: "spi_ready c_busy 1048576 chip_board_ready"
  by (simp add: spi_ready_def drv_ready_def chip_board_ready_def chip_board_def lock_count_def)

section \<open>Properties\<close>

text \<open>C22: on every chip that keeps its data sheet, \<open>tls_spifls_write\<close> returns OK, replaces exactly the
  bytes it was given (clipped at the end of the chip), keeps every other byte of the sectors it
  erases, and leaves the lock as it was.\<close>

theorem tls_spifls_write_exact:
  assumes "spi_nor ops cmem wel busy capacity" "spi_ready busy capacity s"
    and "addr < capacity" "0 < len" "addr + len < 4294967296" "min len (capacity - addr) \<le> length buf"
  shows "\<exists>s'. tls_spifls_write ops addr (Some buf) len s = Some (TLS_FLS_STATUS_OK, s') \<and>
    cmem (bus s') = mem_upd (cmem (bus s)) addr (take (min len (capacity - addr)) buf) \<and>
    spi_ready busy capacity s' \<and> lock_count s' = lock_count s"
  using spi_nor.spifls_write_ok [OF assms(1-5) refl assms(6)] spi_nor.spi_ready_bus [OF assms(1,2)]
  by fastforce

theorem tls_spifls_write_exact_witness:
  "\<exists>s'. tls_spifls_write chip_1M 4090 (Some (replicate 10 0x5A)) 10 chip_board_ready = Some (TLS_FLS_STATUS_OK, s') \<and>
    c_mem (bus s') = mem_upd (c_mem (bus chip_board_ready)) 4090 (take (min 10 (1048576 - 4090)) (replicate 10 0x5A)) \<and>
    spi_ready c_busy 1048576 s' \<and> lock_count s' = lock_count chip_board_ready"
  by (rule tls_spifls_write_exact [OF chip.spi_nor_axioms chip_board_ready]) simp_all

text \<open>\<open>tls_spifls_init\<close> on an idle chip whose identification carries its capacity installs the
  driver: the state it leaves is the one in which reads and writes work, with the lock free and the
  contents of the chip untouched.\<close>

theorem tls_spifls_init_installs:
  assumes "spi_nor ops cmem wel busy capacity" "spi_fls s = None" "heap s = []"
    and "tls_spi_read_with_cmd ops (le32 0x9F) 3 (bus s) = (TLS_SPI_STATUS_OK, [m, d, c], b)"
    and "cmem b = cmem (bus s)" "busy b = 0" "c \<noteq> 0" "unat c < 31" "capacity = 2 ^ unat c"
  shows "\<exists>s'. tls_spifls_init ops s = Some (TLS_FLS_STATUS_OK, s') \<and> spi_ready busy capacity s' \<and>
    lock_count s' = 1 \<and> cmem (bus s') = cmem (bus s)"
  by (rule spi_nor.spifls_init_ready [OF assms])

theorem tls_spifls_init_installs_witness:
  "\<exists>s'. tls_spifls_init chip_1M chip_board = Some (TLS_FLS_STATUS_OK, s') \<and> spi_ready c_busy 1048576 s' \<and>
    lock_count s' = 1 \<and> c_mem (bus s') = c_mem (bus chip_board)"
  by (rule tls_spifls_init_installs [OF chip.spi_nor_axioms, where m = "0xC8" and d = "0x40" and c = "0x14"
        and b = "bus chip_board"])
    (simp_all add: chip_board_def chip_ops_def le32_def)

text \<open>When the SPI transfer of the first sector fails, \<open>tls_spifls_write\<close> returns EIO but releases
  the lock twice: the count is one higher than before the call, so that from then on two tasks can
  hold the lock at the same time.\<close>

theorem tls_spifls_write_error_releases_twice:
  assumes "spi_fls s = Some f" "current_drv f = Some Exspi_fls" "0 < fls_lock f" "heap s = []"
    and "addr < total_size (exspi_fls s)" "0 < len" "addr + len \<le> total_size (exspi_fls s)"
    and "total_size (exspi_fls s) < 4294967296" "sector_size (exspi_fls s) = 4096"
    and "tls_spi_read_with_cmd ops (0x03 # addr24 (addr div 4096 * 4096)) 4096 (bus s) = (err, [], b)" "err \<noteq> 0"
  shows "\<exists>s'. tls_spifls_write ops addr (Some buf) len s = Some (TLS_FLS_STATUS_EIO, s') \<and>
    lock_count s' = lock_count s + 1"
proof -
  obtain c where c: "fls_lock f = Suc c" using assms(3) gr0_implies_Suc by blast
  define sa where "sa = addr div 4096"
  define k where "k = add32 (sub32 (sub32 (add32 addr len) 1 div 4096) sa) 1"
  have "addr + len < 4294967296" using assms(7,8) by linarith
  then obtain k' where k': "k = Suc k'"
    using sector_count [OF assms(6)] by (simp add: k_def sa_def)
  have rd: "tls_spifls_drv_read ops (sa * 4096) (fresh 4096 (set_lock c s)) 4096 (set_lock c s) =
      Some (TLS_FLS_STATUS_EIO, fresh 4096 (set_lock c s), (set_lock c s)\<lparr>bus := b\<rparr>)"
    using assms(10,11) by (simp add: tls_spifls_drv_read_def le32_cmds sa_def del: of_nat_mult)
  have clip: "(if add32 addr len > total_size (exspi_fls s) then total_size (exspi_fls s) - addr else len) = len"
    using assms(7,8) by simp
  have "spifls_write_step ops addr sa k 0 (exspi_fls s) (fresh 4096 (set_lock c s)) buf len (set_lock c s) =
      Some (Inl TLS_FLS_STATUS_EIO, (set_lock (Suc c) s)\<lparr>bus := b\<rparr>)"
    using rd assms(1,9) by (simp add: spifls_write_step_def)
  then have "spifls_write_loop ops addr sa k (exspi_fls s) k (fresh 4096 (set_lock c s)) buf len (set_lock c s) =
      Some (TLS_FLS_STATUS_EIO, (set_lock (Suc c) s)\<lparr>bus := b\<rparr>)"
    by (simp add: k')
  then have "tls_spifls_write ops addr (Some buf) len s =
      Some (TLS_FLS_STATUS_EIO, (set_lock (Suc (Suc c)) s)\<lparr>bus := b\<rparr>)"
    using assms(1,2,4,5,6,9) c clip unfolding tls_spifls_write_def
    by (simp add: Let_def sa_def [symmetric] k_def [symmetric] lock_count_def [of s]
        del: One_nat_def add32_small sub32_small cong: if_cong split del: if_split)
  then show ?thesis using assms(1) c by (simp add: lock_count_def)
qed

text \<open>A bus on which every transfer fails.\<close>

definition dead_bus :: "chip spi_ops" where
  "dead_bus = \<lparr>tls_spi_write = (\<lambda>_ b. (- 4, b)), tls_spi_read_with_cmd = (\<lambda>_ _ b. (- 4, [], b)),
     tls_spi_write_with_cmd = (\<lambda>_ _ b. (- 4, b)), tls_spi_setup = (\<lambda>_ _ _ b. b)\<rparr>"

theorem tls_spifls_write_error_releases_twice_witness:
  "\<exists>s'. tls_spifls_write dead_bus 4090 (Some [1, 2, 3]) 3 chip_board_ready = Some (TLS_FLS_STATUS_EIO, s') \<and>
    lock_count s' = lock_count chip_board_ready + 1"
  by (rule tls_spifls_write_error_releases_twice [where err = "- 4" and b = "bus chip_board_ready"
        and f = "\<lparr>fls_drvs = [Exspi_fls], current_drv = Some Exspi_fls, fls_lock = 1\<rparr>"])
    (simp_all add: chip_board_ready_def chip_board_def dead_bus_def)

end
