(* ===== verification/Internal_Flash.thy ===== *)
theory Internal_Flash
  imports Spi_Flash
begin

text \<open>
  The driver of the internal flash, \<^verbatim>\<open>src/Platform/Drivers/internalflash/wm_internal_fls.c\<close>: the
  flash the whole firmware reads and writes through \<open>tls_fls_read\<close>, \<open>tls_fls_write\<close> and
  \<open>tls_fls_erase\<close>, the first megabyte on the flash controller, the second, where present, on the
  SPI flash. The flash controller is hardware and a parameter: a record of what a store to its
  command and address registers (0x40002000, 0x40002004) does and of the accesses to its data window
  (0x40002200), over a hardware state of any type. The locale \<open>inner_nor\<close> states what the commands
  the driver issues do to the flash array.
\<close>

section \<open>Data\<close>

record 'q qf_ops =
  qf_start :: "u32 \<Rightarrow> u32 \<Rightarrow> 'q \<Rightarrow> 'q"
  qf_win_rd :: "nat \<Rightarrow> 'q \<Rightarrow> u32"
  qf_win_wr :: "nat \<Rightarrow> u32 \<Rightarrow> 'q \<Rightarrow> 'q"

record ('b, 'q) fls_state = "'b spi_state" +
  qf :: 'q
  inside_fls :: "nat option"
  inner1flashsize :: nat
  inner2flashsize :: nat
  flashtotalsize :: nat
  gsflscache :: "bytes option"
  gsSector :: nat

abbreviation (input) FLASH_BASE_ADDR :: nat where "FLASH_BASE_ADDR \<equiv> 0x08000000"
abbreviation (input) FLASH_1M_END_ADDR :: nat where "FLASH_1M_END_ADDR \<equiv> 0x08100000"
abbreviation (input) INSIDE_FLS_BASE_ADDR :: nat where "INSIDE_FLS_BASE_ADDR \<equiv> 0x8000000"
abbreviation (input) INSIDE_FLS_SECBOOT_ADDR :: nat where "INSIDE_FLS_SECBOOT_ADDR \<equiv> 0x8002000"
abbreviation (input) INSIDE_FLS_SECTOR_SIZE :: nat where "INSIDE_FLS_SECTOR_SIZE \<equiv> 0x1000"
abbreviation (input) INSIDE_FLS_PAGE_SIZE :: nat where "INSIDE_FLS_PAGE_SIZE \<equiv> 256"
abbreviation (input) NO_ADDR :: nat where "NO_ADDR \<equiv> 0xFFFFFFFF"

section \<open>Commands of the flash controller\<close>

text \<open>The value stored to the address register 0x40002004.\<close>

definition addr_reg :: "nat \<Rightarrow> u32" where
  "addr_reg addr = 0x10000000 OR push_bit 8 (of_nat (addr AND 0xFFFFF))"

definition writeEnable :: "'q qf_ops \<Rightarrow> 'q \<Rightarrow> 'q" where
  "writeEnable qo q = qf_start qo 0x6 0x10000000 q"

definition readRID :: "'q qf_ops \<Rightarrow> 'q \<Rightarrow> u32 \<times> 'q" where
  "readRID qo q =
     (let q = qf_start qo 0x2c09F 0x10000000 q in (qf_win_rd qo 0 q AND 0xFF, q))"

definition writeGDBpBit ::
    "'q qf_ops \<Rightarrow> u32 \<Rightarrow> u32 \<Rightarrow> u32 \<Rightarrow> u32 \<Rightarrow> u32 \<Rightarrow> u32 \<Rightarrow> 'q \<Rightarrow> 'q" where
  "writeGDBpBit qo cmp bp4 bp3 bp2 bp1 bp0 q =
     (let q = qf_start qo 0x0C005 0x10000000 q;
          status = qf_win_rd qo 0 q AND 0xFF;
          q = qf_start qo 0x0C035 0x10000000 q;
          status = status OR push_bit 8 (qf_win_rd qo 0 q AND 0xFF);
          q = qf_start qo 0x6 0x10000000 q;
          bpstatus = push_bit 6 bp4 OR push_bit 5 bp3 OR push_bit 4 bp2 OR push_bit 3 bp1 OR push_bit 2 bp0;
          status = (status AND 0xBF83) OR bpstatus OR push_bit 14 cmp;
          q = qf_win_wr qo 0 status q
      in qf_start qo 0x1A001 0x10000000 q)"

definition writeESMTBpBit ::
    "'q qf_ops \<Rightarrow> u32 \<Rightarrow> u32 \<Rightarrow> u32 \<Rightarrow> u32 \<Rightarrow> u32 \<Rightarrow> u32 \<Rightarrow> 'q \<Rightarrow> 'q" where
  "writeESMTBpBit qo cmp bp4 bp3 bp2 bp1 bp0 q =
     (let q = qf_start qo 0x0C005 0x10000000 q;
          status = qf_win_rd qo 0 q AND 0xFF;
          bpstatus = push_bit 6 bp4 OR push_bit 5 bp3 OR push_bit 4 bp2 OR push_bit 3 bp1 OR push_bit 2 bp0;
          status = (status AND 0x83) OR bpstatus;
          q = qf_start qo 0x6 0x10000000 q;
          status = (status AND 0x83) OR bpstatus OR push_bit 14 cmp;
          q = qf_win_wr qo 0 status q;
          q = qf_start qo 0x0A001 0x10000000 q;
          q = qf_start qo 0x0C085 0x10000000 q;
          status = qf_win_rd qo 0 q AND 0xFF;
          q = qf_start qo 0x6 0x10000000 q;
          status = (status AND 0xBF) OR push_bit 6 cmp;
          q = qf_win_wr qo 0 status q
      in qf_start qo 0x0A0C1 0x10000000 q)"

definition flashunlock :: "'q qf_ops \<Rightarrow> 'q \<Rightarrow> int \<times> 'q" where
  "flashunlock qo q =
     (let (rid, q) = readRID qo q
      in if rid = 0xC8 \<or> rid = 0x85 then (0, writeGDBpBit qo 0 0 0 0 0 0 q)
         else if rid = 0x1C then (0, writeESMTBpBit qo 0 0 0 0 0 0 q)
         else (- 1, q))"

definition flashlock :: "'q qf_ops \<Rightarrow> 'q \<Rightarrow> int \<times> 'q" where
  "flashlock qo q =
     (let (rid, q) = readRID qo q
      in if rid = 0xC8 \<or> rid = 0x85 then (0, writeGDBpBit qo 0 1 1 0 1 0 q)
         else if rid = 0x1C then (0, writeESMTBpBit qo 0 1 1 0 1 0 q)
         else (- 1, q))"

text \<open>The loop that fills the window. A size that is not a multiple of four makes the unsigned counter
  wrap, and the loop runs over the whole address space.\<close>

fun load_window :: "'q qf_ops \<Rightarrow> nat \<Rightarrow> bytes \<Rightarrow> nat \<Rightarrow> 'q \<Rightarrow> 'q option" where
  "load_window qo i buf sz q =
     (if sz = 0 then Some q
      else if sz < 4 \<or> length buf < 4 then None
      else load_window qo (Suc i) (drop 4 buf) (sz - 4) (qf_win_wr qo i (of_le32 (take 4 buf)) q))"

declare load_window.simps [simp del]

definition programSR :: "'q qf_ops \<Rightarrow> u32 \<Rightarrow> nat \<Rightarrow> bytes \<Rightarrow> nat \<Rightarrow> 'q \<Rightarrow> 'q option" where
  "programSR qo cmd addr buf sz q =
     (let sz = (if sz > INSIDE_FLS_PAGE_SIZE then INSIDE_FLS_PAGE_SIZE else sz)
      in do {
        q \<leftarrow> load_window qo 0 buf sz q;
        let q = writeEnable qo q;
        Some (qf_start qo (cmd OR push_bit 16 (of_nat sz - 1)) (addr_reg addr) q)
      })"

definition programPage :: "'q qf_ops \<Rightarrow> nat \<Rightarrow> nat \<Rightarrow> bytes \<Rightarrow> 'q \<Rightarrow> 'q option" where
  "programPage qo adr sz buf q = programSR qo 0x80009002 adr buf sz q"

definition eraseSR :: "'q qf_ops \<Rightarrow> u32 \<Rightarrow> nat \<Rightarrow> 'q \<Rightarrow> 'q" where
  "eraseSR qo cmd addr q = qf_start qo cmd (addr_reg addr) (writeEnable qo q)"

definition eraseSector :: "'q qf_ops \<Rightarrow> nat \<Rightarrow> 'q \<Rightarrow> 'q" where
  "eraseSector qo adr q = eraseSR qo 0x80000820 adr q"

definition getFlashDensity :: "'q qf_ops \<Rightarrow> 'q \<Rightarrow> nat \<times> 'q" where
  "getFlashDensity qo q =
     (let q = qf_start qo 0x2c09F 0x10000000 q;
          density = unat (drop_bit 16 (qf_win_rd qo 0 q AND 0xFFFFFF) AND 0xFF)
      in (if density = 0x14 \<or> density = 0x13 then 2 ^ density else 0, q))"

text \<open>\<open>n\<close> words of the window are copied to the buffer.\<close>

fun copy_window :: "'q qf_ops \<Rightarrow> 'q \<Rightarrow> nat \<Rightarrow> bytes \<Rightarrow> bytes option" where
  "copy_window qo q 0 buf = Some buf"
| "copy_window qo q (Suc n) buf =
     do { buf \<leftarrow> copy_window qo q n buf; buf_put buf (4 * n) (le32 (qf_win_rd qo n q)) }"

definition readByCMD ::
    "'q qf_ops \<Rightarrow> nat \<Rightarrow> bytes \<Rightarrow> nat \<Rightarrow> nat \<Rightarrow> 'q \<Rightarrow> (bytes \<times> 'q) option" where
  "readByCMD qo addr buf sz md q =
     (let word = sz div 4; byte = sz mod 4;
          cmd = (if md AND 1 \<noteq> 0 then 0xEC00C0EB else 0xBC00C00B) :: u32;
          q = qf_start qo (cmd OR push_bit 16 ((of_nat sz - 1) AND 0x3FF)) (addr_reg addr) q
      in do {
        buf \<leftarrow> copy_window qo q word buf;
        buf \<leftarrow> (if byte > 0
                then do {
                  buf \<leftarrow> buf_put buf (4 * word) (le32 (qf_win_rd qo word q));
                  buf_put buf (4 * word + byte) (replicate (4 - byte) 0)
                }
                else Some buf);
        Some (buf, q)
      })"

text \<open>The reads of whole pages in \<open>flashRead\<close>: \<open>n\<close> pages from \<open>flash_addr\<close> on go to \<open>buf\<close> at
  \<open>pos\<close>.\<close>

fun flashRead_pages ::
    "'q qf_ops \<Rightarrow> nat \<Rightarrow> nat \<Rightarrow> nat \<Rightarrow> bytes \<Rightarrow> bytes \<Rightarrow> 'q \<Rightarrow> (bytes \<times> bytes \<times> 'q) option" where
  "flashRead_pages qo 0 flash_addr pos cache buf q = Some (cache, buf, q)"
| "flashRead_pages qo (Suc n) flash_addr pos cache buf q =
     do {
       (cache, q) \<leftarrow> readByCMD qo flash_addr cache 256 0 q;
       page \<leftarrow> buf_get cache 0 256;
       buf \<leftarrow> buf_put buf pos page;
       flashRead_pages qo n (flash_addr + 256) (pos + 256) cache buf q
     }"

definition flashRead ::
    "'q qf_ops \<Rightarrow> nat \<Rightarrow> bytes \<Rightarrow> nat \<Rightarrow> ('b, 'q, 'z) fls_state_scheme \<Rightarrow>
     (int \<times> bytes \<times> ('b, 'q, 'z) fls_state_scheme) option" where
  "flashRead qo addr buf sz s =
     (let page_offset = addr mod 256;
          (cache, s) = tls_mem_alloc INSIDE_FLS_SECTOR_SIZE s
      in case cache of
           None \<Rightarrow> Some (TLS_FLS_STATUS_ENOMEM, buf, s)
         | Some cache \<Rightarrow>
           (let flash_addr = addr - page_offset; first = 256 - page_offset
            in do {
              (cache, q) \<leftarrow> readByCMD qo flash_addr cache 256 0 (qf s);
              if sz > first
              then do {
                part \<leftarrow> buf_get cache page_offset first;
                buf \<leftarrow> buf_put buf 0 part;
                let sz_1k = (sz - first) div 256;
                let sz_remain = (sz - first) mod 256;
                (cache, buf, q) \<leftarrow> flashRead_pages qo sz_1k (flash_addr + 256) first cache buf q;
                (if sz_remain \<noteq> 0
                 then do {
                   (cache, q) \<leftarrow> readByCMD qo (flash_addr + 256 + sz_1k * 256) cache sz_remain 0 q;
                   part \<leftarrow> buf_get cache 0 sz_remain;
                   buf \<leftarrow> buf_put buf (first + sz_1k * 256) part;
                   Some (0, buf, s\<lparr>qf := q\<rparr>)
                 }
                 else Some (0, buf, s\<lparr>qf := q\<rparr>))
              }
              else do {
                part \<leftarrow> buf_get cache page_offset sz;
                buf \<leftarrow> buf_put buf 0 part;
                Some (0, buf, s\<lparr>qf := q\<rparr>)
              }
            }))"

section \<open>The driver\<close>

definition tls_flash_unlock :: "'q qf_ops \<Rightarrow> ('b, 'q, 'z) fls_state_scheme \<Rightarrow> int \<times> ('b, 'q, 'z) fls_state_scheme" where
  "tls_flash_unlock qo s = (let (r, q) = flashunlock qo (qf s) in (r, s\<lparr>qf := q\<rparr>))"

definition tls_flash_lock :: "'q qf_ops \<Rightarrow> ('b, 'q, 'z) fls_state_scheme \<Rightarrow> int \<times> ('b, 'q, 'z) fls_state_scheme" where
  "tls_flash_lock qo s = (let (r, q) = flashlock qo (qf s) in (r, s\<lparr>qf := q\<rparr>))"

definition tls_fls_sem_lock :: "('b, 'q, 'z) fls_state_scheme \<Rightarrow> ('b, 'q, 'z) fls_state_scheme option" where
  "tls_fls_sem_lock s =
     (case inside_fls s of
        None \<Rightarrow> Some s
      | Some n \<Rightarrow> do { n \<leftarrow> sem_acquire n; Some (s\<lparr>inside_fls := Some n\<rparr>) })"

definition tls_fls_sem_unlock :: "('b, 'q, 'z) fls_state_scheme \<Rightarrow> ('b, 'q, 'z) fls_state_scheme" where
  "tls_fls_sem_unlock s = s\<lparr>inside_fls := map_option sem_release (inside_fls s)\<rparr>"

text \<open>The part of a request that goes to the second megabyte: the address and the length handed to the
  SPI flash driver, from the length \<open>lenfor1M\<close> attributed to the first. \<open>None\<close> when the request does
  not reach it.\<close>

definition part_2M :: "nat \<Rightarrow> nat \<Rightarrow> nat \<Rightarrow> ('b, 'q, 'z) fls_state_scheme \<Rightarrow> (nat \<times> nat) option" where
  "part_2M addr len lenfor1M s =
     (if inner2flashsize s = 0 then None
      else (let addrfor2M = (if addr \<ge> FLASH_1M_END_ADDR then addr
                             else if add32 addr len \<ge> FLASH_1M_END_ADDR then FLASH_1M_END_ADDR else NO_ADDR)
            in if addrfor2M = NO_ADDR then None
               else (let lenfor2M = sub32 len lenfor1M;
                         top = FLASH_BASE_ADDR OR flashtotalsize s
                     in Some (addrfor2M AND 0xFFFFF,
                          if add32 addrfor2M lenfor2M \<le> top then lenfor2M else sub32 top addrfor2M))))"

definition len_1M :: "nat \<Rightarrow> nat \<Rightarrow> nat" where
  "len_1M addr len =
     (if add32 addr len \<le> FLASH_1M_END_ADDR then len else FLASH_1M_END_ADDR - addr)"

definition tls_fls_read ::
    "'q qf_ops \<Rightarrow> 'b spi_ops \<Rightarrow> nat \<Rightarrow> bytes option \<Rightarrow> nat \<Rightarrow> ('b, 'q, 'z) fls_state_scheme \<Rightarrow>
     (int \<times> bytes option \<times> ('b, 'q, 'z) fls_state_scheme) option" where
  "tls_fls_read qo ops addr buf len s =
     (let finish = (\<lambda>err buf lenfor1M s.
            case part_2M addr len lenfor1M s of
              None \<Rightarrow> Some (err, buf, s)
            | Some (a2, l2) \<Rightarrow> do {
                (err, rest, s) \<leftarrow> tls_spifls_read ops a2 (map_option (drop lenfor1M) buf) l2 s;
                Some (err, map_option (\<lambda>b. take lenfor1M b @ the rest) buf, s)
              })
      in if addr < FLASH_1M_END_ADDR
         then (let lenfor1M = len_1M addr len in
           case inside_fls s of
             None \<Rightarrow> Some (TLS_FLS_STATUS_EPERM, buf, s)
           | Some n \<Rightarrow>
             (case buf of
                None \<Rightarrow> Some (TLS_FLS_STATUS_EINVAL, buf, s)
              | Some dst \<Rightarrow>
                if addr AND 0x7FFFFFF \<ge> inner1flashsize s \<or> lenfor1M = 0
                then Some (TLS_FLS_STATUS_EINVAL, buf, s)
                else do {
                  n \<leftarrow> sem_acquire n;
                  (_, dst, s) \<leftarrow> flashRead qo addr dst lenfor1M (s\<lparr>inside_fls := Some n\<rparr>);
                  finish TLS_FLS_STATUS_OK (Some dst) lenfor1M (tls_fls_sem_unlock s)
                }))
         else finish TLS_FLS_STATUS_EINVAL buf 0 s)"

text \<open>Erase a sector and program its sixteen pages from a sector image; \<open>n\<close> pages are left.\<close>

fun program_pages :: "'q qf_ops \<Rightarrow> nat \<Rightarrow> bytes \<Rightarrow> nat \<Rightarrow> nat \<Rightarrow> 'q \<Rightarrow> 'q option" where
  "program_pages qo base cache i 0 q = Some q"
| "program_pages qo base cache i (Suc n) q =
     do {
       q \<leftarrow> programPage qo (base + i * INSIDE_FLS_PAGE_SIZE) INSIDE_FLS_PAGE_SIZE (drop (i * INSIDE_FLS_PAGE_SIZE) cache) q;
       program_pages qo base cache (Suc i) n q
     }"

text \<open>One round of the loop of \<open>tls_fls_write\<close>: the sector is read into the cache, erased, and
  programmed again with the new bytes laid over it. The result of \<open>flashRead\<close> is not looked at.\<close>

definition fls_write_sector ::
    "'q qf_ops \<Rightarrow> nat \<Rightarrow> nat \<Rightarrow> nat \<Rightarrow> bytes \<Rightarrow> bytes \<Rightarrow> ('b, 'q, 'z) fls_state_scheme \<Rightarrow>
     (bytes \<times> ('b, 'q, 'z) fls_state_scheme) option" where
  "fls_write_sector qo secpos secoff secremain cache buf s =
     do {
       (_, cache, s) \<leftarrow> flashRead qo (secpos * INSIDE_FLS_SECTOR_SIZE) cache INSIDE_FLS_SECTOR_SIZE s;
       let q = eraseSector qo (secpos * INSIDE_FLS_SECTOR_SIZE) (qf s);
       src \<leftarrow> buf_get buf 0 secremain;
       cache \<leftarrow> buf_put cache secoff src;
       q \<leftarrow> program_pages qo (secpos * INSIDE_FLS_SECTOR_SIZE) cache 0 16 q;
       Some (cache, s\<lparr>qf := q\<rparr>)
     }"

text \<open>The \<open>while (1)\<close> loop; it ends with the values of \<open>buf\<close> and \<open>lenfor1M\<close> that the code after it
  sees.\<close>

partial_function (option) fls_write_loop ::
    "'q qf_ops \<Rightarrow> nat \<Rightarrow> nat \<Rightarrow> nat \<Rightarrow> bytes \<Rightarrow> bytes \<Rightarrow> nat \<Rightarrow> ('b, 'q, 'z) fls_state_scheme \<Rightarrow>
     (bytes \<times> nat \<times> ('b, 'q, 'z) fls_state_scheme) option" where
  "fls_write_loop qo secpos secoff secremain cache buf lenfor1M s =
     do {
       (cache, s) \<leftarrow> fls_write_sector qo secpos secoff secremain cache buf s;
       if lenfor1M = secremain then Some (buf, lenfor1M, s)
       else (let lenfor1M = lenfor1M - secremain
             in fls_write_loop qo (Suc secpos) 0
                  (if lenfor1M > INSIDE_FLS_SECTOR_SIZE then INSIDE_FLS_SECTOR_SIZE else lenfor1M)
                  cache (drop secremain buf) lenfor1M s)
     }"

definition tls_fls_write ::
    "'q qf_ops \<Rightarrow> 'b spi_ops \<Rightarrow> nat \<Rightarrow> bytes option \<Rightarrow> nat \<Rightarrow> ('b, 'q, 'z) fls_state_scheme \<Rightarrow>
     (int \<times> ('b, 'q, 'z) fls_state_scheme) option" where
  "tls_fls_write qo ops addr buf len s =
     (let finish = (\<lambda>buf lenfor1M s.
            case part_2M addr len lenfor1M s of
              None \<Rightarrow> Some (TLS_FLS_STATUS_OK, s)
            | Some (a2, l2) \<Rightarrow> tls_spifls_write ops a2 (map_option (drop lenfor1M) buf) l2 s)
      in if addr < FLASH_1M_END_ADDR
         then (let lenfor1M = len_1M addr len in
           case inside_fls s of
             None \<Rightarrow> Some (TLS_FLS_STATUS_EPERM, s)
           | Some n \<Rightarrow>
             (case buf of
                None \<Rightarrow> Some (TLS_FLS_STATUS_EINVAL, s)
              | Some src \<Rightarrow>
                if addr AND 0x7FFFFFF \<ge> inner1flashsize s \<or> lenfor1M = 0
                then Some (TLS_FLS_STATUS_EINVAL, s)
                else do {
                  n \<leftarrow> sem_acquire n;
                  let (cache, s) = tls_mem_alloc INSIDE_FLS_SECTOR_SIZE (s\<lparr>inside_fls := Some n\<rparr>);
                  (case cache of
                     None \<Rightarrow> Some (TLS_FLS_STATUS_ENOMEM, tls_fls_sem_unlock s)
                   | Some cache \<Rightarrow> do {
                       let offaddr = addr AND 0x7FFFFFF;
                       let secpos = offaddr div INSIDE_FLS_SECTOR_SIZE;
                       let secoff = offaddr mod INSIDE_FLS_SECTOR_SIZE;
                       let secremain = INSIDE_FLS_SECTOR_SIZE - secoff;
                       let secremain = (if lenfor1M \<le> secremain then lenfor1M else secremain);
                       (src, lenfor1M, s) \<leftarrow> fls_write_loop qo secpos secoff secremain cache src lenfor1M s;
                       finish (Some src) lenfor1M (tls_fls_sem_unlock s)
                     })
                }))
         else finish buf 0 s)"

definition tls_fls_erase ::
    "'q qf_ops \<Rightarrow> 'b spi_ops \<Rightarrow> nat \<Rightarrow> ('b, 'q, 'z) fls_state_scheme \<Rightarrow>
     (int \<times> ('b, 'q, 'z) fls_state_scheme) option" where
  "tls_fls_erase qo ops sector s =
     (if sector < inner1flashsize s div INSIDE_FLS_SECTOR_SIZE + INSIDE_FLS_BASE_ADDR div INSIDE_FLS_SECTOR_SIZE
      then (case inside_fls s of
              None \<Rightarrow> Some (TLS_FLS_STATUS_EPERM, s)
            | Some n \<Rightarrow> do {
                n \<leftarrow> sem_acquire n;
                let s = s\<lparr>inside_fls := Some n\<rparr>;
                let s = s\<lparr>qf := eraseSector qo (sector * INSIDE_FLS_SECTOR_SIZE) (qf s)\<rparr>;
                Some (TLS_FLS_STATUS_OK, tls_fls_sem_unlock s)
              })
      else if sector < flashtotalsize s div INSIDE_FLS_SECTOR_SIZE + INSIDE_FLS_BASE_ADDR div INSIDE_FLS_SECTOR_SIZE
      then tls_spifls_erase ops (sector AND 0xFF) s
      else Some (TLS_FLS_STATUS_OK, s))"

section \<open>The write cache\<close>

text \<open>\<open>gsflscache\<close> is the contents of the cache, \<open>None\<close> while it is not allocated; a call that uses
  it then dereferences NULL.\<close>

definition tls_fls_flush_sector ::
    "'q qf_ops \<Rightarrow> 'b spi_ops \<Rightarrow> ('b, 'q, 'z) fls_state_scheme \<Rightarrow> ('b, 'q, 'z) fls_state_scheme option" where
  "tls_fls_flush_sector qo ops s =
     (if gsSector s < inner1flashsize s div INSIDE_FLS_SECTOR_SIZE + INSIDE_FLS_BASE_ADDR div INSIDE_FLS_SECTOR_SIZE
      then do {
        let q = eraseSector qo (gsSector s * INSIDE_FLS_SECTOR_SIZE) (qf s);
        cache \<leftarrow> gsflscache s;
        q \<leftarrow> program_pages qo (gsSector s * INSIDE_FLS_SECTOR_SIZE) cache 0 16 q;
        Some (s\<lparr>qf := q\<rparr>)
      }
      else if gsSector s < flashtotalsize s div INSIDE_FLS_SECTOR_SIZE + INSIDE_FLS_BASE_ADDR div INSIDE_FLS_SECTOR_SIZE
      then do {
        (_, s) \<leftarrow> tls_spifls_write ops ((gsSector s * INSIDE_FLS_SECTOR_SIZE) AND 0xFFFFF) (gsflscache s)
                   INSIDE_FLS_SECTOR_SIZE s;
        Some s
      }
      else Some s)"

definition tls_fls_fast_write_init :: "('b, 'q, 'z) fls_state_scheme \<Rightarrow> int \<times> ('b, 'q, 'z) fls_state_scheme" where
  "tls_fls_fast_write_init s =
     (if inside_fls s = None then (TLS_FLS_STATUS_EPERM, s)
      else if gsflscache s \<noteq> None then (- 1, s)
      else (let (cache, s) = tls_mem_alloc INSIDE_FLS_SECTOR_SIZE s
            in (if cache = None then - 1 else TLS_FLS_STATUS_OK, s\<lparr>gsflscache := cache\<rparr>)))"

definition tls_fls_fast_write_destroy ::
    "'q qf_ops \<Rightarrow> 'b spi_ops \<Rightarrow> ('b, 'q, 'z) fls_state_scheme \<Rightarrow> ('b, 'q, 'z) fls_state_scheme option" where
  "tls_fls_fast_write_destroy qo ops s =
     (if gsflscache s = None then Some s
      else (case inside_fls s of
              None \<Rightarrow> Some s
            | Some n \<Rightarrow> do {
                n \<leftarrow> sem_acquire n;
                s \<leftarrow> tls_fls_flush_sector qo ops (s\<lparr>inside_fls := Some n\<rparr>);
                Some ((tls_fls_sem_unlock s)\<lparr>gsflscache := None\<rparr>)
              }))"

partial_function (option) fast_write_loop ::
    "'q qf_ops \<Rightarrow> 'b spi_ops \<Rightarrow> nat \<Rightarrow> nat \<Rightarrow> bytes \<Rightarrow> nat \<Rightarrow> ('b, 'q, 'z) fls_state_scheme \<Rightarrow>
     ('b, 'q, 'z) fls_state_scheme option" where
  "fast_write_loop qo ops offset maxlen buf len0 s =
     (if len0 = 0 then Some s
      else do {
        let len = (if len0 > maxlen then maxlen else len0);
        cache \<leftarrow> gsflscache s;
        src \<leftarrow> buf_get buf 0 len;
        cache \<leftarrow> buf_put cache offset src;
        let s = s\<lparr>gsflscache := Some cache\<rparr>;
        s \<leftarrow> (if offset + len \<ge> INSIDE_FLS_SECTOR_SIZE
              then do {
                s \<leftarrow> tls_fls_flush_sector qo ops s;
                Some (s\<lparr>gsSector := gsSector s + 1\<rparr>)
              }
              else Some s);
        fast_write_loop qo ops 0 INSIDE_FLS_SECTOR_SIZE (drop len buf) (len0 - len) s
      })"

definition tls_fls_fast_write ::
    "'q qf_ops \<Rightarrow> 'b spi_ops \<Rightarrow> nat \<Rightarrow> bytes option \<Rightarrow> nat \<Rightarrow> ('b, 'q, 'z) fls_state_scheme \<Rightarrow>
     (int \<times> ('b, 'q, 'z) fls_state_scheme) option" where
  "tls_fls_fast_write qo ops addr buf len0 s =
     (case inside_fls s of
        None \<Rightarrow> Some (TLS_FLS_STATUS_EPERM, s)
      | Some n \<Rightarrow>
        (case buf of
           None \<Rightarrow> Some (TLS_FLS_STATUS_EINVAL, s)
         | Some src \<Rightarrow>
           if addr AND 0x7FFFFFF \<ge> flashtotalsize s \<or> len0 = 0 then Some (TLS_FLS_STATUS_EINVAL, s)
           else do {
             n \<leftarrow> sem_acquire n;
             let s = s\<lparr>inside_fls := Some n\<rparr>;
             let sector = addr div INSIDE_FLS_SECTOR_SIZE;
             let offset = addr mod INSIDE_FLS_SECTOR_SIZE;
             s \<leftarrow> (if sector \<noteq> gsSector s \<and> gsSector s \<noteq> 0 then tls_fls_flush_sector qo ops s else Some s);
             let s = s\<lparr>gsSector := sector\<rparr>;
             s \<leftarrow> fast_write_loop qo ops offset (INSIDE_FLS_SECTOR_SIZE - offset) src len0 s;
             Some (TLS_FLS_STATUS_OK, tls_fls_sem_unlock s)
           }))"

section \<open>Chip erase, parameters, installation\<close>

fun chip_erase_loop ::
    "'q qf_ops \<Rightarrow> nat \<Rightarrow> nat \<Rightarrow> bytes \<Rightarrow> ('b, 'q, 'z) fls_state_scheme \<Rightarrow>
     ('b, 'q, 'z) fls_state_scheme option" where
  "chip_erase_loop qo i 0 cache s = Some s"
| "chip_erase_loop qo i (Suc n) cache s =
     do {
       let a = INSIDE_FLS_SECBOOT_ADDR + i * INSIDE_FLS_SECTOR_SIZE;
       (_, cache, s) \<leftarrow> flashRead qo a cache INSIDE_FLS_SECTOR_SIZE s;
       let s = (if list_ex (\<lambda>b. b \<noteq> 0xFF) (take INSIDE_FLS_SECTOR_SIZE cache)
                then s\<lparr>qf := eraseSector qo a (qf s)\<rparr> else s);
       chip_erase_loop qo (Suc i) n cache s
     }"

definition tls_fls_chip_erase ::
    "'q qf_ops \<Rightarrow> 'b spi_ops \<Rightarrow> ('b, 'q, 'z) fls_state_scheme \<Rightarrow>
     (int \<times> ('b, 'q, 'z) fls_state_scheme) option" where
  "tls_fls_chip_erase qo ops s =
     (case inside_fls s of
        None \<Rightarrow> Some (TLS_FLS_STATUS_EPERM, s)
      | Some n \<Rightarrow> do {
          n \<leftarrow> sem_acquire n;
          let (cache, s) = tls_mem_alloc INSIDE_FLS_SECTOR_SIZE (s\<lparr>inside_fls := Some n\<rparr>);
          (case cache of
             None \<Rightarrow> Some (TLS_FLS_STATUS_ENOMEM, tls_fls_sem_unlock s)
           | Some cache \<Rightarrow> do {
               s \<leftarrow> chip_erase_loop qo 0
                     (sub32 (inner1flashsize s) (INSIDE_FLS_SECBOOT_ADDR AND 0xFFFFF) div INSIDE_FLS_SECTOR_SIZE) cache s;
               s \<leftarrow> (if inner2flashsize s \<noteq> 0
                     then do { (_, s) \<leftarrow> tls_spifls_chip_erase ops s; Some s } else Some s);
               Some (TLS_FLS_STATUS_OK, tls_fls_sem_unlock s)
             })
        })"

definition tls_fls_get_param ::
    "nat \<Rightarrow> nat option \<Rightarrow> ('b, 'q, 'z) fls_state_scheme \<Rightarrow> (int \<times> nat option) option" where
  "tls_fls_get_param type param s =
     (case inside_fls s of
        None \<Rightarrow> Some (TLS_FLS_STATUS_EPERM, param)
      | Some n \<Rightarrow>
        if param = None then Some (TLS_FLS_STATUS_EINVAL, param)
        else do {
          _ \<leftarrow> sem_acquire n;
          Some (if type = TLS_FLS_PARAM_TYPE_ID then (TLS_FLS_STATUS_OK, Some 0x2013)
            else if type = TLS_FLS_PARAM_TYPE_SIZE then (TLS_FLS_STATUS_OK, Some (flashtotalsize s))
            else if type = TLS_FLS_PARAM_TYPE_PAGE_SIZE then (TLS_FLS_STATUS_OK, Some INSIDE_FLS_PAGE_SIZE)
            else if type = TLS_FLS_PARAM_TYPE_PROG_SIZE then (TLS_FLS_STATUS_OK, Some INSIDE_FLS_PAGE_SIZE)
            else if type = TLS_FLS_PARAM_TYPE_SECTOR_SIZE then (TLS_FLS_STATUS_OK, Some INSIDE_FLS_SECTOR_SIZE)
            else (TLS_FLS_STATUS_EINVAL, param))
        })"

definition tls_fls_init ::
    "'q qf_ops \<Rightarrow> 'b spi_ops \<Rightarrow> ('b, 'q, 'z) fls_state_scheme \<Rightarrow>
     (int \<times> ('b, 'q, 'z) fls_state_scheme) option" where
  "tls_fls_init qo ops s =
     (if inside_fls s \<noteq> None then Some (TLS_FLS_STATUS_EBUSY, s)
      else (let (fls, s) = tls_mem_alloc 4 s in
        case fls of
          None \<Rightarrow> Some (TLS_FLS_STATUS_ENOMEM, s)
        | Some _ \<Rightarrow>
          (let (ok, s) = tls_os_sem_create s in
           if \<not> ok then Some (TLS_FLS_STATUS_ENOMEM, s)
           else do {
             let (size1, q) = getFlashDensity qo (qf s);
             let s = s\<lparr>inside_fls := Some 1, qf := q, inner1flashsize := size1\<rparr>;
             (err, ident, s) \<leftarrow> tls_spifls_read_id ops s;
             s \<leftarrow> (if err = TLS_FLS_STATUS_OK
                   then (let e = unat (drop_bit 16 ident AND 0xFF)
                         in if e < 31 then Some (s\<lparr>inner2flashsize := (if e = 0 then 0 else 2 ^ e)\<rparr>) else None)
                   else Some s);
             Some (TLS_FLS_STATUS_OK, s\<lparr>flashtotalsize := inner1flashsize s + inner2flashsize s\<rparr>)
           })))"

definition tls_fls_exit :: int where
  "tls_fls_exit = TLS_FLS_STATUS_EPERM"

section \<open>What the flash controller promises\<close>

text \<open>The \<open>i\<close>-th byte of the data window.\<close>

definition win_byte :: "'q qf_ops \<Rightarrow> 'q \<Rightarrow> nat \<Rightarrow> u8" where
  "win_byte qo q i = le32 (qf_win_rd qo (i div 4) q) ! (i mod 4)"

locale inner_nor =
  fixes qo :: "'q qf_ops"
    and qmem :: "'q \<Rightarrow> memory"
    and qwel :: "'q \<Rightarrow> bool"
    and isize :: nat
  assumes isize: "4096 dvd isize" "0x2000 < isize" "isize \<le> 0x100000"
    and win_wr_mem: "qmem (qf_win_wr qo i v q) = qmem q"
    and win_wr_rd: "qf_win_rd qo j (qf_win_wr qo i v q) = (if i = j then v else qf_win_rd qo j q)"
    and wren_mem: "qmem (qf_start qo 0x6 0x10000000 q) = qmem q"
    and wren_wel: "qwel (qf_start qo 0x6 0x10000000 q)"
    and wren_win: "qf_win_rd qo j (qf_start qo 0x6 0x10000000 q) = qf_win_rd qo j q"
    and program_page: "\<lbrakk>qwel q; 256 dvd a; a < isize\<rbrakk> \<Longrightarrow>
      qmem (qf_start qo (0x80009002 OR push_bit 16 255) (addr_reg a) q) =
        nor_program (qmem q) a (map (win_byte qo q) [0..<256])"
    and erase_sector: "\<lbrakk>qwel q; 4096 dvd a; a < isize\<rbrakk> \<Longrightarrow>
      qmem (qf_start qo 0x80000820 (addr_reg a) q) = nor_erase (qmem q) a 4096"
    and read_mem: "\<lbrakk>0 < n; n \<le> 256\<rbrakk> \<Longrightarrow>
      qmem (qf_start qo (0xBC00C00B OR push_bit 16 (of_nat (n - 1))) (addr_reg a) q) = qmem q"
    and read_win: "\<lbrakk>0 < n; n \<le> 256; a + n \<le> isize; i < n\<rbrakk> \<Longrightarrow>
      win_byte qo (qf_start qo (0xBC00C00B OR push_bit 16 (of_nat (n - 1))) (addr_reg a) q) i = qmem q (a + i)"

section \<open>Commands\<close>

lemma addr_reg_mod: "addr_reg (a mod 0x100000) = addr_reg a"
  by (simp add: addr_reg_def)

lemma read_size_field:
  assumes "0 < n" "n \<le> 256"
  shows "(of_nat n - 1 :: u32) AND 0x3FF = of_nat (n - 1)"
proof -
  have "(of_nat n - 1 :: u32) = of_nat (n - 1)" using assms(1) by (simp add: of_nat_diff)
  moreover have "(of_nat (n - 1) :: u32) AND mask 10 = of_nat (n - 1)"
    using assms by (simp add: take_bit_eq_mask [symmetric] take_bit_of_nat take_bit_nat_eq_self
        del: of_nat_diff)
  ultimately show ?thesis by (simp add: mask_eq_exp_minus_1)
qed

lemma copy_window_ok:
  "4 * n \<le> length buf \<Longrightarrow>
   copy_window qo q n buf = Some (patch buf 0 (map (win_byte qo q) [0..<4 * n]))"
proof (induction n)
  case (Suc n)
  have word: "le32 (qf_win_rd qo n q) = map (win_byte qo q) [4 * n..<4 * n + 4]"
  proof -
    have up4: "[4 * n..<4 * n + 4] = [4 * n, 4 * n + 1, 4 * n + 2, 4 * n + 3]"
      by (simp add: upt_conv_Cons)
    have "(4 * n + 2) mod 4 = 2" "(4 * n + 3) mod 4 = 3" "(4 * n + 1) mod 4 = 1"
      "(4 * n + 2) div 4 = n" "(4 * n + 3) div 4 = n" "(4 * n + 1) div 4 = n"
      by presburger+
    then show ?thesis unfolding up4 win_byte_def by (simp add: le32_def)
  qed
  have up: "[0..<4 * n + 4] = [0..<4 * n] @ [4 * n..<4 * n + 4]"
    using upt_add_eq_append [of 0 "4 * n" 4] by (simp add: add.commute)
  show ?case
    using Suc by (simp add: word up patch_def add.commute [of 4] del: upt_Suc)
qed (simp add: patch_def)

lemma base_mod: "(a :: nat) < 0x100000 \<Longrightarrow> (0x8000000 + a) mod 0x100000 = a"
  by (simp add: mod_add_eq [symmetric])

lemma part_2M_upd [simp]:
  "part_2M addr len l (s\<lparr>inside_fls := x\<rparr>) = part_2M addr len l s"
  "part_2M addr len l (s\<lparr>qf := q\<rparr>) = part_2M addr len l s"
  by (simp_all add: part_2M_def)

lemma lock_restored:
  "inside_fls s = x \<Longrightarrow> s\<lparr>qf := q, inside_fls := x\<rparr> = s\<lparr>qf := q\<rparr>"
  by (simp add: fls_state.equality)

context inner_nor
begin

lemma load_window_ok:
  "4 * k \<le> length buf \<Longrightarrow> \<exists>q'. load_window qo i buf (4 * k) q = Some q' \<and> qmem q' = qmem q \<and>
     (\<forall>j. qf_win_rd qo j q' =
        (if i \<le> j \<and> j < i + k then of_le32 (take 4 (drop (4 * (j - i)) buf)) else qf_win_rd qo j q))"
proof (induction k arbitrary: i buf q)
  case 0
  then show ?case by (auto simp: load_window.simps)
next
  case (Suc k)
  let ?q1 = "qf_win_wr qo i (of_le32 (take 4 buf)) q"
  have len: "4 * k \<le> length (drop 4 buf)" using Suc.prems by simp
  obtain q' where q': "load_window qo (Suc i) (drop 4 buf) (4 * k) ?q1 = Some q'" "qmem q' = qmem ?q1"
      "\<And>j. qf_win_rd qo j q' =
        (if Suc i \<le> j \<and> j < Suc i + k then of_le32 (take 4 (drop (4 * (j - Suc i)) (drop 4 buf))) else qf_win_rd qo j ?q1)"
    using Suc.IH [of "drop 4 buf" "Suc i" ?q1] len by blast
  have "4 * Suc k - 4 = 4 * k" "\<not> 4 * Suc k < 4" "4 * Suc k \<noteq> 0" "\<not> length buf < 4"
    using Suc.prems by auto
  then have "load_window qo i buf (4 * Suc k) q = Some q'"
    using q'(1) by (subst load_window.simps) simp
  moreover have "4 * (j - Suc i) + 4 = 4 * (j - i)" if "Suc i \<le> j" for j using that by simp
  ultimately show ?case
    using q'(2,3) by (auto simp: win_wr_mem win_wr_rd not_le less_Suc_eq_le le_Suc_eq add.commute)
qed

lemma page_program_ok:
  assumes "256 dvd adr" "adr < isize" "256 \<le> length buf"
  shows "\<exists>q'. programPage qo adr 256 buf q = Some q' \<and> qmem q' = nor_program (qmem q) adr (take 256 buf)"
proof -
  obtain q1 where q1: "load_window qo 0 buf 256 q = Some q1" "qmem q1 = qmem q"
      "\<And>j. j < 64 \<Longrightarrow> qf_win_rd qo j q1 = of_le32 (take 4 (drop (4 * j) buf))"
    using load_window_ok [of 64 buf 0 q] assms(3) by auto
  let ?q2 = "writeEnable qo q1"
  have win: "map (win_byte qo ?q2) [0..<256] = take 256 buf"
  proof (rule nth_equalityI)
    fix i
    assume "i < length (map (win_byte qo ?q2) [0..<256])"
    then have i: "i < 256" by simp
    then have word: "i div 4 < 64" by simp
    then have "4 * (i div 4) + 4 \<le> length buf" using assms(3) by linarith
    then have "win_byte qo ?q2 i = take 4 (drop (4 * (i div 4)) buf) ! (i mod 4)"
      using word by (simp add: win_byte_def writeEnable_def wren_win q1(3) le32_of_le32)
    also have "\<dots> = buf ! (4 * (i div 4) + i mod 4)" using i assms(3) word by (subst nth_take) simp_all
    also have "4 * (i div 4) + i mod 4 = i" by simp
    finally show "map (win_byte qo ?q2) [0..<256] ! i = take 256 buf ! i" using i by simp
  qed (use assms in simp)
  have "programPage qo adr 256 buf q =
      Some (qf_start qo (0x80009002 OR push_bit 16 255) (addr_reg adr) ?q2)"
    by (simp add: programPage_def programSR_def q1)
  moreover have "qmem (qf_start qo (0x80009002 OR push_bit 16 255) (addr_reg adr) ?q2) =
      nor_program (qmem q) adr (take 256 buf)"
  proof -
    have "qwel ?q2" "qmem ?q2 = qmem q" by (simp_all add: writeEnable_def wren_wel wren_mem q1)
    then show ?thesis using program_page [of ?q2 adr] assms(1,2) unfolding win by simp
  qed
  ultimately show ?thesis by blast
qed

lemma eraseSector_mem:
  "\<lbrakk>4096 dvd adr; adr < isize\<rbrakk> \<Longrightarrow> qmem (eraseSector qo adr q) = nor_erase (qmem q) adr 4096"
  by (simp add: eraseSector_def eraseSR_def writeEnable_def erase_sector wren_wel wren_mem)

lemma eraseSector_mod: "eraseSector qo (adr mod 0x100000) q = eraseSector qo adr q"
  by (simp add: eraseSector_def eraseSR_def addr_reg_mod)

lemma programPage_mod: "programPage qo (adr mod 0x100000) sz buf q = programPage qo adr sz buf q"
  by (simp add: programPage_def programSR_def addr_reg_mod)

text \<open>A read of \<open>n\<close> bytes fills the first \<open>n\<close> bytes of the buffer; up to three more are zeroed.\<close>

lemma readByCMD_ok:
  assumes "a = addr mod 0x100000" "0 < n" "n \<le> 256" "a + n \<le> isize" "256 \<le> length buf"
  shows "\<exists>buf' q'. readByCMD qo addr buf n 0 q = Some (buf', q') \<and> qmem q' = qmem q \<and>
    length buf' = length buf \<and> take n buf' = mem_get (qmem q) a n"
proof -
  define q1 where "q1 = qf_start qo (0xBC00C00B OR push_bit 16 (of_nat (n - 1))) (addr_reg addr) q"
  have mem: "qmem q1 = qmem q" unfolding q1_def by (rule read_mem [OF assms(2,3)])
  have win: "win_byte qo q1 i = qmem q (a + i)" if "i < n" for i
    using read_win [OF assms(2-4) that] unfolding assms(1) addr_reg_mod q1_def .
  define w where "w = n div 4"
  define y where "y = n mod 4"
  have words: "4 * w + y = n" and byte: "y < 4" by (simp_all add: w_def y_def)
  have le: "4 * w \<le> 256" using assms(3) words by linarith
  let ?b1 = "patch buf 0 (map (win_byte qo q1) [0..<4 * w])"
  have cw: "copy_window qo q1 w buf = Some ?b1"
    using le assms(5) by (intro copy_window_ok) linarith
  have l1: "length ?b1 = length buf" using le assms(5) by (intro length_patch) simp
  have b1: "take (4 * w) ?b1 = mem_get (qmem q) a (4 * w)"
    using words by (intro nth_equalityI) (auto simp: patch_def nth_append win nth_mem_get)
  show ?thesis
  proof (cases "y = 0")
    case True
    then have "readByCMD qo addr buf n 0 q = Some (?b1, q1)"
      using cw by (simp add: readByCMD_def read_size_field [OF assms(2,3)] q1_def [symmetric] w_def [symmetric] y_def [symmetric] del: of_nat_diff One_nat_def)
    then show ?thesis using mem l1 b1 words True by auto
  next
    case False
    have room: "4 * w + 4 \<le> 256" using assms(3) words False by presburger
    let ?b2 = "patch ?b1 (4 * w) (le32 (qf_win_rd qo w q1))"
    let ?b3 = "patch ?b2 (4 * w + y) (replicate (4 - y) 0)"
    have l2: "length ?b2 = length buf" "length ?b3 = length buf"
      using l1 room assms(5) byte by simp_all
    have "readByCMD qo addr buf n 0 q = Some (?b3, q1)"
      using cw False l1 l2 room assms(5) byte
      by (simp add: readByCMD_def read_size_field [OF assms(2,3)] q1_def [symmetric] w_def [symmetric] y_def [symmetric] del: of_nat_diff One_nat_def)
    moreover have "take n ?b3 = mem_get (qmem q) a n"
    proof (rule nth_equalityI)
      fix i
      assume "i < length (take n ?b3)"
      then have i: "i < n" by simp
      then have len: "i < length buf" using assms(3,5) by linarith
      have "?b3 ! i = ?b2 ! i"
        using i words len l2 room assms(5) byte by (subst nth_patch) simp_all
      also have "\<dots> = win_byte qo q1 i"
      proof (cases "i < 4 * w")
        case True
        then show ?thesis using len l1 room assms(5) by (subst nth_patch) (simp_all add: patch_def nth_append)
      next
        case False
        have "i div 4 = w" using False i words byte by simp
        moreover from this have "i - 4 * w = i mod 4" by (metis minus_mult_div_eq_mod)
        ultimately show ?thesis
          using False i words byte len l1 room assms(5) by (subst nth_patch) (simp_all add: win_byte_def)
      qed
      finally show "take n ?b3 ! i = mem_get (qmem q) a n ! i" using i by (simp add: win nth_mem_get)
    qed (use l2 assms in simp)
    ultimately show ?thesis using mem l2 by auto
  qed
qed

lemma flashRead_pages_ok:
  assumes "0 < n \<Longrightarrow> fa mod 0x100000 = a" "a + n * 256 \<le> isize" "pos + n * 256 \<le> length buf" "256 \<le> length cache"
  shows "\<exists>cache' q'. flashRead_pages qo n fa pos cache buf q =
      Some (cache', patch buf pos (mem_get (qmem q) a (n * 256)), q') \<and>
    qmem q' = qmem q \<and> length cache' = length cache"
  using assms
proof (induction n arbitrary: fa a pos cache buf q)
  case (Suc n)
  have fa: "fa mod 0x100000 = a" and bound: "a + 256 \<le> isize" using Suc.prems(1,2) by simp_all
  obtain c1 q1 where c1: "readByCMD qo fa cache 256 0 q = Some (c1, q1)" "qmem q1 = qmem q"
      "length c1 = length cache" "take 256 c1 = mem_get (qmem q) a 256"
    using readByCMD_ok [OF fa [symmetric] _ _ bound Suc.prems(4), of q] by auto
  let ?buf = "patch buf pos (mem_get (qmem q) a 256)"
  have len: "length ?buf = length buf" using Suc.prems(3) by simp
  have "fa mod 0x100000 + 256 < 0x100000" if "0 < n"
    using that Suc.prems(2) isize(3) fa by simp
  then have fa': "(fa + 256) mod 0x100000 = a + 256" if "0 < n"
    using that fa by (metis mod_add_left_eq mod_less)
  obtain c2 q2 where c2: "flashRead_pages qo n (fa + 256) (pos + 256) c1 ?buf q1 =
        Some (c2, patch ?buf (pos + 256) (mem_get (qmem q1) (a + 256) (n * 256)), q2)"
      "qmem q2 = qmem q1" "length c2 = length c1"
    using Suc.IH [of "fa + 256" "a + 256" "pos + 256" ?buf c1 q1] fa' Suc.prems(2-4) len c1(3) by auto
  have "patch ?buf (pos + 256) (mem_get (qmem q) (a + 256) (n * 256)) =
      patch buf pos (mem_get (qmem q) a 256 @ mem_get (qmem q) (a + 256) (n * 256))"
    using patch_append [of pos "mem_get (qmem q) a 256" "mem_get (qmem q) (a + 256) (n * 256)" buf] Suc.prems(3)
    by simp
  also have "mem_get (qmem q) a 256 @ mem_get (qmem q) (a + 256) (n * 256) = mem_get (qmem q) a (Suc n * 256)"
    using mem_get_add [of "qmem q" a 256 "n * 256"] by simp
  finally show ?case
    using c1 c2 Suc.prems(3,4) by (simp add: slice_def)
qed simp

text \<open>The whole pages and the rest of a request, from a page boundary on.\<close>

lemma flashRead_rest_ok:
  assumes "0 < k \<Longrightarrow> fa mod 0x100000 = a" "a + k \<le> isize" "pos + k \<le> length buf" "256 \<le> length cache"
  obtains c1 q1 c2 q2 where
    "flashRead_pages qo (k div 256) fa pos cache buf q =
      Some (c1, patch buf pos (mem_get (qmem q) a (k div 256 * 256)), q1)" "qmem q1 = qmem q"
    "k mod 256 \<noteq> 0 \<Longrightarrow> readByCMD qo (fa + k div 256 * 256) c1 (k mod 256) 0 q1 = Some (c2, q2) \<and>
      256 \<le> length c2 \<and> qmem q2 = qmem q \<and>
      take (k mod 256) c2 = mem_get (qmem q) (a + k div 256 * 256) (k mod 256)"
proof -
  have k: "k div 256 * 256 + k mod 256 = k" by simp
  have r: "k mod 256 \<le> 256" by (simp add: less_imp_le)
  have fa: "fa mod 0x100000 = a" if "0 < k div 256" using assms(1) that by simp
  obtain c1 q1 where c1: "flashRead_pages qo (k div 256) fa pos cache buf q =
      Some (c1, patch buf pos (mem_get (qmem q) a (k div 256 * 256)), q1)" "qmem q1 = qmem q"
      "length c1 = length cache"
    using flashRead_pages_ok [of "k div 256" fa a pos buf cache q] fa k assms(2-4) by fastforce
  show ?thesis
  proof (cases "k mod 256 = 0")
    case True
    then show ?thesis by (intro that [OF c1(1,2), of c1 q1]) simp
  next
    case False
    then have bound: "a + k div 256 * 256 < 0x100000" using k assms(2) isize(3) by linarith
    have "fa mod 0x100000 + k div 256 * 256 = a + k div 256 * 256" using assms(1) False by fastforce
    then have addr: "a + k div 256 * 256 = (fa + k div 256 * 256) mod 0x100000"
      using bound by (metis mod_add_left_eq mod_less)
    have room: "a + k div 256 * 256 + k mod 256 \<le> isize" using k assms(2) by linarith
    show ?thesis
      using that c1 readByCMD_ok [OF addr _ r room, of c1 q1] False assms(4) by fastforce
  qed
qed

lemma flashRead_ok:
  assumes "heap s = []" "a = addr mod 0x100000" "0 < sz" "a + sz \<le> isize" "sz \<le> length buf"
  shows "\<exists>q'. flashRead qo addr buf sz s =
      Some (0, patch buf 0 (mem_get (qmem (qf s)) a sz), s\<lparr>qf := q'\<rparr>) \<and> qmem q' = qmem (qf s)"
proof -
  define po where "po = addr mod 256"
  define fa where "fa = addr - po"
  define first where "first = 256 - po"
  define k where "k = sz - first"
  let ?m = "qmem (qf s)"
  have po: "po < 256" "po = a mod 256" "fa + po = addr"
    by (simp_all add: po_def fa_def assms(2) mod_mod_cancel)
  then have po_le: "po \<le> a" by simp
  have fa_eq: "fa = addr div 0x100000 * 0x100000 + (a - po)"
  proof -
    have "addr div 0x100000 * 0x100000 + a = addr" unfolding assms(2) by (rule div_mult_mod_eq)
    then show ?thesis using po(3) po_le by linarith
  qed
  have fa: "(fa + j) mod 0x100000 = a - po + j" if "a - po + j < 0x100000" for j
    unfolding fa_eq using that by (simp add: add.assoc)
  have page: "a - po + 256 \<le> isize"
  proof -
    have "a div 256 * 256 = a - po" using po(2) by (simp add: minus_mod_eq_div_mult)
    moreover have "256 dvd isize" using isize(1) by (rule dvd_trans [rotated]) simp
    ultimately show ?thesis using aligned_room [of 256 isize "a div 256"] assms(3,4) by simp
  qed
  have fa0: "a - po = fa mod 0x100000" using fa [of 0] page isize(3) by simp
  obtain c1 q1 where c1: "readByCMD qo fa (fresh 4096 s) 256 0 (qf s) = Some (c1, q1)" "qmem q1 = ?m"
      "length c1 = 4096" "take 256 c1 = mem_get ?m (a - po) 256"
    using readByCMD_ok [OF fa0 _ _ page, of "fresh 4096 s" "qf s"] by auto
  have sub: "slice po j c1 = mem_get ?m a j" if "po + j \<le> 256" for j
  proof -
    have "slice po j c1 = slice po j (take 256 c1)"
      using that by (simp add: slice_def drop_take min_absorb1)
    then show ?thesis using c1(4) that po_le by (simp add: slice_mem_get)
  qed
  show ?thesis
  proof (cases "sz > first")
    case False
    have "buf_get c1 po sz = Some (mem_get ?m a sz)"
      using sub [of sz] False po(1) c1(3) by (simp add: first_def)
    then have "flashRead qo addr buf sz s = Some (0, patch buf 0 (mem_get ?m a sz), s\<lparr>qf := q1\<rparr>)"
      using c1(1) False assms(1,5)
      by (simp add: flashRead_def po_def [symmetric] fa_def [symmetric] first_def [symmetric])
    then show ?thesis using c1(2) by blast
  next
    case True
    let ?b1 = "patch buf 0 (mem_get ?m a first)"
    have b1: "length ?b1 = length buf" "first + k = sz" using True assms(5) by (simp_all add: k_def)
    have kk: "k div 256 * 256 + k mod 256 = k" by simp
    have np: "(fa + 256) mod 0x100000 = a + first" if "0 < k"
      using fa [of 256] that po po_le assms(4) isize(3) b1(2) by (simp add: first_def)
    obtain c2 q2 c3 q3 where
      c2: "flashRead_pages qo (k div 256) (fa + 256) first c1 ?b1 q1 =
        Some (c2, patch ?b1 first (mem_get ?m (a + first) (k div 256 * 256)), q2)" "qmem q2 = ?m"
      and c3: "k mod 256 \<noteq> 0 \<Longrightarrow> readByCMD qo (fa + 256 + k div 256 * 256) c2 (k mod 256) 0 q2 = Some (c3, q3) \<and>
        256 \<le> length c3 \<and> qmem q3 = ?m \<and>
        take (k mod 256) c3 = mem_get ?m (a + first + k div 256 * 256) (k mod 256)"
    proof -
      have pre: "a + first + k \<le> isize" "first + k \<le> length ?b1" "256 \<le> length c1"
        using assms(4,5) b1 c1(3) by simp_all
      show ?thesis
        by (rule flashRead_rest_ok [of k "fa + 256" "a + first" first ?b1 c1 q1, OF np pre])
          (auto simp: c1(2) intro: that)
    qed
    have b2: "patch ?b1 first (mem_get ?m (a + first) (k div 256 * 256)) =
        patch buf 0 (mem_get ?m a (first + k div 256 * 256))"
      using patch_mem_get [of 0 first "k div 256 * 256" buf ?m a] kk b1(2) assms(5) by simp
    have b3: "patch (patch buf 0 (mem_get ?m a (first + k div 256 * 256))) (first + k div 256 * 256)
        (mem_get ?m (a + first + k div 256 * 256) (k mod 256)) = patch buf 0 (mem_get ?m a sz)"
      using patch_mem_get [of 0 "first + k div 256 * 256" "k mod 256" buf ?m a] kk b1(2) assms(5)
      by (simp add: add.assoc)
    have start: "buf_get c1 po first = Some (mem_get ?m a first)"
      using sub [of first] po(1) c1(3) by (simp add: first_def)
    show ?thesis
    proof (cases "k mod 256 = 0")
      case no_rest: True
      have "flashRead qo addr buf sz s = Some (0, patch buf 0 (mem_get ?m a sz), s\<lparr>qf := q2\<rparr>)"
        using c1(1) c2(1) True no_rest start b1 b2 kk assms(1,5)
        by (simp add: flashRead_def po_def [symmetric] fa_def [symmetric] first_def [symmetric] k_def [symmetric])
      then show ?thesis using c2(2) by blast
    next
      case rest: False
      have rd: "readByCMD qo (fa + 256 + k div 256 * 256) c2 (k mod 256) 0 q2 = Some (c3, q3)" using c3 rest by blast
      have "k mod 256 < 256" by simp
      then have "k mod 256 \<le> length c3" using c3 [OF rest] by linarith
      then have "buf_get c3 0 (k mod 256) = Some (take (k mod 256) c3)"
        by (simp add: buf_get_def slice_def)
      then have get: "buf_get c3 0 (k mod 256) = Some (mem_get ?m (a + first + k div 256 * 256) (k mod 256))"
        using c3 rest by simp
      have put: "buf_put (patch buf 0 (mem_get ?m a (first + k div 256 * 256))) (first + k div 256 * 256)
          (mem_get ?m (a + first + k div 256 * 256) (k mod 256)) = Some (patch buf 0 (mem_get ?m a sz))"
        using b3 kk b1(2) assms(5) by simp
      have "flashRead qo addr buf sz s = Some (0, patch buf 0 (mem_get ?m a sz), s\<lparr>qf := q3\<rparr>)"
        using c1(1) c2(1) rd True rest start b1(1) b2 get put assms(1,5)
        by (simp add: flashRead_def Let_def po_def [symmetric] fa_def [symmetric] first_def [symmetric] k_def [symmetric])
      then show ?thesis using c3 rest by blast
    qed
  qed
qed

lemma program_pages_ok:
  assumes "a = base mod 0x100000" "4096 dvd a" "a < isize" "length cache = 4096" "i + n = 16"
    and "qmem q = nor_pages m a 256 cache i"
  shows "\<exists>q'. program_pages qo base cache i n q = Some q' \<and> qmem q' = mem_upd m a cache"
  using assms(5,6)
proof (induction n arbitrary: i q)
  case 0
  then show ?case using nor_pages_all [of 16 256 cache] assms(4) by simp
next
  case (Suc n)
  obtain j where j: "a = 4096 * j" using assms(2) by blast
  have room: "a + 4096 \<le> isize"
    using aligned_room [OF isize(1), of j] assms(3) j by (simp add: mult.commute)
  have "i \<le> 15" using Suc.prems(1) by simp
  then have "a + i * 256 < isize" using room by linarith
  then have lt: "a + i * 256 < isize" "a + i * 256 < 0x100000" using isize(3) by simp_all
  then have "(base + i * 256) mod 0x100000 = a + i * 256"
    unfolding assms(1) by (metis mod_add_left_eq mod_less)
  then have pp: "programPage qo (base + i * 256) 256 b q = programPage qo (a + i * 256) 256 b q" for b
    by (metis programPage_mod)
  have al: "256 dvd a + i * 256" by (simp add: j)
  have len: "256 \<le> length (drop (i * 256) cache)" using assms(4) Suc.prems(1) by simp
  obtain q1 where q1: "programPage qo (a + i * 256) 256 (drop (i * 256) cache) q = Some q1"
      "qmem q1 = nor_program (qmem q) (a + i * 256) (slice (i * 256) 256 cache)"
    using page_program_ok [OF al lt(1) len, of q] by (auto simp: slice_def)
  have "qmem q1 = nor_pages m a 256 cache (Suc i)"
    using q1(2) Suc.prems assms(4) by (simp add: nor_pages_Suc)
  then show ?case using Suc.IH [of "Suc i" q1] Suc.prems(1) q1(1) by (simp add: pp)
qed

lemma erase_program_ok:
  assumes "a = base mod 0x100000" "4096 dvd a" "a < isize" "length cache = 4096"
  shows "\<exists>q'. program_pages qo base cache 0 16 (eraseSector qo base q) = Some q' \<and>
    qmem q' = mem_upd (qmem q) a cache"
proof -
  have "qmem (eraseSector qo base q) = nor_pages (qmem q) a 256 cache 0"
    using eraseSector_mem [OF assms(2,3), of q] eraseSector_mod [of base q] nor_pages_0 [OF assms(4)] assms(1)
    by metis
  then show ?thesis using program_pages_ok [OF assms(1-4), of 0 16] by auto
qed

lemma inner_write_sector_ok:
  assumes "heap s = []" "sp * 4096 < isize" "length cache = 4096" "off + k \<le> 4096" "k \<le> length buf"
  shows "\<exists>c q'. fls_write_sector qo sp off k cache buf s = Some (c, s\<lparr>qf := q'\<rparr>) \<and> length c = 4096 \<and>
    qmem q' = mem_upd (qmem (qf s)) (sp * 4096 + off) (take k buf)"
proof -
  define old where "old = mem_get (qmem (qf s)) (sp * 4096) 4096"
  define new where "new = patch old off (take k buf)"
  have len: "length old = 4096" "length new = 4096" using assms by (simp_all add: old_def new_def)
  have room: "sp * 4096 + 4096 \<le> isize" by (rule aligned_room [OF isize(1) assms(2)])
  have a: "sp * 4096 = sp * 4096 mod 0x100000" using room isize(3) by simp
  obtain q1 where q1: "flashRead qo (sp * 4096) cache 4096 s = Some (0, old, s\<lparr>qf := q1\<rparr>)" "qmem q1 = qmem (qf s)"
    using flashRead_ok [OF assms(1) a _ room, of cache] assms(3) len(1) patch_all [of old cache]
    by (auto simp: old_def)
  obtain q2 where q2: "program_pages qo (sp * 4096) new 0 16 (eraseSector qo (sp * 4096) q1) = Some q2"
      "qmem q2 = mem_upd (qmem q1) (sp * 4096) new"
    using erase_program_ok [OF a _ assms(2) len(2), of q1] by auto
  have "qmem q2 = mem_upd (qmem (qf s)) (sp * 4096 + off) (take k buf)"
    using q2(2) q1(2) assms(4,5) by (simp add: new_def old_def mem_upd_patch_get)
  moreover have "fls_write_sector qo sp off k cache buf s = Some (new, s\<lparr>qf := q2\<rparr>)"
    using q1(1) q2(1) assms(4,5) len(1) by (simp add: fls_write_sector_def new_def slice_def)
  ultimately show ?thesis using len(2) by blast
qed

lemma inner_write_loop_ok:
  assumes "heap s = []" "length cache = 4096" "0 < len" "len \<le> length buf" "off < 4096"
    and "sp * 4096 + off + len \<le> isize" "k = (if len \<le> 4096 - off then len else 4096 - off)"
  shows "\<exists>l q'. fls_write_loop qo sp off k cache buf len s = Some (drop (len - l) buf, l, s\<lparr>qf := q'\<rparr>) \<and>
    qmem q' = mem_upd (qmem (qf s)) (sp * 4096 + off) (take len buf) \<and> l \<le> len \<and> (len \<le> 4096 - off \<longrightarrow> l = len)"
  using assms
proof (induction len arbitrary: sp off k cache buf s rule: less_induct)
  case (less len)
  have k: "off + k \<le> 4096" "k \<le> length buf" "0 < k" "k \<le> len" using less.prems(3-5,7) by auto
  have pos: "sp * 4096 < isize" using less.prems(3,6) by linarith
  obtain c q1 where st: "fls_write_sector qo sp off k cache buf s = Some (c, s\<lparr>qf := q1\<rparr>)" "length c = 4096"
      "qmem q1 = mem_upd (qmem (qf s)) (sp * 4096 + off) (take k buf)"
    using inner_write_sector_ok [OF less.prems(1) pos less.prems(2) k(1,2)] by blast
  show ?case
  proof (cases "len = k")
    case True
    then show ?thesis using st by (subst fls_write_loop.simps) auto
  next
    case False
    then have kk: "k = 4096 - off" "k < len" using less.prems(7) by (auto split: if_splits)
    have eq: "sp * 4096 + off + k = Suc sp * 4096" using kk(1) less.prems(5) by simp
    let ?k' = "if len - k > 4096 then 4096 else len - k"
    have pre: "len - k < len" "0 < len - k" "len - k \<le> length (drop k buf)" "Suc sp * 4096 + 0 + (len - k) \<le> isize"
      using kk(2) k less.prems(4,6) eq by auto
    have k': "?k' = (if len - k \<le> 4096 - 0 then len - k else 4096 - 0)" by simp
    have hp: "heap (s\<lparr>qf := q1\<rparr>) = []" and z: "(0::nat) < 4096" using less.prems(1) by simp_all
    obtain l q2 where l: "fls_write_loop qo (Suc sp) 0 ?k' c (drop k buf) (len - k) (s\<lparr>qf := q1\<rparr>) =
          Some (drop (len - k - l) (drop k buf), l, s\<lparr>qf := q1\<rparr>\<lparr>qf := q2\<rparr>)"
        "qmem q2 = mem_upd (qmem (qf (s\<lparr>qf := q1\<rparr>))) (Suc sp * 4096 + 0) (take (len - k) (drop k buf))"
        "l \<le> len - k"
      using less.IH [OF pre(1) hp st(2) pre(2,3) z pre(4) k'] by blast
    have tk: "length (take k buf) = k" using k(2) by simp
    have "fls_write_loop qo sp off k cache buf len s = Some (drop (len - l) buf, l, s\<lparr>qf := q2\<rparr>)"
      using st(1) l(1,3) False kk(2) by (subst fls_write_loop.simps) (simp add: Let_def)
    moreover have "qmem q2 = mem_upd (qmem (qf s)) (sp * 4096 + off) (take k buf @ take (len - k) (drop k buf))"
      using l(2) st(3) mem_upd_append [of "qmem (qf s)" "sp * 4096 + off" "take k buf"]
      unfolding tk eq by simp
    moreover have "take k buf @ take (len - k) (drop k buf) = take len buf"
      using k(4) by (metis le_add_diff_inverse take_add)
    ultimately show ?thesis using l(3) kk by (intro exI [of _ l] exI [of _ q2]) simp
  qed
qed

text \<open>The driver on the first megabyte, for an offset \<open>a\<close> into it, when no part of the request is left
  for the SPI flash.\<close>

lemma inner_read_ok:
  assumes "heap s = []" "inside_fls s = Some (Suc c)" "inner1flashsize s = isize"
    and "addr = 0x8000000 + a" "0 < n" "a + n \<le> isize" "n \<le> length buf" "inner2flashsize s = 0 \<or> addr + n < 0x08100000"
  shows "\<exists>q'. tls_fls_read qo ops addr (Some buf) n s =
      Some (TLS_FLS_STATUS_OK, Some (patch buf 0 (mem_get (qmem (qf s)) a n)), s\<lparr>qf := q'\<rparr>) \<and> qmem q' = qmem (qf s)"
proof -
  have a: "a < 0x100000" "addr < 0x08100000" "addr mod 0x8000000 = a" using assms(4-6) isize(3) by auto
  have am: "a = addr mod 0x100000" using assms(4) base_mod [OF a(1)] by simp
  have l1: "len_1M addr n = n" using assms(4,6) isize(3) by (simp add: len_1M_def)
  let ?s = "s\<lparr>inside_fls := Some c\<rparr>"
  obtain q where q: "flashRead qo addr buf n ?s = Some (0, patch buf 0 (mem_get (qmem (qf s)) a n), ?s\<lparr>qf := q\<rparr>)"
      "qmem q = qmem (qf s)"
    using flashRead_ok [of ?s, OF _ am assms(5,6,7)] assms(1) by auto
  have p2: "part_2M addr n n s = None"
    using assms(4,6,8) a isize(3) by (auto simp: part_2M_def)
  have "tls_fls_read qo ops addr (Some buf) n s =
      Some (TLS_FLS_STATUS_OK, Some (patch buf 0 (mem_get (qmem (qf s)) a n)), s\<lparr>qf := q\<rparr>)"
    using q a assms(2,3,5,6) l1 p2 lock_restored [OF assms(2)]
    by (simp add: tls_fls_read_def tls_fls_sem_unlock_def)
  then show ?thesis using q(2) by blast
qed

lemma inner_write_ok:
  assumes "heap s = []" "inside_fls s = Some (Suc c)" "inner1flashsize s = isize"
    and "addr = 0x8000000 + a" "0 < n" "a + n \<le> isize" "n \<le> length buf" "inner2flashsize s = 0 \<or> addr + n < 0x08100000"
  shows "\<exists>q'. tls_fls_write qo ops addr (Some buf) n s = Some (TLS_FLS_STATUS_OK, s\<lparr>qf := q'\<rparr>) \<and>
    qmem q' = mem_upd (qmem (qf s)) a (take n buf)"
proof -
  have a: "a < 0x100000" "addr < 0x08100000" "addr mod 0x8000000 = a" using assms(4-6) isize(3) by auto
  have l1: "len_1M addr n = n" using assms(4,6) isize(3) by (simp add: len_1M_def)
  let ?s = "s\<lparr>inside_fls := Some c\<rparr>" and ?sp = "a div 4096" and ?off = "a mod 4096"
  let ?k = "if n \<le> 4096 - ?off then n else 4096 - ?off"
  have div: "?sp * 4096 + ?off = a" by simp
  have pre: "heap ?s = []" "length (fresh 4096 ?s) = 4096" "?off < 4096" "?sp * 4096 + ?off + n \<le> isize"
    using assms(1,6) by (simp_all add: div)
  obtain l q where lq: "fls_write_loop qo ?sp ?off ?k (fresh 4096 ?s) buf n ?s =
        Some (drop (n - l) buf, l, ?s\<lparr>qf := q\<rparr>)"
      "qmem q = mem_upd (qmem (qf ?s)) (?sp * 4096 + ?off) (take n buf)"
    using inner_write_loop_ok [OF pre(1,2) assms(5,7) pre(3,4) refl] by blast
  have p2: "part_2M addr n l s = None"
    using assms(4,6,8) a isize(3) by (auto simp: part_2M_def)
  have "tls_fls_write qo ops addr (Some buf) n s = Some (TLS_FLS_STATUS_OK, s\<lparr>qf := q\<rparr>)"
    using lq(1) a assms(1,2,3,5,6) l1 p2 lock_restored [OF assms(2)]
    by (simp add: tls_fls_write_def tls_fls_sem_unlock_def split del: if_split)
  then show ?thesis using lq(2) div by (intro exI [of _ q]) simp
qed

end

context inner_nor
begin

text \<open>With the lock free, the first allocation of \<open>tls_fls_write\<close> served and the second one, in
  \<open>flashRead\<close>, refused: the sector is erased and programmed with what the fresh cache held.\<close>

lemma write_sector_no_heap:
  assumes "heap s = [False]" "sp * 4096 < isize" "length cache = 4096" "off + k \<le> 4096" "k \<le> length buf"
  shows "\<exists>c q'. fls_write_sector qo sp off k cache buf s = Some (c, s\<lparr>heap := [], qf := q'\<rparr>) \<and>
    qmem q' = mem_upd (qmem (qf s)) (sp * 4096) (patch cache off (take k buf))"
proof -
  let ?new = "patch cache off (take k buf)"
  have room: "sp * 4096 + 4096 \<le> isize" by (rule aligned_room [OF isize(1) assms(2)])
  have a: "sp * 4096 = sp * 4096 mod 0x100000" using room isize(3) by simp
  have len: "length ?new = 4096" using assms(3-5) by simp
  have rd: "flashRead qo (sp * 4096) cache 4096 s = Some (TLS_FLS_STATUS_ENOMEM, cache, s\<lparr>heap := []\<rparr>)"
    using assms(1) by (simp add: flashRead_def tls_mem_alloc_fail)
  obtain q2 where "program_pages qo (sp * 4096) ?new 0 16 (eraseSector qo (sp * 4096) (qf s)) = Some q2"
      "qmem q2 = mem_upd (qmem (qf s)) (sp * 4096) ?new"
    using erase_program_ok [OF a _ assms(2) len, of "qf s"] by auto
  then show ?thesis
    using rd assms(3-5) by (auto simp: fls_write_sector_def slice_def)
qed

lemma erase_ok:
  assumes "sp * 4096 < isize"
  shows "qmem (eraseSector qo (0x8000000 + sp * 4096) q) = nor_erase (qmem q) (sp * 4096) 4096"
proof -
  have "(0x8000000 + sp * 4096) mod 0x100000 = sp * 4096"
    using assms isize(3) by (intro base_mod) simp
  then show ?thesis using eraseSector_mem [of "sp * 4096" q] assms eraseSector_mod by (metis dvd_triv_right)
qed

text \<open>The loop of \<open>tls_fls_chip_erase\<close> from sector \<open>i\<close> on: a sector that reads as erased is skipped.\<close>

lemma chip_erase_loop_ok:
  assumes "heap s = []" "length cache = 4096" "(i + n + 2) * 4096 = isize"
  shows "\<exists>q'. chip_erase_loop qo i n cache s = Some (s\<lparr>qf := q'\<rparr>) \<and>
    qmem q' = nor_erase (qmem (qf s)) ((i + 2) * 4096) (n * 4096)"
  using assms
proof (induction n arbitrary: i cache s)
  case 0
  then show ?case by (intro exI [of _ "qf s"]) simp
next
  case (Suc n)
  let ?a = "(i + 2) * 4096" and ?addr = "INSIDE_FLS_SECBOOT_ADDR + i * INSIDE_FLS_SECTOR_SIZE"
  let ?m = "qmem (qf s)"
  have lt: "?a < isize" "?a + 4096 \<le> isize" using Suc.prems(3) by simp_all
  have addr: "?addr = 0x8000000 + ?a" by simp
  have am: "?a = ?addr mod 0x100000"
    unfolding addr using lt isize(3) by (intro base_mod [symmetric]) linarith
  obtain q1 where q1: "flashRead qo ?addr cache 4096 s = Some (0, mem_get ?m ?a 4096, s\<lparr>qf := q1\<rparr>)" "qmem q1 = ?m"
    using flashRead_ok [OF Suc.prems(1) am _ lt(2), of cache] Suc.prems(2) patch_all [of "mem_get ?m ?a 4096" cache] by auto
  define dirty where "dirty \<longleftrightarrow> list_ex (\<lambda>b. b \<noteq> 0xFF) (mem_get ?m ?a 4096)"
  define q2 where "q2 = (if dirty then eraseSector qo ?addr q1 else q1)"
  have q2: "qmem q2 = nor_erase ?m ?a 4096"
  proof (cases dirty)
    case True
    then show ?thesis using erase_ok [OF lt(1), of q1] q1(2) unfolding q2_def addr by simp
  next
    case False
    then have "list_all (\<lambda>b. b = 0xFF) (mem_get ?m ?a 4096)"
      by (simp add: dirty_def list_ex_iff list_all_iff)
    then show ?thesis using False q1(2) nor_erase_clean by (simp add: q2_def)
  qed
  have "chip_erase_loop qo i (Suc n) cache s = chip_erase_loop qo (Suc i) n (mem_get ?m ?a 4096) (s\<lparr>qf := q2\<rparr>)"
    using q1(1) by (simp add: q2_def dirty_def)
  moreover obtain q3 where "chip_erase_loop qo (Suc i) n (mem_get ?m ?a 4096) (s\<lparr>qf := q2\<rparr>) = Some (s\<lparr>qf := q3\<rparr>)"
      "qmem q3 = nor_erase (qmem q2) ((Suc i + 2) * 4096) (n * 4096)"
    using Suc.IH [of "s\<lparr>qf := q2\<rparr>" "mem_get ?m ?a 4096" "Suc i"] Suc.prems by auto
  moreover have "nor_erase (nor_erase ?m ?a 4096) ((Suc i + 2) * 4096) (n * 4096) = nor_erase ?m ?a (Suc n * 4096)"
    using nor_erase_append [of ?m ?a 4096 "n * 4096"] by (simp add: add.commute)
  ultimately show ?case using q2 by auto
qed

lemma flush_ok:
  assumes "gsSector s = 0x8000 + sp" "sp * 4096 < isize" "gsflscache s = Some c" "length c = 4096" "inner1flashsize s = isize"
  shows "\<exists>q'. tls_fls_flush_sector qo ops s = Some (s\<lparr>qf := q'\<rparr>) \<and> qmem q' = mem_upd (qmem (qf s)) (sp * 4096) c"
proof -
  have "sp < isize div 4096" using aligned_room [OF isize(1) assms(2)] by simp
  moreover have addr: "(0x8000 + sp) * 4096 = 0x8000000 + sp * 4096" by simp
  moreover have "sp * 4096 = (0x8000000 + sp * 4096) mod 0x100000"
    using assms(2) isize(3) by (intro base_mod [symmetric]) linarith
  ultimately show ?thesis
    using erase_program_ok [of "sp * 4096" "0x8000000 + sp * 4096" c "qf s"] assms
    by (auto simp: tls_fls_flush_sector_def)
qed

text \<open>The loop of \<open>tls_fls_fast_write\<close> on \<open>k\<close> whole sectors.\<close>

lemma fast_write_loop_ok:
  assumes "gsSector s = 0x8000 + sp" "(sp + k) * 4096 \<le> isize" "gsflscache s = Some c" "length c = 4096"
    and "inner1flashsize s = isize" "k * 4096 \<le> length buf"
  shows "\<exists>q' c'. fast_write_loop qo ops 0 4096 buf (k * 4096) s =
      Some (s\<lparr>qf := q', gsflscache := Some c', gsSector := 0x8000 + sp + k\<rparr>) \<and>
    qmem q' = mem_upd (qmem (qf s)) (sp * 4096) (take (k * 4096) buf) \<and> length c' = 4096 \<and>
    (0 < k \<longrightarrow> c' = slice ((k - 1) * 4096) 4096 buf)"
  using assms
proof (induction k arbitrary: s sp c buf)
  case 0
  then show ?case
    by (subst fast_write_loop.simps) (auto intro!: exI [of _ "qf s"] exI [of _ c] fls_state.equality)
next
  case (Suc k)
  let ?c = "take 4096 buf"
  let ?s1 = "s\<lparr>gsflscache := Some ?c\<rparr>"
  have len: "length ?c = 4096" using Suc.prems(6) by simp
  have lt: "sp * 4096 < isize" using Suc.prems(2) by simp
  obtain q1 where q1: "tls_fls_flush_sector qo ops ?s1 = Some (?s1\<lparr>qf := q1\<rparr>)"
      "qmem q1 = mem_upd (qmem (qf s)) (sp * 4096) ?c"
    using flush_ok [of ?s1 sp ?c ops] Suc.prems(1,5) lt len by auto
  let ?s2 = "?s1\<lparr>qf := q1, gsSector := 0x8000 + Suc sp\<rparr>"
  have step: "fast_write_loop qo ops 0 4096 buf (Suc k * 4096) s = fast_write_loop qo ops 0 4096 (drop 4096 buf) (k * 4096) ?s2"
    using q1(1) Suc.prems(1,3,4,6) len
    by (subst fast_write_loop.simps) (simp add: Let_def slice_def patch_all)
  have rest: "k * 4096 \<le> length (drop 4096 buf)" using Suc.prems(6) by simp
  have done_: "fast_write_loop qo ops 0 4096 (drop 4096 buf) 0 t = Some t" for t
    by (subst fast_write_loop.simps) simp
  obtain q2 c2 where q2: "fast_write_loop qo ops 0 4096 (drop 4096 buf) (k * 4096) ?s2 =
        Some (?s2\<lparr>qf := q2, gsflscache := Some c2, gsSector := 0x8000 + Suc sp + k\<rparr>)"
      "qmem q2 = mem_upd (qmem (qf ?s2)) (Suc sp * 4096) (take (k * 4096) (drop 4096 buf))" "length c2 = 4096"
      "c2 = slice (k * 4096) 4096 buf"
  proof (cases "k = 0")
    case True
    have same: "?s2 = ?s2\<lparr>qf := qf ?s2, gsflscache := Some ?c, gsSector := 0x8000 + Suc sp + k\<rparr>"
      using True by simp
    show ?thesis
    proof (rule that [of ?c "qf ?s2"])
      show "fast_write_loop qo ops 0 4096 (drop 4096 buf) (k * 4096) ?s2 =
          Some (?s2\<lparr>qf := qf ?s2, gsflscache := Some ?c, gsSector := 0x8000 + Suc sp + k\<rparr>)"
        unfolding same [symmetric] using True done_ [of ?s2] by simp
    qed (use True len in \<open>simp_all add: slice_def\<close>)
  next
    case False
    then have "(k - 1) * 4096 + 4096 = k * 4096" by (cases k) simp_all
    then have "slice ((k - 1) * 4096) 4096 (drop 4096 buf) = slice (k * 4096) 4096 buf"
      by (simp add: slice_def add.commute)
    then show ?thesis
      using Suc.IH [OF _ _ _ len _ rest, of ?s2 "Suc sp"] Suc.prems(2,5) False that by auto
  qed
  have "qmem q2 = mem_upd (qmem (qf s)) (sp * 4096) (?c @ take (k * 4096) (drop 4096 buf))"
    using q2(2) q1(2) mem_upd_append [of "qmem (qf s)" "sp * 4096" ?c] unfolding len by (simp add: add.commute)
  also have "?c @ take (k * 4096) (drop 4096 buf) = take (Suc k * 4096) buf"
    using take_add [of 4096 "k * 4096" buf] by simp
  finally show ?case using step q2(1,3,4)
    by (intro exI [of _ q2] exI [of _ c2]) (simp add: add.assoc)
qed

text \<open>The cache belongs to the sector \<open>gsSector\<close>: when another sector is written, it is flushed to that one
  first. After whole sectors the cache still holds the last one, but \<open>gsSector\<close> is the one behind it.\<close>

lemma fast_write_ok:
  assumes "inside_fls s = Some (Suc l)" "inner1flashsize s = isize" "isize \<le> flashtotalsize s"
    and "gsSector s = 0 \<or> gsSector s = 0x8000 + g \<and> g * 4096 < isize" "gsflscache s = Some c" "length c = 4096"
    and "0 < k" "(sp + k) * 4096 \<le> isize" "k * 4096 \<le> length buf"
  shows "\<exists>s'. tls_fls_fast_write qo ops (0x8000000 + sp * 4096) (Some buf) (k * 4096) s = Some (TLS_FLS_STATUS_OK, s') \<and>
    qmem (qf s') = mem_upd (if gsSector s = 0 \<or> gsSector s = 0x8000 + sp then qmem (qf s)
      else mem_upd (qmem (qf s)) (g * 4096) c) (sp * 4096) (take (k * 4096) buf) \<and> inside_fls s' = inside_fls s \<and>
    gsSector s' = 0x8000 + sp + k \<and> gsflscache s' = Some (slice ((k - 1) * 4096) 4096 buf) \<and> inner1flashsize s' = isize"
proof -
  have lt: "sp * 4096 < isize" "sp * 4096 < 0x100000" using assms(7,8) isize(3) by (simp_all add: algebra_simps)
  have addr: "(0x8000000 + sp * 4096) div 4096 = 0x8000 + sp" "(0x8000000 + sp * 4096) mod 4096 = 0"
      "(0x8000000 + sp * 4096) mod 0x8000000 = sp * 4096"
    using lt by auto
  let ?same = "gsSector s = 0 \<or> gsSector s = 0x8000 + sp" and ?t = "s\<lparr>inside_fls := Some l\<rparr>"
  let ?m = "if ?same then qmem (qf s) else mem_upd (qmem (qf s)) (g * 4096) c"
  obtain q0 where q0: "(if ?same then Some ?t else tls_fls_flush_sector qo ops ?t) = Some (?t\<lparr>qf := q0\<rparr>)" "qmem q0 = ?m"
  proof (cases ?same)
    case True
    then show ?thesis using that [of "qf s"] by simp
  next
    case False
    then show ?thesis using flush_ok [of ?t g c ops] assms(2,4-6) that by auto
  qed
  let ?s = "?t\<lparr>qf := q0, gsSector := 0x8000 + sp\<rparr>"
  obtain q c' where q: "fast_write_loop qo ops 0 4096 buf (k * 4096) ?s =
        Some (?s\<lparr>qf := q, gsflscache := Some c', gsSector := 0x8000 + sp + k\<rparr>)"
      "qmem q = mem_upd ?m (sp * 4096) (take (k * 4096) buf)" "c' = slice ((k - 1) * 4096) 4096 buf"
    using fast_write_loop_ok [of ?s sp k c buf ops] assms q0(2) by auto
  have flush: "(if 0x8000 + sp \<noteq> gsSector s \<and> gsSector s \<noteq> 0 then tls_fls_flush_sector qo ops ?t else Some ?t) =
      Some (?t\<lparr>qf := q0\<rparr>)"
    using q0(1) by (auto split: if_splits)
  have "tls_fls_fast_write qo ops (0x8000000 + sp * 4096) (Some buf) (k * 4096) s = do {
      s \<leftarrow> (if 0x8000 + sp \<noteq> gsSector s \<and> gsSector s \<noteq> 0 then tls_fls_flush_sector qo ops ?t else Some ?t);
      s \<leftarrow> fast_write_loop qo ops 0 4096 buf (k * 4096) (s\<lparr>gsSector := 0x8000 + sp\<rparr>);
      Some (TLS_FLS_STATUS_OK, tls_fls_sem_unlock s) }"
    using assms(1,3,7) lt addr by (simp add: tls_fls_fast_write_def Let_def split del: if_split)
  then show ?thesis
    using assms(1,2) q unfolding flush by (simp add: tls_fls_sem_unlock_def)
qed

lemma fast_destroy_ok:
  assumes "inside_fls s = Some (Suc l)" "inner1flashsize s = isize"
    and "gsSector s = 0x8000 + sp" "sp * 4096 < isize" "gsflscache s = Some c" "length c = 4096"
  shows "\<exists>s'. tls_fls_fast_write_destroy qo ops s = Some s' \<and> qmem (qf s') = mem_upd (qmem (qf s)) (sp * 4096) c \<and>
    inside_fls s' = inside_fls s \<and> gsflscache s' = None"
  using flush_ok [of "s\<lparr>inside_fls := Some l\<rparr>" sp c ops] assms
  by (auto simp: tls_fls_fast_write_destroy_def tls_fls_sem_unlock_def)

end

section \<open>The flash of a board\<close>

text \<open>
  A board has the internal flash and, with the larger layout, a second megabyte on the SPI bus. Seen
  through the driver both are one range of addresses from 0x08000000 on.
\<close>

definition fls_ready :: "('b \<Rightarrow> nat) \<Rightarrow> nat \<Rightarrow> nat \<Rightarrow> ('b, 'q, 'z) fls_state_scheme \<Rightarrow> bool" where
  "fls_ready busy isize isize2 s \<longleftrightarrow>
     heap s = [] \<and> (\<exists>c. inside_fls s = Some (Suc c)) \<and> inner1flashsize s = isize \<and>
     inner2flashsize s = isize2 \<and> flashtotalsize s = isize + isize2 \<and>
     (isize2 \<noteq> 0 \<longrightarrow> spi_ready busy 0x100000 s)"

definition fls_contents ::
    "('q \<Rightarrow> memory) \<Rightarrow> ('b \<Rightarrow> memory) \<Rightarrow> ('b, 'q, 'z) fls_state_scheme \<Rightarrow> memory" where
  "fls_contents qmem cmem s a =
     (if a < FLASH_BASE_ADDR then 0
      else if a < FLASH_1M_END_ADDR then qmem (qf s) (a - FLASH_BASE_ADDR)
      else cmem (bus s) (a - FLASH_1M_END_ADDR))"

text \<open>The requests the driver serves in one go: inside the first megabyte, not touching its end when
  there is a second one, or inside the second.\<close>

definition fls_accessible :: "nat \<Rightarrow> nat \<Rightarrow> nat \<Rightarrow> nat \<Rightarrow> bool" where
  "fls_accessible isize isize2 a n \<longleftrightarrow>
     FLASH_BASE_ADDR \<le> a \<and> 0 < n \<and>
     (if isize2 = 0 then a + n \<le> FLASH_BASE_ADDR + isize
      else a + n < FLASH_1M_END_ADDR \<or> FLASH_1M_END_ADDR \<le> a \<and> a + n \<le> 0x08200000 \<and> n \<le> 8160)"

lemma fls_contents_qf:
  "\<lbrakk>qmem q = mem_upd (qmem (qf s)) a xs; a + length xs \<le> 0x100000\<rbrakk> \<Longrightarrow>
   fls_contents qmem cmem (s\<lparr>qf := q\<rparr>) = mem_upd (fls_contents qmem cmem s) (FLASH_BASE_ADDR + a) xs"
  by (rule ext) (auto simp: fls_contents_def mem_upd_def diff_diff_left [symmetric] simp del: diff_diff_left)

lemma fls_contents_bus:
  "cmem b = mem_upd (cmem (bus s)) a xs \<Longrightarrow>
   fls_contents qmem cmem (s\<lparr>bus := b\<rparr>) = mem_upd (fls_contents qmem cmem s) (FLASH_1M_END_ADDR + a) xs"
  by (rule ext) (auto simp: fls_contents_def mem_upd_def)

lemma fls_contents_same:
  "qmem q = qmem (qf s) \<Longrightarrow> fls_contents qmem cmem (s\<lparr>qf := q\<rparr>) = fls_contents qmem cmem s"
  "cmem b = cmem (bus s) \<Longrightarrow> fls_contents qmem cmem (s\<lparr>bus := b\<rparr>) = fls_contents qmem cmem s"
  by (auto simp: fls_contents_def fun_eq_iff)

lemma mem_get_contents:
  "a + n \<le> 0x100000 \<Longrightarrow> mem_get (fls_contents qmem cmem s) (FLASH_BASE_ADDR + a) n = mem_get (qmem (qf s)) a n"
  "mem_get (fls_contents qmem cmem s) (FLASH_1M_END_ADDR + a) n = mem_get (cmem (bus s)) a n"
  by (auto intro!: nth_equalityI simp: nth_mem_get fls_contents_def)

lemma part_2M_second:
  assumes "inner2flashsize s \<noteq> 0" "flashtotalsize s = 0x200000" "a + n \<le> 0x100000" "0 < n"
  shows "part_2M (FLASH_1M_END_ADDR + a) n 0 s = Some (a, n)"
proof -
  have "(134217728 :: nat) OR 2097152 = 136314880" by simp
  moreover have "(135266304 + a) mod 1048576 = a mod 1048576" by (simp add: mod_add_eq [symmetric])
  ultimately show ?thesis
    using assms by (auto simp: part_2M_def)
qed

locale flash_board = inner_nor qo qmem qwel isize + spi_nor ops cmem wel busy 1048576
  for qo :: "'q qf_ops" and qmem qwel isize and ops :: "'b spi_ops" and cmem wel busy +
  fixes isize2 :: nat
  assumes isize2: "isize2 = 0 \<or> isize = 0x100000 \<and> isize2 = 0x100000"

context flash_board
begin

lemma ready_qf: "fls_ready busy isize isize2 s \<Longrightarrow> fls_ready busy isize isize2 (s\<lparr>qf := q\<rparr>)"
  by (auto simp: fls_ready_def spi_ready_def drv_ready_def lock_count_def)

lemma ready_second: "fls_ready busy isize isize2 s \<Longrightarrow> busy b = 0 \<Longrightarrow> fls_ready busy isize isize2 (s\<lparr>bus := b\<rparr>)"
  by (auto simp: fls_ready_def spi_ready_bus)

lemma readyE:
  assumes "fls_ready busy isize isize2 s"
  obtains c where "heap s = []" "inside_fls s = Some (Suc c)" "inner1flashsize s = isize"
  using assms by (auto simp: fls_ready_def)

text \<open>A request is served either by the controller or by the SPI flash.\<close>

lemma accessible_cases:
  assumes "fls_ready busy isize isize2 s" "fls_accessible isize isize2 addr n"
  obtains (inner) a where "addr = FLASH_BASE_ADDR + a" "0 < n" "a + n \<le> isize"
      "inner2flashsize s = 0 \<or> addr + n < FLASH_1M_END_ADDR"
  | (second) a where "addr = FLASH_1M_END_ADDR + a" "0 < n" "n \<le> 8160" "a + n \<le> 0x100000"
      "spi_ready busy 0x100000 s" "part_2M addr n 0 s = Some (a, n)"
proof (cases "inner2flashsize s = 0 \<or> addr + n < FLASH_1M_END_ADDR")
  case True
  have "addr = FLASH_BASE_ADDR + (addr - FLASH_BASE_ADDR)" "0 < n" "addr - FLASH_BASE_ADDR + n \<le> isize"
    using assms True isize2 by (auto simp: fls_ready_def fls_accessible_def split: if_splits)
  then show ?thesis using inner True by blast
next
  case False
  then have sec: "flashtotalsize s = 0x200000" "spi_ready busy 0x100000 s" "FLASH_1M_END_ADDR \<le> addr"
      "addr + n \<le> 0x08200000" "n \<le> 8160" "0 < n"
    using assms isize2 by (auto simp: fls_ready_def fls_accessible_def)
  define a where "a = addr - FLASH_1M_END_ADDR"
  have a: "addr = FLASH_1M_END_ADDR + a" "a + n \<le> 0x100000" using sec by (simp_all add: a_def)
  then have "part_2M addr n 0 s = Some (a, n)" using part_2M_second [of s a n] False sec by simp
  then show ?thesis using second a sec by blast
qed

end

sublocale flash_board \<subseteq> fls: flash_store "fls_ready busy isize isize2" "fls_contents qmem cmem"
  "fls_accessible isize isize2" "tls_fls_read qo ops" "tls_fls_write qo ops"
proof
  fix s :: "('b, 'q, 'z) fls_state_scheme" and addr n and buf :: bytes
  assume s: "fls_ready busy isize isize2 s" and acc: "fls_accessible isize isize2 addr n" and len: "n \<le> length buf"
  obtain c where c: "heap s = []" "inside_fls s = Some (Suc c)" "inner1flashsize s = isize"
    using readyE [OF s] .
  show "\<exists>s'. tls_fls_read qo ops addr (Some buf) n s =
      Some (TLS_FLS_STATUS_OK, Some (patch buf 0 (mem_get (fls_contents qmem cmem s) addr n)), s') \<and>
      fls_ready busy isize isize2 s' \<and> fls_contents qmem cmem s' = fls_contents qmem cmem s"
    using s acc
  proof (cases rule: accessible_cases)
    case (inner a)
    then show ?thesis
      using inner_read_ok [OF c inner(1-3) len inner(4), of ops] isize(3) ready_qf [OF s]
      by (auto simp: mem_get_contents fls_contents_same)
  next
    case (second a)
    have a: "a < 1048576" "a + n < 4294967296" "n = min n (1048576 - a)" using second by auto
    obtain b where b: "tls_spifls_read ops a (Some buf) n s =
        Some (TLS_FLS_STATUS_OK, Some (patch buf 0 (mem_get (cmem (bus s)) a n)), s\<lparr>bus := b\<rparr>)"
        "cmem b = cmem (bus s)" "busy b = 0"
      using spifls_read_ok [OF second(5) a(1) second(2) a(2,3) second(3) len] by blast
    have "tls_fls_read qo ops addr (Some buf) n s =
        Some (TLS_FLS_STATUS_OK, Some (patch buf 0 (mem_get (cmem (bus s)) a n)), s\<lparr>bus := b\<rparr>)"
      using b(1) second(1,6) by (simp add: tls_fls_read_def)
    then show ?thesis
      using b ready_second [OF s b(3)] by (simp add: second(1) mem_get_contents fls_contents_same)
  qed
  show "\<exists>s'. tls_fls_write qo ops addr (Some buf) n s = Some (TLS_FLS_STATUS_OK, s') \<and>
      fls_ready busy isize isize2 s' \<and> fls_contents qmem cmem s' = mem_upd (fls_contents qmem cmem s) addr (take n buf)"
    using s acc
  proof (cases rule: accessible_cases)
    case (inner a)
    obtain q where q: "tls_fls_write qo ops addr (Some buf) n s = Some (TLS_FLS_STATUS_OK, s\<lparr>qf := q\<rparr>)"
        "qmem q = mem_upd (qmem (qf s)) a (take n buf)"
      using inner_write_ok [OF c inner(1-3) len inner(4), of ops] by blast
    have "a + length (take n buf) \<le> 0x100000" using inner(3) isize(3) by simp
    then show ?thesis
      using q ready_qf [OF s] fls_contents_qf [of qmem q s a "take n buf" cmem]
      by (auto simp: inner(1))
  next
    case (second a)
    have a: "a < 1048576" "a + n < 4294967296" "n = min n (1048576 - a)" using second by auto
    obtain b where b: "tls_spifls_write ops a (Some buf) n s = Some (TLS_FLS_STATUS_OK, s\<lparr>bus := b\<rparr>)"
        "cmem b = mem_upd (cmem (bus s)) a (take n buf)" "busy b = 0"
      using spifls_write_ok [OF second(5) a(1) second(2) a(2,3) len] by blast
    have "tls_fls_write qo ops addr (Some buf) n s = Some (TLS_FLS_STATUS_OK, s\<lparr>bus := b\<rparr>)"
      using b(1) second(1,6) by (simp add: tls_fls_write_def)
    then show ?thesis
      using ready_second [OF s b(3)] fls_contents_bus [OF b(2)] by (simp add: second(1))
  qed
qed

context flash_board
begin

lemma board_store: "flash_store (fls_ready busy isize isize2) (fls_contents qmem cmem) (fls_accessible isize isize2)
    (tls_fls_read qo ops) (tls_fls_write qo ops)"
  by (rule fls.flash_store_axioms)

lemma board_inner: "inner_nor qo qmem qwel isize"
  by (rule inner_nor_axioms)

lemma board_erase_ok:
  assumes "fls_ready busy isize isize2 s" "sp * 4096 < flashtotalsize s"
  shows "\<exists>s'. tls_fls_erase qo ops (0x8000 + sp) s = Some (TLS_FLS_STATUS_OK, s') \<and>
    fls_contents qmem cmem s' = nor_erase (fls_contents qmem cmem s) (0x8000000 + sp * 4096) 4096 \<and>
    fls_ready busy isize isize2 s'"
proof (cases "sp * 4096 < isize")
  case True
  obtain c where c: "heap s = []" "inside_fls s = Some (Suc c)" "inner1flashsize s = isize"
    using readyE [OF assms(1)] .
  let ?q = "eraseSector qo (0x8000000 + sp * 4096) (qf s)"
  have "sp < isize div 4096" using aligned_room [OF isize(1) True] by simp
  moreover have addr: "(0x8000 + sp) * 4096 = 0x8000000 + sp * 4096" by simp
  ultimately have "tls_fls_erase qo ops (0x8000 + sp) s = Some (TLS_FLS_STATUS_OK, s\<lparr>qf := ?q\<rparr>)"
    using c lock_restored [OF c(2)] unfolding tls_fls_erase_def addr by (simp add: tls_fls_sem_unlock_def)
  moreover have "fls_contents qmem cmem (s\<lparr>qf := ?q\<rparr>) = nor_erase (fls_contents qmem cmem s) (0x8000000 + sp * 4096) 4096"
    using erase_ok [OF True, of "qf s"] aligned_room [OF isize(1) True] isize(3)
    by (intro ext) (auto simp: fls_contents_def nor_erase_def)
  ultimately show ?thesis using ready_qf [OF assms(1)] by blast
next
  case False
  then have sec: "isize = 0x100000" "inner1flashsize s = isize" "flashtotalsize s = 0x200000" "spi_ready busy 0x100000 s"
    using assms False isize2 by (auto simp: fls_ready_def)
  define k where "k = sp - 256"
  have k: "sp = 256 + k" "k * 4096 < 1048576" using False sec assms(2) by (simp_all add: k_def)
  have "k < 256" using k(2) by simp
  then have low: "(0x8000 + sp) AND 0xFF = k"
    using and_mask_mod [of "0x8000 + sp" 8] k(1) by (simp add: mod_add_eq [symmetric])
  obtain b where b: "tls_spifls_erase ops k s = Some (TLS_FLS_STATUS_OK, s\<lparr>bus := b\<rparr>)"
      "cmem b = nor_erase (cmem (bus s)) (k * 4096) 4096" "busy b = 0"
    using spifls_erase_ok [OF sec(4) k(2)] by blast
  have "tls_fls_erase qo ops (0x8000 + sp) s = Some (TLS_FLS_STATUS_OK, s\<lparr>bus := b\<rparr>)"
    using b(1) sec k low \<open>k < 256\<close> by (simp add: tls_fls_erase_def)
  moreover have "fls_contents qmem cmem (s\<lparr>bus := b\<rparr>) = nor_erase (fls_contents qmem cmem s) (0x8000000 + sp * 4096) 4096"
    using b(2) k(1) by (intro ext) (auto simp: fls_contents_def nor_erase_def)
  ultimately show ?thesis using ready_second [OF assms(1) b(3)] by blast
qed

lemma board_chip_erase_ok:
  assumes "fls_ready busy isize isize2 s"
  shows "\<exists>s'. tls_fls_chip_erase qo ops s = Some (TLS_FLS_STATUS_OK, s') \<and>
    qmem (qf s') = nor_erase (qmem (qf s)) 0x2000 (isize - 0x2000) \<and>
    (inner2flashsize s \<noteq> 0 \<longrightarrow> cmem (bus s') = nor_erase (cmem (bus s)) 0 0x100000) \<and>
    inside_fls s' = inside_fls s"
proof -
  obtain c where c: "heap s = []" "inside_fls s = Some (Suc c)" "inner1flashsize s = isize"
    using readyE [OF assms] .
  let ?s = "s\<lparr>inside_fls := Some c\<rparr>"
  obtain j where j: "isize = 4096 * j" using isize(1) by blast
  define n where "n = j - 2"
  have jn: "j = n + 2" using j isize(2) by (simp add: n_def)
  have "isize - 0x2000 = n * 4096" using j jn by simp
  then have n: "(0 + n + 2) * 4096 = isize" "sub32 isize 0x2000 div 4096 = n"
    using j jn isize(3) by simp_all
  obtain q where q: "chip_erase_loop qo 0 n (fresh 4096 ?s) ?s = Some (?s\<lparr>qf := q\<rparr>)"
      "qmem q = nor_erase (qmem (qf s)) 0x2000 (n * 4096)"
    using chip_erase_loop_ok [of ?s "fresh 4096 ?s" 0 n] n c by auto
  have size: "n * 4096 = isize - 0x2000" using n(1) by simp
  show ?thesis
  proof (cases "inner2flashsize s = 0")
    case True
    then show ?thesis using q c n(2) size
      by (simp add: tls_fls_chip_erase_def tls_fls_sem_unlock_def lock_restored)
  next
    case False
    then have "drv_ready busy 1048576 (?s\<lparr>qf := q\<rparr>)"
      using assms by (auto simp: fls_ready_def spi_ready_def drv_ready_def)
    then obtain b where "tls_spifls_chip_erase ops (?s\<lparr>qf := q\<rparr>) = Some (TLS_FLS_STATUS_OK, ?s\<lparr>qf := q\<rparr>\<lparr>bus := b\<rparr>)"
        "cmem b = nor_erase (cmem (bus s)) 0 1048576"
      using spifls_chip_erase_ok by fastforce
    then show ?thesis using q c n(2) size False
      by (simp add: tls_fls_chip_erase_def tls_fls_sem_unlock_def)
  qed
qed

end

section \<open>A concrete flash controller\<close>

record qdev =
  d_mem :: memory
  d_wel :: bool
  d_win :: "nat \<Rightarrow> u32"

definition dec_addr :: "u32 \<Rightarrow> nat" where
  "dec_addr r = unat (drop_bit 8 r AND mask 20)"

lemma dec_addr_reg: "a < 0x100000 \<Longrightarrow> dec_addr (addr_reg a) = a"
proof -
  assume a: "a < 0x100000"
  define H :: u32 where "H = 0x10000000"
  have hi: "bit H n \<longleftrightarrow> n = 28" for n
  proof -
    have e: "H = push_bit 28 1" by (simp add: H_def)
    show ?thesis unfolding e bit_push_bit_iff by (auto simp: bit_1_iff)
  qed
  have high: "\<not> bit a n" if "20 \<le> n" for n
  proof -
    have "(2 :: nat) ^ 20 \<le> 2 ^ n" using that by (rule power_increasing) simp
    then have "a < 2 ^ n" using a by simp
    then show ?thesis by (simp add: bit_iff_odd)
  qed
  have "drop_bit 8 (addr_reg a) AND mask 20 = of_nat a"
  proof (rule bit_word_eqI)
    fix n :: nat
    show "bit (drop_bit 8 (addr_reg a) AND mask 20) n = bit (of_nat a :: u32) n"
      using high [of n] a unfolding addr_reg_def H_def [symmetric]
      by (cases "20 \<le> n") (auto simp: bit_simps hi mod_less)
  qed
  then show ?thesis using a by (simp add: dec_addr_def unsigned_of_nat take_bit_nat_eq_self)
qed

definition nor_start :: "u32 \<Rightarrow> u32 \<Rightarrow> qdev \<Rightarrow> qdev" where
  "nor_start cmd areg q =
     (if cmd AND 0xFC00FFFF = 0xBC00C00B
        then q\<lparr>d_win := (\<lambda>i. of_le32 (mem_get (d_mem q) (dec_addr areg + 4 * i) 4))\<rparr>
      else if cmd = 0x6 then q\<lparr>d_wel := True\<rparr>
      else if cmd = 0x80000820 \<and> d_wel q
        then q\<lparr>d_mem := nor_erase (d_mem q) (dec_addr areg) 4096, d_wel := False\<rparr>
      else if cmd = 0x80FF9002 \<and> d_wel q
        then q\<lparr>d_mem := nor_program (d_mem q) (dec_addr areg) (map (\<lambda>i. le32 (d_win q (i div 4)) ! (i mod 4)) [0..<256]),
               d_wel := False\<rparr>
      else if cmd = 0x2c09F then q\<lparr>d_win := (d_win q)(0 := 0x1440C8)\<rparr>
      else q)"

definition nor_ctl :: "qdev qf_ops" where
  "nor_ctl = \<lparr>qf_start = nor_start, qf_win_rd = (\<lambda>i q. d_win q i),
     qf_win_wr = (\<lambda>i v q. q\<lparr>d_win := (d_win q)(i := v)\<rparr>)\<rparr>"

lemma read_cmd_mask:
  assumes "n \<le> 256"
  shows "(0xBC00C00B OR push_bit 16 (of_nat (n - 1)) :: u32) AND 0xFC00FFFF = 0xBC00C00B"
proof -
  have "(of_nat (n - 1) :: u32) = take_bit 10 (of_nat (n - 1))"
    using assms by (simp add: take_bit_of_nat take_bit_nat_eq_self del: of_nat_diff)
  then have "bit (of_nat (n - 1) :: u32) i \<Longrightarrow> i < 10" for i by (metis bit_take_bit_iff)
  moreover have "(0xFC00FFFF :: u32) = NOT (push_bit 16 (mask 10))"
    by (simp add: mask_eq_exp_minus_1 push_bit_eq_mult)
  ultimately have "push_bit 16 (of_nat (n - 1)) AND (0xFC00FFFF :: u32) = 0"
    by (auto simp: bit_eq_iff bit_simps simp del: of_nat_diff)
  then show ?thesis by (simp add: and.commute [of _ "0xFC00FFFF"] bit.conj_disj_distrib del: of_nat_diff)
qed

lemma win_byte_nor: "win_byte nor_ctl q = (\<lambda>i. le32 (d_win q (i div 4)) ! (i mod 4))"
  by (rule ext) (simp add: win_byte_def nor_ctl_def)

lemma nor_start_read:
  "n \<le> 256 \<Longrightarrow> nor_start (0xBC00C00B OR push_bit 16 (of_nat (n - 1))) areg q =
     q\<lparr>d_win := (\<lambda>i. of_le32 (mem_get (d_mem q) (dec_addr areg + 4 * i) 4))\<rparr>"
  using read_cmd_mask [of n] by (simp only: nor_start_def simp_thms if_True)

interpretation nor: inner_nor nor_ctl d_mem d_wel 1048576
proof unfold_locales
  have ctl: "qf_start nor_ctl = nor_start" by (simp add: nor_ctl_def)
  fix n a i :: nat and q :: qdev
  assume n: "0 < n" "n \<le> 256"
  then show "d_mem (qf_start nor_ctl (0xBC00C00B OR push_bit 16 (of_nat (n - 1))) (addr_reg a) q) = d_mem q"
    by (simp add: ctl nor_start_read del: of_nat_diff One_nat_def)
  assume i: "a + n \<le> (1048576 :: nat)" "i < n"
  have a: "a < 0x100000" using n i by simp
  have "i mod 4 < 4" by simp
  then show "win_byte nor_ctl (qf_start nor_ctl (0xBC00C00B OR push_bit 16 (of_nat (n - 1))) (addr_reg a) q) i = d_mem q (a + i)"
    using n by (simp add: ctl win_byte_nor nor_start_read le32_of_le32 nth_mem_get dec_addr_reg [OF a] add.assoc
        del: of_nat_diff One_nat_def)
next
  fix a :: nat and q :: qdev
  assume "d_wel q" "256 dvd a" "a < 1048576"
  then show "d_mem (qf_start nor_ctl (0x80009002 OR push_bit 16 255) (addr_reg a) q) =
      nor_program (d_mem q) a (map (win_byte nor_ctl q) [0..<256])"
    unfolding win_byte_nor by (simp add: nor_ctl_def nor_start_def dec_addr_reg)
qed (auto simp: nor_ctl_def nor_start_def dec_addr_reg)

interpretation board1: flash_board nor_ctl d_mem d_wel 1048576 chip_1M c_mem c_wel c_busy 0
  by unfold_locales simp

interpretation board2: flash_board nor_ctl d_mem d_wel 1048576 chip_1M c_mem c_wel c_busy 1048576
  by unfold_locales simp

definition board_1M :: "(chip, qdev) fls_state" where
  "board_1M = \<lparr>heap = [], junk = (\<lambda>_. 0xA5), bus = \<lparr>c_mem = (\<lambda>_. 0xFF), c_wel = False, c_busy = 0\<rparr>,
     spi_fls = None, exspi_fls = exspi_fls_init, exspifls_drv = None,
     qf = \<lparr>d_mem = (\<lambda>_. 0x11), d_wel = False, d_win = (\<lambda>_. 0)\<rparr>, inside_fls = Some 1,
     inner1flashsize = 0x100000, inner2flashsize = 0, flashtotalsize = 0x100000,
     gsflscache = None, gsSector = 0\<rparr>"

definition board_2M :: "(chip, qdev) fls_state" where
  "board_2M = board_1M\<lparr>spi_fls := spi_fls chip_board_ready, exspi_fls := exspi_fls chip_board_ready,
     exspifls_drv := Some Exspi_fls, inner2flashsize := 0x100000, flashtotalsize := 0x200000\<rparr>"

lemma board_1M_ready: "fls_ready c_busy 1048576 0 board_1M"
  by (simp add: fls_ready_def board_1M_def)

lemma board_2M_ready: "fls_ready c_busy 1048576 1048576 board_2M"
  by (simp add: fls_ready_def board_2M_def board_1M_def spi_ready_def drv_ready_def lock_count_def
      chip_board_ready_def)

section \<open>Properties\<close>

text \<open>C1: on every board whose flash controller and SPI flash keep their data sheets, \<open>tls_fls_write\<close>
  of an accessible range returns OK, replaces exactly the bytes of that range in the contents of the
  flash (all other bytes of the sectors it erases are kept) and leaves the driver ready with its lock
  free.\<close>

theorem tls_fls_write_exact:
  assumes "flash_board qo qmem qwel isize ops cmem wel busy isize2" "fls_ready busy isize isize2 s"
    and "fls_accessible isize isize2 addr n" "n \<le> length buf"
  shows "\<exists>s'. tls_fls_write qo ops addr (Some buf) n s = Some (TLS_FLS_STATUS_OK, s') \<and>
    fls_contents qmem cmem s' = mem_upd (fls_contents qmem cmem s) addr (take n buf) \<and> fls_ready busy isize isize2 s'"
  using flash_store.wr_ok [OF flash_board.board_store [OF assms(1)] assms(2-4)] by blast

theorem tls_fls_write_exact_witness:
  "\<exists>s'. tls_fls_write nor_ctl chip_1M 0x080FEFF0 (Some (replicate 40 0x5A)) 40 board_1M = Some (TLS_FLS_STATUS_OK, s') \<and>
    fls_contents d_mem c_mem s' = mem_upd (fls_contents d_mem c_mem board_1M) 0x080FEFF0 (take 40 (replicate 40 0x5A)) \<and>
    fls_ready c_busy 1048576 0 s'"
  by (rule tls_fls_write_exact [OF board1.flash_board_axioms board_1M_ready])
    (simp_all add: fls_accessible_def board_1M_def)

text \<open>C13: what \<open>tls_fls_write\<close> stored is what \<open>tls_fls_read\<close> returns, in the first megabyte and in the
  second.\<close>

theorem tls_fls_read_after_write:
  assumes "flash_board qo qmem qwel isize ops cmem wel busy isize2" "fls_ready busy isize isize2 s"
    and "fls_accessible isize isize2 addr n" "n \<le> length buf" "n \<le> length dst"
  shows "\<exists>s1 s2. tls_fls_write qo ops addr (Some buf) n s = Some (TLS_FLS_STATUS_OK, s1) \<and>
    tls_fls_read qo ops addr (Some dst) n s1 = Some (TLS_FLS_STATUS_OK, Some (patch dst 0 (take n buf)), s2) \<and>
    fls_contents qmem cmem s2 = mem_upd (fls_contents qmem cmem s) addr (take n buf)"
  by (rule flash_store.read_after_write [OF flash_board.board_store [OF assms(1)] assms(2-5)])

theorem tls_fls_read_after_write_witness:
  "\<exists>s1 s2. tls_fls_write nor_ctl chip_1M 0x081FC000 (Some [1, 2, 3]) 3 board_2M = Some (TLS_FLS_STATUS_OK, s1) \<and>
    tls_fls_read nor_ctl chip_1M 0x081FC000 (Some [0, 0, 0, 0]) 3 s1 =
      Some (TLS_FLS_STATUS_OK, Some (patch [0, 0, 0, 0] 0 (take 3 [1, 2, 3])), s2) \<and>
    fls_contents d_mem c_mem s2 = mem_upd (fls_contents d_mem c_mem board_2M) 0x081FC000 (take 3 [1, 2, 3])"
  by (rule tls_fls_read_after_write [OF board2.flash_board_axioms board_2M_ready])
    (simp_all add: fls_accessible_def board_2M_def)

text \<open>\<open>tls_fls_erase\<close> of a sector of either flash returns OK and sets exactly the 4096 bytes of the
  sector to 0xFF.\<close>

theorem tls_fls_erase_exact:
  assumes "flash_board qo qmem qwel isize ops cmem wel busy isize2" "fls_ready busy isize isize2 s"
    and "sp * 4096 < flashtotalsize s"
  shows "\<exists>s'. tls_fls_erase qo ops (0x8000 + sp) s = Some (TLS_FLS_STATUS_OK, s') \<and>
    fls_contents qmem cmem s' = nor_erase (fls_contents qmem cmem s) (0x8000000 + sp * 4096) 4096 \<and>
    fls_ready busy isize isize2 s'"
  by (rule flash_board.board_erase_ok [OF assms])

theorem tls_fls_erase_exact_witness:
  "\<exists>s'. tls_fls_erase nor_ctl chip_1M (0x8000 + 300) board_2M = Some (TLS_FLS_STATUS_OK, s') \<and>
    fls_contents d_mem c_mem s' = nor_erase (fls_contents d_mem c_mem board_2M) (0x8000000 + 300 * 4096) 4096 \<and>
    fls_ready c_busy 1048576 1048576 s'"
  by (rule tls_fls_erase_exact [OF board2.flash_board_axioms board_2M_ready]) (simp add: board_2M_def)

text \<open>C21: \<open>tls_fls_chip_erase\<close> returns OK, erases all of the internal flash from \<open>INSIDE_FLS_SECBOOT_ADDR\<close>
  (offset 0x2000) on and the whole SPI flash where there is one, leaves the first 8 KB as they were, and
  gives its lock back. The secondary boot loader, whose header lies at offset 0x2000 and its image
  behind it, the run-time image and the parameters are erased with the rest.\<close>

theorem tls_fls_chip_erase_exact:
  assumes "flash_board qo qmem qwel isize ops cmem wel busy isize2" "fls_ready busy isize isize2 s"
  shows "\<exists>s'. tls_fls_chip_erase qo ops s = Some (TLS_FLS_STATUS_OK, s') \<and>
    qmem (qf s') = nor_erase (qmem (qf s)) 0x2000 (isize - 0x2000) \<and>
    (inner2flashsize s \<noteq> 0 \<longrightarrow> cmem (bus s') = nor_erase (cmem (bus s)) 0 0x100000) \<and>
    inside_fls s' = inside_fls s"
  by (rule flash_board.board_chip_erase_ok [OF assms])

theorem tls_fls_chip_erase_exact_witness:
  "\<exists>s'. tls_fls_chip_erase nor_ctl chip_1M board_2M = Some (TLS_FLS_STATUS_OK, s') \<and>
    d_mem (qf s') = nor_erase (d_mem (qf board_2M)) 0x2000 (1048576 - 0x2000) \<and>
    (inner2flashsize board_2M \<noteq> 0 \<longrightarrow> c_mem (bus s') = nor_erase (c_mem (bus board_2M)) 0 0x100000) \<and>
    inside_fls s' = inside_fls board_2M"
  by (rule tls_fls_chip_erase_exact [OF board2.flash_board_axioms board_2M_ready])

text \<open>C20: the cached fast write of \<open>k\<close> whole sectors of the internal flash, with the sector behind them in
  the internal flash too, and the \<open>tls_fls_fast_write_destroy\<close> that ends it. The write returns OK and
  replaces exactly its sectors, after the cache was flushed to the sector \<open>gsSector\<close> it belongs to, when
  that is another one. It leaves \<open>gsSector\<close> one behind the last sector while the cache still holds that
  one, so that the final flush overwrites the next sector, to which nothing was written, with a copy of
  the last one; a fast write elsewhere would do the same.\<close>

theorem tls_fls_fast_write_spills:
  assumes "inner_nor qo qmem qwel isize" "inside_fls s = Some (Suc l)"
    and "inner1flashsize s = isize" "isize \<le> flashtotalsize s"
    and "gsSector s = 0 \<or> gsSector s = 0x8000 + g \<and> g * 4096 < isize" "gsflscache s = Some c" "length c = 4096"
    and "0 < k" "(sp + k) * 4096 < isize" "k * 4096 \<le> length buf"
  shows "\<exists>s1 s2. tls_fls_fast_write qo ops (0x8000000 + sp * 4096) (Some buf) (k * 4096) s = Some (TLS_FLS_STATUS_OK, s1) \<and>
    qmem (qf s1) = mem_upd (if gsSector s = 0 \<or> gsSector s = 0x8000 + sp then qmem (qf s)
      else mem_upd (qmem (qf s)) (g * 4096) c) (sp * 4096) (take (k * 4096) buf) \<and>
    inside_fls s1 = inside_fls s \<and> gsSector s1 = 0x8000 + sp + k \<and>
    tls_fls_fast_write_destroy qo ops s1 = Some s2 \<and>
    qmem (qf s2) = mem_upd (qmem (qf s1)) ((sp + k) * 4096) (slice ((k - 1) * 4096) 4096 buf) \<and>
    inside_fls s2 = inside_fls s \<and> gsflscache s2 = None"
proof -
  let ?last = "slice ((k - 1) * 4096) 4096 buf"
  obtain s1 where s1: "tls_fls_fast_write qo ops (0x8000000 + sp * 4096) (Some buf) (k * 4096) s = Some (TLS_FLS_STATUS_OK, s1)"
      "qmem (qf s1) = mem_upd (if gsSector s = 0 \<or> gsSector s = 0x8000 + sp then qmem (qf s)
        else mem_upd (qmem (qf s)) (g * 4096) c) (sp * 4096) (take (k * 4096) buf)"
      "inside_fls s1 = inside_fls s" "gsSector s1 = 0x8000 + sp + k" "gsflscache s1 = Some ?last" "inner1flashsize s1 = isize"
    using inner_nor.fast_write_ok [OF assms(1-8) _ assms(10), of sp ops] assms(9) by auto
  have last: "length ?last = 4096" using assms(8,10) by (cases k) simp_all
  have "gsSector s1 = 0x8000 + (sp + k)" "inside_fls s1 = Some (Suc l)" using s1(3,4) assms(2) by simp_all
  from inner_nor.fast_destroy_ok [OF assms(1) this(2) s1(6) this(1) assms(9) s1(5) last, of ops]
  show ?thesis using s1(1-4) by auto
qed

theorem tls_fls_fast_write_spills_witness:
  "\<exists>s1 s2. tls_fls_fast_write nor_ctl chip_1M (0x8000000 + 0x90 * 4096) (Some (replicate 8192 7)) (2 * 4096)
      (board_1M\<lparr>gsflscache := Some (replicate 4096 0)\<rparr>) = Some (TLS_FLS_STATUS_OK, s1) \<and>
    tls_fls_fast_write_destroy nor_ctl chip_1M s1 = Some s2 \<and>
    d_mem (qf s2) = mem_upd (d_mem (qf s1)) ((0x90 + 2) * 4096) (slice ((2 - 1) * 4096) 4096 (replicate 8192 7))"
  using tls_fls_fast_write_spills [OF nor.inner_nor_axioms, where l = 0 and c = "replicate 4096 0" and g = 0 and sp = "0x90" and k = 2
      and buf = "replicate 8192 7" and s = "board_1M\<lparr>gsflscache := Some (replicate 4096 0)\<rparr>" and ops = chip_1M]
  by (simp add: board_1M_def) blast

text \<open>C24: when the allocation inside \<open>flashRead\<close> fails, \<open>tls_fls_write\<close> still returns OK, but it has
  erased the sector and programmed the uninitialised cache around the new bytes: everything else in
  the sector is lost.\<close>

theorem tls_fls_write_no_heap_loses_sector:
  assumes "inner_nor qo qmem qwel isize" "heap s = [True, False]" "inside_fls s = Some (Suc l)"
    and "inner1flashsize s = isize" "inner2flashsize s = 0"
    and "sp * 4096 < isize" "0 < n" "off + n \<le> 4096" "n \<le> length buf"
  shows "\<exists>s'. tls_fls_write qo ops (0x8000000 + sp * 4096 + off) (Some buf) n s = Some (TLS_FLS_STATUS_OK, s') \<and>
    qmem (qf s') = mem_upd (qmem (qf s)) (sp * 4096) (patch (fresh 4096 s) off (take n buf))"
proof -
  have iso: "4096 dvd isize" "isize \<le> 0x100000" using inner_nor.isize [OF assms(1)] by simp_all
  have room: "sp * 4096 + 4096 \<le> isize" by (rule aligned_room [OF iso(1) assms(6)])
  define addr where "addr = 0x8000000 + (sp * 4096 + off)"
  have off: "off < 4096" using assms(7,8) by simp
  have a: "addr < 0x08100000" "addr mod 0x8000000 = sp * 4096 + off" "len_1M addr n = n"
      "(sp * 4096 + off) div 4096 = sp" "(sp * 4096 + off) mod 4096 = off" "sp * 4096 + off < isize"
    using room iso(2) off assms(8) by (simp_all add: addr_def len_1M_def)
  let ?s = "s\<lparr>inside_fls := Some l, heap := [False]\<rparr>"
  have fr: "fresh 4096 (s\<lparr>inside_fls := Some l\<rparr>) = fresh 4096 s" by (simp add: fresh_def)
  obtain c q where q: "fls_write_sector qo sp off n (fresh 4096 s) buf ?s = Some (c, ?s\<lparr>heap := [], qf := q\<rparr>)"
      "qmem q = mem_upd (qmem (qf s)) (sp * 4096) (patch (fresh 4096 s) off (take n buf))"
    using inner_nor.write_sector_no_heap [OF assms(1), of ?s sp "fresh 4096 s" off n buf] assms(6,8,9) by auto
  have loop: "fls_write_loop qo sp off n (fresh 4096 s) buf n ?s = Some (buf, n, ?s\<lparr>heap := [], qf := q\<rparr>)"
    using q(1) by (subst fls_write_loop.simps) simp
  have al: "tls_mem_alloc 4096 (s\<lparr>inside_fls := Some l\<rparr>) = (Some (fresh 4096 s), ?s)"
    using assms(2) fr by (simp add: tls_mem_alloc_def)
  have k: "(if n \<le> 4096 - off then n else 4096 - off) = n" using assms(8) by simp
  have "tls_fls_write qo ops addr (Some buf) n s =
      Some (TLS_FLS_STATUS_OK, tls_fls_sem_unlock (?s\<lparr>heap := [], qf := q\<rparr>))"
    using loop al a k assms(3,4,5,7)
    by (simp add: tls_fls_write_def tls_fls_sem_unlock_def part_2M_def split del: if_split)
  then show ?thesis using q(2) by (simp add: addr_def tls_fls_sem_unlock_def add.assoc)
qed

theorem tls_fls_write_no_heap_loses_sector_witness:
  "\<exists>s'. tls_fls_write nor_ctl chip_1M (0x8000000 + 5 * 4096 + 16) (Some [1, 2]) 2 (board_1M\<lparr>heap := [True, False]\<rparr>) =
      Some (TLS_FLS_STATUS_OK, s') \<and>
    d_mem (qf s') = mem_upd (d_mem (qf (board_1M\<lparr>heap := [True, False]\<rparr>))) (5 * 4096)
      (patch (fresh 4096 (board_1M\<lparr>heap := [True, False]\<rparr>)) 16 (take 2 [1, 2]))"
  by (rule tls_fls_write_no_heap_loses_sector [OF nor.inner_nor_axioms, where l = 0]) (simp_all add: board_1M_def)

text \<open>On a board with one megabyte, \<open>tls_fls_write\<close> to an address past its end reports OK without
  storing anything, while \<open>tls_fls_read\<close> refuses the same address.\<close>

theorem tls_fls_write_past_end_reports_ok:
  assumes "inner2flashsize s = 0" "FLASH_1M_END_ADDR \<le> addr"
  shows "tls_fls_write qo ops addr buf n s = Some (TLS_FLS_STATUS_OK, s) \<and>
    tls_fls_read qo ops addr dst n s = Some (TLS_FLS_STATUS_EINVAL, dst, s)"
  using assms by (simp add: tls_fls_write_def tls_fls_read_def part_2M_def)

theorem tls_fls_write_past_end_reports_ok_witness:
  "tls_fls_write nor_ctl chip_1M 0x08100010 (Some [1]) 1 board_1M = Some (TLS_FLS_STATUS_OK, board_1M) \<and>
    tls_fls_read nor_ctl chip_1M 0x08100010 (Some [0]) 1 board_1M = Some (TLS_FLS_STATUS_EINVAL, Some [0], board_1M)"
  by (rule tls_fls_write_past_end_reports_ok) (simp_all add: board_1M_def)

text \<open>On a board with two megabytes, a \<open>tls_fls_write\<close> inside the last sector of the first one that
  ends exactly at its end stores the bytes but reports EINVAL: the code goes on to the SPI flash with
  a length of zero.\<close>

theorem tls_fls_write_to_1M_end_reports_error:
  assumes "inner_nor qo qmem qwel 0x100000" "heap s = []" "inside_fls s = Some (Suc l)"
    and "inner1flashsize s = 0x100000" "inner2flashsize s \<noteq> 0" "flashtotalsize s = 0x200000"
    and "spi_fls s = Some f" "current_drv f \<noteq> None" "0 < n" "n \<le> 4096" "n \<le> length buf"
  shows "\<exists>s'. tls_fls_write qo ops (FLASH_1M_END_ADDR - n) (Some buf) n s = Some (TLS_FLS_STATUS_EINVAL, s') \<and>
    qmem (qf s') = mem_upd (qmem (qf s)) (0x100000 - n) (take n buf)"
proof -
  define addr where "addr = FLASH_1M_END_ADDR - n"
  define off where "off = 4096 - n"
  have off: "off < 4096" "4096 - off = n" "off + n = 4096" using assms(9,10) by (simp_all add: off_def)
  have addr: "addr = 0x8000000 + (255 * 4096 + off)" "addr + n = 0x08100000"
    using assms(10) by (simp_all add: addr_def off_def)
  have x: "255 * 4096 + off < 0x8000000" using off(1) by simp
  have a: "addr < 0x08100000" "addr mod 0x8000000 = 255 * 4096 + off" "len_1M addr n = n"
    using addr assms(9) x by (simp_all only: mod_add_self1 mod_less len_1M_def) simp_all
  have d: "(255 * 4096 + off) div 4096 = 255" "(255 * 4096 + off) mod 4096 = off"
    using off(1) div_mult_self3 [of 4096 255 off] by (simp, simp only: mod_mult_self3 mod_less)
  have part: "part_2M addr n n s = Some (0, 0)"
  proof -
    have "(134217728 :: nat) OR 2097152 = 136314880" by simp
    then show ?thesis using a(1) addr(2) assms(5,6,10) by (simp add: part_2M_def)
  qed
  let ?s = "s\<lparr>inside_fls := Some l\<rparr>"
  have pre: "heap ?s = []" "length (fresh 4096 ?s) = 4096" "255 * 4096 + off + n \<le> 0x100000"
    using assms(2,10) by (simp_all add: off_def)
  obtain m q where q: "fls_write_loop qo 255 off n (fresh 4096 ?s) buf n ?s = Some (drop (n - m) buf, m, ?s\<lparr>qf := q\<rparr>)"
      "qmem q = mem_upd (qmem (qf s)) (255 * 4096 + off) (take n buf)" "n \<le> 4096 - off \<longrightarrow> m = n"
    using inner_nor.inner_write_loop_ok [OF assms(1) pre(1,2) assms(9,11) off(1) pre(3) refl] off(2) by auto
  have m: "m = n" using q(3) off(2) by simp
  have "tls_spifls_write ops 0 (Some (drop n buf)) 0 (s\<lparr>qf := q\<rparr>) = Some (TLS_FLS_STATUS_EINVAL, s\<lparr>qf := q\<rparr>)"
    using assms(7,8) by (auto simp: tls_spifls_write_def)
  then have "tls_fls_write qo ops addr (Some buf) n s = Some (TLS_FLS_STATUS_EINVAL, s\<lparr>qf := q\<rparr>)"
    using q(1) a d m part off assms(2,3,4,9)
    by (simp add: tls_fls_write_def tls_fls_sem_unlock_def lock_restored [OF assms(3)])
  moreover have "255 * 4096 + off = 0x100000 - n" using assms(10) by (simp add: off_def)
  ultimately show ?thesis using q(2) by (auto simp: addr_def)
qed

theorem tls_fls_write_to_1M_end_reports_error_witness:
  "\<exists>s'. tls_fls_write nor_ctl chip_1M (FLASH_1M_END_ADDR - 3) (Some [1, 2, 3]) 3 board_2M = Some (TLS_FLS_STATUS_EINVAL, s') \<and>
    d_mem (qf s') = mem_upd (d_mem (qf board_2M)) (0x100000 - 3) (take 3 [1, 2, 3])"
  by (rule tls_fls_write_to_1M_end_reports_error [OF nor.inner_nor_axioms, where l = 0
        and f = "\<lparr>fls_drvs = [Exspi_fls], current_drv = Some Exspi_fls, fls_lock = 1\<rparr>"])
    (simp_all add: board_2M_def board_1M_def chip_board_ready_def)

end
