(* ===== verification/Flash_Layout.thy ===== *)
theory Flash_Layout
  imports Internal_Flash
begin

text \<open>
  The image header \<open>T_BOOTER\<close> of \<^verbatim>\<open>src/Include/Platform/wm_fwup.h\<close>, the flash map chosen by
  \<open>tls_fls_layout_init\<close> in \<^verbatim>\<open>src/Platform/Common/fwup/wm_fwup.c\<close> for the three kinds of boards, and
  the interface through which the parameter store and the firmware updater use the flash: a record of
  the driver functions they call, with the contract \<open>flash_client\<close>, which extends \<open>flash_store\<close> by the
  erasure of a sector and is met by the flash of a board.
\<close>

section \<open>The driver as its clients see it\<close>

record 'd fls_ops =
  fls_read :: "nat \<Rightarrow> bytes option \<Rightarrow> nat \<Rightarrow> 'd \<Rightarrow> (int \<times> bytes option \<times> 'd) option"
  fls_write :: "nat \<Rightarrow> bytes option \<Rightarrow> nat \<Rightarrow> 'd \<Rightarrow> (int \<times> 'd) option"
  fls_erase :: "nat \<Rightarrow> 'd \<Rightarrow> (int \<times> 'd) option"
  fls_total :: "'d \<Rightarrow> nat"

definition board_fls :: "'q qf_ops \<Rightarrow> 'b spi_ops \<Rightarrow> ('b, 'q, 'z) fls_state_scheme fls_ops" where
  "board_fls qo ops = \<lparr>fls_read = tls_fls_read qo ops, fls_write = tls_fls_write qo ops,
     fls_erase = tls_fls_erase qo ops, fls_total = flashtotalsize\<rparr>"

lemma board_fls_sel [simp]:
  "fls_read (board_fls qo ops) = tls_fls_read qo ops"
  "fls_write (board_fls qo ops) = tls_fls_write qo ops"
  "fls_erase (board_fls qo ops) = tls_fls_erase qo ops"
  "fls_total (board_fls qo ops) = flashtotalsize"
  by (simp_all add: board_fls_def)

locale flash_client = flash_store wf contents accessible "fls_read fo" "fls_write fo"
  for wf :: "'d \<Rightarrow> bool" and contents accessible and fo :: "'d fls_ops" +
  fixes fsize :: nat
  assumes erase_ok: "\<lbrakk>wf d; 0x8000 \<le> sec; (sec - 0x8000) * 4096 < fsize\<rbrakk> \<Longrightarrow>
      \<exists>d'. fls_erase fo sec d = Some (TLS_FLS_STATUS_OK, d') \<and> wf d' \<and>
        contents d' = nor_erase (contents d) (sec * 4096) 4096"
    and total_ok: "wf d \<Longrightarrow> fls_total fo d = fsize"
    and accessible_below: "\<lbrakk>FLASH_BASE_ADDR \<le> a; 0 < n; a + n < FLASH_1M_END_ADDR;
      a + n \<le> FLASH_BASE_ADDR + fsize\<rbrakk> \<Longrightarrow> accessible a n"
    and accessible_second: "\<lbrakk>FLASH_1M_END_ADDR \<le> a; 0 < n; a + n \<le> FLASH_BASE_ADDR + fsize; n \<le> 8160\<rbrakk> \<Longrightarrow>
      accessible a n"

sublocale flash_board \<subseteq> fc: flash_client "fls_ready busy isize isize2" "fls_contents qmem cmem"
  "fls_accessible isize isize2" "board_fls qo ops" "isize + isize2"
proof (rule flash_client.intro)
  show "flash_store (fls_ready busy isize isize2) (fls_contents qmem cmem) (fls_accessible isize isize2)
      (fls_read (board_fls qo ops)) (fls_write (board_fls qo ops))"
    unfolding board_fls_sel by (rule board_store)
  show "flash_client_axioms (fls_ready busy isize isize2) (fls_contents qmem cmem) (fls_accessible isize isize2)
      (board_fls qo ops) (isize + isize2)"
  proof
    fix d :: "('b, 'q, 'z) fls_state_scheme" and sec :: nat
    assume d: "fls_ready busy isize isize2 d" and sec: "0x8000 \<le> sec" "(sec - 0x8000) * 4096 < isize + isize2"
    define sp where "sp = sec - 0x8000"
    have sp: "sec = 0x8000 + sp" "sec * 4096 = 0x8000000 + sp * 4096" "sp * 4096 < flashtotalsize d"
      using sec d by (simp_all add: sp_def fls_ready_def)
    then show "\<exists>d'. fls_erase (board_fls qo ops) sec d = Some (TLS_FLS_STATUS_OK, d') \<and>
        fls_ready busy isize isize2 d' \<and>
        fls_contents qmem cmem d' = nor_erase (fls_contents qmem cmem d) (sec * 4096) 4096"
      using board_erase_ok [OF d sp(3)] by (auto simp only: board_fls_sel)
  qed (use isize2 isize(3) in \<open>auto simp: fls_ready_def fls_accessible_def\<close>)
qed

context flash_board
begin

lemma board_client: "flash_client (fls_ready busy isize isize2) (fls_contents qmem cmem)
    (fls_accessible isize isize2) (board_fls qo ops) (isize + isize2)"
  by (rule fc.flash_client_axioms)

end

section \<open>The image header\<close>

text \<open>
  \<open>T_BOOTER\<close> is kept as the 56 bytes the code reads and writes: \<open>magic_no\<close> at 0, \<open>img_type\<close> at 4,
  \<open>zip_type\<close> at 6, \<open>run_img_addr\<close> at 8, \<open>run_img_len\<close> at 12, \<open>run_org_checksum\<close> at 16,
  \<open>upd_img_addr\<close> at 20, \<open>upd_img_len\<close> at 24, \<open>upd_checksum\<close> at 28, \<open>upd_no\<close> at 32, \<open>ver\<close> at 36
  and \<open>hd_checksum\<close> at 52.
\<close>

abbreviation (input) BOOTER_SIZE :: nat where "BOOTER_SIZE \<equiv> 56"

definition get_u32 :: "nat \<Rightarrow> bytes \<Rightarrow> u32" where "get_u32 off b = of_le32 (slice off 4 b)"
definition get_u16 :: "nat \<Rightarrow> bytes \<Rightarrow> u16" where "get_u16 off b = of_le16 (slice off 2 b)"

definition magic_no :: "bytes \<Rightarrow> u32" where "magic_no b = get_u32 0 b"
definition img_type :: "bytes \<Rightarrow> u16" where "img_type b = get_u16 4 b"
definition zip_type :: "bytes \<Rightarrow> u16" where "zip_type b = get_u16 6 b"
definition run_img_addr :: "bytes \<Rightarrow> u32" where "run_img_addr b = get_u32 8 b"
definition run_img_len :: "bytes \<Rightarrow> u32" where "run_img_len b = get_u32 12 b"
definition run_org_checksum :: "bytes \<Rightarrow> u32" where "run_org_checksum b = get_u32 16 b"
definition upd_img_addr :: "bytes \<Rightarrow> u32" where "upd_img_addr b = get_u32 20 b"
definition upd_img_len :: "bytes \<Rightarrow> u32" where "upd_img_len b = get_u32 24 b"
definition upd_checksum :: "bytes \<Rightarrow> u32" where "upd_checksum b = get_u32 28 b"
definition upd_no :: "bytes \<Rightarrow> u32" where "upd_no b = get_u32 32 b"
definition hd_checksum :: "bytes \<Rightarrow> u32" where "hd_checksum b = get_u32 52 b"

abbreviation (input) IMG_TYPE_OLD_PLAIN :: u16 where "IMG_TYPE_OLD_PLAIN \<equiv> 0"
abbreviation (input) IMG_TYPE_NEW_PLAIN :: u16 where "IMG_TYPE_NEW_PLAIN \<equiv> 3"
abbreviation (input) SIGNATURE_WORD :: u32 where "SIGNATURE_WORD \<equiv> 0xa0ffff9f"

section \<open>The flash map\<close>

abbreviation (input) CODE_RUN_HEADER_ADDR :: nat where "CODE_RUN_HEADER_ADDR \<equiv> 0x08010000"
abbreviation (input) CODE_RUN_HEADER_AREA_LEN :: nat where "CODE_RUN_HEADER_AREA_LEN \<equiv> 0x100"
abbreviation (input) CODE_RUN_START_ADDR :: nat where "CODE_RUN_START_ADDR \<equiv> 0x08010100"

record layout =
  CODE_RUN_AREA_LEN :: nat
  USER_ADDR_START :: nat
  TLS_FLASH_PARAM_DEFAULT :: nat
  USER_AREA_LEN :: nat
  USER_ADDR_END :: nat
  CODE_UPD_HEADER_ADDR :: nat
  TLS_FLASH_PARAM1_ADDR :: nat
  TLS_FLASH_PARAM2_ADDR :: nat
  TLS_FLASH_PARAM_RESTORE_ADDR :: nat
  CODE_UPD_START_ADDR :: nat
  CODE_UPD_AREA_LEN :: nat
  EX_USER_ADDR_START :: nat
  EX_USER_AREA_LEN :: nat
  EX_USER_ADDR_END :: nat
  TLS_FLASH_END_ADDR :: nat

definition layout_2M_old :: layout where
  "layout_2M_old =
     (let run = 896 * 1024 - 256;
          user = CODE_RUN_START_ADDR + run;
          ulen = 48 * 1024;
          hdr = user + ulen;
          p1 = hdr + 0x1000;
          p2 = p1 + 0x1000;
          restore = p2 + 0x1000;
          upd = restore + 0x1000;
          updlen = 704 * 1024;
          ex = upd + updlen;
          exlen = 320 * 1024;
          exend = ex + exlen - 1
      in \<lparr>CODE_RUN_AREA_LEN = run, USER_ADDR_START = user, TLS_FLASH_PARAM_DEFAULT = user, USER_AREA_LEN = ulen,
          USER_ADDR_END = user + ulen - 1, CODE_UPD_HEADER_ADDR = hdr, TLS_FLASH_PARAM1_ADDR = p1,
          TLS_FLASH_PARAM2_ADDR = p2, TLS_FLASH_PARAM_RESTORE_ADDR = restore, CODE_UPD_START_ADDR = upd,
          CODE_UPD_AREA_LEN = updlen, EX_USER_ADDR_START = ex, EX_USER_AREA_LEN = exlen,
          EX_USER_ADDR_END = exend, TLS_FLASH_END_ADDR = exend\<rparr>)"

text \<open>The two branches without an extra user area differ in the lengths only.\<close>

definition layout_2M_new :: layout where
  "layout_2M_new =
     (let run = 960 * 1024 - 256;
          upd = CODE_RUN_START_ADDR + run;
          updlen = 768 * 1024;
          user = upd + updlen;
          ulen = 240 * 1024;
          hdr = user + ulen;
          p1 = hdr + 0x1000;
          p2 = p1 + 0x1000;
          restore = p2 + 0x1000
      in \<lparr>CODE_RUN_AREA_LEN = run, USER_ADDR_START = user, TLS_FLASH_PARAM_DEFAULT = user, USER_AREA_LEN = ulen,
          USER_ADDR_END = user + ulen - 1, CODE_UPD_HEADER_ADDR = hdr, TLS_FLASH_PARAM1_ADDR = p1,
          TLS_FLASH_PARAM2_ADDR = p2, TLS_FLASH_PARAM_RESTORE_ADDR = restore, CODE_UPD_START_ADDR = upd,
          CODE_UPD_AREA_LEN = updlen, EX_USER_ADDR_START = 0, EX_USER_AREA_LEN = 0,
          EX_USER_ADDR_END = 0, TLS_FLASH_END_ADDR = restore + 0x1000 - 1\<rparr>)"

definition layout_1M :: layout where
  "layout_1M =
     (let run = 512 * 1024 - 256;
          upd = CODE_RUN_START_ADDR + run;
          updlen = 384 * 1024;
          user = upd + updlen;
          ulen = 48 * 1024;
          hdr = user + ulen;
          p1 = hdr + 0x1000;
          p2 = p1 + 0x1000;
          restore = p2 + 0x1000
      in \<lparr>CODE_RUN_AREA_LEN = run, USER_ADDR_START = user, TLS_FLASH_PARAM_DEFAULT = user, USER_AREA_LEN = ulen,
          USER_ADDR_END = user + ulen - 1, CODE_UPD_HEADER_ADDR = hdr, TLS_FLASH_PARAM1_ADDR = p1,
          TLS_FLASH_PARAM2_ADDR = p2, TLS_FLASH_PARAM_RESTORE_ADDR = restore, CODE_UPD_START_ADDR = upd,
          CODE_UPD_AREA_LEN = updlen, EX_USER_ADDR_START = 0, EX_USER_AREA_LEN = 0,
          EX_USER_ADDR_END = 0, TLS_FLASH_END_ADDR = restore + 0x1000 - 1\<rparr>)"

text \<open>The status of the read is ignored: when it fails, \<open>tb\<close>, what the stack held, decides.\<close>

definition tls_fls_layout_init :: "'d fls_ops \<Rightarrow> bytes \<Rightarrow> 'd \<Rightarrow> (layout \<times> 'd) option" where
  "tls_fls_layout_init fo tb d = do {
     (_, tbooter, d) \<leftarrow> fls_read fo CODE_RUN_HEADER_ADDR (Some tb) BOOTER_SIZE d;
     tbooter \<leftarrow> tbooter;
     Some (if fls_total fo d = 0x200000
           then if IMG_TYPE_OLD_PLAIN = img_type tbooter then layout_2M_old else layout_2M_new
           else layout_1M, d)
   }"

lemmas layout_defs = layout_1M_def layout_2M_old_def layout_2M_new_def

section \<open>The regions of a map\<close>

text \<open>The areas of a map as start and length, and what it means that they tile a stretch of flash.\<close>

definition layout_regions :: "layout \<Rightarrow> (nat \<times> nat) list" where
  "layout_regions l =
     [(CODE_RUN_HEADER_ADDR, CODE_RUN_HEADER_AREA_LEN), (CODE_RUN_START_ADDR, CODE_RUN_AREA_LEN l),
      (USER_ADDR_START l, USER_AREA_LEN l), (CODE_UPD_HEADER_ADDR l, 0x1000), (TLS_FLASH_PARAM1_ADDR l, 0x1000),
      (TLS_FLASH_PARAM2_ADDR l, 0x1000), (TLS_FLASH_PARAM_RESTORE_ADDR l, 0x1000),
      (CODE_UPD_START_ADDR l, CODE_UPD_AREA_LEN l), (EX_USER_ADDR_START l, EX_USER_AREA_LEN l)]"

fun tiles :: "nat \<Rightarrow> (nat \<times> nat) list \<Rightarrow> nat \<Rightarrow> bool" where
  "tiles a [] b \<longleftrightarrow> a = b"
| "tiles a ((s, n) # rs) b \<longleftrightarrow> s = a \<and> 0 < n \<and> tiles (a + n) rs b"

lemma tiles_le: "tiles a rs b \<Longrightarrow> a \<le> b"
  by (induction a rs b rule: tiles.induct) auto

lemma tiles_disjoint:
  "tiles a rs b \<Longrightarrow> sorted_wrt (\<lambda>(s, n) (t, k). s + n \<le> t) rs \<and> (\<forall>(s, n) \<in> set rs. a \<le> s \<and> s + n \<le> b)"
  by (induction a rs b rule: tiles.induct) (auto dest: tiles_le)

definition layout_areas :: "layout \<Rightarrow> (nat \<times> nat) list" where
  "layout_areas l = sort_key fst (filter (\<lambda>(s, n). n \<noteq> 0) (layout_regions l))"

definition layout_tiled :: "nat \<Rightarrow> layout \<Rightarrow> bool" where
  "layout_tiled fsize l \<longleftrightarrow>
     tiles CODE_RUN_HEADER_ADDR (layout_areas l) (TLS_FLASH_END_ADDR l + 1) \<and>
     TLS_FLASH_END_ADDR l + 1 = FLASH_BASE_ADDR + fsize \<and>
     (\<forall>(s, n) \<in> set (tl (tl (layout_regions l))). 4096 dvd s \<and> 4096 dvd n) \<and>
     USER_ADDR_END l + 1 = USER_ADDR_START l + USER_AREA_LEN l"

lemma layouts_tiled [simp]:
  "layout_tiled 0x100000 layout_1M" "layout_tiled 0x200000 layout_2M_old" "layout_tiled 0x200000 layout_2M_new"
  by (simp_all add: layout_tiled_def layout_areas_def layout_regions_def layout_defs)

lemma layout_sorted: "layout_tiled n l \<Longrightarrow> sorted_wrt (\<lambda>(s, n) (t, k). s + n \<le> t) (layout_areas l)"
  using tiles_disjoint by (auto simp: layout_tiled_def)

text \<open>The flash map of a board with a megabyte of internal flash and \<open>isize2\<close> bytes of SPI flash.\<close>

definition map_for :: "nat \<Rightarrow> layout \<Rightarrow> bool" where
  "map_for isize2 l \<longleftrightarrow> (if isize2 = 0 then l = layout_1M else l = layout_2M_old \<or> l = layout_2M_new)"

context flash_client
begin

lemma layout_init_ok:
  assumes "wf d" "length tb = BOOTER_SIZE" "fsize = 0x100000 \<or> fsize = 0x200000"
  shows "\<exists>d'. tls_fls_layout_init fo tb d =
      Some (if fsize = 0x100000 then layout_1M
            else if img_type (mem_get (contents d) CODE_RUN_HEADER_ADDR BOOTER_SIZE) = IMG_TYPE_OLD_PLAIN
            then layout_2M_old else layout_2M_new, d') \<and>
    wf d' \<and> contents d' = contents d"
proof -
  have "accessible CODE_RUN_HEADER_ADDR BOOTER_SIZE" using assms(3) by (intro accessible_below) auto
  then obtain d' where "fls_read fo CODE_RUN_HEADER_ADDR (Some tb) BOOTER_SIZE d = Some (TLS_FLS_STATUS_OK,
        Some (patch tb 0 (mem_get (contents d) CODE_RUN_HEADER_ADDR BOOTER_SIZE)), d')" "wf d'" "contents d' = contents d"
    using assms(1,2) rdE [of d CODE_RUN_HEADER_ADDR BOOTER_SIZE tb] by auto
  then show ?thesis
    using assms(2,3) total_ok [of d'] by (auto simp: tls_fls_layout_init_def patch_all)
qed

end

text \<open>C18: on a board with one or two megabytes of flash, \<open>tls_fls_layout_init\<close> returns without changing
  the flash, and the map it chooses tiles the flash from the run-time image header to its last byte:
  header, code, update image, user areas, update header and the three parameter sectors are disjoint,
  adjacent, non-empty where they exist and, but for the code header, aligned to sectors.\<close>

theorem tls_fls_layout_init_tiles:
  assumes "flash_board qo qmem qwel isize ops cmem wel busy isize2" "fls_ready busy isize isize2 d"
    and "isize = 0x100000" "length tb = BOOTER_SIZE"
  shows "\<exists>l d'. tls_fls_layout_init (board_fls qo ops) tb d = Some (l, d') \<and>
    layout_tiled (flashtotalsize d) l \<and> sorted_wrt (\<lambda>(s, n) (t, k). s + n \<le> t) (layout_areas l) \<and>
    fls_contents qmem cmem d' = fls_contents qmem cmem d"
proof -
  have sz: "isize + isize2 = flashtotalsize d" using assms(2) by (simp add: fls_ready_def)
  moreover have "isize2 = 0 \<or> isize2 = 0x100000" using flash_board.isize2 [OF assms(1)] by auto
  ultimately have "flashtotalsize d = 0x100000 \<or> flashtotalsize d = 0x200000" using assms(3) by auto
  then show ?thesis
    using flash_client.layout_init_ok [OF flash_board.board_client [OF assms(1)] assms(2,4)] sz
    by (auto intro: layouts_tiled [THEN layout_sorted])
qed

theorem tls_fls_layout_init_tiles_witness:
  "\<exists>l d'. tls_fls_layout_init (board_fls nor_ctl chip_1M) (replicate BOOTER_SIZE 0) board_2M = Some (l, d') \<and>
    layout_tiled (flashtotalsize board_2M) l \<and> sorted_wrt (\<lambda>(s, n) (t, k). s + n \<le> t) (layout_areas l) \<and>
    fls_contents d_mem c_mem d' = fls_contents d_mem c_mem board_2M"
  by (rule tls_fls_layout_init_tiles [OF board2.flash_board_axioms board_2M_ready]) simp_all

end
