(* ===== verification/Param.thy ===== *)
theory Param
  imports Crc Flash_Layout
begin

text \<open>
  The parameter store of \<^verbatim>\<open>src/Platform/Common/Params/wm_param.c\<close>: the two copies of the system
  parameters in RAM, their two partitions in flash, and the functions that read, change, save, restore
  and initialise them. \<open>struct tls_sys_param\<close> and \<open>struct tls_param_flash\<close> are kept as the bytes the
  code copies around, checks with a CRC and writes to the flash; the offsets of their members are
  computed from the declarations in \<^verbatim>\<open>src/Platform/Common/Params/wm_param.h\<close> and
  \<^verbatim>\<open>src/Include/Platform/wm_params.h\<close> by the alignment rules of the target. The flash driver is the
  record \<open>fls_ops\<close> of \<open>Flash_Layout\<close> over a device state of any type. The model is of the
  configuration of the repository: \<open>TLS_CONFIG_AP\<close> and \<open>TLS_CONFIG_11N\<close> on, \<open>TLS_CONFIG_WPS\<close> off.
\<close>

section \<open>The structures\<close>

text \<open>The members of \<open>struct tls_sys_param\<close>, numbered in the order of the declaration, and their sizes
  and alignments.\<close>

abbreviation (input) M_hardware_version :: nat where "M_hardware_version \<equiv> 0"
abbreviation (input) M_bssid :: nat where "M_bssid \<equiv> 1"
abbreviation (input) M_ssid :: nat where "M_ssid \<equiv> 2"
abbreviation (input) M_channel_enable :: nat where "M_channel_enable \<equiv> 3"
abbreviation (input) M_channel :: nat where "M_channel \<equiv> 4"
abbreviation (input) M_wireless_region :: nat where "M_wireless_region \<equiv> 5"
abbreviation (input) M_encry :: nat where "M_encry \<equiv> 6"
abbreviation (input) M_wireless_protocol :: nat where "M_wireless_protocol \<equiv> 7"
abbreviation (input) M_auto_create_adhoc :: nat where "M_auto_create_adhoc \<equiv> 8"
abbreviation (input) M_auto_retrycnt :: nat where "M_auto_retrycnt \<equiv> 9"
abbreviation (input) M_auto_roam :: nat where "M_auto_roam \<equiv> 10"
abbreviation (input) M_auto_powersave :: nat where "M_auto_powersave \<equiv> 11"
abbreviation (input) M_ssid_broadcast_enable :: nat where "M_ssid_broadcast_enable \<equiv> 12"
abbreviation (input) M_channellist :: nat where "M_channellist \<equiv> 13"
abbreviation (input) M_key :: nat where "M_key \<equiv> 14"
abbreviation (input) M_wbgr :: nat where "M_wbgr \<equiv> 15"
abbreviation (input) M_wps :: nat where "M_wps \<equiv> 16"
abbreviation (input) M_ipcfg :: nat where "M_ipcfg \<equiv> 17"
abbreviation (input) M_local_dnsname :: nat where "M_local_dnsname \<equiv> 18"
abbreviation (input) M_local_device_name :: nat where "M_local_device_name \<equiv> 19"
abbreviation (input) M_oray_client_setting :: nat where "M_oray_client_setting \<equiv> 20"
abbreviation (input) M_upnp_enable :: nat where "M_upnp_enable \<equiv> 21"
abbreviation (input) M_always_online :: nat where "M_always_online \<equiv> 22"
abbreviation (input) M_user_port_mode :: nat where "M_user_port_mode \<equiv> 23"
abbreviation (input) M_res_2 :: nat where "M_res_2 \<equiv> 24"
abbreviation (input) M_uart_cfg :: nat where "M_uart_cfg \<equiv> 25"
abbreviation (input) M_auto_mode :: nat where "M_auto_mode \<equiv> 26"
abbreviation (input) M_res_3 :: nat where "M_res_3 \<equiv> 27"
abbreviation (input) M_transparent_trigger_length :: nat where "M_transparent_trigger_length \<equiv> 28"
abbreviation (input) M_transparent_trigger_period :: nat where "M_transparent_trigger_period \<equiv> 29"
abbreviation (input) M_remote_socket_cfg :: nat where "M_remote_socket_cfg \<equiv> 30"
abbreviation (input) M_debug_mode :: nat where "M_debug_mode \<equiv> 31"
abbreviation (input) M_res_4 :: nat where "M_res_4 \<equiv> 32"
abbreviation (input) M_EscapeChar :: nat where "M_EscapeChar \<equiv> 33"
abbreviation (input) M_EscReserved :: nat where "M_EscReserved \<equiv> 34"
abbreviation (input) M_EscapePeriod :: nat where "M_EscapePeriod \<equiv> 35"
abbreviation (input) M_IoMode :: nat where "M_IoMode \<equiv> 36"
abbreviation (input) M_CmdMode :: nat where "M_CmdMode \<equiv> 37"
abbreviation (input) M_PassWord :: nat where "M_PassWord \<equiv> 38"
abbreviation (input) M_WebsCfg :: nat where "M_WebsCfg \<equiv> 39"
abbreviation (input) M_oneshotflag :: nat where "M_oneshotflag \<equiv> 40"
abbreviation (input) M_oneshotres :: nat where "M_oneshotres \<equiv> 41"
abbreviation (input) M_psk :: nat where "M_psk \<equiv> 42"
abbreviation (input) M_original_key :: nat where "M_original_key \<equiv> 43"
abbreviation (input) M_original_ssid :: nat where "M_original_ssid \<equiv> 44"
abbreviation (input) M_auto_reconnect :: nat where "M_auto_reconnect \<equiv> 45"
abbreviation (input) M_res_5 :: nat where "M_res_5 \<equiv> 46"
abbreviation (input) M_quick_connect :: nat where "M_quick_connect \<equiv> 47"
abbreviation (input) M_key_changed :: nat where "M_key_changed \<equiv> 48"
abbreviation (input) M_ssid_changed :: nat where "M_ssid_changed \<equiv> 49"
abbreviation (input) M_apsta_ssid :: nat where "M_apsta_ssid \<equiv> 50"
abbreviation (input) M_apsta_psk :: nat where "M_apsta_psk \<equiv> 51"
abbreviation (input) M_res_6 :: nat where "M_res_6 \<equiv> 52"
abbreviation (input) M_channel4softap :: nat where "M_channel4softap \<equiv> 53"
abbreviation (input) M_encry4softap :: nat where "M_encry4softap \<equiv> 54"
abbreviation (input) M_key4softap :: nat where "M_key4softap \<equiv> 55"
abbreviation (input) M_ipcfg4softap :: nat where "M_ipcfg4softap \<equiv> 56"
abbreviation (input) M_wbgr4softap :: nat where "M_wbgr4softap \<equiv> 57"
abbreviation (input) M_sntp_service1 :: nat where "M_sntp_service1 \<equiv> 58"
abbreviation (input) M_sntp_service2 :: nat where "M_sntp_service2 \<equiv> 59"
abbreviation (input) M_sntp_service3 :: nat where "M_sntp_service3 \<equiv> 60"
abbreviation (input) M_params_tem :: nat where "M_params_tem \<equiv> 61"

definition sys_members :: "(nat \<times> nat) list" where
  "sys_members =
    [(8, 1), (8, 1), (36, 4), (1, 1), (1, 1), (1, 1), (1, 1), (1, 1), (1, 1), (1, 1), (1, 1),
     (1, 1), (1, 1), (2, 2), (68, 1), (4, 1), (12, 1), (24, 1), (32, 1), (32, 1), (68, 4), (1, 1),
     (1, 1), (1, 1), (1, 1), (8, 4), (1, 1), (1, 1), (2, 2), (2, 2), (36, 2), (4, 4), (8, 4),
     (1, 1), (1, 1), (2, 2), (1, 1), (1, 1), (6, 1), (4, 2), (1, 1), (2, 1), (33, 1), (68, 4),
     (36, 4), (1, 1), (3, 1), (2, 1), (1, 1), (1, 1), (36, 4), (33, 1), (1, 1), (1, 1), (1, 1),
     (68, 1), (24, 1), (4, 1), (32, 1), (32, 1), (32, 1), (8, 4)]"

text \<open>Every member is placed at the next multiple of its alignment: offset and size.\<close>

definition align_up :: "nat \<Rightarrow> nat \<Rightarrow> nat" where
  "align_up off align = (off + align - 1) div align * align"

fun struct_layout :: "nat \<Rightarrow> (nat \<times> nat) list \<Rightarrow> (nat \<times> nat) list" where
  "struct_layout off [] = []"
| "struct_layout off ((n, align) # ms) =
     (align_up off align, n) # struct_layout (align_up off align + n) ms"

definition sys_layout :: "(nat \<times> nat) list" where
  "sys_layout = struct_layout 0 sys_members"

definition offset_of :: "nat \<Rightarrow> nat" where
  "offset_of m = fst (sys_layout ! m)"

definition size_of :: "nat \<Rightarrow> nat" where
  "size_of m = snd (sys_layout ! m)"

abbreviation (input) SYS_SIZE :: nat where "SYS_SIZE \<equiv> 808"
abbreviation (input) FLASH_PARAM_SIZE :: nat where "FLASH_PARAM_SIZE \<equiv> 828"

text \<open>\<open>struct tls_param_flash\<close>: \<open>magic\<close> at 0, \<open>partition_num\<close> at 4, \<open>modify_count\<close> at 6, \<open>resv_1\<close> at 8,
  \<open>resv_2\<close> at 12, \<open>length\<close> at 14, \<open>parameters\<close> at 16 and \<open>crc32\<close> at 824.\<close>

definition fp_magic :: "bytes \<Rightarrow> u32" where "fp_magic fp = get_u32 0 fp"
definition fp_partition_num :: "bytes \<Rightarrow> u16" where "fp_partition_num fp = get_u16 4 fp"
definition fp_modify_count :: "bytes \<Rightarrow> u16" where "fp_modify_count fp = get_u16 6 fp"
definition fp_length :: "bytes \<Rightarrow> u16" where "fp_length fp = get_u16 14 fp"
definition fp_parameters :: "bytes \<Rightarrow> bytes" where "fp_parameters fp = slice 16 SYS_SIZE fp"

record 'd param_state = os_state +
  pdev :: 'd
  flash_param :: bytes
  sram_param :: bytes
  user_default_param :: bytes
  sys_param_lock :: "nat option"
  updp_mode :: u8

section \<open>Constants\<close>

abbreviation (input) TLS_PARAM_STATUS_OK :: int where "TLS_PARAM_STATUS_OK \<equiv> 0"
abbreviation (input) TLS_PARAM_STATUS_EINVALID :: int where "TLS_PARAM_STATUS_EINVALID \<equiv> 1"
abbreviation (input) TLS_PARAM_STATUS_EMEM :: int where "TLS_PARAM_STATUS_EMEM \<equiv> 2"
abbreviation (input) TLS_PARAM_STATUS_EIO :: int where "TLS_PARAM_STATUS_EIO \<equiv> 3"
abbreviation (input) TLS_PARAM_STATUS_EPERM :: int where "TLS_PARAM_STATUS_EPERM \<equiv> 4"
abbreviation (input) TLS_PARAM_STATUS_EINVALIDID :: int where "TLS_PARAM_STATUS_EINVALIDID \<equiv> 5"
abbreviation (input) TLS_PARAM_MAGIC :: u32 where "TLS_PARAM_MAGIC \<equiv> 0x4947414d"
abbreviation (input) TLS_USER_MAGIC :: u32 where "TLS_USER_MAGIC \<equiv> 0x574D3031"
abbreviation (input) TLS_PARAM_PARTITION_NUM :: nat where "TLS_PARAM_PARTITION_NUM \<equiv> 2"

abbreviation (input) TLS_PARAM_ID_ALL :: int where "TLS_PARAM_ID_ALL \<equiv> - 1"
abbreviation (input) TLS_PARAM_ID_SSID :: int where "TLS_PARAM_ID_SSID \<equiv> 0"
abbreviation (input) TLS_PARAM_ID_ENCRY :: int where "TLS_PARAM_ID_ENCRY \<equiv> 1"
abbreviation (input) TLS_PARAM_ID_KEY :: int where "TLS_PARAM_ID_KEY \<equiv> 2"
abbreviation (input) TLS_PARAM_ID_IP :: int where "TLS_PARAM_ID_IP \<equiv> 3"
abbreviation (input) TLS_PARAM_ID_AUTOMODE :: int where "TLS_PARAM_ID_AUTOMODE \<equiv> 4"
abbreviation (input) TLS_PARAM_ID_DEFSOCKET :: int where "TLS_PARAM_ID_DEFSOCKET \<equiv> 5"
abbreviation (input) TLS_PARAM_ID_BSSID :: int where "TLS_PARAM_ID_BSSID \<equiv> 6"
abbreviation (input) TLS_PARAM_ID_CHANNEL :: int where "TLS_PARAM_ID_CHANNEL \<equiv> 7"
abbreviation (input) TLS_PARAM_ID_CHANNEL_EN :: int where "TLS_PARAM_ID_CHANNEL_EN \<equiv> 8"
abbreviation (input) TLS_PARAM_ID_COUNTRY_REGION :: int where "TLS_PARAM_ID_COUNTRY_REGION \<equiv> 9"
abbreviation (input) TLS_PARAM_ID_WPROTOCOL :: int where "TLS_PARAM_ID_WPROTOCOL \<equiv> 10"
abbreviation (input) TLS_PARAM_ID_ADHOC_AUTOCREATE :: int where "TLS_PARAM_ID_ADHOC_AUTOCREATE \<equiv> 11"
abbreviation (input) TLS_PARAM_ID_ROAMING :: int where "TLS_PARAM_ID_ROAMING \<equiv> 12"
abbreviation (input) TLS_PARAM_ID_AUTO_RETRY_CNT :: int where "TLS_PARAM_ID_AUTO_RETRY_CNT \<equiv> 13"
abbreviation (input) TLS_PARAM_ID_WBGR :: int where "TLS_PARAM_ID_WBGR \<equiv> 14"
abbreviation (input) TLS_PARAM_ID_USRINTF :: int where "TLS_PARAM_ID_USRINTF \<equiv> 15"
abbreviation (input) TLS_PARAM_ID_AUTO_TRIGGER_LENGTH :: int where "TLS_PARAM_ID_AUTO_TRIGGER_LENGTH \<equiv> 16"
abbreviation (input) TLS_PARAM_ID_DEBUG_MODE :: int where "TLS_PARAM_ID_DEBUG_MODE \<equiv> 17"
abbreviation (input) TLS_PARAM_ID_HARDVERSION :: int where "TLS_PARAM_ID_HARDVERSION \<equiv> 18"
abbreviation (input) TLS_PARAM_ID_BRDSSID :: int where "TLS_PARAM_ID_BRDSSID \<equiv> 19"
abbreviation (input) TLS_PARAM_ID_DNSNAME :: int where "TLS_PARAM_ID_DNSNAME \<equiv> 20"
abbreviation (input) TLS_PARAM_ID_DEVNAME :: int where "TLS_PARAM_ID_DEVNAME \<equiv> 21"
abbreviation (input) TLS_PARAM_ID_PSM :: int where "TLS_PARAM_ID_PSM \<equiv> 22"
abbreviation (input) TLS_PARAM_ID_ORAY_CLIENT :: int where "TLS_PARAM_ID_ORAY_CLIENT \<equiv> 23"
abbreviation (input) TLS_PARAM_ID_UPNP :: int where "TLS_PARAM_ID_UPNP \<equiv> 24"
abbreviation (input) TLS_PARAM_ID_UART :: int where "TLS_PARAM_ID_UART \<equiv> 26"
abbreviation (input) TLS_PARAM_ID_WPS :: int where "TLS_PARAM_ID_WPS \<equiv> 27"
abbreviation (input) TLS_PARAM_ID_AUTO_TRIGGER_PERIOD :: int where "TLS_PARAM_ID_AUTO_TRIGGER_PERIOD \<equiv> 28"
abbreviation (input) TLS_PARAM_ID_ESCAPE_CHAR :: int where "TLS_PARAM_ID_ESCAPE_CHAR \<equiv> 29"
abbreviation (input) TLS_PARAM_ID_ESCAPE_PERIOD :: int where "TLS_PARAM_ID_ESCAPE_PERIOD \<equiv> 30"
abbreviation (input) TLS_PARAM_ID_IO_MODE :: int where "TLS_PARAM_ID_IO_MODE \<equiv> 31"
abbreviation (input) TLS_PARAM_ID_CMD_MODE :: int where "TLS_PARAM_ID_CMD_MODE \<equiv> 32"
abbreviation (input) TLS_PARAM_ID_PASSWORD :: int where "TLS_PARAM_ID_PASSWORD \<equiv> 33"
abbreviation (input) TLS_PARAM_ID_CHANNEL_LIST :: int where "TLS_PARAM_ID_CHANNEL_LIST \<equiv> 34"
abbreviation (input) TLS_PARAM_ID_WEBS_CONFIG :: int where "TLS_PARAM_ID_WEBS_CONFIG \<equiv> 35"
abbreviation (input) TLS_PARAM_ID_ONESHOT_CFG :: int where "TLS_PARAM_ID_ONESHOT_CFG \<equiv> 36"
abbreviation (input) TLS_PARAM_ID_SHA1 :: int where "TLS_PARAM_ID_SHA1 \<equiv> 37"
abbreviation (input) TLS_PARAM_ID_ORIGIN_KEY :: int where "TLS_PARAM_ID_ORIGIN_KEY \<equiv> 38"
abbreviation (input) TLS_PARAM_ID_ORIGIN_SSID :: int where "TLS_PARAM_ID_ORIGIN_SSID \<equiv> 39"
abbreviation (input) TLS_PARAM_ID_AUTO_RECONNECT :: int where "TLS_PARAM_ID_AUTO_RECONNECT \<equiv> 40"
abbreviation (input) TLS_PARAM_ID_QUICK_CONNECT :: int where "TLS_PARAM_ID_QUICK_CONNECT \<equiv> 41"
abbreviation (input) TLS_PARAM_ID_KEY_CHANGE :: int where "TLS_PARAM_ID_KEY_CHANGE \<equiv> 42"
abbreviation (input) TLS_PARAM_ID_SSID_CHANGE :: int where "TLS_PARAM_ID_SSID_CHANGE \<equiv> 43"
abbreviation (input) TLS_PARAM_ID_SOFTAP_SSID :: int where "TLS_PARAM_ID_SOFTAP_SSID \<equiv> 44"
abbreviation (input) TLS_PARAM_ID_SOFTAP_PSK :: int where "TLS_PARAM_ID_SOFTAP_PSK \<equiv> 45"
abbreviation (input) TLS_PARAM_ID_SOFTAP_ENCRY :: int where "TLS_PARAM_ID_SOFTAP_ENCRY \<equiv> 46"
abbreviation (input) TLS_PARAM_ID_SOFTAP_KEY :: int where "TLS_PARAM_ID_SOFTAP_KEY \<equiv> 47"
abbreviation (input) TLS_PARAM_ID_SOFTAP_IP :: int where "TLS_PARAM_ID_SOFTAP_IP \<equiv> 48"
abbreviation (input) TLS_PARAM_ID_SOFTAP_CHANNEL :: int where "TLS_PARAM_ID_SOFTAP_CHANNEL \<equiv> 49"
abbreviation (input) TLS_PARAM_ID_SOFTAP_WBGR :: int where "TLS_PARAM_ID_SOFTAP_WBGR \<equiv> 50"
abbreviation (input) TLS_PARAM_ID_SNTP_SERVER1 :: int where "TLS_PARAM_ID_SNTP_SERVER1 \<equiv> 51"
abbreviation (input) TLS_PARAM_ID_SNTP_SERVER2 :: int where "TLS_PARAM_ID_SNTP_SERVER2 \<equiv> 52"
abbreviation (input) TLS_PARAM_ID_SNTP_SERVER3 :: int where "TLS_PARAM_ID_SNTP_SERVER3 \<equiv> 53"
abbreviation (input) TLS_PARAM_ID_TEM_OFFSET :: int where "TLS_PARAM_ID_TEM_OFFSET \<equiv> 54"
abbreviation (input) TLS_PARAM_ID_MAX :: int where "TLS_PARAM_ID_MAX \<equiv> 55"

section \<open>Copies\<close>

text \<open>\<open>memcpy\<close> of \<open>n\<close> bytes, and the copy of a C string with its terminator (\<open>strcpy\<close>, and \<open>strncpy\<close>
  with the bound \<open>strlen(src) + 1\<close>). Nothing limits a string to the member it is copied to: it runs on
  into the members behind it. Outside the buffers the behaviour is undefined, \<open>None\<close>.\<close>

definition mem_copy :: "bytes \<Rightarrow> nat \<Rightarrow> bytes \<Rightarrow> nat \<Rightarrow> nat \<Rightarrow> bytes option" where
  "mem_copy dst doff src soff n = do { xs \<leftarrow> buf_get src soff n; buf_put dst doff xs }"

fun c_str :: "bytes \<Rightarrow> bytes option" where
  "c_str [] = None"
| "c_str (b # bs) = (if b = 0 then Some [0] else map_option ((#) b) (c_str bs))"

definition str_copy :: "bytes \<Rightarrow> nat \<Rightarrow> bytes \<Rightarrow> nat \<Rightarrow> bytes option" where
  "str_copy dst doff src soff = do { xs \<leftarrow> c_str (drop soff src); buf_put dst doff xs }"

text \<open>What a case of the three switches does with the structure: copy all of it, one member, a string
  member, or a member and then what the next case does (a case without \<open>break\<close>).\<close>

datatype member_action = Whole | Member nat | Str nat | Fall nat member_action

text \<open>The switch of \<open>param_to_flash\<close>, between two structures at different bases.\<close>

fun struct_to_struct :: "member_action \<Rightarrow> bytes \<Rightarrow> nat \<Rightarrow> bytes \<Rightarrow> bytes option" where
  "struct_to_struct Whole dst base src = mem_copy dst base src 0 SYS_SIZE"
| "struct_to_struct (Member m) dst base src = mem_copy dst (base + offset_of m) src (offset_of m) (size_of m)"
| "struct_to_struct (Str m) dst base src = str_copy dst (base + offset_of m) src (offset_of m)"
| "struct_to_struct (Fall m act) dst base src = do {
     dst \<leftarrow> mem_copy dst (base + offset_of m) src (offset_of m) (size_of m);
     struct_to_struct act dst base src
   }"

text \<open>The switch of \<open>tls_param_set\<close>, from the argument into a structure.\<close>

fun arg_to_struct :: "member_action \<Rightarrow> bytes \<Rightarrow> bytes \<Rightarrow> bytes option" where
  "arg_to_struct Whole dst argv = mem_copy dst 0 argv 0 SYS_SIZE"
| "arg_to_struct (Member m) dst argv = mem_copy dst (offset_of m) argv 0 (size_of m)"
| "arg_to_struct (Str m) dst argv = str_copy dst (offset_of m) argv 0"
| "arg_to_struct (Fall m act) dst argv = do {
     dst \<leftarrow> mem_copy dst (offset_of m) argv 0 (size_of m);
     arg_to_struct act dst argv
   }"

text \<open>The switch of \<open>tls_param_get\<close>, from the structure that starts at \<open>base\<close> of \<open>src\<close> into the argument.\<close>

fun struct_to_arg :: "member_action \<Rightarrow> bytes \<Rightarrow> bytes \<Rightarrow> nat \<Rightarrow> bytes option" where
  "struct_to_arg Whole argv src base = mem_copy argv 0 src base SYS_SIZE"
| "struct_to_arg (Member m) argv src base = mem_copy argv 0 src (base + offset_of m) (size_of m)"
| "struct_to_arg (Str m) argv src base = str_copy argv 0 src (base + offset_of m)"
| "struct_to_arg (Fall m act) argv src base = do {
     argv \<leftarrow> mem_copy argv 0 src (base + offset_of m) (size_of m);
     struct_to_arg act argv src base
   }"

section \<open>Writing the parameters to flash\<close>

definition param_flash_verify ::
    "'d fls_ops \<Rightarrow> nat \<Rightarrow> bytes \<Rightarrow> nat \<Rightarrow> ('d, 'z) param_state_scheme \<Rightarrow> (int \<times> ('d, 'z) param_state_scheme) option" where
  "param_flash_verify fo data_addr data_buffer len s =
     (case tls_mem_alloc len s of
        (None, s) \<Rightarrow> Some (0, s)
      | (Some buffer, s) \<Rightarrow> do {
          (err, buffer, d) \<leftarrow> fls_read fo data_addr (Some buffer) len (pdev s);
          buffer \<leftarrow> buffer;
          let s = s\<lparr>pdev := d\<rparr>;
          Some (if err \<noteq> TLS_FLS_STATUS_OK then 0
                else if take len buffer = take len data_buffer then 1 else 0, s)
        })"

text \<open>The cases of the switch; \<open>TLS_PARAM_ID_AUTO_TRIGGER_PERIOD\<close> has no \<open>break\<close>.\<close>

definition to_flash_cases1 :: "(int \<times> member_action) list" where
  "to_flash_cases1 =
    [(TLS_PARAM_ID_ALL, Whole), (TLS_PARAM_ID_SSID, Member M_ssid),
     (TLS_PARAM_ID_ENCRY, Member M_encry), (TLS_PARAM_ID_KEY, Member M_key),
     (TLS_PARAM_ID_IP, Member M_ipcfg), (TLS_PARAM_ID_AUTOMODE, Member M_auto_mode),
     (TLS_PARAM_ID_DEFSOCKET, Member M_remote_socket_cfg), (TLS_PARAM_ID_BSSID, Member M_bssid),
     (TLS_PARAM_ID_CHANNEL, Member M_channel), (TLS_PARAM_ID_CHANNEL_EN, Member M_channel_enable),
     (TLS_PARAM_ID_COUNTRY_REGION, Member M_wireless_region),
     (TLS_PARAM_ID_WPROTOCOL, Member M_wireless_protocol),
     (TLS_PARAM_ID_ADHOC_AUTOCREATE, Member M_auto_create_adhoc),
     (TLS_PARAM_ID_ROAMING, Member M_auto_roam), (TLS_PARAM_ID_AUTO_RETRY_CNT, Member M_auto_retrycnt),
     (TLS_PARAM_ID_WBGR, Member M_wbgr), (TLS_PARAM_ID_USRINTF, Member M_user_port_mode),
     (TLS_PARAM_ID_ESCAPE_CHAR, Member M_EscapeChar),
     (TLS_PARAM_ID_ESCAPE_PERIOD, Member M_EscapePeriod),
     (TLS_PARAM_ID_AUTO_TRIGGER_LENGTH, Member M_transparent_trigger_length),
     (TLS_PARAM_ID_AUTO_TRIGGER_PERIOD, Fall M_transparent_trigger_period (Member M_debug_mode)),
     (TLS_PARAM_ID_DEBUG_MODE, Member M_debug_mode),
     (TLS_PARAM_ID_HARDVERSION, Member M_hardware_version),
     (TLS_PARAM_ID_BRDSSID, Member M_ssid_broadcast_enable),
     (TLS_PARAM_ID_DNSNAME, Member M_local_dnsname), (TLS_PARAM_ID_DEVNAME, Member M_local_device_name),
     (TLS_PARAM_ID_PSM, Member M_auto_powersave),
     (TLS_PARAM_ID_ORAY_CLIENT, Member M_oray_client_setting),
     (TLS_PARAM_ID_UPNP, Member M_upnp_enable), (TLS_PARAM_ID_UART, Member M_uart_cfg)]"

definition to_flash_cases2 :: "(int \<times> member_action) list" where
  "to_flash_cases2 =
    [(TLS_PARAM_ID_CHANNEL_LIST, Member M_channellist),
     (TLS_PARAM_ID_ONESHOT_CFG, Member M_oneshotflag), (TLS_PARAM_ID_SHA1, Member M_psk),
     (TLS_PARAM_ID_ORIGIN_KEY, Member M_original_key),
     (TLS_PARAM_ID_ORIGIN_SSID, Member M_original_ssid),
     (TLS_PARAM_ID_AUTO_RECONNECT, Member M_auto_reconnect), (TLS_PARAM_ID_IO_MODE, Member M_IoMode),
     (TLS_PARAM_ID_CMD_MODE, Member M_CmdMode), (TLS_PARAM_ID_PASSWORD, Member M_PassWord),
     (TLS_PARAM_ID_WEBS_CONFIG, Member M_WebsCfg), (TLS_PARAM_ID_QUICK_CONNECT, Member M_quick_connect),
     (TLS_PARAM_ID_KEY_CHANGE, Member M_key_changed), (TLS_PARAM_ID_SSID_CHANGE, Member M_ssid_changed),
     (TLS_PARAM_ID_SOFTAP_SSID, Member M_apsta_ssid), (TLS_PARAM_ID_SOFTAP_PSK, Member M_apsta_psk),
     (TLS_PARAM_ID_SOFTAP_ENCRY, Member M_encry4softap), (TLS_PARAM_ID_SOFTAP_KEY, Member M_key4softap),
     (TLS_PARAM_ID_SOFTAP_IP, Member M_ipcfg4softap),
     (TLS_PARAM_ID_SOFTAP_CHANNEL, Member M_channel4softap),
     (TLS_PARAM_ID_SOFTAP_WBGR, Member M_wbgr4softap), (TLS_PARAM_ID_SNTP_SERVER1, Str M_sntp_service1),
     (TLS_PARAM_ID_SNTP_SERVER2, Str M_sntp_service2), (TLS_PARAM_ID_SNTP_SERVER3, Str M_sntp_service3),
     (TLS_PARAM_ID_TEM_OFFSET, Member M_params_tem)]"

definition to_flash_cases :: "(int \<times> member_action) list" where
  "to_flash_cases = to_flash_cases1 @ to_flash_cases2"

definition part_addr :: "layout \<Rightarrow> u16 \<Rightarrow> nat" where
  "part_addr l n = (if n = 0 then TLS_FLASH_PARAM1_ADDR l else TLS_FLASH_PARAM2_ADDR l)"

text \<open>The rest of \<open>param_to_flash\<close>: the header is filled in, the CRC computed, the structure written
  to its partition and read back.\<close>

definition seal_flash_param :: "int \<Rightarrow> int \<Rightarrow> bytes \<Rightarrow> bytes" where
  "seal_flash_param modify_count partition_num fp =
     (let fp = patch fp 0 (le32 TLS_PARAM_MAGIC);
          fp = patch fp 14 (le16 828);
          fp = patch fp 6 (le16 (if modify_count < 0 then fp_modify_count fp + 1 else of_int modify_count));
          fp = patch fp 4 (le16 (if partition_num < 0 then (fp_partition_num fp + 1) AND 1 else of_int partition_num));
          fp = patch fp 12 (le16 0);
          fp = patch fp 8 (le32 0)
      in patch fp 824 (le32 (get_crc32 (take 824 fp))))"

definition commit_flash_param ::
    "'d fls_ops \<Rightarrow> layout \<Rightarrow> ('d, 'z) param_state_scheme \<Rightarrow> (int \<times> ('d, 'z) param_state_scheme) option" where
  "commit_flash_param fo l s =
     (let fp = flash_param s; addr = part_addr l (fp_partition_num fp) in do {
        (err, d) \<leftarrow> fls_write fo addr (Some fp) FLASH_PARAM_SIZE (pdev s);
        let s = s\<lparr>pdev := d\<rparr>;
        if err \<noteq> TLS_FLS_STATUS_OK then Some (TLS_PARAM_STATUS_EIO, s)
        else do {
          (ok, s) \<leftarrow> param_flash_verify fo addr fp FLASH_PARAM_SIZE s;
          Some (if ok = 1 then TLS_PARAM_STATUS_OK else TLS_PARAM_STATUS_EIO, s)
        }
      })"

definition param_to_flash ::
    "'d fls_ops \<Rightarrow> layout \<Rightarrow> int \<Rightarrow> int \<Rightarrow> int \<Rightarrow> ('d, 'z) param_state_scheme \<Rightarrow> (int \<times> ('d, 'z) param_state_scheme) option" where
  "param_to_flash fo l idn modify_count partition_num s =
     (if idn < TLS_PARAM_ID_ALL \<or> idn \<ge> TLS_PARAM_ID_MAX then Some (TLS_PARAM_STATUS_EINVALID, s)
      else case map_of to_flash_cases idn of
        None \<Rightarrow> Some (TLS_PARAM_STATUS_EINVALIDID, s)
      | Some act \<Rightarrow> do {
          fp \<leftarrow> struct_to_struct act (flash_param s) 16 (sram_param s);
          commit_flash_param fo l (s\<lparr>flash_param := seal_flash_param modify_count partition_num fp\<rparr>)
        })"

section \<open>Factory defaults\<close>

definition c_bytes :: "string \<Rightarrow> bytes" where
  "c_bytes str = map of_char str @ [0]"

text \<open>The assignments, as the member, the offset of the assigned part in it, and the bytes.\<close>

definition factory_puts :: "(nat \<times> nat \<times> bytes) list" where
  "factory_puts =
    [(M_hardware_version, 0, [0x48, 1, 0, 0, 0, 0, 0, 0]),
     (M_wireless_region, 0, [1]), (M_channel, 0, [1]), (M_channellist, 0, le16 0x3FFF),
     (M_wbgr, 0, [2]), (M_wbgr, 1, [25]), (M_ssid_broadcast_enable, 0, [1]), (M_encry, 0, [0]),
     (M_wireless_protocol, 0, [1]), (M_auto_retrycnt, 0, [255]), (M_auto_roam, 0, [0]),
     (M_auto_powersave, 0, [0]), (M_auto_reconnect, 0, [0]), (M_auto_mode, 0, [0]),
     (M_transparent_trigger_length, 0, le16 512), (M_uart_cfg, 0, le32 115200), (M_uart_cfg, 4, [0]),
     (M_uart_cfg, 5, [0]), (M_user_port_mode, 0, [0]), (M_ipcfg, 0, [1]),
     (M_ipcfg, 4, [192, 168, 1, 1]), (M_ipcfg, 8, [255, 255, 255, 0]), (M_ipcfg, 12, [192, 168, 1, 1]),
     (M_ipcfg, 16, [192, 168, 1, 1]), (M_ipcfg, 20, [192, 168, 1, 1]),
     (M_local_dnsname, 0, c_bytes ''local.winnermicro''), (M_local_device_name, 0, c_bytes ''tln13sp01''),
     (M_remote_socket_cfg, 0, [0]), (M_remote_socket_cfg, 1, [1]), (M_remote_socket_cfg, 2, le16 60000),
     (M_remote_socket_cfg, 4, replicate 32 0), (M_EscapeChar, 0, [0x2b]), (M_EscapePeriod, 0, le16 200),
     (M_WebsCfg, 0, [1]), (M_WebsCfg, 2, le16 80), (M_debug_mode, 0, le32 0),
     (M_PassWord, 0, replicate 6 0x30), (M_channel4softap, 0, [11]), (M_encry4softap, 0, [0]),
     (M_ipcfg4softap, 0, [1]), (M_ipcfg4softap, 4, [192, 168, 0, 1]),
     (M_ipcfg4softap, 8, [255, 255, 255, 0]), (M_ipcfg4softap, 12, [192, 168, 0, 1]),
     (M_ipcfg4softap, 16, [192, 168, 0, 1]), (M_ipcfg4softap, 20, [0, 0, 0, 0]), (M_wbgr4softap, 0, [0]),
     (M_wbgr4softap, 1, [9]), (M_sntp_service1, 0, c_bytes ''cn.ntp.org.cn''),
     (M_sntp_service2, 0, c_bytes ''ntp.sjtu.edu.cn''), (M_sntp_service3, 0, c_bytes ''us.pool.ntp.org'')]"

definition put_all :: "(nat \<times> nat \<times> bytes) list \<Rightarrow> bytes \<Rightarrow> bytes" where
  "put_all puts p = foldl (\<lambda>p (m, k, v). patch p (offset_of m + k) v) p puts"

definition factory_default :: bytes where
  "factory_default = put_all factory_puts (zeros SYS_SIZE)"

definition tls_param_load_factory_default :: "('d, 'z) param_state_scheme \<Rightarrow> ('d, 'z) param_state_scheme" where
  "tls_param_load_factory_default s = s\<lparr>sram_param := factory_default\<rparr>"

section \<open>Initialisation\<close>

text \<open>The local variables of \<open>tls_param_init\<close> during the scan of the partitions. A loop index of \<open>-1\<close>,
  incremented at the end of the round, restarts the scan.\<close>

record scan =
  is_damage :: "bool list"
  damaged :: nat
  tryrestore :: bool
  flash :: bytes

text \<open>One round of the \<open>for\<close> loop, up to line 408: the partition is read over what \<open>flash\<close> holds and
  judged. A \<open>length\<close> that does not fit the buffer makes the code read outside it, \<open>None\<close>.\<close>

definition mark_damaged :: "nat \<Rightarrow> scan \<Rightarrow> scan" where
  "mark_damaged i v = v\<lparr>is_damage := (is_damage v)[i := True], damaged := damaged v + 1\<rparr>"

definition judge_partition ::
    "nat \<Rightarrow> bytes \<Rightarrow> scan \<Rightarrow> ('d, 'z) param_state_scheme \<Rightarrow> (scan \<times> ('d, 'z) param_state_scheme) option" where
  "judge_partition i buf v s =
     (let len = unat (fp_length buf) in
      if fp_magic buf \<noteq> TLS_PARAM_MAGIC then Some (mark_damaged i v, s)
      else if len < 4 \<or> length buf < len then None
      else if get_crc32 (take (len - 4) buf) \<noteq> get_u32 (len - 4) buf then Some (mark_damaged i v, s)
      else (let s = (if fp_magic (flash_param s) = 0 \<or> fp_modify_count (flash_param s) < fp_modify_count buf
                     then (let fp = (if len \<noteq> FLASH_PARAM_SIZE then patch (flash_param s) 0 (take (len - 4) buf) else buf)
                           in s\<lparr>flash_param := fp, sram_param := fp_parameters fp\<rparr>)
                     else s)
            in Some (v\<lparr>flash := zeros FLASH_PARAM_SIZE\<rparr>, s)))"

definition check_partition ::
    "'d fls_ops \<Rightarrow> layout \<Rightarrow> nat \<Rightarrow> scan \<Rightarrow> ('d, 'z) param_state_scheme \<Rightarrow> (scan \<times> ('d, 'z) param_state_scheme) option" where
  "check_partition fo l i v s = do {
     (_, buf, d) \<leftarrow> fls_read fo (if i = 0 then TLS_FLASH_PARAM1_ADDR l else TLS_FLASH_PARAM2_ADDR l)
       (Some (flash v)) FLASH_PARAM_SIZE (pdev s);
     buf \<leftarrow> buf;
     judge_partition i buf (v\<lparr>flash := buf\<rparr>) (s\<lparr>pdev := d\<rparr>)
   }"

text \<open>The end of the round: when both partitions are damaged for the first time, the sector behind
  them is erased and the scan starts over (the result \<open>True\<close>).\<close>

definition try_restore ::
    "'d fls_ops \<Rightarrow> layout \<Rightarrow> scan \<Rightarrow> ('d, 'z) param_state_scheme \<Rightarrow> (bool \<times> scan \<times> ('d, 'z) param_state_scheme) option" where
  "try_restore fo l v s =
     (if \<not> tryrestore v \<and> damaged v \<ge> TLS_PARAM_PARTITION_NUM
      then do {
        (_, d) \<leftarrow> fls_erase fo (TLS_FLASH_PARAM_RESTORE_ADDR l div INSIDE_FLS_SECTOR_SIZE) (pdev s);
        Some (True, v\<lparr>damaged := 0, is_damage := [False, False], tryrestore := True\<rparr>,
          s\<lparr>flash_param := zeros FLASH_PARAM_SIZE, sram_param := zeros SYS_SIZE, pdev := d\<rparr>)
      }
      else Some (False, v, s))"

lemma judge_partition_tryrestore:
  "judge_partition i buf v s = Some (v', s') \<Longrightarrow> tryrestore v' = tryrestore v"
  unfolding judge_partition_def mark_damaged_def Let_def by (auto split: if_splits)

lemma check_partition_tryrestore:
  "check_partition fo l i v s = Some (v', s') \<Longrightarrow> tryrestore v' = tryrestore v"
  by (auto simp: check_partition_def bind_eq_Some_conv dest!: judge_partition_tryrestore)

lemma try_restore_measure:
  "try_restore fo l v s = Some (again, v', s') \<Longrightarrow>
   if again then \<not> tryrestore v \<and> tryrestore v' else tryrestore v' = tryrestore v"
  by (auto simp: try_restore_def bind_eq_Some_conv split: if_splits)

function scan_partitions ::
    "'d fls_ops \<Rightarrow> layout \<Rightarrow> nat \<Rightarrow> scan \<Rightarrow> ('d, 'z) param_state_scheme \<Rightarrow> (scan \<times> ('d, 'z) param_state_scheme) option" where
  "scan_partitions fo l i v s =
     (if i < TLS_PARAM_PARTITION_NUM
      then do {
        (v, s) \<leftarrow> check_partition fo l i v s;
        (again, v, s) \<leftarrow> try_restore fo l v s;
        scan_partitions fo l (if again then 0 else Suc i) v s
      }
      else Some (v, s))"
  by pat_completeness auto

text \<open>The scan is over after at most four rounds: it starts over at most once.\<close>

termination
  by (relation "measure (\<lambda>(fo, l, i, v, s). (if tryrestore v then 0 else 3) + (2 - i))")
    (auto dest!: check_partition_tryrestore try_restore_measure split: if_splits)

text \<open>The damaged partitions are written again from what the intact one held.\<close>

fun restore_partitions ::
    "'d fls_ops \<Rightarrow> layout \<Rightarrow> nat list \<Rightarrow> scan \<Rightarrow> ('d, 'z) param_state_scheme \<Rightarrow> (int \<times> ('d, 'z) param_state_scheme) option" where
  "restore_partitions fo l [] v s = Some (TLS_PARAM_STATUS_OK, s)"
| "restore_partitions fo l (i # is) v s =
     (if is_damage v ! i
      then do {
        (err, s) \<leftarrow> param_to_flash fo l TLS_PARAM_ID_ALL (- 1) (int i) s;
        if err \<noteq> TLS_PARAM_STATUS_OK then Some (TLS_PARAM_STATUS_EIO, s) else restore_partitions fo l is v s
      }
      else restore_partitions fo l is v s)"

definition write_defaults ::
    "'d fls_ops \<Rightarrow> layout \<Rightarrow> ('d, 'z) param_state_scheme \<Rightarrow> (int \<times> ('d, 'z) param_state_scheme) option" where
  "write_defaults fo l s = do {
     (err, s) \<leftarrow> param_to_flash fo l TLS_PARAM_ID_ALL 1 0 (tls_param_load_factory_default s);
     if err \<noteq> TLS_PARAM_STATUS_OK then Some (TLS_PARAM_STATUS_EIO, s)
     else do {
       (err, s) \<leftarrow> param_to_flash fo l TLS_PARAM_ID_ALL 1 1 s;
       Some (if err \<noteq> TLS_PARAM_STATUS_OK then TLS_PARAM_STATUS_EIO else err, s)
     }
   }"

definition release_lock :: "('d, 'z) param_state_scheme \<Rightarrow> ('d, 'z) param_state_scheme" where
  "release_lock s = s\<lparr>sys_param_lock := map_option sem_release (sys_param_lock s)\<rparr>"

definition acquire_lock :: "('d, 'z) param_state_scheme \<Rightarrow> ('d, 'z) param_state_scheme option" where
  "acquire_lock s = do { c \<leftarrow> sys_param_lock s; c \<leftarrow> sem_acquire c; Some (s\<lparr>sys_param_lock := Some c\<rparr>) }"

definition tls_param_init ::
    "'d fls_ops \<Rightarrow> layout \<Rightarrow> ('d, 'z) param_state_scheme \<Rightarrow> (int \<times> ('d, 'z) param_state_scheme) option" where
  "tls_param_init fo l s =
     (if fp_magic (flash_param s) = TLS_PARAM_MAGIC then Some (TLS_PARAM_STATUS_EPERM, s)
      else case tls_os_sem_create s of
        (False, s) \<Rightarrow> Some (TLS_PARAM_STATUS_EMEM, s)
      | (True, s) \<Rightarrow> do {
          s \<leftarrow> acquire_lock (s\<lparr>sys_param_lock := Some 1\<rparr>);
          let s = s\<lparr>flash_param := zeros FLASH_PARAM_SIZE, sram_param := zeros SYS_SIZE\<rparr>;
          case tls_mem_alloc FLASH_PARAM_SIZE s of
            (None, s) \<Rightarrow> Some (TLS_PARAM_STATUS_EMEM, release_lock s)
          | (Some _, s) \<Rightarrow> do {
              (v, s) \<leftarrow> scan_partitions fo l 0 \<lparr>is_damage = [False, False], damaged = 0, tryrestore = False,
                flash = zeros FLASH_PARAM_SIZE\<rparr> s;
              (err, s) \<leftarrow> (if damaged v \<ge> TLS_PARAM_PARTITION_NUM then write_defaults fo l s
                          else restore_partitions fo l [0, 1] v s);
              Some (err, release_lock s)
            }
        })"

section \<open>Reading and changing parameters\<close>

definition set_cases1 :: "(int \<times> member_action) list" where
  "set_cases1 =
    [(TLS_PARAM_ID_ALL, Whole), (TLS_PARAM_ID_SSID, Member M_ssid),
     (TLS_PARAM_ID_ENCRY, Member M_encry), (TLS_PARAM_ID_KEY, Member M_key),
     (TLS_PARAM_ID_IP, Member M_ipcfg), (TLS_PARAM_ID_AUTOMODE, Member M_auto_mode),
     (TLS_PARAM_ID_DEFSOCKET, Member M_remote_socket_cfg), (TLS_PARAM_ID_BSSID, Member M_bssid),
     (TLS_PARAM_ID_CHANNEL, Member M_channel), (TLS_PARAM_ID_CHANNEL_LIST, Member M_channellist),
     (TLS_PARAM_ID_CHANNEL_EN, Member M_channel_enable),
     (TLS_PARAM_ID_COUNTRY_REGION, Member M_wireless_region),
     (TLS_PARAM_ID_WPROTOCOL, Member M_wireless_protocol),
     (TLS_PARAM_ID_ADHOC_AUTOCREATE, Member M_auto_create_adhoc),
     (TLS_PARAM_ID_ROAMING, Member M_auto_roam), (TLS_PARAM_ID_AUTO_RETRY_CNT, Member M_auto_retrycnt),
     (TLS_PARAM_ID_WBGR, Member M_wbgr), (TLS_PARAM_ID_USRINTF, Member M_user_port_mode),
     (TLS_PARAM_ID_AUTO_TRIGGER_LENGTH, Member M_transparent_trigger_length),
     (TLS_PARAM_ID_AUTO_TRIGGER_PERIOD, Member M_transparent_trigger_period),
     (TLS_PARAM_ID_ESCAPE_CHAR, Member M_EscapeChar),
     (TLS_PARAM_ID_ESCAPE_PERIOD, Member M_EscapePeriod), (TLS_PARAM_ID_IO_MODE, Member M_IoMode),
     (TLS_PARAM_ID_CMD_MODE, Member M_CmdMode), (TLS_PARAM_ID_PASSWORD, Member M_PassWord),
     (TLS_PARAM_ID_WEBS_CONFIG, Member M_WebsCfg), (TLS_PARAM_ID_DEBUG_MODE, Member M_debug_mode)]"

definition set_cases2 :: "(int \<times> member_action) list" where
  "set_cases2 =
    [(TLS_PARAM_ID_HARDVERSION, Member M_hardware_version),
     (TLS_PARAM_ID_BRDSSID, Member M_ssid_broadcast_enable),
     (TLS_PARAM_ID_DNSNAME, Str M_local_dnsname), (TLS_PARAM_ID_DEVNAME, Str M_local_device_name),
     (TLS_PARAM_ID_PSM, Member M_auto_powersave),
     (TLS_PARAM_ID_ORAY_CLIENT, Member M_oray_client_setting),
     (TLS_PARAM_ID_UPNP, Member M_upnp_enable), (TLS_PARAM_ID_UART, Member M_uart_cfg),
     (TLS_PARAM_ID_ONESHOT_CFG, Member M_oneshotflag), (TLS_PARAM_ID_SHA1, Member M_psk),
     (TLS_PARAM_ID_ORIGIN_KEY, Member M_original_key),
     (TLS_PARAM_ID_ORIGIN_SSID, Member M_original_ssid),
     (TLS_PARAM_ID_AUTO_RECONNECT, Member M_auto_reconnect),
     (TLS_PARAM_ID_QUICK_CONNECT, Member M_quick_connect),
     (TLS_PARAM_ID_KEY_CHANGE, Member M_key_changed), (TLS_PARAM_ID_SSID_CHANGE, Member M_ssid_changed),
     (TLS_PARAM_ID_SOFTAP_SSID, Member M_apsta_ssid), (TLS_PARAM_ID_SOFTAP_PSK, Member M_apsta_psk),
     (TLS_PARAM_ID_SOFTAP_ENCRY, Member M_encry4softap), (TLS_PARAM_ID_SOFTAP_KEY, Member M_key4softap),
     (TLS_PARAM_ID_SOFTAP_IP, Member M_ipcfg4softap),
     (TLS_PARAM_ID_SOFTAP_CHANNEL, Member M_channel4softap),
     (TLS_PARAM_ID_SOFTAP_WBGR, Member M_wbgr4softap), (TLS_PARAM_ID_SNTP_SERVER1, Str M_sntp_service1),
     (TLS_PARAM_ID_SNTP_SERVER2, Str M_sntp_service2), (TLS_PARAM_ID_SNTP_SERVER3, Str M_sntp_service3),
     (TLS_PARAM_ID_TEM_OFFSET, Member M_params_tem)]"

definition set_cases :: "(int \<times> member_action) list" where
  "set_cases = set_cases1 @ set_cases2"

definition tls_param_set ::
    "'d fls_ops \<Rightarrow> layout \<Rightarrow> int \<Rightarrow> bytes option \<Rightarrow> bool \<Rightarrow> ('d, 'z) param_state_scheme \<Rightarrow>
     (int \<times> ('d, 'z) param_state_scheme) option" where
  "tls_param_set fo l idn argv to_flash s =
     (case argv of
        None \<Rightarrow> Some (TLS_PARAM_STATUS_EINVALID, s)
      | Some argv \<Rightarrow>
        if idn < TLS_PARAM_ID_ALL \<or> idn \<ge> TLS_PARAM_ID_MAX then Some (TLS_PARAM_STATUS_EINVALID, s)
        else do {
          s \<leftarrow> acquire_lock s;
          case map_of set_cases idn of
            None \<Rightarrow> Some (TLS_PARAM_STATUS_EINVALIDID, release_lock s)
          | Some act \<Rightarrow> do {
              s \<leftarrow> (if updp_mode s \<noteq> 0
                   then map_option (\<lambda>p. s\<lparr>user_default_param := p\<rparr>) (arg_to_struct act (user_default_param s) argv)
                   else map_option (\<lambda>p. s\<lparr>sram_param := p\<rparr>) (arg_to_struct act (sram_param s) argv));
              (err, s) \<leftarrow> (if to_flash \<and> updp_mode s = 0 then param_to_flash fo l idn (- 1) (- 1) s
                          else Some (TLS_PARAM_STATUS_OK, s));
              Some (err, release_lock s)
            }
        })"

definition get_cases1 :: "(int \<times> member_action) list" where
  "get_cases1 =
    [(TLS_PARAM_ID_ALL, Whole), (TLS_PARAM_ID_SSID, Member M_ssid),
     (TLS_PARAM_ID_ENCRY, Member M_encry), (TLS_PARAM_ID_KEY, Member M_key),
     (TLS_PARAM_ID_IP, Member M_ipcfg), (TLS_PARAM_ID_AUTOMODE, Member M_auto_mode),
     (TLS_PARAM_ID_DEFSOCKET, Member M_remote_socket_cfg), (TLS_PARAM_ID_BSSID, Member M_bssid),
     (TLS_PARAM_ID_CHANNEL, Member M_channel), (TLS_PARAM_ID_CHANNEL_LIST, Member M_channellist),
     (TLS_PARAM_ID_CHANNEL_EN, Member M_channel_enable),
     (TLS_PARAM_ID_COUNTRY_REGION, Member M_wireless_region),
     (TLS_PARAM_ID_WPROTOCOL, Member M_wireless_protocol),
     (TLS_PARAM_ID_ADHOC_AUTOCREATE, Member M_auto_create_adhoc),
     (TLS_PARAM_ID_ROAMING, Member M_auto_roam), (TLS_PARAM_ID_AUTO_RETRY_CNT, Member M_auto_retrycnt),
     (TLS_PARAM_ID_WBGR, Member M_wbgr), (TLS_PARAM_ID_USRINTF, Member M_user_port_mode),
     (TLS_PARAM_ID_AUTO_TRIGGER_LENGTH, Member M_transparent_trigger_length),
     (TLS_PARAM_ID_AUTO_TRIGGER_PERIOD, Member M_transparent_trigger_period),
     (TLS_PARAM_ID_ESCAPE_CHAR, Member M_EscapeChar),
     (TLS_PARAM_ID_ESCAPE_PERIOD, Member M_EscapePeriod), (TLS_PARAM_ID_IO_MODE, Member M_IoMode),
     (TLS_PARAM_ID_CMD_MODE, Member M_CmdMode), (TLS_PARAM_ID_PASSWORD, Member M_PassWord),
     (TLS_PARAM_ID_WEBS_CONFIG, Member M_WebsCfg), (TLS_PARAM_ID_DEBUG_MODE, Member M_debug_mode)]"

definition get_cases2 :: "(int \<times> member_action) list" where
  "get_cases2 =
    [(TLS_PARAM_ID_HARDVERSION, Member M_hardware_version),
     (TLS_PARAM_ID_BRDSSID, Member M_ssid_broadcast_enable),
     (TLS_PARAM_ID_DNSNAME, Str M_local_dnsname), (TLS_PARAM_ID_DEVNAME, Str M_local_device_name),
     (TLS_PARAM_ID_PSM, Member M_auto_powersave),
     (TLS_PARAM_ID_ORAY_CLIENT, Member M_oray_client_setting),
     (TLS_PARAM_ID_UPNP, Member M_upnp_enable), (TLS_PARAM_ID_UART, Member M_uart_cfg),
     (TLS_PARAM_ID_ONESHOT_CFG, Member M_oneshotflag), (TLS_PARAM_ID_SHA1, Member M_psk),
     (TLS_PARAM_ID_ORIGIN_KEY, Member M_original_key),
     (TLS_PARAM_ID_ORIGIN_SSID, Member M_original_ssid),
     (TLS_PARAM_ID_AUTO_RECONNECT, Member M_auto_reconnect),
     (TLS_PARAM_ID_QUICK_CONNECT, Member M_quick_connect),
     (TLS_PARAM_ID_KEY_CHANGE, Member M_key_changed), (TLS_PARAM_ID_SSID_CHANGE, Member M_ssid_changed),
     (TLS_PARAM_ID_SOFTAP_SSID, Member M_apsta_ssid), (TLS_PARAM_ID_SOFTAP_PSK, Member M_apsta_psk),
     (TLS_PARAM_ID_SOFTAP_ENCRY, Member M_encry4softap), (TLS_PARAM_ID_SOFTAP_KEY, Member M_key4softap),
     (TLS_PARAM_ID_SOFTAP_IP, Member M_ipcfg4softap),
     (TLS_PARAM_ID_SOFTAP_CHANNEL, Member M_channel4softap),
     (TLS_PARAM_ID_SOFTAP_WBGR, Member M_wbgr4softap), (TLS_PARAM_ID_SNTP_SERVER1, Str M_sntp_service1),
     (TLS_PARAM_ID_SNTP_SERVER2, Str M_sntp_service2), (TLS_PARAM_ID_SNTP_SERVER3, Str M_sntp_service3),
     (TLS_PARAM_ID_TEM_OFFSET, Member M_params_tem)]"

definition get_cases :: "(int \<times> member_action) list" where
  "get_cases = get_cases1 @ get_cases2"

definition tls_param_get ::
    "int \<Rightarrow> bytes option \<Rightarrow> bool \<Rightarrow> ('d, 'z) param_state_scheme \<Rightarrow>
     (int \<times> bytes option \<times> ('d, 'z) param_state_scheme) option" where
  "tls_param_get idn argv from_flash s =
     (if idn < TLS_PARAM_ID_ALL \<or> idn \<ge> TLS_PARAM_ID_MAX then Some (TLS_PARAM_STATUS_EINVALID, argv, s)
      else do {
        s \<leftarrow> acquire_lock s;
        case map_of get_cases idn of
          None \<Rightarrow> Some (TLS_PARAM_STATUS_EINVALIDID, argv, release_lock s)
        | Some act \<Rightarrow> do {
            argv \<leftarrow> argv;
            argv \<leftarrow> (if from_flash then struct_to_arg act argv (flash_param s) 16
                    else struct_to_arg act argv (sram_param s) 0);
            Some (TLS_PARAM_STATUS_OK, Some argv, release_lock s)
          }
      })"

definition tls_param_to_flash ::
    "'d fls_ops \<Rightarrow> layout \<Rightarrow> int \<Rightarrow> ('d, 'z) param_state_scheme \<Rightarrow> (int \<times> ('d, 'z) param_state_scheme) option" where
  "tls_param_to_flash fo l idn s = do {
     s \<leftarrow> acquire_lock s;
     if idn = TLS_PARAM_ID_ALL \<and> sram_param s = fp_parameters (flash_param s)
     then Some (TLS_FLS_STATUS_OK, release_lock s)
     else do {
       (err, s) \<leftarrow> param_to_flash fo l idn (- 1) (- 1) s;
       Some (err, release_lock s)
     }
   }"

definition tls_param_to_default ::
    "'d fls_ops \<Rightarrow> layout \<Rightarrow> ('d, 'z) param_state_scheme \<Rightarrow> (int \<times> ('d, 'z) param_state_scheme) option" where
  "tls_param_to_default fo l s = do {
     (err, s) \<leftarrow> param_to_flash fo l TLS_PARAM_ID_ALL 1 0 (tls_param_load_factory_default s);
     if err \<noteq> 0 then Some (err, s)
     else do {
       (err, s) \<leftarrow> param_to_flash fo l TLS_PARAM_ID_ALL 1 1 s;
       Some (err, s\<lparr>flash_param := patch (flash_param s) 0 (le32 0)\<rparr>)
     }
   }"

section \<open>User defaults\<close>

text \<open>The buffers on the stack that the reads fill are \<open>stack\<close>; the status of the reads is ignored.\<close>

definition tls_param_load_user ::
    "'d fls_ops \<Rightarrow> layout \<Rightarrow> bytes \<Rightarrow> bytes \<Rightarrow> ('d, 'z) param_state_scheme \<Rightarrow>
     (int \<times> bytes \<times> ('d, 'z) param_state_scheme) option" where
  "tls_param_load_user fo l stack param s =
     (let offset = TLS_FLASH_PARAM_DEFAULT l in do {
        (_, magic, d) \<leftarrow> fls_read fo offset (Some (take 4 stack)) 4 (pdev s);
        magic \<leftarrow> magic;
        if of_le32 magic \<noteq> TLS_USER_MAGIC then Some (TLS_PARAM_STATUS_EINVALID, param, s\<lparr>pdev := d\<rparr>)
        else do {
          (_, p, d) \<leftarrow> fls_read fo (offset + 4) (Some (zeros SYS_SIZE)) SYS_SIZE d;
          p \<leftarrow> p;
          (_, crc, d) \<leftarrow> fls_read fo (offset + 4 + SYS_SIZE) (Some (take 4 (drop 4 stack))) 4 d;
          crc \<leftarrow> crc;
          Some (if of_le32 crc \<noteq> get_crc32 p then TLS_PARAM_STATUS_EINVALID else TLS_PARAM_STATUS_OK,
            p, s\<lparr>pdev := d\<rparr>)
        }
      })"

definition tls_param_save_user_default ::
    "'d fls_ops \<Rightarrow> layout \<Rightarrow> ('d, 'z) param_state_scheme \<Rightarrow> (int \<times> ('d, 'z) param_state_scheme) option" where
  "tls_param_save_user_default fo l s =
     (let offset = TLS_FLASH_PARAM_DEFAULT l; p = user_default_param s in do {
        (_, d) \<leftarrow> fls_write fo offset (Some (le32 TLS_USER_MAGIC)) 4 (pdev s);
        (_, d) \<leftarrow> fls_write fo (offset + 4) (Some p) SYS_SIZE d;
        (_, d) \<leftarrow> fls_write fo (offset + 4 + SYS_SIZE) (Some (le32 (get_crc32 p))) 4 d;
        Some (TLS_PARAM_STATUS_OK, s\<lparr>pdev := d\<rparr>)
      })"

record tls_user_param =
  u_wireless_protocol :: u8
  u_auto_mode :: u8
  u_dhcp_enable :: u8
  u_user_port_mode :: u8
  u_ip :: bytes
  u_netmask :: bytes
  u_gateway :: bytes
  u_dns :: bytes
  u_baudrate :: u32
  u_socket_protocol :: u8
  u_socket_client_or_server :: u8
  u_socket_port_num :: u16
  u_socket_host :: bytes
  u_auto_powersave :: u8
  u_PassWord :: bytes

definition user_puts :: "tls_user_param \<Rightarrow> (nat \<times> nat \<times> bytes) list" where
  "user_puts u =
    [(M_wireless_protocol, 0, [u_wireless_protocol u]), (M_auto_mode, 0, [u_auto_mode u]),
     (M_uart_cfg, 0, le32 (u_baudrate u)), (M_user_port_mode, 0, [u_user_port_mode u]),
     (M_ipcfg, 0, [u_dhcp_enable u]), (M_auto_powersave, 0, [u_auto_powersave u]),
     (M_ipcfg, 4, u_ip u), (M_ipcfg, 8, u_netmask u), (M_ipcfg, 12, u_gateway u),
     (M_ipcfg, 16, u_dns u), (M_ipcfg, 20, u_dns u), (M_remote_socket_cfg, 0, [u_socket_protocol u]),
     (M_remote_socket_cfg, 1, [u_socket_client_or_server u]),
     (M_remote_socket_cfg, 2, le16 (u_socket_port_num u)), (M_remote_socket_cfg, 4, u_socket_host u),
     (M_PassWord, 0, u_PassWord u), (M_hardware_version, 0, [0x48, 1, 0, 0, 0, 0, 0, 0]),
     (M_wireless_region, 0, [1]), (M_channel, 0, [1]), (M_channellist, 0, le16 0x3FFF),
     (M_wbgr, 0, [0]), (M_wbgr, 1, [9]), (M_ssid_broadcast_enable, 0, [1]), (M_encry, 0, [0]),
     (M_auto_retrycnt, 0, [255]), (M_auto_roam, 0, [0]), (M_transparent_trigger_length, 0, le16 512),
     (M_uart_cfg, 4, [0]), (M_uart_cfg, 5, [0]), (M_local_dnsname, 0, c_bytes ''local.winnermicro''),
     (M_local_device_name, 0, c_bytes ''tln13sp01''), (M_EscapeChar, 0, [0x2b]),
     (M_EscapePeriod, 0, le16 200), (M_debug_mode, 0, le32 0)]"

definition tls_param_save_user ::
    "'d fls_ops \<Rightarrow> layout \<Rightarrow> tls_user_param \<Rightarrow> ('d, 'z) param_state_scheme \<Rightarrow> (int \<times> ('d, 'z) param_state_scheme) option" where
  "tls_param_save_user fo l u s = do {
     (_, s) \<leftarrow> tls_param_save_user_default fo l (s\<lparr>user_default_param := put_all (user_puts u) (user_default_param s)\<rparr>);
     Some (TLS_PARAM_STATUS_OK, s)
   }"

definition tls_param_get_updp_mode :: "('d, 'z) param_state_scheme \<Rightarrow> u8" where
  "tls_param_get_updp_mode s = updp_mode s"

definition tls_param_set_updp_mode :: "u8 \<Rightarrow> ('d, 'z) param_state_scheme \<Rightarrow> ('d, 'z) param_state_scheme" where
  "tls_param_set_updp_mode md s = s\<lparr>updp_mode := md\<rparr>"

section \<open>The layout of the structure\<close>

lemma sys_layout_eval:
  "sys_layout =
    [(0, 8), (8, 8), (16, 36), (52, 1), (53, 1), (54, 1), (55, 1), (56, 1), (57, 1), (58, 1),
     (59, 1), (60, 1), (61, 1), (62, 2), (64, 68), (132, 4), (136, 12), (148, 24), (172, 32),
     (204, 32), (236, 68), (304, 1), (305, 1), (306, 1), (307, 1), (308, 8), (316, 1), (317, 1),
     (318, 2), (320, 2), (322, 36), (360, 4), (364, 8), (372, 1), (373, 1), (374, 2), (376, 1),
     (377, 1), (378, 6), (384, 4), (388, 1), (389, 2), (391, 33), (424, 68), (492, 36), (528, 1),
     (529, 3), (532, 2), (534, 1), (535, 1), (536, 36), (572, 33), (605, 1), (606, 1), (607, 1),
     (608, 68), (676, 24), (700, 4), (704, 32), (736, 32), (768, 32), (800, 8)]"
  by (simp add: sys_layout_def sys_members_def align_up_def)


lemma length_sys_layout [simp]: "length sys_layout = 62"
  by (simp add: sys_layout_eval)

lemmas member_eval = offset_of_def size_of_def sys_layout_eval

lemma member_room: "m < 62 \<Longrightarrow> 0 < size_of m \<and> offset_of m + size_of m \<le> SYS_SIZE"
proof -
  have "list_all (\<lambda>(p, n). 0 < n \<and> p + n \<le> SYS_SIZE) sys_layout" by (simp add: sys_layout_eval)
  then show "m < 62 \<Longrightarrow> 0 < size_of m \<and> offset_of m + size_of m \<le> SYS_SIZE"
    by (auto simp: list_all_length offset_of_def size_of_def split_beta)
qed

lemma member_disjoint:
  assumes "m < 62" "k < 62" "m \<noteq> k"
  shows "offset_of m + size_of m \<le> offset_of k \<or> offset_of k + size_of k \<le> offset_of m"
proof -
  have "sorted_wrt (\<lambda>x y. fst x + snd x \<le> fst y) sys_layout" by (simp add: sys_layout_eval)
  then have "fst (sys_layout ! i) + snd (sys_layout ! i) \<le> fst (sys_layout ! j)" if "i < j" "j < 62" for i j
    using that by (auto simp: sorted_wrt_iff_nth_less)
  then show ?thesis using assms by (cases m k rule: linorder_cases) (auto simp: offset_of_def size_of_def)
qed

definition member_of :: "nat \<Rightarrow> bytes \<Rightarrow> bytes" where
  "member_of m p = slice (offset_of m) (size_of m) p"

section \<open>The three switches\<close>

lemmas cases_defs = set_cases1_def set_cases2_def get_cases1_def get_cases2_def
  to_flash_cases1_def to_flash_cases2_def set_cases_def get_cases_def to_flash_cases_def

fun action_ok :: "member_action \<Rightarrow> bool" where
  "action_ok Whole = True"
| "action_ok (Member m) = (m < 62)"
| "action_ok (Str m) = (m < 62)"
| "action_ok (Fall m a) = False"

text \<open>\<open>tls_param_set\<close> and \<open>tls_param_get\<close> treat the same identifiers alike.\<close>

lemma set_get_cases:
  assumes "map_of set_cases idn = Some a"
  shows "map_of get_cases idn = Some a \<and> action_ok a \<and> TLS_PARAM_ID_ALL \<le> idn \<and> idn < TLS_PARAM_ID_MAX"
proof -
  have "list_all (\<lambda>(i, a). map_of get_cases i = Some a \<and> action_ok a \<and> - 1 \<le> i \<and> i < TLS_PARAM_ID_MAX) set_cases"
    by (simp add: cases_defs)
  moreover have "(idn, a) \<in> set set_cases" using assms by (rule map_of_SomeD)
  ultimately show ?thesis by (auto simp: list_all_iff)
qed

lemma acquire_lock_ok [simp]: "sys_param_lock s = Some (Suc c) \<Longrightarrow> acquire_lock s = Some (s\<lparr>sys_param_lock := Some c\<rparr>)"
  by (simp add: acquire_lock_def)

lemma lock_free [simp]: "sys_param_lock s = Some c \<Longrightarrow> s\<lparr>sys_param_lock := Some c\<rparr> = s"
  by simp

lemma release_lock_upd [simp]:
  "release_lock (s\<lparr>sys_param_lock := Some c\<rparr>) = s\<lparr>sys_param_lock := Some (Suc c)\<rparr>"
  "release_lock (s\<lparr>sys_param_lock := Some c, sram_param := p\<rparr>) = s\<lparr>sys_param_lock := Some (Suc c), sram_param := p\<rparr>"
  by (simp_all add: release_lock_def)

lemma c_str_append: "0 \<notin> set xs \<Longrightarrow> c_str (xs @ 0 # ys) = Some (xs @ [0])"
  by (induction xs) auto

lemma set_ram:
  assumes "map_of set_cases idn = Some a" "arg_to_struct a (sram_param s) argv = Some p"
    and "sys_param_lock s = Some (Suc c)" "updp_mode s = 0"
  shows "tls_param_set fo l idn (Some argv) False s = Some (TLS_PARAM_STATUS_OK, s\<lparr>sram_param := p\<rparr>)"
proof -
  have "s\<lparr>sys_param_lock := Some (Suc c), sram_param := p\<rparr> = s\<lparr>sram_param := p\<rparr>" using assms(3) by simp
  then show ?thesis
    using assms set_get_cases [OF assms(1)] by (auto simp: tls_param_set_def)
qed

lemma get_ram:
  assumes "map_of set_cases idn = Some a" "struct_to_arg a argv (sram_param s) 0 = Some xs"
    and "sys_param_lock s = Some (Suc c)"
  shows "tls_param_get idn (Some argv) False s = Some (TLS_PARAM_STATUS_OK, Some xs, s)"
  using assms set_get_cases [OF assms(1)] by (auto simp: tls_param_get_def)

lemma mem_copy_ok [simp]:
  "soff + n \<le> length src \<Longrightarrow> doff + n \<le> length dst \<Longrightarrow> mem_copy dst doff src soff n = Some (patch dst doff (slice soff n src))"
  by (simp add: mem_copy_def)

lemma length_put_all:
  assumes "list_all (\<lambda>(m, k, v). m < 62 \<and> k + length v \<le> size_of m) puts" "length p = SYS_SIZE"
  shows "length (put_all puts p) = SYS_SIZE"
  using assms
proof (induction puts arbitrary: p)
  case (Cons x puts)
  obtain m k v where x: "x = (m, k, v)" by (cases x)
  have "length (patch p (offset_of m + k) v) = SYS_SIZE"
    using Cons.prems member_room [of m] by (intro trans [OF length_patch]) (auto simp: x)
  then show ?case using Cons by (simp add: put_all_def x)
qed (simp add: put_all_def)

lemma length_factory_default [simp]: "length factory_default = SYS_SIZE"
  unfolding factory_default_def
  by (rule length_put_all) (simp_all add: factory_puts_def member_eval c_bytes_def)

text \<open>The state after a reset of the chip with the given device, and one with the parameters in RAM.\<close>

definition reset_state :: "'d \<Rightarrow> 'd param_state" where
  "reset_state d = \<lparr>heap = [], junk = (\<lambda>_. 0), pdev = d, flash_param = zeros FLASH_PARAM_SIZE,
     sram_param = zeros SYS_SIZE, user_default_param = zeros SYS_SIZE, sys_param_lock = None, updp_mode = 0\<rparr>"

definition ram_state :: "'d \<Rightarrow> 'd param_state" where
  "ram_state d = (reset_state d)\<lparr>sram_param := factory_default, sys_param_lock := Some 1\<rparr>"

section \<open>Properties\<close>



text \<open>A string parameter that fits its member, with its terminator, is what a following get returns,
  and no other member changes.\<close>

theorem tls_param_set_get_string:
  assumes "map_of set_cases idn = Some (Str m)" "0 \<notin> set xs" "length xs < size_of m" "length xs < length dst"
    and "length (sram_param s) = SYS_SIZE" "sys_param_lock s = Some (Suc c)" "updp_mode s = 0"
  shows "\<exists>p. tls_param_set fo l idn (Some (xs @ 0 # ys)) False s = Some (TLS_PARAM_STATUS_OK, s\<lparr>sram_param := p\<rparr>) \<and>
    tls_param_get idn (Some dst) False (s\<lparr>sram_param := p\<rparr>) =
      Some (TLS_PARAM_STATUS_OK, Some (patch dst 0 (xs @ [0])), s\<lparr>sram_param := p\<rparr>) \<and>
    (\<forall>k<62. k \<noteq> m \<longrightarrow> member_of k p = member_of k (sram_param s)) \<and> length p = SYS_SIZE"
proof -
  have m: "m < 62" using set_get_cases [OF assms(1)] by simp
  note room = member_room [OF m]
  define p where "p = patch (sram_param s) (offset_of m) (xs @ [0])"
  have set: "tls_param_set fo l idn (Some (xs @ 0 # ys)) False s = Some (TLS_PARAM_STATUS_OK, s\<lparr>sram_param := p\<rparr>)"
    using assms room by (intro set_ram [OF assms(1)]) (auto simp: p_def str_copy_def c_str_append)
  have "drop (offset_of m) p = xs @ 0 # drop (offset_of m + (length xs + 1)) (sram_param s)"
    using room assms(5) by (simp add: p_def patch_def)
  then have "struct_to_arg (Str m) dst p 0 = Some (patch dst 0 (xs @ [0]))"
    using assms(2,4) by (simp add: str_copy_def c_str_append)
  then have get: "tls_param_get idn (Some dst) False (s\<lparr>sram_param := p\<rparr>) =
      Some (TLS_PARAM_STATUS_OK, Some (patch dst 0 (xs @ [0])), s\<lparr>sram_param := p\<rparr>)"
    using assms(6) by (intro get_ram [OF assms(1)]) simp_all
  have "member_of k p = member_of k (sram_param s)" if "k < 62" "k \<noteq> m" for k
    using member_disjoint [OF m that(1)] that(2) member_room [OF that(1)] room assms(3,5)
    unfolding member_of_def p_def by (intro slice_patch_other) auto
  moreover have "length p = SYS_SIZE" using room assms(3,5) by (simp add: p_def)
  ultimately show ?thesis using set get by blast
qed

theorem tls_param_set_get_string_witness:
  "\<exists>p. tls_param_set (board_fls nor_ctl chip_1M) layout_1M TLS_PARAM_ID_DEVNAME (Some ([0x61, 0x62] @ 0 # [])) False (ram_state board_1M) =
      Some (TLS_PARAM_STATUS_OK, (ram_state board_1M)\<lparr>sram_param := p\<rparr>) \<and>
    tls_param_get TLS_PARAM_ID_DEVNAME (Some (zeros 32)) False ((ram_state board_1M)\<lparr>sram_param := p\<rparr>) =
      Some (TLS_PARAM_STATUS_OK, Some (patch (zeros 32) 0 ([0x61, 0x62] @ [0])), (ram_state board_1M)\<lparr>sram_param := p\<rparr>) \<and>
    (\<forall>k<62. k \<noteq> M_local_device_name \<longrightarrow> member_of k p = member_of k (sram_param (ram_state board_1M))) \<and> length p = SYS_SIZE"
  by (rule tls_param_set_get_string [where c = 0]) (simp_all add: ram_state_def reset_state_def cases_defs member_eval)

text \<open>C25: \<open>tls_param_set\<close> does not bound the DNS name: a name of 32 to 63 characters returns OK and its
  tail, with the terminator, replaces the beginning of the device name.\<close>

theorem tls_param_set_dnsname_overflows:
  assumes "0 \<notin> set xs" "32 \<le> length xs" "length xs < 64"
    and "length (sram_param s) = SYS_SIZE" "sys_param_lock s = Some (Suc c)" "updp_mode s = 0"
  shows "\<exists>p. tls_param_set fo l TLS_PARAM_ID_DNSNAME (Some (xs @ [0])) False s =
      Some (TLS_PARAM_STATUS_OK, s\<lparr>sram_param := p\<rparr>) \<and>
    take (length xs - 31) (member_of M_local_device_name p) = drop 32 xs @ [0]"
proof -
  define p where "p = patch (sram_param s) 172 (xs @ [0])"
  have case_: "map_of set_cases TLS_PARAM_ID_DNSNAME = Some (Str M_local_dnsname)" by (simp add: cases_defs)
  have off: "offset_of M_local_dnsname = 172" "offset_of M_local_device_name = 204" "size_of M_local_device_name = 32"
    by (simp_all add: member_eval)
  have "tls_param_set fo l TLS_PARAM_ID_DNSNAME (Some (xs @ [0])) False s = Some (TLS_PARAM_STATUS_OK, s\<lparr>sram_param := p\<rparr>)"
    using assms by (intro set_ram [OF case_]) (auto simp: p_def str_copy_def c_str_append [of _ "[]", simplified] off)
  moreover have "take (length xs - 31) (slice 204 32 p) = drop 32 xs @ [0]"
    using assms(2-4) by (simp add: p_def slice_def patch_def min_def Suc_diff_le)
  ultimately show ?thesis using off by (auto simp: member_of_def)
qed

theorem tls_param_set_dnsname_overflows_witness:
  "\<exists>p. tls_param_set (board_fls nor_ctl chip_1M) layout_1M TLS_PARAM_ID_DNSNAME (Some (replicate 40 0x61 @ [0])) False (ram_state board_1M) =
      Some (TLS_PARAM_STATUS_OK, (ram_state board_1M)\<lparr>sram_param := p\<rparr>) \<and>
    take (length (replicate 40 (0x61 :: u8)) - 31) (member_of M_local_device_name p) = drop 32 (replicate 40 0x61) @ [0]"
  by (rule tls_param_set_dnsname_overflows [where c = 0]) (simp_all add: ram_state_def reset_state_def)

end
