(* ===== verification/Param_Store.thy ===== *)
theory Param_Store
  imports Param
begin

text \<open>
  What the parameter store of \<open>Param\<close> keeps across a reset. \<open>sealed_image\<close> is the partition that
  \<open>param_to_flash\<close> writes, \<open>recover\<close> the partition that \<open>tls_param_init\<close> takes the parameters from, a
  function of the contents of the flash only, and \<open>store_ok\<close> the invariant between the contents of the
  flash and the mirror of the current partition in RAM. The locale \<open>param_flash\<close> extends the contract
  of the flash driver by the place of the partitions, and is met by every board with the flash map
  that \<open>tls_fls_layout_init\<close> gives it.
\<close>

section \<open>Partitions\<close>

definition sealed_image :: "u16 \<Rightarrow> u16 \<Rightarrow> bytes \<Rightarrow> bytes" where
  "sealed_image n mc p =
     (let h = le32 TLS_PARAM_MAGIC @ le16 n @ le16 mc @ le32 0 @ le16 0 @ le16 828 @ p
      in h @ le32 (get_crc32 h))"

text \<open>What \<open>tls_param_init\<close> accepts, with the number of its place, and what it takes for damaged.\<close>

definition intact :: "u16 \<Rightarrow> bytes \<Rightarrow> bool" where
  "intact n x \<longleftrightarrow> length x = FLASH_PARAM_SIZE \<and> fp_magic x = TLS_PARAM_MAGIC \<and> fp_length x = 828 \<and>
     get_crc32 (take 824 x) = get_u32 824 x \<and> fp_partition_num x = n"

definition spoilt :: "bytes \<Rightarrow> bool" where
  "spoilt x \<longleftrightarrow> fp_magic x \<noteq> TLS_PARAM_MAGIC \<or>
     4 \<le> unat (fp_length x) \<and> unat (fp_length x) \<le> length x \<and>
     get_crc32 (take (unat (fp_length x) - 4) x) \<noteq> get_u32 (unat (fp_length x) - 4) x"

lemma spoilt_not_intact: "spoilt x \<Longrightarrow> \<not> intact n x"
  by (auto simp: spoilt_def intact_def)

lemma patch_left: "off + length zs \<le> length xs \<Longrightarrow> patch (xs @ ys) off zs = patch xs off zs @ ys"
  by (simp add: patch_def)

lemma list16: "length xs = 16 \<Longrightarrow>
  \<exists>a b c d e f g h i j k l m n p q. xs = [a, b, c, d, e, f, g, h, i, j, k, l, m, n, p, q]"
  by (auto simp: numeral_eq_Suc length_Suc_conv)

lemmas fp_fields = fp_magic_def fp_partition_num_def fp_modify_count_def fp_length_def fp_parameters_def
  get_u32_def get_u16_def

lemma image_fields:
  assumes "length p = SYS_SIZE"
  shows "length (sealed_image n mc p) = FLASH_PARAM_SIZE" "fp_magic (sealed_image n mc p) = TLS_PARAM_MAGIC"
    "fp_partition_num (sealed_image n mc p) = n" "fp_modify_count (sealed_image n mc p) = mc" "fp_length (sealed_image n mc p) = 828"
    "fp_parameters (sealed_image n mc p) = p" "get_u32 824 (sealed_image n mc p) = get_crc32 (take 824 (sealed_image n mc p))"
  using assms by (simp_all add: sealed_image_def fp_fields slice_def Let_def)

lemma intact_image: "length p = SYS_SIZE \<Longrightarrow> intact n (sealed_image n mc p)"
  by (simp add: intact_def image_fields)

lemma seal_image:
  assumes "length fp = FLASH_PARAM_SIZE"
  shows "seal_flash_param mc pn fp =
    sealed_image (if pn < 0 then (fp_partition_num fp + 1) AND 1 else of_int pn)
      (if mc < 0 then fp_modify_count fp + 1 else of_int mc) (fp_parameters fp)"
proof -
  define p where "p = fp_parameters fp"
  obtain hdr rest where fp: "fp = hdr @ p @ rest" "length hdr = 16" "length rest = 4" "length p = SYS_SIZE"
  proof
    show "fp = take 16 fp @ p @ drop 824 fp"
      by (simp add: p_def fp_parameters_def slice_def flip: append_assoc take_add) 
  qed (use assms in \<open>simp_all add: p_def fp_parameters_def\<close>)
  obtain a b c d e f g h i j k l m n q r where hdr: "hdr = [a, b, c, d, e, f, g, h, i, j, k, l, m, n, q, r]"
    using list16 [OF fp(2)] by blast
  have fields: "fp_modify_count (patch (patch fp 0 (le32 TLS_PARAM_MAGIC)) 14 (le16 828)) = fp_modify_count fp"
      "fp_partition_num (patch (patch (patch fp 0 (le32 TLS_PARAM_MAGIC)) 14 (le16 828)) 6 (le16 x)) = fp_partition_num fp" for x
    using assms by (simp_all add: fp_modify_count_def fp_partition_num_def get_u16_def slice_patch_other)
  have chain: "patch (patch (patch (patch (patch (patch fp 0 (le32 TLS_PARAM_MAGIC)) 14 (le16 828)) 6 (le16 x)) 4 (le16 y))
        12 (le16 0)) 8 (le32 0) =
      (le32 TLS_PARAM_MAGIC @ le16 y @ le16 x @ le32 0 @ le16 0 @ le16 828 @ p) @ rest" for x y
    by (simp add: fp hdr patch_left) (simp add: patch_def le32_def le16_def)
  have len: "length (le32 TLS_PARAM_MAGIC @ le16 y @ le16 x @ le32 0 @ le16 0 @ le16 828 @ p) = 824" for x y
    using fp(4) by simp
  have tail: "patch (h @ rest) 824 (le32 (get_crc32 (take 824 (h @ rest)))) = h @ le32 (get_crc32 h)"
    if "length h = 824" for h
    using that fp(3) by (simp add: patch_def)
  show ?thesis
    unfolding seal_flash_param_def Let_def fields chain sealed_image_def tail [OF len] p_def [symmetric] by simp
qed

section \<open>What a reset recovers\<close>

abbreviation (input) other :: "u16 \<Rightarrow> u16" where "other n \<equiv> (n + 1) AND 1"

definition part_image :: "layout \<Rightarrow> memory \<Rightarrow> u16 \<Rightarrow> bytes" where
  "part_image l m n = mem_get m (part_addr l n) FLASH_PARAM_SIZE"

lemma length_part_image [simp]: "length (part_image l m n) = FLASH_PARAM_SIZE"
  by (simp add: part_image_def)

definition recover :: "layout \<Rightarrow> memory \<Rightarrow> bytes option" where
  "recover l m =
     (let a = part_image l m 0; b = part_image l m 1
      in if intact 0 a then Some (if intact 1 b \<and> fp_modify_count a < fp_modify_count b then b else a)
         else if intact 1 b then Some b else None)"

definition readable :: "u16 \<Rightarrow> bytes \<Rightarrow> bool" where
  "readable n x \<longleftrightarrow> intact n x \<or> spoilt x"

text \<open>\<open>fp\<close> mirrors its partition, the other one is either damaged or not newer, and a reset finds the
  parameters of \<open>fp\<close>.\<close>

definition store_ok :: "layout \<Rightarrow> memory \<Rightarrow> bytes \<Rightarrow> bool" where
  "store_ok l m fp \<longleftrightarrow>
     (let n = fp_partition_num fp; x = part_image l m (other n)
      in (n = 0 \<or> n = 1) \<and> intact n fp \<and> part_image l m n = fp \<and> readable (other n) x \<and>
         (intact (other n) x \<longrightarrow> fp_modify_count x \<le> fp_modify_count fp) \<and>
         map_option fp_parameters (recover l m) = Some (fp_parameters fp))"

definition parts_apart :: "layout \<Rightarrow> bool" where
  "parts_apart l \<longleftrightarrow> TLS_FLASH_PARAM2_ADDR l = TLS_FLASH_PARAM1_ADDR l + 4096 \<and>
     TLS_FLASH_PARAM_RESTORE_ADDR l = TLS_FLASH_PARAM2_ADDR l + 4096"

lemma part_image_upd_other:
  assumes "parts_apart l" "length x = FLASH_PARAM_SIZE" "n = 0 \<and> k = 1 \<or> n = 1 \<and> k = 0"
  shows "part_image l (mem_upd m (part_addr l n) x) k = part_image l m k"
  using assms by (auto simp: part_image_def part_addr_def parts_apart_def intro!: mem_get_upd_other)

lemma part_image_upd_same:
  "length x = FLASH_PARAM_SIZE \<Longrightarrow> part_image l (mem_upd m (part_addr l n) x) n = x"
  using mem_get_upd_same [of m "part_addr l n" x] by (simp add: part_image_def)

lemma store_ok_newer:
  assumes "parts_apart l" "n = 0 \<or> n = 1" "length p = SYS_SIZE" "readable (other n) (part_image l m (other n))"
    and "intact (other n) (part_image l m (other n)) \<Longrightarrow> fp_modify_count (part_image l m (other n)) < mc"
  shows "store_ok l (mem_upd m (part_addr l n) (sealed_image n mc p)) (sealed_image n mc p)"
proof -
  have len: "length (sealed_image n mc p) = FLASH_PARAM_SIZE" using image_fields(1) [OF assms(3)] .
  note im = image_fields [OF assms(3)] intact_image [OF assms(3)]
  show ?thesis
    using assms(2,4,5) part_image_upd_same [OF len, of l m n]
      part_image_upd_other [OF assms(1) len, of n "other n" m]
    by (auto simp: store_ok_def Let_def im recover_def readable_def dest: spoilt_not_intact)
qed

text \<open>The first partition of the factory defaults gets the same count as the second.\<close>

lemma store_ok_twin:
  assumes "parts_apart l" "length p = SYS_SIZE" "part_image l m 0 = sealed_image 0 mc p"
  shows "store_ok l (mem_upd m (part_addr l 1) (sealed_image 1 mc p)) (sealed_image 1 mc p)"
proof -
  have len: "length (sealed_image 1 mc p) = FLASH_PARAM_SIZE" using image_fields(1) [OF assms(2)] .
  show ?thesis
    using assms(3) part_image_upd_same [OF len, of l m 1] part_image_upd_other [OF assms(1) len, of 1 0 m]
    by (simp add: store_ok_def Let_def image_fields [OF assms(2)] intact_image [OF assms(2)] recover_def readable_def)
qed

lemma store_ok_recover: "store_ok l m fp \<Longrightarrow> \<exists>x. recover l m = Some x \<and> fp_parameters x = fp_parameters fp"
  by (auto simp: store_ok_def Let_def)

lemma store_ok_cases:
  assumes "store_ok l m fp"
  obtains n where "n = 0 \<or> n = 1" "fp_partition_num fp = n" "intact n fp" "part_image l m n = fp"
    "length fp = FLASH_PARAM_SIZE" "readable (other n) (part_image l m (other n))"
    "intact (other n) (part_image l m (other n)) \<longrightarrow> fp_modify_count (part_image l m (other n)) \<le> fp_modify_count fp"
  using assms by (auto simp: store_ok_def Let_def intact_def)

lemma store_ok_length: "store_ok l m fp \<Longrightarrow> length fp = FLASH_PARAM_SIZE"
  by (simp add: store_ok_def intact_def Let_def)

lemma count_succ:
  assumes "unat (mc :: u16) < 65535"
  shows "unat (mc + 1) = unat mc + 1"
  using assms by (simp add: unat_word_ariths)

lemma store_ok_next:
  assumes "parts_apart l" "store_ok l m fp" "unat (fp_modify_count fp) < 65535" "length p = SYS_SIZE"
  shows "store_ok l (mem_upd m (part_addr l (other (fp_partition_num fp)))
      (sealed_image (other (fp_partition_num fp)) (fp_modify_count fp + 1) p))
    (sealed_image (other (fp_partition_num fp)) (fp_modify_count fp + 1) p)"
proof -
  obtain n where n: "n = 0 \<or> n = 1" "fp_partition_num fp = n" "intact n fp" "part_image l m n = fp"
    using store_ok_cases [OF assms(2)] by metis
  have "fp_modify_count fp < fp_modify_count fp + 1"
    using count_succ [OF assms(3)] by (simp add: word_less_nat_alt)
  then show ?thesis
    using n by (intro store_ok_newer [OF assms(1) _ assms(4)]) (auto simp: readable_def)
qed

lemma store_ok_recovered:
  assumes "recover l m = Some x" "readable 0 (part_image l m 0)" "readable 1 (part_image l m 1)"
  shows "store_ok l m x"
  using assms
  by (auto simp: recover_def store_ok_def Let_def intact_def readable_def split: if_splits dest: spoilt_not_intact)

lemma part_image_torn:
  assumes "parts_apart l" "n = 0 \<or> n = 1"
    and "\<And>a. a < part_addr l (other n) \<or> part_addr l (other n) + 4096 \<le> a \<Longrightarrow> m' a = m a"
  shows "part_image l m' n = part_image l m n"
proof -
  have "m' (part_addr l n + i) = m (part_addr l n + i)" if "i < 828" for i
    using that assms(2) by (intro assms(3)) (use assms(1) in \<open>auto simp: part_addr_def parts_apart_def\<close>)
  then show ?thesis by (intro nth_equalityI) (auto simp: part_image_def nth_mem_get)
qed

text \<open>A write to the other partition that was cut short leaves the parameters that were saved before.\<close>

lemma recover_torn:
  assumes "parts_apart l" "store_ok l m fp" "spoilt (part_image l m' (other (fp_partition_num fp)))"
    and "\<And>a. a < part_addr l (other (fp_partition_num fp)) \<or> part_addr l (other (fp_partition_num fp)) + 4096 \<le> a \<Longrightarrow> m' a = m a"
  shows "recover l m' = Some fp"
proof -
  obtain n where n: "n = 0 \<or> n = 1" "fp_partition_num fp = n" "intact n fp" "part_image l m n = fp"
    using store_ok_cases [OF assms(2)] by metis
  have "part_image l m' n = part_image l m n"
    using n(2) assms(4) by (intro part_image_torn [OF assms(1) n(1)]) simp
  then show ?thesis
    using n assms(3) by (auto simp: recover_def Let_def dest: spoilt_not_intact)
qed

text \<open>All that counts are the images of the two partitions, and a good store whose count has not reached the
  end is one that a reset repairs.\<close>

lemma store_ok_cong:
  "part_image l m' 0 = part_image l m 0 \<Longrightarrow> part_image l m' 1 = part_image l m 1 \<Longrightarrow>
   store_ok l m' fp = store_ok l m fp"
  by (auto simp: store_ok_def recover_def Let_def)

lemma store_ok_count:
  assumes "store_ok l m fp" "unat (fp_modify_count fp) < 65535"
  shows "intact 0 (part_image l m 0) \<and> intact 1 (part_image l m 1) \<or>
    (\<forall>x. recover l m = Some x \<longrightarrow> unat (fp_modify_count x) < 65535)"
  using assms by (auto simp: store_ok_def recover_def Let_def)

lemma outside_sector: "4096 dvd a \<Longrightarrow> i < a \<or> a + 4096 \<le> i \<Longrightarrow> i div 4096 \<noteq> a div (4096 :: nat)"
  by (auto elim!: dvdE)

text \<open>The state between two calls: the flash is ready, the lock free, RAM and flash agree.\<close>

definition param_ready :: "('d \<Rightarrow> bool) \<Rightarrow> ('d \<Rightarrow> memory) \<Rightarrow> layout \<Rightarrow> ('d, 'z) param_state_scheme \<Rightarrow> bool" where
  "param_ready drv_ok cont l s \<longleftrightarrow>
     drv_ok (pdev s) \<and> heap s = [] \<and> (\<exists>c. sys_param_lock s = Some (Suc c)) \<and> length (sram_param s) = SYS_SIZE \<and>
     store_ok l (cont (pdev s)) (flash_param s)"

text \<open>The copies keep the lengths, and \<open>param_to_flash\<close> does not touch the header.\<close>

lemma copy_length:
  "mem_copy dst off src soff n = Some dst' \<Longrightarrow> length dst' = length dst"
  "str_copy dst off src soff = Some dst' \<Longrightarrow> length dst' = length dst"
  by (auto simp: mem_copy_def str_copy_def buf_put_def bind_eq_Some_conv split: if_splits)

lemma copy_take:
  "mem_copy dst (base + k) src soff n = Some dst' \<Longrightarrow> take base dst' = take base dst"
  "str_copy dst (base + k) src soff = Some dst' \<Longrightarrow> take base dst' = take base dst"
  by (auto simp: mem_copy_def str_copy_def buf_put_def patch_def bind_eq_Some_conv min_def split: if_splits)

lemma struct_to_struct_frame:
  "struct_to_struct a dst base src = Some dst' \<Longrightarrow> length dst' = length dst \<and> take base dst' = take base dst"
proof (induction a arbitrary: dst)
  case (Fall m a)
  then obtain y where "mem_copy dst (base + offset_of m) src (offset_of m) (size_of m) = Some y"
      "struct_to_struct a y base src = Some dst'"
    by (auto simp: bind_eq_Some_conv)
  then show ?case using Fall.IH [of y] copy_length(1) copy_take(1) by metis
qed (use copy_take [where k = 0] in \<open>auto simp: copy_length copy_take\<close>)

lemma arg_to_struct_length: "arg_to_struct a dst argv = Some dst' \<Longrightarrow> length dst' = length dst"
proof (induction a arbitrary: dst)
  case (Fall m a)
  then obtain y where "mem_copy dst (offset_of m) argv 0 (size_of m) = Some y" "arg_to_struct a y argv = Some dst'"
    by (auto simp: bind_eq_Some_conv)
  then show ?case using Fall.IH [of y] copy_length(1) by metis
qed (auto simp: copy_length)

lemma member_paths:
  assumes "m < 62" "size_of m \<le> length argv" "length sr = SYS_SIZE" "length fp = FLASH_PARAM_SIZE"
  shows "arg_to_struct (Member m) sr argv = Some (patch sr (offset_of m) (take (size_of m) argv))"
    "slice (offset_of m) (size_of m) (patch sr (offset_of m) (take (size_of m) argv)) = take (size_of m) argv"
    "mem_copy fp (16 + offset_of m) (patch sr (offset_of m) (take (size_of m) argv)) (offset_of m) (size_of m) =
      Some (patch fp (16 + offset_of m) (take (size_of m) argv))"
proof -
  note room = member_room [OF assms(1)]
  show "arg_to_struct (Member m) sr argv = Some (patch sr (offset_of m) (take (size_of m) argv))"
    using assms room by (simp add: slice_def)
  show s: "slice (offset_of m) (size_of m) (patch sr (offset_of m) (take (size_of m) argv)) = take (size_of m) argv"
    using slice_patch_same [of "offset_of m" "take (size_of m) argv" sr] assms room by simp
  show "mem_copy fp (16 + offset_of m) (patch sr (offset_of m) (take (size_of m) argv)) (offset_of m) (size_of m) =
      Some (patch fp (16 + offset_of m) (take (size_of m) argv))"
    using assms room s by simp
qed

text \<open>The bytes of the argument that a case of \<open>tls_param_set\<close> stores: as many as the member has, or the
  string with its terminator.\<close>

fun arg_bytes :: "member_action \<Rightarrow> bytes \<Rightarrow> bytes option" where
  "arg_bytes (Member m) argv = buf_get argv 0 (size_of m)"
| "arg_bytes (Str m) argv = c_str argv"
| "arg_bytes Whole argv = buf_get argv 0 SYS_SIZE"
| "arg_bytes (Fall m act) argv = None"

lemma c_str_again: "c_str argv = Some v \<Longrightarrow> c_str (v @ ys) = Some v"
  by (induction argv arbitrary: v) (auto split: if_splits)

text \<open>Every identifier but \<open>TLS_PARAM_ID_ALL\<close> and \<open>TLS_PARAM_ID_AUTO_TRIGGER_PERIOD\<close> is one member in the
  switches of \<open>tls_param_set\<close> and of \<open>param_to_flash\<close>.\<close>

lemma member_cases:
  assumes "map_of set_cases idn = Some a" "a = Member m \<or> a = Str m" "idn \<noteq> TLS_PARAM_ID_AUTO_TRIGGER_PERIOD"
  shows "map_of to_flash_cases idn = Some (Member m) \<or> a = Str m \<and> map_of to_flash_cases idn = Some (Str m)"
proof -
  have "list_all (\<lambda>(i, a). i = TLS_PARAM_ID_AUTO_TRIGGER_PERIOD \<or>
      (case a of Member m \<Rightarrow> map_of to_flash_cases i = Some (Member m)
       | Str m \<Rightarrow> map_of to_flash_cases i = Some (Member m) \<or> map_of to_flash_cases i = Some (Str m)
       | _ \<Rightarrow> True)) set_cases"
    by (simp add: cases_defs)
  moreover have "(idn, a) \<in> set set_cases" using assms(1) by (rule map_of_SomeD)
  ultimately show ?thesis using assms(2,3) by (fastforce simp: list_all_iff)
qed

lemma stored_paths:
  assumes "m < 62" "a = Member m \<or> a = Str m" "b = Member m \<or> a = Str m \<and> b = Str m"
    and "arg_bytes a argv = Some v" "length v \<le> size_of m" "length sr = SYS_SIZE" "length fp = FLASH_PARAM_SIZE"
  obtains w where "arg_to_struct a sr argv = Some (patch sr (offset_of m) v)"
    "struct_to_struct b fp 16 (patch sr (offset_of m) v) = Some (patch fp (16 + offset_of m) w)"
    "length v \<le> length w" "length w \<le> size_of m" "take (length v) w = v"
proof -
  note room = member_room [OF assms(1)]
  let ?p = "patch sr (offset_of m) v"
  have set: "arg_to_struct a sr argv = Some ?p"
    using assms(2,4-6) room by (auto simp: mem_copy_def str_copy_def buf_put_def buf_get_def split: if_splits)
  have lp: "length ?p = SYS_SIZE" using assms(5,6) room by simp
  have drop: "drop (offset_of m) ?p = v @ drop (offset_of m + length v) sr"
    using assms(5,6) room by (simp add: patch_def)
  show ?thesis
  proof (cases "b = Member m")
    case True
    let ?w = "slice (offset_of m) (size_of m) ?p"
    have "struct_to_struct b fp 16 ?p = Some (patch fp (16 + offset_of m) ?w)"
      using True lp assms(7) room by simp
    moreover have "take (length v) ?w = v" using drop assms(5) by (simp add: slice_def min_absorb1)
    moreover have "length ?w = size_of m" using lp room by simp
    ultimately show ?thesis using that [OF set] assms(5) by simp
  next
    case False
    then have "a = Str m" "b = Str m" using assms(3) by auto
    then have "c_str (drop (offset_of m) ?p) = Some v" using assms(4) drop c_str_again by simp
    then have "struct_to_struct b fp 16 ?p = Some (patch fp (16 + offset_of m) v)"
      using \<open>b = Str m\<close> assms(5,7) room by (simp add: str_copy_def buf_put_def)
    then show ?thesis using that [OF set] assms(5) by simp
  qed
qed

lemma member_parameters:
  assumes "k < 62" "length x = FLASH_PARAM_SIZE"
  shows "member_of k (fp_parameters x) = slice (16 + offset_of k) (size_of k) x"
  using member_room [OF assms(1)] assms(2)
  by (intro nth_equalityI) (auto simp: member_of_def fp_parameters_def nth_slice add.assoc)

lemma header_fields:
  assumes "take 16 fp' = take 16 fp"
  shows "fp_modify_count fp' = fp_modify_count fp" "fp_partition_num fp' = fp_partition_num fp"
proof -
  have cut: "slice k n (take 16 fp) = slice k n fp" if "k + n \<le> 16" for k n and fp :: bytes
    using that by (simp add: slice_def drop_take min_def)
  have "slice k n fp' = slice k n fp" if "k + n \<le> 16" for k n
    using cut [OF that, of fp] cut [OF that, of fp'] assms by simp
  then show "fp_modify_count fp' = fp_modify_count fp" "fp_partition_num fp' = fp_partition_num fp"
    by (simp_all add: fp_fields)
qed

section \<open>The state during the initialisation\<close>

text \<open>Only the device and the two structures change while the partitions are scanned.\<close>

definition st :: "('d, 'z) param_state_scheme \<Rightarrow> bytes \<Rightarrow> bytes \<Rightarrow> 'd \<Rightarrow> ('d, 'z) param_state_scheme" where
  "st s fp sr d = s\<lparr>flash_param := fp, sram_param := sr, pdev := d\<rparr>"

lemma st_simps [simp]:
  "pdev (st s fp sr d) = d" "flash_param (st s fp sr d) = fp" "sram_param (st s fp sr d) = sr"
  "heap (st s fp sr d) = heap s" "updp_mode (st s fp sr d) = updp_mode s" "junk (st s fp sr d) = junk s" "sys_param_lock (st s fp sr d) = sys_param_lock s"
  "(st s fp sr d)\<lparr>pdev := d'\<rparr> = st s fp sr d'" "(st s fp sr d)\<lparr>flash_param := fp', sram_param := sr'\<rparr> = st s fp' sr' d"
  "(st s fp sr d)\<lparr>sram_param := sr'\<rparr> = st s fp sr' d" "(st s fp sr d)\<lparr>flash_param := fp', pdev := d'\<rparr> = st s fp' sr d'"
  "(st s fp sr d)\<lparr>flash_param := fp', sram_param := sr', pdev := d'\<rparr> = st s fp' sr' d'"
  by (simp_all add: st_def)

lemma release_lock_simps [simp]:
  "sram_param (release_lock s) = sram_param s" "flash_param (release_lock s) = flash_param s"
  "pdev (release_lock s) = pdev s" "heap (release_lock s) = heap s" "updp_mode (release_lock s) = updp_mode s"
  by (simp_all add: release_lock_def)

lemma judge_spoilt: "spoilt x \<Longrightarrow> judge_partition i x v s = Some (mark_damaged i v, s)"
  by (auto simp: spoilt_def judge_partition_def Let_def)

lemma judge_intact:
  "intact n x \<Longrightarrow> judge_partition i x v (st s fp sr d) =
    Some (v\<lparr>flash := zeros FLASH_PARAM_SIZE\<rparr>,
      if fp_magic fp = 0 \<or> fp_modify_count fp < fp_modify_count x then st s x (fp_parameters x) d else st s fp sr d)"
  by (auto simp: intact_def judge_partition_def Let_def)

lemma mark_damaged_simps [simp]:
  "is_damage (mark_damaged i v) = (is_damage v)[i := True]" "damaged (mark_damaged i v) = Suc (damaged v)"
  "tryrestore (mark_damaged i v) = tryrestore v" "flash (mark_damaged i v) = flash v"
  by (simp_all add: mark_damaged_def)

lemma try_restore_no: "tryrestore v \<or> damaged v < 2 \<Longrightarrow> try_restore fo l v s = Some (False, v, s)"
  by (auto simp: try_restore_def)

declare scan_partitions.simps [simp del]

lemma scan_end [simp]: "scan_partitions fo l (Suc (Suc 0)) v s = Some (v, s)"
  by (subst scan_partitions.simps) simp

lemma zeros_magic [simp]: "fp_magic (zeros FLASH_PARAM_SIZE) = 0"
  by (simp add: fp_fields zeros_def slice_def of_le32_def take_replicate drop_replicate)

section \<open>Power cuts\<close>

text \<open>The flash of a device whose power fails: \<open>k\<close> is one more than the number of flash operations that
  still complete. The operation that is under way when the power fails leaves what \<open>torn\<close> says when it
  writes or erases, and nothing changes after that; what the functions then return does not matter,
  the processor does not run any more.\<close>

definition cut_fls :: "(nat \<Rightarrow> bytes option \<Rightarrow> 'd \<Rightarrow> 'd) \<Rightarrow> 'd fls_ops \<Rightarrow> ('d \<times> nat) fls_ops" where
  "cut_fls torn fo =
     \<lparr>fls_read = \<lambda>a buf n (d, k). (if k \<le> 1 then Some (TLS_FLS_STATUS_EIO, buf, (d, 0))
        else map_option (\<lambda>(err, buf, d). (err, buf, (d, k - 1))) (fls_read fo a buf n d)),
      fls_write = \<lambda>a buf n (d, k). (if k = 0 then Some (TLS_FLS_STATUS_EIO, (d, 0))
        else if k = 1 then Some (TLS_FLS_STATUS_EIO, (torn a (map_option (take n) buf) d, 0))
        else map_option (\<lambda>(err, d). (err, (d, k - 1))) (fls_write fo a buf n d)),
      fls_erase = \<lambda>sec (d, k). (if k = 0 then Some (TLS_FLS_STATUS_EIO, (d, 0))
        else if k = 1 then Some (TLS_FLS_STATUS_EIO, (torn (sec * 4096) None d, 0))
        else map_option (\<lambda>(err, d). (err, (d, k - 1))) (fls_erase fo sec d)),
      fls_total = \<lambda>(d, k). fls_total fo d\<rparr>"

lemma cut_fls_sel [simp]:
  "fls_read (cut_fls torn fo) a buf n (d, k) = (if k \<le> 1 then Some (TLS_FLS_STATUS_EIO, buf, (d, 0))
    else map_option (\<lambda>(err, buf, d). (err, buf, (d, k - 1))) (fls_read fo a buf n d))"
  "fls_write (cut_fls torn fo) a buf n (d, k) = (if k = 0 then Some (TLS_FLS_STATUS_EIO, (d, 0))
    else if k = 1 then Some (TLS_FLS_STATUS_EIO, (torn a (map_option (take n) buf) d, 0))
    else map_option (\<lambda>(err, d). (err, (d, k - 1))) (fls_write fo a buf n d))"
  by (simp_all add: cut_fls_def)

text \<open>The same state of the parameter store with the power supply of the device.\<close>

definition powered :: "nat \<Rightarrow> ('d, 'z) param_state_scheme \<Rightarrow> ('d \<times> nat, 'z) param_state_scheme" where
  "powered k s = \<lparr>heap = heap s, junk = junk s, pdev = (pdev s, k), flash_param = flash_param s, sram_param = sram_param s,
     user_default_param = user_default_param s, sys_param_lock = sys_param_lock s, updp_mode = updp_mode s,
     \<dots> = param_state.more s\<rparr>"

lemma powered_sel [simp]:
  "heap (powered k s) = heap s" "junk (powered k s) = junk s" "pdev (powered k s) = (pdev s, k)"
  "flash_param (powered k s) = flash_param s" "sram_param (powered k s) = sram_param s"
  "user_default_param (powered k s) = user_default_param s" "sys_param_lock (powered k s) = sys_param_lock s"
  "updp_mode (powered k s) = updp_mode s"
  by (simp_all add: powered_def)

lemma powered_upd [simp]:
  "(powered k s)\<lparr>sram_param := p\<rparr> = powered k (s\<lparr>sram_param := p\<rparr>)"
  "(powered k s)\<lparr>flash_param := p\<rparr> = powered k (s\<lparr>flash_param := p\<rparr>)"
  "(powered k s)\<lparr>sys_param_lock := c\<rparr> = powered k (s\<lparr>sys_param_lock := c\<rparr>)"
  "(powered k s)\<lparr>pdev := (d, j)\<rparr> = powered j (s\<lparr>pdev := d\<rparr>)"
  "release_lock (powered k s) = powered k (release_lock s)"
  by (simp_all add: powered_def release_lock_def)

text \<open>What an interrupted write or erase may do, over the contents of the flash: only the sector it was
  to change is affected, and of an interrupted write of a whole parameter structure at least so much can
  be told that the place holds the old bytes, or all new ones, or is found damaged.\<close>

definition torn_ok :: "('d \<Rightarrow> bool) \<Rightarrow> ('d \<Rightarrow> memory) \<Rightarrow> (nat \<Rightarrow> bytes option \<Rightarrow> 'd \<Rightarrow> 'd) \<Rightarrow> bool" where
  "torn_ok drv_ok cont torn \<longleftrightarrow>
     (\<forall>a buf d. drv_ok d \<longrightarrow> drv_ok (torn a buf d) \<and>
        (\<forall>i. i div 4096 \<noteq> a div 4096 \<longrightarrow> cont (torn a buf d) i = cont d i)) \<and>
     (\<forall>a x d. drv_ok d \<and> length x = FLASH_PARAM_SIZE \<longrightarrow>
        (let y = mem_get (cont (torn a (Some x) d)) a FLASH_PARAM_SIZE
         in y = mem_get (cont d) a FLASH_PARAM_SIZE \<or> y = x \<or> spoilt y))"

section \<open>The parameter functions on a flash\<close>

locale param_flash = flash_client wf contents accessible fo fsize
  for wf :: "'d \<Rightarrow> bool" and contents accessible and fo :: "'d fls_ops" and fsize +
  fixes l :: layout
  assumes parts: "parts_apart l"
    and part_access: "accessible (TLS_FLASH_PARAM1_ADDR l) FLASH_PARAM_SIZE" "accessible (TLS_FLASH_PARAM2_ADDR l) FLASH_PARAM_SIZE"
    and restore_sector: "4096 dvd TLS_FLASH_PARAM_RESTORE_ADDR l" "FLASH_BASE_ADDR \<le> TLS_FLASH_PARAM_RESTORE_ADDR l"
      "TLS_FLASH_PARAM_RESTORE_ADDR l - FLASH_BASE_ADDR < fsize"
    and user_access: "accessible (TLS_FLASH_PARAM_DEFAULT l) 4" "accessible (TLS_FLASH_PARAM_DEFAULT l + 4) SYS_SIZE"
      "accessible (TLS_FLASH_PARAM_DEFAULT l + 4 + SYS_SIZE) 4"
begin

lemma addr_access: "accessible (part_addr l n) FLASH_PARAM_SIZE"
  using part_access by (simp add: part_addr_def)

lemma commit_ok:
  assumes "wf (pdev s)" "heap s = []" "length (flash_param s) = FLASH_PARAM_SIZE"
  shows "\<exists>d. commit_flash_param fo l s = Some (TLS_PARAM_STATUS_OK, s\<lparr>pdev := d\<rparr>) \<and> wf d \<and>
    contents d = mem_upd (contents (pdev s)) (part_addr l (fp_partition_num (flash_param s))) (flash_param s)"
proof -
  let ?fp = "flash_param s" and ?a = "part_addr l (fp_partition_num (flash_param s))"
  obtain d1 where d1: "fls_write fo ?a (Some ?fp) FLASH_PARAM_SIZE (pdev s) = Some (TLS_FLS_STATUS_OK, d1)" "wf d1"
      "contents d1 = mem_upd (contents (pdev s)) ?a ?fp"
    using wrE [OF assms(1) addr_access, of ?fp] assms(3) by auto
  obtain d2 where d2: "fls_read fo ?a (Some (fresh FLASH_PARAM_SIZE s)) FLASH_PARAM_SIZE d1 =
      Some (TLS_FLS_STATUS_OK, Some (mem_get (contents d1) ?a FLASH_PARAM_SIZE), d2)" "wf d2" "contents d2 = contents d1"
    using rdE [OF d1(2) addr_access, of "fresh FLASH_PARAM_SIZE s" "fp_partition_num ?fp"] by (auto simp: patch_all)
  have "mem_get (contents d1) ?a FLASH_PARAM_SIZE = ?fp"
    using mem_get_upd_same [of "contents (pdev s)" ?a ?fp] assms(3) d1(3) by simp
  then have "param_flash_verify fo ?a ?fp FLASH_PARAM_SIZE (s\<lparr>pdev := d1\<rparr>) = Some (1, s\<lparr>pdev := d2\<rparr>)"
    using d2(1) assms(2) by (simp add: param_flash_verify_def fresh_def)
  then show ?thesis using d1 d2 by (intro exI [of _ d2]) (simp add: commit_flash_param_def Let_def)
qed

lemma param_to_flash_ok:
  assumes "wf (pdev s)" "heap s = []" "TLS_PARAM_ID_ALL \<le> idn" "idn < TLS_PARAM_ID_MAX"
    and "map_of to_flash_cases idn = Some a" "struct_to_struct a (flash_param s) 16 (sram_param s) = Some fp1"
    and "length fp1 = FLASH_PARAM_SIZE" and fp: "fp = seal_flash_param mc pn fp1"
  shows "\<exists>d. param_to_flash fo l idn mc pn s = Some (TLS_PARAM_STATUS_OK, s\<lparr>flash_param := fp, pdev := d\<rparr>) \<and> wf d \<and>
    contents d = mem_upd (contents (pdev s)) (part_addr l (fp_partition_num fp)) fp"
proof -
  have len: "length fp = FLASH_PARAM_SIZE"
    unfolding fp seal_image [OF assms(7)] by (rule image_fields) (simp add: fp_parameters_def assms(7))
  show ?thesis
    using commit_ok [of "s\<lparr>flash_param := fp\<rparr>"] assms(1-7) len by (auto simp: param_to_flash_def fp [symmetric])
qed

lemma write_all_ok:
  assumes "wf (pdev s)" "heap s = []" "length (flash_param s) = FLASH_PARAM_SIZE" "length (sram_param s) = SYS_SIZE"
    and "fp = sealed_image (if pn < 0 then other (fp_partition_num (flash_param s)) else of_int pn)
      (if mc < 0 then fp_modify_count (flash_param s) + 1 else of_int mc) (sram_param s)"
  shows "\<exists>d. param_to_flash fo l TLS_PARAM_ID_ALL mc pn s = Some (TLS_PARAM_STATUS_OK, s\<lparr>flash_param := fp, pdev := d\<rparr>) \<and>
    wf d \<and> contents d = mem_upd (contents (pdev s)) (part_addr l (fp_partition_num fp)) fp"
proof (rule param_to_flash_ok [OF assms(1,2)])
  let ?fp1 = "patch (flash_param s) 16 (sram_param s)"
  show "map_of to_flash_cases TLS_PARAM_ID_ALL = Some Whole" by (simp add: cases_defs)
  show "struct_to_struct Whole (flash_param s) 16 (sram_param s) = Some ?fp1"
    using assms(3,4) by (simp add: slice_def)
  show len: "length ?fp1 = FLASH_PARAM_SIZE" using assms(3,4) by simp
  have "fp_parameters ?fp1 = sram_param s" "fp_modify_count ?fp1 = fp_modify_count (flash_param s)"
      "fp_partition_num ?fp1 = fp_partition_num (flash_param s)"
    using assms(3,4) slice_patch_same [of 16 "sram_param s" "flash_param s"]
    by (simp_all add: fp_fields slice_patch_other)
  then show "fp = seal_flash_param mc pn ?fp1" unfolding seal_image [OF len] assms(5) by simp
qed simp_all

lemma check_read:
  assumes "wf d" "length (flash v) = FLASH_PARAM_SIZE" "i = 0 \<or> i = 1"
  shows "\<exists>d'. check_partition fo l i v (st s fp sr d) =
      judge_partition i (part_image l (contents d) (of_nat i)) (v\<lparr>flash := part_image l (contents d) (of_nat i)\<rparr>) (st s fp sr d') \<and>
    wf d' \<and> contents d' = contents d"
proof -
  have a: "part_addr l (of_nat i) = (if i = 0 then TLS_FLASH_PARAM1_ADDR l else TLS_FLASH_PARAM2_ADDR l)"
    using assms(3) by (auto simp: part_addr_def)
  obtain d' where "fls_read fo (part_addr l (of_nat i)) (Some (flash v)) FLASH_PARAM_SIZE d =
      Some (TLS_FLS_STATUS_OK, Some (part_image l (contents d) (of_nat i)), d')" "wf d'" "contents d' = contents d"
    using rdE [OF assms(1) addr_access, of "flash v" "of_nat i"] assms(2) by (auto simp: patch_all part_image_def)
  then show ?thesis by (auto simp: check_partition_def a)
qed

lemma check_spoilt:
  assumes "wf d" "length (flash v) = FLASH_PARAM_SIZE" "i = 0 \<or> i = 1" "spoilt (part_image l (contents d) (of_nat i))"
  shows "\<exists>d' v'. check_partition fo l i v (st s fp sr d) = Some (v', st s fp sr d') \<and> wf d' \<and> contents d' = contents d \<and>
    is_damage v' = (is_damage v)[i := True] \<and> damaged v' = Suc (damaged v) \<and> tryrestore v' = tryrestore v \<and>
    length (flash v') = FLASH_PARAM_SIZE"
  using check_read [OF assms(1-3), of s fp sr] by (auto simp: judge_spoilt [OF assms(4)])

lemma check_intact:
  assumes "wf d" "length (flash v) = FLASH_PARAM_SIZE" "i = 0 \<or> i = 1" "x = part_image l (contents d) (of_nat i)" "intact n x"
  shows "\<exists>d' v'. check_partition fo l i v (st s fp sr d) =
      Some (v', if fp_magic fp = 0 \<or> fp_modify_count fp < fp_modify_count x then st s x (fp_parameters x) d' else st s fp sr d') \<and>
    wf d' \<and> contents d' = contents d \<and> is_damage v' = is_damage v \<and> damaged v' = damaged v \<and>
    tryrestore v' = tryrestore v \<and> length (flash v') = FLASH_PARAM_SIZE"
  using check_read [OF assms(1-3), of s fp sr] judge_intact [OF assms(5)] by (fastforce simp: assms(4) [symmetric])

lemma scan_step:
  assumes "check_partition fo l i v s = Some (v', s')" "i < 2" "tryrestore v' \<or> damaged v' < 2"
  shows "scan_partitions fo l i v s = scan_partitions fo l (Suc i) v' s'"
  using assms by (subst scan_partitions.simps) (simp add: try_restore_no)

lemma scan_found:
  assumes "wf d" "recover l (contents d) = Some x" "length (flash v) = FLASH_PARAM_SIZE" "fp_magic fp = 0"
    and "readable 0 (part_image l (contents d) 0)" "readable 1 (part_image l (contents d) 1)"
    and "is_damage v = [False, False]" "damaged v = 0"
  shows "\<exists>d' v'. scan_partitions fo l 0 v (st s fp sr d) = Some (v', st s x (fp_parameters x) d') \<and> wf d' \<and>
    contents d' = contents d \<and> damaged v' < 2 \<and>
    is_damage v' = [\<not> intact 0 (part_image l (contents d) 0), \<not> intact 1 (part_image l (contents d) 1)]"
proof -
  let ?a = "part_image l (contents d) 0" and ?b = "part_image l (contents d) 1"
  show ?thesis
  proof (cases "intact 0 ?a")
    case True
    obtain d1 v1 where 1: "check_partition fo l 0 v (st s fp sr d) = Some (v1, st s ?a (fp_parameters ?a) d1)" "wf d1"
        "contents d1 = contents d" "is_damage v1 = is_damage v" "damaged v1 = 0" "length (flash v1) = FLASH_PARAM_SIZE"
      using check_intact [OF assms(1,3) _ _ True, of 0 s fp sr] assms(4,8) by auto
    have scan: "scan_partitions fo l 0 v (st s fp sr d) = scan_partitions fo l 1 v1 (st s ?a (fp_parameters ?a) d1)"
      using scan_step [OF 1(1)] 1(5) by simp
    have mag: "fp_magic ?a \<noteq> 0" using True by (simp add: intact_def)
    show ?thesis
    proof (cases "intact 1 ?b")
      case True
      obtain d2 v2 where 2: "check_partition fo l 1 v1 (st s ?a (fp_parameters ?a) d1) =
          Some (v2, if fp_modify_count ?a < fp_modify_count ?b then st s ?b (fp_parameters ?b) d2 else st s ?a (fp_parameters ?a) d2)"
          "wf d2" "contents d2 = contents d" "is_damage v2 = is_damage v" "damaged v2 = 0"
        using check_intact [OF 1(2,6) _ _ True, of 1 s ?a "fp_parameters ?a"] 1(3-5) mag by auto
      show ?thesis
        using 2 scan assms(2,7) \<open>intact 0 ?a\<close> True scan_step [OF 2(1)] by (auto simp: recover_def Let_def)
    next
      case False
      then have "spoilt ?b" using assms(6) by (simp add: readable_def)
      then obtain d2 v2 where 2: "check_partition fo l 1 v1 (st s ?a (fp_parameters ?a) d1) = Some (v2, st s ?a (fp_parameters ?a) d2)"
          "wf d2" "contents d2 = contents d" "is_damage v2 = (is_damage v)[1 := True]" "damaged v2 = 1"
        using check_spoilt [OF 1(2,6), of 1 s ?a "fp_parameters ?a"] 1(3-5) by auto
      show ?thesis
        using 2 scan assms(2,7) \<open>intact 0 ?a\<close> False scan_step [OF 2(1)] by (auto simp: recover_def Let_def)
    qed
  next
    case False
    then have sp: "spoilt ?a" and b: "intact 1 ?b" "x = ?b"
      using assms(2,5) by (auto simp: readable_def recover_def Let_def split: if_splits)
    obtain d1 v1 where 1: "check_partition fo l 0 v (st s fp sr d) = Some (v1, st s fp sr d1)" "wf d1"
        "contents d1 = contents d" "is_damage v1 = (is_damage v)[0 := True]" "damaged v1 = 1" "length (flash v1) = FLASH_PARAM_SIZE"
      using check_spoilt [OF assms(1,3), of 0 s fp sr] sp assms(8) by auto
    obtain d2 v2 where 2: "check_partition fo l 1 v1 (st s fp sr d1) = Some (v2, st s ?b (fp_parameters ?b) d2)"
        "wf d2" "contents d2 = contents d" "is_damage v2 = (is_damage v)[0 := True]" "damaged v2 = 1"
      using check_intact [OF 1(2,6) _ _ b(1), of 1 s fp sr] 1(3-5) assms(4) by auto
    show ?thesis
      using 2 1(5) assms(7) b False scan_step [OF 1(1)] scan_step [OF 2(1)] by auto
  qed
qed

text \<open>Two damaged partitions: the sector behind them is erased, and the second scan finds them damaged
  again.\<close>

lemma scan_two_spoilt:
  assumes "wf d" "length (flash v) = FLASH_PARAM_SIZE" "damaged v = 0" "length (is_damage v) = 2"
    and "spoilt (part_image l (contents d) 0)" "spoilt (part_image l (contents d) 1)"
  shows "\<exists>d' v'. scan_partitions fo l 0 v (st s fp sr d) =
      (if tryrestore v then Some (v', st s fp sr d')
       else do { (again, v, s) \<leftarrow> try_restore fo l v' (st s fp sr d');
                 scan_partitions fo l (if again then 0 else Suc 1) v s }) \<and>
    wf d' \<and> contents d' = contents d \<and> damaged v' = 2 \<and> tryrestore v' = tryrestore v \<and>
    length (flash v') = FLASH_PARAM_SIZE"
proof -
  obtain d1 v1 where 1: "check_partition fo l 0 v (st s fp sr d) = Some (v1, st s fp sr d1)" "wf d1"
      "contents d1 = contents d" "damaged v1 = 1" "tryrestore v1 = tryrestore v" "length (flash v1) = FLASH_PARAM_SIZE"
    using check_spoilt [OF assms(1,2), of 0 s fp sr] assms(3,5) by auto
  obtain d2 v2 where 2: "check_partition fo l 1 v1 (st s fp sr d1) = Some (v2, st s fp sr d2)" "wf d2"
      "contents d2 = contents d" "damaged v2 = 2" "tryrestore v2 = tryrestore v" "length (flash v2) = FLASH_PARAM_SIZE"
    using check_spoilt [OF 1(2,6), of 1 s fp sr] 1(3-5) assms(6) by auto
  have "scan_partitions fo l 0 v (st s fp sr d) = scan_partitions fo l 1 v1 (st s fp sr d1)"
    using scan_step [OF 1(1)] 1(4) by simp
  also have "\<dots> = do { (again, v, s) \<leftarrow> try_restore fo l v2 (st s fp sr d2);
      scan_partitions fo l (if again then 0 else Suc 1) v s }"
    using 2(1) by (subst scan_partitions.simps) simp
  finally show ?thesis
    using 2 by (intro exI [of _ d2] exI [of _ v2]) (auto simp: try_restore_no)
qed

lemma restore_erase:
  assumes "wf d"
  shows "\<exists>d' . fls_erase fo (TLS_FLASH_PARAM_RESTORE_ADDR l div INSIDE_FLS_SECTOR_SIZE) d = Some (TLS_FLS_STATUS_OK, d') \<and>
    wf d' \<and> contents d' = nor_erase (contents d) (TLS_FLASH_PARAM_RESTORE_ADDR l) 4096 \<and>
    (\<forall>n. part_image l (contents d') n = part_image l (contents d) n)"
proof -
  define k where "k = TLS_FLASH_PARAM_RESTORE_ADDR l div 4096"
  have k: "k * 4096 = TLS_FLASH_PARAM_RESTORE_ADDR l" using restore_sector(1) by (simp add: k_def)
  then have "0x8000 \<le> k" "(k - 0x8000) * 4096 < fsize" using restore_sector(2,3) by simp_all
  then obtain d' where d': "fls_erase fo k d = Some (TLS_FLS_STATUS_OK, d')" "wf d'"
      "contents d' = nor_erase (contents d) (k * 4096) 4096"
    using erase_ok [OF assms] by blast
  have "part_image l (contents d') n = part_image l (contents d) n" for n
    unfolding d'(3) part_image_def mem_get_def using parts k
    by (auto simp: part_addr_def parts_apart_def nor_erase_def)
  then show ?thesis using d' k by (auto simp: k_def)
qed

lemma scan_lost:
  assumes "wf d" "length (flash v) = FLASH_PARAM_SIZE" "damaged v = 0" "length (is_damage v) = 2" "\<not> tryrestore v"
    and "spoilt (part_image l (contents d) 0)" "spoilt (part_image l (contents d) 1)"
  shows "\<exists>d' v'. scan_partitions fo l 0 v (st s fp sr d) =
      Some (v', st s (zeros FLASH_PARAM_SIZE) (zeros SYS_SIZE) d') \<and> wf d' \<and> damaged v' = 2 \<and>
    contents d' = nor_erase (contents d) (TLS_FLASH_PARAM_RESTORE_ADDR l) 4096"
proof -
  obtain d1 v1 where 1: "scan_partitions fo l 0 v (st s fp sr d) =
      do { (again, v, s) \<leftarrow> try_restore fo l v1 (st s fp sr d1); scan_partitions fo l (if again then 0 else Suc 1) v s }"
      "wf d1" "contents d1 = contents d" "damaged v1 = 2" "\<not> tryrestore v1" "length (flash v1) = FLASH_PARAM_SIZE"
    using scan_two_spoilt [OF assms(1-4,6,7), of s fp sr] assms(5) by auto
  obtain d2 where d2: "fls_erase fo (TLS_FLASH_PARAM_RESTORE_ADDR l div INSIDE_FLS_SECTOR_SIZE) d1 = Some (TLS_FLS_STATUS_OK, d2)"
      "wf d2" "\<And>n. part_image l (contents d2) n = part_image l (contents d) n"
      "contents d2 = nor_erase (contents d) (TLS_FLASH_PARAM_RESTORE_ADDR l) 4096"
    using restore_erase [OF 1(2)] 1(3) by auto
  define v2 where "v2 = v1\<lparr>damaged := 0, is_damage := [False, False], tryrestore := True\<rparr>"
  have tr: "try_restore fo l v1 (st s fp sr d1) = Some (True, v2, st s (zeros FLASH_PARAM_SIZE) (zeros SYS_SIZE) d2)"
    using 1(4,5) d2(1) by (simp add: try_restore_def v2_def)
  obtain d3 v3 where "scan_partitions fo l 0 v2 (st s (zeros FLASH_PARAM_SIZE) (zeros SYS_SIZE) d2) =
      Some (v3, st s (zeros FLASH_PARAM_SIZE) (zeros SYS_SIZE) d3)" "wf d3" "damaged v3 = 2" "contents d3 = contents d2"
    using scan_two_spoilt [OF d2(2), of v2 s "zeros FLASH_PARAM_SIZE" "zeros SYS_SIZE"] 1(6) d2(3) assms(6,7)
    by (auto simp: v2_def)
  then show ?thesis using 1(1) tr d2(4) by (intro exI [of _ d3] exI [of _ v3]) simp
qed

text \<open>The flash after the factory defaults were written to both partitions.\<close>

abbreviation (input) with_defaults :: "memory \<Rightarrow> memory" where
  "with_defaults m \<equiv> mem_upd (mem_upd m (part_addr l 0) (sealed_image 0 1 factory_default))
     (part_addr l 1) (sealed_image 1 1 factory_default)"

lemma restore_ok:
  assumes "wf d" "heap s = []" "store_ok l (contents d) x"
    and "\<not> (intact 0 (part_image l (contents d) 0) \<and> intact 1 (part_image l (contents d) 1)) \<Longrightarrow>
      unat (fp_modify_count x) < 65535"
    and "is_damage v = [\<not> intact 0 (part_image l (contents d) 0), \<not> intact 1 (part_image l (contents d) 1)]"
  shows "\<exists>d' x'. restore_partitions fo l [0, 1] v (st s x (fp_parameters x) d) =
      Some (TLS_PARAM_STATUS_OK, st s x' (fp_parameters x) d') \<and> wf d' \<and> store_ok l (contents d') x' \<and>
      fp_parameters x' = fp_parameters x"
proof -
  obtain n where n: "n = 0 \<or> n = 1" "fp_partition_num x = n" "intact n x" "part_image l (contents d) n = x"
      "length x = FLASH_PARAM_SIZE"
    using store_ok_cases [OF assms(3)] by metis
  have len: "length (fp_parameters x) = SYS_SIZE" using n(5) by (simp add: fp_parameters_def)
  show ?thesis
  proof (cases "intact (other n) (part_image l (contents d) (other n))")
    case True
    then have "is_damage v = [False, False]" using n assms(5) by auto
    then show ?thesis using assms(1,3) by (intro exI [of _ d] exI [of _ x]) simp
  next
    case False
    define i :: nat where "i = (if n = 0 then 1 else 0)"
    define y where "y = sealed_image (other n) (fp_modify_count x + 1) (fp_parameters x)"
    have cnt: "unat (fp_modify_count x) < 65535" using n False assms(4) by auto
    have dmg: "is_damage v = [False, False][i := True]" "i < 2" and on: "other n = of_int (int i)"
      using n False assms(5) by (auto simp: i_def)
    obtain d' where d': "param_to_flash fo l TLS_PARAM_ID_ALL (- 1) (int i) (st s x (fp_parameters x) d) =
        Some (TLS_PARAM_STATUS_OK, st s y (fp_parameters x) d')" "wf d'"
        "contents d' = mem_upd (contents d) (part_addr l (fp_partition_num y)) y"
      using write_all_ok [of "st s x (fp_parameters x) d" y "int i" "- 1"] assms(1,2) n(5) len on
      by (auto simp: y_def)
    have "fp_partition_num y = other (fp_partition_num x)" "fp_parameters y = fp_parameters x"
      using n(2) by (simp_all add: y_def image_fields [OF len])
    then have "store_ok l (contents d') y"
      using store_ok_next [OF parts assms(3) cnt len] d'(3) n(2) by (simp add: y_def)
    moreover have "restore_partitions fo l [0, 1] v (st s x (fp_parameters x) d) =
        Some (TLS_PARAM_STATUS_OK, st s y (fp_parameters x) d')"
      using d'(1) dmg by (cases "n = 0") (simp_all add: i_def)
    ultimately show ?thesis using d'(2) \<open>fp_parameters y = _\<close> by blast
  qed
qed

lemma write_defaults_ok:
  assumes "wf d" "heap s = []" "length fp = FLASH_PARAM_SIZE"
  shows "\<exists>d' x. write_defaults fo l (st s fp sr d) = Some (TLS_PARAM_STATUS_OK, st s x factory_default d') \<and> wf d' \<and>
    store_ok l (contents d') x \<and> fp_parameters x = factory_default \<and> fp_modify_count x = 1 \<and>
    contents d' = with_defaults (contents d)"
proof -
  let ?a = "sealed_image 0 1 factory_default" and ?b = "sealed_image 1 1 factory_default"
  note im = image_fields [OF length_factory_default]
  obtain d1 where d1: "param_to_flash fo l TLS_PARAM_ID_ALL 1 0 (st s fp factory_default d) =
      Some (TLS_PARAM_STATUS_OK, st s ?a factory_default d1)" "wf d1"
      "contents d1 = mem_upd (contents d) (part_addr l 0) ?a"
    using write_all_ok [of "st s fp factory_default d" ?a 0 1] assms by (auto simp: im)
  obtain d2 where d2: "param_to_flash fo l TLS_PARAM_ID_ALL 1 1 (st s ?a factory_default d1) =
      Some (TLS_PARAM_STATUS_OK, st s ?b factory_default d2)" "wf d2"
      "contents d2 = mem_upd (contents d1) (part_addr l 1) ?b"
    using write_all_ok [of "st s ?a factory_default d1" ?b 1 1] assms d1(2) by (auto simp: im)
  have "store_ok l (contents d2) ?b"
    unfolding d2(3) using part_image_upd_same [OF im(1), of l "contents d" 0] d1(3)
    by (intro store_ok_twin [OF parts]) simp_all
  then show ?thesis
    using d1 d2 by (intro exI [of _ d2] exI [of _ ?b]) (simp add: write_defaults_def tls_param_load_factory_default_def im)
qed

lemma init_ok:
  assumes "wf (pdev r)" "heap r = []" "fp_magic (flash_param r) \<noteq> TLS_PARAM_MAGIC"
    and "readable 0 (part_image l (contents (pdev r)) 0)" "readable 1 (part_image l (contents (pdev r)) 1)"
    and "\<And>x. \<lbrakk>recover l (contents (pdev r)) = Some x; \<not> (intact 0 (part_image l (contents (pdev r)) 0) \<and>
      intact 1 (part_image l (contents (pdev r)) 1))\<rbrakk> \<Longrightarrow> unat (fp_modify_count x) < 65535"
  shows "\<exists>s. tls_param_init fo l r = Some (TLS_PARAM_STATUS_OK, s) \<and> param_ready wf contents l s \<and>
    sram_param s = (case recover l (contents (pdev r)) of None \<Rightarrow> factory_default | Some x \<Rightarrow> fp_parameters x) \<and>
    fp_parameters (flash_param s) = sram_param s \<and> updp_mode s = updp_mode r \<and>
    (recover l (contents (pdev r)) = None \<longrightarrow> fp_modify_count (flash_param s) = 1 \<and>
      contents (pdev s) = with_defaults (nor_erase (contents (pdev r)) (TLS_FLASH_PARAM_RESTORE_ADDR l) 4096))"
proof -
  define d where "d = pdev r"
  define r0 where "r0 = r\<lparr>sys_param_lock := Some 0\<rparr>"
  define v0 where "v0 = \<lparr>is_damage = [False, False], damaged = 0, tryrestore = False, flash = zeros FLASH_PARAM_SIZE\<rparr>"
  have v0: "length (flash v0) = FLASH_PARAM_SIZE" "damaged v0 = 0" "is_damage v0 = [False, False]" "\<not> tryrestore v0"
    by (simp_all add: v0_def)
  have r0: "heap r0 = []" "sys_param_lock r0 = Some 0" "updp_mode r0 = updp_mode r" using assms(2) by (simp_all add: r0_def)
  have start: "r\<lparr>sys_param_lock := Some 0, flash_param := zeros FLASH_PARAM_SIZE, sram_param := zeros SYS_SIZE\<rparr> =
      st r0 (zeros FLASH_PARAM_SIZE) (zeros SYS_SIZE) d"
    by (simp add: st_def r0_def d_def)
  have body: "tls_param_init fo l r = do {
      (v, s) \<leftarrow> scan_partitions fo l 0 v0 (st r0 (zeros FLASH_PARAM_SIZE) (zeros SYS_SIZE) d);
      (err, s) \<leftarrow> (if damaged v \<ge> TLS_PARAM_PARTITION_NUM then write_defaults fo l s
                  else restore_partitions fo l [0, 1] v s);
      Some (err, release_lock s) }"
    using assms(2,3) r0(1) by (simp add: tls_param_init_def acquire_lock_def start v0_def)
  have ready: "param_ready wf contents l (release_lock (st r0 x p d'))"
    if "wf d'" "length p = SYS_SIZE" "store_ok l (contents d') x" for x p d'
    using that r0 by (simp add: param_ready_def release_lock_def st_def)
  have wf: "wf d" using assms(1) by (simp add: d_def)
  show ?thesis
  proof (cases "recover l (contents d)")
    case None
    then have "spoilt (part_image l (contents d) 0)" "spoilt (part_image l (contents d) 1)"
      using assms(4,5) by (auto simp: recover_def readable_def Let_def d_def split: if_splits)
    then obtain d1 v1 where 1: "scan_partitions fo l 0 v0 (st r0 (zeros FLASH_PARAM_SIZE) (zeros SYS_SIZE) d) =
        Some (v1, st r0 (zeros FLASH_PARAM_SIZE) (zeros SYS_SIZE) d1)" "wf d1" "damaged v1 = 2"
        "contents d1 = nor_erase (contents d) (TLS_FLASH_PARAM_RESTORE_ADDR l) 4096"
      using scan_lost [OF wf v0(1,2) _ v0(4), of r0 "zeros FLASH_PARAM_SIZE" "zeros SYS_SIZE"] v0(3) by auto
    obtain d2 x where 2: "write_defaults fo l (st r0 (zeros FLASH_PARAM_SIZE) (zeros SYS_SIZE) d1) =
        Some (TLS_PARAM_STATUS_OK, st r0 x factory_default d2)" "wf d2" "store_ok l (contents d2) x"
        "fp_parameters x = factory_default" "fp_modify_count x = 1" "contents d2 = with_defaults (contents d1)"
      using write_defaults_ok [OF 1(2) r0(1) length_zeros, of "zeros SYS_SIZE"] by auto
    show ?thesis
      using body 1 2(1,4,5,6) r0(3) ready [OF 2(2) length_factory_default 2(3)] None by (simp add: d_def)
  next
    case (Some x)
    obtain d1 v1 where 1: "scan_partitions fo l 0 v0 (st r0 (zeros FLASH_PARAM_SIZE) (zeros SYS_SIZE) d) =
        Some (v1, st r0 x (fp_parameters x) d1)" "wf d1" "contents d1 = contents d" "damaged v1 < 2"
        "is_damage v1 = [\<not> intact 0 (part_image l (contents d) 0), \<not> intact 1 (part_image l (contents d) 1)]"
      using scan_found [OF wf Some v0(1) zeros_magic _ _ v0(3,2), of r0 "zeros SYS_SIZE"] assms(4,5)
      by (auto simp: d_def)
    have ok: "store_ok l (contents d1) x"
      using store_ok_recovered [of l "contents d" x] Some assms(4,5) 1(3) by (simp add: d_def)
    obtain d2 y where 2: "restore_partitions fo l [0, 1] v1 (st r0 x (fp_parameters x) d1) =
        Some (TLS_PARAM_STATUS_OK, st r0 y (fp_parameters x) d2)" "wf d2" "store_ok l (contents d2) y"
        "fp_parameters y = fp_parameters x"
      using restore_ok [OF 1(2) r0(1) ok, of v1] assms(6) [of x] Some 1(3,5) by (auto simp: d_def)
    have "length (fp_parameters x) = SYS_SIZE"
      using store_ok_length [OF ok] by (simp add: fp_parameters_def)
    then have "param_ready wf contents l (release_lock (st r0 y (fp_parameters x) d2))"
      using ready [OF 2(2) _ 2(3)] by simp
    moreover have "tls_param_init fo l r = Some (TLS_PARAM_STATUS_OK, release_lock (st r0 y (fp_parameters x) d2))"
      using body 1(1,4) 2(1) by simp
    ultimately show ?thesis using Some 2(4) r0(3) by (auto simp: d_def)
  qed
qed

lemma set_flash_ok:
  assumes "param_ready wf contents l s" "updp_mode s = 0" "map_of set_cases idn = Some a"
    and "arg_to_struct a (sram_param s) argv = Some p" "map_of to_flash_cases idn = Some b"
    and "struct_to_struct b (flash_param s) 16 p = Some fp1" "fp = seal_flash_param (- 1) (- 1) fp1"
  shows "\<exists>s'. tls_param_set fo l idn (Some argv) True s = Some (TLS_PARAM_STATUS_OK, s') \<and>
    wf (pdev s') \<and> heap s' = [] \<and> sys_param_lock s' = sys_param_lock s \<and> sram_param s' = p \<and> flash_param s' = fp \<and>
    fp = sealed_image (other (fp_partition_num (flash_param s))) (fp_modify_count (flash_param s) + 1) (fp_parameters fp1) \<and>
    length (fp_parameters fp1) = SYS_SIZE \<and> length p = SYS_SIZE \<and>
    contents (pdev s') = mem_upd (contents (pdev s)) (part_addr l (fp_partition_num fp)) fp"
proof -
  obtain c where s: "wf (pdev s)" "heap s = []" "sys_param_lock s = Some (Suc c)" "length (sram_param s) = SYS_SIZE"
      "store_ok l (contents (pdev s)) (flash_param s)"
    using assms(1) by (auto simp: param_ready_def)
  have len: "length fp1 = FLASH_PARAM_SIZE" and hdr: "take 16 fp1 = take 16 (flash_param s)"
    using struct_to_struct_frame [OF assms(6)] store_ok_length [OF s(5)] by simp_all
  have im: "fp = sealed_image (other (fp_partition_num (flash_param s))) (fp_modify_count (flash_param s) + 1) (fp_parameters fp1)"
    using seal_image [OF len] header_fields [OF hdr] assms(7) by simp
  have lens: "length (fp_parameters fp1) = SYS_SIZE" "length p = SYS_SIZE"
    using len arg_to_struct_length [OF assms(4)] s(4) by (simp_all add: fp_parameters_def)
  note idn = set_get_cases [OF assms(3)]
  obtain d where d: "param_to_flash fo l idn (- 1) (- 1) (s\<lparr>sys_param_lock := Some c, sram_param := p\<rparr>) =
      Some (TLS_PARAM_STATUS_OK, s\<lparr>sys_param_lock := Some c, sram_param := p, flash_param := fp, pdev := d\<rparr>)" "wf d"
      "contents d = mem_upd (contents (pdev s)) (part_addr l (fp_partition_num fp)) fp"
    using param_to_flash_ok [of "s\<lparr>sys_param_lock := Some c, sram_param := p\<rparr>" idn b fp1 fp "- 1" "- 1"] s idn assms(5-7) len
    by auto
  have "tls_param_set fo l idn (Some argv) True s =
      Some (TLS_PARAM_STATUS_OK, release_lock (s\<lparr>sys_param_lock := Some c, sram_param := p, flash_param := fp, pdev := d\<rparr>))"
    using d(1) s(3) idn assms(2-4) by (simp add: tls_param_set_def)
  then show ?thesis using d(2,3) s(2,3) im lens by (simp add: release_lock_def)
qed

lemma set_flash_ready:
  assumes "param_ready wf contents l s" "updp_mode s = 0" "map_of set_cases idn = Some a"
    and "arg_to_struct a (sram_param s) argv = Some p" "map_of to_flash_cases idn = Some b"
    and "struct_to_struct b (flash_param s) 16 p = Some fp1" "unat (fp_modify_count (flash_param s)) < 65535"
  shows "\<exists>s'. tls_param_set fo l idn (Some argv) True s = Some (TLS_PARAM_STATUS_OK, s') \<and> param_ready wf contents l s' \<and>
    sram_param s' = p \<and> fp_parameters (flash_param s') = fp_parameters fp1 \<and>
    intact 0 (part_image l (contents (pdev s')) 0) \<and> intact 1 (part_image l (contents (pdev s')) 1)"
proof -
  let ?n = "fp_partition_num (flash_param s)"
  obtain s' where s': "tls_param_set fo l idn (Some argv) True s = Some (TLS_PARAM_STATUS_OK, s')" "wf (pdev s')" "heap s' = []"
      "sys_param_lock s' = sys_param_lock s" "sram_param s' = p" "length p = SYS_SIZE" "length (fp_parameters fp1) = SYS_SIZE"
      "flash_param s' = sealed_image (other ?n) (fp_modify_count (flash_param s) + 1) (fp_parameters fp1)"
      "contents (pdev s') = mem_upd (contents (pdev s)) (part_addr l (fp_partition_num (flash_param s'))) (flash_param s')"
    using set_flash_ok [OF assms(1-6) refl] by auto
  have ok: "store_ok l (contents (pdev s)) (flash_param s)" using assms(1) by (simp add: param_ready_def)
  have "store_ok l (contents (pdev s')) (flash_param s')"
    using store_ok_next [OF parts ok assms(7) s'(7)] s'(8,9) by (simp add: image_fields [OF s'(7)])
  moreover have "intact 0 (part_image l (contents (pdev s')) 0) \<and> intact 1 (part_image l (contents (pdev s')) 1)"
  proof -
    obtain n where n: "n = 0 \<or> n = 1" "?n = n" "intact n (flash_param s)" "part_image l (contents (pdev s)) n = flash_param s"
      using store_ok_cases [OF ok] by metis
    have k: "fp_partition_num (flash_param s') = other n" "length (flash_param s') = FLASH_PARAM_SIZE"
      using s'(8) n(2) by (simp_all add: image_fields [OF s'(7)])
    then have "intact (other n) (part_image l (contents (pdev s')) (other n))"
      using part_image_upd_same [OF k(2)] s'(8,9) n(2) intact_image [OF s'(7)] by simp
    moreover have "part_image l (contents (pdev s')) n = flash_param s"
      using part_image_upd_other [OF parts k(2), of "other n" n] n s'(9) k(1) by auto
    ultimately show ?thesis using n(1,3) by auto
  qed
  ultimately show ?thesis
    using s' assms(1) by (auto simp: param_ready_def image_fields [OF s'(7)])
qed

lemma store_ok_readable:
  assumes "store_ok l m fp"
  shows "readable 0 (part_image l m 0)" "readable 1 (part_image l m 1)"
  using assms by (auto simp: store_ok_def readable_def Let_def)

text \<open>After a reset the parameters of a good store are found again.\<close>

lemma reset_ok:
  assumes "wf d" "store_ok l (contents d) fp"
    and "intact 0 (part_image l (contents d) 0) \<and> intact 1 (part_image l (contents d) 1) \<or>
      (\<forall>x. recover l (contents d) = Some x \<longrightarrow> unat (fp_modify_count x) < 65535)"
  shows "\<exists>s. tls_param_init fo l (reset_state d) = Some (TLS_PARAM_STATUS_OK, s) \<and> param_ready wf contents l s \<and>
    sram_param s = fp_parameters fp"
proof -
  obtain x where x: "recover l (contents d) = Some x" "fp_parameters x = fp_parameters fp"
    using store_ok_recover [OF assms(2)] by blast
  have "\<exists>s. tls_param_init fo l (reset_state d) = Some (TLS_PARAM_STATUS_OK, s) \<and> param_ready wf contents l s \<and>
      sram_param s = (case recover l (contents (pdev (reset_state d))) of None \<Rightarrow> factory_default | Some x \<Rightarrow> fp_parameters x) \<and>
      fp_parameters (flash_param s) = sram_param s \<and> updp_mode s = updp_mode (reset_state d) \<and>
      (recover l (contents (pdev (reset_state d))) = None \<longrightarrow> fp_modify_count (flash_param s) = 1 \<and>
        contents (pdev s) = with_defaults (nor_erase (contents (pdev (reset_state d))) (TLS_FLASH_PARAM_RESTORE_ADDR l) 4096))"
    using assms store_ok_readable [OF assms(2)]
    by (intro init_ok) (auto simp: reset_state_def)
  then show ?thesis using x by (auto simp: reset_state_def)
qed

text \<open>A save that the power failure interrupts: nothing was written, the write was torn, or it was complete.\<close>

lemma cut_commit:
  assumes "wf (pdev s)" "heap s = []" "length (flash_param s) = FLASH_PARAM_SIZE"
  shows "\<exists>err d j. commit_flash_param (cut_fls torn fo) l (powered k s) = Some (err, powered j (s\<lparr>pdev := d\<rparr>)) \<and>
    (err \<noteq> TLS_PARAM_STATUS_OK \<and> d = pdev s \<or>
     err \<noteq> TLS_PARAM_STATUS_OK \<and> d = torn (part_addr l (fp_partition_num (flash_param s))) (Some (flash_param s)) (pdev s) \<or>
     wf d \<and> contents d = mem_upd (contents (pdev s)) (part_addr l (fp_partition_num (flash_param s))) (flash_param s))"
proof -
  let ?fp = "flash_param s" and ?a = "part_addr l (fp_partition_num (flash_param s))"
  obtain d1 where d1: "fls_write fo ?a (Some ?fp) FLASH_PARAM_SIZE (pdev s) = Some (TLS_FLS_STATUS_OK, d1)" "wf d1"
      "contents d1 = mem_upd (contents (pdev s)) ?a ?fp"
    using wrE [OF assms(1) addr_access, of ?fp] assms(3) by auto
  obtain d2 where d2: "fls_read fo ?a (Some (fresh FLASH_PARAM_SIZE s)) FLASH_PARAM_SIZE d1 =
      Some (TLS_FLS_STATUS_OK, Some (mem_get (contents d1) ?a FLASH_PARAM_SIZE), d2)" "wf d2" "contents d2 = contents d1"
    using rdE [OF d1(2) addr_access, of "fresh FLASH_PARAM_SIZE s" "fp_partition_num ?fp"] by (auto simp: patch_all)
  have same: "mem_get (contents d1) ?a FLASH_PARAM_SIZE = ?fp"
    using mem_get_upd_same [of "contents (pdev s)" ?a ?fp] assms(3) d1(3) by simp
  consider "k = 0" | "k = 1" | "k = 2" | "2 < k" by linarith
  then show ?thesis
  proof cases
    case 1
    then show ?thesis by (intro exI [of _ TLS_PARAM_STATUS_EIO] exI [of _ "pdev s"] exI [of _ 0])
      (simp add: commit_flash_param_def Let_def)
  next
    case 2
    then show ?thesis
      using assms(3) by (intro exI [of _ TLS_PARAM_STATUS_EIO] exI [of _ "torn ?a (Some ?fp) (pdev s)"] exI [of _ 0])
        (simp add: commit_flash_param_def Let_def)
  next
    case 3
    then show ?thesis
      using d1 assms(2) by (intro exI [of _ TLS_PARAM_STATUS_EIO] exI [of _ d1] exI [of _ 0])
        (simp add: commit_flash_param_def Let_def param_flash_verify_def)
  next
    case 4
    then show ?thesis
      using d1 d2 assms(2) same by (intro exI [of _ TLS_PARAM_STATUS_OK] exI [of _ d2] exI [of _ "k - Suc (Suc 0)"])
        (auto simp: commit_flash_param_def Let_def param_flash_verify_def fresh_def)
  qed
qed

lemma set_flash_inv:
  assumes "param_ready wf contents l s" "updp_mode s = 0"
    and "tls_param_set fo l idn (Some argv) True s = Some (TLS_PARAM_STATUS_OK, s')"
  obtains a p b fp1 where "map_of set_cases idn = Some a" "arg_to_struct a (sram_param s) argv = Some p"
    "map_of to_flash_cases idn = Some b" "struct_to_struct b (flash_param s) 16 p = Some fp1"
  using assms
  by (auto simp: tls_param_set_def param_to_flash_def acquire_lock_def param_ready_def bind_eq_Some_conv
      split: if_splits option.splits)

lemma part_sector: "4096 dvd part_addr l n"
proof -
  have "TLS_FLASH_PARAM2_ADDR l = TLS_FLASH_PARAM_RESTORE_ADDR l - 4096" "TLS_FLASH_PARAM1_ADDR l = TLS_FLASH_PARAM_RESTORE_ADDR l - 8192"
    using parts by (simp_all add: parts_apart_def)
  then show ?thesis using restore_sector(1) by (auto simp: part_addr_def intro!: dvd_diff_nat)
qed

text \<open>What the torn write leaves is a good store, with the old parameters or the new ones.\<close>

lemma torn_store:
  assumes "torn_ok wf contents torn" "wf d" "store_ok l (contents d) fp" "unat (fp_modify_count fp) < 65535" "length p = SYS_SIZE"
    and "new = sealed_image (other (fp_partition_num fp)) (fp_modify_count fp + 1) p"
    and "e = torn (part_addr l (fp_partition_num new)) (Some new) d"
  shows "wf e \<and> (store_ok l (contents e) fp \<or>
    store_ok l (contents e) new \<and> intact 0 (part_image l (contents e) 0) \<and> intact 1 (part_image l (contents e) 1))"
proof -
  note im = image_fields [OF assms(5)] intact_image [OF assms(5)]
  obtain n where n: "n = 0 \<or> n = 1" "fp_partition_num fp = n" "intact n fp" "part_image l (contents d) n = fp"
      "readable (other n) (part_image l (contents d) (other n))"
    using store_ok_cases [OF assms(3)] by metis
  have new: "fp_partition_num new = other n" "length new = FLASH_PARAM_SIZE" "intact (other n) new"
    using n(2) assms(6) by (simp_all add: im)
  have e: "wf e" "\<And>i. i div 4096 \<noteq> part_addr l (other n) div 4096 \<Longrightarrow> contents e i = contents d i"
    using assms(1,2,7) new(1) by (simp_all add: torn_ok_def)
  have mine: "part_image l (contents e) n = fp"
    using part_image_torn [OF parts n(1), of "contents e" "contents d"] e(2) outside_sector [OF part_sector] n(4) by simp
  have "part_image l (contents e) (other n) = part_image l (contents d) (other n) \<or>
      part_image l (contents e) (other n) = new \<or> spoilt (part_image l (contents e) (other n))"
    using assms(1,2,7) new(1,2) by (auto simp: torn_ok_def part_image_def Let_def)
  then consider "part_image l (contents e) (other n) = part_image l (contents d) (other n)"
    | "part_image l (contents e) (other n) = new" | "spoilt (part_image l (contents e) (other n))" by blast
  then show ?thesis
  proof cases
    case 1
    then have "store_ok l (contents e) fp = store_ok l (contents d) fp"
      using n(1,4) mine by (intro store_ok_cong) auto
    then show ?thesis using e(1) assms(3) by simp
  next
    case 2
    let ?m = "mem_upd (contents d) (part_addr l (other n)) new"
    have upd: "part_image l ?m (other n) = new" "part_image l ?m n = fp"
      using part_image_upd_same [OF new(2)] part_image_upd_other [OF parts new(2), of "other n" n] n(1,4) by auto
    have "store_ok l ?m new" using store_ok_next [OF parts assms(3-5)] n(2) assms(6) by simp
    moreover have "store_ok l (contents e) new = store_ok l ?m new"
      using n(1) mine upd 2 by (intro store_ok_cong) auto
    ultimately show ?thesis using e(1) n(1,3) mine 2 new(3) by auto
  next
    case 3
    have "recover l (contents e) = Some fp"
      using 3 n(1-3) mine by (auto simp: recover_def Let_def dest: spoilt_not_intact)
    moreover have "readable 0 (part_image l (contents e) 0)" "readable 1 (part_image l (contents e) 1)"
      using n(1,3) mine 3 by (auto simp: readable_def)
    ultimately show ?thesis using e(1) store_ok_recovered by blast
  qed
qed

lemma cut_set_ok:
  assumes "param_ready wf contents l s" "updp_mode s = 0" "unat (fp_modify_count (flash_param s)) < 65535"
    and "tls_param_set fo l idn (Some argv) True s = Some (TLS_PARAM_STATUS_OK, s')" "torn_ok wf contents torn"
  shows "\<exists>err s1 s2. tls_param_set (cut_fls torn fo) l idn (Some argv) True (powered k s) = Some (err, s1) \<and>
    tls_param_init fo l (reset_state (fst (pdev s1))) = Some (TLS_PARAM_STATUS_OK, s2) \<and> param_ready wf contents l s2 \<and>
    (sram_param s2 = fp_parameters (flash_param s') \<or>
     err \<noteq> TLS_PARAM_STATUS_OK \<and> sram_param s2 = fp_parameters (flash_param s))"
proof -
  obtain c where s: "wf (pdev s)" "heap s = []" "sys_param_lock s = Some (Suc c)" "length (sram_param s) = SYS_SIZE"
      "store_ok l (contents (pdev s)) (flash_param s)"
    using assms(1) by (auto simp: param_ready_def)
  obtain a p b fp1 where path: "map_of set_cases idn = Some a" "arg_to_struct a (sram_param s) argv = Some p"
      "map_of to_flash_cases idn = Some b" "struct_to_struct b (flash_param s) 16 p = Some fp1"
    using set_flash_inv [OF assms(1,2,4)] by blast
  define new where "new = seal_flash_param (- 1) (- 1) fp1"
  have s': "flash_param s' = new" "length (fp_parameters fp1) = SYS_SIZE" "length p = SYS_SIZE"
      "new = sealed_image (other (fp_partition_num (flash_param s))) (fp_modify_count (flash_param s) + 1) (fp_parameters fp1)"
    using set_flash_ok [OF assms(1,2) path new_def] assms(4) by auto
  note im = image_fields [OF s'(2)]
  have len: "length new = FLASH_PARAM_SIZE" "fp_partition_num new = other (fp_partition_num (flash_param s))"
    using s'(4) by (simp_all add: im)
  let ?s = "s\<lparr>sys_param_lock := Some c, sram_param := p, flash_param := new\<rparr>"
  obtain err d j where cut: "commit_flash_param (cut_fls torn fo) l (powered k ?s) = Some (err, powered j (?s\<lparr>pdev := d\<rparr>))"
      "err \<noteq> TLS_PARAM_STATUS_OK \<and> d = pdev s \<or>
       err \<noteq> TLS_PARAM_STATUS_OK \<and> d = torn (part_addr l (fp_partition_num new)) (Some new) (pdev s) \<or>
       wf d \<and> contents d = mem_upd (contents (pdev s)) (part_addr l (fp_partition_num new)) new"
    using cut_commit [of ?s torn k] s(1,2) len(1) by auto
  note idn = set_get_cases [OF path(1)]
  have "tls_param_set (cut_fls torn fo) l idn (Some argv) True (powered k s) =
      Some (err, powered j (release_lock (?s\<lparr>pdev := d\<rparr>)))"
    using cut(1) s(3) idn assms(2) path by (simp add: tls_param_set_def param_to_flash_def acquire_lock_def new_def)
  moreover have "wf d \<and> (err \<noteq> TLS_PARAM_STATUS_OK \<and> store_ok l (contents d) (flash_param s) \<or>
      store_ok l (contents d) new \<and> intact 0 (part_image l (contents d) 0) \<and> intact 1 (part_image l (contents d) 1))"
    using cut(2)
  proof (elim disjE conjE)
    assume "d = torn (part_addr l (fp_partition_num new)) (Some new) (pdev s)" "err \<noteq> TLS_PARAM_STATUS_OK"
    then show ?thesis using torn_store [OF assms(5) s(1,5) assms(3) s'(2,4)] by blast
  next
    assume d: "wf d" "contents d = mem_upd (contents (pdev s)) (part_addr l (fp_partition_num new)) new"
    have "store_ok l (contents d) new"
      using store_ok_next [OF parts s(5) assms(3) s'(2)] len(2) s'(4) unfolding d(2) by simp
    moreover have "intact 0 (part_image l (contents d) 0) \<and> intact 1 (part_image l (contents d) 1)"
    proof -
      obtain n where n: "n = 0 \<or> n = 1" "fp_partition_num (flash_param s) = n" "intact n (flash_param s)"
          "part_image l (contents (pdev s)) n = flash_param s"
        using store_ok_cases [OF s(5)] by metis
      have "part_image l (contents d) (other n) = new"
        using part_image_upd_same [OF len(1)] d(2) len(2) n(2) by simp
      moreover have "part_image l (contents d) n = flash_param s"
        using part_image_upd_other [OF parts len(1), of "other n" n] n len(2) d(2) by auto
      ultimately show ?thesis using n(1-3) intact_image [OF s'(2)] s'(4) by auto
    qed
    ultimately show ?thesis using d(1) by blast
  qed (use s(1,5) in simp)
  moreover have "\<exists>s2. tls_param_init fo l (reset_state d) = Some (TLS_PARAM_STATUS_OK, s2) \<and> param_ready wf contents l s2 \<and>
      sram_param s2 = fp_parameters x"
    if "wf d" "store_ok l (contents d) x" "x = flash_param s \<or> intact 0 (part_image l (contents d) 0) \<and> intact 1 (part_image l (contents d) 1)" for x
    using reset_ok [OF that(1,2)] store_ok_count [OF that(2)] that(3) assms(3) by blast
  ultimately show ?thesis using s'(1) by (fastforce simp: release_lock_def)
qed

lemma to_default_ok:
  assumes "wf (pdev s)" "heap s = []" "length (flash_param s) = FLASH_PARAM_SIZE"
  shows "\<exists>s'. tls_param_to_default fo l s = Some (TLS_PARAM_STATUS_OK, s') \<and> wf (pdev s') \<and> heap s' = [] \<and>
    fp_magic (flash_param s') \<noteq> TLS_PARAM_MAGIC \<and>
    (intact 0 (part_image l (contents (pdev s')) 0) \<and> intact 1 (part_image l (contents (pdev s')) 1)) \<and>
    map_option fp_parameters (recover l (contents (pdev s'))) = Some factory_default"
proof -
  let ?a = "sealed_image 0 1 factory_default" and ?b = "sealed_image 1 1 factory_default"
  note im = image_fields [OF length_factory_default]
  obtain d1 where d1: "param_to_flash fo l TLS_PARAM_ID_ALL 1 0 (s\<lparr>sram_param := factory_default\<rparr>) =
      Some (TLS_PARAM_STATUS_OK, s\<lparr>sram_param := factory_default, flash_param := ?a, pdev := d1\<rparr>)" "wf d1"
      "contents d1 = mem_upd (contents (pdev s)) (part_addr l 0) ?a"
    using write_all_ok [of "s\<lparr>sram_param := factory_default\<rparr>" ?a 0 1] assms by (auto simp: im)
  obtain d2 where d2: "param_to_flash fo l TLS_PARAM_ID_ALL 1 1 (s\<lparr>sram_param := factory_default, flash_param := ?a, pdev := d1\<rparr>) =
      Some (TLS_PARAM_STATUS_OK, s\<lparr>sram_param := factory_default, flash_param := ?b, pdev := d2\<rparr>)" "wf d2"
      "contents d2 = mem_upd (contents d1) (part_addr l 1) ?b"
    using write_all_ok [of "s\<lparr>sram_param := factory_default, flash_param := ?a, pdev := d1\<rparr>" ?b 1 1] assms d1(2)
    by (auto simp: im)
  have a: "part_image l (contents d1) 0 = ?a" unfolding d1(3) by (rule part_image_upd_same [OF im(1)])
  have ok: "store_ok l (contents d2) ?b"
    unfolding d2(3) using a by (intro store_ok_twin [OF parts]) simp_all
  have imgs: "part_image l (contents d2) 0 = ?a" "part_image l (contents d2) 1 = ?b"
    using a part_image_upd_other [OF parts im(1), of 1 0] part_image_upd_same [OF im(1)] d2(3) by simp_all
  define s' where "s' = s\<lparr>sram_param := factory_default, flash_param := patch ?b 0 (le32 0), pdev := d2\<rparr>"
  have "tls_param_to_default fo l s = Some (TLS_PARAM_STATUS_OK, s')"
    using d1(1) d2(1) by (simp add: tls_param_to_default_def tls_param_load_factory_default_def s'_def)
  moreover have "fp_magic (flash_param s') = 0"
    using slice_patch_same [of 0 "le32 0" ?b] im(1) by (simp add: s'_def fp_magic_def get_u32_def)
  moreover have "map_option fp_parameters (recover l (contents (pdev s'))) = Some factory_default"
    using store_ok_recover [OF ok] im(6) by (auto simp: s'_def)
  ultimately show ?thesis
    using d2(2) assms(2) imgs intact_image [OF length_factory_default] by (auto simp: s'_def)
qed

lemma user_default_ok:
  assumes "wf (pdev s)" "length (user_default_param s) = SYS_SIZE" "8 \<le> length stack"
  shows "\<exists>s1 s2. tls_param_save_user_default fo l s = Some (TLS_PARAM_STATUS_OK, s1) \<and>
    tls_param_load_user fo l stack param s1 = Some (TLS_PARAM_STATUS_OK, user_default_param s, s2)"
proof -
  define a where "a = TLS_FLASH_PARAM_DEFAULT l"
  define p where "p = user_default_param s"
  note acc = user_access [folded a_def]
  have p: "length p = SYS_SIZE" using assms(2) by (simp add: p_def)
  obtain d1 where d1: "fls_write fo a (Some (le32 TLS_USER_MAGIC)) 4 (pdev s) = Some (TLS_FLS_STATUS_OK, d1)" "wf d1"
      "contents d1 = mem_upd (contents (pdev s)) a (le32 TLS_USER_MAGIC)"
    using wrE [OF assms(1) acc(1), of "le32 TLS_USER_MAGIC"] by auto
  obtain d2 where d2: "fls_write fo (a + 4) (Some p) SYS_SIZE d1 = Some (TLS_FLS_STATUS_OK, d2)" "wf d2"
      "contents d2 = mem_upd (contents d1) (a + 4) p"
    using wrE [OF d1(2) acc(2), of p] p by auto
  obtain d3 where d3: "fls_write fo (a + 4 + SYS_SIZE) (Some (le32 (get_crc32 p))) 4 d2 = Some (TLS_FLS_STATUS_OK, d3)" "wf d3"
      "contents d3 = mem_upd (contents d2) (a + 4 + SYS_SIZE) (le32 (get_crc32 p))"
    using wrE [OF d2(2) acc(3), of "le32 (get_crc32 p)"] by auto
  have m: "mem_get (contents d3) a 4 = le32 TLS_USER_MAGIC" "mem_get (contents d3) (a + 4) SYS_SIZE = p"
      "mem_get (contents d3) (a + 4 + SYS_SIZE) 4 = le32 (get_crc32 p)"
    using mem_get_upd_same [of _ a "le32 TLS_USER_MAGIC"] mem_get_upd_same [of _ "a + 4" p]
      mem_get_upd_same [of _ "a + 4 + SYS_SIZE" "le32 (get_crc32 p)"] p
    by (simp_all add: d3(3) d2(3) d1(3) mem_get_upd_other)
  obtain e1 where e1: "fls_read fo a (Some (take 4 stack)) 4 d3 = Some (TLS_FLS_STATUS_OK, Some (le32 TLS_USER_MAGIC), e1)"
      "wf e1" "contents e1 = contents d3"
    using rdE [OF d3(2) acc(1), of "take 4 stack"] m(1) assms(3) by (auto simp: patch_all)
  obtain e2 where e2: "fls_read fo (a + 4) (Some (zeros SYS_SIZE)) SYS_SIZE e1 = Some (TLS_FLS_STATUS_OK, Some p, e2)"
      "wf e2" "contents e2 = contents d3"
    using rdE [OF e1(2) acc(2), of "zeros SYS_SIZE"] m(2) p e1(3) by (auto simp: patch_all)
  obtain e3 where e3: "fls_read fo (a + 4 + SYS_SIZE) (Some (take 4 (drop 4 stack))) 4 e2 =
      Some (TLS_FLS_STATUS_OK, Some (le32 (get_crc32 p)), e3)"
    using rdE [OF e2(2) acc(3), of "take 4 (drop 4 stack)"] m(3) e2(3) assms(3) by (auto simp: patch_all)
  have "tls_param_save_user_default fo l s = Some (TLS_PARAM_STATUS_OK, s\<lparr>pdev := d3\<rparr>)"
    using d1(1) d2(1) d3(1) by (simp add: tls_param_save_user_default_def Let_def flip: a_def p_def)
  moreover have "tls_param_load_user fo l stack param (s\<lparr>pdev := d3\<rparr>) = Some (TLS_PARAM_STATUS_OK, p, s\<lparr>pdev := e3\<rparr>)"
    using e1(1) e2(1) e3 by (simp add: tls_param_load_user_def Let_def flip: a_def)
  ultimately show ?thesis by (auto simp: p_def)
qed

end

section \<open>Boards\<close>

lemma layout_access:
  assumes "map_for isize2 l" "isize2 = 0 \<or> isize2 = 0x100000"
  shows "parts_apart l" "fls_accessible 0x100000 isize2 (TLS_FLASH_PARAM1_ADDR l) FLASH_PARAM_SIZE"
    "fls_accessible 0x100000 isize2 (TLS_FLASH_PARAM2_ADDR l) FLASH_PARAM_SIZE"
    "4096 dvd TLS_FLASH_PARAM_RESTORE_ADDR l" "FLASH_BASE_ADDR \<le> TLS_FLASH_PARAM_RESTORE_ADDR l"
    "TLS_FLASH_PARAM_RESTORE_ADDR l - FLASH_BASE_ADDR < 0x100000 + isize2"
    "fls_accessible 0x100000 isize2 (TLS_FLASH_PARAM_DEFAULT l) 4"
    "fls_accessible 0x100000 isize2 (TLS_FLASH_PARAM_DEFAULT l + 4) SYS_SIZE"
    "fls_accessible 0x100000 isize2 (TLS_FLASH_PARAM_DEFAULT l + 4 + SYS_SIZE) 4"
  using assms by (auto simp: map_for_def parts_apart_def fls_accessible_def layout_defs split: if_splits)

lemma board_param_flash:
  assumes "flash_board qo qmem qwel 0x100000 ops cmem wel busy isize2" "map_for isize2 l"
  shows "param_flash (fls_ready busy 0x100000 isize2) (fls_contents qmem cmem) (fls_accessible 0x100000 isize2)
    (board_fls qo ops) (0x100000 + isize2) l"
proof (rule param_flash.intro [OF flash_board.board_client [OF assms(1)]])
  have "isize2 = 0 \<or> isize2 = 0x100000" using flash_board.isize2 [OF assms(1)] by auto
  then show "param_flash_axioms (fls_accessible 0x100000 isize2) (0x100000 + isize2) l"
    using layout_access [OF assms(2)] by unfold_locales simp_all
qed

interpretation params1: param_flash "fls_ready c_busy 0x100000 0" "fls_contents d_mem c_mem"
    "fls_accessible 0x100000 0" "board_fls nor_ctl chip_1M" "0x100000 + 0" layout_1M
  by (rule board_param_flash [OF _ _]) (use board1.flash_board_axioms in \<open>simp_all add: map_for_def\<close>)

interpretation params2: param_flash "fls_ready c_busy 0x100000 0x100000" "fls_contents d_mem c_mem"
    "fls_accessible 0x100000 0x100000" "board_fls nor_ctl chip_1M" "0x100000 + 0x100000" layout_2M_new
  by (rule board_param_flash [OF _ _]) (use board2.flash_board_axioms in \<open>simp_all add: map_for_def\<close>)

text \<open>The board with one megabyte after its first start.\<close>

definition booted :: "(chip, qdev) fls_state param_state" where
  "booted = snd (the (tls_param_init (board_fls nor_ctl chip_1M) layout_1M (reset_state board_1M)))"

lemma board_1M_blank: "spoilt (part_image layout_1M (fls_contents d_mem c_mem board_1M) n)"
proof -
  have four: "replicate 4 (0x11 :: u8) = [0x11, 0x11, 0x11, 0x11]" by (simp add: numeral_eq_Suc)
  have "part_image layout_1M (fls_contents d_mem c_mem board_1M) n ! i = 0x11" if "i < 4" for i
    using that by (auto simp: part_image_def nth_mem_get part_addr_def layout_defs fls_contents_def board_1M_def)
  then have "slice 0 4 (part_image layout_1M (fls_contents d_mem c_mem board_1M) n) = replicate 4 0x11"
    by (intro nth_equalityI) (simp_all add: nth_slice)
  then have "fp_magic (part_image layout_1M (fls_contents d_mem c_mem board_1M) n) = 0x11111111"
    by (simp add: fp_magic_def get_u32_def four of_le32_def)
  then show ?thesis by (simp add: spoilt_def)
qed

lemma booted_facts:
  "param_ready (fls_ready c_busy 0x100000 0) (fls_contents d_mem c_mem) layout_1M booted"
  "updp_mode booted = 0" "fp_modify_count (flash_param booted) = 1" "length (flash_param booted) = FLASH_PARAM_SIZE"
proof -
  have rec: "recover layout_1M (fls_contents d_mem c_mem board_1M) = None"
    using board_1M_blank [THEN spoilt_not_intact] by (simp add: recover_def Let_def)
  obtain s where s: "tls_param_init (board_fls nor_ctl chip_1M) layout_1M (reset_state board_1M) = Some (TLS_PARAM_STATUS_OK, s)"
      "param_ready (fls_ready c_busy 0x100000 0) (fls_contents d_mem c_mem) layout_1M s"
      "updp_mode s = 0" "fp_modify_count (flash_param s) = 1"
    using params1.init_ok [of "reset_state board_1M"] rec board_1M_ready board_1M_blank
    by (auto simp: reset_state_def readable_def)
  then show "param_ready (fls_ready c_busy 0x100000 0) (fls_contents d_mem c_mem) layout_1M booted"
      "updp_mode booted = 0" "fp_modify_count (flash_param booted) = 1" "length (flash_param booted) = FLASH_PARAM_SIZE"
    by (auto simp: booted_def param_ready_def dest: store_ok_length)
qed

lemma booted_store: "store_ok layout_1M (fls_contents d_mem c_mem (pdev booted)) (flash_param booted)"
  "fls_ready c_busy 0x100000 0 (pdev booted)" "length (sram_param booted) = SYS_SIZE"
  using booted_facts(1) by (simp_all add: param_ready_def)

text \<open>A power failure that leaves the sector of an interrupted write erased.\<close>

definition torn_erase :: "nat \<Rightarrow> bytes option \<Rightarrow> (chip, qdev) fls_state \<Rightarrow> (chip, qdev) fls_state" where
  "torn_erase a buf d =
     (if 4096 dvd a \<and> FLASH_BASE_ADDR \<le> a \<and> a < FLASH_1M_END_ADDR
      then d\<lparr>qf := (qf d)\<lparr>d_mem := nor_erase (d_mem (qf d)) (a - FLASH_BASE_ADDR) 4096\<rparr>\<rparr> else d)"

lemma torn_erase_contents:
  "fls_contents d_mem c_mem (torn_erase a buf d) =
     (if 4096 dvd a \<and> FLASH_BASE_ADDR \<le> a \<and> a < FLASH_1M_END_ADDR
      then nor_erase (fls_contents d_mem c_mem d) a 4096 else fls_contents d_mem c_mem d)"
  by (rule ext) (auto simp: torn_erase_def fls_contents_def nor_erase_def elim!: dvdE)

lemma erased_spoilt:
  assumes "4 \<le> n"
  shows "spoilt (mem_get (nor_erase m a 4096) a n)"
proof -
  have four: "replicate 4 (0xFF :: u8) = [0xFF, 0xFF, 0xFF, 0xFF]" by (simp add: numeral_eq_Suc)
  have "slice 0 4 (mem_get (nor_erase m a 4096) a n) = replicate 4 0xFF"
    using assms by (intro nth_equalityI) (simp_all add: nth_slice nth_mem_get nor_erase_def)
  then have "fp_magic (mem_get (nor_erase m a 4096) a n) = 0xFFFFFFFF"
    by (simp add: fp_magic_def get_u32_def four of_le32_def)
  then show ?thesis by (simp add: spoilt_def)
qed

lemma torn_erase_ok: "torn_ok (fls_ready c_busy 0x100000 0) (fls_contents d_mem c_mem) torn_erase"
proof -
  have "fls_ready c_busy 0x100000 0 (torn_erase a buf d)" if "fls_ready c_busy 0x100000 0 d" for a buf d
    using board1.ready_qf [OF that] that by (auto simp: torn_erase_def)
  moreover have "fls_contents d_mem c_mem (torn_erase a buf d) i = fls_contents d_mem c_mem d i"
    if "i div 4096 \<noteq> a div 4096" for a buf d i
    using that by (auto simp: torn_erase_contents nor_erase_def elim!: dvdE)
  ultimately show ?thesis
    using erased_spoilt by (simp add: torn_ok_def torn_erase_contents Let_def)
qed

text \<open>The started board after the channel was set and saved.\<close>

definition channel_set :: "(chip, qdev) fls_state param_state" where
  "channel_set = snd (the (tls_param_set (board_fls nor_ctl chip_1M) layout_1M TLS_PARAM_ID_CHANNEL (Some [6]) True booted))"

lemma channel_set_ok:
  "tls_param_set (board_fls nor_ctl chip_1M) layout_1M TLS_PARAM_ID_CHANNEL (Some [6]) True booted =
    Some (TLS_PARAM_STATUS_OK, channel_set)"
proof -
  have cases: "map_of set_cases TLS_PARAM_ID_CHANNEL = Some (Member M_channel)"
      "map_of to_flash_cases TLS_PARAM_ID_CHANNEL = Some (Member M_channel)"
    by (simp_all add: cases_defs)
  obtain w where "arg_to_struct (Member M_channel) (sram_param booted) [6] = Some (patch (sram_param booted) (offset_of M_channel) [6])"
      "struct_to_struct (Member M_channel) (flash_param booted) 16 (patch (sram_param booted) (offset_of M_channel) [6]) =
        Some (patch (flash_param booted) (16 + offset_of M_channel) w)"
    by (rule stored_paths [of M_channel "Member M_channel" "Member M_channel" "[6]" "[6]", OF _ _ _ _ _ booted_store(3) booted_facts(4)])
      (simp_all add: member_eval slice_def)
  then show ?thesis
    using params1.set_flash_ready [OF booted_facts(1,2) cases(1) _ cases(2)] booted_facts(3)
    by (fastforce simp: channel_set_def)
qed

section \<open>Properties\<close>

text \<open>C17: on a flash whose two partitions are both damaged, by which \<open>spoilt\<close> means a magic number that is
  not \<open>TLS_PARAM_MAGIC\<close>, or a length that lies within the structure and a CRC-32 over it that is wrong (a
  length outside makes the code read outside its buffer), \<open>tls_param_init\<close> returns OK with the factory
  defaults, and the flash differs from before in exactly three places: the sector behind the partitions
  is erased, and both partitions hold the factory defaults, sealed with their own number and count 1.\<close>

theorem tls_param_init_blank:
  assumes "flash_board qo qmem qwel 0x100000 ops cmem wel busy isize2" "map_for isize2 l" "fls_ready busy 0x100000 isize2 d"
    and "spoilt (part_image l (fls_contents qmem cmem d) 0)" "spoilt (part_image l (fls_contents qmem cmem d) 1)"
  shows "\<exists>s. tls_param_init (board_fls qo ops) l (reset_state d) = Some (TLS_PARAM_STATUS_OK, s) \<and>
    param_ready (fls_ready busy 0x100000 isize2) (fls_contents qmem cmem) l s \<and> sram_param s = factory_default \<and>
    fls_contents qmem cmem (pdev s) =
      mem_upd (mem_upd (nor_erase (fls_contents qmem cmem d) (TLS_FLASH_PARAM_RESTORE_ADDR l) 4096)
        (TLS_FLASH_PARAM1_ADDR l) (sealed_image 0 1 factory_default))
        (TLS_FLASH_PARAM2_ADDR l) (sealed_image 1 1 factory_default)"
proof -
  have "recover l (fls_contents qmem cmem d) = None"
    using assms(4,5) by (auto simp: recover_def Let_def dest: spoilt_not_intact)
  then show ?thesis
    using param_flash.init_ok [OF board_param_flash [OF assms(1,2)], of "reset_state d"] assms(3-5)
    by (auto simp: reset_state_def readable_def part_addr_def)
qed

theorem tls_param_init_blank_witness:
  "\<exists>s. tls_param_init (board_fls nor_ctl chip_1M) layout_1M (reset_state board_1M) = Some (TLS_PARAM_STATUS_OK, s) \<and>
    param_ready (fls_ready c_busy 0x100000 0) (fls_contents d_mem c_mem) layout_1M s \<and> sram_param s = factory_default \<and>
    fls_contents d_mem c_mem (pdev s) =
      mem_upd (mem_upd (nor_erase (fls_contents d_mem c_mem board_1M) (TLS_FLASH_PARAM_RESTORE_ADDR layout_1M) 4096)
        (TLS_FLASH_PARAM1_ADDR layout_1M) (sealed_image 0 1 factory_default))
        (TLS_FLASH_PARAM2_ADDR layout_1M) (sealed_image 1 1 factory_default)"
  by (rule tls_param_init_blank [OF _ _ board_1M_ready board_1M_blank board_1M_blank])
    (use board1.flash_board_axioms in \<open>simp_all add: map_for_def\<close>)

text \<open>C3: a parameter set with \<open>to_flash\<close> survives a reset, for every identifier but \<open>TLS_PARAM_ID_ALL\<close> and
  \<open>TLS_PARAM_ID_AUTO_TRIGGER_PERIOD\<close> (whose case in \<open>param_to_flash\<close> runs on into the next one), in the
  normal mode (\<open>updp_mode\<close> 0), with an argument that has as many bytes as the member, or a string that
  fits the member with its terminator, and as long as the modification count does not wrap (when it is
  65535 the value is lost, \<open>tls_param_set_lost_at_wrap\<close>). Whatever state the flash driver is in when it is
  ready again, as long as the flash holds what it held, \<open>tls_param_init\<close> returns OK with the new value of
  the parameter and, for every other member, the value that was saved before.\<close>

theorem tls_param_set_survives_reset:
  assumes "flash_board qo qmem qwel 0x100000 ops cmem wel busy isize2" "map_for isize2 l"
    and "param_ready (fls_ready busy 0x100000 isize2) (fls_contents qmem cmem) l s" "updp_mode s = 0"
    and "map_of set_cases idn = Some a" "a = Member m \<or> a = Str m" "idn \<noteq> TLS_PARAM_ID_AUTO_TRIGGER_PERIOD"
    and "arg_bytes a argv = Some v" "length v \<le> size_of m" "unat (fp_modify_count (flash_param s)) < 65535"
  shows "\<exists>s1. tls_param_set (board_fls qo ops) l idn (Some argv) True s = Some (TLS_PARAM_STATUS_OK, s1) \<and>
    param_ready (fls_ready busy 0x100000 isize2) (fls_contents qmem cmem) l s1 \<and>
    (\<forall>d. fls_ready busy 0x100000 isize2 d \<and> fls_contents qmem cmem d = fls_contents qmem cmem (pdev s1) \<longrightarrow>
      (\<exists>s2. tls_param_init (board_fls qo ops) l (reset_state d) = Some (TLS_PARAM_STATUS_OK, s2) \<and>
        param_ready (fls_ready busy 0x100000 isize2) (fls_contents qmem cmem) l s2 \<and>
        take (length v) (member_of m (sram_param s2)) = v \<and>
        (\<forall>k<62. k \<noteq> m \<longrightarrow> member_of k (sram_param s2) = member_of k (fp_parameters (flash_param s)))))"
proof -
  note pf = board_param_flash [OF assms(1,2)]
  have m: "m < 62" using set_get_cases [OF assms(5)] assms(6) by auto
  note room = member_room [OF m]
  have len: "length (sram_param s) = SYS_SIZE" "length (flash_param s) = FLASH_PARAM_SIZE"
    using assms(3) by (auto simp: param_ready_def dest: store_ok_length)
  obtain b where b: "map_of to_flash_cases idn = Some b" "b = Member m \<or> a = Str m \<and> b = Str m"
    using member_cases [OF assms(5-7)] by blast
  define p where "p = patch (sram_param s) (offset_of m) v"
  obtain w where w: "arg_to_struct a (sram_param s) argv = Some p"
      "struct_to_struct b (flash_param s) 16 p = Some (patch (flash_param s) (16 + offset_of m) w)"
      "length v \<le> length w" "length w \<le> size_of m" "take (length v) w = v"
    using stored_paths [OF m assms(6) b(2) assms(8,9) len] unfolding p_def by blast
  define fp1 where "fp1 = patch (flash_param s) (16 + offset_of m) w"
  have len1: "length fp1 = FLASH_PARAM_SIZE" using len(2) room w(4) by (simp add: fp1_def)
  note get = member_parameters
  have "take (length w) (slice (16 + offset_of m) (size_of m) fp1) = slice (16 + offset_of m) (length w) fp1"
    using w(4) by (simp add: slice_def min_absorb1)
  then have "take (length w) (member_of m (fp_parameters fp1)) = w"
    using slice_patch_same [of "16 + offset_of m" w "flash_param s"] len(2) room w(4)
    unfolding get [OF m len1] by (simp add: fp1_def)
  then have new: "take (length v) (member_of m (fp_parameters fp1)) = v"
    using w(3,5) take_take [of "length v" "length w" "member_of m (fp_parameters fp1)"] by (simp add: min_absorb1)
  have old: "member_of k (fp_parameters fp1) = member_of k (fp_parameters (flash_param s))" if "k < 62" "k \<noteq> m" for k
  proof -
    have "slice (16 + offset_of k) (size_of k) fp1 = slice (16 + offset_of k) (size_of k) (flash_param s)"
      using member_disjoint [OF m that(1)] that(2) member_room [OF that(1)] room len(2) w(4)
      unfolding fp1_def by (intro slice_patch_other) auto
    then show ?thesis using get [OF that(1) len1] get [OF that(1) len(2)] by simp
  qed
  obtain s1 where s1: "tls_param_set (board_fls qo ops) l idn (Some argv) True s = Some (TLS_PARAM_STATUS_OK, s1)"
      "param_ready (fls_ready busy 0x100000 isize2) (fls_contents qmem cmem) l s1"
      "fp_parameters (flash_param s1) = fp_parameters fp1"
      "intact 0 (part_image l (fls_contents qmem cmem (pdev s1)) 0) \<and> intact 1 (part_image l (fls_contents qmem cmem (pdev s1)) 1)"
    using param_flash.set_flash_ready [OF pf assms(3-5) w(1) b(1) w(2) assms(10)] unfolding fp1_def by blast
  have ok: "store_ok l (fls_contents qmem cmem (pdev s1)) (flash_param s1)" using s1(2) by (simp add: param_ready_def)
  have "\<exists>s2. tls_param_init (board_fls qo ops) l (reset_state d) = Some (TLS_PARAM_STATUS_OK, s2) \<and>
        param_ready (fls_ready busy 0x100000 isize2) (fls_contents qmem cmem) l s2 \<and> sram_param s2 = fp_parameters fp1"
    if "fls_ready busy 0x100000 isize2 d" "fls_contents qmem cmem d = fls_contents qmem cmem (pdev s1)" for d
    using param_flash.reset_ok [OF pf that(1), of "flash_param s1"] that(2) ok s1(3,4) by simp
  then show ?thesis using s1(1,2) new old by metis
qed

theorem tls_param_set_survives_reset_witness:
  "\<exists>s1. tls_param_set (board_fls nor_ctl chip_1M) layout_1M TLS_PARAM_ID_SNTP_SERVER1 (Some [0x61, 0x62, 0]) True booted =
      Some (TLS_PARAM_STATUS_OK, s1) \<and>
    param_ready (fls_ready c_busy 0x100000 0) (fls_contents d_mem c_mem) layout_1M s1 \<and>
    (\<forall>d. fls_ready c_busy 0x100000 0 d \<and> fls_contents d_mem c_mem d = fls_contents d_mem c_mem (pdev s1) \<longrightarrow>
      (\<exists>s2. tls_param_init (board_fls nor_ctl chip_1M) layout_1M (reset_state d) = Some (TLS_PARAM_STATUS_OK, s2) \<and>
        param_ready (fls_ready c_busy 0x100000 0) (fls_contents d_mem c_mem) layout_1M s2 \<and>
        take (length [0x61, 0x62, 0 :: u8]) (member_of M_sntp_service1 (sram_param s2)) = [0x61, 0x62, 0] \<and>
        (\<forall>k<62. k \<noteq> M_sntp_service1 \<longrightarrow>
          member_of k (sram_param s2) = member_of k (fp_parameters (flash_param booted)))))"
  by (rule tls_param_set_survives_reset [OF _ _ booted_facts(1,2), where a = "Str M_sntp_service1"])
    (use board1.flash_board_axioms in \<open>simp_all add: map_for_def cases_defs member_eval booted_facts\<close>)

text \<open>C5: saving is atomic, and durable once it is reported. The power fails at any moment of
  \<open>tls_param_set\<close> with \<open>to_flash\<close> (after \<open>k - 1\<close> flash operations, the next one being interrupted), for every
  identifier for which the call would succeed, as long as the modification count does not wrap. An
  interrupted write may leave its sector in any state in which the place of the structure holds the old
  bytes, or all new ones, or shows the damage by its magic number or its CRC (\<open>torn_ok\<close>); all other
  sectors keep what they held. After the reset \<open>tls_param_init\<close> on what is left in the flash returns OK with
  a good state, and loads either what the completed call would have saved, or what was saved before,
  the latter only when the call had not yet returned OK.\<close>

theorem tls_param_set_atomic:
  assumes "flash_board qo qmem qwel 0x100000 ops cmem wel busy isize2" "map_for isize2 l"
    and "param_ready (fls_ready busy 0x100000 isize2) (fls_contents qmem cmem) l s" "updp_mode s = 0"
    and "unat (fp_modify_count (flash_param s)) < 65535"
    and "tls_param_set (board_fls qo ops) l idn (Some argv) True s = Some (TLS_PARAM_STATUS_OK, s')"
    and "torn_ok (fls_ready busy 0x100000 isize2) (fls_contents qmem cmem) torn"
  shows "\<exists>err s1 s2. tls_param_set (cut_fls torn (board_fls qo ops)) l idn (Some argv) True (powered k s) = Some (err, s1) \<and>
    tls_param_init (board_fls qo ops) l (reset_state (fst (pdev s1))) = Some (TLS_PARAM_STATUS_OK, s2) \<and>
    param_ready (fls_ready busy 0x100000 isize2) (fls_contents qmem cmem) l s2 \<and>
    (sram_param s2 = fp_parameters (flash_param s') \<or>
     err \<noteq> TLS_PARAM_STATUS_OK \<and> sram_param s2 = fp_parameters (flash_param s))"
  by (rule param_flash.cut_set_ok [OF board_param_flash [OF assms(1,2)] assms(3-7)])

theorem tls_param_set_atomic_witness:
  "\<exists>err s1 s2. tls_param_set (cut_fls torn_erase (board_fls nor_ctl chip_1M)) layout_1M TLS_PARAM_ID_CHANNEL (Some [6]) True (powered 1 booted) =
      Some (err, s1) \<and>
    tls_param_init (board_fls nor_ctl chip_1M) layout_1M (reset_state (fst (pdev s1))) = Some (TLS_PARAM_STATUS_OK, s2) \<and>
    param_ready (fls_ready c_busy 0x100000 0) (fls_contents d_mem c_mem) layout_1M s2 \<and>
    (sram_param s2 = fp_parameters (flash_param channel_set) \<or>
     err \<noteq> TLS_PARAM_STATUS_OK \<and> sram_param s2 = fp_parameters (flash_param booted))"
  by (rule tls_param_set_atomic [OF _ _ booted_facts(1,2) _ channel_set_ok torn_erase_ok])
    (use board1.flash_board_axioms in \<open>simp_all add: map_for_def booted_facts\<close>)

text \<open>\<open>tls_param_to_default\<close> writes the factory defaults to both partitions and marks the module as
  not initialised, so that the following \<open>tls_param_init\<close> is not refused and loads them.\<close>

theorem tls_param_to_default_then_init:
  assumes "flash_board qo qmem qwel 0x100000 ops cmem wel busy isize2" "map_for isize2 l"
    and "fls_ready busy 0x100000 isize2 (pdev s)" "heap s = []" "length (flash_param s) = FLASH_PARAM_SIZE"
  shows "\<exists>s1 s2. tls_param_to_default (board_fls qo ops) l s = Some (TLS_PARAM_STATUS_OK, s1) \<and>
    fp_magic (flash_param s1) \<noteq> TLS_PARAM_MAGIC \<and>
    tls_param_init (board_fls qo ops) l s1 = Some (TLS_PARAM_STATUS_OK, s2) \<and>
    param_ready (fls_ready busy 0x100000 isize2) (fls_contents qmem cmem) l s2 \<and> sram_param s2 = factory_default"
proof -
  note pf = board_param_flash [OF assms(1,2)]
  obtain s1 where s1: "tls_param_to_default (board_fls qo ops) l s = Some (TLS_PARAM_STATUS_OK, s1)"
      "fls_ready busy 0x100000 isize2 (pdev s1)" "heap s1 = []" "fp_magic (flash_param s1) \<noteq> TLS_PARAM_MAGIC"
      "intact 0 (part_image l (fls_contents qmem cmem (pdev s1)) 0) \<and> intact 1 (part_image l (fls_contents qmem cmem (pdev s1)) 1)"
      "map_option fp_parameters (recover l (fls_contents qmem cmem (pdev s1))) = Some factory_default"
    using param_flash.to_default_ok [OF pf assms(3-5)] by blast
  obtain s2 where s2: "tls_param_init (board_fls qo ops) l s1 = Some (TLS_PARAM_STATUS_OK, s2)"
      "param_ready (fls_ready busy 0x100000 isize2) (fls_contents qmem cmem) l s2"
      "sram_param s2 = (case recover l (fls_contents qmem cmem (pdev s1)) of None \<Rightarrow> factory_default | Some x \<Rightarrow> fp_parameters x)"
    using param_flash.init_ok [OF pf s1(2-4)] s1(5) by (auto simp: readable_def)
  show ?thesis using s1 s2 by (auto split: option.splits)
qed

theorem tls_param_to_default_then_init_witness:
  "\<exists>s1 s2. tls_param_to_default (board_fls nor_ctl chip_1M) layout_1M (ram_state board_1M) = Some (TLS_PARAM_STATUS_OK, s1) \<and>
    fp_magic (flash_param s1) \<noteq> TLS_PARAM_MAGIC \<and>
    tls_param_init (board_fls nor_ctl chip_1M) layout_1M s1 = Some (TLS_PARAM_STATUS_OK, s2) \<and>
    param_ready (fls_ready c_busy 0x100000 0) (fls_contents d_mem c_mem) layout_1M s2 \<and> sram_param s2 = factory_default"
  by (rule tls_param_to_default_then_init)
    (use board1.flash_board_axioms board_1M_ready in \<open>simp_all add: map_for_def ram_state_def reset_state_def\<close>)

text \<open>The user defaults that \<open>tls_param_save_user_default\<close> stored are what \<open>tls_param_load_user\<close>
  returns.\<close>

theorem tls_param_user_default_roundtrip:
  assumes "flash_board qo qmem qwel 0x100000 ops cmem wel busy isize2" "map_for isize2 l"
    and "fls_ready busy 0x100000 isize2 (pdev s)" "length (user_default_param s) = SYS_SIZE" "8 \<le> length stack"
  shows "\<exists>s1 s2. tls_param_save_user_default (board_fls qo ops) l s = Some (TLS_PARAM_STATUS_OK, s1) \<and>
    tls_param_load_user (board_fls qo ops) l stack param s1 = Some (TLS_PARAM_STATUS_OK, user_default_param s, s2)"
  by (rule param_flash.user_default_ok [OF board_param_flash [OF assms(1,2)] assms(3-5)])

theorem tls_param_user_default_roundtrip_witness:
  "\<exists>s1 s2. tls_param_save_user_default (board_fls nor_ctl chip_1M) layout_1M ((reset_state board_1M)\<lparr>user_default_param := factory_default\<rparr>) =
      Some (TLS_PARAM_STATUS_OK, s1) \<and>
    tls_param_load_user (board_fls nor_ctl chip_1M) layout_1M (zeros 8) (zeros SYS_SIZE) s1 =
      Some (TLS_PARAM_STATUS_OK, user_default_param ((reset_state board_1M)\<lparr>user_default_param := factory_default\<rparr>), s2)"
  by (rule tls_param_user_default_roundtrip)
    (use board1.flash_board_axioms board_1M_ready in \<open>simp_all add: map_for_def reset_state_def\<close>)

text \<open>C26: when the modification count is 65535, the count of the new partition wraps to 0: the call returns
  OK, but a reset brings back the parameters from before.\<close>

theorem tls_param_set_lost_at_wrap:
  assumes "flash_board qo qmem qwel 0x100000 ops cmem wel busy isize2" "map_for isize2 l"
    and "param_ready (fls_ready busy 0x100000 isize2) (fls_contents qmem cmem) l s" "updp_mode s = 0"
    and "map_of set_cases idn = Some (Member m)" "map_of to_flash_cases idn = Some (Member m)"
    and "size_of m \<le> length argv" "fp_modify_count (flash_param s) = 65535"
  shows "\<exists>s1. tls_param_set (board_fls qo ops) l idn (Some argv) True s = Some (TLS_PARAM_STATUS_OK, s1) \<and>
    (\<forall>d. fls_ready busy 0x100000 isize2 d \<and> fls_contents qmem cmem d = fls_contents qmem cmem (pdev s1) \<longrightarrow>
      (\<exists>s2. tls_param_init (board_fls qo ops) l (reset_state d) = Some (TLS_PARAM_STATUS_OK, s2) \<and>
        sram_param s2 = fp_parameters (flash_param s)))"
proof -
  note pf = board_param_flash [OF assms(1,2)]
  have parts: "parts_apart l" by (rule param_flash.parts [OF pf])
  let ?fp = "flash_param s" and ?c = "fls_contents qmem cmem"
  have m: "m < 62" using set_get_cases [OF assms(5)] by simp
  have ok: "store_ok l (?c (pdev s)) ?fp" and len: "length (sram_param s) = SYS_SIZE" "length ?fp = FLASH_PARAM_SIZE"
    using assms(3) by (auto simp: param_ready_def dest: store_ok_length)
  define fp1 where "fp1 = patch ?fp (16 + offset_of m) (take (size_of m) argv)"
  note paths = member_paths [OF m assms(7) len]
  have 2: "struct_to_struct (Member m) ?fp 16 (patch (sram_param s) (offset_of m) (take (size_of m) argv)) = Some fp1"
    using paths(3) by (simp add: fp1_def)
  define new where "new = sealed_image (other (fp_partition_num ?fp)) (fp_modify_count ?fp + 1) (fp_parameters fp1)"
  obtain s1 where s1: "tls_param_set (board_fls qo ops) l idn (Some argv) True s = Some (TLS_PARAM_STATUS_OK, s1)"
      "length (fp_parameters fp1) = SYS_SIZE" "?c (pdev s1) = mem_upd (?c (pdev s)) (part_addr l (fp_partition_num new)) new"
    using param_flash.set_flash_ok [OF pf assms(3-5) paths(1) assms(6) 2 refl, folded new_def] by auto
  note im = image_fields [OF s1(2)] intact_image [OF s1(2)]
  obtain n where n: "n = 0 \<or> n = 1" "fp_partition_num ?fp = n" "intact n ?fp" "part_image l (?c (pdev s)) n = ?fp"
    using store_ok_cases [OF ok] by metis
  have new: "length new = FLASH_PARAM_SIZE" "fp_partition_num new = other n" "fp_modify_count new = 0" "intact (other n) new"
    using n(2) assms(8) by (simp_all add: new_def im)
  have imgs: "part_image l (?c (pdev s1)) (other n) = new" "part_image l (?c (pdev s1)) n = ?fp"
    using part_image_upd_same [OF new(1)] part_image_upd_other [OF parts new(1), of "other n" n] n s1(3) new(2) by auto
  have rec: "recover l (?c (pdev s1)) = Some ?fp"
    using n(1,3) imgs new(3,4) assms(8) by (auto simp: recover_def Let_def)
  have both: "intact 0 (part_image l (?c (pdev s1)) 0) \<and> intact 1 (part_image l (?c (pdev s1)) 1)"
    using n(1,3) imgs new(4) by auto
  have ok1: "store_ok l (?c (pdev s1)) ?fp"
    using both by (intro store_ok_recovered [OF rec]) (simp_all add: readable_def)
  have "\<exists>s2. tls_param_init (board_fls qo ops) l (reset_state d) = Some (TLS_PARAM_STATUS_OK, s2) \<and>
      sram_param s2 = fp_parameters ?fp"
    if "fls_ready busy 0x100000 isize2 d" "?c d = ?c (pdev s1)" for d
    using param_flash.reset_ok [OF pf that(1), of ?fp] that(2) ok1 both by auto
  then show ?thesis using s1(1) by blast
qed

lemma size_channel: "size_of M_channel = 1"
  by (simp add: member_eval)

definition worn_board :: "(chip, qdev) fls_state" where
  "worn_board = board_1M\<lparr>qf := (qf board_1M)\<lparr>d_mem := mem_upd (d_mem (qf board_1M)) 0xFD000 (sealed_image 0 65535 factory_default)\<rparr>\<rparr>"

definition worn_state :: "(chip, qdev) fls_state param_state" where
  "worn_state = (ram_state worn_board)\<lparr>flash_param := sealed_image 0 65535 factory_default\<rparr>"

lemma worn_ready: "param_ready (fls_ready c_busy 0x100000 0) (fls_contents d_mem c_mem) layout_1M worn_state"
proof -
  note im = image_fields [OF length_factory_default]
  have apart: "parts_apart layout_1M" by (simp add: parts_apart_def layout_defs)
  have "fls_contents d_mem c_mem worn_board =
      mem_upd (fls_contents d_mem c_mem board_1M) (FLASH_BASE_ADDR + 0xFD000) (sealed_image 0 65535 factory_default)"
    unfolding worn_board_def by (rule fls_contents_qf) (simp_all add: im)
  moreover have "FLASH_BASE_ADDR + 0xFD000 = part_addr layout_1M 0" by (simp add: part_addr_def layout_defs)
  ultimately have "store_ok layout_1M (fls_contents d_mem c_mem worn_board) (sealed_image 0 65535 factory_default)"
    using store_ok_newer [OF apart _ length_factory_default, of 0 "fls_contents d_mem c_mem board_1M" 65535]
      board_1M_blank [of 1] spoilt_not_intact [OF board_1M_blank]
    by (simp add: readable_def)
  moreover have "fls_ready c_busy 0x100000 0 worn_board"
    unfolding worn_board_def by (rule board1.ready_qf [OF board_1M_ready])
  ultimately show ?thesis by (simp add: param_ready_def worn_state_def ram_state_def reset_state_def)
qed

theorem tls_param_set_lost_at_wrap_witness:
  "\<exists>s1. tls_param_set (board_fls nor_ctl chip_1M) layout_1M TLS_PARAM_ID_CHANNEL (Some [6]) True worn_state = Some (TLS_PARAM_STATUS_OK, s1) \<and>
    (\<forall>d. fls_ready c_busy 0x100000 0 d \<and> fls_contents d_mem c_mem d = fls_contents d_mem c_mem (pdev s1) \<longrightarrow>
      (\<exists>s2. tls_param_init (board_fls nor_ctl chip_1M) layout_1M (reset_state d) = Some (TLS_PARAM_STATUS_OK, s2) \<and>
        sram_param s2 = fp_parameters (flash_param worn_state)))"
  by (rule tls_param_set_lost_at_wrap [OF _ _ worn_ready, where m = M_channel])
    (use board1.flash_board_axioms in \<open>simp_all add: map_for_def cases_defs size_channel worn_state_def ram_state_def
      reset_state_def image_fields\<close>)

text \<open>The started board, with the debug mode switched on in RAM only.\<close>

definition debug_state :: "(chip, qdev) fls_state param_state" where
  "debug_state = booted\<lparr>sram_param := patch (sram_param booted) 360 [1, 0, 0, 0]\<rparr>"

lemma debug_state_ready: "param_ready (fls_ready c_busy 0x100000 0) (fls_contents d_mem c_mem) layout_1M debug_state"
  using booted_facts(1) by (auto simp: param_ready_def debug_state_def)

text \<open>Saving the trigger period also saves the debug mode: the case falls through into the next one,
  and a debug mode that was only set in RAM reaches the flash.\<close>

theorem trigger_period_saves_debug_mode:
  assumes "flash_board qo qmem qwel 0x100000 ops cmem wel busy isize2" "map_for isize2 l"
    and "param_ready (fls_ready busy 0x100000 isize2) (fls_contents qmem cmem) l s" "updp_mode s = 0" "2 \<le> length argv"
  shows "\<exists>s1. tls_param_set (board_fls qo ops) l TLS_PARAM_ID_AUTO_TRIGGER_PERIOD (Some argv) True s =
      Some (TLS_PARAM_STATUS_OK, s1) \<and>
    member_of M_debug_mode (fp_parameters (flash_param s1)) = member_of M_debug_mode (sram_param s)"
proof -
  note pf = board_param_flash [OF assms(1,2)]
  let ?fp = "flash_param s" and ?m = M_transparent_trigger_period
  have len: "length (sram_param s) = SYS_SIZE" "length ?fp = FLASH_PARAM_SIZE"
    using assms(3) by (auto simp: param_ready_def dest: store_ok_length)
  have cases: "map_of set_cases TLS_PARAM_ID_AUTO_TRIGGER_PERIOD = Some (Member ?m)"
      "map_of to_flash_cases TLS_PARAM_ID_AUTO_TRIGGER_PERIOD = Some (Fall ?m (Member M_debug_mode))"
    by (simp_all add: cases_defs)
  have off: "offset_of ?m = 320" "size_of ?m = 2" "offset_of M_debug_mode = 360" "size_of M_debug_mode = 4"
    by (simp_all add: member_eval)
  define p where "p = patch (sram_param s) 320 (take 2 argv)"
  define x where "x = slice 360 4 (sram_param s)"
  define fp1 where "fp1 = patch (patch ?fp 336 (take 2 argv)) 376 x"
  note paths = member_paths [OF _ _ len, of ?m argv, unfolded off]
  have 1: "arg_to_struct (Member ?m) (sram_param s) argv = Some p" using paths(1) assms(5) by (simp add: p_def)
  have dbg: "slice 360 4 p = x"
    unfolding p_def x_def using len(1) assms(5) by (intro slice_patch_other) auto
  have 2: "struct_to_struct (Fall ?m (Member M_debug_mode)) ?fp 16 p = Some fp1"
    using paths(3) assms(5) len dbg by (simp add: off p_def [symmetric] fp1_def) (simp add: p_def)
  have lx: "length x = 4" using len(1) by (simp add: x_def)
  have len1: "length fp1 = FLASH_PARAM_SIZE" using len(2) assms(5) lx by (simp add: fp1_def)
  obtain s1 where s1: "tls_param_set (board_fls qo ops) l TLS_PARAM_ID_AUTO_TRIGGER_PERIOD (Some argv) True s = Some (TLS_PARAM_STATUS_OK, s1)"
      "length (fp_parameters fp1) = SYS_SIZE"
      "flash_param s1 = sealed_image (other (fp_partition_num ?fp)) (fp_modify_count ?fp + 1) (fp_parameters fp1)"
    using param_flash.set_flash_ok [OF pf assms(3,4) cases(1) 1 cases(2) 2 refl] by auto
  have "member_of M_debug_mode (fp_parameters fp1) = slice 376 4 fp1"
    using member_parameters [OF _ len1, of M_debug_mode] by (simp add: off)
  also have "\<dots> = x"
    using slice_patch_same [of 376 x "patch ?fp 336 (take 2 argv)"] lx len(2) assms(5) by (simp add: fp1_def)
  also have "\<dots> = member_of M_debug_mode (sram_param s)" by (simp add: x_def member_of_def off)
  finally show ?thesis using s1 by (auto simp: image_fields [OF s1(2)])
qed

theorem trigger_period_saves_debug_mode_witness:
  "\<exists>s1. tls_param_set (board_fls nor_ctl chip_1M) layout_1M TLS_PARAM_ID_AUTO_TRIGGER_PERIOD (Some [9, 0]) True debug_state =
      Some (TLS_PARAM_STATUS_OK, s1) \<and>
    member_of M_debug_mode (fp_parameters (flash_param s1)) = member_of M_debug_mode (sram_param debug_state)"
  by (rule trigger_period_saves_debug_mode [OF _ _ debug_state_ready])
    (use board1.flash_board_axioms booted_facts(2) in \<open>simp_all add: map_for_def debug_state_def\<close>)

end
