(* ===== verification/Hard_Crc.thy ===== *)
theory Hard_Crc
  imports Crc
begin

text \<open>
  The CRC functions of \<^verbatim>\<open>src/Platform/Common/crypto/wm_crypto_hard.c\<close>. The crypto engine is a parameter:
  what its configuration register reads, and the result of a run, from the configuration and the start
  value that the code stores to its registers and the memory at the source address. The locale
  \<open>crc_engine\<close> states what the engine computes for the reflected 32-bit CRC; on top of it a CRC taken
  block by block is the CRC of the whole, and agrees with the software CRC of \<open>Crc\<close>.
\<close>

section \<open>Operations\<close>

abbreviation (input) CRYPTO_CRC_TYPE_32 :: nat where "CRYPTO_CRC_TYPE_32 \<equiv> 3"
abbreviation (input) CRYPTO_METHOD_CRC :: u32 where "CRYPTO_METHOD_CRC \<equiv> 6"

record psCrcContext =
  ctx_state :: u32
  ctx_type :: nat
  ctx_mode :: nat

record 'h crypto_hw =
  hw_sec_cfg :: "'h \<Rightarrow> u32"
  hw_run :: "u32 \<Rightarrow> u32 \<Rightarrow> bytes \<Rightarrow> 'h \<Rightarrow> u32 \<times> 'h"

definition Reflect :: "u32 \<Rightarrow> nat \<Rightarrow> u32" where
  "Reflect ref ch = snd (foldl (\<lambda>(ref, val) i.
     (drop_bit 1 ref, if ref AND 1 \<noteq> 0 then val OR push_bit (ch - i) 1 else val)) (ref, 0) [1..<ch + 1])"

definition tls_crypto_crc_init :: "u32 \<Rightarrow> nat \<Rightarrow> nat \<Rightarrow> psCrcContext" where
  "tls_crypto_crc_init key ty md = \<lparr>ctx_state = key, ctx_type = ty, ctx_mode = md\<rparr>"

definition crc_width :: "nat \<Rightarrow> nat" where
  "crc_width ty = (if ty = 0 then 8 else if ty = 1 \<or> ty = 2 then 16 else if ty = 3 then 32 else 16)"

definition crc_config :: "u32 \<Rightarrow> psCrcContext \<Rightarrow> nat \<Rightarrow> u32" where
  "crc_config val ctx len =
     (val AND 0xF0000000) OR push_bit 16 CRYPTO_METHOD_CRC OR push_bit 21 (of_nat (ctx_type ctx)) OR
     push_bit 23 (of_nat (ctx_mode ctx)) OR (of_nat len AND 0xFFFF)"

definition tls_crypto_crc_update ::
    "'h crypto_hw \<Rightarrow> psCrcContext \<Rightarrow> bytes \<Rightarrow> nat \<Rightarrow> 'h \<Rightarrow> psCrcContext \<times> 'h" where
  "tls_crypto_crc_update hw ctx inp len h =
     (let sec_cfg = crc_config (hw_sec_cfg hw h) ctx len;
          key = (if ctx_mode ctx AND 1 \<noteq> 0 then Reflect (ctx_state ctx) (crc_width (ctx_type ctx)) else ctx_state ctx);
          (res, h) = hw_run hw sec_cfg key inp h
      in (ctx\<lparr>ctx_state := res\<rparr>, h))"

definition tls_crypto_crc_final :: "psCrcContext \<Rightarrow> u32" where
  "tls_crypto_crc_final ctx = ctx_state ctx"

section \<open>The engine\<close>

definition crc_byte :: "u32 \<Rightarrow> u8 \<Rightarrow> u32" where
  "crc_byte c d = (crc32_step ^^ 8) (c XOR ucast d)"

text \<open>The configuration word the code stores for a reflected CRC-32 of \<open>len\<close> bytes.\<close>

definition crc32_config :: "u32 \<Rightarrow> nat \<Rightarrow> u32" where
  "crc32_config val len = (val AND 0xF0000000) OR 0x1E60000 OR (of_nat len AND 0xFFFF)"

lemma crc_config_32:
  assumes "ctx_type ctx = CRYPTO_CRC_TYPE_32" "ctx_mode ctx = 3"
  shows "crc_config val ctx len = crc32_config val len"
proof -
  have "x OR push_bit 16 CRYPTO_METHOD_CRC OR push_bit 21 (of_nat 3) OR push_bit 23 (of_nat 3) OR y =
      x OR (0x1E60000 :: u32) OR y" for x y
    by (simp add: or.assoc [symmetric])
  then show ?thesis by (simp only: crc_config_def crc32_config_def assms)
qed

locale crc_engine =
  fixes hw :: "'h crypto_hw"
  assumes run: "len \<le> length src \<Longrightarrow> len < 65536 \<Longrightarrow>
    fst (hw_run hw (crc32_config val len) key src h) = foldl crc_byte (reflect32 key) (take len src)"

lemma reflect_loop:
  "n \<le> 32 \<Longrightarrow> foldl (\<lambda>(ref, val) i.
      (drop_bit 1 ref, if ref AND 1 \<noteq> 0 then val OR push_bit (32 - i) 1 else val)) (x :: u32, 0 :: u32) [1..<n + 1] =
    (drop_bit n x, foldl (\<lambda>val i. if drop_bit i x AND 1 \<noteq> 0 then val OR push_bit (31 - i) 1 else val) 0 [0..<n])"
  by (induction n) (simp_all add: drop_bit_drop_bit)

lemma Reflect_32: "Reflect x 32 = reflect32 x"
  using reflect_loop [of 32 x] unfolding Reflect_def reflect32_def by simp

lemma reflect32_reflect32 [simp]: "reflect32 (reflect32 x) = x"
  by (rule bit_word_eqI) (auto simp: bit_reflect32)

context crc_engine
begin

lemma update_32:
  assumes "ctx_type ctx = CRYPTO_CRC_TYPE_32" "ctx_mode ctx = 3" "len \<le> length inp" "len < 65536"
  shows "fst (tls_crypto_crc_update hw ctx inp len h) = ctx\<lparr>ctx_state := foldl crc_byte (ctx_state ctx) (take len inp)\<rparr>"
proof -
  have "(3 :: nat) AND 1 \<noteq> 0" by simp
  then show ?thesis
    using run [OF assms(3,4), of "hw_sec_cfg hw h" "reflect32 (ctx_state ctx)" h]
    by (simp add: tls_crypto_crc_update_def crc_config_32 assms(1,2) crc_width_def Reflect_32 case_prod_unfold)
qed

lemma update_32_fields [simp]:
  "ctx_type (fst (tls_crypto_crc_update hw ctx inp len h)) = ctx_type ctx"
  "ctx_mode (fst (tls_crypto_crc_update hw ctx inp len h)) = ctx_mode ctx"
  by (simp_all add: tls_crypto_crc_update_def Let_def case_prod_unfold)

end

text \<open>A message taken in blocks, as the firmware updater does.\<close>

fun crc_blocks :: "'h crypto_hw \<Rightarrow> psCrcContext \<Rightarrow> bytes list \<Rightarrow> 'h \<Rightarrow> psCrcContext \<times> 'h" where
  "crc_blocks hw ctx [] h = (ctx, h)"
| "crc_blocks hw ctx (b # bs) h = (let (ctx, h) = tls_crypto_crc_update hw ctx b (length b) h in crc_blocks hw ctx bs h)"

context crc_engine
begin

lemma blocks_32:
  assumes "ctx_type ctx = CRYPTO_CRC_TYPE_32" "ctx_mode ctx = 3" "\<forall>b\<in>set bs. length b < 65536"
  shows "fst (crc_blocks hw ctx bs h) = ctx\<lparr>ctx_state := foldl crc_byte (ctx_state ctx) (concat bs)\<rparr>"
  using assms
proof (induction bs arbitrary: ctx h)
  case (Cons b bs)
  then have "fst (tls_crypto_crc_update hw ctx b (length b) h) = ctx\<lparr>ctx_state := foldl crc_byte (ctx_state ctx) b\<rparr>"
    using update_32 [of ctx "length b" b h] by simp
  then show ?case
    using Cons by (simp add: case_prod_unfold)
qed simp

end

text \<open>An engine that meets the contract.\<close>

definition soft_engine :: "unit crypto_hw" where
  "soft_engine = \<lparr>hw_sec_cfg = (\<lambda>_. 0), hw_run = (\<lambda>cfg key src h.
     (foldl crc_byte (reflect32 key) (take (unat (cfg AND 0xFFFF)) src), h))\<rparr>"

interpretation soft: crc_engine soft_engine
proof
  fix len :: nat and src :: bytes and val key :: u32 and h :: unit
  assume len: "len \<le> length src" "len < 65536"
  have "crc32_config val len AND 0xFFFF = (of_nat len AND 0xFFFF)"
    by (simp add: crc32_config_def bit.conj_disj_distrib2 and.assoc)
  moreover have "unat (of_nat len AND 0xFFFF :: u32) = len"
    using len(2) and_mask_mod [of len 16] by (simp add: unsigned_and_eq unat_of_nat)
  ultimately show "fst (hw_run soft_engine (crc32_config val len) key src h) = foldl crc_byte (reflect32 key) (take len src)"
    by (simp add: soft_engine_def)
qed

section \<open>Properties\<close>

text \<open>C27: the CRC-32 that the crypto engine takes over a message, in any split into blocks below 64 KB,
  is the complement of what the software routine \<open>get_crc32\<close> computes over the whole message.\<close>

theorem tls_crypto_crc_is_get_crc32:
  assumes "crc_engine hw" "\<forall>b\<in>set bs. length b < 65536"
  shows "tls_crypto_crc_final (fst (crc_blocks hw (tls_crypto_crc_init 0xFFFFFFFF CRYPTO_CRC_TYPE_32 3) bs h)) =
    NOT (get_crc32 (concat bs))"
  using crc_engine.blocks_32 [OF assms(1) _ _ assms(2), of "tls_crypto_crc_init 0xFFFFFFFF CRYPTO_CRC_TYPE_32 3" h]
  by (simp add: tls_crypto_crc_init_def tls_crypto_crc_final_def get_crc32_reflect reflect32_fold reflect32_ones crc_byte_def [abs_def])

theorem tls_crypto_crc_is_get_crc32_witness:
  "tls_crypto_crc_final (fst (crc_blocks soft_engine (tls_crypto_crc_init 0xFFFFFFFF CRYPTO_CRC_TYPE_32 3) [[1, 2], [3]] ())) =
    NOT (get_crc32 (concat [[1, 2], [3]]))"
  by (rule tls_crypto_crc_is_get_crc32 [OF soft.crc_engine_axioms]) simp

end
