(* ===== verification/Fwup.thy ===== *)
theory Fwup
  imports Hard_Crc Param
begin

text \<open>
  The firmware updater of \<^verbatim>\<open>src/Platform/Common/fwup/wm_fwup.c\<close>: the check of an image header, the
  update of the header in flash, the task \<open>fwup_scheduler\<close> that takes the queued requests, writes the
  image sector by sector and verifies it, and the session functions the callers use. The flash driver
  is the record \<open>fls_ops\<close>, the crypto engine \<open>crypto_hw\<close>; the WLAN library, of which the repository
  has only the object code, and \<open>rand\<close> are the record \<open>env_ops\<close>. The task is a sequence of steps: it
  takes a message, or works on the request it has picked; the callers' functions may come between two
  steps, as other tasks may run whenever the updater waits for the flash.
\<close>

section \<open>Data\<close>

record fwup_request =
  rq_data :: bytes
  rq_data_len :: nat
  rq_status :: int
  rq_sem :: nat

record tls_fwup =
  wait_list :: "nat list"
  list_lock :: nat
  busy :: bool
  current_image_src :: nat
  current_state :: u16
  current_session_id :: u32
  received_len :: nat
  total_len :: nat
  updated_len :: nat
  program_base :: nat
  program_offset :: nat
  received_number :: int

text \<open>The local variables of \<open>fwup_scheduler\<close> that live from one request to the next, and the place in
  its loops: waiting for a message, or at a request with the one after it (\<open>temp\<close>) already taken.\<close>

record sched_locals =
  booter :: bytes
  currentlen :: nat
  org_checksum :: u32
  isacrossflash :: bool

datatype sched_phase = Waiting | Working nat "nat option"

record 'e env_ops =
  env_rand :: "'e \<Rightarrow> u32 \<times> 'e"
  env_auto_get :: "'e \<Rightarrow> u8 \<times> 'e"
  env_auto_set :: "u8 \<Rightarrow> 'e \<Rightarrow> 'e"
  env_oneshot_get :: "'e \<Rightarrow> u8 \<times> 'e"
  env_oneshot_set :: "u8 \<Rightarrow> 'e \<Rightarrow> 'e"
  env_psflag_set :: "u8 \<Rightarrow> 'e \<Rightarrow> 'e"

record ('d, 'h, 'e) fwup_state = os_state +
  fdev :: 'd
  crypto :: 'h
  env :: 'e
  fwup :: "tls_fwup option"
  fwup_freed :: bool
  fwup_msg_queue :: nat
  fwupwritebuffer :: "bytes option"
  imgheader :: "bytes \<times> bytes"
  oneshotback :: u8
  requests :: "nat \<Rightarrow> fwup_request"
  sched :: sched_locals
  phase :: sched_phase
  rebooted :: bool

section \<open>Constants\<close>

abbreviation (input) TLS_FWUP_STATUS_OK :: int where "TLS_FWUP_STATUS_OK \<equiv> 0"
abbreviation (input) TLS_FWUP_STATUS_EINVALID :: int where "TLS_FWUP_STATUS_EINVALID \<equiv> 1"
abbreviation (input) TLS_FWUP_STATUS_EMEM :: int where "TLS_FWUP_STATUS_EMEM \<equiv> 2"
abbreviation (input) TLS_FWUP_STATUS_EPERM :: int where "TLS_FWUP_STATUS_EPERM \<equiv> 3"
abbreviation (input) TLS_FWUP_STATUS_EBUSY :: int where "TLS_FWUP_STATUS_EBUSY \<equiv> 4"
abbreviation (input) TLS_FWUP_STATUS_ESESSIONID :: int where "TLS_FWUP_STATUS_ESESSIONID \<equiv> 5"
abbreviation (input) TLS_FWUP_STATUS_EIO :: int where "TLS_FWUP_STATUS_EIO \<equiv> 6"
abbreviation (input) TLS_FWUP_STATUS_ESIGNATURE :: int where "TLS_FWUP_STATUS_ESIGNATURE \<equiv> 7"
abbreviation (input) TLS_FWUP_STATUS_ECRC :: int where "TLS_FWUP_STATUS_ECRC \<equiv> 8"
abbreviation (input) TLS_FWUP_STATUS_EUNDEF :: int where "TLS_FWUP_STATUS_EUNDEF \<equiv> 9"

abbreviation (input) TLS_FWUP_REQ_STATUS_IDLE :: int where "TLS_FWUP_REQ_STATUS_IDLE \<equiv> 0"
abbreviation (input) TLS_FWUP_REQ_STATUS_BUSY :: int where "TLS_FWUP_REQ_STATUS_BUSY \<equiv> 1"
abbreviation (input) TLS_FWUP_REQ_STATUS_SUCCESS :: int where "TLS_FWUP_REQ_STATUS_SUCCESS \<equiv> 2"
abbreviation (input) TLS_FWUP_REQ_STATUS_FIO :: int where "TLS_FWUP_REQ_STATUS_FIO \<equiv> 3"
abbreviation (input) TLS_FWUP_REQ_STATUS_FSIGNATURE :: int where "TLS_FWUP_REQ_STATUS_FSIGNATURE \<equiv> 4"
abbreviation (input) TLS_FWUP_REQ_STATUS_FMEM :: int where "TLS_FWUP_REQ_STATUS_FMEM \<equiv> 5"
abbreviation (input) TLS_FWUP_REQ_STATUS_FCRC :: int where "TLS_FWUP_REQ_STATUS_FCRC \<equiv> 6"
abbreviation (input) TLS_FWUP_REQ_STATUS_FCOMPLETE :: int where "TLS_FWUP_REQ_STATUS_FCOMPLETE \<equiv> 7"

abbreviation (input) TLS_FWUP_STATE_UNDEF :: u16 where "TLS_FWUP_STATE_UNDEF \<equiv> 0xffff"
abbreviation (input) TLS_FWUP_STATE_BUSY :: u16 where "TLS_FWUP_STATE_BUSY \<equiv> 1"
abbreviation (input) TLS_FWUP_STATE_COMPLETE :: u16 where "TLS_FWUP_STATE_COMPLETE \<equiv> 2"
abbreviation (input) TLS_FWUP_STATE_ERROR_IO :: u16 where "TLS_FWUP_STATE_ERROR_IO \<equiv> 4"
abbreviation (input) TLS_FWUP_STATE_ERROR_SIGNATURE :: u16 where "TLS_FWUP_STATE_ERROR_SIGNATURE \<equiv> 8"
abbreviation (input) TLS_FWUP_STATE_ERROR_MEM :: u16 where "TLS_FWUP_STATE_ERROR_MEM \<equiv> 16"
abbreviation (input) TLS_FWUP_STATE_ERROR_CRC :: u16 where "TLS_FWUP_STATE_ERROR_CRC \<equiv> 32"
abbreviation (input) TLS_FWUP_STATE_ERROR :: u16 where "TLS_FWUP_STATE_ERROR \<equiv> 60"

abbreviation (input) TLS_FWUP_IMAGE_SRC_WEB :: nat where "TLS_FWUP_IMAGE_SRC_WEB \<equiv> 3"
abbreviation (input) FWUP_MSG_QUEUE_SIZE :: nat where "FWUP_MSG_QUEUE_SIZE \<equiv> 4"
abbreviation (input) INSIDE_FLS_BLOCK_SIZE :: nat where "INSIDE_FLS_BLOCK_SIZE \<equiv> 0x10000"
abbreviation (input) WIFI_AUTO_CNT_TMP_OFF :: u8 where "WIFI_AUTO_CNT_TMP_OFF \<equiv> 3"
abbreviation (input) WIFI_AUTO_CNT_ON :: u8 where "WIFI_AUTO_CNT_ON \<equiv> 1"

section \<open>Image headers\<close>

definition fwup_update_autoflag :: "'e env_ops \<Rightarrow> 'e \<Rightarrow> 'e" where
  "fwup_update_autoflag eo e =
     (let (auto_reconnect, e) = env_auto_get eo e
      in if auto_reconnect = WIFI_AUTO_CNT_TMP_OFF then env_auto_set eo WIFI_AUTO_CNT_ON e else e)"

text \<open>The CRC of the header without its last word, taken word by word.\<close>

definition header_words_crc :: "'h crypto_hw \<Rightarrow> bytes \<Rightarrow> 'h \<Rightarrow> u32 \<times> 'h" where
  "header_words_crc hw img h =
     (let (ctx, h) = foldl (\<lambda>(ctx, h) i. tls_crypto_crc_update hw ctx (slice (4 * i) 4 img) 4 h)
        (tls_crypto_crc_init 0xFFFFFFFF CRYPTO_CRC_TYPE_32 3, h) [0..<13]
      in (tls_crypto_crc_final ctx, h))"

text \<open>The addresses of the new image, against those of the running one and the flash size; all of it in
  32-bit arithmetic.\<close>

definition update_area_ok :: "bytes \<Rightarrow> bytes \<Rightarrow> nat \<Rightarrow> bool" where
  "update_area_ok run img flash_size =
     (let runaddr = run_img_addr img OR 0x08000000 in
      if runaddr mod 256 \<noteq> 0 \<or> run_img_len img = 0 \<or> runaddr + run_img_len img \<ge> 0x08100000 \<or>
         runaddr < 0x08010100
      then False
      else (let value = runaddr + run_img_len img;
                value = (if value < run_img_addr run + run_img_len run
                         then (run_img_addr run OR 0x08000000) + run_img_len run else value);
                value = (if value mod 0x10000 \<noteq> 0 then value div 0x10000 * 0x10000 + 0x10000 else value);
                updaddr = upd_img_addr img OR 0x08000000
            in if updaddr < value \<or> updaddr mod 0x10000 \<noteq> 0 \<or> upd_img_len img = 0 then False
               else \<not> (updaddr + upd_img_len img > ((of_nat flash_size - 0x10000) OR 0x08000000))))"

definition tls_fwup_img_header_check ::
    "'d fls_ops \<Rightarrow> 'h crypto_hw \<Rightarrow> bytes \<Rightarrow> ('d, 'h, 'e, 'z) fwup_state_scheme \<Rightarrow>
     (bool \<times> ('d, 'h, 'e, 'z) fwup_state_scheme) option" where
  "tls_fwup_img_header_check fo hw img s =
     (if magic_no img \<noteq> SIGNATURE_WORD then Some (False, s)
      else if IMG_TYPE_OLD_PLAIN \<noteq> img_type img \<and> IMG_TYPE_NEW_PLAIN \<noteq> img_type img then Some (False, s)
      else (let (val, h) = header_words_crc hw img (crypto s); s = s\<lparr>crypto := h\<rparr> in
        if hd_checksum img = val \<and> run_img_addr img OR 0x08000000 < 0x08100000
        then do {
          (_, run, d) \<leftarrow> fls_read fo CODE_RUN_HEADER_ADDR (Some (fst (imgheader s))) BOOTER_SIZE (fdev s);
          run \<leftarrow> run;
          let s = s\<lparr>fdev := d, imgheader := (run, snd (imgheader s))\<rparr>;
          Some (img_type run = img_type img \<and> update_area_ok run img (fls_total fo d), s)
        }
        else Some (False, s)))"

definition tls_fwup_img_update_header ::
    "'d fls_ops \<Rightarrow> 'h crypto_hw \<Rightarrow> layout \<Rightarrow> bytes \<Rightarrow> ('d, 'h, 'e, 'z) fwup_state_scheme \<Rightarrow>
     (bytes \<times> ('d, 'h, 'e, 'z) fwup_state_scheme) option" where
  "tls_fwup_img_update_header fo hw l img s = do {
     (_, run, d) \<leftarrow> fls_read fo CODE_RUN_HEADER_ADDR (Some (fst (imgheader s))) BOOTER_SIZE (fdev s);
     run \<leftarrow> run;
     (_, upd, d) \<leftarrow> fls_read fo (CODE_UPD_HEADER_ADDR l) (Some (snd (imgheader s))) BOOTER_SIZE d;
     upd \<leftarrow> upd;
     (ok, s) \<leftarrow> tls_fwup_img_header_check fo hw upd (s\<lparr>fdev := d, imgheader := (run, upd)\<rparr>);
     let current_img = (ok \<and> upd_no (snd (imgheader s)) > upd_no (fst (imgheader s)));
     let img = patch img 32 (le32 (upd_no (if current_img then snd (imgheader s) else fst (imgheader s)) + 1));
     let (ctx, h) = tls_crypto_crc_update hw (tls_crypto_crc_init 0xFFFFFFFF CRYPTO_CRC_TYPE_32 3) (take 52 img) 52 (crypto s);
     let img = patch img 52 (le32 (tls_crypto_crc_final ctx));
     (_, d) \<leftarrow> fls_write fo (CODE_UPD_HEADER_ADDR l) (Some img) BOOTER_SIZE (fdev s);
     Some (img, s\<lparr>crypto := h, fdev := d\<rparr>)
   }"

section \<open>The task\<close>

definition upd_ctl :: "(tls_fwup \<Rightarrow> tls_fwup) \<Rightarrow> ('d, 'h, 'e, 'z) fwup_state_scheme \<Rightarrow> ('d, 'h, 'e, 'z) fwup_state_scheme" where
  "upd_ctl g s = s\<lparr>fwup := map_option g (fwup s)\<rparr>"

definition add_state :: "u16 \<Rightarrow> ('d, 'h, 'e, 'z) fwup_state_scheme \<Rightarrow> ('d, 'h, 'e, 'z) fwup_state_scheme" where
  "add_state bits = upd_ctl (\<lambda>f. f\<lparr>current_state := current_state f OR bits\<rparr>)"

definition error_status :: "u16 \<Rightarrow> int" where
  "error_status st =
     (if st AND TLS_FWUP_STATE_ERROR_IO \<noteq> 0 then TLS_FWUP_REQ_STATUS_FIO
      else if st AND TLS_FWUP_STATE_ERROR_SIGNATURE \<noteq> 0 then TLS_FWUP_REQ_STATUS_FSIGNATURE
      else if st AND TLS_FWUP_STATE_ERROR_MEM \<noteq> 0 then TLS_FWUP_REQ_STATUS_FMEM
      else if st AND TLS_FWUP_STATE_ERROR_CRC \<noteq> 0 then TLS_FWUP_REQ_STATUS_FCRC
      else TLS_FWUP_REQ_STATUS_BUSY)"

text \<open>The stages of a request return whether the code goes on (\<open>False\<close>: \<open>goto request_finish\<close>), the
  request and the state. The first one collects the header: it copies a whole header from the data
  whatever part of it the request holds.\<close>

definition start_image :: "bytes \<Rightarrow> ('d, 'h, 'e, 'z) fwup_state_scheme \<Rightarrow> ('d, 'h, 'e, 'z) fwup_state_scheme" where
  "start_image b s =
     upd_ctl (\<lambda>f. f\<lparr>program_base := unat (upd_img_addr b OR 0x08000000), total_len := unat (upd_img_len b),
         updated_len := 0\<rparr>)
       (s\<lparr>sched := (sched s)\<lparr>org_checksum := upd_checksum b, isacrossflash := False, currentlen := 0\<rparr>\<rparr>)"

definition fwup_take_header ::
    "'d fls_ops \<Rightarrow> 'h crypto_hw \<Rightarrow> tls_fwup \<Rightarrow> fwup_request \<Rightarrow> ('d, 'h, 'e, 'z) fwup_state_scheme \<Rightarrow>
     (bool \<times> fwup_request \<times> bytes \<times> ('d, 'h, 'e, 'z) fwup_state_scheme) option" where
  "fwup_take_header fo hw f r s =
     (let len = min (BOOTER_SIZE - received_len f) (rq_data_len r) in do {
        b \<leftarrow> buf_get (rq_data r) 0 BOOTER_SIZE;
        let r = r\<lparr>rq_data_len := rq_data_len r - len\<rparr>;
        let buffer = drop len (rq_data r);
        let s = s\<lparr>fwup := Some (f\<lparr>received_len := received_len f + len\<rparr>), sched := (sched s)\<lparr>booter := b\<rparr>\<rparr>;
        if received_len f + len \<noteq> BOOTER_SIZE then Some (True, r, buffer, s)
        else do {
          (ok, s) \<leftarrow> tls_fwup_img_header_check fo hw b s;
          Some (if \<not> ok
                then (False, r\<lparr>rq_status := TLS_FWUP_REQ_STATUS_FIO\<rparr>, buffer, add_state TLS_FWUP_STATE_ERROR_IO s)
                else if img_type b = IMG_TYPE_OLD_PLAIN \<or> img_type b = IMG_TYPE_NEW_PLAIN
                then (True, r, buffer, start_image b s)
                else (False, r\<lparr>rq_status := TLS_FWUP_REQ_STATUS_FCRC\<rparr>, buffer, s))
        }
      })"

text \<open>For an image source above \<open>TLS_FWUP_IMAGE_SRC_WEB\<close> the code goes on with the pointer that is left from an
  earlier request, NULL at first, into memory that need not exist any more; for both the buffer is
  \<open>None\<close>, and reading through it is undefined.\<close>

definition fwup_header_stage ::
    "'d fls_ops \<Rightarrow> 'h crypto_hw \<Rightarrow> fwup_request \<Rightarrow> ('d, 'h, 'e, 'z) fwup_state_scheme \<Rightarrow>
     (bool \<times> fwup_request \<times> bytes option \<times> ('d, 'h, 'e, 'z) fwup_state_scheme) option" where
  "fwup_header_stage fo hw r s = do {
     f \<leftarrow> fwup s;
     if current_image_src f > TLS_FWUP_IMAGE_SRC_WEB then Some (True, r, None, s)
     else do {
       (go, r, buffer, s) \<leftarrow>
         (if received_len f < BOOTER_SIZE then fwup_take_header fo hw f r s else Some (True, r, rq_data r, s));
       Some (go, r, Some buffer,
         if go then upd_ctl (\<lambda>f. f\<lparr>received_len := add32 (received_len f) (rq_data_len r)\<rparr>) s else s)
     }
   }"

text \<open>An old-layout image that reaches the last block of the first megabyte goes on at the second.\<close>

definition cross_flash :: "'d fls_ops \<Rightarrow> ('d, 'h, 'e, 'z) fwup_state_scheme \<Rightarrow> ('d, 'h, 'e, 'z) fwup_state_scheme" where
  "cross_flash fo s =
     (case fwup s of
        None \<Rightarrow> s
      | Some f \<Rightarrow>
        if img_type (booter (sched s)) = IMG_TYPE_OLD_PLAIN \<and> fls_total fo (fdev s) = 0x200000 \<and>
           program_base f < FLASH_1M_END_ADDR \<and>
           add32 (program_base f) (updated_len f) \<ge> FLASH_1M_END_ADDR - INSIDE_FLS_BLOCK_SIZE
        then s\<lparr>sched := (sched s)\<lparr>isacrossflash := True\<rparr>,
               fwup := Some (f\<lparr>program_base := FLASH_1M_END_ADDR, program_offset := 0\<rparr>)\<rparr>
        else s)"

definition fwup_write_stage ::
    "'d fls_ops \<Rightarrow> fwup_request \<Rightarrow> bytes \<Rightarrow> bytes \<Rightarrow> ('d, 'h, 'e, 'z) fwup_state_scheme \<Rightarrow>
     (bool \<times> fwup_request \<times> ('d, 'h, 'e, 'z) fwup_state_scheme) option" where
  "fwup_write_stage fo r buffer w s =
     (let cl = currentlen (sched s); n = rq_data_len r in
      if add32 cl n < INSIDE_FLS_SECTOR_SIZE
      then do {
        src \<leftarrow> buf_get buffer 0 n;
        w \<leftarrow> buf_put w cl src;
        Some (True, r, upd_ctl (\<lambda>f. f\<lparr>updated_len := add32 (updated_len f) n\<rparr>)
          (s\<lparr>fwupwritebuffer := Some w, sched := (sched s)\<lparr>currentlen := add32 cl n\<rparr>\<rparr>))
      }
      else (let s = cross_flash fo s in do {
        f \<leftarrow> fwup s;
        src \<leftarrow> buf_get buffer 0 (sub32 INSIDE_FLS_SECTOR_SIZE cl);
        w \<leftarrow> buf_put w cl src;
        let tmplen = program_offset f div INSIDE_FLS_SECTOR_SIZE * INSIDE_FLS_SECTOR_SIZE;
        (err, d) \<leftarrow> fls_write fo (add32 (program_base f) tmplen) (Some w) INSIDE_FLS_SECTOR_SIZE (fdev s);
        let s = s\<lparr>fwupwritebuffer := Some w, fdev := d\<rparr>;
        if err \<noteq> TLS_FLS_STATUS_OK
        then Some (False, r\<lparr>rq_status := TLS_FWUP_REQ_STATUS_FIO\<rparr>, add_state TLS_FWUP_STATE_ERROR_IO s)
        else do {
          let rest = sub32 (add32 cl n) INSIDE_FLS_SECTOR_SIZE;
          src \<leftarrow> buf_get buffer (sub32 INSIDE_FLS_SECTOR_SIZE cl) rest;
          w \<leftarrow> buf_put w 0 src;
          Some (True, r, upd_ctl (\<lambda>f. f\<lparr>program_offset := add32 (program_offset f) INSIDE_FLS_SECTOR_SIZE,
              updated_len := add32 (updated_len f) n\<rparr>)
            (s\<lparr>fwupwritebuffer := Some w, sched := (sched s)\<lparr>currentlen := rest\<rparr>\<rparr>))
        }
      }))"

text \<open>The image is read back through the write buffer and its CRC taken sector by sector.\<close>

definition crc_sector ::
    "'d fls_ops \<Rightarrow> 'h crypto_hw \<Rightarrow> nat \<Rightarrow> nat \<Rightarrow> psCrcContext \<Rightarrow> ('d, 'h, 'e, 'z) fwup_state_scheme \<Rightarrow>
     (bool \<times> psCrcContext \<times> ('d, 'h, 'e, 'z) fwup_state_scheme) option" where
  "crc_sector fo hw addr len ctx s = do {
     (err, w, d) \<leftarrow> fls_read fo addr (fwupwritebuffer s) len (fdev s);
     w \<leftarrow> w;
     let s = s\<lparr>fwupwritebuffer := Some w, fdev := d\<rparr>;
     if err \<noteq> TLS_FLS_STATUS_OK then Some (False, ctx, s)
     else (let (ctx, h) = tls_crypto_crc_update hw ctx w len (crypto s) in Some (True, ctx, s\<lparr>crypto := h\<rparr>))
   }"

function crc_region ::
    "'d fls_ops \<Rightarrow> 'h crypto_hw \<Rightarrow> nat \<Rightarrow> nat \<Rightarrow> nat \<Rightarrow> psCrcContext \<Rightarrow> ('d, 'h, 'e, 'z) fwup_state_scheme \<Rightarrow>
     (bool \<times> psCrcContext \<times> nat \<times> ('d, 'h, 'e, 'z) fwup_state_scheme) option" where
  "crc_region fo hw base offset left ctx s =
     (if left = 0 then Some (True, ctx, offset, s)
      else (let len = (if left > INSIDE_FLS_SECTOR_SIZE then INSIDE_FLS_SECTOR_SIZE else left) in do {
        (go, ctx, s) \<leftarrow> crc_sector fo hw (add32 base offset) len ctx s;
        if go then crc_region fo hw base (add32 offset len) (left - len) ctx s else Some (False, ctx, offset, s)
      }))"
  by pat_completeness auto

termination
  by (relation "measure (\<lambda>(fo, hw, base, offset, left, ctx, s). left)") auto

declare crc_region.simps [simp del]

definition fwup_last_sector ::
    "'d fls_ops \<Rightarrow> fwup_request \<Rightarrow> ('d, 'h, 'e, 'z) fwup_state_scheme \<Rightarrow>
     (bool \<times> fwup_request \<times> ('d, 'h, 'e, 'z) fwup_state_scheme) option" where
  "fwup_last_sector fo r s = do {
     f \<leftarrow> fwup s;
     if program_offset f \<le> updated_len f
     then (let s = cross_flash fo s in do {
       f \<leftarrow> fwup s;
       (err, d) \<leftarrow> fls_write fo (add32 (program_base f) (program_offset f)) (fwupwritebuffer s) (currentlen (sched s)) (fdev s);
       if err \<noteq> TLS_FLS_STATUS_OK
       then Some (False, r\<lparr>rq_status := TLS_FWUP_REQ_STATUS_FIO\<rparr>, add_state TLS_FWUP_STATE_ERROR_IO (s\<lparr>fdev := d\<rparr>))
       else Some (True, r, s\<lparr>fdev := d\<rparr>)
     })
     else Some (True, r, s)
   }"

definition fwup_image_crc ::
    "'d fls_ops \<Rightarrow> 'h crypto_hw \<Rightarrow> ('d, 'h, 'e, 'z) fwup_state_scheme \<Rightarrow>
     (bool \<times> psCrcContext \<times> ('d, 'h, 'e, 'z) fwup_state_scheme) option" where
  "fwup_image_crc fo hw s = do {
     let base = unat (upd_img_addr (booter (sched s)) OR 0x08000000);
     let s = upd_ctl (\<lambda>f. f\<lparr>program_base := base\<rparr>) s;
     f \<leftarrow> fwup s;
     let across = isacrossflash (sched s);
     let left = (if across then sub32 (FLASH_1M_END_ADDR - INSIDE_FLS_BLOCK_SIZE) base else total_len f);
     (go, ctx, offset, s) \<leftarrow> crc_region fo hw base 0 left (tls_crypto_crc_init 0xFFFFFFFF CRYPTO_CRC_TYPE_32 3) s;
     if go \<and> across
     then do {
       (go, ctx, offset, s) \<leftarrow> crc_region fo hw FLASH_1M_END_ADDR 0 (sub32 (total_len f) offset) ctx
         (upd_ctl (\<lambda>f. f\<lparr>program_base := FLASH_1M_END_ADDR\<rparr>) s);
       Some (go, ctx, s)
     }
     else Some (go, ctx, s)
   }"

definition fwup_verify_stage ::
    "'d fls_ops \<Rightarrow> 'h crypto_hw \<Rightarrow> 'e env_ops \<Rightarrow> layout \<Rightarrow> fwup_request \<Rightarrow> ('d, 'h, 'e, 'z) fwup_state_scheme \<Rightarrow>
     (bool \<times> fwup_request \<times> ('d, 'h, 'e, 'z) fwup_state_scheme) option" where
  "fwup_verify_stage fo hw eo l r s = do {
     (go, ctx, s) \<leftarrow> fwup_image_crc fo hw s;
     if \<not> go then Some (False, r\<lparr>rq_status := TLS_FWUP_REQ_STATUS_FIO\<rparr>, add_state TLS_FWUP_STATE_ERROR_IO s)
     else if org_checksum (sched s) \<noteq> tls_crypto_crc_final ctx
     then Some (False, r\<lparr>rq_status := TLS_FWUP_REQ_STATUS_FCRC\<rparr>, add_state TLS_FWUP_STATE_ERROR_CRC s)
     else do {
       (b, s) \<leftarrow> tls_fwup_img_update_header fo hw l (booter (sched s)) s;
       let s = add_state TLS_FWUP_STATE_COMPLETE (s\<lparr>sched := (sched s)\<lparr>booter := b\<rparr>\<rparr>);
       Some (True, r, if oneshotback s = 1 then s\<lparr>env := env_oneshot_set eo (oneshotback s) (env s)\<rparr> else s)
     }
   }"

definition fwup_data_stage ::
    "'d fls_ops \<Rightarrow> 'h crypto_hw \<Rightarrow> 'e env_ops \<Rightarrow> layout \<Rightarrow> fwup_request \<Rightarrow> bytes option \<Rightarrow>
     ('d, 'h, 'e, 'z) fwup_state_scheme \<Rightarrow> (bool \<times> fwup_request \<times> ('d, 'h, 'e, 'z) fwup_state_scheme) option" where
  "fwup_data_stage fo hw eo l r buffer s =
     (case fwupwritebuffer s of
        None \<Rightarrow> Some (True, r, s)
      | Some w \<Rightarrow>
        if rq_data_len r = 0 then Some (True, r, s)
        else do {
          buffer \<leftarrow> buffer;
          (go, r, s) \<leftarrow> fwup_write_stage fo r buffer w s;
          f \<leftarrow> fwup s;
          if go \<and> updated_len f \<ge> total_len f
          then do {
            (go, r, s) \<leftarrow> fwup_last_sector fo r s;
            if go then fwup_verify_stage fo hw eo l r s else Some (False, r, s)
          }
          else Some (go, r, s)
        })"

text \<open>The body of the loop over the requests, up to the label \<open>request_finish\<close>.\<close>

definition fwup_serve ::
    "'d fls_ops \<Rightarrow> 'h crypto_hw \<Rightarrow> 'e env_ops \<Rightarrow> layout \<Rightarrow> fwup_request \<Rightarrow> ('d, 'h, 'e, 'z) fwup_state_scheme \<Rightarrow>
     (fwup_request \<times> ('d, 'h, 'e, 'z) fwup_state_scheme) option" where
  "fwup_serve fo hw eo l r s = do {
     f \<leftarrow> fwup s;
     let r = r\<lparr>rq_status := TLS_FWUP_REQ_STATUS_BUSY\<rparr>;
     if current_state f AND TLS_FWUP_STATE_ERROR \<noteq> 0 then Some (r\<lparr>rq_status := error_status (current_state f)\<rparr>, s)
     else if current_state f AND TLS_FWUP_STATE_COMPLETE \<noteq> 0
     then Some (r\<lparr>rq_status := TLS_FWUP_REQ_STATUS_FCOMPLETE\<rparr>, s)
     else do {
       (go, r, buffer, s) \<leftarrow> fwup_header_stage fo hw r s;
       if \<not> go then Some (r, s)
       else do {
         (go, r, s) \<leftarrow> fwup_data_stage fo hw eo l r buffer s;
         Some (if go then r\<lparr>rq_status := TLS_FWUP_REQ_STATUS_SUCCESS\<rparr> else r, s)
       }
     }
   }"

definition fwup_request_complete :: "fwup_request \<Rightarrow> fwup_request" where
  "fwup_request_complete r = r\<lparr>rq_sem := sem_release (rq_sem r)\<rparr>"

definition fwup_finish ::
    "'e env_ops \<Rightarrow> nat \<Rightarrow> fwup_request \<Rightarrow> ('d, 'h, 'e, 'z) fwup_state_scheme \<Rightarrow> ('d, 'h, 'e, 'z) fwup_state_scheme option" where
  "fwup_finish eo rid r s = do {
     f \<leftarrow> fwup s;
     c \<leftarrow> sem_acquire (list_lock f);
     let f = f\<lparr>wait_list := remove1 rid (wait_list f), list_lock := sem_release c\<rparr>;
     let f = (if wait_list f = [] then f\<lparr>current_state := current_state f AND NOT TLS_FWUP_STATE_BUSY\<rparr> else f);
     let s = s\<lparr>fwup := Some f, requests := (requests s)(rid := fwup_request_complete r)\<rparr>;
     Some (if updated_len f \<ge> total_len f
           then s\<lparr>env := fwup_update_autoflag eo (env s), rebooted := True\<rparr> else s)
   }"

text \<open>The element after \<open>x\<close> in the list, as \<open>dl_list_for_each_safe\<close> takes it before the body runs.\<close>

fun next_of :: "nat \<Rightarrow> nat list \<Rightarrow> nat option" where
  "next_of x (y # z # xs) = (if x = y then Some z else next_of x (z # xs))"
| "next_of x _ = None"

definition start_on :: "nat option \<Rightarrow> ('d, 'h, 'e, 'z) fwup_state_scheme \<Rightarrow> ('d, 'h, 'e, 'z) fwup_state_scheme" where
  "start_on rq s =
     (case rq of
        None \<Rightarrow> s\<lparr>phase := Waiting\<rparr>
      | Some rid \<Rightarrow> s\<lparr>phase := Working rid (case fwup s of None \<Rightarrow> None | Some f \<Rightarrow> next_of rid (wait_list f))\<rparr>)"

text \<open>A message is taken from the queue.\<close>

definition fwup_scheduler_receive :: "('d, 'h, 'e, 'z) fwup_state_scheme \<Rightarrow> ('d, 'h, 'e, 'z) fwup_state_scheme option" where
  "fwup_scheduler_receive s =
     (if rebooted s \<or> phase s \<noteq> Waiting \<or> fwup_msg_queue s = 0 then None
      else (let s = s\<lparr>fwup_msg_queue := fwup_msg_queue s - 1\<rparr> in do {
        f \<leftarrow> fwup s;
        Some (case wait_list f of
                [] \<Rightarrow> s
              | rid # _ \<Rightarrow> start_on (Some rid) (add_state TLS_FWUP_STATE_BUSY s))
      }))"

text \<open>The picked request is served, and the loop goes on with the one picked after it.\<close>

definition fwup_scheduler_work ::
    "'d fls_ops \<Rightarrow> 'h crypto_hw \<Rightarrow> 'e env_ops \<Rightarrow> layout \<Rightarrow> ('d, 'h, 'e, 'z) fwup_state_scheme \<Rightarrow>
     ('d, 'h, 'e, 'z) fwup_state_scheme option" where
  "fwup_scheduler_work fo hw eo l s =
     (case phase s of
        Waiting \<Rightarrow> None
      | Working rid temp \<Rightarrow>
        if rebooted s then None
        else do {
          (r, s) \<leftarrow> fwup_serve fo hw eo l (requests s rid) s;
          s \<leftarrow> fwup_finish eo rid r s;
          Some (start_on temp s)
        })"

section \<open>Sessions\<close>

text \<open>The four objects the module allocates. When one of the last three cannot be made the control block is
  freed, but the pointer \<open>fwup\<close> keeps its address: \<open>fwup_freed\<close>. The only caller, \<open>tls_fwup_enter\<close>,
  reads through it at once.\<close>

definition idle_fwup :: tls_fwup where
  "idle_fwup = \<lparr>wait_list = [], list_lock = 1, busy = False, current_image_src = 0, current_state = 0,
     current_session_id = 0, received_len = 0, total_len = 0, updated_len = 0, program_base = 0,
     program_offset = 0, received_number = 0\<rparr>"

text \<open>\<open>tls_os_queue_create\<close> and \<open>tls_os_task_create\<close> allocate from the same heap as the semaphore.\<close>

definition tls_fwup_init :: "('d, 'h, 'e, 'z) fwup_state_scheme \<Rightarrow> int \<times> ('d, 'h, 'e, 'z) fwup_state_scheme" where
  "tls_fwup_init s =
     (if fwup s \<noteq> None then (TLS_FWUP_STATUS_EBUSY, s)
      else case tls_os_sem_create s of
        (False, s) \<Rightarrow> (TLS_FWUP_STATUS_EMEM, s)
      | (True, s) \<Rightarrow>
        (case tls_os_sem_create s of
           (False, s) \<Rightarrow> (TLS_FWUP_STATUS_EMEM, s\<lparr>fwup_freed := True\<rparr>)
         | (True, s) \<Rightarrow>
           (case tls_os_sem_create s of
              (False, s) \<Rightarrow> (TLS_FWUP_STATUS_EMEM, s\<lparr>fwup_freed := True\<rparr>)
            | (True, s) \<Rightarrow>
              (case tls_os_sem_create s of
                 (False, s) \<Rightarrow> (TLS_FWUP_STATUS_EMEM, s\<lparr>fwup_freed := True\<rparr>)
               | (True, s) \<Rightarrow> (TLS_FWUP_STATUS_OK,
                   s\<lparr>fwup := Some idle_fwup, fwup_msg_queue := 0, phase := Waiting\<rparr>)))))"

text \<open>\<open>do session_id = rand(); while (session_id == 0)\<close>; a generator that only returns 0 makes it run
  for ever, \<open>None\<close>.\<close>

partial_function (option) rand_nonzero :: "'e env_ops \<Rightarrow> 'e \<Rightarrow> (u32 \<times> 'e) option" where
  "rand_nonzero eo e = (let (v, e) = env_rand eo e in if v = 0 then rand_nonzero eo e else Some (v, e))"

definition clear_progress :: "tls_fwup \<Rightarrow> tls_fwup" where
  "clear_progress f = f\<lparr>current_state := 0, received_len := 0, total_len := 0, updated_len := 0,
     program_base := 0, program_offset := 0\<rparr>"

definition tls_fwup_enter ::
    "'e env_ops \<Rightarrow> nat \<Rightarrow> ('d, 'h, 'e, 'z) fwup_state_scheme \<Rightarrow> (u32 \<times> ('d, 'h, 'e, 'z) fwup_state_scheme) option" where
  "tls_fwup_enter eo image_src s =
     (let (_, s) = tls_fwup_init s in
      if fwup_freed s then None
      else case fwup s of
        None \<Rightarrow> Some (0, s)
      | Some f \<Rightarrow>
        if busy f then Some (0, s)
        else do {
          (session_id, e) \<leftarrow> rand_nonzero eo (env s);
          let s = s\<lparr>env := e\<rparr>;
          let (buf, s) = (case fwupwritebuffer s of
                            None \<Rightarrow> tls_mem_alloc INSIDE_FLS_SECTOR_SIZE s
                          | Some w \<Rightarrow> (Some w, s));
          if buf = None then Some (0, s)
          else (let s = s\<lparr>fwupwritebuffer := buf, fwup := Some ((clear_progress f)\<lparr>current_image_src := image_src,
                      received_number := - 1, current_session_id := session_id, busy := True\<rparr>)\<rparr>;
                    (os, e) = env_oneshot_get eo (env s);
                    e = (if os = 1 then env_oneshot_set eo 0 e else e)
                in Some (session_id, s\<lparr>oneshotback := os, env := env_psflag_set eo 0 e\<rparr>))
        })"

text \<open>\<open>p\<close> is the state of the parameter store: the power-save flag is read from its flash copy, into
  \<open>enable\<close>.\<close>

definition tls_fwup_exit ::
    "'e env_ops \<Rightarrow> ('p, 'y) param_state_scheme \<Rightarrow> u32 \<Rightarrow> ('d, 'h, 'e, 'z) fwup_state_scheme \<Rightarrow>
     (int \<times> ('d, 'h, 'e, 'z) fwup_state_scheme) option" where
  "tls_fwup_exit eo p session_id s =
     (case fwup s of
        None \<Rightarrow> Some (TLS_FWUP_STATUS_EPERM, s)
      | Some f \<Rightarrow>
        if \<not> busy f then Some (TLS_FWUP_STATUS_EPERM, s)
        else if session_id \<noteq> current_session_id f then Some (TLS_FWUP_STATUS_ESESSIONID, s)
        else if current_state f AND TLS_FWUP_STATE_BUSY \<noteq> 0 then Some (TLS_FWUP_STATUS_EBUSY, s)
        else do {
          let s = s\<lparr>fwupwritebuffer := None, fwup := Some ((clear_progress f)\<lparr>received_number := - 1,
            current_session_id := 0, busy := False\<rparr>)\<rparr>;
          let e = (if oneshotback s = 1 then env_oneshot_set eo (oneshotback s) (env s) else env s);
          (_, enable, _) \<leftarrow> tls_param_get TLS_PARAM_ID_PSM (Some [0]) True p;
          enable \<leftarrow> enable;
          Some (TLS_FWUP_STATUS_OK, s\<lparr>env := env_psflag_set eo (hd enable) e\<rparr>)
        })"

definition tls_fwup_get_current_session_id :: "('d, 'h, 'e, 'z) fwup_state_scheme \<Rightarrow> u32" where
  "tls_fwup_get_current_session_id s = (case fwup s of None \<Rightarrow> 0 | Some f \<Rightarrow> current_session_id f)"

text \<open>\<open>tls_fwup_set_update_numer\<close> and the two functions after it do not check \<open>fwup\<close>: without the module
  they read through a null pointer.\<close>

definition tls_fwup_set_update_numer ::
    "int \<Rightarrow> ('d, 'h, 'e, 'z) fwup_state_scheme \<Rightarrow> (int \<times> ('d, 'h, 'e, 'z) fwup_state_scheme) option" where
  "tls_fwup_set_update_numer number s = do {
     f \<leftarrow> fwup s;
     Some (if number - received_number f = 1 then (TLS_FWUP_STATUS_OK, upd_ctl (\<lambda>f. f\<lparr>received_number := number\<rparr>) s)
           else (0xffff, s))
   }"

definition tls_fwup_get_current_update_numer :: "('d, 'h, 'e, 'z) fwup_state_scheme \<Rightarrow> int option" where
  "tls_fwup_get_current_update_numer s = map_option received_number (fwup s)"

definition tls_fwup_get_status :: "('d, 'h, 'e, 'z) fwup_state_scheme \<Rightarrow> bool option" where
  "tls_fwup_get_status s = map_option busy (fwup s)"

definition tls_fwup_set_crc_error ::
    "u32 \<Rightarrow> ('d, 'h, 'e, 'z) fwup_state_scheme \<Rightarrow> int \<times> ('d, 'h, 'e, 'z) fwup_state_scheme" where
  "tls_fwup_set_crc_error session_id s =
     (case fwup s of
        None \<Rightarrow> (TLS_FWUP_STATUS_EPERM, s)
      | Some f \<Rightarrow>
        if session_id \<noteq> current_session_id f then (TLS_FWUP_STATUS_ESESSIONID, s)
        else (TLS_FWUP_STATUS_OK, add_state TLS_FWUP_STATE_ERROR_CRC s))"

definition tls_fwup_current_state :: "u32 \<Rightarrow> ('d, 'h, 'e, 'z) fwup_state_scheme \<Rightarrow> u16" where
  "tls_fwup_current_state session_id s =
     (case fwup s of
        None \<Rightarrow> TLS_FWUP_STATE_UNDEF
      | Some f \<Rightarrow> if session_id \<noteq> current_session_id f then TLS_FWUP_STATE_UNDEF else current_state f)"

text \<open>The common guards of \<open>tls_fwup_reset\<close> and \<open>tls_fwup_clear_error\<close>.\<close>

definition session_guard ::
    "u32 \<Rightarrow> (tls_fwup \<Rightarrow> tls_fwup) \<Rightarrow> ('d, 'h, 'e, 'z) fwup_state_scheme \<Rightarrow> int \<times> ('d, 'h, 'e, 'z) fwup_state_scheme" where
  "session_guard session_id g s =
     (case fwup s of
        None \<Rightarrow> (TLS_FWUP_STATUS_EPERM, s)
      | Some f \<Rightarrow>
        if \<not> busy f then (TLS_FWUP_STATUS_EPERM, s)
        else if session_id \<noteq> current_session_id f then (TLS_FWUP_STATUS_ESESSIONID, s)
        else if current_state f AND TLS_FWUP_STATE_BUSY \<noteq> 0 then (TLS_FWUP_STATUS_EBUSY, s)
        else (TLS_FWUP_STATUS_OK, s\<lparr>fwup := Some (g f)\<rparr>))"

definition tls_fwup_reset ::
    "u32 \<Rightarrow> ('d, 'h, 'e, 'z) fwup_state_scheme \<Rightarrow> int \<times> ('d, 'h, 'e, 'z) fwup_state_scheme" where
  "tls_fwup_reset session_id s = session_guard session_id clear_progress s"

definition tls_fwup_clear_error ::
    "u32 \<Rightarrow> ('d, 'h, 'e, 'z) fwup_state_scheme \<Rightarrow> int \<times> ('d, 'h, 'e, 'z) fwup_state_scheme" where
  "tls_fwup_clear_error session_id s =
     session_guard session_id (\<lambda>f. f\<lparr>current_state := current_state f AND NOT TLS_FWUP_STATE_ERROR\<rparr>) s"

section \<open>Requests\<close>

text \<open>The request is the object \<open>rid\<close>; a null pointer, null data or no data is refused. The message is
  sent only when the list was empty; a full queue loses it.\<close>

definition tls_fwup_request_async ::
    "u32 \<Rightarrow> nat \<Rightarrow> ('d, 'h, 'e, 'z) fwup_state_scheme \<Rightarrow> (int \<times> ('d, 'h, 'e, 'z) fwup_state_scheme) option" where
  "tls_fwup_request_async session_id rid s =
     (case fwup s of
        None \<Rightarrow> Some (TLS_FWUP_STATUS_EPERM, s)
      | Some f \<Rightarrow>
        if session_id \<noteq> current_session_id f then Some (TLS_FWUP_STATUS_ESESSIONID, s)
        else if rq_data_len (requests s rid) = 0 then Some (TLS_FWUP_STATUS_EINVALID, s)
        else do {
          c \<leftarrow> sem_acquire (list_lock f);
          let need_sched = (wait_list f = []);
          let s = s\<lparr>requests := (requests s)(rid := (requests s rid)\<lparr>rq_status := TLS_FWUP_REQ_STATUS_IDLE\<rparr>),
            fwup := Some (f\<lparr>wait_list := wait_list f @ [rid], list_lock := sem_release c\<rparr>)\<rparr>;
          Some (TLS_FWUP_STATUS_OK,
            if need_sched \<and> fwup_msg_queue s < FWUP_MSG_QUEUE_SIZE
            then s\<lparr>fwup_msg_queue := fwup_msg_queue s + 1\<rparr> else s)
        })"

text \<open>\<open>tls_fwup_request_sync\<close> up to the point where it waits, with the request on its stack as the object
  \<open>rid\<close>, whose uninitialised status is \<open>status0\<close>. The result is the status of the submission.\<close>

definition fwup_submit ::
    "'e env_ops \<Rightarrow> int \<Rightarrow> nat \<Rightarrow> u32 \<Rightarrow> bytes option \<Rightarrow> nat \<Rightarrow> ('d, 'h, 'e, 'z) fwup_state_scheme \<Rightarrow>
     ((int + int) \<times> ('d, 'h, 'e, 'z) fwup_state_scheme) option" where
  "fwup_submit eo status0 rid session_id data data_len s =
     (case fwup s of
        None \<Rightarrow> Some (Inl TLS_FWUP_STATUS_EPERM, s)
      | Some f \<Rightarrow>
        if session_id \<noteq> current_session_id f then Some (Inl TLS_FWUP_STATUS_ESESSIONID, s)
        else (case data of
          None \<Rightarrow> Some (Inl TLS_FWUP_STATUS_EINVALID, s)
        | Some xs \<Rightarrow>
          if data_len = 0 then Some (Inl TLS_FWUP_STATUS_EINVALID, s)
          else (case tls_os_sem_create s of
              (False, s) \<Rightarrow> Some (Inl TLS_FWUP_STATUS_EMEM, s)
            | (True, s) \<Rightarrow> do {
                let s = s\<lparr>requests := (requests s)(rid := \<lparr>rq_data = xs, rq_data_len = data_len,
                    rq_status = status0, rq_sem = 0\<rparr>), env := env_psflag_set eo 0 (env s)\<rparr>;
                (err, s) \<leftarrow> tls_fwup_request_async session_id rid s;
                Some (Inr err, s)
              })))"

text \<open>The rest, once the semaphore can be taken.\<close>

definition sync_status :: "int \<Rightarrow> int" where
  "sync_status st =
     (if st = TLS_FWUP_REQ_STATUS_SUCCESS then TLS_FWUP_STATUS_OK
      else if st = TLS_FWUP_REQ_STATUS_FIO then TLS_FWUP_STATUS_EIO
      else if st = TLS_FWUP_REQ_STATUS_FSIGNATURE then TLS_FWUP_STATUS_ESIGNATURE
      else if st = TLS_FWUP_REQ_STATUS_FMEM then TLS_FWUP_STATUS_EMEM
      else if st = TLS_FWUP_REQ_STATUS_FCRC then TLS_FWUP_STATUS_ECRC
      else if st = TLS_FWUP_REQ_STATUS_FCOMPLETE then TLS_FWUP_STATUS_EIO
      else TLS_FWUP_STATUS_EUNDEF)"

definition fwup_collect ::
    "int \<Rightarrow> nat \<Rightarrow> ('d, 'h, 'e, 'z) fwup_state_scheme \<Rightarrow> (int \<times> ('d, 'h, 'e, 'z) fwup_state_scheme) option" where
  "fwup_collect err rid s = do {
     c \<leftarrow> (if err = TLS_FWUP_STATUS_OK then sem_acquire (rq_sem (requests s rid)) else Some (rq_sem (requests s rid)));
     Some (sync_status (rq_status (requests s rid)), s\<lparr>requests := (requests s)(rid := (requests s rid)\<lparr>rq_sem := c\<rparr>)\<rparr>)
   }"

text \<open>The task running until it has nothing to do, when no other task interferes.\<close>

partial_function (option) fwup_run ::
    "'d fls_ops \<Rightarrow> 'h crypto_hw \<Rightarrow> 'e env_ops \<Rightarrow> layout \<Rightarrow> ('d, 'h, 'e, 'z) fwup_state_scheme \<Rightarrow>
     ('d, 'h, 'e, 'z) fwup_state_scheme option" where
  "fwup_run fo hw eo l s =
     (if rebooted s then Some s
      else case phase s of
        Waiting \<Rightarrow> if fwup_msg_queue s = 0 then Some s
                   else (do { s \<leftarrow> fwup_scheduler_receive s; fwup_run fo hw eo l s })
      | Working _ _ \<Rightarrow> (do { s \<leftarrow> fwup_scheduler_work fo hw eo l s; fwup_run fo hw eo l s }))"

definition tls_fwup_request_sync ::
    "'d fls_ops \<Rightarrow> 'h crypto_hw \<Rightarrow> 'e env_ops \<Rightarrow> layout \<Rightarrow> int \<Rightarrow> nat \<Rightarrow> u32 \<Rightarrow> bytes option \<Rightarrow> nat \<Rightarrow>
     ('d, 'h, 'e, 'z) fwup_state_scheme \<Rightarrow> (int \<times> ('d, 'h, 'e, 'z) fwup_state_scheme) option" where
  "tls_fwup_request_sync fo hw eo l status0 rid session_id data data_len s = do {
     (res, s) \<leftarrow> fwup_submit eo status0 rid session_id data data_len s;
     case res of
       Inl err \<Rightarrow> Some (err, s)
     | Inr err \<Rightarrow> do { s \<leftarrow> fwup_run fo hw eo l s; fwup_collect err rid s }
   }"

end
