(* ===== verification/Fwup_Session.thy ===== *)
theory Fwup_Session
  imports Fwup
begin

text \<open>
  The sessions of the firmware updater and the queue of its requests. \<open>stage_frame\<close> says what serving a
  request leaves alone; \<open>fwup_step\<close> is one call of a client or one step of the task, in any order;
  \<open>fwup_inv\<close> is the invariant of the module over all of them. The theorems at the end are about
  requests that the updater cannot serve.
\<close>

section \<open>What serving a request leaves alone\<close>

definition same_session :: "tls_fwup \<Rightarrow> tls_fwup \<Rightarrow> bool" where
  "same_session f g \<longleftrightarrow> wait_list g = wait_list f \<and> list_lock g = list_lock f \<and> busy g = busy f \<and>
     current_session_id g = current_session_id f \<and> current_image_src g = current_image_src f \<and>
     (\<exists>x. current_state g = current_state f OR x)"

definition stage_frame ::
    "('d, 'h, 'e, 'z) fwup_state_scheme \<Rightarrow> ('d, 'h, 'e, 'z) fwup_state_scheme \<Rightarrow> bool" where
  "stage_frame s s' \<longleftrightarrow> heap s' = heap s \<and> fwup_msg_queue s' = fwup_msg_queue s \<and> requests s' = requests s \<and>
     phase s' = phase s \<and> rebooted s' = rebooted s \<and> oneshotback s' = oneshotback s \<and>
     (fwupwritebuffer s' = None \<longleftrightarrow> fwupwritebuffer s = None) \<and> rel_option same_session (fwup s) (fwup s')"

lemma same_session_refl [simp]: "same_session f f"
  by (auto simp: same_session_def intro: exI [of _ 0])

lemma same_session_trans: "same_session f g \<Longrightarrow> same_session g h \<Longrightarrow> same_session f h"
  by (auto simp: same_session_def or.assoc)

lemma rel_option_same_refl [simp]: "rel_option same_session x x"
  by (cases x) auto

lemma stage_frame_refl [simp]: "stage_frame s s"
  by (simp add: stage_frame_def)

lemma stage_frame_trans [trans]: "stage_frame s t \<Longrightarrow> stage_frame t u \<Longrightarrow> stage_frame s u"
  by (auto simp: stage_frame_def option_rel_Some1 option_rel_Some2 elim!: option.rel_cases intro: same_session_trans)

lemma stage_frame_simps [simp]:
  "stage_frame s (t\<lparr>fdev := d\<rparr>) = stage_frame s t"
  "stage_frame s (t\<lparr>crypto := h\<rparr>) = stage_frame s t"
  "stage_frame s (t\<lparr>env := e\<rparr>) = stage_frame s t"
  "stage_frame s (t\<lparr>imgheader := ih\<rparr>) = stage_frame s t"
  "stage_frame s (t\<lparr>sched := sc\<rparr>) = stage_frame s t"
  "stage_frame (s\<lparr>fdev := d\<rparr>) t = stage_frame s t"
  "stage_frame (s\<lparr>crypto := h\<rparr>) t = stage_frame s t"
  "stage_frame (s\<lparr>imgheader := ih\<rparr>) t = stage_frame s t"
  "stage_frame (s\<lparr>sched := sc\<rparr>) t = stage_frame s t"
  by (simp_all add: stage_frame_def)

lemma stage_frame_add_state [simp]: "stage_frame s (add_state bits s)"
  by (cases "fwup s") (auto simp: stage_frame_def add_state_def upd_ctl_def same_session_def)

lemma stage_frame_upd_ctl: "(\<And>f. same_session f (g f)) \<Longrightarrow> stage_frame s (upd_ctl g s)"
  by (cases "fwup s") (auto simp: stage_frame_def upd_ctl_def)

lemma stage_frame_buffer: "fwupwritebuffer s \<noteq> None \<Longrightarrow> stage_frame s (s\<lparr>fwupwritebuffer := Some w\<rparr>)"
  by (auto simp: stage_frame_def)

lemma header_check_frame: "tls_fwup_img_header_check fo hw img s = Some (ok, s') \<Longrightarrow> stage_frame s s'"
  by (auto simp: tls_fwup_img_header_check_def Let_def bind_eq_Some_conv split: if_splits prod.splits)

lemma update_header_frame: "tls_fwup_img_update_header fo hw l img s = Some (b, s') \<Longrightarrow> stage_frame s s'"
  by (auto simp: tls_fwup_img_update_header_def Let_def bind_eq_Some_conv case_prod_unfold dest!: header_check_frame)

lemma upd_ctl_frame:
  "stage_frame s t \<Longrightarrow> (\<And>f. same_session f (g f)) \<Longrightarrow> stage_frame s (upd_ctl g t)"
  using stage_frame_trans stage_frame_upd_ctl by metis

lemma add_state_frame: "stage_frame s t \<Longrightarrow> stage_frame s (add_state bits t)"
  using stage_frame_trans stage_frame_add_state by metis

lemma fwup_update_frame:
  "fwup s = Some f \<Longrightarrow> same_session f g \<Longrightarrow> stage_frame (s\<lparr>fwup := Some g\<rparr>) t \<Longrightarrow> stage_frame s t"
  by (erule stage_frame_trans [rotated]) (simp add: stage_frame_def)

lemma same_session_simps [simp]:
  "same_session f (f\<lparr>received_len := n\<rparr>)" "same_session f (f\<lparr>updated_len := n\<rparr>)"
  "same_session f (f\<lparr>program_base := a\<rparr>)" "same_session f (f\<lparr>program_base := a, program_offset := b\<rparr>)"
  "same_session f (f\<lparr>program_base := a, total_len := b, updated_len := c\<rparr>)"
  "same_session f (f\<lparr>program_offset := a, updated_len := b\<rparr>)"
  by (auto simp: same_session_def intro: exI [of _ 0])

lemma start_image_frame [simp]: "stage_frame s (start_image b s)"
  unfolding start_image_def by (rule upd_ctl_frame) auto

lemma take_header_frame:
  assumes "fwup_take_header fo hw f r s = Some (go, r', buffer, s')" "fwup s = Some f"
  shows "stage_frame s s'"
proof -
  have step: "stage_frame s t" if "stage_frame (s\<lparr>fwup := Some (f\<lparr>received_len := n\<rparr>)\<rparr>) t" for n t
    using that fwup_update_frame [OF assms(2) same_session_simps(1)] by blast
  have first [simp]: "stage_frame s (s\<lparr>fwup := Some (f\<lparr>received_len := n\<rparr>)\<rparr>)" for n
    using fwup_update_frame [OF assms(2) same_session_simps(1)] stage_frame_refl by blast
  have start: "stage_frame t (start_image b t)" "stage_frame t (add_state x t)" for t b x
    by simp_all
  show ?thesis
    using assms(1)
    by (auto simp: fwup_take_header_def Let_def bind_eq_Some_conv split: if_splits dest!: header_check_frame
        intro: step stage_frame_trans [OF step start(1)] stage_frame_trans [OF step start(2)])
qed

lemma header_stage_frame:
  assumes "fwup_header_stage fo hw r s = Some (go, r', buffer, s')"
  shows "stage_frame s s'"
  using assms by (auto simp: fwup_header_stage_def bind_eq_Some_conv split: if_splits
      intro!: upd_ctl_frame dest!: take_header_frame)


lemma cross_flash_frame [simp]: "stage_frame s (cross_flash fo s)"
  by (auto simp: cross_flash_def stage_frame_def same_session_def split: option.splits intro: exI [of _ 0])

lemma cross_flash_buffer [simp]: "fwupwritebuffer (cross_flash fo s) = fwupwritebuffer s"
  by (simp add: cross_flash_def split: option.splits)

lemma buffer_frame: "stage_frame s t \<Longrightarrow> fwupwritebuffer s \<noteq> None \<Longrightarrow> stage_frame s (t\<lparr>fwupwritebuffer := Some x\<rparr>)"
  by (auto simp: stage_frame_def)

lemma write_stage_frame:
  assumes "fwup_write_stage fo r buffer w s = Some (go, r', s')" "fwupwritebuffer s \<noteq> None"
  shows "stage_frame s s'"
  using assms
  by (auto simp: fwup_write_stage_def Let_def bind_eq_Some_conv split: if_splits
      intro!: upd_ctl_frame add_state_frame buffer_frame)

lemma crc_sector_frame:
  assumes "crc_sector fo hw addr len ctx s = Some (go, ctx', s')" "fwupwritebuffer s \<noteq> None"
  shows "stage_frame s s'" "fwupwritebuffer s' \<noteq> None"
  using assms by (auto simp: crc_sector_def Let_def bind_eq_Some_conv case_prod_unfold buffer_frame split: if_splits)

lemma crc_region_frame:
  "crc_region fo hw base offset left ctx s = Some (go, ctx', offset', s') \<Longrightarrow> fwupwritebuffer s \<noteq> None \<Longrightarrow>
   stage_frame s s' \<and> fwupwritebuffer s' \<noteq> None"
proof (induction fo hw base offset left ctx s arbitrary: go ctx' offset' s' rule: crc_region.induct)
  case (1 fo hw base offset left ctx s)
  show ?case
  proof (cases "left = 0")
    case True
    then show ?thesis using 1 by (simp add: crc_region.simps)
  next
    case False
    let ?len = "if left > INSIDE_FLS_SECTOR_SIZE then INSIDE_FLS_SECTOR_SIZE else left"
    obtain g c t where st: "crc_sector fo hw (add32 base offset) ?len ctx s = Some (g, c, t)"
      "(if g then crc_region fo hw base (add32 offset ?len) (left - ?len) c t else Some (False, c, offset, t)) =
        Some (go, ctx', offset', s')"
      using 1(2) False by (subst (asm) crc_region.simps) (auto simp: Let_def bind_eq_Some_conv simp del: if_split)
    note t = crc_sector_frame [OF st(1) 1(3)]
    show ?thesis
    proof (cases g)
      case True
      then have "stage_frame t s' \<and> fwupwritebuffer s' \<noteq> None"
        using 1(1) [OF False refl st(1) refl refl True] st(2) t(2) by simp
      then show ?thesis using t stage_frame_trans by blast
    next
      case False
      then show ?thesis using st(2) t by simp
    qed
  qed
qed

lemma last_sector_frame:
  assumes "fwup_last_sector fo r s = Some (go, r', s')"
  shows "stage_frame s s'"
  using assms by (auto simp: fwup_last_sector_def Let_def bind_eq_Some_conv split: if_splits intro!: add_state_frame)

lemma image_crc_frame:
  assumes "fwup_image_crc fo hw s = Some (go, ctx, s')" "fwupwritebuffer s \<noteq> None"
  shows "stage_frame s s'"
proof -
  have base: "stage_frame s (upd_ctl (\<lambda>f. f\<lparr>program_base := a\<rparr>) s)" for s :: "('a, 'b, 'c, 'd) fwup_state_scheme" and a
    by (rule stage_frame_upd_ctl) simp
  have buf [simp]: "fwupwritebuffer (upd_ctl g s) = fwupwritebuffer s" for g and s :: "('a, 'b, 'c, 'd) fwup_state_scheme"
    by (simp add: upd_ctl_def)
  show ?thesis
    using assms
    by (auto simp: fwup_image_crc_def Let_def bind_eq_Some_conv split: if_splits dest!: crc_region_frame
        intro: stage_frame_trans [OF base] stage_frame_trans [OF stage_frame_trans [OF base]]
          stage_frame_trans [OF stage_frame_trans [OF stage_frame_trans [OF base] base]])
qed

lemma stage_frame_buffer_None: "stage_frame s t \<Longrightarrow> fwupwritebuffer t = None \<longleftrightarrow> fwupwritebuffer s = None"
  by (simp add: stage_frame_def)

lemma verify_stage_frame:
  assumes "fwup_verify_stage fo hw eo l r s = Some (go, r', s')" "fwupwritebuffer s \<noteq> None"
  shows "stage_frame s s'"
  using assms
  by (auto simp: fwup_verify_stage_def Let_def bind_eq_Some_conv split: if_splits intro!: add_state_frame
      dest!: image_crc_frame update_header_frame) (blast intro: stage_frame_trans)+

lemma data_stage_frame:
  assumes "fwup_data_stage fo hw eo l r buffer s = Some (go, r', s')"
  shows "stage_frame s s'"
proof (cases "fwupwritebuffer s")
  case None
  then show ?thesis using assms by (simp add: fwup_data_stage_def)
next
  case (Some w)
  have s: "fwupwritebuffer s \<noteq> None" using Some by simp
  show ?thesis
    using assms Some
    by (auto simp: fwup_data_stage_def bind_eq_Some_conv split: if_splits
        dest!: write_stage_frame [OF _ s] last_sector_frame)
      (metis s stage_frame_buffer_None stage_frame_trans verify_stage_frame)+
qed

lemma serve_frame:
  assumes "fwup_serve fo hw eo l r s = Some (r', s')"
  shows "stage_frame s s'"
  using assms
  by (auto simp: fwup_serve_def Let_def bind_eq_Some_conv split: if_splits
      dest!: header_stage_frame data_stage_frame intro: stage_frame_trans)

section \<open>Clients and the task in any order\<close>

text \<open>A client hands in a request that is not in the list, with what data it likes and any session id;
  \<open>p\<close> is the parameter store that \<open>tls_fwup_exit\<close> reads. Nothing happens after the restart.\<close>

definition queued :: "('d, 'h, 'e, 'z) fwup_state_scheme \<Rightarrow> nat list" where
  "queued s = (case fwup s of None \<Rightarrow> [] | Some f \<Rightarrow> wait_list f)"

inductive fwup_step ::
    "'d fls_ops \<Rightarrow> 'h crypto_hw \<Rightarrow> 'e env_ops \<Rightarrow> layout \<Rightarrow> ('p, 'y) param_state_scheme \<Rightarrow>
     ('d, 'h, 'e, 'z) fwup_state_scheme \<Rightarrow> ('d, 'h, 'e, 'z) fwup_state_scheme \<Rightarrow> bool"
  for fo hw eo l p where
  enter: "\<lbrakk>\<not> rebooted s; tls_fwup_enter eo src s = Some (sid, s')\<rbrakk> \<Longrightarrow> fwup_step fo hw eo l p s s'"
| exit: "\<lbrakk>\<not> rebooted s; tls_fwup_exit eo p sid s = Some (err, s')\<rbrakk> \<Longrightarrow> fwup_step fo hw eo l p s s'"
| reset: "\<lbrakk>\<not> rebooted s; tls_fwup_reset sid s = (err, s')\<rbrakk> \<Longrightarrow> fwup_step fo hw eo l p s s'"
| clear_error: "\<lbrakk>\<not> rebooted s; tls_fwup_clear_error sid s = (err, s')\<rbrakk> \<Longrightarrow> fwup_step fo hw eo l p s s'"
| crc_error: "\<lbrakk>\<not> rebooted s; tls_fwup_set_crc_error sid s = (err, s')\<rbrakk> \<Longrightarrow> fwup_step fo hw eo l p s s'"
| submit: "\<lbrakk>\<not> rebooted s; rid \<notin> set (queued s); fwup_submit eo status0 rid sid data n s = Some (res, s')\<rbrakk> \<Longrightarrow>
    fwup_step fo hw eo l p s s'"
| collect: "\<lbrakk>\<not> rebooted s; fwup_collect err rid s = Some (st, s')\<rbrakk> \<Longrightarrow> fwup_step fo hw eo l p s s'"
| receive: "fwup_scheduler_receive s = Some s' \<Longrightarrow> fwup_step fo hw eo l p s s'"
| work: "fwup_scheduler_work fo hw eo l s = Some s' \<Longrightarrow> fwup_step fo hw eo l p s s'"

definition working_on :: "sched_phase \<Rightarrow> tls_fwup \<Rightarrow> bool" where
  "working_on ph f \<longleftrightarrow> (case ph of
     Waiting \<Rightarrow> True
   | Working rid temp \<Rightarrow>
       (\<exists>rest. wait_list f = rid # rest \<and> (\<forall>t. temp = Some t \<longrightarrow> rest \<noteq> [] \<and> hd rest = t)))"

definition fwup_inv :: "('d, 'h, 'e, 'z) fwup_state_scheme \<Rightarrow> bool" where
  "fwup_inv s \<longleftrightarrow> fwup_msg_queue s \<le> FWUP_MSG_QUEUE_SIZE \<and> (case fwup s of
     None \<Rightarrow> fwupwritebuffer s = None \<and> phase s = Waiting
   | Some f \<Rightarrow> (busy f \<longleftrightarrow> current_session_id f \<noteq> 0) \<and> (busy f \<longleftrightarrow> fwupwritebuffer s \<noteq> None) \<and>
       list_lock f = 1 \<and> distinct (wait_list f) \<and> working_on (phase s) f)"

lemma rand_nonzero_ne:
  assumes "rand_nonzero eo e = Some (v, e')"
  shows "v \<noteq> 0"
proof -
  have "fst r \<noteq> 0" if "rand_nonzero eo e = Some r" for r
    by (rule rand_nonzero.raw_induct [OF _ that]) (auto simp: Let_def case_prod_unfold split: if_splits)
  then show ?thesis using assms by auto
qed

lemma sem_create_frame:
  "tls_os_sem_create s = (ok, s') \<Longrightarrow> fwup s' = fwup s \<and> fwupwritebuffer s' = fwupwritebuffer s \<and>
     phase s' = phase s \<and> fwup_msg_queue s' = fwup_msg_queue s \<and> requests s' = requests s \<and> rebooted s' = rebooted s"
  for s :: "('d, 'h, 'e, 'z) fwup_state_scheme"
  by (auto simp: tls_os_sem_create_def split: list.splits)

lemma mem_alloc_frame:
  "tls_mem_alloc n s = (b, s') \<Longrightarrow> fwup s' = fwup s \<and>
     phase s' = phase s \<and> fwup_msg_queue s' = fwup_msg_queue s \<and> requests s' = requests s \<and> rebooted s' = rebooted s
     \<and> fwupwritebuffer s' = fwupwritebuffer s"
  for s :: "('d, 'h, 'e, 'z) fwup_state_scheme"
  by (auto simp: tls_mem_alloc_def split: list.splits if_splits)

lemma init_inv: "fwup_inv s \<Longrightarrow> tls_fwup_init s = (err, s') \<Longrightarrow> \<not> fwup_freed s' \<Longrightarrow> fwup_inv s'"
  by (auto simp: tls_fwup_init_def fwup_inv_def idle_fwup_def working_on_def split: if_splits prod.splits bool.splits
      dest!: sem_create_frame)

lemma working_on_cong:
  "wait_list g = wait_list f \<Longrightarrow> working_on ph g = working_on ph f"
  by (simp add: working_on_def split: sched_phase.splits)

lemma working_on_Waiting [simp]: "working_on Waiting f"
  by (simp add: working_on_def)

lemma inv_not_busy_buffer: "fwup_inv s \<Longrightarrow> fwup s = Some f \<Longrightarrow> \<not> busy f \<Longrightarrow> fwupwritebuffer s = None"
  by (simp add: fwup_inv_def)

lemma enter_inv:
  assumes "fwup_inv s" "tls_fwup_enter eo src s = Some (sid, s')"
  shows "fwup_inv s'"
proof -
  obtain err t where t: "tls_fwup_init s = (err, t)" by (cases "tls_fwup_init s")
  have nofree: "\<not> fwup_freed t" using assms(2) t by (auto simp: tls_fwup_enter_def)
  have inv: "fwup_inv t" using init_inv assms(1) t nofree by blast
  show ?thesis
  proof (cases "\<exists>f. fwup t = Some f \<and> \<not> busy f")
    case False
    then show ?thesis using inv assms(2) t nofree by (auto simp: tls_fwup_enter_def split: option.splits)
  next
    case True
    then obtain f where f: "fwup t = Some f" "\<not> busy f" by blast
    have none: "fwupwritebuffer t = None" using inv f by (rule inv_not_busy_buffer)
    obtain v e where v: "rand_nonzero eo (env t) = Some (v, e)"
      using assms(2) t f nofree by (auto simp: tls_fwup_enter_def bind_eq_Some_conv)
    obtain b u where b: "tls_mem_alloc INSIDE_FLS_SECTOR_SIZE (t\<lparr>env := e\<rparr>) = (b, u)"
      by (cases "tls_mem_alloc INSIDE_FLS_SECTOR_SIZE (t\<lparr>env := e\<rparr>)")
    note u = mem_alloc_frame [OF b]
    show ?thesis
      using assms(2) t f none b u inv nofree rand_nonzero_ne [OF v]
      by (auto simp: tls_fwup_enter_def v Let_def case_prod_unfold fwup_inv_def clear_progress_def working_on_def
          split: if_splits sched_phase.splits)
  qed
qed

lemma exit_inv:
  assumes "fwup_inv s" "tls_fwup_exit eo p sid s = Some (err, s')"
  shows "fwup_inv s'"
  using assms by (auto simp: tls_fwup_exit_def Let_def bind_eq_Some_conv fwup_inv_def clear_progress_def working_on_def
      split: option.splits if_splits sched_phase.splits)

lemma session_guard_inv:
  assumes "fwup_inv s" "session_guard sid g s = (err, s')"
    and "\<And>f. wait_list (g f) = wait_list f \<and> list_lock (g f) = list_lock f \<and> busy (g f) = busy f \<and>
      current_session_id (g f) = current_session_id f"
  shows "fwup_inv s'"
proof (cases "fwup s")
  case None
  then show ?thesis using assms(1,2) by (simp add: session_guard_def)
next
  case (Some f)
  then show ?thesis
    using assms(1,2) assms(3) [of f]
    by (auto simp: session_guard_def fwup_inv_def working_on_def split: if_splits sched_phase.splits)
qed

lemma reset_inv: "fwup_inv s \<Longrightarrow> tls_fwup_reset sid s = (err, s') \<Longrightarrow> fwup_inv s'"
  unfolding tls_fwup_reset_def by (erule (1) session_guard_inv) (simp add: clear_progress_def)

lemma clear_error_inv: "fwup_inv s \<Longrightarrow> tls_fwup_clear_error sid s = (err, s') \<Longrightarrow> fwup_inv s'"
  unfolding tls_fwup_clear_error_def by (erule (1) session_guard_inv) simp

lemma crc_error_inv:
  assumes "fwup_inv s" "tls_fwup_set_crc_error sid s = (err, s')"
  shows "fwup_inv s'"
  using assms by (auto simp: tls_fwup_set_crc_error_def add_state_def upd_ctl_def fwup_inv_def working_on_def
      split: option.splits if_splits sched_phase.splits)

lemma request_inv:
  assumes "fwup_inv s" "rid \<notin> set (queued s)" "tls_fwup_request_async sid rid s = Some (err, s')"
  shows "fwup_inv s'"
  using assms by (auto simp: tls_fwup_request_async_def Let_def bind_eq_Some_conv fwup_inv_def working_on_def queued_def
      split: option.splits if_splits sched_phase.splits)

text \<open>A submission is refused without a change, or the request is built and handed in.\<close>

lemma submit_cases:
  assumes "fwup_submit eo status0 rid sid data n s = Some (res, s')"
  obtains h err where "res = Inl err" "s' = s\<lparr>heap := h\<rparr>"
  | t err xs where "res = Inr err" "tls_fwup_request_async sid rid t = Some (err, s')" "fwup t = fwup s"
    "fwupwritebuffer t = fwupwritebuffer s" "phase t = phase s" "fwup_msg_queue t = fwup_msg_queue s"
    "rebooted t = rebooted s"
    "requests t = (requests s)(rid := \<lparr>rq_data = xs, rq_data_len = n, rq_status = status0, rq_sem = 0\<rparr>)"
proof -
  obtain ok u where u: "tls_os_sem_create s = (ok, u)" by (cases "tls_os_sem_create s")
  have self: "\<exists>h. s = s\<lparr>heap := h\<rparr>" by (rule exI [of _ "heap s"]) simp
  have hp: "\<exists>h. u = s\<lparr>heap := h\<rparr>"
  proof (cases "heap s")
    case Nil
    then show ?thesis using u self by (simp add: tls_os_sem_create_def)
  qed (use u in \<open>auto simp: tls_os_sem_create_def\<close>)
  show thesis
    using assms u hp self that sem_create_frame [OF u]
    by (auto simp: fwup_submit_def Let_def bind_eq_Some_conv split: option.splits if_splits bool.splits)
qed

lemma submit_inv:
  assumes inv: "fwup_inv s" and new: "rid \<notin> set (queued s)"
    and sub: "fwup_submit eo status0 rid sid data n s = Some (res, s')"
  shows "fwup_inv s'"
  using sub
proof (cases rule: submit_cases)
  case (1 h err)
  then show ?thesis using inv by (cases "fwup s") (auto simp: fwup_inv_def)
next
  case (2 t err xs)
  have "fwup_inv t" using inv 2 by (cases "fwup s") (auto simp: fwup_inv_def)
  moreover have "rid \<notin> set (queued t)" using new 2 by (simp add: queued_def)
  ultimately show ?thesis using 2(2) request_inv by blast
qed

lemma collect_inv: "fwup_inv s \<Longrightarrow> fwup_collect err rid s = Some (st, s') \<Longrightarrow> fwup_inv s'"
  by (auto simp: fwup_collect_def bind_eq_Some_conv fwup_inv_def split: option.splits)

lemma next_of_head: "next_of x (x # ys) = (case ys of [] \<Rightarrow> None | y # _ \<Rightarrow> Some y)"
  by (cases ys) auto

lemma receive_inv:
  assumes "fwup_inv s" "fwup_scheduler_receive s = Some s'"
  shows "fwup_inv s'"
  using assms by (auto simp: fwup_scheduler_receive_def Let_def bind_eq_Some_conv fwup_inv_def working_on_def start_on_def
      add_state_def upd_ctl_def next_of_head split: option.splits if_splits list.splits)

text \<open>What is left of the list after the request at its head.\<close>

lemma finish_cases:
  assumes "fwup_finish eo rid r s = Some s'" "fwup s = Some f"
  shows "\<exists>g. fwup s' = Some g \<and> wait_list g = remove1 rid (wait_list f) \<and> busy g = busy f \<and>
      current_session_id g = current_session_id f \<and> (list_lock f > 0 \<and> list_lock g = list_lock f) \<and>
      current_state g = (if wait_list g = [] then current_state f AND NOT TLS_FWUP_STATE_BUSY else current_state f) \<and>
      phase s' = phase s \<and> fwup_msg_queue s' = fwup_msg_queue s \<and> fwupwritebuffer s' = fwupwritebuffer s \<and>
      requests s' = (requests s)(rid := fwup_request_complete r) \<and>
      rebooted s' = (rebooted s \<or> updated_len f \<ge> total_len f)"
  using assms
  by (intro exI [of _ "if remove1 rid (wait_list f) = []
      then f\<lparr>wait_list := [], current_state := current_state f AND NOT TLS_FWUP_STATE_BUSY\<rparr>
      else f\<lparr>wait_list := remove1 rid (wait_list f)\<rparr>"])
    (auto simp: fwup_finish_def bind_eq_Some_conv Let_def sem_acquire_def split: if_splits)

lemma work_cases:
  assumes "fwup_scheduler_work fo hw eo l s = Some s'"
  obtains rid temp r t u where "phase s = Working rid temp" "\<not> rebooted s"
    "fwup_serve fo hw eo l (requests s rid) s = Some (r, t)" "fwup_finish eo rid r t = Some u" "s' = start_on temp u"
  using assms by (auto simp: fwup_scheduler_work_def bind_eq_Some_conv split: sched_phase.splits if_splits)

lemma start_on_simps [simp]:
  "fwup (start_on rq s) = fwup s" "fwupwritebuffer (start_on rq s) = fwupwritebuffer s"
  "fwup_msg_queue (start_on rq s) = fwup_msg_queue s" "requests (start_on rq s) = requests s"
  "rebooted (start_on rq s) = rebooted s" "fdev (start_on rq s) = fdev s"
  by (simp_all add: start_on_def split: option.splits)

lemma start_on_working:
  assumes "fwup s = Some f" "distinct (wait_list f)" "\<forall>t. rq = Some t \<longrightarrow> wait_list f \<noteq> [] \<and> hd (wait_list f) = t"
  shows "working_on (phase (start_on rq s)) f"
  using assms by (cases "wait_list f") (auto simp: start_on_def working_on_def next_of_head split: option.splits list.splits)

lemma work_inv:
  assumes inv: "fwup_inv s" and work: "fwup_scheduler_work fo hw eo l s = Some s'"
  shows "fwup_inv s'"
proof -
  obtain rid temp r t u where st: "phase s = Working rid temp"
    "fwup_serve fo hw eo l (requests s rid) s = Some (r, t)" "fwup_finish eo rid r t = Some u" "s' = start_on temp u"
    using work_cases [OF work] by metis
  obtain f where f: "fwup s = Some f" using inv st(1) by (auto simp: fwup_inv_def split: option.splits)
  obtain rest where rest: "wait_list f = rid # rest" "\<forall>t. temp = Some t \<longrightarrow> rest \<noteq> [] \<and> hd rest = t"
    using inv st(1) f by (auto simp: fwup_inv_def working_on_def)
  have fr: "stage_frame s t" using st(2) by (rule serve_frame)
  then obtain g where g: "fwup t = Some g" "same_session f g"
    using f by (auto simp: stage_frame_def option_rel_Some1)
  obtain h where h: "fwup u = Some h" "wait_list h = rest" "busy h = busy f"
      "current_session_id h = current_session_id f" "list_lock h = list_lock f"
      "fwup_msg_queue u = fwup_msg_queue s" "fwupwritebuffer u = None \<longleftrightarrow> fwupwritebuffer s = None"
    using finish_cases [OF st(3) g(1)] g(2) rest(1) fr by (auto simp: same_session_def stage_frame_def)
  have "distinct rest" using inv f rest(1) by (auto simp: fwup_inv_def)
  then have "working_on (phase s') h"
    using start_on_working [OF h(1)] rest(2) h(2) st(4) by simp
  then show ?thesis
    using inv f h rest(1) st(4) by (auto simp: fwup_inv_def)
qed

lemma fwup_step_inv: "fwup_step fo hw eo l p s s' \<Longrightarrow> fwup_inv s \<Longrightarrow> fwup_inv s'"
  by (induction rule: fwup_step.induct)
    (auto intro: enter_inv exit_inv reset_inv clear_error_inv crc_error_inv submit_inv collect_inv receive_inv work_inv)

lemma fwup_steps_inv: "(fwup_step fo hw eo l p)\<^sup>*\<^sup>* s s' \<Longrightarrow> fwup_inv s \<Longrightarrow> fwup_inv s'"
  by (induction rule: rtranclp_induct) (auto intro: fwup_step_inv)

section \<open>Requests that are never served\<close>

text \<open>The task waits, no message is on the way, and yet a request is in the list.\<close>

definition stuck_on :: "nat \<Rightarrow> ('d, 'h, 'e, 'z) fwup_state_scheme \<Rightarrow> bool" where
  "stuck_on rid s \<longleftrightarrow> phase s = Waiting \<and> fwup_msg_queue s = 0 \<and> \<not> rebooted s \<and>
     rq_status (requests s rid) = TLS_FWUP_REQ_STATUS_IDLE \<and> rq_sem (requests s rid) = 0 \<and>
     (\<exists>f. fwup s = Some f \<and> busy f \<and> rid \<in> set (wait_list f) \<and> current_state f AND TLS_FWUP_STATE_BUSY \<noteq> 0)"

lemma or_and_nonzero: "x AND b \<noteq> 0 \<Longrightarrow> (x OR y) AND b \<noteq> (0 :: u16)"
  by (metis bit.conj_disj_distrib2 or_eq_0_iff)

lemma stuck_step:
  assumes "fwup_step fo hw eo l p s s'" "stuck_on rid s"
  shows "stuck_on rid s'"
proof -
  obtain f where f: "fwup s = Some f" "busy f" "rid \<in> set (wait_list f)" "current_state f AND TLS_FWUP_STATE_BUSY \<noteq> 0"
    using assms(2) by (auto simp: stuck_on_def)
  have init: "tls_fwup_init s = (TLS_FWUP_STATUS_EBUSY, s)" using f by (simp add: tls_fwup_init_def)
  have ph: "phase s = Waiting" "fwup_msg_queue s = 0" using assms(2) by (auto simp: stuck_on_def)
  show ?thesis
    using assms(1)
  proof (cases rule: fwup_step.cases)
    case (enter src sid)
    then show ?thesis using assms(2) f init by (auto simp: tls_fwup_enter_def split: if_splits)
  next
    case (exit sid err)
    then show ?thesis using assms(2) f by (auto simp: tls_fwup_exit_def split: if_splits)
  next
    case (reset sid err)
    then show ?thesis using assms(2) f by (auto simp: tls_fwup_reset_def session_guard_def split: if_splits)
  next
    case (clear_error sid err)
    then show ?thesis using assms(2) f by (auto simp: tls_fwup_clear_error_def session_guard_def split: if_splits)
  next
    case (crc_error sid err)
    then show ?thesis
      using assms(2) f
      by (auto simp: tls_fwup_set_crc_error_def add_state_def upd_ctl_def stuck_on_def intro!: or_and_nonzero split: if_splits)
  next
    case (submit rid' status0 sid data n res)
    then have ne: "rid' \<noteq> rid" using f by (auto simp: queued_def)
    show ?thesis
      using submit(3)
    proof (cases rule: submit_cases)
      case (1 h err)
      then show ?thesis using assms(2) by (simp add: stuck_on_def)
    next
      case (2 t err xs)
      then show ?thesis
        using assms(2) f ne
        by (auto simp: tls_fwup_request_async_def Let_def bind_eq_Some_conv stuck_on_def split: if_splits)
    qed
  next
    case (collect err rid' st)
    then show ?thesis using assms(2) by (auto simp: fwup_collect_def bind_eq_Some_conv stuck_on_def split: if_splits)
  next
    case receive
    then show ?thesis using ph by (simp add: fwup_scheduler_receive_def)
  next
    case work
    then show ?thesis using ph by (simp add: fwup_scheduler_work_def)
  qed
qed

lemma stuck_steps: "(fwup_step fo hw eo l p)\<^sup>*\<^sup>* s s' \<Longrightarrow> stuck_on rid s \<Longrightarrow> stuck_on rid s'"
  by (induction rule: rtranclp_induct) (auto intro: stuck_step)

lemma late_request_stuck:
  assumes inv: "fwup_inv s" and ph: "phase s = Working rid None" and q: "fwup_msg_queue s = 0"
    and f: "fwup s = Some f" "wait_list f = [rid]" "busy f" "current_state f AND TLS_FWUP_STATE_BUSY \<noteq> 0"
    and rq: "fwup_submit eo0 status0 rid2 sid data n s = Some (Inr TLS_FWUP_STATUS_OK, s1)" "rid2 \<noteq> rid"
    and work: "fwup_scheduler_work fo hw eo l s1 = Some s2" "\<not> rebooted s2"
  shows "stuck_on rid2 s2"
proof -
  obtain g where g: "fwup s1 = Some g" "wait_list g = [rid, rid2]" "busy g" "current_state g AND TLS_FWUP_STATE_BUSY \<noteq> 0"
    and s1: "phase s1 = Working rid None" "fwup_msg_queue s1 = 0" "rq_status (requests s1 rid2) = TLS_FWUP_REQ_STATUS_IDLE"
      "rq_sem (requests s1 rid2) = 0"
    using rq(1)
  proof (cases rule: submit_cases)
    case (2 t err xs)
    then show ?thesis
      using that f ph q by (auto simp: tls_fwup_request_async_def Let_def bind_eq_Some_conv split: if_splits)
  qed simp
  obtain r t u where st: "fwup_serve fo hw eo l (requests s1 rid) s1 = Some (r, t)"
      "fwup_finish eo rid r t = Some u" "s2 = start_on None u"
    using work_cases [OF work(1)] s1(1) by (metis sched_phase.inject)
  have fr: "stage_frame s1 t" using st(1) by (rule serve_frame)
  then obtain h where h: "fwup t = Some h" "same_session g h"
    using g(1) by (auto simp: stage_frame_def option_rel_Some1)
  have "current_state h AND TLS_FWUP_STATE_BUSY \<noteq> 0"
    using h(2) g(4) or_and_nonzero by (auto simp: same_session_def)
  then show ?thesis
    using finish_cases [OF st(2) h(1)] h(2) g fr s1 st(3) rq(2) work(2)
    by (auto simp: stuck_on_def same_session_def stage_frame_def start_on_def)
qed

section \<open>A module with a board\<close>

definition quiet_env :: "unit env_ops" where
  "quiet_env = \<lparr>env_rand = (\<lambda>e. (7, e)), env_auto_get = (\<lambda>e. (0, e)), env_auto_set = (\<lambda>_ e. e),
     env_oneshot_get = (\<lambda>e. (0, e)), env_oneshot_set = (\<lambda>_ e. e), env_psflag_set = (\<lambda>_ e. e)\<rparr>"

definition no_module :: "((chip, qdev) fls_state, unit, unit) fwup_state" where
  "no_module = \<lparr>heap = [], junk = (\<lambda>_. 0), fdev = board_2M, crypto = (), env = (), fwup = None, fwup_freed = False,
     fwup_msg_queue = 0, fwupwritebuffer = None, imgheader = (zeros BOOTER_SIZE, zeros BOOTER_SIZE), oneshotback = 0,
     requests = (\<lambda>_. \<lparr>rq_data = [], rq_data_len = 0, rq_status = 0, rq_sem = 0\<rparr>),
     sched = \<lparr>booter = zeros BOOTER_SIZE, currentlen = 0, org_checksum = 0, isacrossflash = False\<rparr>,
     phase = Waiting, rebooted = False\<rparr>"

definition open_fwup :: tls_fwup where
  "open_fwup = idle_fwup\<lparr>busy := True, current_session_id := 7, current_state := TLS_FWUP_STATE_BUSY, wait_list := [1]\<rparr>"

text \<open>The task at the only request of its list, with the header taken or not.\<close>

definition serving :: "tls_fwup \<Rightarrow> bytes \<Rightarrow> nat \<Rightarrow> ((chip, qdev) fls_state, unit, unit) fwup_state" where
  "serving f xs n = no_module\<lparr>fwup := Some f, fwupwritebuffer := Some (zeros 4096), phase := Working 1 None,
     requests := (\<lambda>_. \<lparr>rq_data = xs, rq_data_len = n, rq_status = 1, rq_sem = 0\<rparr>)\<rparr>"

lemmas module_defs = quiet_env_def no_module_def open_fwup_def idle_fwup_def serving_def

section \<open>Properties\<close>

text \<open>C9: over any sequence of calls of the clients and steps of the task, in any order, a session is open
  exactly when its id is not zero and exactly when the write buffer is allocated, the lock of the list
  is free, no request is in the list twice, the message queue does not overflow, and a request the task
  works on is the head of the list, with the one picked to follow it right behind.\<close>

theorem fwup_sessions_invariant:
  assumes "fwup s = None" "fwupwritebuffer s = None" "phase s = Waiting" "fwup_msg_queue s = 0"
    and "(fwup_step fo hw eo l p)\<^sup>*\<^sup>* s s'"
  shows "fwup_inv s'"
  by (rule fwup_steps_inv [OF assms(5)]) (use assms(1-4) in \<open>simp add: fwup_inv_def\<close>)

theorem fwup_sessions_invariant_witness:
  "\<exists>s'. fwup_step (board_fls nor_ctl chip_1M) soft_engine quiet_env layout_2M_new (ram_state board_2M) no_module s' \<and>
    fwup s' \<noteq> None \<and> fwup_inv s'"
proof -
  obtain sid s' where en: "tls_fwup_enter quiet_env 3 no_module = Some (sid, s')" "fwup s' \<noteq> None"
    by (auto simp: tls_fwup_enter_def tls_fwup_init_def rand_nonzero.simps module_defs Let_def)
  then have st: "fwup_step (board_fls nor_ctl chip_1M) soft_engine quiet_env layout_2M_new (ram_state board_2M) no_module s'"
    by (intro fwup_step.enter) (simp_all add: no_module_def)
  then have "(fwup_step (board_fls nor_ctl chip_1M) soft_engine quiet_env layout_2M_new (ram_state board_2M))\<^sup>*\<^sup>* no_module s'"
    by blast
  then have "fwup_inv s'"
    by (rule fwup_sessions_invariant [rotated 4]) (simp_all add: no_module_def)
  then show ?thesis using st en(2) by blast
qed

text \<open>C29: a request that a second client hands in while the task serves the last one of its list is never
  served, as no message is sent for it: whatever the clients call from then on, the task waits, the call
  of \<open>tls_fwup_request_sync\<close> never returns, and the session can neither be left nor reset.\<close>

theorem fwup_late_request_never_served:
  assumes "fwup_inv s" "phase s = Working rid None" "fwup_msg_queue s = 0"
    and "fwup s = Some f" "wait_list f = [rid]" "busy f" "current_state f AND TLS_FWUP_STATE_BUSY \<noteq> 0"
    and "fwup_submit eo status0 rid2 (current_session_id f) data n s = Some (Inr TLS_FWUP_STATUS_OK, s1)" "rid2 \<noteq> rid"
    and "fwup_scheduler_work fo hw eo l s1 = Some s2" "\<not> rebooted s2"
    and "(fwup_step fo hw eo l p)\<^sup>*\<^sup>* s2 s3"
  shows "phase s3 = Waiting \<and> fwup_msg_queue s3 = 0 \<and> rid2 \<in> set (queued s3) \<and>
    fwup_collect TLS_FWUP_STATUS_OK rid2 s3 = None \<and>
    (\<forall>sid err s4. tls_fwup_exit eo p sid s3 = Some (err, s4) \<longrightarrow> err \<noteq> TLS_FWUP_STATUS_OK \<and> s4 = s3) \<and>
    (\<forall>sid. fst (tls_fwup_reset sid s3) \<noteq> TLS_FWUP_STATUS_OK)"
proof -
  have "stuck_on rid2 s3"
    using stuck_steps [OF assms(12)] late_request_stuck [OF assms(1-11)] by blast
  then show ?thesis
    by (auto simp: stuck_on_def queued_def tls_fwup_exit_def tls_fwup_reset_def session_guard_def fwup_collect_def
        split: if_splits)
qed

theorem fwup_late_request_never_served_witness:
  "\<exists>s1 s2. fwup_submit quiet_env 0 2 7 (Some [6]) 1 (serving (open_fwup\<lparr>received_len := 56, total_len := 100\<rparr>) [5] 1) =
      Some (Inr TLS_FWUP_STATUS_OK, s1) \<and>
    fwup_scheduler_work (board_fls nor_ctl chip_1M) soft_engine quiet_env layout_2M_new s1 = Some s2 \<and>
    phase s2 = Waiting \<and> 2 \<in> set (queued s2) \<and> fwup_collect TLS_FWUP_STATUS_OK 2 s2 = None"
proof -
  let ?f = "open_fwup\<lparr>received_len := 56, total_len := 100\<rparr>"
  let ?s = "serving ?f [5] 1"
  obtain s1 where s1: "fwup_submit quiet_env 0 2 (current_session_id ?f) (Some [6]) 1 ?s = Some (Inr TLS_FWUP_STATUS_OK, s1)"
    and s1_def: "s1 = ?s\<lparr>fwup := Some (?f\<lparr>wait_list := [1, 2]\<rparr>),
      requests := (requests ?s)(2 := \<lparr>rq_data = [6], rq_data_len = 1, rq_status = 0, rq_sem = 0\<rparr>)\<rparr>"
    by (auto simp: fwup_submit_def tls_fwup_request_async_def module_defs Let_def)
  obtain s2 where s2: "fwup_scheduler_work (board_fls nor_ctl chip_1M) soft_engine quiet_env layout_2M_new s1 = Some s2"
      "\<not> rebooted s2"
    by (auto simp: s1_def fwup_scheduler_work_def fwup_serve_def fwup_header_stage_def fwup_data_stage_def
        fwup_write_stage_def fwup_finish_def upd_ctl_def module_defs Let_def sem_acquire_def)
  have ne: "(2 :: nat) \<noteq> 1" by simp
  have inv: "fwup_inv ?s" by (simp add: fwup_inv_def working_on_def module_defs)
  note none = rtranclp.rtrancl_refl [of "fwup_step (board_fls nor_ctl chip_1M) soft_engine quiet_env layout_2M_new (ram_state board_2M)" s2]
  have "phase s2 = Waiting \<and> fwup_msg_queue s2 = 0 \<and> 2 \<in> set (queued s2) \<and>
    fwup_collect TLS_FWUP_STATUS_OK 2 s2 = None \<and>
    (\<forall>sid err s4. tls_fwup_exit quiet_env (ram_state board_2M) sid s2 = Some (err, s4) \<longrightarrow> err \<noteq> TLS_FWUP_STATUS_OK \<and> s4 = s2) \<and>
    (\<forall>sid. fst (tls_fwup_reset sid s2) \<noteq> TLS_FWUP_STATUS_OK)"
    by (rule fwup_late_request_never_served [OF inv _ _ _ _ _ _ s1 ne s2 none]) (simp_all add: module_defs)
  then show ?thesis using s1 s2 by (simp add: module_defs)
qed

text \<open>When the control block of the module is allocated but its lock, queue or task is not,
  \<open>tls_fwup_init\<close> frees the block and reports the error, and \<open>tls_fwup_enter\<close>, which does not look at the
  error, goes on to read the freed block.\<close>

theorem tls_fwup_enter_reads_freed_block:
  assumes "fwup s = None" "heap s = True # replicate n True @ False # rest" "n < 3"
  shows "fst (tls_fwup_init s) = TLS_FWUP_STATUS_EMEM \<and> tls_fwup_enter eo src s = None"
proof -
  have "n = 0 \<or> n = 1 \<or> n = 2" using assms(3) by auto
  then show ?thesis
    using assms(1,2) by (auto simp: tls_fwup_enter_def tls_fwup_init_def tls_os_sem_create_def numeral_eq_Suc)
qed

theorem tls_fwup_enter_reads_freed_block_witness:
  "fst (tls_fwup_init (no_module\<lparr>heap := [True, False]\<rparr>)) = TLS_FWUP_STATUS_EMEM \<and>
    tls_fwup_enter quiet_env 3 (no_module\<lparr>heap := [True, False]\<rparr>) = None"
  by (rule tls_fwup_enter_reads_freed_block [where n = 0 and rest = "[]"]) (simp_all add: no_module_def)

text \<open>A first request of an update that holds less than the image header restarts the device: nothing
  is to be written yet, and the test for the end of the update, 0 of 0 bytes, holds. The same happens
  after a header that is refused.\<close>

theorem fwup_short_first_request_restarts:
  assumes "phase s = Working rid temp" "\<not> rebooted s" "fwup s = Some f" "list_lock f \<noteq> 0"
    and "received_len f = 0" "updated_len f = 0" "total_len f = 0" "current_image_src f \<le> TLS_FWUP_IMAGE_SRC_WEB"
    and "current_state f AND TLS_FWUP_STATE_ERROR = 0" "current_state f AND TLS_FWUP_STATE_COMPLETE = 0"
    and "rq_data_len (requests s rid) < BOOTER_SIZE" "BOOTER_SIZE \<le> length (rq_data (requests s rid))"
  shows "\<exists>s'. fwup_scheduler_work fo hw eo l s = Some s' \<and> rebooted s' \<and>
    rq_status (requests s' rid) = TLS_FWUP_REQ_STATUS_SUCCESS \<and> fdev s' = fdev s"
  using assms
  by (auto simp: fwup_scheduler_work_def fwup_serve_def fwup_header_stage_def fwup_take_header_def Let_def upd_ctl_def
      fwup_data_stage_def fwup_finish_def sem_acquire_def fwup_request_complete_def split: option.splits)

theorem fwup_short_first_request_restarts_witness:
  "\<exists>s'. fwup_scheduler_work (board_fls nor_ctl chip_1M) soft_engine quiet_env layout_2M_new
      (serving open_fwup (zeros BOOTER_SIZE) 20) = Some s' \<and> rebooted s' \<and>
    rq_status (requests s' 1) = TLS_FWUP_REQ_STATUS_SUCCESS \<and>
    fdev s' = fdev (serving open_fwup (zeros BOOTER_SIZE) 20)"
  by (rule fwup_short_first_request_restarts [where temp = None and f = open_fwup]) (simp_all add: module_defs)

end
