(* ===== verification/Fwup_Update.thy ===== *)
theory Fwup_Update
  imports Fwup_Session
begin

text \<open>
  What the firmware updater achieves. \<open>header_ok\<close> is the check of an image header as a predicate on the
  header, the running one and the flash size; \<open>put_image\<close> is where an image goes, with the jump over
  the parameter block that an old-layout image makes at the end of the first megabyte; \<open>received\<close> is the
  state of the updater after a prefix of the image. The locale \<open>fwup_site\<close> is a flash and a crypto
  engine that meet their contracts, with the flash map that fits.
\<close>

section \<open>The header\<close>

definition image_crc :: "bytes \<Rightarrow> u32" where
  "image_crc xs = foldl crc_byte 0xFFFFFFFF xs"

definition header_ok :: "bytes \<Rightarrow> bytes \<Rightarrow> nat \<Rightarrow> bool" where
  "header_ok run img fsize \<longleftrightarrow>
     magic_no img = SIGNATURE_WORD \<and> (img_type img = IMG_TYPE_OLD_PLAIN \<or> img_type img = IMG_TYPE_NEW_PLAIN) \<and>
     hd_checksum img = image_crc (take 52 img) \<and> run_img_addr img OR 0x08000000 < 0x08100000 \<and>
     img_type run = img_type img \<and> update_area_ok run img fsize"

locale fwup_site = flash_client wf contents accessible fo fsize + crc_engine hw
  for wf :: "'d \<Rightarrow> bool" and contents accessible and fo :: "'d fls_ops" and fsize and hw :: "'h crypto_hw" +
  fixes l :: layout
  assumes write_nothing: "\<lbrakk>wf d; FLASH_BASE_ADDR \<le> a;
      a < FLASH_1M_END_ADDR \<or> fsize = 0x200000 \<and> a \<le> FLASH_BASE_ADDR + fsize\<rbrakk> \<Longrightarrow>
      fls_write fo a (Some w) 0 d = Some (TLS_FLS_STATUS_EINVAL, d)"
    and site: "l = layout_1M \<and> fsize = 0x100000 \<or>
    (l = layout_2M_old \<or> l = layout_2M_new) \<and> fsize = 0x200000"
begin

lemma words_fold:
  assumes "length img = BOOTER_SIZE" "n \<le> 13" "ctx_type ctx = CRYPTO_CRC_TYPE_32" "ctx_mode ctx = 3"
  shows "\<exists>h'. foldl (\<lambda>(ctx, h) i. tls_crypto_crc_update hw ctx (slice (4 * i) 4 img) 4 h) (ctx, h) [0..<n] =
    (ctx\<lparr>ctx_state := foldl crc_byte (ctx_state ctx) (take (4 * n) img)\<rparr>, h')"
  using assms(2)
proof (induction n)
  case (Suc n)
  then obtain h' where IH: "foldl (\<lambda>(ctx, h) i. tls_crypto_crc_update hw ctx (slice (4 * i) 4 img) 4 h) (ctx, h) [0..<n] =
      (ctx\<lparr>ctx_state := foldl crc_byte (ctx_state ctx) (take (4 * n) img)\<rparr>, h')" by auto
  let ?c = "ctx\<lparr>ctx_state := foldl crc_byte (ctx_state ctx) (take (4 * n) img)\<rparr>"
  have "take (4 * Suc n) img = take (4 * n) img @ slice (4 * n) 4 img"
    by (simp add: slice_def add.commute [of 4] take_add)
  moreover have "length (slice (4 * n) 4 img) = 4" using Suc.prems assms(1) by simp
  ultimately show ?case
    using update_32 [of ?c 4 "slice (4 * n) 4 img" h'] assms(3,4)
    by (cases "tls_crypto_crc_update hw ?c (slice (4 * n) 4 img) 4 h'") (simp add: IH)
qed simp

lemma header_words:
  assumes "length img = BOOTER_SIZE"
  shows "\<exists>h'. header_words_crc hw img h = (image_crc (take 52 img), h')"
  using words_fold [OF assms, of 13 "tls_crypto_crc_init 0xFFFFFFFF CRYPTO_CRC_TYPE_32 3" h]
  by (auto simp: header_words_crc_def tls_crypto_crc_init_def tls_crypto_crc_final_def image_crc_def)

lemma run_accessible: "accessible CODE_RUN_HEADER_ADDR BOOTER_SIZE"
  using site by (intro accessible_below) auto

lemma upd_accessible: "accessible (CODE_UPD_HEADER_ADDR l) BOOTER_SIZE"
proof (cases "l = layout_2M_new")
  case True
  then have "CODE_UPD_HEADER_ADDR l = 0x81FC000" "fsize = 0x200000"
    using site by (auto simp: layout_defs)
  then show ?thesis by (auto intro!: accessible_second)
next
  case False
  then have "CODE_UPD_HEADER_ADDR l = 0x80FC000" using site by (auto simp: layout_defs)
  then show ?thesis using site by (intro accessible_below) auto
qed

lemma header_check:
  assumes "wf (fdev s)" "length img = BOOTER_SIZE" "length (fst (imgheader s)) = BOOTER_SIZE"
  defines "run \<equiv> mem_get (contents (fdev s)) CODE_RUN_HEADER_ADDR BOOTER_SIZE"
  shows "\<exists>h d r. tls_fwup_img_header_check fo hw img s =
      Some (header_ok run img fsize, s\<lparr>crypto := h, fdev := d, imgheader := (r, snd (imgheader s))\<rparr>) \<and>
    wf d \<and> contents d = contents (fdev s) \<and> length r = BOOTER_SIZE \<and> (header_ok run img fsize \<longrightarrow> r = run) \<and>
    (fst (imgheader s) = run \<longrightarrow> r = run)"
proof -
  obtain h where h: "header_words_crc hw img (crypto s) = (image_crc (take 52 img), h)"
    using header_words [OF assms(2)] by blast
  obtain d where d: "fls_read fo CODE_RUN_HEADER_ADDR (Some (fst (imgheader s))) BOOTER_SIZE (fdev s) =
      Some (TLS_FLS_STATUS_OK, Some run, d)" "wf d" "contents d = contents (fdev s)"
    using rdE [OF assms(1) run_accessible, of "fst (imgheader s)"] assms(3) by (auto simp: run_def patch_all)
  show ?thesis
  proof (cases "magic_no img = SIGNATURE_WORD \<and> (img_type img = IMG_TYPE_OLD_PLAIN \<or> img_type img = IMG_TYPE_NEW_PLAIN) \<and>
      hd_checksum img = image_crc (take 52 img) \<and> run_img_addr img OR 0x08000000 < 0x08100000")
    case True
    then show ?thesis
      using d total_ok [OF d(2)]
      by (intro exI [of _ h] exI [of _ d] exI [of _ run])
        (auto simp: tls_fwup_img_header_check_def h header_ok_def run_def)
  next
    case False
    then have no: "\<not> header_ok run img fsize" by (auto simp: header_ok_def)
    show ?thesis
    proof (cases "magic_no img = SIGNATURE_WORD \<and> (img_type img = IMG_TYPE_OLD_PLAIN \<or> img_type img = IMG_TYPE_NEW_PLAIN)")
      case True
      then show ?thesis
        using no False assms(1,3)
        by (intro exI [of _ h] exI [of _ "fdev s"] exI [of _ "fst (imgheader s)"])
          (auto simp: tls_fwup_img_header_check_def h)
    next
      case False
      then show ?thesis
        using no assms(1,3)
        by (intro exI [of _ "crypto s"] exI [of _ "fdev s"] exI [of _ "fst (imgheader s)"])
          (auto simp: tls_fwup_img_header_check_def)
    qed
  qed
qed

end

text \<open>The header that \<open>tls_fwup_img_update_header\<close> stores: one more than the number of the newest image, and
  its own checksum.\<close>

definition next_no :: "bytes \<Rightarrow> bytes \<Rightarrow> nat \<Rightarrow> u32" where
  "next_no run upd fsize = (if header_ok run upd fsize \<and> upd_no upd > upd_no run then upd_no upd else upd_no run) + 1"

definition numbered :: "u32 \<Rightarrow> bytes \<Rightarrow> bytes" where
  "numbered no img = (let b = patch img 32 (le32 no) in patch b 52 (le32 (image_crc (take 52 b))))"

lemma length_numbered [simp]: "length img = BOOTER_SIZE \<Longrightarrow> length (numbered no img) = BOOTER_SIZE"
  by (simp add: numbered_def Let_def)

lemma numbered_fields:
  assumes "length img = BOOTER_SIZE"
  shows "upd_no (numbered no img) = no" "hd_checksum (numbered no img) = image_crc (take 52 (numbered no img))"
    "magic_no (numbered no img) = magic_no img" "img_type (numbered no img) = img_type img"
    "run_img_addr (numbered no img) = run_img_addr img" "run_img_len (numbered no img) = run_img_len img"
    "upd_img_addr (numbered no img) = upd_img_addr img" "upd_img_len (numbered no img) = upd_img_len img"
    "upd_checksum (numbered no img) = upd_checksum img"
proof -
  let ?b = "patch img 32 (le32 no)"
  have other: "slice a n (numbered no img) = slice a n img" if "a + n \<le> 32" for a n
    using that assms by (simp add: numbered_def Let_def slice_patch_other)
  show "magic_no (numbered no img) = magic_no img" "img_type (numbered no img) = img_type img"
    "run_img_addr (numbered no img) = run_img_addr img" "run_img_len (numbered no img) = run_img_len img"
    "upd_img_addr (numbered no img) = upd_img_addr img" "upd_img_len (numbered no img) = upd_img_len img"
    "upd_checksum (numbered no img) = upd_checksum img"
    by (simp_all add: magic_no_def img_type_def run_img_addr_def run_img_len_def upd_img_addr_def upd_img_len_def
        upd_checksum_def get_u32_def get_u16_def other)
  have "slice 32 4 ?b = le32 no" using slice_patch_same [of 32 "le32 no" img] assms by simp
  then show "upd_no (numbered no img) = no"
    using assms by (simp add: upd_no_def get_u32_def numbered_def Let_def slice_patch_other)
  have "slice 52 4 (patch ?b 52 (le32 c)) = le32 c" "take 52 (patch ?b 52 (le32 c)) = take 52 ?b" for c
    using slice_patch_same [of 52 "le32 c" ?b] assms by (simp_all add: patch_def)
  then show "hd_checksum (numbered no img) = image_crc (take 52 (numbered no img))"
    by (simp add: hd_checksum_def get_u32_def numbered_def Let_def)
qed

lemma header_ok_numbered:
  assumes "length img = BOOTER_SIZE" "header_ok run img fsize"
  shows "header_ok run (numbered no img) fsize"
proof -
  have "update_area_ok run (numbered no img) fsize = update_area_ok run img fsize"
    by (simp only: update_area_ok_def numbered_fields [OF assms(1)])
  then show ?thesis using assms(2) by (simp only: header_ok_def numbered_fields [OF assms(1)])
qed

context fwup_site
begin

lemma update_header:
  assumes "wf (fdev s)" "length img = BOOTER_SIZE" "length (fst (imgheader s)) = BOOTER_SIZE"
    "length (snd (imgheader s)) = BOOTER_SIZE"
  defines "run \<equiv> mem_get (contents (fdev s)) CODE_RUN_HEADER_ADDR BOOTER_SIZE"
    and "upd \<equiv> mem_get (contents (fdev s)) (CODE_UPD_HEADER_ADDR l) BOOTER_SIZE"
  defines "img' \<equiv> numbered (next_no run upd fsize) img"
  shows "\<exists>h d. tls_fwup_img_update_header fo hw l img s =
      Some (img', s\<lparr>imgheader := (run, upd), crypto := h, fdev := d\<rparr>) \<and>
    wf d \<and> contents d = mem_upd (contents (fdev s)) (CODE_UPD_HEADER_ADDR l) img'"
proof -
  obtain d1 where d1: "fls_read fo CODE_RUN_HEADER_ADDR (Some (fst (imgheader s))) BOOTER_SIZE (fdev s) =
      Some (TLS_FLS_STATUS_OK, Some run, d1)" "wf d1" "contents d1 = contents (fdev s)"
    using rdE [OF assms(1) run_accessible, of "fst (imgheader s)"] assms(3) by (auto simp: run_def patch_all)
  obtain d2 where d2: "fls_read fo (CODE_UPD_HEADER_ADDR l) (Some (snd (imgheader s))) BOOTER_SIZE d1 =
      Some (TLS_FLS_STATUS_OK, Some upd, d2)" "wf d2" "contents d2 = contents (fdev s)"
    using rdE [OF d1(2) upd_accessible, of "snd (imgheader s)"] assms(4) d1(3) by (auto simp: upd_def patch_all)
  have len: "length run = BOOTER_SIZE" "length upd = BOOTER_SIZE" by (simp_all add: run_def upd_def)
  obtain h3 d3 where chk: "tls_fwup_img_header_check fo hw upd (s\<lparr>fdev := d2, imgheader := (run, upd)\<rparr>) =
      Some (header_ok run upd fsize, s\<lparr>crypto := h3, fdev := d3, imgheader := (run, upd)\<rparr>)"
      "wf d3" "contents d3 = contents (fdev s)"
    using header_check [of "s\<lparr>fdev := d2, imgheader := (run, upd)\<rparr>" upd] d2 len by (fastforce simp: run_def)
  define b where "b = patch img 32 (le32 (next_no run upd fsize))"
  have b: "length b = BOOTER_SIZE" "length (take 52 b) = 52" using assms(2) by (simp_all add: b_def)
  obtain h4 where up: "tls_crypto_crc_update hw (tls_crypto_crc_init 0xFFFFFFFF CRYPTO_CRC_TYPE_32 3) (take 52 b) 52 h3 =
      (tls_crypto_crc_init (image_crc (take 52 b)) CRYPTO_CRC_TYPE_32 3, h4)"
    using update_32 [of "tls_crypto_crc_init 0xFFFFFFFF CRYPTO_CRC_TYPE_32 3" 52 "take 52 b" h3] b
    by (cases "tls_crypto_crc_update hw (tls_crypto_crc_init 0xFFFFFFFF CRYPTO_CRC_TYPE_32 3) (take 52 b) 52 h3")
      (simp add: tls_crypto_crc_init_def image_crc_def)
  have img': "patch b 52 (le32 (image_crc (take 52 b))) = img'"
    by (simp add: img'_def numbered_def b_def Let_def)
  have len': "length img' = BOOTER_SIZE" using assms(2) by (simp add: img'_def)
  obtain d5 where d5: "fls_write fo (CODE_UPD_HEADER_ADDR l) (Some img') BOOTER_SIZE d3 = Some (TLS_FLS_STATUS_OK, d5)"
      "wf d5" "contents d5 = mem_upd (contents (fdev s)) (CODE_UPD_HEADER_ADDR l) img'"
    using wrE [OF chk(2) upd_accessible, of img'] len' chk(3) by auto
  have init: "tls_crypto_crc_init c CRYPTO_CRC_TYPE_32 3 = \<lparr>ctx_state = c, ctx_type = 3, ctx_mode = 3\<rparr>" for c
    by (simp add: tls_crypto_crc_init_def)
  have no: "header_ok run upd fsize \<and> upd_no run < upd_no upd \<Longrightarrow> patch img 32 (le32 (upd_no upd + 1)) = b"
    "\<not> (header_ok run upd fsize \<and> upd_no run < upd_no upd) \<Longrightarrow> patch img 32 (le32 (upd_no run + 1)) = b"
    by (auto simp: b_def next_no_def)
  show ?thesis
    using d5 no by (intro exI [of _ h4] exI [of _ d5], cases "header_ok run upd fsize \<and> upd_no run < upd_no upd")
      (auto simp: tls_fwup_img_update_header_def d1 d2 chk up [unfolded init] img' tls_crypto_crc_final_def init)
qed

end

section \<open>The area of an image\<close>

definition upd_base :: "bytes \<Rightarrow> nat" where
  "upd_base hdr = unat (upd_img_addr hdr OR 0x08000000)"

definition upd_len :: "bytes \<Rightarrow> nat" where
  "upd_len hdr = unat (upd_img_len hdr)"

definition run_end :: "bytes \<Rightarrow> nat" where
  "run_end hdr = unat (run_img_addr hdr OR 0x08000000) + unat (run_img_len hdr)"

lemma or_base_ge: "0x08000000 \<le> (x OR 0x08000000 :: u32)"
proof -
  have "(0x08000000 :: u32) = 0x08000000 AND (x OR 0x08000000)" by (simp add: bit.conj_disj_distrib)
  then show ?thesis using word_and_le2 [of "0x08000000" "x OR 0x08000000"] word_and_le1 by metis
qed

text \<open>The end of the run area that the check respects: of the new image, or of the running one where the
  comparison of line 111 picks it.\<close>

definition run_floor :: "bytes \<Rightarrow> bytes \<Rightarrow> u32" where
  "run_floor run img =
     (if (run_img_addr img OR 0x08000000) + run_img_len img < run_img_addr run + run_img_len run
      then (run_img_addr run OR 0x08000000) + run_img_len run
      else (run_img_addr img OR 0x08000000) + run_img_len img)"

lemma update_area_iff:
  "update_area_ok run img fsize \<longleftrightarrow>
     (run_img_addr img OR 0x08000000) mod 256 = 0 \<and> run_img_len img \<noteq> 0 \<and>
     (run_img_addr img OR 0x08000000) + run_img_len img < 0x08100000 \<and> 0x08010100 \<le> run_img_addr img OR 0x08000000 \<and>
     (if run_floor run img mod 0x10000 \<noteq> 0 then run_floor run img div 0x10000 * 0x10000 + 0x10000 else run_floor run img)
       \<le> upd_img_addr img OR 0x08000000 \<and>
     (upd_img_addr img OR 0x08000000) mod 0x10000 = 0 \<and> upd_img_len img \<noteq> 0 \<and>
     (upd_img_addr img OR 0x08000000) + upd_img_len img \<le> (of_nat fsize - 0x10000) OR 0x08000000"
proof -
  have pure: "(if a \<or> b \<or> c \<or> d then False else if e \<or> f \<or> g then False else \<not> h) \<longleftrightarrow>
      \<not> a \<and> \<not> b \<and> \<not> c \<and> \<not> d \<and> \<not> e \<and> \<not> f \<and> \<not> g \<and> \<not> h" for a b c d e f g h
    by auto
  show ?thesis
    unfolding update_area_ok_def run_floor_def Let_def pure by (simp only: not_less not_le not_not conj_ac)
qed

lemma unat_mod_64K: "(x :: u32) mod 0x10000 = 0 \<Longrightarrow> unat x mod 0x10000 = 0"
  using unat_mod [of x "0x10000"] by simp

lemma update_area_facts:
  assumes ok: "update_area_ok run hdr fsize" and fsize: "fsize = 0x100000 \<or> fsize = 0x200000"
    and fit: "upd_base hdr + upd_len hdr < 2 ^ 32"
  shows "upd_base hdr mod 0x10000 = 0" "0 < upd_len hdr"
    "upd_base hdr + upd_len hdr \<le> 0x08000000 + fsize - 0x10000"
proof -
  note c = ok [unfolded update_area_iff]
  let ?b = "upd_img_addr hdr OR 0x08000000"
  have lim: "(of_nat fsize - 0x10000) OR (0x08000000 :: u32) = of_nat (0x08000000 + fsize - 0x10000)"
    using fsize by auto
  have sum: "unat (?b + upd_img_len hdr) = upd_base hdr + upd_len hdr"
    using fit by (simp add: unat_plus_if' upd_base_def upd_len_def)
  show "upd_base hdr mod 0x10000 = 0" using c unat_mod_64K [of ?b] by (simp only: upd_base_def)
  show "0 < upd_len hdr" using c by (simp add: upd_len_def unat_gt_0)
  have "?b + upd_img_len hdr \<le> of_nat (0x08000000 + fsize - 0x10000)"
    using c lim by simp
  then show "upd_base hdr + upd_len hdr \<le> 0x08000000 + fsize - 0x10000"
    using fsize by (auto simp: word_le_nat_alt sum)
qed

lemma round_up_ge:
  assumes "unat x \<le> 0xFFFF0000"
  shows "x \<le> (if x mod 0x10000 \<noteq> 0 then x div 0x10000 * 0x10000 + 0x10000 else (x :: u32))"
proof (cases "x mod 0x10000 = 0")
  case False
  have "unat (x mod 0x10000) \<noteq> 0" using False by (simp only: unat_eq_zero) simp
  then have m: "unat x mod 0x10000 \<noteq> 0" using unat_mod [of x "0x10000"] by simp
  then have "unat x \<noteq> 0xFFFF0000" by (intro notI) simp
  then have "unat x div 0x10000 * 0x10000 + 0x10000 < 2 ^ 32" using assms by simp
  then have "unat (x div 0x10000 * 0x10000 + 0x10000) = unat x div 0x10000 * 0x10000 + 0x10000"
    by (simp add: unat_word_ariths unat_div)
  then show ?thesis using False by (simp add: word_le_nat_alt)
qed simp

lemma run_ends_below:
  assumes ok: "update_area_ok run hdr fsize" and fit: "run_end hdr < 2 ^ 32" "run_end run \<le> 0xFFFF0000"
  shows "run_end hdr \<le> upd_base hdr" "run_end hdr < 0x08100000" "0x08010100 \<le> unat (run_img_addr hdr OR 0x08000000)"
    "run_img_addr run OR 0x08000000 = run_img_addr run \<Longrightarrow> run_end run \<le> upd_base hdr"
proof -
  note c = ok [unfolded update_area_iff]
  let ?e = "(run_img_addr hdr OR 0x08000000) + run_img_len hdr" and ?r = "(run_img_addr run OR 0x08000000) + run_img_len run"
  have e: "unat ?e = run_end hdr" using fit by (simp add: unat_plus_if' run_end_def)
  have r: "unat ?r = run_end run" using fit by (simp add: unat_plus_if' run_end_def)
  show lim: "run_end hdr < 0x08100000" using c e by (simp add: word_less_nat_alt)
  show "0x08010100 \<le> unat (run_img_addr hdr OR 0x08000000)" using c by (simp add: word_le_nat_alt)
  have "unat (run_img_addr run) \<le> unat (run_img_addr run OR 0x08000000)"
    using le_word_or2 [of "run_img_addr run" "0x08000000"] by (simp only: word_le_nat_alt)
  then have raw: "unat (run_img_addr run + run_img_len run) \<le> run_end run"
    using fit(2) by (simp add: unat_plus_if' run_end_def)
  have F: "unat (run_floor run hdr) \<le> 0xFFFF0000"
    using e r lim fit by (auto simp: run_floor_def simp del: unat_plus_if')
  have up: "run_floor run hdr \<le> upd_img_addr hdr OR 0x08000000"
    using round_up_ge [OF F] c by (meson order_trans)
  show "run_end hdr \<le> upd_base hdr"
    using up e r raw by (auto simp: run_floor_def upd_base_def word_le_nat_alt word_less_nat_alt split: if_splits)
  show "run_end run \<le> upd_base hdr" if "run_img_addr run OR 0x08000000 = run_img_addr run"
    using up e r that by (auto simp: run_floor_def upd_base_def word_le_nat_alt word_less_nat_alt split: if_splits)
qed

section \<open>Where an image goes\<close>

text \<open>An old-layout image below the end of the first of two megabytes jumps from 0x080F0000, the block with
  the parameters, to the second megabyte.\<close>

definition crosses :: "bytes \<Rightarrow> nat \<Rightarrow> bool" where
  "crosses hdr fsize \<longleftrightarrow> img_type hdr = IMG_TYPE_OLD_PLAIN \<and> fsize = 0x200000 \<and> upd_base hdr < FLASH_1M_END_ADDR"

definition jump_at :: "bytes \<Rightarrow> nat" where
  "jump_at hdr = FLASH_1M_END_ADDR - INSIDE_FLS_BLOCK_SIZE - upd_base hdr"

definition place :: "bytes \<Rightarrow> nat \<Rightarrow> nat \<Rightarrow> nat" where
  "place hdr fsize q =
     (if crosses hdr fsize \<and> jump_at hdr \<le> q then FLASH_1M_END_ADDR + (q - jump_at hdr) else upd_base hdr + q)"

definition put_image :: "memory \<Rightarrow> bytes \<Rightarrow> nat \<Rightarrow> bytes \<Rightarrow> memory" where
  "put_image m hdr fsize xs =
     (if crosses hdr fsize
      then mem_upd (mem_upd m (upd_base hdr) (take (jump_at hdr) xs)) FLASH_1M_END_ADDR (drop (jump_at hdr) xs)
      else mem_upd m (upd_base hdr) xs)"

lemma put_image_Nil [simp]: "put_image m hdr fsize [] = m"
  by (simp add: put_image_def)

lemma put_image_append:
  assumes "jump_at hdr \<le> length xs \<or> length xs + length ys \<le> jump_at hdr" "ys \<noteq> []"
  shows "put_image m hdr fsize (xs @ ys) = mem_upd (put_image m hdr fsize xs) (place hdr fsize (length xs)) ys"
proof (cases "jump_at hdr \<le> length xs")
  case True
  then have "place hdr fsize (length xs) =
      (if crosses hdr fsize then FLASH_1M_END_ADDR + length (drop (jump_at hdr) xs) else upd_base hdr + length xs)"
    by (simp add: place_def)
  then show ?thesis
    using True mem_upd_append [of "mem_upd m (upd_base hdr) (take (jump_at hdr) xs)" FLASH_1M_END_ADDR "drop (jump_at hdr) xs" ys]
    by (simp add: put_image_def mem_upd_append)
next
  case False
  then show ?thesis using assms by (auto simp: put_image_def place_def mem_upd_append)
qed

text \<open>An image that the flash driver can take: it does not run over the end of the first megabyte.\<close>

definition image_fits :: "bytes \<Rightarrow> nat \<Rightarrow> bool" where
  "image_fits hdr fsize \<longleftrightarrow> upd_base hdr + upd_len hdr < 2 ^ 32 \<and>
     (crosses hdr fsize \<or> FLASH_1M_END_ADDR \<le> upd_base hdr \<or> upd_base hdr + upd_len hdr < FLASH_1M_END_ADDR)"

lemma sector_div: "q mod (4096::nat) = 0 \<Longrightarrow> k mod 4096 = 0 \<Longrightarrow> \<not> k \<le> q \<Longrightarrow> q + 4096 \<le> k"
  by (metis add_le_cancel_left dvd_eq_mod_eq_0 aligned_room mult.commute dvd_div_mult_self not_le)

context fwup_site
begin

lemma image_facts:
  assumes "header_ok run hdr fsize" "image_fits hdr fsize"
  shows "FLASH_BASE_ADDR \<le> upd_base hdr" "upd_base hdr mod 0x10000 = 0" "0 < upd_len hdr"
    "upd_base hdr + upd_len hdr \<le> FLASH_BASE_ADDR + fsize - 0x10000" "jump_at hdr mod INSIDE_FLS_SECTOR_SIZE = 0"
    "crosses hdr fsize \<Longrightarrow> upd_base hdr + jump_at hdr = FLASH_1M_END_ADDR - INSIDE_FLS_BLOCK_SIZE"
    "upd_base hdr + upd_len hdr \<le> 0x081F0000"
proof -
  have sz: "fsize = 0x100000 \<or> fsize = 0x200000" using site by auto
  have ok: "update_area_ok run hdr fsize" "upd_base hdr + upd_len hdr < 2 ^ 32"
    using assms by (auto simp: header_ok_def image_fits_def)
  note f = update_area_facts [OF ok(1) sz ok(2)]
  show "FLASH_BASE_ADDR \<le> upd_base hdr"
    using or_base_ge [of "upd_img_addr hdr"] by (simp add: upd_base_def word_le_nat_alt)
  show "upd_base hdr mod 0x10000 = 0" "0 < upd_len hdr" "upd_base hdr + upd_len hdr \<le> FLASH_BASE_ADDR + fsize - 0x10000"
    using f by auto
  then show "upd_base hdr + upd_len hdr \<le> 0x081F0000" using sz by auto
  obtain b where b: "upd_base hdr = 0x10000 * b" using f(1) by (auto simp: mod_eq_0_iff_dvd elim: dvdE)
  then have "jump_at hdr = (0x80F - b) * 16 * 4096" by (simp add: jump_at_def diff_mult_distrib)
  then show "jump_at hdr mod INSIDE_FLS_SECTOR_SIZE = 0" by (simp only: mod_mult_self2_is_0)
  show "upd_base hdr + jump_at hdr = FLASH_1M_END_ADDR - INSIDE_FLS_BLOCK_SIZE" if "crosses hdr fsize"
  proof -
    have "b < 0x810" using that b by (simp add: crosses_def)
    then show ?thesis using b by (simp add: jump_at_def)
  qed
qed

lemma place_accessible:
  assumes "header_ok run hdr fsize" "image_fits hdr fsize" "0 < n" "n \<le> INSIDE_FLS_SECTOR_SIZE" "q + n \<le> upd_len hdr"
    "q mod INSIDE_FLS_SECTOR_SIZE = 0"
  shows "accessible (place hdr fsize q) n"
proof (cases "crosses hdr fsize")
  case True
  note f = image_facts [OF assms(1,2)]
  have sz: "fsize = 0x200000" using True by (simp add: crosses_def)
  show ?thesis
  proof (cases "jump_at hdr \<le> q")
    case True
    then show ?thesis
      using \<open>crosses hdr fsize\<close> f(6,7) assms(3-5) sz by (auto simp: place_def intro!: accessible_second)
  next
    case False
    then have "q + n \<le> jump_at hdr"
      using sector_div [OF assms(6) f(5)] assms(4) by simp
    then show ?thesis
      using False True f(1,6) assms(3-5) sz by (auto simp: place_def intro!: accessible_below)
  qed
next
  case False
  note f = image_facts [OF assms(1,2)]
  have "FLASH_1M_END_ADDR \<le> upd_base hdr \<or> upd_base hdr + upd_len hdr < FLASH_1M_END_ADDR"
    using False assms(2) by (simp add: image_fits_def)
  then have "accessible (upd_base hdr + q) n"
  proof
    assume "FLASH_1M_END_ADDR \<le> upd_base hdr"
    then show ?thesis using f(4) assms(3-5) by (intro accessible_second) auto
  next
    assume "upd_base hdr + upd_len hdr < FLASH_1M_END_ADDR"
    then show ?thesis using f(1,4) assms(3-5) by (intro accessible_below) auto
  qed
  then show ?thesis using False by (simp add: place_def)
qed

end

section \<open>Receiving an image\<close>

lemma or_and_self: "(x OR b) AND b = (b :: u16)"
  by (metis and.commute bit.conj_disj_distrib2 and.idem or.commute bit.disj_conj_distrib2 word_ao_absorbs(1))

definition flushed :: "bytes \<Rightarrow> nat" where
  "flushed p = length p div INSIDE_FLS_SECTOR_SIZE * INSIDE_FLS_SECTOR_SIZE"

lemma flushed_facts:
  "flushed p \<le> length p" "flushed p mod INSIDE_FLS_SECTOR_SIZE = 0" "length p = flushed p + length p mod INSIDE_FLS_SECTOR_SIZE"
  by (simp_all add: flushed_def)

definition no_error :: "tls_fwup \<Rightarrow> bool" where
  "no_error f \<longleftrightarrow> current_state f AND TLS_FWUP_STATE_ERROR = 0 \<and> current_state f AND TLS_FWUP_STATE_COMPLETE = 0"

text \<open>The state after the prefix \<open>p\<close> of the image: its whole sectors are in the flash, the rest in the
  write buffer. \<open>m\<close> is the flash before the update.\<close>

definition received ::
    "('d \<Rightarrow> memory) \<Rightarrow> nat \<Rightarrow> memory \<Rightarrow> bytes \<Rightarrow> bytes \<Rightarrow> ('d, 'h, 'e, 'z) fwup_state_scheme \<Rightarrow> bool" where
  "received contents fsize m hdr p s \<longleftrightarrow>
     (\<exists>f w. fwup s = Some f \<and> fwupwritebuffer s = Some w \<and> length w = INSIDE_FLS_SECTOR_SIZE \<and>
       length (fst (imgheader s)) = BOOTER_SIZE \<and> length (snd (imgheader s)) = BOOTER_SIZE \<and>
       currentlen (sched s) = length p mod INSIDE_FLS_SECTOR_SIZE \<and>
       take (length p mod INSIDE_FLS_SECTOR_SIZE) w = drop (flushed p) p \<and>
       booter (sched s) = hdr \<and> org_checksum (sched s) = upd_checksum hdr \<and>
       isacrossflash (sched s) = (crosses hdr fsize \<and> jump_at hdr < flushed p) \<and>
       program_base f = (if crosses hdr fsize \<and> jump_at hdr < flushed p then FLASH_1M_END_ADDR else upd_base hdr) \<and>
       program_offset f = (if crosses hdr fsize \<and> jump_at hdr < flushed p then flushed p - jump_at hdr else flushed p) \<and>
       contents (fdev s) = put_image m hdr fsize (take (flushed p) p) \<and>
       updated_len f = length p \<and> total_len f = upd_len hdr \<and> no_error f)"

definition crossed :: "bytes \<Rightarrow> nat \<Rightarrow> nat \<Rightarrow> bool" where
  "crossed hdr fsize q \<longleftrightarrow> crosses hdr fsize \<and> jump_at hdr \<le> q"

context fwup_site
begin

lemma cross_flash_received:
  assumes ok: "header_ok run hdr fsize" "image_fits hdr fsize" and wf: "wf (fdev s)"
    and rec: "received contents fsize m hdr p s" and f: "fwup s = Some f" and len: "length p \<le> upd_len hdr"
  shows "cross_flash fo s = s\<lparr>sched := (sched s)\<lparr>isacrossflash := crossed hdr fsize (flushed p)\<rparr>,
    fwup := Some (f\<lparr>program_base := if crossed hdr fsize (flushed p) then FLASH_1M_END_ADDR else upd_base hdr,
      program_offset := if crossed hdr fsize (flushed p) then flushed p - jump_at hdr else flushed p\<rparr>)\<rparr>"
proof -
  note facts = image_facts [OF ok]
  have add: "add32 (upd_base hdr) (length p) = upd_base hdr + length p" using facts(7) len by simp
  have r: "booter (sched s) = hdr" "updated_len f = length p"
    "isacrossflash (sched s) = (crosses hdr fsize \<and> jump_at hdr < flushed p)"
    "program_base f = (if crosses hdr fsize \<and> jump_at hdr < flushed p then FLASH_1M_END_ADDR else upd_base hdr)"
    "program_offset f = (if crosses hdr fsize \<and> jump_at hdr < flushed p then flushed p - jump_at hdr else flushed p)"
    using rec f by (auto simp: received_def)
  have sz: "fls_total fo (fdev s) = fsize" using total_ok wf by simp
  have at: "jump_at hdr \<le> length p \<longleftrightarrow> jump_at hdr \<le> flushed p"
    using sector_div [OF flushed_facts(2) facts(5), of p] flushed_facts(3) [of p] by fastforce
  have cond: "img_type (booter (sched s)) = IMG_TYPE_OLD_PLAIN \<and> fls_total fo (fdev s) = 0x200000 \<and>
      program_base f < FLASH_1M_END_ADDR \<and> add32 (program_base f) (updated_len f) \<ge> FLASH_1M_END_ADDR - INSIDE_FLS_BLOCK_SIZE
    \<longleftrightarrow> crosses hdr fsize \<and> jump_at hdr = flushed p"
    using facts(6) at by (auto simp: r sz crosses_def add)
  show ?thesis
    by (cases s, cases "sched s", cases f)
      (use f r cond in \<open>auto simp: cross_flash_def crossed_def\<close>)
qed

lemma place_crossed:
  "place hdr fsize q = (if crossed hdr fsize q then FLASH_1M_END_ADDR else upd_base hdr) +
    (if crossed hdr fsize q then q - jump_at hdr else q)"
  by (simp add: place_def crossed_def)

lemma place_32:
  assumes "header_ok run hdr fsize" "image_fits hdr fsize" "q \<le> upd_len hdr"
  shows "place hdr fsize q < 2 ^ 32"
  using image_facts(7) [OF assms(1,2)] assms(3) by (auto simp: place_def)

text \<open>A chunk that does not fill the sector in the buffer.\<close>

lemma write_stage_buffer:
  assumes ok: "header_ok run hdr fsize" "image_fits hdr fsize"
    and rec: "received contents fsize m hdr p s" and w: "fwupwritebuffer s = Some w"
    and c: "length c = rq_data_len r" "length p mod INSIDE_FLS_SECTOR_SIZE + length c < INSIDE_FLS_SECTOR_SIZE"
    and len: "length p + length c \<le> upd_len hdr"
  shows "\<exists>w' sc f g. fwup s = Some f \<and> fwup_write_stage fo r c w s =
      Some (True, r, s\<lparr>fwupwritebuffer := Some w', sched := sc, fwup := Some g\<rparr>) \<and>
    received_len g = received_len f \<and>
    received contents fsize m hdr (p @ c) (s\<lparr>fwupwritebuffer := Some w', sched := sc, fwup := Some g\<rparr>)"
proof -
  let ?cl = "length p mod INSIDE_FLS_SECTOR_SIZE"
  obtain f where f: "fwup s = Some f" using rec by (auto simp: received_def)
  have fl: "flushed (p @ c) = flushed p" "length (p @ c) mod INSIDE_FLS_SECTOR_SIZE = ?cl + length c"
    using c(2) div_add1_eq [of "length p" "length c" 4096] mod_add_eq [of "length p" 4096 "length c"]
    by (simp_all add: flushed_def)
  have lw: "length w = INSIDE_FLS_SECTOR_SIZE" and tk: "take ?cl w = drop (flushed p) p"
    using rec w by (auto simp: received_def)
  have w': "take (?cl + length c) (patch w ?cl c) = drop (flushed p) p @ c"
    unfolding tk [symmetric] using lw c(2) by (simp add: patch_def)
  let ?sc = "(sched s)\<lparr>currentlen := ?cl + length c\<rparr>" and ?g = "f\<lparr>updated_len := length p + length c\<rparr>"
  have cl: "currentlen (sched s) = ?cl" "updated_len f = length p" using rec f by (auto simp: received_def)
  have "fwup_write_stage fo r c w s = Some (True, r, s\<lparr>fwupwritebuffer := Some (patch w ?cl c), sched := ?sc, fwup := Some ?g\<rparr>)"
    using c f lw len image_facts(7) [OF ok] by (simp add: fwup_write_stage_def upd_ctl_def Let_def cl c(1) [symmetric])
  moreover have "received contents fsize m hdr (p @ c) (s\<lparr>fwupwritebuffer := Some (patch w ?cl c), sched := ?sc, fwup := Some ?g\<rparr>)"
  proof -
    have "take (flushed (p @ c)) (p @ c) = take (flushed p) p" "drop (flushed (p @ c)) (p @ c) = drop (flushed p) p @ c"
      using fl(1) flushed_facts(1) [of p] by simp_all
    then show ?thesis
      unfolding received_def using rec f w' lw c(2) fl by (fastforce simp: received_def no_error_def)
  qed
  ultimately show ?thesis using f by fastforce
qed

text \<open>A chunk that fills it: the sector goes to the flash.\<close>

lemma write_stage_flush:
  assumes ok: "header_ok run hdr fsize" "image_fits hdr fsize" and wf: "wf (fdev s)"
    and rec: "received contents fsize m hdr p s" and w: "fwupwritebuffer s = Some w"
    and c: "length c = rq_data_len r" "INSIDE_FLS_SECTOR_SIZE \<le> length p mod INSIDE_FLS_SECTOR_SIZE + length c"
      "length c \<le> INSIDE_FLS_SECTOR_SIZE"
    and len: "length p + length c \<le> upd_len hdr"
  shows "\<exists>w' sc f g d. fwup s = Some f \<and> fwup_write_stage fo r c w s =
      Some (True, r, s\<lparr>fwupwritebuffer := Some w', sched := sc, fwup := Some g, fdev := d\<rparr>) \<and>
    received_len g = received_len f \<and> wf d \<and>
    received contents fsize m hdr (p @ c) (s\<lparr>fwupwritebuffer := Some w', sched := sc, fwup := Some g, fdev := d\<rparr>)"
proof -
  let ?q = "flushed p" and ?cl = "length p mod INSIDE_FLS_SECTOR_SIZE"
  let ?k = "INSIDE_FLS_SECTOR_SIZE - ?cl"
  let ?rest = "?cl + length c - INSIDE_FLS_SECTOR_SIZE"
  obtain f where f: "fwup s = Some f" using rec by (auto simp: received_def)
  have len_p: "length p \<le> upd_len hdr" using len by simp
  note cross = cross_flash_received [OF ok wf rec f len_p]
  note facts = image_facts [OF ok]
  have cl: "currentlen (sched s) = ?cl" "updated_len f = length p" "length w = INSIDE_FLS_SECTOR_SIZE"
      "take ?cl w = drop ?q p" "contents (fdev s) = put_image m hdr fsize (take ?q p)"
    using rec f w by (auto simp: received_def)
  have cl_lt: "?cl < INSIDE_FLS_SECTOR_SIZE" by simp
  have rest_lt: "?rest < INSIDE_FLS_SECTOR_SIZE" using c(3) cl_lt by linarith
  have split_c: "length c = ?k + ?rest" using c cl_lt by linarith
  have q': "flushed (p @ c) = ?q + INSIDE_FLS_SECTOR_SIZE" "length (p @ c) mod INSIDE_FLS_SECTOR_SIZE = ?rest"
  proof -
    have "length (p @ c) = (length p div 4096 + 1) * 4096 + ?rest" using split_c flushed_facts(3) [of p] cl_lt
      by (simp add: flushed_def)
    then have "length (p @ c) div 4096 = length p div 4096 + 1" "length (p @ c) mod 4096 = ?rest"
      using rest_lt by (simp_all only: div_mult_self3 mod_mult_self3) auto
    then show "flushed (p @ c) = ?q + INSIDE_FLS_SECTOR_SIZE" "length (p @ c) mod INSIDE_FLS_SECTOR_SIZE = ?rest"
      by (simp_all add: flushed_def)
  qed
  define w1 where "w1 = patch w ?cl (take ?k c)"
  have w1: "w1 = drop ?q p @ take ?k c" "length w1 = INSIDE_FLS_SECTOR_SIZE"
    unfolding w1_def cl(4) [symmetric] using cl(3) split_c cl_lt by (simp_all add: patch_def)
  define w2 where "w2 = patch w1 0 (drop ?k c)"
  have lr: "length (drop ?k c) = ?rest" using split_c by (simp only: length_drop)
  have w2: "take ?rest w2 = drop ?k c" "length w2 = INSIDE_FLS_SECTOR_SIZE"
    using w1(2) rest_lt lr by (simp_all only: w2_def length_patch) (simp_all add: patch_def del: length_drop)
  let ?a = "place hdr fsize ?q"
  have pre: "take (flushed (p @ c)) (p @ c) = take ?q p @ w1" "drop (flushed (p @ c)) (p @ c) = drop ?k c"
  proof -
    have "?q + INSIDE_FLS_SECTOR_SIZE = length p + ?k" using flushed_facts(3) [of p] cl_lt by linarith
    then have "take (flushed (p @ c)) (p @ c) = p @ take ?k c" "drop (flushed (p @ c)) (p @ c) = drop ?k c"
      by (simp_all add: q'(1))
    then show "take (flushed (p @ c)) (p @ c) = take ?q p @ w1" "drop (flushed (p @ c)) (p @ c) = drop ?k c"
      by (simp_all add: w1(1))
  qed
  have q_len: "?q + INSIDE_FLS_SECTOR_SIZE \<le> upd_len hdr"
    using flushed_facts(1) [of "p @ c"] q'(1) len by simp
  have acc: "accessible ?a INSIDE_FLS_SECTOR_SIZE"
    by (rule place_accessible [OF ok _ _ q_len flushed_facts(2)]) simp_all
  obtain d where d: "fls_write fo ?a (Some w1) INSIDE_FLS_SECTOR_SIZE (fdev s) = Some (TLS_FLS_STATUS_OK, d)" "wf d"
      "contents d = mem_upd (put_image m hdr fsize (take ?q p)) ?a w1"
    using wrE [OF wf acc, of w1] w1(2) cl(5) by auto
  have put: "contents d = put_image m hdr fsize (take (flushed (p @ c)) (p @ c))"
  proof -
    have "jump_at hdr \<le> ?q \<or> ?q + INSIDE_FLS_SECTOR_SIZE \<le> jump_at hdr"
      using sector_div [OF flushed_facts(2) facts(5)] by blast
    then show ?thesis
      unfolding d(3) pre(1)
      using put_image_append [of hdr "take ?q p" w1 m fsize] w1(2) flushed_facts(1) [of p] by (cases "w1 = []") auto
  qed
  let ?X = "crossed hdr fsize ?q"
  let ?sc = "(sched s)\<lparr>isacrossflash := ?X, currentlen := ?rest\<rparr>"
  let ?g = "f\<lparr>program_base := if ?X then FLASH_1M_END_ADDR else upd_base hdr,
      program_offset := (if ?X then ?q - jump_at hdr else ?q) + INSIDE_FLS_SECTOR_SIZE, updated_len := length p + length c\<rparr>"
  let ?s' = "s\<lparr>fwupwritebuffer := Some w2, sched := ?sc, fwup := Some ?g, fdev := d\<rparr>"
  let ?off = "if ?X then ?q - jump_at hdr else ?q"
  have off: "?off div INSIDE_FLS_SECTOR_SIZE * INSIDE_FLS_SECTOR_SIZE = ?off"
    using flushed_facts(2) [of p] facts(5) by (auto simp: crossed_def mod_eq_0_iff_dvd)
  have addr: "add32 (if ?X then FLASH_1M_END_ADDR else upd_base hdr) ?off = ?a"
    using place_32 [OF ok, of ?q] q_len by (simp add: place_crossed)
  have "fwup_write_stage fo r c w s = Some (True, r, ?s')"
  proof -
    have no: "\<not> ?cl + length c < INSIDE_FLS_SECTOR_SIZE" and sum: "add32 ?cl (length c) = ?cl + length c"
      using c(2,3) cl_lt by (simp_all add: not_less)
    have k: "sub32 INSIDE_FLS_SECTOR_SIZE ?cl = ?k" "sub32 (?cl + length c) INSIDE_FLS_SECTOR_SIZE = ?rest"
      using cl_lt c(2,3) by simp_all
    have src: "buf_get c 0 ?k = Some (take ?k c)" "buf_get c ?k ?rest = Some (drop ?k c)"
    proof -
      have le: "0 + ?k \<le> length c" "?k + ?rest \<le> length c" using c(2) split_c by linarith+
      show "buf_get c 0 ?k = Some (take ?k c)" by (simp only: buf_get_ok [OF le(1)] slice_def drop_0)
      show "buf_get c ?k ?rest = Some (drop ?k c)"
        by (simp only: buf_get_ok [OF le(2)] slice_def) (simp only: lr [symmetric] take_all_iff order_refl simp_thms take_all)
    qed
    have put1: "buf_put w ?cl (take ?k c) = Some w1" using cl(3) split_c cl_lt by (simp add: w1_def)
    have put2: "buf_put w1 0 (drop ?k c) = Some w2" using w1(2) lr rest_lt by (simp add: w2_def)
    have o32: "add32 ?off INSIDE_FLS_SECTOR_SIZE = ?off + INSIDE_FLS_SECTOR_SIZE" "add32 (length p) (length c) = length p + length c"
      using q_len len facts(7) by simp_all
    show ?thesis
      by (simp add: fwup_write_stage_def Let_def cl(1) c(1) [symmetric] no cross src k sum put1 off addr d(1) put2 upd_ctl_def
          o32 cl(2) del: add32_small sub32_small if_split)
  qed
  moreover have "received contents fsize m hdr (p @ c) ?s'"
  proof -
    have X: "?X = (crosses hdr fsize \<and> jump_at hdr < flushed (p @ c))"
      using sector_div [OF flushed_facts(2) facts(5), of p] q'(1) by (fastforce simp: crossed_def)
    have off': "?off + INSIDE_FLS_SECTOR_SIZE = (if ?X then flushed (p @ c) - jump_at hdr else flushed (p @ c))"
      using q'(1) by (auto simp: crossed_def)
    show ?thesis
      unfolding received_def
      using rec f w2 put q'(2) pre(2) by (simp add: off' X [symmetric]) (auto simp: received_def no_error_def)
  qed
  ultimately show ?thesis using f d(2) by fastforce
qed

lemma write_stage:
  assumes ok: "header_ok run hdr fsize" "image_fits hdr fsize" and wf: "wf (fdev s)"
    and rec: "received contents fsize m hdr p s" and w: "fwupwritebuffer s = Some w" and f: "fwup s = Some f"
    and c: "length c = rq_data_len r" "length c \<le> INSIDE_FLS_SECTOR_SIZE"
    and len: "length p + length c \<le> upd_len hdr"
  shows "\<exists>s' g. fwup_write_stage fo r c w s = Some (True, r, s') \<and> wf (fdev s') \<and> fwup s' = Some g \<and>
    received_len g = received_len f \<and> received contents fsize m hdr (p @ c) s'"
proof (cases "length p mod INSIDE_FLS_SECTOR_SIZE + length c < INSIDE_FLS_SECTOR_SIZE")
  case True
  then show ?thesis
    using write_stage_buffer [OF ok rec w c(1) True len] wf f by (auto simp del: fwup_state.update_convs)
next
  case False
  then show ?thesis
    using write_stage_flush [OF ok wf rec w c(1) _ c(2) len] f by (auto simp: not_less simp del: fwup_state.update_convs)
qed

section \<open>The end of an image\<close>

lemma last_sector:
  assumes ok: "header_ok run hdr fsize" "image_fits hdr fsize" and part: "upd_len hdr mod INSIDE_FLS_SECTOR_SIZE \<noteq> 0"
    and wf: "wf (fdev s)"
    and rec: "received contents fsize m hdr p s" and len: "length p = upd_len hdr" and f: "fwup s = Some f"
  shows "\<exists>d g. fwup_last_sector fo r s = Some (True, r, s\<lparr>sched := (sched s)\<lparr>isacrossflash := crossed hdr fsize (flushed p)\<rparr>,
      fwup := Some g, fdev := d\<rparr>) \<and> wf d \<and> contents d = put_image m hdr fsize p \<and>
    received_len g = received_len f \<and> updated_len g = length p \<and> total_len g = length p \<and> current_state g = current_state f"
proof -
  let ?q = "flushed p" and ?X = "crossed hdr fsize (flushed p)"
  let ?cl = "length p mod INSIDE_FLS_SECTOR_SIZE"
  note facts = image_facts [OF ok]
  have len_p: "length p \<le> upd_len hdr" using len by simp
  note cross = cross_flash_received [OF ok wf rec f len_p]
  obtain w where w: "fwupwritebuffer s = Some w" "length w = INSIDE_FLS_SECTOR_SIZE" "take ?cl w = drop ?q p"
      "contents (fdev s) = put_image m hdr fsize (take ?q p)" "currentlen (sched s) = ?cl"
      "updated_len f = length p" "total_len f = length p"
      "program_offset f = (if crosses hdr fsize \<and> jump_at hdr < ?q then ?q - jump_at hdr else ?q)"
    using rec f len by (auto simp: received_def)
  have cl: "0 < ?cl" "?cl \<le> INSIDE_FLS_SECTOR_SIZE" using part len by auto
  have po: "program_offset f \<le> updated_len f" using w flushed_facts(1) [of p] by auto
  have addr: "add32 (if ?X then FLASH_1M_END_ADDR else upd_base hdr) (if ?X then ?q - jump_at hdr else ?q) = place hdr fsize ?q"
    using place_32 [OF ok, of ?q] flushed_facts(1) [of p] len by (simp add: place_crossed)
  have acc: "accessible (place hdr fsize ?q) ?cl"
    by (rule place_accessible [OF ok cl _ flushed_facts(2)]) (use len flushed_facts(3) [of p] in linarith)
  obtain d where d: "fls_write fo (place hdr fsize ?q) (Some w) ?cl (fdev s) = Some (TLS_FLS_STATUS_OK, d)" "wf d"
      "contents d = mem_upd (put_image m hdr fsize (take ?q p)) (place hdr fsize ?q) (drop ?q p)"
    using wrE [OF wf acc, of w] w cl(2) by auto
  have put: "contents d = put_image m hdr fsize p"
  proof -
    have "length (drop ?q p) = ?cl" using flushed_facts(3) [of p] by simp
    then have "jump_at hdr \<le> ?q \<or> ?q + length (drop ?q p) \<le> jump_at hdr"
      using sector_div [OF flushed_facts(2) facts(5), of p] cl(2) by linarith
    moreover have "drop ?q p \<noteq> []" using w(3) cl w(2) by (metis length_take min.absorb2 list.size(3) less_irrefl)
    ultimately show ?thesis
      using put_image_append [of hdr "take ?q p" "drop ?q p" m fsize] flushed_facts(1) [of p] by (simp add: d(3))
  qed
  show ?thesis
    using po w(1,5-7) cross addr d(1,2) put f
    by (intro exI [of _ d] exI [of _ "f\<lparr>program_base := if ?X then FLASH_1M_END_ADDR else upd_base hdr,
        program_offset := if ?X then ?q - jump_at hdr else ?q\<rparr>"])
      (simp add: fwup_last_sector_def Let_def del: add32_small if_split)
qed

text \<open>After an image of whole sectors the write buffer is empty, and the driver refuses to write nothing.\<close>

lemma last_sector_whole:
  assumes ok: "header_ok run hdr fsize" "image_fits hdr fsize" and part: "upd_len hdr mod INSIDE_FLS_SECTOR_SIZE = 0"
    and wf: "wf (fdev s)"
    and rec: "received contents fsize m hdr p s" and len: "length p = upd_len hdr" and f: "fwup s = Some f"
  shows "\<exists>s' g. fwup_last_sector fo r s = Some (False, r\<lparr>rq_status := TLS_FWUP_REQ_STATUS_FIO\<rparr>, s') \<and> fdev s' = fdev s \<and>
    contents (fdev s) = put_image m hdr fsize p \<and> fwup s' = Some g \<and> updated_len g = length p \<and> total_len g = length p \<and>
    current_state g AND TLS_FWUP_STATE_ERROR_IO \<noteq> 0"
proof -
  let ?X = "crossed hdr fsize (flushed p)"
  note facts = image_facts [OF ok]
  have len_p: "length p \<le> upd_len hdr" using len by simp
  note cross = cross_flash_received [OF ok wf rec f len_p]
  have q: "flushed p = length p" using part len by (auto simp: flushed_def)
  obtain w where w: "fwupwritebuffer s = Some w" "contents (fdev s) = put_image m hdr fsize p" "currentlen (sched s) = 0"
      "updated_len f = length p" "total_len f = length p"
      "program_offset f = (if crosses hdr fsize \<and> jump_at hdr < flushed p then flushed p - jump_at hdr else flushed p)"
    using rec f len part q by (auto simp: received_def simp del: if_split)
  have po: "program_offset f \<le> updated_len f" using w(4,6) q by simp
  have addr: "add32 (if ?X then FLASH_1M_END_ADDR else upd_base hdr) (if ?X then flushed p - jump_at hdr else flushed p) =
      place hdr fsize (flushed p)"
    using place_32 [OF ok, of "flushed p"] flushed_facts(1) [of p] len by (simp add: place_crossed)
  have "FLASH_BASE_ADDR \<le> place hdr fsize (flushed p)" "place hdr fsize (flushed p) < FLASH_1M_END_ADDR \<or>
      fsize = 0x200000 \<and> place hdr fsize (flushed p) \<le> FLASH_BASE_ADDR + fsize"
    using facts(1,4,6) q len site by (auto simp: place_def crosses_def)
  from write_nothing [OF wf this, of w]
  show ?thesis
    using w(1-5) po cross addr f by (simp add: fwup_last_sector_def Let_def add_state_def upd_ctl_def or_and_self del: add32_small if_split)
qed

lemma crc_sector_ok:
  assumes wf: "wf (fdev s)" and w: "fwupwritebuffer s = Some w" "length w = INSIDE_FLS_SECTOR_SIZE"
    and acc: "accessible a n" and n: "n \<le> INSIDE_FLS_SECTOR_SIZE"
    and ctx: "ctx_type ctx = CRYPTO_CRC_TYPE_32" "ctx_mode ctx = 3"
  shows "\<exists>w' d h. crc_sector fo hw a n ctx s =
      Some (True, ctx\<lparr>ctx_state := foldl crc_byte (ctx_state ctx) (mem_get (contents (fdev s)) a n)\<rparr>,
        s\<lparr>fwupwritebuffer := Some w', fdev := d, crypto := h\<rparr>) \<and>
    length w' = INSIDE_FLS_SECTOR_SIZE \<and> wf d \<and> contents d = contents (fdev s)"
proof -
  let ?b = "mem_get (contents (fdev s)) a n"
  define w' where "w' = patch w 0 ?b"
  obtain d where d: "fls_read fo a (Some w) n (fdev s) = Some (TLS_FLS_STATUS_OK, Some w', d)" "wf d"
      "contents d = contents (fdev s)"
    using rdE [OF wf acc, of w] w n by (auto simp: w'_def)
  have w': "length w' = INSIDE_FLS_SECTOR_SIZE" "take n w' = ?b" using w n by (simp_all add: w'_def patch_def)
  have "fst (tls_crypto_crc_update hw ctx w' n (crypto s)) = ctx\<lparr>ctx_state := foldl crc_byte (ctx_state ctx) ?b\<rparr>"
    using update_32 [OF ctx, of n w'] w' n by simp
  then obtain h where "tls_crypto_crc_update hw ctx w' n (crypto s) = (ctx\<lparr>ctx_state := foldl crc_byte (ctx_state ctx) ?b\<rparr>, h)"
    by (cases "tls_crypto_crc_update hw ctx w' n (crypto s)") simp
  then show ?thesis using d w w' by (auto simp: crc_sector_def Let_def)
qed

lemma crc_region_ok:
  assumes "wf (fdev s)" "fwupwritebuffer s = Some w" "length w = INSIDE_FLS_SECTOR_SIZE"
    and "\<And>o' n. \<lbrakk>offset \<le> o'; 0 < n; n \<le> INSIDE_FLS_SECTOR_SIZE; o' + n \<le> offset + left\<rbrakk> \<Longrightarrow> accessible (base + o') n"
    and "base + offset + left < 2 ^ 32" "ctx_type ctx = CRYPTO_CRC_TYPE_32" "ctx_mode ctx = 3"
  shows "\<exists>w' d h. crc_region fo hw base offset left ctx s =
      Some (True, ctx\<lparr>ctx_state := foldl crc_byte (ctx_state ctx) (mem_get (contents (fdev s)) (base + offset) left)\<rparr>,
        offset + left, s\<lparr>fwupwritebuffer := Some w', fdev := d, crypto := h\<rparr>) \<and>
    length w' = INSIDE_FLS_SECTOR_SIZE \<and> wf d \<and> contents d = contents (fdev s)"
  using assms
proof (induction left arbitrary: offset ctx s w rule: less_induct)
  case (less left)
  show ?case
  proof (cases "left = 0")
    case True
    have "s = s\<lparr>fwupwritebuffer := Some w, fdev := fdev s, crypto := crypto s\<rparr>" using less.prems(2) by simp
    then show ?thesis using True less.prems by (auto simp: crc_region.simps intro!: exI [of _ w] exI [of _ "fdev s"] exI [of _ "crypto s"])
  next
    case False
    define n where "n = (if left > INSIDE_FLS_SECTOR_SIZE then INSIDE_FLS_SECTOR_SIZE else left)"
    have n: "0 < n" "n \<le> INSIDE_FLS_SECTOR_SIZE" "n \<le> left" using False by (auto simp: n_def)
    have acc: "accessible (base + offset) n" using less.prems(4) n by simp
    let ?c = "\<lambda>k. ctx\<lparr>ctx_state := foldl crc_byte (ctx_state ctx) (mem_get (contents (fdev s)) (base + offset) k)\<rparr>"
    obtain w1 d1 h1 where st: "crc_sector fo hw (base + offset) n ctx s =
          Some (True, ?c n, s\<lparr>fwupwritebuffer := Some w1, fdev := d1, crypto := h1\<rparr>)"
        "length w1 = INSIDE_FLS_SECTOR_SIZE" "wf d1" "contents d1 = contents (fdev s)"
      using crc_sector_ok [OF less.prems(1-3) acc n(2) less.prems(6,7)] by blast
    let ?s1 = "s\<lparr>fwupwritebuffer := Some w1, fdev := d1, crypto := h1\<rparr>"
    have "\<exists>w' d h. crc_region fo hw base (offset + n) (left - n) (?c n) ?s1 =
        Some (True, (?c n)\<lparr>ctx_state := foldl crc_byte (ctx_state (?c n)) (mem_get (contents (fdev ?s1)) (base + (offset + n)) (left - n))\<rparr>,
          offset + n + (left - n), ?s1\<lparr>fwupwritebuffer := Some w', fdev := d, crypto := h\<rparr>) \<and>
      length w' = INSIDE_FLS_SECTOR_SIZE \<and> wf d \<and> contents d = contents (fdev ?s1)"
      by (rule less.IH [where w = w1]) (use n st less.prems in auto)
    moreover have "mem_get (contents (fdev s)) (base + offset) left =
        mem_get (contents (fdev s)) (base + offset) n @ mem_get (contents (fdev s)) (base + (offset + n)) (left - n)"
      using n(3) mem_get_add [of "contents (fdev s)" "base + offset" n "left - n"] by (simp add: add.assoc)
    moreover have "crc_region fo hw base offset left ctx s = crc_region fo hw base (offset + n) (left - n) (?c n) ?s1"
      using False st(1) less.prems(5) n(3) by (subst crc_region.simps) (simp add: n_def [symmetric] Let_def)
    ultimately show ?thesis using n(3) st(4) by auto
  qed
qed

text \<open>What is read back is the image, in one or two stretches.\<close>

lemma put_image_read:
  assumes "header_ok run hdr fsize" "image_fits hdr fsize" "length p = upd_len hdr"
  shows "\<not> crossed hdr fsize (flushed p) \<Longrightarrow> mem_get (put_image m hdr fsize p) (upd_base hdr) (length p) = p"
    and "crossed hdr fsize (flushed p) \<Longrightarrow> jump_at hdr \<le> length p \<and>
      mem_get (put_image m hdr fsize p) (upd_base hdr) (jump_at hdr) = take (jump_at hdr) p \<and>
      mem_get (put_image m hdr fsize p) FLASH_1M_END_ADDR (length p - jump_at hdr) = drop (jump_at hdr) p"
proof -
  note facts = image_facts [OF assms(1,2)]
  assume no: "\<not> crossed hdr fsize (flushed p)"
  show "mem_get (put_image m hdr fsize p) (upd_base hdr) (length p) = p"
  proof (cases "crosses hdr fsize")
    case True
    then have "\<not> jump_at hdr \<le> flushed p" using no by (simp add: crossed_def)
    then have "length p \<le> jump_at hdr"
      using sector_div [OF flushed_facts(2) facts(5), of p] flushed_facts(3) [of p] mod_less_divisor [of 4096 "length p"]
      by linarith
    then show ?thesis using True mem_get_upd_same [of m "upd_base hdr" p] by (simp add: put_image_def)
  next
    case False
    then show ?thesis using mem_get_upd_same [of m "upd_base hdr" p] by (simp add: put_image_def)
  qed
next
  note facts = image_facts [OF assms(1,2)]
  assume "crossed hdr fsize (flushed p)"
  then have x: "crosses hdr fsize" "jump_at hdr \<le> length p"
    using flushed_facts(1) [of p] by (auto simp: crossed_def)
  let ?m1 = "mem_upd m (upd_base hdr) (take (jump_at hdr) p)"
  have "mem_get (mem_upd ?m1 FLASH_1M_END_ADDR (drop (jump_at hdr) p)) (upd_base hdr) (jump_at hdr) =
      mem_get ?m1 (upd_base hdr) (jump_at hdr)"
    using facts(6) [OF x(1)] by (intro mem_get_upd_other) simp
  moreover have "mem_get ?m1 (upd_base hdr) (jump_at hdr) = take (jump_at hdr) p"
    using mem_get_upd_same [of m "upd_base hdr" "take (jump_at hdr) p"] x(2) by simp
  moreover have "mem_get (mem_upd ?m1 FLASH_1M_END_ADDR (drop (jump_at hdr) p)) FLASH_1M_END_ADDR (length p - jump_at hdr) =
      drop (jump_at hdr) p"
    using mem_get_upd_same [of ?m1 FLASH_1M_END_ADDR "drop (jump_at hdr) p"] by simp
  ultimately show "jump_at hdr \<le> length p \<and>
      mem_get (put_image m hdr fsize p) (upd_base hdr) (jump_at hdr) = take (jump_at hdr) p \<and>
      mem_get (put_image m hdr fsize p) FLASH_1M_END_ADDR (length p - jump_at hdr) = drop (jump_at hdr) p"
    using x by (simp add: put_image_def)
qed

lemma image_crc_ok:
  assumes ok: "header_ok run hdr fsize" "image_fits hdr fsize" and wf: "wf (fdev s)"
    and mem: "contents (fdev s) = put_image m hdr fsize p" and len: "length p = upd_len hdr"
    and f: "fwup s = Some f" "total_len f = length p" and w: "fwupwritebuffer s = Some w" "length w = INSIDE_FLS_SECTOR_SIZE"
    and sc: "booter (sched s) = hdr" "isacrossflash (sched s) = crossed hdr fsize (flushed p)"
  shows "\<exists>s' b. fwup_image_crc fo hw s = Some (True, tls_crypto_crc_init (image_crc p) CRYPTO_CRC_TYPE_32 3, s') \<and>
    wf (fdev s') \<and> contents (fdev s') = contents (fdev s) \<and> fwup s' = Some (f\<lparr>program_base := b\<rparr>) \<and>
    sched s' = sched s \<and> imgheader s' = imgheader s \<and> env s' = env s"
proof -
  note facts = image_facts [OF ok]
  let ?base = "upd_base hdr" and ?i = "tls_crypto_crc_init 0xFFFFFFFF CRYPTO_CRC_TYPE_32 3"
  have i: "ctx_type (tls_crypto_crc_init k t n) = t" "ctx_mode (tls_crypto_crc_init k t n) = n"
    "ctx_state (tls_crypto_crc_init k t n) = k" "(tls_crypto_crc_init k t n)\<lparr>ctx_state := c\<rparr> = tls_crypto_crc_init c t n" for k t n c
    by (simp_all add: tls_crypto_crc_init_def)
  let ?s = "s\<lparr>fwup := Some (f\<lparr>program_base := ?base\<rparr>)\<rparr>"
  have up: "upd_ctl (\<lambda>f. f\<lparr>program_base := ?base\<rparr>) s = ?s" using f by (simp add: upd_ctl_def)
  show ?thesis
  proof (cases "crossed hdr fsize (flushed p)")
    case False
    have acc: "accessible (?base + o') n" if "0 < n" "n \<le> INSIDE_FLS_SECTOR_SIZE" "o' + n \<le> 0 + length p" for o' n
    proof (cases "FLASH_1M_END_ADDR \<le> ?base")
      case True
      then show ?thesis using that facts(4) len site by (intro accessible_second) auto
    next
      case below: False
      have "?base + length p < FLASH_1M_END_ADDR"
      proof (cases "crosses hdr fsize")
        case True
        then have "\<not> jump_at hdr \<le> flushed p" using False by (simp add: crossed_def)
        then have "length p \<le> jump_at hdr"
          using sector_div [OF flushed_facts(2) facts(5), of p] flushed_facts(3) [of p] mod_less_divisor [of 4096 "length p"]
          by linarith
        then show ?thesis using facts(6) [OF True] by simp
      next
        case False
        then show ?thesis using below ok(2) len by (auto simp: image_fits_def)
      qed
      then show ?thesis using that facts(1,4) len by (intro accessible_below) auto
    qed
    obtain w' d h where r: "crc_region fo hw ?base 0 (length p) ?i ?s = Some (True,
          ?i\<lparr>ctx_state := foldl crc_byte (ctx_state ?i) (mem_get (contents (fdev ?s)) (?base + 0) (length p))\<rparr>, 0 + length p,
          ?s\<lparr>fwupwritebuffer := Some w', fdev := d, crypto := h\<rparr>)" "wf d" "contents d = contents (fdev ?s)"
      using crc_region_ok [of ?s w 0 "length p" ?base ?i] wf w acc facts(7) len i by auto
    moreover have "mem_get (contents (fdev ?s)) (?base + 0) (length p) = p"
      using put_image_read(1) [OF ok len False] mem by simp
    ultimately show ?thesis
      using False sc f up by (auto simp: fwup_image_crc_def Let_def upd_base_def [symmetric] i image_crc_def)
  next
    case True
    note rd = put_image_read(2) [OF ok len True, of m]
    let ?j = "jump_at hdr"
    have x: "crosses hdr fsize" "fsize = 0x200000" using True by (auto simp: crossed_def crosses_def)
    note end1 = facts(6) [OF x(1)]
    have acc1: "accessible (?base + o') n" if "0 < n" "n \<le> INSIDE_FLS_SECTOR_SIZE" "o' + n \<le> 0 + ?j" for o' n
      using that facts(1) end1 x by (intro accessible_below) auto
    have left: "sub32 (FLASH_1M_END_ADDR - INSIDE_FLS_BLOCK_SIZE) ?base = ?j" using end1 by simp
    obtain w1 d1 h1 where r1: "crc_region fo hw ?base 0 ?j ?i ?s = Some (True,
          ?i\<lparr>ctx_state := foldl crc_byte (ctx_state ?i) (mem_get (contents (fdev ?s)) (?base + 0) ?j)\<rparr>, 0 + ?j,
          ?s\<lparr>fwupwritebuffer := Some w1, fdev := d1, crypto := h1\<rparr>)" "wf d1" "contents d1 = contents (fdev ?s)"
        "length w1 = INSIDE_FLS_SECTOR_SIZE"
      using crc_region_ok [of ?s w 0 ?j ?base ?i] wf w acc1 end1 i by auto
    let ?s1 = "?s\<lparr>fwupwritebuffer := Some w1, fdev := d1, crypto := h1, fwup := Some (f\<lparr>program_base := FLASH_1M_END_ADDR\<rparr>)\<rparr>"
    let ?c1 = "tls_crypto_crc_init (foldl crc_byte 0xFFFFFFFF (take ?j p)) CRYPTO_CRC_TYPE_32 3"
    let ?k = "length p - ?j"
    have acc2: "accessible (FLASH_1M_END_ADDR + o') n" if "0 < n" "n \<le> INSIDE_FLS_SECTOR_SIZE" "o' + n \<le> 0 + ?k" for o' n
      using that facts(4) end1 x len by (intro accessible_second) auto
    have lim: "FLASH_1M_END_ADDR + 0 + ?k < 2 ^ 32" using facts(7) len by simp
    obtain w2 d2 h2 where r2: "crc_region fo hw FLASH_1M_END_ADDR 0 ?k ?c1 ?s1 = Some (True,
          ?c1\<lparr>ctx_state := foldl crc_byte (ctx_state ?c1) (mem_get (contents (fdev ?s1)) (FLASH_1M_END_ADDR + 0) ?k)\<rparr>, 0 + ?k,
          ?s1\<lparr>fwupwritebuffer := Some w2, fdev := d2, crypto := h2\<rparr>)" "wf d2" "contents d2 = contents (fdev ?s1)"
      using crc_region_ok [of ?s1 w1 0 ?k FLASH_1M_END_ADDR ?c1] r1 acc2 lim i by auto
    have m1: "mem_get (contents (fdev ?s)) (?base + 0) ?j = take ?j p"
      and m2: "mem_get (contents (fdev ?s1)) (FLASH_1M_END_ADDR + 0) ?k = drop ?j p"
      using rd mem r1(3) by simp_all
    have total: "sub32 (total_len f) ?j = ?k" using f(2) rd len facts(7) by simp
    have crc: "foldl crc_byte (foldl crc_byte 0xFFFFFFFF (take ?j p)) (drop ?j p) = image_crc p"
      by (simp only: image_crc_def foldl_append [symmetric] append_take_drop_id)
    show ?thesis
      using True sc f up left total r1(1) [unfolded m1] r2 [unfolded m2] crc r1(3)
      by (auto simp: fwup_image_crc_def Let_def upd_base_def [symmetric] upd_ctl_def i simp del: sub32_small)
  qed
qed

end

text \<open>The flash after an image that verifies: the image, and its header with the next number.\<close>

definition installed :: "memory \<Rightarrow> bytes \<Rightarrow> nat \<Rightarrow> layout \<Rightarrow> bytes \<Rightarrow> memory" where
  "installed m hdr fsize l p =
     (let m' = put_image m hdr fsize p;
          run = mem_get m' CODE_RUN_HEADER_ADDR BOOTER_SIZE; upd = mem_get m' (CODE_UPD_HEADER_ADDR l) BOOTER_SIZE
      in mem_upd m' (CODE_UPD_HEADER_ADDR l) (numbered (next_no run upd fsize) hdr))"

text \<open>The end of an update: the image verified and installed, or refused with the header area untouched. An
  image of whole sectors is always refused: nothing is left to write at its end, which the driver takes
  for an invalid call.\<close>

definition verdict :: "bytes \<Rightarrow> bytes \<Rightarrow> int" where
  "verdict hdr p =
     (if length p mod INSIDE_FLS_SECTOR_SIZE = 0 then TLS_FWUP_REQ_STATUS_FIO
      else if image_crc p = upd_checksum hdr then TLS_FWUP_REQ_STATUS_SUCCESS
      else TLS_FWUP_REQ_STATUS_FCRC)"

definition finished ::
    "('d \<Rightarrow> memory) \<Rightarrow> nat \<Rightarrow> layout \<Rightarrow> memory \<Rightarrow> bytes \<Rightarrow> bytes \<Rightarrow> ('d, 'h, 'e, 'z) fwup_state_scheme \<Rightarrow> bool" where
  "finished contents fsize l m hdr p s \<longleftrightarrow>
     (\<exists>f. fwup s = Some f \<and> updated_len f = length p \<and> total_len f = length p \<and>
       (if verdict hdr p = TLS_FWUP_REQ_STATUS_SUCCESS
        then contents (fdev s) = installed m hdr fsize l p \<and> current_state f AND TLS_FWUP_STATE_COMPLETE \<noteq> 0
        else contents (fdev s) = put_image m hdr fsize p \<and>
          current_state f AND (if verdict hdr p = TLS_FWUP_REQ_STATUS_FIO then TLS_FWUP_STATE_ERROR_IO else TLS_FWUP_STATE_ERROR_CRC) \<noteq> 0))"

context fwup_site
begin

lemma verify_stage_ok:
  assumes ok: "header_ok run hdr fsize" "image_fits hdr fsize" and part: "length p mod INSIDE_FLS_SECTOR_SIZE \<noteq> 0"
    and wf: "wf (fdev s)"
    and mem: "contents (fdev s) = put_image m hdr fsize p" and len: "length p = upd_len hdr" "length hdr = BOOTER_SIZE"
    and f: "fwup s = Some f" "total_len f = length p" "updated_len f = length p"
    and w: "fwupwritebuffer s = Some w" "length w = INSIDE_FLS_SECTOR_SIZE"
    and sc: "booter (sched s) = hdr" "isacrossflash (sched s) = crossed hdr fsize (flushed p)" "org_checksum (sched s) = upd_checksum hdr"
    and ih: "length (fst (imgheader s)) = BOOTER_SIZE" "length (snd (imgheader s)) = BOOTER_SIZE"
  shows "\<exists>s'. fwup_verify_stage fo hw eo l r s = Some (if verdict hdr p = TLS_FWUP_REQ_STATUS_SUCCESS then (True, r, s')
      else (False, r\<lparr>rq_status := verdict hdr p\<rparr>, s')) \<and> wf (fdev s') \<and> finished contents fsize l m hdr p s'"
proof -
  obtain t b where t: "fwup_image_crc fo hw s = Some (True, tls_crypto_crc_init (image_crc p) CRYPTO_CRC_TYPE_32 3, t)"
      "wf (fdev t)" "contents (fdev t) = contents (fdev s)" "fwup t = Some (f\<lparr>program_base := b\<rparr>)"
      "sched t = sched s" "imgheader t = imgheader s"
    using image_crc_ok [OF ok wf mem len(1) f(1,2) w sc(1,2)] by blast
  have fin: "tls_crypto_crc_final (tls_crypto_crc_init c CRYPTO_CRC_TYPE_32 3) = c" for c
    by (simp add: tls_crypto_crc_final_def tls_crypto_crc_init_def)
  have vt: "image_crc p = upd_checksum hdr \<Longrightarrow> verdict hdr p = TLS_FWUP_REQ_STATUS_SUCCESS"
    and vf: "image_crc p \<noteq> upd_checksum hdr \<Longrightarrow> verdict hdr p = TLS_FWUP_REQ_STATUS_FCRC"
    using part by (simp_all add: verdict_def)
  show ?thesis
  proof (cases "image_crc p = upd_checksum hdr")
    case True
    let ?run = "mem_get (contents (fdev t)) CODE_RUN_HEADER_ADDR BOOTER_SIZE"
    let ?upd = "mem_get (contents (fdev t)) (CODE_UPD_HEADER_ADDR l) BOOTER_SIZE"
    obtain h d where u: "tls_fwup_img_update_header fo hw l hdr t = Some (numbered (next_no ?run ?upd fsize) hdr,
          t\<lparr>imgheader := (?run, ?upd), crypto := h, fdev := d\<rparr>)" "wf d"
        "contents d = mem_upd (contents (fdev t)) (CODE_UPD_HEADER_ADDR l) (numbered (next_no ?run ?upd fsize) hdr)"
      using update_header [of t hdr] t ih len(2) by auto
    have inst: "contents d = installed m hdr fsize l p" using u(3) t(3) mem by (simp add: installed_def Let_def)
    show ?thesis
      using t u(1,2) inst True f sc
      by (auto simp: fwup_verify_stage_def Let_def fin finished_def add_state_def upd_ctl_def or_and_self vt)
  next
    case False
    then show ?thesis
      using t f sc mem
      by (auto simp: fwup_verify_stage_def fin finished_def add_state_def upd_ctl_def or_and_self vf)
  qed
qed

lemma data_stage_more:
  assumes ok: "header_ok run hdr fsize" "image_fits hdr fsize" and wf: "wf (fdev s)"
    and rec: "received contents fsize m hdr p s" and f: "fwup s = Some f"
    and c: "length c = rq_data_len r" "length c \<le> INSIDE_FLS_SECTOR_SIZE"
    and len: "length p + length c < upd_len hdr"
  shows "\<exists>s' g. fwup_data_stage fo hw eo l r (Some c) s = Some (True, r, s') \<and> wf (fdev s') \<and> fwup s' = Some g \<and>
    received_len g = received_len f \<and> received contents fsize m hdr (p @ c) s'"
proof -
  obtain w where w: "fwupwritebuffer s = Some w" using rec by (auto simp: received_def)
  show ?thesis
  proof (cases "c = []")
    case True
    then show ?thesis using w wf f rec c by (simp add: fwup_data_stage_def)
  next
    case False
    obtain t g where t: "fwup_write_stage fo r c w s = Some (True, r, t)" "wf (fdev t)" "fwup t = Some g"
        "received_len g = received_len f" "received contents fsize m hdr (p @ c) t"
      using write_stage [OF ok wf rec w f c] len by auto
    have "updated_len g = length p + length c" "total_len g = upd_len hdr" using t(3,5) by (auto simp: received_def)
    then show ?thesis using t w False c len by (auto simp: fwup_data_stage_def)
  qed
qed

lemma data_stage_end:
  assumes ok: "header_ok run hdr fsize" "image_fits hdr fsize" and wf: "wf (fdev s)" and hdr: "length hdr = BOOTER_SIZE"
    and rec: "received contents fsize m hdr p s" and f: "fwup s = Some f"
    and c: "length c = rq_data_len r" "length c \<le> INSIDE_FLS_SECTOR_SIZE" "c \<noteq> []"
    and len: "length p + length c = upd_len hdr"
  shows "\<exists>s'. fwup_data_stage fo hw eo l r (Some c) s = Some (if verdict hdr (p @ c) = TLS_FWUP_REQ_STATUS_SUCCESS then (True, r, s')
      else (False, r\<lparr>rq_status := verdict hdr (p @ c)\<rparr>, s')) \<and> wf (fdev s') \<and> finished contents fsize l m hdr (p @ c) s'"
proof -
  obtain w where w: "fwupwritebuffer s = Some w" using rec by (auto simp: received_def)
  obtain t g where t: "fwup_write_stage fo r c w s = Some (True, r, t)" "wf (fdev t)" "fwup t = Some g"
      "received contents fsize m hdr (p @ c) t"
    using write_stage [OF ok wf rec w f c(1,2)] len by auto
  have len': "length (p @ c) = upd_len hdr" using len by simp
  have len_t: "updated_len g = length (p @ c)" "total_len g = length (p @ c)" using t(3,4) len' by (auto simp: received_def)
  have cl: "rq_data_len r \<noteq> 0" using c(1,3) by (metis length_0_conv)
  show ?thesis
  proof (cases "upd_len hdr mod INSIDE_FLS_SECTOR_SIZE = 0")
    case True
    then obtain s' h where "fwup_last_sector fo r t = Some (False, r\<lparr>rq_status := TLS_FWUP_REQ_STATUS_FIO\<rparr>, s')" "fdev s' = fdev t"
        "contents (fdev t) = put_image m hdr fsize (p @ c)" "fwup s' = Some h" "updated_len h = length (p @ c)"
        "total_len h = length (p @ c)" "current_state h AND TLS_FWUP_STATE_ERROR_IO \<noteq> 0"
      using last_sector_whole [OF ok True t(2,4) len' t(3), of r] by auto
    moreover have "verdict hdr (p @ c) = TLS_FWUP_REQ_STATUS_FIO" using True len' by (simp add: verdict_def)
    ultimately show ?thesis using t(1-3) w c(3) cl len_t by (simp add: fwup_data_stage_def finished_def)
  next
    case part: False
    obtain d h where d: "fwup_last_sector fo r t = Some (True, r, t\<lparr>sched := (sched t)\<lparr>isacrossflash := crossed hdr fsize (flushed (p @ c))\<rparr>,
          fwup := Some h, fdev := d\<rparr>)" "wf d" "contents d = put_image m hdr fsize (p @ c)"
        "updated_len h = length (p @ c)" "total_len h = length (p @ c)"
      using last_sector [OF ok part t(2,4) len' t(3)] by blast
    let ?t = "t\<lparr>sched := (sched t)\<lparr>isacrossflash := crossed hdr fsize (flushed (p @ c))\<rparr>, fwup := Some h, fdev := d\<rparr>"
    obtain w' where "fwupwritebuffer ?t = Some w'" "length w' = INSIDE_FLS_SECTOR_SIZE"
      using t(4) by (auto simp: received_def)
    then have "\<exists>s'. fwup_verify_stage fo hw eo l r ?t = Some (if verdict hdr (p @ c) = TLS_FWUP_REQ_STATUS_SUCCESS then (True, r, s')
        else (False, r\<lparr>rq_status := verdict hdr (p @ c)\<rparr>, s')) \<and> wf (fdev s') \<and> finished contents fsize l m hdr (p @ c) s'"
      using t(4) d(2-5) part len' hdr by (intro verify_stage_ok [OF ok]) (auto simp: received_def)
    then show ?thesis using t(1,3) d(1) w cl len_t by (auto simp: fwup_data_stage_def)
  qed
qed

end

section \<open>Serving the requests of an update\<close>

text \<open>A session that has just been entered, and one that has received the header and the prefix \<open>p\<close>.\<close>

definition fresh_session :: "('d, 'h, 'e, 'z) fwup_state_scheme \<Rightarrow> bool" where
  "fresh_session s \<longleftrightarrow> (\<exists>f w. fwup s = Some f \<and> fwupwritebuffer s = Some w \<and> length w = INSIDE_FLS_SECTOR_SIZE \<and>
     length (fst (imgheader s)) = BOOTER_SIZE \<and> length (snd (imgheader s)) = BOOTER_SIZE \<and>
     received_len f = 0 \<and> program_offset f = 0 \<and> no_error f \<and> current_image_src f \<le> TLS_FWUP_IMAGE_SRC_WEB)"

definition receiving ::
    "('d \<Rightarrow> memory) \<Rightarrow> nat \<Rightarrow> memory \<Rightarrow> bytes \<Rightarrow> bytes \<Rightarrow> ('d, 'h, 'e, 'z) fwup_state_scheme \<Rightarrow> bool" where
  "receiving contents fsize m hdr p s \<longleftrightarrow> received contents fsize m hdr p s \<and>
     (\<exists>f. fwup s = Some f \<and> received_len f = BOOTER_SIZE + length p \<and> current_image_src f \<le> TLS_FWUP_IMAGE_SRC_WEB)"

lemma received_cong:
  assumes "received contents fsize m hdr p s" "fwup s = Some f" "fwup t = Some g"
    and "fwupwritebuffer t = fwupwritebuffer s" "sched t = sched s" "imgheader t = imgheader s"
      "contents (fdev t) = contents (fdev s)" "no_error g"
    and "program_base g = program_base f" "program_offset g = program_offset f" "updated_len g = updated_len f"
      "total_len g = total_len f"
  shows "received contents fsize m hdr p t"
  using assms unfolding received_def by auto

context fwup_site
begin

lemma header_stage_first:
  assumes wf: "wf (fdev s)" and hdr: "length hdr = BOOTER_SIZE" and new: "fresh_session s" and f: "fwup s = Some f"
    and run: "run = mem_get (contents (fdev s)) CODE_RUN_HEADER_ADDR BOOTER_SIZE" "header_ok run hdr fsize"
    and r: "rq_data r = hdr @ c" "rq_data_len r = BOOTER_SIZE + length c" "length c \<le> INSIDE_FLS_SECTOR_SIZE"
  shows "\<exists>t g. fwup_header_stage fo hw r s = Some (True, r\<lparr>rq_data_len := length c\<rparr>, Some c, t) \<and> wf (fdev t) \<and>
    received contents fsize (contents (fdev s)) hdr [] t \<and> fwup t = Some g \<and> received_len g = BOOTER_SIZE + length c \<and>
    current_image_src g = current_image_src f"
proof -
  have n: "received_len f = 0" "program_offset f = 0" "no_error f" "current_image_src f \<le> TLS_FWUP_IMAGE_SRC_WEB"
    and ih: "length (fst (imgheader s)) = BOOTER_SIZE" "length (snd (imgheader s)) = BOOTER_SIZE"
    using new f by (auto simp: fresh_session_def)
  have b: "buf_get (hdr @ c) 0 BOOTER_SIZE = Some hdr" using hdr by (simp add: slice_def)
  let ?s1 = "s\<lparr>fwup := Some (f\<lparr>received_len := BOOTER_SIZE\<rparr>), sched := (sched s)\<lparr>booter := hdr\<rparr>\<rparr>"
  obtain h d i where chk: "tls_fwup_img_header_check fo hw hdr ?s1 = Some (True,
        ?s1\<lparr>crypto := h, fdev := d, imgheader := (i, snd (imgheader s))\<rparr>)" "wf d" "contents d = contents (fdev s)"
      "length i = BOOTER_SIZE"
    using header_check [of ?s1 hdr] wf hdr ih run by auto
  have type: "img_type hdr = IMG_TYPE_OLD_PLAIN \<or> img_type hdr = IMG_TYPE_NEW_PLAIN" using run(2) by (auto simp: header_ok_def)
  let ?r = "r\<lparr>rq_data_len := length c\<rparr>"
  let ?t = "start_image hdr (?s1\<lparr>crypto := h, fdev := d, imgheader := (i, snd (imgheader s))\<rparr>)"
  have take: "fwup_take_header fo hw f r s = Some (True, ?r, c, ?t)"
    using n(1) r hdr b chk(1) type by (simp add: fwup_take_header_def Let_def)
  let ?g = "\<lambda>k. f\<lparr>received_len := k, program_base := upd_base hdr, total_len := upd_len hdr, updated_len := 0\<rparr>"
  have t: "fwup ?t = Some (?g BOOTER_SIZE)" by (simp add: start_image_def upd_ctl_def upd_base_def upd_len_def)
  let ?u = "upd_ctl (\<lambda>f. f\<lparr>received_len := add32 (received_len f) (length c)\<rparr>) ?t"
  have "fwup_header_stage fo hw r s = Some (True, ?r, Some c, ?u)"
    using n(1,4) f take by (simp add: fwup_header_stage_def)
  moreover have u: "fwup ?u = Some (?g (BOOTER_SIZE + length c))" using t r(3) by (simp add: upd_ctl_def)
  moreover have "received contents fsize (contents (fdev s)) hdr [] ?u"
    unfolding received_def using u new chk(3,4) n ih
    by (auto simp: fresh_session_def start_image_def upd_ctl_def flushed_def no_error_def upd_base_def upd_len_def)
  moreover have "wf (fdev ?u)" using chk(2) by (simp add: start_image_def upd_ctl_def)
  ultimately show ?thesis by auto
qed

lemma header_stage_next:
  assumes wf: "wf (fdev s)" and rec: "receiving contents fsize m hdr p s"
    and r: "rq_data r = c" "rq_data_len r = length c" "BOOTER_SIZE + length p + length c < 2 ^ 32"
  shows "\<exists>t g f. fwup_header_stage fo hw r s = Some (True, r, Some c, t) \<and> wf (fdev t) \<and>
    received contents fsize m hdr p t \<and> fwup s = Some f \<and> fwup t = Some g \<and> received_len g = BOOTER_SIZE + length p + length c \<and>
    current_image_src g = current_image_src f"
proof -
  obtain f where f: "fwup s = Some f" "received_len f = BOOTER_SIZE + length p" "current_image_src f \<le> TLS_FWUP_IMAGE_SRC_WEB"
    using rec by (auto simp: receiving_def)
  let ?t = "s\<lparr>fwup := Some (f\<lparr>received_len := BOOTER_SIZE + length p + length c\<rparr>)\<rparr>"
  have "received contents fsize m hdr p ?t"
    using rec f(1) by (auto simp: receiving_def received_def no_error_def)
  moreover have "fwup_header_stage fo hw r s = Some (True, r, Some c, ?t)"
    using f r by (simp add: fwup_header_stage_def upd_ctl_def)
  ultimately show ?thesis using f wf by auto
qed

text \<open>What one more chunk \<open>c\<close> of the image leads to.\<close>

lemma serve_chunk:
  assumes ok: "header_ok run hdr fsize" "image_fits hdr fsize"
    and hdr: "length hdr = BOOTER_SIZE"
    and s: "fwup s = Some f" "no_error f"
    and st: "fwup_header_stage fo hw (r\<lparr>rq_status := TLS_FWUP_REQ_STATUS_BUSY\<rparr>) s = Some (True, r', Some c, t)"
      "wf (fdev t)" "received contents fsize m hdr p t" "fwup t = Some g" "received_len g = BOOTER_SIZE + length p + length c"
      "current_image_src g \<le> TLS_FWUP_IMAGE_SRC_WEB"
    and c: "length c = rq_data_len r'" "length c \<le> INSIDE_FLS_SECTOR_SIZE"
    and len: "length p < upd_len hdr" "length p + length c \<le> upd_len hdr"
  shows "\<exists>r2 s'. fwup_serve fo hw eo l r s = Some (r2, s') \<and> wf (fdev s') \<and>
    (if length (p @ c) < upd_len hdr
     then rq_status r2 = TLS_FWUP_REQ_STATUS_SUCCESS \<and> receiving contents fsize m hdr (p @ c) s'
     else rq_status r2 = verdict hdr (p @ c) \<and> finished contents fsize l m hdr (p @ c) s')"
proof (cases "length (p @ c) < upd_len hdr")
  case True
  then obtain s' h where s': "fwup_data_stage fo hw eo l r' (Some c) t = Some (True, r', s')" "wf (fdev s')" "fwup s' = Some h"
      "received_len h = received_len g" "received contents fsize m hdr (p @ c) s'"
    using data_stage_more [OF ok st(2-4) c, of eo] by auto
  have "same_session g h"
    using data_stage_frame [OF s'(1)] st(4) s'(3) by (simp add: stage_frame_def)
  then have "current_image_src h \<le> TLS_FWUP_IMAGE_SRC_WEB" using st(6) by (simp add: same_session_def)
  then have "receiving contents fsize m hdr (p @ c) s'" using s'(3-5) st(5) by (simp add: receiving_def)
  then show ?thesis
    using True s s'(1,2) st(1) by (auto simp: fwup_serve_def no_error_def)
next
  case False
  then have "length p + length c = upd_len hdr" "c \<noteq> []" using len by auto
  then obtain s' where "fwup_data_stage fo hw eo l r' (Some c) t = Some (if verdict hdr (p @ c) = TLS_FWUP_REQ_STATUS_SUCCESS then (True, r', s')
      else (False, r'\<lparr>rq_status := verdict hdr (p @ c)\<rparr>, s'))" "wf (fdev s')" "finished contents fsize l m hdr (p @ c) s'"
    using data_stage_end [OF ok st(2) hdr st(3,4) c, of eo] by auto
  then show ?thesis
    using False s st(1) by (auto simp: fwup_serve_def no_error_def)
qed

end

section \<open>A client that sends an image\<close>

text \<open>The client of the updater: one call after the other, the results collected.\<close>

fun fwup_deliver ::
    "'d fls_ops \<Rightarrow> 'h crypto_hw \<Rightarrow> 'e env_ops \<Rightarrow> layout \<Rightarrow> u32 \<Rightarrow> bytes list \<Rightarrow> ('d, 'h, 'e, 'z) fwup_state_scheme \<Rightarrow>
     (int list \<times> ('d, 'h, 'e, 'z) fwup_state_scheme) option" where
  "fwup_deliver fo hw eo l sid [] s = Some ([], s)"
| "fwup_deliver fo hw eo l sid (c # cs) s = do {
     (err, s) \<leftarrow> tls_fwup_request_sync fo hw eo l 0 0 sid (Some c) (length c) s;
     (errs, s) \<leftarrow> fwup_deliver fo hw eo l sid cs s;
     Some (err # errs, s)
   }"

text \<open>The session is open, and nothing is under way.\<close>

definition idle_session :: "u32 \<Rightarrow> ('d, 'h, 'e, 'z) fwup_state_scheme \<Rightarrow> bool" where
  "idle_session sid s \<longleftrightarrow> heap s = [] \<and> phase s = Waiting \<and> fwup_msg_queue s = 0 \<and> \<not> rebooted s \<and>
     (\<exists>f. fwup s = Some f \<and> wait_list f = [] \<and> list_lock f = 1 \<and> current_session_id f = sid)"

text \<open>The state in which the task serves the request of such a call.\<close>

definition call_state :: "'e env_ops \<Rightarrow> bytes \<Rightarrow> ('d, 'h, 'e, 'z) fwup_state_scheme \<Rightarrow> ('d, 'h, 'e, 'z) fwup_state_scheme" where
  "call_state eo c s = s\<lparr>requests := (requests s)(0 := \<lparr>rq_data = c, rq_data_len = length c, rq_status = 0, rq_sem = 0\<rparr>),
     env := env_psflag_set eo 0 (env s), phase := Working 0 None,
     fwup := map_option (\<lambda>f. f\<lparr>wait_list := [0], current_state := current_state f OR TLS_FWUP_STATE_BUSY\<rparr>) (fwup s)\<rparr>"

lemma request_sync:
  assumes idle: "idle_session sid s" and c: "c \<noteq> []"
    and serve: "fwup_serve fo hw eo l \<lparr>rq_data = c, rq_data_len = length c, rq_status = 0, rq_sem = 0\<rparr> (call_state eo c s) = Some (r, t)"
    and g: "fwup t = Some g"
  shows "\<exists>s'. tls_fwup_request_sync fo hw eo l 0 0 sid (Some c) (length c) s = Some (sync_status (rq_status r), s') \<and>
    rebooted s' = (updated_len g \<ge> total_len g) \<and> (\<not> rebooted s' \<longrightarrow> idle_session sid s') \<and>
    fdev s' = fdev t \<and> fwupwritebuffer s' = fwupwritebuffer t \<and> sched s' = sched t \<and> imgheader s' = imgheader t \<and>
    fwup s' = Some (g\<lparr>wait_list := [], current_state := current_state g AND NOT TLS_FWUP_STATE_BUSY\<rparr>)"
proof -
  obtain f where f: "fwup s = Some f" "wait_list f = []" "list_lock f = 1" "current_session_id f = sid"
    and s: "heap s = []" "phase s = Waiting" "fwup_msg_queue s = 0" "\<not> rebooted s"
    using idle by (auto simp: idle_session_def)
  let ?q = "\<lparr>rq_data = c, rq_data_len = length c, rq_status = 0, rq_sem = 0\<rparr>"
  let ?s1 = "s\<lparr>requests := (requests s)(0 := ?q), env := env_psflag_set eo 0 (env s),
      fwup := Some (f\<lparr>wait_list := [0]\<rparr>), fwup_msg_queue := 1\<rparr>"
  have sub: "fwup_submit eo 0 0 sid (Some c) (length c) s = Some (Inr TLS_FWUP_STATUS_OK, ?s1)"
    using f s c by (simp add: fwup_submit_def tls_fwup_request_async_def Let_def)
  have rcv: "fwup_scheduler_receive ?s1 = Some (call_state eo c s)"
    using f s by (simp add: fwup_scheduler_receive_def call_state_def add_state_def upd_ctl_def start_on_def)
  have fr: "stage_frame (call_state eo c s) t" using serve by (rule serve_frame)
  then have g': "wait_list g = [0]" "list_lock g = 1" "current_session_id g = sid"
    and t: "heap t = []" "fwup_msg_queue t = 0" "\<not> rebooted t" "phase t = Working 0 None"
    using g f s by (auto simp: stage_frame_def call_state_def same_session_def)
  let ?g = "g\<lparr>wait_list := [], current_state := current_state g AND NOT TLS_FWUP_STATE_BUSY\<rparr>"
  let ?u = "t\<lparr>fwup := Some ?g, requests := (requests t)(0 := fwup_request_complete r)\<rparr>"
  let ?u' = "if updated_len g \<ge> total_len g then ?u\<lparr>env := fwup_update_autoflag eo (env t), rebooted := True\<rparr> else ?u"
  have fin: "fwup_finish eo 0 r t = Some ?u'"
    using g g' by (simp add: fwup_finish_def Let_def)
  have "fwup_scheduler_work fo hw eo l (call_state eo c s) = Some (start_on None ?u')"
    using serve fin s by (simp add: fwup_scheduler_work_def call_state_def)
  then have "fwup_run fo hw eo l (call_state eo c s) = fwup_run fo hw eo l (start_on None ?u')"
    using s by (subst fwup_run.simps) (simp add: call_state_def)
  also have "\<dots> = Some (start_on None ?u')"
    using t by (subst fwup_run.simps) (simp add: start_on_def)
  finally have run: "fwup_run fo hw eo l ?s1 = Some (start_on None ?u')"
    using rcv s by (subst fwup_run.simps) simp
  let ?e = "start_on None ?u'"
  have col: "fwup_collect TLS_FWUP_STATUS_OK 0 ?e = Some (sync_status (rq_status r),
      ?e\<lparr>requests := (requests ?e)(0 := (requests ?e 0)\<lparr>rq_sem := rq_sem r\<rparr>)\<rparr>)"
    by (simp add: fwup_collect_def fwup_request_complete_def)
  show ?thesis
    using sub run col t g' by (auto simp: tls_fwup_request_sync_def idle_session_def start_on_def)
qed

text \<open>\<open>- 2\<close> is the complement of \<open>TLS_FWUP_STATE_BUSY\<close>.\<close>

lemma state_bits:
  "(x OR TLS_FWUP_STATE_BUSY) AND TLS_FWUP_STATE_ERROR = x AND TLS_FWUP_STATE_ERROR"
  "(x OR TLS_FWUP_STATE_BUSY) AND TLS_FWUP_STATE_COMPLETE = x AND TLS_FWUP_STATE_COMPLETE"
  "(x AND - 2) AND TLS_FWUP_STATE_ERROR = x AND TLS_FWUP_STATE_ERROR"
  "(x AND - 2) AND TLS_FWUP_STATE_COMPLETE = x AND TLS_FWUP_STATE_COMPLETE"
  "(x AND - 2) AND TLS_FWUP_STATE_ERROR_CRC = x AND TLS_FWUP_STATE_ERROR_CRC"
  "(x AND - 2) AND TLS_FWUP_STATE_ERROR_IO = x AND TLS_FWUP_STATE_ERROR_IO"
  by (simp_all add: bit.conj_disj_distrib2 and.assoc)

context fwup_site
begin

lemma receiving_call:
  assumes "receiving contents fsize m hdr p s" "fwup s = Some f"
  shows "receiving contents fsize m hdr p (call_state eo c s)"
proof -
  have "received contents fsize m hdr p (call_state eo c s)"
    by (rule received_cong [where s = s and f = f and
          g = "f\<lparr>wait_list := [0], current_state := current_state f OR TLS_FWUP_STATE_BUSY\<rparr>"])
      (use assms in \<open>auto simp: receiving_def call_state_def received_def no_error_def state_bits\<close>)
  then show ?thesis using assms by (auto simp: receiving_def call_state_def)
qed

lemma deliver_step:
  assumes ok: "header_ok run hdr fsize" "image_fits hdr fsize"
    and hdr: "length hdr = BOOTER_SIZE"
    and idle: "idle_session sid s" and cc: "cc \<noteq> []"
    and st: "fwup_header_stage fo hw \<lparr>rq_data = cc, rq_data_len = length cc, rq_status = TLS_FWUP_REQ_STATUS_BUSY, rq_sem = 0\<rparr>
        (call_state eo cc s) = Some (True, r', Some c, t)"
      "wf (fdev t)" "received contents fsize m hdr p t" "fwup t = Some g" "received_len g = BOOTER_SIZE + length p + length c"
      "current_image_src g \<le> TLS_FWUP_IMAGE_SRC_WEB"
    and f: "fwup s = Some f" "no_error f"
    and c: "length c = rq_data_len r'" "length c \<le> INSIDE_FLS_SECTOR_SIZE"
    and len: "length p < upd_len hdr" "length p + length c \<le> upd_len hdr"
  shows "\<exists>err s'. tls_fwup_request_sync fo hw eo l 0 0 sid (Some cc) (length cc) s = Some (err, s') \<and> wf (fdev s') \<and>
    (if length (p @ c) < upd_len hdr
     then err = TLS_FWUP_STATUS_OK \<and> idle_session sid s' \<and> receiving contents fsize m hdr (p @ c) s'
     else err = sync_status (verdict hdr (p @ c)) \<and>
       rebooted s' \<and> finished contents fsize l m hdr (p @ c) s')"
proof -
  let ?r = "\<lparr>rq_data = cc, rq_data_len = length cc, rq_status = 0, rq_sem = 0\<rparr>"
  let ?f = "f\<lparr>wait_list := [0], current_state := current_state f OR TLS_FWUP_STATE_BUSY\<rparr>"
  have cs: "fwup (call_state eo cc s) = Some ?f" "no_error ?f"
    using f by (auto simp: call_state_def no_error_def state_bits)
  obtain r2 u where u: "fwup_serve fo hw eo l ?r (call_state eo cc s) = Some (r2, u)" "wf (fdev u)"
    and res: "if length (p @ c) < upd_len hdr
     then rq_status r2 = TLS_FWUP_REQ_STATUS_SUCCESS \<and> receiving contents fsize m hdr (p @ c) u
     else rq_status r2 = verdict hdr (p @ c) \<and> finished contents fsize l m hdr (p @ c) u"
    using serve_chunk [OF ok hdr cs, of ?r r' c t m p g eo] st c len by auto
  obtain h where h: "fwup u = Some h"
    using serve_frame [OF u(1)] cs(1) by (auto simp: stage_frame_def option_rel_Some1)
  obtain s' where s': "tls_fwup_request_sync fo hw eo l 0 0 sid (Some cc) (length cc) s = Some (sync_status (rq_status r2), s')"
      "rebooted s' = (updated_len h \<ge> total_len h)" "\<not> rebooted s' \<longrightarrow> idle_session sid s'"
      "fdev s' = fdev u" "fwupwritebuffer s' = fwupwritebuffer u" "sched s' = sched u" "imgheader s' = imgheader u"
      "fwup s' = Some (h\<lparr>wait_list := [], current_state := current_state h AND NOT TLS_FWUP_STATE_BUSY\<rparr>)"
    using request_sync [OF idle cc u(1) h] by (elim exE conjE) (rule that; assumption)
  show ?thesis
  proof (cases "length (p @ c) < upd_len hdr")
    case True
    then have rec: "receiving contents fsize m hdr (p @ c) u" "rq_status r2 = TLS_FWUP_REQ_STATUS_SUCCESS"
      using res by (simp_all only: if_True simp_thms)
    then have ne: "no_error h" and ru: "received contents fsize m hdr (p @ c) u"
      using h by (auto simp: receiving_def received_def)
    have "received contents fsize m hdr (p @ c) s'"
      by (rule received_cong [OF ru h s'(8) s'(5,6,7)]) (use ne s'(4) in \<open>simp_all add: no_error_def state_bits\<close>)
    then have "receiving contents fsize m hdr (p @ c) s'" using rec(1) h s'(8) by (auto simp: receiving_def)
    moreover have nr: "\<not> rebooted s'" using rec(1) h s'(2) True by (auto simp: receiving_def received_def)
    moreover have "idle_session sid s'" using nr s'(3) by simp
    ultimately show ?thesis using True rec(2) s'(1,4) u(2) by (simp add: sync_status_def)
  next
    case False
    then have fin: "finished contents fsize l m hdr (p @ c) u"
      "rq_status r2 = verdict hdr (p @ c)"
      using res by (simp_all only: if_False simp_thms)
    then have "finished contents fsize l m hdr (p @ c) s'" "rebooted s'"
      using h s'(2,4,8) by (auto simp: finished_def state_bits split: if_splits)
    then show ?thesis using False fin(2) s'(1,4) u(2) by (simp add: sync_status_def)
  qed
qed

lemma deliver_rest:
  assumes ok: "header_ok run hdr fsize" "image_fits hdr fsize"
    and hdr: "length hdr = BOOTER_SIZE"
    and "wf (fdev s)" "idle_session sid s" "receiving contents fsize m hdr p s"
    and "\<forall>c\<in>set cs. c \<noteq> [] \<and> length c \<le> INSIDE_FLS_SECTOR_SIZE"
    and "length p < upd_len hdr" "length (p @ concat cs) = upd_len hdr"
  shows "\<exists>s'. fwup_deliver fo hw eo l sid cs s = Some (replicate (length cs - 1) TLS_FWUP_STATUS_OK @
      [sync_status (verdict hdr (p @ concat cs))], s') \<and>
    rebooted s' \<and> finished contents fsize l m hdr (p @ concat cs) s'"
  using assms(4-)
proof (induction cs arbitrary: s p)
  case (Cons c cs)
  obtain f where f: "fwup s = Some f" "no_error f" using Cons.prems(3) by (auto simp: receiving_def received_def)
  let ?r = "\<lparr>rq_data = c, rq_data_len = length c, rq_status = TLS_FWUP_REQ_STATUS_BUSY, rq_sem = 0\<rparr>"
  have c: "c \<noteq> []" "length c \<le> INSIDE_FLS_SECTOR_SIZE" "length p + length c \<le> upd_len hdr"
    using Cons.prems(4,6) by auto
  have wf': "wf (fdev (call_state eo c s))" using Cons.prems(1) by (simp add: call_state_def)
  have lim: "BOOTER_SIZE + length p + length c < 2 ^ 32" using image_facts(7) [OF ok] c(3) by simp
  obtain t g f' where st: "fwup_header_stage fo hw ?r (call_state eo c s) = Some (True, ?r, Some c, t)" "wf (fdev t)"
      "received contents fsize m hdr p t" "fwup (call_state eo c s) = Some f'" "fwup t = Some g"
      "received_len g = BOOTER_SIZE + length p + length c" "current_image_src g = current_image_src f'"
    using header_stage_next [OF wf' receiving_call [OF Cons.prems(3) f(1)], of ?r c] lim by auto
  have src: "current_image_src g \<le> TLS_FWUP_IMAGE_SRC_WEB"
    using st(4,7) f(1) Cons.prems(3) by (auto simp: call_state_def receiving_def)
  obtain err s1 where s1: "tls_fwup_request_sync fo hw eo l 0 0 sid (Some c) (length c) s = Some (err, s1)" "wf (fdev s1)"
    and res: "if length (p @ c) < upd_len hdr
     then err = TLS_FWUP_STATUS_OK \<and> idle_session sid s1 \<and> receiving contents fsize m hdr (p @ c) s1
     else err = sync_status (verdict hdr (p @ c)) \<and>
       rebooted s1 \<and> finished contents fsize l m hdr (p @ c) s1"
    using deliver_step [OF ok hdr Cons.prems(2) c(1) st(1-3,5,6) src f _ c(2) Cons.prems(5) c(3)] by auto
  show ?case
  proof (cases "length (p @ c) < upd_len hdr")
    case True
    then have "cs \<noteq> []" using Cons.prems(6) by auto
    moreover have "\<exists>s'. fwup_deliver fo hw eo l sid cs s1 = Some (replicate (length cs - 1) TLS_FWUP_STATUS_OK @
        [sync_status (verdict hdr ((p @ c) @ concat cs))], s') \<and>
      rebooted s' \<and> finished contents fsize l m hdr ((p @ c) @ concat cs) s'"
      by (rule Cons.IH) (use True res s1(2) Cons.prems in auto)
    moreover obtain n where "length cs = Suc n" using \<open>cs \<noteq> []\<close> by (cases cs) auto
    ultimately show ?thesis using True res s1(1) by auto
  next
    case False
    moreover have "length (p @ c) + length (concat cs) = upd_len hdr" using Cons.prems(6) by simp
    ultimately have "length (concat cs) = 0" by linarith
    then have "cs = []" using Cons.prems(4) by (cases cs) auto
    then show ?thesis using False res s1(1) by auto
  qed
qed simp

end

text \<open>What a client has to send: the header and the image in chunks of at most a sector, the header in one
  piece with the beginning of the image, to a session just entered.\<close>

definition update_call ::
    "('d \<Rightarrow> memory) \<Rightarrow> nat \<Rightarrow> u32 \<Rightarrow> bytes \<Rightarrow> bytes \<Rightarrow> bytes list \<Rightarrow> ('d, 'h, 'e, 'z) fwup_state_scheme \<Rightarrow> bool" where
  "update_call contents fsize sid hdr img cs s \<longleftrightarrow>
     idle_session sid s \<and> fresh_session s \<and> length hdr = BOOTER_SIZE \<and>
     header_ok (mem_get (contents (fdev s)) CODE_RUN_HEADER_ADDR BOOTER_SIZE) hdr fsize \<and> image_fits hdr fsize \<and>
     length img = upd_len hdr \<and>
     (\<exists>c rest. cs = (hdr @ c) # rest \<and> length c \<le> INSIDE_FLS_SECTOR_SIZE \<and>
       (\<forall>x\<in>set rest. x \<noteq> [] \<and> length x \<le> INSIDE_FLS_SECTOR_SIZE) \<and> c @ concat rest = img)"

text \<open>The addresses in the two headers do not overflow, and the flash map is the one of the running image.\<close>

definition sane_headers :: "layout \<Rightarrow> bytes \<Rightarrow> bytes \<Rightarrow> bool" where
  "sane_headers l run hdr \<longleftrightarrow> run_end hdr < 2 ^ 32 \<and> run_end run \<le> 0xFFFF0000 \<and>
     (l \<noteq> layout_1M \<longrightarrow> (l = layout_2M_old \<longleftrightarrow> img_type run = IMG_TYPE_OLD_PLAIN))"

context fwup_site
begin

lemma deliver_image:
  assumes wf: "wf (fdev s)" and call: "update_call contents fsize sid hdr img cs s"
  shows "\<exists>s'. fwup_deliver fo hw eo l sid cs s = Some (replicate (length cs - 1) TLS_FWUP_STATUS_OK @
      [sync_status (verdict hdr img)], s') \<and>
    rebooted s' \<and> finished contents fsize l (contents (fdev s)) hdr img s'"
proof -
  obtain c rest where cs: "cs = (hdr @ c) # rest" "length c \<le> INSIDE_FLS_SECTOR_SIZE"
      "\<forall>x\<in>set rest. x \<noteq> [] \<and> length x \<le> INSIDE_FLS_SECTOR_SIZE" "c @ concat rest = img"
    using call by (auto simp: update_call_def)
  let ?m = "contents (fdev s)" and ?cc = "hdr @ c"
  let ?run = "mem_get ?m CODE_RUN_HEADER_ADDR BOOTER_SIZE"
  have idle: "idle_session sid s" and new: "fresh_session s" and hdr: "length hdr = BOOTER_SIZE"
    and ok: "header_ok ?run hdr fsize" "image_fits hdr fsize" and len: "length img = upd_len hdr"
   
    using call by (auto simp: update_call_def)
  have cc: "?cc \<noteq> []" using hdr by auto
  obtain f where f: "fwup s = Some f" "no_error f" "current_image_src f \<le> TLS_FWUP_IMAGE_SRC_WEB"
    using new by (auto simp: fresh_session_def)
  let ?s = "call_state eo ?cc s" and ?f = "f\<lparr>wait_list := [0], current_state := current_state f OR TLS_FWUP_STATE_BUSY\<rparr>"
  let ?r = "\<lparr>rq_data = ?cc, rq_data_len = length ?cc, rq_status = TLS_FWUP_REQ_STATUS_BUSY, rq_sem = 0\<rparr>"
  have cs': "fdev ?s = fdev s" "fwup ?s = Some ?f" "fresh_session ?s"
    using f(1) new by (auto simp: call_state_def fresh_session_def no_error_def state_bits)
  obtain t g where st: "fwup_header_stage fo hw ?r ?s = Some (True, ?r\<lparr>rq_data_len := length c\<rparr>, Some c, t)" "wf (fdev t)"
      "received contents fsize ?m hdr [] t" "fwup t = Some g" "received_len g = BOOTER_SIZE + length ([]::bytes) + length c"
      "current_image_src g = current_image_src ?f"
    using header_stage_first [of ?s hdr ?f ?run ?r c] wf hdr cs' ok cs(2) by auto
  have pos: "length ([]::bytes) < upd_len hdr" "length ([]::bytes) + length c \<le> upd_len hdr"
    using image_facts(3) [OF ok] len cs(4) by auto
  have src: "current_image_src g \<le> TLS_FWUP_IMAGE_SRC_WEB" using st(6) f(3) by simp
  obtain err s1 where s1: "tls_fwup_request_sync fo hw eo l 0 0 sid (Some ?cc) (length ?cc) s = Some (err, s1)" "wf (fdev s1)"
    and res: "if length ([] @ c) < upd_len hdr
     then err = TLS_FWUP_STATUS_OK \<and> idle_session sid s1 \<and> receiving contents fsize ?m hdr ([] @ c) s1
     else err = sync_status (verdict hdr ([] @ c)) \<and>
       rebooted s1 \<and> finished contents fsize l ?m hdr ([] @ c) s1"
    using deliver_step [OF ok hdr idle cc st(1-5) src f(1,2) _ cs(2) pos] by auto
  show ?thesis
  proof (cases "length c < upd_len hdr")
    case True
    have img: "length (c @ concat rest) = upd_len hdr" using cs(4) len by simp
    have "rest \<noteq> []" using True img by auto
    then obtain n where "length rest = Suc n" by (cases rest) auto
    moreover have "\<exists>s'. fwup_deliver fo hw eo l sid rest s1 = Some (replicate (length rest - 1) TLS_FWUP_STATUS_OK @
        [sync_status (verdict hdr (c @ concat rest))], s') \<and>
      rebooted s' \<and> finished contents fsize l ?m hdr (c @ concat rest) s'"
      by (rule deliver_rest [OF ok hdr s1(2) _ _ cs(3) True img]) (use res True in auto)
    ultimately show ?thesis using True res s1(1) cs(1,4) by auto
  next
    case False
    moreover have "length c + length (concat rest) = upd_len hdr" using cs(4) len by auto
    ultimately have "length (concat rest) = 0" by linarith
    then have "rest = []" using cs(3) by (cases rest) auto
    then show ?thesis using False res s1(1) cs by auto
  qed
qed

text \<open>The areas an accepted image never reaches.\<close>

lemma put_image_keeps:
  assumes ok: "header_ok run hdr fsize" "image_fits hdr fsize" and sane: "sane_headers l run hdr" and len: "length xs \<le> upd_len hdr"
    and i: "i < run_end hdr \<or> run_img_addr run OR 0x08000000 = run_img_addr run \<and> i < run_end run \<or>
      CODE_UPD_HEADER_ADDR l \<le> i \<and> i < TLS_FLASH_PARAM_RESTORE_ADDR l + 0x1000"
  shows "put_image m hdr fsize xs i = m i"
proof -
  note facts = image_facts [OF ok]
  have "update_area_ok run hdr fsize" using ok(1) by (simp add: header_ok_def)
  note ends = run_ends_below [OF this]
  have lim: "run_end hdr < 2 ^ 32" "run_end run \<le> 0xFFFF0000" using sane by (auto simp: sane_headers_def)
  show ?thesis
  proof (cases "i < upd_base hdr")
    case True
    then show ?thesis using facts(6) by (auto simp: put_image_def mem_upd_def crosses_def)
  next
    case False
    then have sys: "CODE_UPD_HEADER_ADDR l \<le> i" "i < TLS_FLASH_PARAM_RESTORE_ADDR l + 0x1000"
      using i ends(1) [OF lim] ends(4) [OF lim] by auto
    show ?thesis
    proof (cases "l = layout_2M_old")
      case True
      then have "img_type hdr = IMG_TYPE_OLD_PLAIN" "fsize = 0x200000" "0x080FC000 \<le> i" "i < FLASH_1M_END_ADDR"
        using sane ok(1) sys site by (auto simp: sane_headers_def header_ok_def layout_defs)
      then have "crosses hdr fsize" using False by (auto simp: crosses_def)
      then show ?thesis
        using facts(6) \<open>0x080FC000 \<le> i\<close> \<open>i < FLASH_1M_END_ADDR\<close> by (auto simp: put_image_def mem_upd_def)
    next
      case new: False
      then have "\<not> crosses hdr fsize"
        using site sane ok(1) by (auto simp: crosses_def sane_headers_def header_ok_def layout_defs)
      moreover have "FLASH_BASE_ADDR + fsize - 0x10000 + 0xC000 \<le> i"
        using new site sys(1) by (auto simp: layout_defs)
      ultimately show ?thesis
        using facts(4) len by (auto simp: put_image_def mem_upd_def)
    qed
  qed
qed

end

end
