(* ===== verification/Fwup_Props.thy ===== *)
theory Fwup_Props
  imports Fwup_Update
begin

text \<open>
  The properties of a firmware update on a board. The boards meet the contract \<open>fwup_site\<close>, so the results
  of the update theory hold for \<open>tls_fls_read\<close>, \<open>tls_fls_write\<close> and the crypto engine; the theorems below
  state them over these. The last sections show where the header check accepts an image it should refuse.
\<close>

section \<open>Boards as sites\<close>

lemma board_write_nothing:
  assumes "fls_ready bsy 0x100000 isize2 d" "isize2 = 0 \<or> isize2 = 0x100000" "FLASH_BASE_ADDR \<le> a"
    and "a < FLASH_1M_END_ADDR \<or> isize2 = 0x100000 \<and> a \<le> 0x08200000"
  shows "tls_fls_write qo ops a (Some w) 0 d = Some (TLS_FLS_STATUS_EINVAL, d)"
proof (cases "a < FLASH_1M_END_ADDR")
  case True
  then show ?thesis
    using assms(1) by (auto simp: tls_fls_write_def len_1M_def fls_ready_def)
next
  case False
  then have two: "isize2 = 0x100000" "a \<le> 0x08200000" using assms(4) by auto
  obtain f where "spi_fls d = Some f" "current_drv f = Some Exspi_fls" "total_size (exspi_fls d) = 0x100000"
    using assms(1) two(1) by (auto simp: fls_ready_def spi_ready_def drv_ready_def)
  moreover have "a AND 0xFFFFF = a mod 0x100000"
    using and_mask_mod [of a 20] by simp
  moreover have "part_2M a 0 0 d = Some (a AND 0xFFFFF, 0)"
    using assms(1) False two by (auto simp: part_2M_def fls_ready_def)
  ultimately show ?thesis
    using False by (simp add: tls_fls_write_def tls_spifls_write_def)
qed

lemma board_site:
  assumes "flash_board qo qmem qwel 0x100000 ops cmem wel bsy isize2" "crc_engine hw" "map_for isize2 l"
  shows "fwup_site (fls_ready bsy 0x100000 isize2) (fls_contents qmem cmem) (fls_accessible 0x100000 isize2)
    (board_fls qo ops) (0x100000 + isize2) hw l"
proof (rule fwup_site.intro [OF flash_board.board_client [OF assms(1)] assms(2)])
  have two: "isize2 = 0 \<or> isize2 = 0x100000" using flash_board.isize2 [OF assms(1)] by auto
  then have "l = layout_1M \<and> 0x100000 + isize2 = 0x100000 \<or>
      (l = layout_2M_old \<or> l = layout_2M_new) \<and> 0x100000 + isize2 = 0x200000"
    using assms(3) by (auto simp: map_for_def split: if_splits)
  then show "fwup_site_axioms (fls_ready bsy 0x100000 isize2) (board_fls qo ops) (0x100000 + isize2) l"
    using two by unfold_locales (auto intro!: board_write_nothing)
qed

interpretation update1: fwup_site "fls_ready c_busy 0x100000 0" "fls_contents d_mem c_mem"
    "fls_accessible 0x100000 0" "board_fls nor_ctl chip_1M" "0x100000 + 0" soft_engine layout_1M
  by (rule board_site [OF _ soft.crc_engine_axioms]) (use board1.flash_board_axioms in \<open>simp_all add: map_for_def\<close>)

interpretation update2: fwup_site "fls_ready c_busy 0x100000 0x100000" "fls_contents d_mem c_mem"
    "fls_accessible 0x100000 0x100000" "board_fls nor_ctl chip_1M" "0x100000 + 0x100000" soft_engine layout_2M_new
  by (rule board_site [OF _ soft.crc_engine_axioms]) (use board2.flash_board_axioms in \<open>simp_all add: map_for_def\<close>)

text \<open>The headers of a flash: of the running image, and of the image received last.\<close>

definition run_header :: "memory \<Rightarrow> bytes" where
  "run_header m = mem_get m CODE_RUN_HEADER_ADDR BOOTER_SIZE"

definition upd_header :: "layout \<Rightarrow> memory \<Rightarrow> bytes" where
  "upd_header l m = mem_get m (CODE_UPD_HEADER_ADDR l) BOOTER_SIZE"

lemma length_headers [simp]: "length (run_header m) = BOOTER_SIZE" "length (upd_header l m) = BOOTER_SIZE"
  by (simp_all add: run_header_def upd_header_def)

context fwup_site
begin

lemma put_image_headers:
  assumes "header_ok run hdr fsize" "image_fits hdr fsize" "sane_headers l run hdr" "length xs \<le> upd_len hdr"
  shows "run_header (put_image m hdr fsize xs) = run_header m" "upd_header l (put_image m hdr fsize xs) = upd_header l m"
proof -
  note keep = put_image_keeps [OF assms]
  have "update_area_ok run hdr fsize" "run_end hdr < 2 ^ 32" "run_end run \<le> 0xFFFF0000"
    using assms(1,3) by (auto simp: header_ok_def sane_headers_def)
  from run_ends_below(3) [OF this] have "0x08010100 \<le> run_end hdr" by (simp add: run_end_def)
  then have "put_image m hdr fsize xs i = m i" if "i < CODE_RUN_HEADER_ADDR + BOOTER_SIZE" for i
    using keep that by simp
  then show "run_header (put_image m hdr fsize xs) = run_header m"
    by (auto simp: run_header_def mem_get_def)
  have "CODE_UPD_HEADER_ADDR l + BOOTER_SIZE \<le> TLS_FLASH_PARAM_RESTORE_ADDR l + 0x1000"
    using site by (auto simp: layout_defs)
  then have "put_image m hdr fsize xs i = m i"
    if "CODE_UPD_HEADER_ADDR l \<le> i" "i < CODE_UPD_HEADER_ADDR l + BOOTER_SIZE" for i
    using keep that by simp
  then show "upd_header l (put_image m hdr fsize xs) = upd_header l m"
    by (auto simp: upd_header_def mem_get_def)
qed

lemma installed_sane:
  assumes "header_ok (run_header m) hdr fsize" "image_fits hdr fsize" "sane_headers l (run_header m) hdr" "length p = upd_len hdr"
  shows "installed m hdr fsize l p = mem_upd (put_image m hdr fsize p) (CODE_UPD_HEADER_ADDR l)
    (numbered (next_no (run_header m) (upd_header l m) fsize) hdr)"
proof -
  have "length p \<le> upd_len hdr" using assms(4) by simp
  from put_image_headers [OF assms(1-3) this, of m] show ?thesis
    by (simp add: installed_def Let_def run_header_def upd_header_def)
qed

end


section \<open>A board with a running image\<close>

text \<open>Headers of an image of the new layout that runs at 0x08010100 and is received at 0x08100000.\<close>

definition demo_header :: "u32 \<Rightarrow> u32 \<Rightarrow> u32 \<Rightarrow> bytes" where
  "demo_header no len crc = numbered no
     ((le32 SIGNATURE_WORD @ [3, 0, 0, 0] @ le32 0x08010100 @ le32 0x8000 @ le32 0 @ le32 0x08100000 @ le32 len) @
      le32 crc @ zeros 24)"

definition demo_board :: "(chip, qdev) fls_state" where
  "demo_board = board_2M\<lparr>qf := (qf board_2M)\<lparr>d_mem := mem_upd (\<lambda>_. 0x11) 0x10000 (demo_header 4 3 0)\<rparr>\<rparr>"

definition demo_session :: "((chip, qdev) fls_state, unit, unit) fwup_state" where
  "demo_session = no_module\<lparr>fdev := demo_board, fwup := Some (idle_fwup\<lparr>busy := True, current_session_id := 7\<rparr>),
     fwupwritebuffer := Some (zeros 4096)\<rparr>"

lemma demo_fields [simp]:
  "length (demo_header no len crc) = BOOTER_SIZE"
  "magic_no (demo_header no len crc) = SIGNATURE_WORD" "img_type (demo_header no len crc) = 3"
  "run_img_addr (demo_header no len crc) = 0x08010100" "run_img_len (demo_header no len crc) = 0x8000"
  "upd_img_addr (demo_header no len crc) = 0x08100000" "upd_img_len (demo_header no len crc) = len"
  "upd_checksum (demo_header no len crc) = crc" "upd_no (demo_header no len crc) = no"
  "hd_checksum (demo_header no len crc) = image_crc (take 52 (demo_header no len crc))"
  by (simp_all add: demo_header_def numbered_fields)
    (simp_all add: magic_no_def img_type_def run_img_addr_def run_img_len_def upd_img_addr_def upd_img_len_def upd_checksum_def
      get_u32_def get_u16_def slice_def of_le16_def)

lemma demo_header_ok:
  assumes "unat len \<le> 0xF0000" "len \<noteq> 0"
  shows "header_ok (demo_header no k c) (demo_header no' len crc) 0x200000"
proof -
  have "0x08100000 + len \<le> (0x081F0000 :: u32)"
    using assms(1) by (simp add: word_le_nat_alt unat_plus_if')
  then show ?thesis
    using assms(2) by (simp add: header_ok_def update_area_ok_def Let_def)
qed

lemma demo_ready: "fls_ready c_busy 0x100000 0x100000 demo_board"
  using board2.ready_qf [OF board_2M_ready] by (simp add: demo_board_def)

lemma demo_run_header: "run_header (fls_contents d_mem c_mem demo_board) = demo_header 4 3 0"
proof -
  have "fls_contents d_mem c_mem demo_board (CODE_RUN_HEADER_ADDR + i) = demo_header 4 3 0 ! i" if "i < BOOTER_SIZE" for i
    using that by (simp add: fls_contents_def demo_board_def mem_upd_def)
  then show ?thesis by (auto simp: run_header_def intro!: nth_equalityI simp: nth_mem_get)
qed

lemma demo_fits: "unat len \<le> 0xF0000 \<Longrightarrow> image_fits (demo_header no len crc) 0x200000"
  by (simp add: image_fits_def upd_base_def upd_len_def)

lemma demo_sane: "sane_headers layout_2M_new (demo_header 4 3 0) (demo_header no len crc)"
  by (simp add: sane_headers_def run_end_def layout_defs)

lemma demo_map: "map_for 0x100000 layout_2M_new"
  by (simp add: map_for_def)

lemma demo_session_ready: "fls_ready c_busy 0x100000 0x100000 (fdev demo_session)"
  using demo_ready by (simp add: demo_session_def)

lemma demo_session_sane:
  "sane_headers layout_2M_new (run_header (fls_contents d_mem c_mem (fdev demo_session))) (demo_header no len crc)"
  using demo_run_header demo_sane by (simp add: demo_session_def)

lemma demo_session_open: "idle_session 7 demo_session" "fresh_session demo_session"
  by (simp_all add: demo_session_def module_defs idle_session_def fresh_session_def no_error_def)

lemmas demo_site = board2.flash_board_axioms soft.crc_engine_axioms demo_map demo_session_ready

lemma demo_call:
  assumes "img = x # rest" "rest \<noteq> []" "length img \<le> INSIDE_FLS_SECTOR_SIZE"
  shows "update_call (fls_contents d_mem c_mem) (0x100000 + 0x100000) 7 (demo_header 0 (of_nat (length img)) crc) img
    [demo_header 0 (of_nat (length img)) crc @ [x], rest] demo_session"
proof -
  have len: "unat (of_nat (length img) :: u32) = length img" using assms(3) by (simp add: unat_of_nat)
  have "run_header (fls_contents d_mem c_mem (fdev demo_session)) = demo_header 4 3 0"
    using demo_run_header by (simp add: demo_session_def)
  moreover have "(of_nat (length img) :: u32) \<noteq> 0" using len assms(1) by (metis unat_0 length_0_conv list.distinct(1))
  ultimately have "header_ok (mem_get (fls_contents d_mem c_mem (fdev demo_session)) CODE_RUN_HEADER_ADDR BOOTER_SIZE)
      (demo_header 0 (of_nat (length img)) crc) (0x100000 + 0x100000)"
    using demo_header_ok len assms(3) by (simp add: run_header_def)
  then show ?thesis
    using demo_session_open demo_fits [of "of_nat (length img)" 0 crc] len assms
    by (simp add: update_call_def upd_len_def)
qed


section \<open>Properties\<close>

text \<open>What a client sees of \<open>fwup_deliver\<close> on a board, with the outcome left open.\<close>

lemma board_deliver:
  assumes "flash_board qo qmem qwel 0x100000 ops cmem wel bsy isize2" "crc_engine hw" "map_for isize2 l"
    and "fls_ready bsy 0x100000 isize2 (fdev s)" "update_call (fls_contents qmem cmem) (0x100000 + isize2) sid hdr img cs s"
  shows "\<exists>s'. fwup_deliver (board_fls qo ops) hw eo l sid cs s =
      Some (replicate (length cs - 1) TLS_FWUP_STATUS_OK @ [sync_status (verdict hdr img)], s') \<and>
    rebooted s' \<and> finished (fls_contents qmem cmem) (0x100000 + isize2) l (fls_contents qmem cmem (fdev s)) hdr img s'"
  by (rule fwup_site.deliver_image [OF board_site [OF assms(1-3)] assms(4,5)])

lemma update_call_facts:
  assumes "update_call contents fsize sid hdr img cs s"
  shows "cs \<noteq> []" "header_ok (run_header (contents (fdev s))) hdr fsize" "image_fits hdr fsize" "length img = upd_len hdr"
    "length hdr = BOOTER_SIZE"
  using assms by (auto simp: update_call_def run_header_def)

text \<open>C4: on every board, an image that a client delivers to an open session in chunks of at most a sector,
  whose CRC is the one in its header and whose length is not a multiple of a sector, is installed: every
  call returns OK, the device restarts with the update complete, the flash holds the image at the place
  its header names, the header area holds its header with the next number, and nothing else of the flash
  has changed.\<close>

theorem fwup_update_installs:
  assumes "flash_board qo qmem qwel 0x100000 ops cmem wel bsy isize2" "crc_engine hw" "map_for isize2 l"
    and "fls_ready bsy 0x100000 isize2 (fdev s)" "update_call (fls_contents qmem cmem) (0x100000 + isize2) sid hdr img cs s"
    and "sane_headers l (run_header (fls_contents qmem cmem (fdev s))) hdr"
    and "image_crc img = upd_checksum hdr" "length img mod INSIDE_FLS_SECTOR_SIZE \<noteq> 0"
  shows "\<exists>s' f. fwup_deliver (board_fls qo ops) hw eo l sid cs s = Some (replicate (length cs) TLS_FWUP_STATUS_OK, s') \<and>
    rebooted s' \<and> fwup s' = Some f \<and> current_state f AND TLS_FWUP_STATE_COMPLETE \<noteq> 0 \<and>
    fls_contents qmem cmem (fdev s') =
      mem_upd (put_image (fls_contents qmem cmem (fdev s)) hdr (0x100000 + isize2) img) (CODE_UPD_HEADER_ADDR l)
        (numbered (next_no (run_header (fls_contents qmem cmem (fdev s))) (upd_header l (fls_contents qmem cmem (fdev s)))
          (0x100000 + isize2)) hdr)"
proof -
  have v: "verdict hdr img = TLS_FWUP_REQ_STATUS_SUCCESS" using assms(7,8) by (simp add: verdict_def)
  note call = update_call_facts [OF assms(5)]
  have "replicate (length cs - 1) TLS_FWUP_STATUS_OK @ [TLS_FWUP_STATUS_OK] = replicate (length cs) TLS_FWUP_STATUS_OK"
    using call(1) by (cases cs) (simp_all flip: replicate_append_same)
  then show ?thesis
    using board_deliver [OF assms(1-5), of eo] v
      fwup_site.installed_sane [OF board_site [OF assms(1-3)] call(2,3) assms(6) call(4)]
    by (fastforce simp: finished_def sync_status_def)
qed

theorem fwup_update_installs_witness:
  "\<exists>s' f. fwup_deliver (board_fls nor_ctl chip_1M) soft_engine quiet_env layout_2M_new 7
      [demo_header 0 3 (image_crc [1, 2, 3]) @ [1], [2, 3]] demo_session = Some ([TLS_FWUP_STATUS_OK, TLS_FWUP_STATUS_OK], s') \<and>
    rebooted s' \<and> fwup s' = Some f \<and> fls_contents d_mem c_mem (fdev s') (0x08100000 + 1) = 2"
proof -
  let ?h = "demo_header 0 3 (image_crc [1, 2, 3])" and ?m = "fls_contents d_mem c_mem (fdev demo_session)"
  obtain s' f where "fwup_deliver (board_fls nor_ctl chip_1M) soft_engine quiet_env layout_2M_new 7
      [?h @ [1], [2, 3]] demo_session = Some (replicate (length [?h @ [1], [2, 3]]) TLS_FWUP_STATUS_OK, s')" "rebooted s'" "fwup s' = Some f"
    "fls_contents d_mem c_mem (fdev s') = mem_upd (put_image ?m ?h (0x100000 + 0x100000) [1, 2, 3]) (CODE_UPD_HEADER_ADDR layout_2M_new)
        (numbered (next_no (run_header ?m) (upd_header layout_2M_new ?m) (0x100000 + 0x100000)) ?h)"
    using fwup_update_installs [OF demo_site demo_call [of "[1, 2, 3]" 1 "[2, 3]" "image_crc [1, 2, 3]"], of quiet_env] demo_session_sane
    by auto
  then show ?thesis
    by (intro exI [of _ s'] exI [of _ f]) (simp add: put_image_def crosses_def upd_base_def mem_upd_def layout_defs)
qed


text \<open>C7: an image whose CRC is not the one in its header is refused on every board: the last call returns
  the CRC error, the update is not complete, the header area still holds what it held, so that a boot
  loader does not find the image, and only the place of the image has changed.\<close>

theorem fwup_update_refuses_corrupt_image:
  assumes "flash_board qo qmem qwel 0x100000 ops cmem wel bsy isize2" "crc_engine hw" "map_for isize2 l"
    and "fls_ready bsy 0x100000 isize2 (fdev s)" "update_call (fls_contents qmem cmem) (0x100000 + isize2) sid hdr img cs s"
    and "sane_headers l (run_header (fls_contents qmem cmem (fdev s))) hdr"
    and "image_crc img \<noteq> upd_checksum hdr" "length img mod INSIDE_FLS_SECTOR_SIZE \<noteq> 0"
  shows "\<exists>s' f. fwup_deliver (board_fls qo ops) hw eo l sid cs s =
      Some (replicate (length cs - 1) TLS_FWUP_STATUS_OK @ [TLS_FWUP_STATUS_ECRC], s') \<and>
    rebooted s' \<and> fwup s' = Some f \<and> current_state f AND TLS_FWUP_STATE_ERROR_CRC \<noteq> 0 \<and>
    upd_header l (fls_contents qmem cmem (fdev s')) = upd_header l (fls_contents qmem cmem (fdev s)) \<and>
    fls_contents qmem cmem (fdev s') = put_image (fls_contents qmem cmem (fdev s)) hdr (0x100000 + isize2) img"
proof -
  have v: "verdict hdr img = TLS_FWUP_REQ_STATUS_FCRC" using assms(7,8) by (simp add: verdict_def)
  note call = update_call_facts [OF assms(5)]
  have "upd_header l (put_image (fls_contents qmem cmem (fdev s)) hdr (0x100000 + isize2) img) =
      upd_header l (fls_contents qmem cmem (fdev s))"
    using fwup_site.put_image_headers(2) [OF board_site [OF assms(1-3)] call(2,3) assms(6)] call(4) by simp
  then show ?thesis
    using board_deliver [OF assms(1-5), of eo] v by (fastforce simp: finished_def sync_status_def)
qed

lemma image_crc_step: "image_crc (xs @ [x]) = crc_byte (image_crc xs) x"
  by (simp add: image_crc_def)

theorem fwup_update_refuses_corrupt_image_witness:
  "\<exists>s' f. fwup_deliver (board_fls nor_ctl chip_1M) soft_engine quiet_env layout_2M_new 7
      [demo_header 0 3 (NOT (image_crc [1, 2, 3])) @ [1], [2, 3]] demo_session = Some ([TLS_FWUP_STATUS_OK, TLS_FWUP_STATUS_ECRC], s') \<and>
    rebooted s' \<and> fwup s' = Some f \<and> current_state f AND TLS_FWUP_STATE_ERROR_CRC \<noteq> 0 \<and>
    upd_header layout_2M_new (fls_contents d_mem c_mem (fdev s')) =
      upd_header layout_2M_new (fls_contents d_mem c_mem (fdev demo_session))"
proof -
  have "bit (NOT x) 0 \<noteq> bit x 0" for x :: u32 by (simp add: bit_simps)
  then have "x \<noteq> NOT x" for x :: u32 by metis
  then show ?thesis
    using fwup_update_refuses_corrupt_image [OF demo_site demo_call [of "[1, 2, 3]" 1 "[2, 3]" "NOT (image_crc [1, 2, 3])"], of quiet_env]
      demo_session_sane [of 0 3 "NOT (image_crc [1, 2, 3])"] by auto
qed

text \<open>C28: an image whose length is a multiple of a sector is always refused, whatever its CRC: its last call
  returns an input/output error because \<open>tls_fls_write\<close> is called for zero bytes, although by then the
  whole image is in the flash; the header area is not written and the device restarts.\<close>

theorem fwup_update_fails_on_whole_sectors:
  assumes "flash_board qo qmem qwel 0x100000 ops cmem wel bsy isize2" "crc_engine hw" "map_for isize2 l"
    and "fls_ready bsy 0x100000 isize2 (fdev s)" "update_call (fls_contents qmem cmem) (0x100000 + isize2) sid hdr img cs s"
    and "length img mod INSIDE_FLS_SECTOR_SIZE = 0"
  shows "\<exists>s' f. fwup_deliver (board_fls qo ops) hw eo l sid cs s =
      Some (replicate (length cs - 1) TLS_FWUP_STATUS_OK @ [TLS_FWUP_STATUS_EIO], s') \<and>
    rebooted s' \<and> fwup s' = Some f \<and> current_state f AND TLS_FWUP_STATE_ERROR_IO \<noteq> 0 \<and>
    fls_contents qmem cmem (fdev s') = put_image (fls_contents qmem cmem (fdev s)) hdr (0x100000 + isize2) img"
proof -
  have "verdict hdr img = TLS_FWUP_REQ_STATUS_FIO" using assms(6) by (simp add: verdict_def)
  then show ?thesis
    using board_deliver [OF assms(1-5), of eo] by (fastforce simp: finished_def sync_status_def)
qed

theorem fwup_update_fails_on_whole_sectors_witness:
  "\<exists>s' f. fwup_deliver (board_fls nor_ctl chip_1M) soft_engine quiet_env layout_2M_new 7
      [demo_header 0 4096 (image_crc (0 # replicate 4095 0x5A)) @ [0], replicate 4095 0x5A] demo_session =
        Some ([TLS_FWUP_STATUS_OK, TLS_FWUP_STATUS_EIO], s') \<and>
    rebooted s' \<and> fwup s' = Some f"
  using fwup_update_fails_on_whole_sectors [OF demo_site demo_call [of "0 # replicate 4095 0x5A" 0 "replicate 4095 0x5A"
      "image_crc (0 # replicate 4095 0x5A)"], of quiet_env]
  by auto

text \<open>C14: an accepted image that is delivered in full, whether its CRC is then found right or wrong, changes
  neither the boot loader, nor the area the new image will run in, nor the two parameter sectors and the
  sector for their repair, nor, if the header of the running image gives absolute addresses (above
  \<open>0x08000000\<close>), the running image; of these areas only the header of the image is written, to its own
  place. With the relative addresses that the image scripts of the SDK write, the running image is not
  protected (\<open>fwup_relative_running_image_unprotected\<close>). The image has a header that the check accepts and
  fits the flash without running over the end of the first megabyte (\<open>update_call\<close>, \<open>image_fits\<close>); the
  addresses in the headers do not overflow 32 bits, and the flash map is the one that
  \<open>tls_fls_layout_init\<close> chooses for the running image (\<open>sane_headers\<close>).\<close>

theorem fwup_update_keeps_system_areas:
  assumes "flash_board qo qmem qwel 0x100000 ops cmem wel bsy isize2" "crc_engine hw" "map_for isize2 l"
    and "fls_ready bsy 0x100000 isize2 (fdev s)" "update_call (fls_contents qmem cmem) (0x100000 + isize2) sid hdr img cs s"
    and "sane_headers l (run_header (fls_contents qmem cmem (fdev s))) hdr"
    and "i < CODE_RUN_START_ADDR \<or> i < run_end hdr \<or>
      run_img_addr (run_header (fls_contents qmem cmem (fdev s))) OR 0x08000000 = run_img_addr (run_header (fls_contents qmem cmem (fdev s))) \<and>
        i < run_end (run_header (fls_contents qmem cmem (fdev s))) \<or>
      TLS_FLASH_PARAM1_ADDR l \<le> i \<and> i < TLS_FLASH_PARAM_RESTORE_ADDR l + 0x1000"
    and "i < CODE_UPD_HEADER_ADDR l \<or> CODE_UPD_HEADER_ADDR l + BOOTER_SIZE \<le> i"
  shows "\<exists>errs s'. fwup_deliver (board_fls qo ops) hw eo l sid cs s = Some (errs, s') \<and>
    fls_contents qmem cmem (fdev s') i = fls_contents qmem cmem (fdev s) i"
proof -
  let ?m = "fls_contents qmem cmem (fdev s)"
  note site = board_site [OF assms(1-3)] and call = update_call_facts [OF assms(5)]
  have "update_area_ok (run_header ?m) hdr (0x100000 + isize2)" "run_end hdr < 2 ^ 32" "run_end (run_header ?m) \<le> 0xFFFF0000"
    using call(2) assms(6) by (auto simp: header_ok_def sane_headers_def)
  note ends = run_ends_below [OF this]
  have "0x08010100 \<le> run_end hdr" using ends(3) by (simp add: run_end_def)
  then have i: "i < run_end hdr \<or> run_img_addr (run_header ?m) OR 0x08000000 = run_img_addr (run_header ?m) \<and> i < run_end (run_header ?m) \<or>
      CODE_UPD_HEADER_ADDR l \<le> i \<and> i < TLS_FLASH_PARAM_RESTORE_ADDR l + 0x1000"
    using assms(3,7) by (auto simp: map_for_def layout_defs split: if_splits)
  have put: "put_image ?m hdr (0x100000 + isize2) img i = ?m i"
    using fwup_site.put_image_keeps [OF site call(2,3) assms(6)] call(4) i by simp
  have "\<not> (CODE_UPD_HEADER_ADDR l \<le> i \<and> i < CODE_UPD_HEADER_ADDR l + BOOTER_SIZE)"
    using assms(8) by auto
  then have "mem_upd m (CODE_UPD_HEADER_ADDR l) (numbered no hdr) i = m i" for m no
    using call(5) by (auto simp: mem_upd_def)
  then show ?thesis
    using board_deliver [OF assms(1-5), of eo] put
      fwup_site.installed_sane [OF site call(2,3) assms(6) call(4)]
    by (auto simp: finished_def split: if_splits)
qed


theorem fwup_update_keeps_system_areas_witness:
  "\<exists>errs s'. fwup_deliver (board_fls nor_ctl chip_1M) soft_engine quiet_env layout_2M_new 7
      [demo_header 0 3 9 @ [1], [2, 3]] demo_session = Some (errs, s') \<and>
    fls_contents d_mem c_mem (fdev s') 0x08010105 = fls_contents d_mem c_mem (fdev demo_session) 0x08010105"
proof -
  have "run_header (fls_contents d_mem c_mem (fdev demo_session)) = demo_header 4 3 0"
    using demo_run_header by (simp add: demo_session_def)
  then show ?thesis
    using fwup_update_keeps_system_areas [OF demo_site demo_call [of "[1, 2, 3]" 1 "[2, 3]" 9], where i = "0x08010105" and eo = quiet_env] demo_sane
    by (simp add: run_end_def layout_defs)
qed

text \<open>The header that \<open>tls_fwup_img_update_header\<close> stores for an accepted image passes the header check
  itself, and as long as the number does not wrap it is newer than both the running image and an
  installed one, so that the boot loader prefers it.\<close>

theorem fwup_stored_header_accepted:
  assumes "flash_board qo qmem qwel 0x100000 ops cmem wel bsy isize2" "crc_engine hw" "map_for isize2 l"
    and "fls_ready bsy 0x100000 isize2 (fdev s)" "length img = BOOTER_SIZE"
    and "length (fst (imgheader s)) = BOOTER_SIZE" "length (snd (imgheader s)) = BOOTER_SIZE"
    and "header_ok (run_header (fls_contents qmem cmem (fdev s))) img (0x100000 + isize2)"
    and "upd_no (run_header (fls_contents qmem cmem (fdev s))) \<noteq> - 1"
    and "header_ok (run_header (fls_contents qmem cmem (fdev s))) (upd_header l (fls_contents qmem cmem (fdev s))) (0x100000 + isize2) \<longrightarrow>
      upd_no (upd_header l (fls_contents qmem cmem (fdev s))) \<noteq> - 1"
  shows "\<exists>img' s' s''. tls_fwup_img_update_header (board_fls qo ops) hw l img s = Some (img', s') \<and>
    fls_contents qmem cmem (fdev s') = mem_upd (fls_contents qmem cmem (fdev s)) (CODE_UPD_HEADER_ADDR l) img' \<and>
    tls_fwup_img_header_check (board_fls qo ops) hw (upd_header l (fls_contents qmem cmem (fdev s'))) s' = Some (True, s'') \<and>
    upd_checksum img' = upd_checksum img \<and> upd_no (run_header (fls_contents qmem cmem (fdev s))) < upd_no img' \<and>
    (header_ok (run_header (fls_contents qmem cmem (fdev s))) (upd_header l (fls_contents qmem cmem (fdev s))) (0x100000 + isize2) \<longrightarrow>
      upd_no (upd_header l (fls_contents qmem cmem (fdev s))) < upd_no img')"
proof -
  let ?m = "fls_contents qmem cmem (fdev s)" and ?n = "0x100000 + isize2"
  let ?run = "run_header ?m" and ?upd = "upd_header l ?m"
  let ?img = "numbered (next_no ?run ?upd ?n) img"
  note site = board_site [OF assms(1-3)]
  have less: "x < x + 1" if "x \<noteq> - 1" for x :: u32
  proof -
    have "unat x \<noteq> unat (- 1 :: u32)" using that by (simp only: word_unat_eq_iff) simp
    moreover have "unat x < 2 ^ LENGTH(32)" by (rule unsigned_less)
    ultimately have "unat x + 1 < 2 ^ 32" by (simp add: unsigned_minus_1_eq_mask mask_eq_exp_minus_1)
    then show ?thesis by (simp add: word_less_nat_alt unat_plus_if')
  qed
  obtain h d where u: "tls_fwup_img_update_header (board_fls qo ops) hw l img s =
        Some (?img, s\<lparr>imgheader := (?run, ?upd), crypto := h, fdev := d\<rparr>)"
      "fls_ready bsy 0x100000 isize2 d" "fls_contents qmem cmem d = mem_upd ?m (CODE_UPD_HEADER_ADDR l) ?img"
    using fwup_site.update_header [OF site assms(4-7)] by (auto simp: run_header_def upd_header_def)
  let ?s = "s\<lparr>imgheader := (?run, ?upd), crypto := h, fdev := d\<rparr>"
  have "CODE_RUN_HEADER_ADDR + BOOTER_SIZE \<le> CODE_UPD_HEADER_ADDR l"
    using assms(3) by (auto simp: map_for_def layout_defs split: if_splits)
  then have run: "mem_get (fls_contents qmem cmem d) CODE_RUN_HEADER_ADDR BOOTER_SIZE = ?run"
    using u(3) assms(5) by (simp add: run_header_def mem_get_upd_other)
  have upd: "upd_header l (fls_contents qmem cmem d) = ?img"
    using u(3) assms(5) mem_get_upd_same [of ?m "CODE_UPD_HEADER_ADDR l" ?img] by (simp add: upd_header_def)
  have "\<exists>s''. tls_fwup_img_header_check (board_fls qo ops) hw ?img ?s = Some (True, s'')"
    using fwup_site.header_check [OF site, of ?s ?img] u(2) assms(5) header_ok_numbered [OF assms(5,8)] run by auto
  moreover have "upd_no ?run < upd_no ?img" "header_ok ?run ?upd ?n \<longrightarrow> upd_no ?upd < upd_no ?img"
    using less [OF assms(9)] less [of "upd_no ?upd"] assms(10)
    by (auto simp: numbered_fields [OF assms(5)] next_no_def)
  ultimately show ?thesis
    using u upd by (auto simp: numbered_fields [OF assms(5)])
qed

theorem fwup_stored_header_accepted_witness:
  "\<exists>img' s' s''. tls_fwup_img_update_header (board_fls nor_ctl chip_1M) soft_engine layout_2M_new (demo_header 0 3 9) demo_session = Some (img', s') \<and>
    tls_fwup_img_header_check (board_fls nor_ctl chip_1M) soft_engine (upd_header layout_2M_new (fls_contents d_mem c_mem (fdev s'))) s' = Some (True, s'') \<and>
    upd_no (demo_header 4 3 0) < upd_no img'"
proof -
  have run: "run_header (fls_contents d_mem c_mem (fdev demo_session)) = demo_header 4 3 0"
    using demo_run_header by (simp add: demo_session_def)
  have "upd_header layout_2M_new (fls_contents d_mem c_mem (fdev demo_session)) = replicate BOOTER_SIZE 0xFF"
    by (auto simp: upd_header_def demo_session_def demo_board_def board_2M_def board_1M_def fls_contents_def layout_defs nth_mem_get
        intro!: nth_equalityI)
  moreover have four: "replicate 4 x = [x, x, x, x]" for x :: u8 by (simp add: numeral_eq_Suc)
  ultimately have none: "\<not> header_ok r (upd_header layout_2M_new (fls_contents d_mem c_mem (fdev demo_session))) n" for r n
    by (simp add: header_ok_def magic_no_def get_u32_def slice_def four of_le32_def)
  show ?thesis
    using fwup_stored_header_accepted [OF demo_site, of "demo_header 0 3 9"] run none demo_header_ok [of 3 4 3 0 0 9]
    by (auto simp: demo_session_def no_module_def)
qed

text \<open>On a module with free memory \<open>tls_fwup_enter\<close> opens a session: it returns the session id, which is
  not zero, and leaves the updater with an empty request list, a write buffer of a sector and nothing
  received, as the delivery of an image needs it.\<close>

theorem tls_fwup_enter_opens:
  assumes "fwup s = None \<or> (\<exists>f. fwup s = Some f \<and> \<not> busy f \<and> wait_list f = [] \<and> list_lock f = 1)"
    and "\<not> fwup_freed s" "heap s = []" "phase s = Waiting" "fwup_msg_queue s = 0" "\<not> rebooted s" "fwupwritebuffer s = None"
    and "length (fst (imgheader s)) = BOOTER_SIZE" "length (snd (imgheader s)) = BOOTER_SIZE"
    and "env_rand eo (env s) = (v, e)" "v \<noteq> 0" "src \<le> TLS_FWUP_IMAGE_SRC_WEB"
  shows "\<exists>s'. tls_fwup_enter eo src s = Some (v, s') \<and> idle_session v s' \<and> fresh_session s' \<and> fdev s' = fdev s"
proof -
  obtain f where f: "fwup (snd (tls_fwup_init s)) = Some f" "\<not> busy f" "wait_list f = []" "list_lock f = 1"
    using assms(1,3) by (auto simp: tls_fwup_init_def tls_os_sem_create_def idle_fwup_def)
  have same: "snd (tls_fwup_init s) = s\<lparr>fwup := Some f, fwup_msg_queue := 0, phase := Waiting\<rparr>"
    using assms(1,3-5) f(1) by (auto simp: tls_fwup_init_def tls_os_sem_create_def)
  have "rand_nonzero eo (env s) = Some (v, e)"
    using assms(10,11) by (subst rand_nonzero.simps) simp
  then show ?thesis
    using f same assms(2-12)
    by (cases "tls_fwup_init s") (auto simp: tls_fwup_enter_def Let_def tls_mem_alloc_def clear_progress_def idle_session_def
        fresh_session_def no_error_def split: prod.splits)
qed


theorem tls_fwup_enter_opens_witness:
  "\<exists>s'. tls_fwup_enter quiet_env 3 no_module = Some (7, s') \<and> idle_session 7 s' \<and> fresh_session s'"
  using tls_fwup_enter_opens [of no_module quiet_env 7 "()" 3] by (auto simp: no_module_def quiet_env_def)

text \<open>The address check compares the end of the new image with the unmapped end of the running one. When
  the running header holds addresses relative to the flash base, as the image scripts of the SDK write
  them, the running image is not taken into account at all: whatever its length, the same images are
  accepted, also those that are received over it.\<close>

theorem fwup_relative_running_image_unprotected:
  assumes "unat (run_img_addr run) + unat (run_img_len run) < 0x08000000"
    and "unat (run_img_addr run') + unat (run_img_len run') < 0x08000000"
    and "run_end img < 2 ^ 32"
  shows "update_area_ok run img n = update_area_ok run' img n"
proof -
  have floor: "run_floor r img = (run_img_addr img OR 0x08000000) + run_img_len img"
    if "unat (run_img_addr r) + unat (run_img_len r) < 0x08000000" for r
  proof -
    have "unat (run_img_addr r + run_img_len r) < 0x08000000" using that by (simp add: unat_plus_if')
    moreover have "0x08000000 \<le> unat (run_img_addr img OR 0x08000000)"
      using or_base_ge [of "run_img_addr img"] by (simp add: word_le_nat_alt)
    moreover have "unat ((run_img_addr img OR 0x08000000) + run_img_len img) = run_end img"
      using assms(3) by (simp add: unat_plus_if' run_end_def)
    ultimately have "\<not> (run_img_addr img OR 0x08000000) + run_img_len img < run_img_addr r + run_img_len r"
      unfolding word_less_nat_alt run_end_def by linarith
    then show ?thesis by (simp add: run_floor_def)
  qed
  show ?thesis by (simp only: update_area_iff floor [OF assms(1)] floor [OF assms(2)])
qed

text \<open>A header with the addresses and lengths given.\<close>

definition area_header :: "u32 \<Rightarrow> u32 \<Rightarrow> u32 \<Rightarrow> u32 \<Rightarrow> bytes" where
  "area_header run rlen upd ulen =
     zeros 8 @ le32 run @ le32 rlen @ zeros 4 @ le32 upd @ le32 ulen @ zeros 28"

lemma area_fields [simp]:
  "run_img_addr (area_header run rlen upd ulen) = run" "run_img_len (area_header run rlen upd ulen) = rlen"
  "upd_img_addr (area_header run rlen upd ulen) = upd" "upd_img_len (area_header run rlen upd ulen) = ulen"
  by (simp_all add: area_header_def run_img_addr_def run_img_len_def upd_img_addr_def upd_img_len_def get_u32_def slice_def)

theorem fwup_relative_running_image_unprotected_witness:
  "update_area_ok (area_header 0x10100 0x90000 0x90000 1) (area_header 0x08010100 0x100 0x08020000 0x8000) 0x200000 =
     update_area_ok (area_header 0x10100 0 0 1) (area_header 0x08010100 0x100 0x08020000 0x8000) 0x200000 \<and>
   update_area_ok (area_header 0x10100 0x90000 0x90000 1) (area_header 0x08010100 0x100 0x08020000 0x8000) 0x200000"
proof
  show "update_area_ok (area_header 0x10100 0x90000 0x90000 1) (area_header 0x08010100 0x100 0x08020000 0x8000) 0x200000 =
      update_area_ok (area_header 0x10100 0 0 1) (area_header 0x08010100 0x100 0x08020000 0x8000) 0x200000"
    by (rule fwup_relative_running_image_unprotected) (simp_all add: run_end_def)
qed (simp add: update_area_ok_def Let_def)

text \<open>The check of the flash capacity adds the length of the image to its address in 32 bits. An accepted
  image stays accepted when its length is replaced by one for which the sum wraps, although no flash can
  hold it.\<close>

theorem fwup_wrapped_length_accepted:
  assumes "update_area_ok run (area_header a rlen u len) n" "n = 0x100000 \<or> n = 0x200000"
    and "unat (u OR 0x08000000) + unat len < 2 ^ 32" "2 ^ 32 \<le> unat (u OR 0x08000000) + unat len'"
  shows "update_area_ok run (area_header a rlen u len') n \<and> n < unat len'"
proof -
  let ?b = "u OR 0x08000000"
  have floor: "run_floor run (area_header a rlen u len') = run_floor run (area_header a rlen u len)"
    by (simp add: run_floor_def)
  have "unat (?b + len') = unat ?b + unat len' - 2 ^ 32" using assms(4) by (simp add: unat_plus_if')
  moreover have len': "unat len' < 2 ^ LENGTH(32)" by (rule unsigned_less)
  moreover have sum: "unat (?b + len) = unat ?b + unat len" using assms(3) by (simp add: unat_plus_if')
  ultimately have less: "?b + len' \<le> ?b + len" by (simp add: word_le_nat_alt)
  have "unat (?b + len) \<le> 0x08000000 + n"
    using update_area_facts(3) [OF assms(1,2)] assms(3) by (simp add: upd_base_def upd_len_def sum)
  then have "n < unat len'" using assms(2,4) sum by auto
  moreover have "len' \<noteq> 0" using calculation by auto
  moreover have "update_area_ok run (area_header a rlen u len') n"
    using assms(1) \<open>len' \<noteq> 0\<close> less unfolding update_area_iff floor by (auto intro: order_trans)
  ultimately show ?thesis by simp
qed

theorem fwup_wrapped_length_accepted_witness:
  "update_area_ok (area_header 0x08010100 0x8000 0x08090000 1) (area_header 0x08010100 0x100 0x08100000 0xF8000000) 0x200000 \<and>
   0x200000 < unat (0xF8000000 :: u32)"
  by (rule fwup_wrapped_length_accepted [of _ _ _ _ "0x8000"]) (simp_all add: update_area_ok_def Let_def)

end
