(* ===== verification/Dhcp_Server.thy ===== *)
theory Dhcp_Server
  imports Prelude
begin

text \<open>
  The DHCP server of the soft AP, \<^verbatim>\<open>src/Src/App/dhcpserver/dhcp_server.c\<close> in the configuration of
  the SDK (lwIP 2.0.3 without IPv6, so that an \<open>ip_addr_t\<close> is one word in network order). The static
  \<open>DhcpServer\<close> is a record with the table of eight clients, the static \<open>DhcpMsg\<close> the bytes of a
  message. What the server hands to the network stack is the list \<open>sent\<close>. The list of the stations
  and the own MAC address come from the WLAN library, a parameter; \<open>udp_new\<close> and \<open>pbuf_alloc\<close> take
  their outcome from the heap like \<open>tls_mem_alloc\<close>. \<open>None\<close> stands for an access outside an object.
\<close>

section \<open>Data\<close>

abbreviation (input) DHCPS_HISTORY_CLIENT_NUM :: nat where "DHCPS_HISTORY_CLIENT_NUM \<equiv> 8"
abbreviation (input) DHCP_DEFAULT_LEASE_TIME :: nat where "DHCP_DEFAULT_LEASE_TIME \<equiv> 7200"
abbreviation (input) DHCP_DEFFAULT_TIMEOUT :: nat where "DHCP_DEFFAULT_TIMEOUT \<equiv> 10"
abbreviation (input) DHCP_MSG_SIZE :: nat where "DHCP_MSG_SIZE \<equiv> 548"
abbreviation (input) DHCP_MAGIC :: u32 where "DHCP_MAGIC \<equiv> 0x63825363"
abbreviation (input) STA_MAC_BUF_LEN :: nat where "STA_MAC_BUF_LEN \<equiv> 64"
abbreviation (input) DHCP_MSG_DISCOVER :: u8 where "DHCP_MSG_DISCOVER \<equiv> 1"
abbreviation (input) DHCP_MSG_OFFER :: u8 where "DHCP_MSG_OFFER \<equiv> 2"
abbreviation (input) DHCP_MSG_REQUEST :: u8 where "DHCP_MSG_REQUEST \<equiv> 3"
abbreviation (input) DHCP_MSG_DECLINE :: u8 where "DHCP_MSG_DECLINE \<equiv> 4"
abbreviation (input) DHCP_MSG_ACK :: u8 where "DHCP_MSG_ACK \<equiv> 5"
abbreviation (input) DHCP_MSG_NAK :: u8 where "DHCP_MSG_NAK \<equiv> 6"
abbreviation (input) DHCP_MSG_RELEASE :: u8 where "DHCP_MSG_RELEASE \<equiv> 7"
abbreviation (input) DHCP_MSG_INFORM :: u8 where "DHCP_MSG_INFORM \<equiv> 8"
abbreviation (input) DHCPS_ERR_SUCCESS :: int where "DHCPS_ERR_SUCCESS \<equiv> 0"
abbreviation (input) DHCPS_ERR_LINKDOWN :: int where "DHCPS_ERR_LINKDOWN \<equiv> - 1"
abbreviation (input) DHCPS_ERR_PARAM :: int where "DHCPS_ERR_PARAM \<equiv> - 2"
abbreviation (input) DHCPS_ERR_MEM :: int where "DHCPS_ERR_MEM \<equiv> - 3"
abbreviation (input) DHCPS_ERR_NOT_BIND :: int where "DHCPS_ERR_NOT_BIND \<equiv> - 4"
abbreviation (input) DHCPS_ERR_NOT_FOUND :: int where "DHCPS_ERR_NOT_FOUND \<equiv> - 5"
abbreviation (input) DHCPS_ERR_INACTIVE :: int where "DHCPS_ERR_INACTIVE \<equiv> - 6"

datatype dhcp_client_state = IDLE | SELECT | REQUEST | BIND

record dhcp_client =
  State :: dhcp_client_state
  Timeout :: nat
  IpAddr :: u32
  MacAddr :: bytes
  Lease :: nat

text \<open>\<open>Socket\<close> is whether the pointer is set.\<close>

record dhcp_server =
  Enable :: bool
  Socket :: bool
  ServerIpAddr :: u32
  StartIpAddr :: u32
  SubnetMask :: u32
  GateWay :: u32
  Dns1 :: u32
  Dns2 :: u32
  LeaseTime :: nat
  Clients :: "dhcp_client list"

datatype dhcp_event = Udp u32 bytes | Arp u32 bytes

text \<open>\<open>timers\<close> counts the pending timeouts of \<open>_DhcpTickHandle\<close>.\<close>

record 'w dhcp_state = os_state +
  DhcpServer :: dhcp_server
  DhcpMsg :: bytes
  timers :: nat
  wlan :: 'w
  sent :: "dhcp_event list"

text \<open>The WLAN library: the number of authenticated stations with the bytes that
  \<open>tls_wifi_get_authed_sta_info\<close> stores, and \<open>wpa_supplicant_get_mac\<close>.\<close>

record 'w wlan_ops =
  authed_sta :: "'w \<Rightarrow> nat \<times> bytes"
  own_mac :: "'w \<Rightarrow> bytes"

definition zero_client :: dhcp_client where
  "zero_client = \<lparr>State = IDLE, Timeout = 0, IpAddr = 0, MacAddr = zeros 6, Lease = 0\<rparr>"

text \<open>\<open>memset(&DhcpServer, 0, sizeof(DhcpServer))\<close>.\<close>

definition zero_server :: dhcp_server where
  "zero_server = \<lparr>Enable = False, Socket = False, ServerIpAddr = 0, StartIpAddr = 0, SubnetMask = 0, GateWay = 0,
     Dns1 = 0, Dns2 = 0, LeaseTime = 0, Clients = replicate DHCPS_HISTORY_CLIENT_NUM zero_client\<rparr>"

definition htonl :: "u32 \<Rightarrow> u32" where
  "htonl x = of_le32 (rev (le32 x))"

definition ntohs :: "u16 \<Rightarrow> u16" where
  "ntohs x = of_le16 (rev (le16 x))"

definition client_at :: "('w, 'z) dhcp_state_scheme \<Rightarrow> nat \<Rightarrow> dhcp_client" where
  "client_at s i = Clients (DhcpServer s) ! i"

definition upd_client :: "nat \<Rightarrow> (dhcp_client \<Rightarrow> dhcp_client) \<Rightarrow> ('w, 'z) dhcp_state_scheme \<Rightarrow> ('w, 'z) dhcp_state_scheme" where
  "upd_client i g s = s\<lparr>DhcpServer := (DhcpServer s)\<lparr>Clients := (Clients (DhcpServer s))[i := g (client_at s i)]\<rparr>\<rparr>"

section \<open>Stations of the access point\<close>

text \<open>The loop over the stations; \<open>n\<close> of them are left and \<open>sta\<close> is the offset of the next one.\<close>

fun sta_scan :: "bytes \<Rightarrow> bytes \<Rightarrow> nat \<Rightarrow> nat \<Rightarrow> bool option" where
  "sta_scan mac buf sta 0 = Some False"
| "sta_scan mac buf sta (Suc n) = do {
     addr \<leftarrow> buf_get buf sta 6;
     if mac = addr then Some True else sta_scan mac buf (sta + 6) n
   }"

definition CheckMacIsValid ::
    "'w wlan_ops \<Rightarrow> bytes \<Rightarrow> ('w, 'z) dhcp_state_scheme \<Rightarrow> (bool \<times> ('w, 'z) dhcp_state_scheme) option" where
  "CheckMacIsValid w mac s =
     (let (sta_buf, s) = tls_mem_alloc STA_MAC_BUF_LEN s in
      case sta_buf of
        None \<Rightarrow> Some (False, s)
      | Some _ \<Rightarrow> do {
          let (sta_num, info) = authed_sta w (wlan s);
          sta_buf \<leftarrow> buf_put (zeros STA_MAC_BUF_LEN) 0 info;
          ret \<leftarrow> sta_scan mac sta_buf 0 sta_num;
          Some (ret, s)
        })"

section \<open>The tick\<close>

text \<open>The body of the loop for one client.\<close>

definition tick_client :: "'w wlan_ops \<Rightarrow> nat \<Rightarrow> ('w, 'z) dhcp_state_scheme \<Rightarrow> ('w, 'z) dhcp_state_scheme option" where
  "tick_client w i s =
     (let c = client_at s i in
      if State c = REQUEST
      then Some (if Timeout c \<noteq> 0
                 then (if Timeout c - 1 = 0 then upd_client i (\<lambda>c. c\<lparr>Timeout := 0, MacAddr := zeros 6, State := IDLE\<rparr>) s
                       else upd_client i (\<lambda>c. c\<lparr>Timeout := Timeout c - 1\<rparr>) s)
                 else s)
      else if State c = BIND
      then (let s = (if Lease c \<noteq> 0 then upd_client i (\<lambda>c. c\<lparr>Lease := Lease c - 1\<rparr>) s else s) in
            if Lease c \<noteq> 0 \<and> Lease c - 1 = 0 then Some (upd_client i (\<lambda>c. c\<lparr>State := IDLE\<rparr>) s)
            else do {
              (ok, s) \<leftarrow> CheckMacIsValid w (MacAddr c) s;
              Some (if \<not> ok then upd_client i (\<lambda>c. c\<lparr>State := IDLE\<rparr>) s else s)
            })
      else Some s)"

fun tick_loop :: "'w wlan_ops \<Rightarrow> nat \<Rightarrow> nat \<Rightarrow> ('w, 'z) dhcp_state_scheme \<Rightarrow> ('w, 'z) dhcp_state_scheme option" where
  "tick_loop w i 0 s = Some s"
| "tick_loop w i (Suc n) s = do { s \<leftarrow> tick_client w i s; tick_loop w (Suc i) n s }"

text \<open>The handler of the timeout: the timeout that fired is gone, the handler sets the next one.\<close>

definition DhcpTickHandle :: "'w wlan_ops \<Rightarrow> ('w, 'z) dhcp_state_scheme \<Rightarrow> ('w, 'z) dhcp_state_scheme option" where
  "DhcpTickHandle w s =
     (let s = s\<lparr>timers := timers s - 1\<rparr> in
      if \<not> Enable (DhcpServer s) then Some s
      else do {
        s \<leftarrow> tick_loop w 0 DHCPS_HISTORY_CLIENT_NUM s;
        Some (if Enable (DhcpServer s) then s\<lparr>timers := timers s + 1\<rparr> else s)
      })"

section \<open>Options\<close>

record dhcp_options =
  opt_ret :: u8
  opt_type :: u8
  opt_req_ip :: u32
  opt_server :: u32

text \<open>The loop of \<open>_ParseDhcpOptions\<close> at the offset \<open>p\<close> of the message. The first condition of the loop
  reads the byte at \<open>p\<close> before the second one compares \<open>p\<close> with the end.\<close>

function parse_options :: "bytes \<Rightarrow> nat \<Rightarrow> dhcp_options \<Rightarrow> dhcp_options option" where
  "parse_options m p v =
     (if p \<ge> length m then None
      else if m ! p = 255 then Some v
      else if m ! p = 0 then parse_options m (p + 1) v
      else if p + 1 \<ge> length m then None
      else if m ! p = 53
      then (case buf_get m (p + 2) 1 of
              None \<Rightarrow> None
            | Some b \<Rightarrow> parse_options m (p + 2 + unat (m ! (p + 1))) (v\<lparr>opt_type := b ! 0, opt_ret := opt_ret v OR 1\<rparr>))
      else if m ! p = 50
      then (case buf_get m (p + 2) 4 of
              None \<Rightarrow> None
            | Some b \<Rightarrow> parse_options m (p + 2 + unat (m ! (p + 1))) (v\<lparr>opt_req_ip := of_le32 b, opt_ret := opt_ret v OR 2\<rparr>))
      else if m ! p = 54
      then (case buf_get m (p + 2) 4 of
              None \<Rightarrow> None
            | Some b \<Rightarrow> parse_options m (p + 2 + unat (m ! (p + 1))) (v\<lparr>opt_server := of_le32 b, opt_ret := opt_ret v OR 4\<rparr>))
      else parse_options m (p + 2 + unat (m ! (p + 1))) v)"
  by pat_completeness auto
termination by (relation "measure (\<lambda>(m, p, v). length m - p)") auto

declare parse_options.simps [simp del]

definition ParseDhcpOptions :: "bytes \<Rightarrow> u8 \<Rightarrow> u32 \<Rightarrow> u32 \<Rightarrow> dhcp_options option" where
  "ParseDhcpOptions msg type0 req0 server0 =
     parse_options msg 240 \<lparr>opt_ret = 0, opt_type = type0, opt_req_ip = req0, opt_server = server0\<rparr>"

section \<open>The client table\<close>

text \<open>The pointers of \<open>_ClientTableLookup\<close>, as indices of the table.\<close>

record lookup_ptrs =
  pFreeClient :: "nat option"
  pReqClient :: "nat option"
  pMyHistoryClient :: "nat option"
  pHistoryClient :: "nat option"
  pMyClient :: "nat option"
  IpUnavailable :: bool

text \<open>\<open>if((p == NULL) && cond) p = pClient;\<close>\<close>

definition first_found :: "nat option \<Rightarrow> bool \<Rightarrow> nat \<Rightarrow> nat option" where
  "first_found p cond i = (if p = None \<and> cond then Some i else p)"

definition lookup_step :: "bytes \<Rightarrow> u32 \<Rightarrow> dhcp_client list \<Rightarrow> lookup_ptrs \<Rightarrow> nat \<Rightarrow> lookup_ptrs" where
  "lookup_step mac req cs v i =
     (let c = cs ! i in
      if State c = IDLE
      then v\<lparr>pMyHistoryClient := first_found (pMyHistoryClient v) (MacAddr c = mac) i,
             pReqClient := first_found (pReqClient v) (IpAddr c = req) i,
             pFreeClient := first_found (pFreeClient v) (MacAddr c = zeros 6) i,
             pHistoryClient := first_found (pHistoryClient v) (MacAddr c \<noteq> zeros 6) i\<rparr>
      else if MacAddr c = mac then v\<lparr>pMyClient := Some i\<rparr>
      else if IpAddr c = req then v\<lparr>IpUnavailable := True\<rparr>
      else v)"

definition lookup_scan :: "bytes \<Rightarrow> u32 \<Rightarrow> dhcp_client list \<Rightarrow> lookup_ptrs" where
  "lookup_scan mac req cs = foldl (lookup_step mac req cs)
     \<lparr>pFreeClient = None, pReqClient = None, pMyHistoryClient = None, pHistoryClient = None, pMyClient = None,
      IpUnavailable = False\<rparr> [0..<DHCPS_HISTORY_CLIENT_NUM]"

text \<open>The MAC address of an entry that was not bound yet is forgotten.\<close>

definition drop_offer :: "dhcp_client \<Rightarrow> dhcp_client" where
  "drop_offer c = (if State c \<noteq> BIND then c\<lparr>MacAddr := zeros 6\<rparr> else c)"

definition lookup_discover ::
    "lookup_ptrs \<Rightarrow> ('w, 'z) dhcp_state_scheme \<Rightarrow> nat option \<times> ('w, 'z) dhcp_state_scheme" where
  "lookup_discover v s =
     (case pMyClient v of
        Some my \<Rightarrow>
          (let s = upd_client my (\<lambda>c. c\<lparr>State := IDLE\<rparr>) s in
           if pReqClient v \<noteq> None then (pReqClient v, upd_client my drop_offer s) else (Some my, s))
      | None \<Rightarrow>
          if pReqClient v \<noteq> None then (pReqClient v, s)
          else if pMyHistoryClient v \<noteq> None then (pMyHistoryClient v, s)
          else if pFreeClient v \<noteq> None then (pFreeClient v, s)
          else (pHistoryClient v, s))"

definition lookup_request ::
    "lookup_ptrs \<Rightarrow> u32 \<Rightarrow> ('w, 'z) dhcp_state_scheme \<Rightarrow> nat option \<times> ('w, 'z) dhcp_state_scheme" where
  "lookup_request v server s =
     (let mine = (server = 0 \<or> ServerIpAddr (DhcpServer s) = server) in
      case pMyClient v of
        Some my \<Rightarrow>
          if IpUnavailable v then (None, upd_client my (\<lambda>c. (drop_offer c)\<lparr>State := IDLE\<rparr>) s)
          else if pReqClient v \<noteq> None
          then (if mine then pReqClient v else None, upd_client my (\<lambda>c. (drop_offer c)\<lparr>State := IDLE\<rparr>) s)
          else (if mine then Some my else None, s)
      | None \<Rightarrow> (if IpUnavailable v then None else if mine then pReqClient v else None, s))"

definition lookup_release ::
    "lookup_ptrs \<Rightarrow> ('w, 'z) dhcp_state_scheme \<Rightarrow> nat option \<times> ('w, 'z) dhcp_state_scheme" where
  "lookup_release v s =
     (None, case pMyClient v of
        Some my \<Rightarrow> upd_client my (\<lambda>c. (drop_offer c)\<lparr>State := IDLE\<rparr>) s
      | None \<Rightarrow> s)"

definition ClientTableLookup ::
    "bytes \<Rightarrow> u8 \<Rightarrow> u32 \<Rightarrow> u32 \<Rightarrow> ('w, 'z) dhcp_state_scheme \<Rightarrow> nat option \<times> ('w, 'z) dhcp_state_scheme" where
  "ClientTableLookup mac msg_type req server s =
     (let v = lookup_scan mac req (Clients (DhcpServer s));
          (ret, s) =
            (if msg_type = DHCP_MSG_DISCOVER then lookup_discover v s
             else if msg_type = DHCP_MSG_REQUEST then lookup_request v server s
             else if msg_type = DHCP_MSG_RELEASE \<or> msg_type = DHCP_MSG_DECLINE then lookup_release v s
             else (None, s))
      in case ret of
           None \<Rightarrow> (None, s)
         | Some i \<Rightarrow> (Some i, upd_client i (\<lambda>c. c\<lparr>MacAddr := mac\<rparr>) s))"

section \<open>Replies\<close>

definition opt_u32 :: "u8 \<Rightarrow> u32 \<Rightarrow> bytes" where
  "opt_u32 code x = [code, 4] @ le32 x"

definition opt_msg_type :: "u8 \<Rightarrow> bytes" where
  "opt_msg_type t = [53, 1, t]"

definition opt_dns :: "u32 \<Rightarrow> u32 \<Rightarrow> bytes" where
  "opt_dns dns1 dns2 = [6, 8] @ le32 dns1 @ le32 dns2"

text \<open>The options of an OFFER and an ACK.\<close>

definition lease_options :: "u8 \<Rightarrow> dhcp_server \<Rightarrow> bytes" where
  "lease_options t srv =
     opt_msg_type t @ opt_u32 51 (htonl (of_nat DHCP_DEFAULT_LEASE_TIME)) @ opt_u32 54 (ServerIpAddr srv) @
     opt_u32 1 (SubnetMask srv) @ opt_u32 3 (GateWay srv) @ opt_dns (Dns1 srv) (Dns2 srv) @ [255]"

definition nak_options :: bytes where
  "nak_options = opt_msg_type DHCP_MSG_NAK @ [255]"

text \<open>A reply in \<open>DhcpMsg\<close>: cleared, the header set, the options behind it.\<close>

definition reply_msg :: "u32 \<Rightarrow> u32 \<Rightarrow> u32 \<Rightarrow> bytes \<Rightarrow> bytes \<Rightarrow> bytes" where
  "reply_msg xid yiaddr siaddr mac opts =
     (let m = patch (zeros DHCP_MSG_SIZE) 0 [2, 1, 6];
          m = patch m 4 (le32 (htonl xid));
          m = patch m 16 (le32 yiaddr);
          m = patch m 20 (le32 siaddr);
          m = patch m 28 mac;
          m = patch m 236 (le32 (htonl DHCP_MAGIC))
      in patch m 240 opts)"

text \<open>\<open>pbuf_alloc\<close>: whether a buffer is there.\<close>

definition pbuf_alloc :: "'z os_state_scheme \<Rightarrow> bool \<times> 'z os_state_scheme" where
  "pbuf_alloc s = (let (b, s) = tls_mem_alloc DHCP_MSG_SIZE s in (b \<noteq> None, s))"

text \<open>\<open>udp_sendto\<close> on the socket of the server, which must not be NULL.\<close>

definition udp_sendto :: "u32 \<Rightarrow> bytes \<Rightarrow> ('w, 'z) dhcp_state_scheme \<Rightarrow> ('w, 'z) dhcp_state_scheme option" where
  "udp_sendto dst payload s =
     (if Socket (DhcpServer s) then Some (s\<lparr>sent := sent s @ [Udp dst payload]\<rparr>) else None)"

definition DHCPNakGenAndSend :: "bytes \<Rightarrow> u32 \<Rightarrow> ('w, 'z) dhcp_state_scheme \<Rightarrow> ('w, 'z) dhcp_state_scheme option" where
  "DHCPNakGenAndSend mac xid s =
     (let (ok, s) = pbuf_alloc s in
      if \<not> ok then Some s
      else (let m = reply_msg xid 0 (ServerIpAddr (DhcpServer s)) mac nak_options
            in udp_sendto 0xFFFFFFFF (take (240 + length nak_options) m) (s\<lparr>DhcpMsg := m\<rparr>)))"

text \<open>\<open>_DHCPAckGenAndSend\<close> and \<open>_DHCPOfferGenAndSend\<close> differ in the message type only.\<close>

definition lease_send :: "u8 \<Rightarrow> nat \<Rightarrow> bytes \<Rightarrow> u32 \<Rightarrow> u16 \<Rightarrow> ('w, 'z) dhcp_state_scheme \<Rightarrow> ('w, 'z) dhcp_state_scheme option" where
  "lease_send t i mac xid flags s =
     (let (ok, s) = pbuf_alloc s in
      if \<not> ok then Some s
      else (let opts = lease_options t (DhcpServer s);
                ip = IpAddr (client_at s i);
                m = reply_msg xid ip 0 mac opts;
                s = s\<lparr>DhcpMsg := m\<rparr>
            in if drop_bit 15 flags = 1
               then udp_sendto 0xFFFFFFFF (take (240 + length opts) m) s
               else udp_sendto ip (take (240 + length opts) m) (s\<lparr>sent := sent s @ [Arp ip mac]\<rparr>)))"

definition DHCPAckGenAndSend :: "nat \<Rightarrow> bytes \<Rightarrow> u32 \<Rightarrow> u16 \<Rightarrow> ('w, 'z) dhcp_state_scheme \<Rightarrow> ('w, 'z) dhcp_state_scheme option" where
  "DHCPAckGenAndSend = lease_send DHCP_MSG_ACK"

definition DHCPOfferGenAndSend :: "nat \<Rightarrow> bytes \<Rightarrow> u32 \<Rightarrow> u16 \<Rightarrow> ('w, 'z) dhcp_state_scheme \<Rightarrow> ('w, 'z) dhcp_state_scheme option" where
  "DHCPOfferGenAndSend = lease_send DHCP_MSG_OFFER"

section \<open>The state machine of a client\<close>

definition clean_step :: "bytes \<Rightarrow> ('w, 'z) dhcp_state_scheme \<Rightarrow> nat \<Rightarrow> ('w, 'z) dhcp_state_scheme" where
  "clean_step mac s i =
     (if State (client_at s i) = IDLE \<and> MacAddr (client_at s i) = mac
      then upd_client i (\<lambda>c. c\<lparr>MacAddr := zeros 6\<rparr>) s else s)"

definition CleanClientHistory :: "bytes \<Rightarrow> ('w, 'z) dhcp_state_scheme \<Rightarrow> ('w, 'z) dhcp_state_scheme" where
  "CleanClientHistory mac s = foldl (clean_step mac) s [0..<DHCPS_HISTORY_CLIENT_NUM]"

text \<open>The ACK with what follows it, and the OFFER with what follows it.\<close>

definition sme_ack :: "nat \<Rightarrow> u32 \<Rightarrow> u16 \<Rightarrow> ('w, 'z) dhcp_state_scheme \<Rightarrow> ('w, 'z) dhcp_state_scheme option" where
  "sme_ack i xid flags s = do {
     s \<leftarrow> DHCPAckGenAndSend i (MacAddr (client_at s i)) xid flags s;
     let s = upd_client i (\<lambda>c. c\<lparr>Lease := DHCP_DEFAULT_LEASE_TIME, State := BIND\<rparr>) s;
     Some (CleanClientHistory (MacAddr (client_at s i)) s)
   }"

definition sme_offer :: "nat \<Rightarrow> u32 \<Rightarrow> u16 \<Rightarrow> ('w, 'z) dhcp_state_scheme \<Rightarrow> ('w, 'z) dhcp_state_scheme option" where
  "sme_offer i xid flags s = do {
     s \<leftarrow> DHCPOfferGenAndSend i (MacAddr (client_at s i)) xid flags s;
     Some (upd_client i (\<lambda>c. c\<lparr>Timeout := DHCP_DEFFAULT_TIMEOUT, State := REQUEST\<rparr>) s)
   }"

definition DhcpClientSMEHandle :: "nat \<Rightarrow> u8 \<Rightarrow> u32 \<Rightarrow> u16 \<Rightarrow> ('w, 'z) dhcp_state_scheme \<Rightarrow> ('w, 'z) dhcp_state_scheme option" where
  "DhcpClientSMEHandle i msg_type xid flags s =
     (case State (client_at s i) of
        IDLE \<Rightarrow>
          if msg_type = DHCP_MSG_DISCOVER then sme_offer i xid flags (upd_client i (\<lambda>c. c\<lparr>State := SELECT\<rparr>) s)
          else if msg_type = DHCP_MSG_REQUEST then sme_ack i xid flags s
          else sme_offer i xid flags s
      | SELECT \<Rightarrow> sme_offer i xid flags s
      | REQUEST \<Rightarrow> sme_ack i xid flags s
      | BIND \<Rightarrow> sme_ack i xid flags s)"

section \<open>The interface\<close>

text \<open>A message that the filters let through: a request with the magic number, from a station of the access
  point that is not the device itself.\<close>

definition DHCPS_RecvCb :: "'w wlan_ops \<Rightarrow> bytes \<Rightarrow> ('w, 'z) dhcp_state_scheme \<Rightarrow> ('w, 'z) dhcp_state_scheme option" where
  "DHCPS_RecvCb w p s =
     (let m = patch (zeros DHCP_MSG_SIZE) 0 (take DHCP_MSG_SIZE p); mac = slice 28 6 m; s = s\<lparr>DhcpMsg := m\<rparr> in
      if p = [] \<or> m ! 0 \<noteq> 1 \<or> htonl (of_le32 (slice 236 4 m)) \<noteq> DHCP_MAGIC \<or> m ! 1 \<noteq> 1 then Some s
      else if own_mac w (wlan s) = mac then Some s
      else do {
        (ok, s) \<leftarrow> CheckMacIsValid w mac s;
        if \<not> ok then Some s
        else do {
          v \<leftarrow> ParseDhcpOptions m 0xff 0 0;
          if opt_ret v AND 1 = 0 then Some s
          else if opt_type v = DHCP_MSG_INFORM then Some s
          else (let xid = htonl (of_le32 (slice 4 4 m)); flags = ntohs (of_le16 (slice 10 2 m)) in
            case ClientTableLookup mac (opt_type v) (opt_req_ip v) (opt_server v) s of
              (None, s) \<Rightarrow>
                if opt_type v \<noteq> DHCP_MSG_RELEASE \<and> opt_type v \<noteq> DHCP_MSG_DECLINE then DHCPNakGenAndSend mac xid s else Some s
            | (Some i, s) \<Rightarrow> DhcpClientSMEHandle i (opt_type v) xid flags s)
        }
      })"

definition DHCPS_GetIpByMac :: "bytes \<Rightarrow> ('w, 'z) dhcp_state_scheme \<Rightarrow> u32 option" where
  "DHCPS_GetIpByMac mac s = map_option IpAddr (find (\<lambda>c. MacAddr c = mac) (Clients (DhcpServer s)))"

definition DHCPS_GetMacByIp :: "u32 \<Rightarrow> ('w, 'z) dhcp_state_scheme \<Rightarrow> bytes option" where
  "DHCPS_GetMacByIp ip s = map_option MacAddr (find (\<lambda>c. IpAddr c = ip) (Clients (DhcpServer s)))"

definition DHCPS_SetDns :: "u8 \<Rightarrow> u32 \<Rightarrow> ('w, 'z) dhcp_state_scheme \<Rightarrow> ('w, 'z) dhcp_state_scheme" where
  "DHCPS_SetDns numdns dns s =
     (let s = (if numdns = 0 then s\<lparr>DhcpServer := (DhcpServer s)\<lparr>Dns1 := dns\<rparr>\<rparr> else s)
      in if numdns = 1 then s\<lparr>DhcpServer := (DhcpServer s)\<lparr>Dns2 := dns\<rparr>\<rparr> else s)"

fun delete_loop :: "bytes \<Rightarrow> nat \<Rightarrow> nat \<Rightarrow> ('w, 'z) dhcp_state_scheme \<Rightarrow> int \<times> ('w, 'z) dhcp_state_scheme" where
  "delete_loop mac i 0 s = (DHCPS_ERR_NOT_FOUND, s)"
| "delete_loop mac i (Suc n) s =
     (if State (client_at s i) \<noteq> IDLE \<and> MacAddr (client_at s i) = mac
      then (if State (client_at s i) \<noteq> BIND then (DHCPS_ERR_NOT_BIND, s)
            else (DHCPS_ERR_SUCCESS, upd_client i (\<lambda>c. c\<lparr>State := IDLE\<rparr>) s))
      else delete_loop mac (Suc i) n s)"

definition DHCPS_ClientDelete :: "bytes option \<Rightarrow> ('w, 'z) dhcp_state_scheme \<Rightarrow> int \<times> ('w, 'z) dhcp_state_scheme" where
  "DHCPS_ClientDelete mac s =
     (if \<not> Enable (DhcpServer s) then (DHCPS_ERR_INACTIVE, s)
      else case mac of
        None \<Rightarrow> (DHCPS_ERR_PARAM, s)
      | Some mac \<Rightarrow> delete_loop mac 0 DHCPS_HISTORY_CLIENT_NUM s)"

record netif =
  netif_up :: bool
  ip_addr :: u32
  netmask :: u32

text \<open>The address that \<open>DHCPS_Start\<close> computes \<open>i\<close> places after \<open>host\<close>; both in host order. A mask of all
  ones makes it divide by zero.\<close>

definition pool_addr :: "u32 \<Rightarrow> u32 \<Rightarrow> u32 \<Rightarrow> u32" where
  "pool_addr nmask host i =
     (let tmp = host AND NOT nmask;
          tmp = (if (tmp + i) mod (NOT nmask) \<noteq> 0 then (tmp + i) mod (NOT nmask) else 1)
      in (host AND nmask) OR tmp)"

definition DHCPS_Start :: "netif \<Rightarrow> ('w, 'z) dhcp_state_scheme \<Rightarrow> (int \<times> ('w, 'z) dhcp_state_scheme) option" where
  "DHCPS_Start n s =
     (if \<not> netif_up n then Some (DHCPS_ERR_LINKDOWN, s)
      else (let host = htonl (ip_addr n); nmask = htonl (netmask n) in
        if NOT nmask = 0 then None
        else (let start = pool_addr nmask host 1;
                  srv = zero_server\<lparr>ServerIpAddr := ip_addr n, StartIpAddr := htonl start, SubnetMask := netmask n,
                    GateWay := ip_addr n, Dns1 := ip_addr n, LeaseTime := DHCP_DEFAULT_LEASE_TIME,
                    Clients := map (\<lambda>i. zero_client\<lparr>IpAddr := htonl (pool_addr nmask start (of_nat i)),
                      Lease := DHCP_DEFAULT_LEASE_TIME\<rparr>) [0..<DHCPS_HISTORY_CLIENT_NUM]\<rparr>;
                  (ok, s) = pbuf_alloc (s\<lparr>DhcpServer := srv\<rparr>)
              in if \<not> ok then Some (DHCPS_ERR_MEM, s)
                 else Some (DHCPS_ERR_SUCCESS, s\<lparr>DhcpServer := (DhcpServer s)\<lparr>Socket := True, Enable := True\<rparr>,
                   timers := timers s + 1\<rparr>))))"

definition DHCPS_Stop :: "('w, 'z) dhcp_state_scheme \<Rightarrow> ('w, 'z) dhcp_state_scheme" where
  "DHCPS_Stop s = s\<lparr>timers := timers s - 1, DhcpServer := zero_server\<rparr>"

end
