(* ===== verification/Dhcp_Lease.thy ===== *)
theory Dhcp_Lease
  imports Dhcp_Server
begin

text \<open>
  The client table of the DHCP server. \<open>table_ok\<close> is its invariant, \<open>only_mac\<close> says that a step concerns the
  entries of one client only; both are shown for every operation, and over every sequence of messages,
  ticks and calls of the interface.
\<close>

section \<open>Accessing the table\<close>

definition table :: "('w, 'z) dhcp_state_scheme \<Rightarrow> dhcp_client list" where
  "table s = Clients (DhcpServer s)"

definition active :: "dhcp_client \<Rightarrow> bool" where
  "active c \<longleftrightarrow> State c \<noteq> IDLE"

lemma client_at_table: "client_at s i = table s ! i"
  by (simp add: client_at_def table_def)

lemma upd_client_sel [simp]:
  "table (upd_client i g s) = (table s)[i := g (table s ! i)]"
  "heap (upd_client i g s) = heap s" "junk (upd_client i g s) = junk s" "DhcpMsg (upd_client i g s) = DhcpMsg s"
  "timers (upd_client i g s) = timers s" "wlan (upd_client i g s) = wlan s" "sent (upd_client i g s) = sent s"
  "Enable (DhcpServer (upd_client i g s)) = Enable (DhcpServer s)" "Socket (DhcpServer (upd_client i g s)) = Socket (DhcpServer s)"
  "ServerIpAddr (DhcpServer (upd_client i g s)) = ServerIpAddr (DhcpServer s)"
  by (simp_all add: upd_client_def table_def client_at_def)

lemma upd_client_twice:
  "i < length (table s) \<Longrightarrow> upd_client i g (upd_client i f s) = upd_client i (\<lambda>c. g (f c)) s"
  by (simp add: upd_client_def client_at_def table_def)

lemma lease_options_upd_client [simp]:
  "lease_options t (DhcpServer (upd_client i g s)) = lease_options t (DhcpServer s)"
  by (simp add: lease_options_def upd_client_def)

section \<open>The scan of the table\<close>

definition scan_upto :: "bytes \<Rightarrow> u32 \<Rightarrow> dhcp_client list \<Rightarrow> nat \<Rightarrow> lookup_ptrs" where
  "scan_upto mac req cs n = foldl (lookup_step mac req cs)
     \<lparr>pFreeClient = None, pReqClient = None, pMyHistoryClient = None, pHistoryClient = None, pMyClient = None,
      IpUnavailable = False\<rparr> [0..<n]"

text \<open>What the pointers mean after the first \<open>n\<close> entries.\<close>

definition points :: "(nat \<Rightarrow> bool) \<Rightarrow> nat \<Rightarrow> nat option \<Rightarrow> bool" where
  "points P n p \<longleftrightarrow> (case p of Some i \<Rightarrow> i < n \<and> P i | None \<Rightarrow> \<forall>i<n. \<not> P i)"

lemma points_Suc:
  "points P n p \<Longrightarrow> points P (Suc n) (if P n \<and> p = None then Some n else p)"
  "points P n p \<Longrightarrow> points P (Suc n) (if P n then Some n else p)"
  by (auto simp: points_def less_Suc_eq split: option.splits)

definition scan_ok :: "bytes \<Rightarrow> u32 \<Rightarrow> dhcp_client list \<Rightarrow> nat \<Rightarrow> lookup_ptrs \<Rightarrow> bool" where
  "scan_ok mac req cs n v \<longleftrightarrow>
     points (\<lambda>i. \<not> active (cs ! i) \<and> MacAddr (cs ! i) = zeros 6) n (pFreeClient v) \<and>
     points (\<lambda>i. \<not> active (cs ! i) \<and> IpAddr (cs ! i) = req) n (pReqClient v) \<and>
     points (\<lambda>i. \<not> active (cs ! i) \<and> MacAddr (cs ! i) = mac) n (pMyHistoryClient v) \<and>
     points (\<lambda>i. \<not> active (cs ! i) \<and> MacAddr (cs ! i) \<noteq> zeros 6) n (pHistoryClient v) \<and>
     points (\<lambda>i. active (cs ! i) \<and> MacAddr (cs ! i) = mac) n (pMyClient v) \<and>
     (IpUnavailable v \<longleftrightarrow> (\<exists>i<n. active (cs ! i) \<and> MacAddr (cs ! i) \<noteq> mac \<and> IpAddr (cs ! i) = req))"

lemma lookup_step_sel:
  "pFreeClient (lookup_step mac req cs v i) =
     (if (\<not> active (cs ! i) \<and> MacAddr (cs ! i) = zeros 6) \<and> pFreeClient v = None then Some i else pFreeClient v)"
  "pReqClient (lookup_step mac req cs v i) =
     (if (\<not> active (cs ! i) \<and> IpAddr (cs ! i) = req) \<and> pReqClient v = None then Some i else pReqClient v)"
  "pMyHistoryClient (lookup_step mac req cs v i) =
     (if (\<not> active (cs ! i) \<and> MacAddr (cs ! i) = mac) \<and> pMyHistoryClient v = None then Some i else pMyHistoryClient v)"
  "pHistoryClient (lookup_step mac req cs v i) =
     (if (\<not> active (cs ! i) \<and> MacAddr (cs ! i) \<noteq> zeros 6) \<and> pHistoryClient v = None then Some i else pHistoryClient v)"
  "pMyClient (lookup_step mac req cs v i) = (if active (cs ! i) \<and> MacAddr (cs ! i) = mac then Some i else pMyClient v)"
  "IpUnavailable (lookup_step mac req cs v i) =
     (active (cs ! i) \<and> MacAddr (cs ! i) \<noteq> mac \<and> IpAddr (cs ! i) = req \<or> IpUnavailable v)"
  by (simp_all add: lookup_step_def active_def Let_def first_found_def)

lemma lookup_scan_step:
  assumes "scan_ok mac req cs n v"
  shows "scan_ok mac req cs (Suc n) (lookup_step mac req cs v n)"
  using assms unfolding scan_ok_def lookup_step_sel
  by (intro conjI points_Suc) (auto simp: less_Suc_eq)

lemma scan_facts: "scan_ok mac req cs n (scan_upto mac req cs n)"
  by (induction n) (simp_all add: scan_upto_def lookup_scan_step, simp add: scan_ok_def points_def)

lemma lookup_scan_upto: "lookup_scan mac req cs = scan_upto mac req cs 8"
  by (simp only: lookup_scan_def scan_upto_def)

lemma lookup_scan_ok: "scan_ok mac req cs 8 (lookup_scan mac req cs)"
  by (simp only: lookup_scan_upto scan_facts)

section \<open>The invariant of the table\<close>

definition client_ok :: "dhcp_client \<Rightarrow> bool" where
  "client_ok c \<longleftrightarrow> length (MacAddr c) = 6 \<and> State c \<noteq> SELECT \<and>
     (State c = REQUEST \<longrightarrow> 0 < Timeout c \<and> Timeout c \<le> DHCP_DEFFAULT_TIMEOUT) \<and>
     (State c = BIND \<longrightarrow> 0 < Lease c \<and> Lease c \<le> DHCP_DEFAULT_LEASE_TIME)"

definition one_entry :: "dhcp_client list \<Rightarrow> bool" where
  "one_entry cs \<longleftrightarrow> (\<forall>i < length cs. \<forall>j < length cs. active (cs ! i) \<and> active (cs ! j) \<and> MacAddr (cs ! i) = MacAddr (cs ! j) \<longrightarrow> i = j)"

definition table_ok :: "dhcp_client list \<Rightarrow> bool" where
  "table_ok cs \<longleftrightarrow> length cs = DHCPS_HISTORY_CLIENT_NUM \<and> (\<forall>i < DHCPS_HISTORY_CLIENT_NUM. client_ok (cs ! i)) \<and> one_entry cs"

text \<open>A step that concerns the client with one MAC address: the addresses of the entries stay, and so does
  every entry that is active for somebody else, before or after it.\<close>

definition only_mac :: "bytes \<Rightarrow> dhcp_client list \<Rightarrow> dhcp_client list \<Rightarrow> bool" where
  "only_mac mac cs cs' \<longleftrightarrow> map IpAddr cs' = map IpAddr cs \<and>
     (\<forall>i < length cs. active (cs ! i) \<and> MacAddr (cs ! i) \<noteq> mac \<or> active (cs' ! i) \<and> MacAddr (cs' ! i) \<noteq> mac \<longrightarrow> cs' ! i = cs ! i)"

lemma only_mac_refl [simp]: "only_mac mac cs cs"
  by (simp add: only_mac_def)

lemma only_mac_trans: "only_mac mac cs cs' \<Longrightarrow> only_mac mac cs' cs'' \<Longrightarrow> only_mac mac cs cs''"
  unfolding only_mac_def by (metis (no_types, lifting) length_map)

lemma only_mac_length: "only_mac mac cs cs' \<Longrightarrow> length cs' = length cs"
  by (metis only_mac_def length_map)

lemma only_mac_update:
  assumes "i < length cs" "IpAddr c = IpAddr (cs ! i)" "active (cs ! i) \<longrightarrow> MacAddr (cs ! i) = mac" "active c \<longrightarrow> MacAddr c = mac"
  shows "only_mac mac cs (cs[i := c])"
  using assms by (auto simp: only_mac_def nth_list_update map_update list_eq_iff_nth_eq)

lemma nth_updated: "j < length cs \<Longrightarrow> cs[i := c] ! j = (if j = i then c else cs ! j)"
  by (auto simp: nth_list_update)

lemma one_entry_update_idle: "one_entry cs \<Longrightarrow> \<not> active c \<Longrightarrow> one_entry (cs[i := c])"
  by (simp add: one_entry_def nth_updated)

lemma table_ok_update_idle:
  "table_ok cs \<Longrightarrow> \<not> active c \<Longrightarrow> length (MacAddr c) = 6 \<Longrightarrow> table_ok (cs[i := c])"
  by (simp add: table_ok_def client_ok_def nth_updated active_def one_entry_update_idle)

text \<open>No other entry is active for the client.\<close>

definition sole :: "bytes \<Rightarrow> nat \<Rightarrow> dhcp_client list \<Rightarrow> bool" where
  "sole mac i cs \<longleftrightarrow> (\<forall>j < length cs. j \<noteq> i \<and> active (cs ! j) \<longrightarrow> MacAddr (cs ! j) \<noteq> mac)"

lemma table_ok_update_sole:
  assumes "table_ok cs" "sole mac i cs" "client_ok c" "MacAddr c = mac"
  shows "table_ok (cs[i := c])"
  using assms by (auto simp: table_ok_def one_entry_def sole_def nth_updated)

lemma sole_mine:
  assumes "table_ok cs" "active (cs ! i)" "MacAddr (cs ! i) = mac" "i < DHCPS_HISTORY_CLIENT_NUM"
  shows "sole mac i cs"
  using assms by (auto simp: sole_def table_ok_def one_entry_def)


lemma sole_none: "\<forall>j < length cs. \<not> (active (cs ! j) \<and> MacAddr (cs ! j) = mac) \<Longrightarrow> sole mac i cs"
  by (auto simp: sole_def)

lemma sole_update_idle: "sole mac k cs \<Longrightarrow> \<not> active c \<Longrightarrow> sole mac i (cs[k := c])"
  by (auto simp: sole_def nth_updated)

lemma sole_update: "sole mac i cs \<Longrightarrow> sole mac i (cs[i := c])"
  by (auto simp: sole_def nth_updated)

lemma drop_offer_sel [simp]:
  "State (drop_offer c) = State c" "IpAddr (drop_offer c) = IpAddr c" "Timeout (drop_offer c) = Timeout c" "Lease (drop_offer c) = Lease c"
  "length (MacAddr c) = 6 \<Longrightarrow> length (MacAddr (drop_offer c)) = 6"
  by (simp_all add: drop_offer_def)

lemma active_sel [simp]: "active (c\<lparr>State := st\<rparr>) = (st \<noteq> IDLE)" "active (drop_offer c) = active c"
  "active (c\<lparr>MacAddr := m\<rparr>) = active c" "active (c\<lparr>Lease := l\<rparr>) = active c" "active (c\<lparr>Timeout := k\<rparr>) = active c"
  by (simp_all add: active_def)

section \<open>The lookup\<close>

text \<open>Two states that differ in the table only.\<close>

definition table_only :: "('w, 'z) dhcp_state_scheme \<Rightarrow> ('w, 'z) dhcp_state_scheme \<Rightarrow> bool" where
  "table_only s s' \<longleftrightarrow> s' = s\<lparr>DhcpServer := (DhcpServer s)\<lparr>Clients := table s'\<rparr>\<rparr>"

lemma table_only_refl [simp]: "table_only s s"
  by (simp add: table_only_def table_def)

lemma table_only_upd [simp]: "table_only s (upd_client i g s')" if "table_only s s'"
  using that by (cases s; cases s'; cases "DhcpServer s"; cases "DhcpServer s'") (auto simp: table_only_def table_def upd_client_def)

text \<open>What an entry that the lookup picked is like, before it gets its MAC address.\<close>

definition picked :: "bytes \<Rightarrow> u8 \<Rightarrow> dhcp_client list \<Rightarrow> nat option \<Rightarrow> bool" where
  "picked mac t cs r \<longleftrightarrow> (\<forall>i. r = Some i \<longrightarrow> i < DHCPS_HISTORY_CLIENT_NUM \<and> sole mac i cs \<and>
     (active (cs ! i) \<longrightarrow> t = DHCP_MSG_REQUEST \<and> MacAddr (cs ! i) = mac))"

text \<open>Releasing the entry of the client.\<close>

lemma release_mine:
  assumes ok: "table_ok (table s)" and my: "my < DHCPS_HISTORY_CLIENT_NUM" "active (table s ! my)" "MacAddr (table s ! my) = mac"
    and g: "\<not> active (g (table s ! my))" "IpAddr (g (table s ! my)) = IpAddr (table s ! my)" "length (MacAddr (g (table s ! my))) = 6"
  shows "table_ok (table (upd_client my g s))" "only_mac mac (table s) (table (upd_client my g s))"
    "sole mac i (table (upd_client my g s))"
proof -
  have len: "length (table s) = DHCPS_HISTORY_CLIENT_NUM" using ok by (simp add: table_ok_def)
  show "table_ok (table (upd_client my g s))" using table_ok_update_idle [OF ok g(1,3)] by simp
  show "only_mac mac (table s) (table (upd_client my g s))" using only_mac_update [of my "table s"] my g len by simp
  show "sole mac i (table (upd_client my g s))"
    using sole_update_idle [OF sole_mine [OF ok my(2,3,1)] g(1)] by simp
qed

lemma mac_length: "table_ok cs \<Longrightarrow> i < DHCPS_HISTORY_CLIENT_NUM \<Longrightarrow> length (MacAddr (cs ! i)) = 6"
  by (simp add: table_ok_def client_ok_def)

lemma lookup_discover_ok:
  assumes ok: "table_ok (table s)" and v: "scan_ok mac req (table s) DHCPS_HISTORY_CLIENT_NUM v" and r: "lookup_discover v s = (r, s')"
  shows "table_ok (table s') \<and> only_mac mac (table s) (table s') \<and> table_only s s' \<and> picked mac DHCP_MSG_DISCOVER (table s') r"
proof (cases "pMyClient v")
  case None
  then have no: "\<forall>j < length (table s). \<not> (active (table s ! j) \<and> MacAddr (table s ! j) = mac)"
    using v ok by (simp add: scan_ok_def points_def table_ok_def)
  have "points (\<lambda>i. \<not> active (table s ! i)) DHCPS_HISTORY_CLIENT_NUM r \<or> r = None"
    using v r None by (auto simp: scan_ok_def points_def lookup_discover_def split: option.splits if_splits)
  then show ?thesis
    using r None ok sole_none [OF no] by (auto simp: lookup_discover_def picked_def points_def split: if_splits)
next
  case (Some my)
  then have my: "my < DHCPS_HISTORY_CLIENT_NUM" "active (table s ! my)" "MacAddr (table s ! my) = mac"
    using v by (auto simp: scan_ok_def points_def)
  let ?s = "upd_client my (\<lambda>c. c\<lparr>State := IDLE\<rparr>) s"
  have len: "length (table s) = DHCPS_HISTORY_CLIENT_NUM" using ok by (simp add: table_ok_def)
  have mac: "length (MacAddr (table s ! my)) = 6" using mac_length [OF ok my(1)] .
  note 1 = release_mine [OF ok my, of "\<lambda>c. c\<lparr>State := IDLE\<rparr>"]
  show ?thesis
  proof (cases "pReqClient v")
    case None
    then show ?thesis using r Some my len 1 mac by (auto simp: lookup_discover_def picked_def)
  next
    case (Some q)
    then have q: "q < DHCPS_HISTORY_CLIENT_NUM" "\<not> active (table s ! q)" using v by (auto simp: scan_ok_def points_def)
    have "q \<noteq> my" using q my by auto
    let ?t = "upd_client my (\<lambda>c. drop_offer (c\<lparr>State := IDLE\<rparr>)) s"
    have "upd_client my drop_offer ?s = ?t"
      using len my(1) by (simp add: upd_client_twice)
    then have "s' = ?t" "r = Some q" using r Some \<open>pMyClient v = Some my\<close> by (auto simp: lookup_discover_def)
    then show ?thesis
      using release_mine [OF ok my, of "\<lambda>c. drop_offer (c\<lparr>State := IDLE\<rparr>)"] q \<open>q \<noteq> my\<close> mac by (auto simp: picked_def)
  qed
qed

lemma lookup_request_ok:
  assumes ok: "table_ok (table s)" and v: "scan_ok mac req (table s) DHCPS_HISTORY_CLIENT_NUM v" and r: "lookup_request v server s = (r, s')"
  shows "table_ok (table s') \<and> only_mac mac (table s) (table s') \<and> table_only s s' \<and> picked mac DHCP_MSG_REQUEST (table s') r"
proof (cases "pMyClient v")
  case None
  then have no: "\<forall>j < length (table s). \<not> (active (table s ! j) \<and> MacAddr (table s ! j) = mac)"
    using v ok by (simp add: scan_ok_def points_def table_ok_def)
  have "\<forall>i. r = Some i \<longrightarrow> i < DHCPS_HISTORY_CLIENT_NUM \<and> \<not> active (table s ! i)"
    using v r None by (auto simp: scan_ok_def points_def lookup_request_def Let_def split: if_splits)
  then show ?thesis
    using r None ok sole_none [OF no] by (auto simp: lookup_request_def picked_def Let_def split: if_splits)
next
  case (Some my)
  then have my: "my < DHCPS_HISTORY_CLIENT_NUM" "active (table s ! my)" "MacAddr (table s ! my) = mac"
    using v by (auto simp: scan_ok_def points_def)
  have mac: "length (MacAddr (table s ! my)) = 6" using mac_length [OF ok my(1)] .
  have len: "length (table s) = DHCPS_HISTORY_CLIENT_NUM" using ok by (simp add: table_ok_def)
  note 1 = release_mine [OF ok my, of "\<lambda>c. (drop_offer c)\<lparr>State := IDLE\<rparr>"]
  have req: "\<forall>q. pReqClient v = Some q \<longrightarrow> q < DHCPS_HISTORY_CLIENT_NUM \<and> \<not> active (table s ! q) \<and> q \<noteq> my"
    using v my by (auto simp: scan_ok_def points_def)
  show ?thesis
    using r Some my mac len 1 req ok sole_mine [OF ok my(2,3,1)]
    by (auto simp: lookup_request_def picked_def Let_def split: if_splits)
qed

lemma lookup_release_ok:
  assumes ok: "table_ok (table s)" and v: "scan_ok mac req (table s) DHCPS_HISTORY_CLIENT_NUM v" and r: "lookup_release v s = (r, s')"
  shows "table_ok (table s') \<and> only_mac mac (table s) (table s') \<and> table_only s s' \<and> picked mac t (table s') r"
proof (cases "pMyClient v")
  case (Some my)
  then have my: "my < DHCPS_HISTORY_CLIENT_NUM" "active (table s ! my)" "MacAddr (table s ! my) = mac"
    using v by (auto simp: scan_ok_def points_def)
  then show ?thesis
    using r Some release_mine [OF ok my, of "\<lambda>c. (drop_offer c)\<lparr>State := IDLE\<rparr>"] mac_length [OF ok my(1)]
    by (auto simp: lookup_release_def picked_def)
qed (use r ok in \<open>auto simp: lookup_release_def picked_def\<close>)

text \<open>The entry that \<open>_ClientTableLookup\<close> returns is the client's own, and only one.\<close>

lemma lookup_ok:
  assumes ok: "table_ok (table s)" and mac: "length mac = 6" and r: "ClientTableLookup mac t req server s = (r, s')"
  shows "table_ok (table s') \<and> only_mac mac (table s) (table s') \<and> table_only s s' \<and> picked mac t (table s') r \<and>
    (\<forall>i. r = Some i \<longrightarrow> MacAddr (table s' ! i) = mac \<and> (t = DHCP_MSG_DISCOVER \<or> t = DHCP_MSG_REQUEST))"
proof -
  define v where "v = lookup_scan mac req (table s)"
  have v: "scan_ok mac req (table s) DHCPS_HISTORY_CLIENT_NUM v" by (simp add: v_def lookup_scan_ok)
  obtain s1 where s1: "(if t = DHCP_MSG_DISCOVER then lookup_discover v s
             else if t = DHCP_MSG_REQUEST then lookup_request v server s
             else if t = DHCP_MSG_RELEASE \<or> t = DHCP_MSG_DECLINE then lookup_release v s
             else (None, s)) = (r, s1)"
      and s': "s' = (case r of None \<Rightarrow> s1 | Some i \<Rightarrow> upd_client i (\<lambda>c. c\<lparr>MacAddr := mac\<rparr>) s1)"
    using r by (auto simp: ClientTableLookup_def v_def [symmetric] table_def [symmetric] Let_def split: prod.splits option.splits)
  have "table_ok (table s1) \<and> only_mac mac (table s) (table s1) \<and> table_only s s1 \<and> picked mac t (table s1) r"
  proof -
    consider "t = DHCP_MSG_DISCOVER" | "t = DHCP_MSG_REQUEST" | "t = DHCP_MSG_RELEASE \<or> t = DHCP_MSG_DECLINE"
      | "r = None" "s1 = s" using s1 by (auto split: if_splits)
    then show ?thesis
    proof cases
      case 1
      then show ?thesis using s1 lookup_discover_ok [OF ok v, of r s1] by simp
    next
      case 2
      then show ?thesis using s1 lookup_request_ok [OF ok v, of server r s1] by simp
    next
      case 3
      then show ?thesis using s1 lookup_release_ok [OF ok v, of r s1 t] by auto
    qed (simp add: ok picked_def)
  qed
  then have 1: "table_ok (table s1)" "only_mac mac (table s) (table s1)" "table_only s s1" "picked mac t (table s1) r" by auto
  show ?thesis
  proof (cases r)
    case None
    then show ?thesis using 1 s' by (simp add: picked_def)
  next
    case (Some i)
    have t: "t = DHCP_MSG_DISCOVER \<or> t = DHCP_MSG_REQUEST" using s1 Some by (auto simp: lookup_release_def split: if_splits)
    have i: "i < DHCPS_HISTORY_CLIENT_NUM" "sole mac i (table s1)" "active (table s1 ! i) \<longrightarrow> t = DHCP_MSG_REQUEST \<and> MacAddr (table s1 ! i) = mac"
      using 1(4) Some by (auto simp: picked_def)
    have len: "length (table s1) = DHCPS_HISTORY_CLIENT_NUM" using 1(1) by (simp add: table_ok_def)
    have up: "table s' = (table s1)[i := (table s1 ! i)\<lparr>MacAddr := mac\<rparr>]" using s' Some by simp
    have "table_ok (table s')"
    proof (cases "active (table s1 ! i)")
      case True
      then have "(table s1 ! i)\<lparr>MacAddr := mac\<rparr> = table s1 ! i" using i(3) by simp
      then show ?thesis using 1(1) up by (simp add: list_update_id)
    next
      case False
      then show ?thesis using table_ok_update_idle [OF 1(1)] mac by (simp add: up)
    qed
    moreover have "only_mac mac (table s1) (table s')"
      unfolding up by (rule only_mac_update) (use i len in auto)
    moreover have "picked mac t (table s') r"
      using Some i len sole_update [OF i(2)] by (auto simp: picked_def up)
    ultimately show ?thesis
      using 1(2,3) Some s' i len t up only_mac_trans by auto
  qed
qed


section \<open>The state machine\<close>

text \<open>Two states with the same server, but for the table.\<close>

definition same_server :: "('w, 'z) dhcp_state_scheme \<Rightarrow> ('w, 'z) dhcp_state_scheme \<Rightarrow> bool" where
  "same_server s s' \<longleftrightarrow> (DhcpServer s')\<lparr>Clients := []\<rparr> = (DhcpServer s)\<lparr>Clients := []\<rparr> \<and> timers s' = timers s \<and> wlan s' = wlan s"

lemma same_server_refl [simp]: "same_server s s"
  by (simp add: same_server_def)

lemma same_server_trans: "same_server s s' \<Longrightarrow> same_server s' s'' \<Longrightarrow> same_server s s''"
  by (simp add: same_server_def)

lemma same_server_upd [simp]: "same_server s (upd_client i g s')" if "same_server s s'"
  using that by (simp add: same_server_def upd_client_def)

lemma table_only_same_server:
  assumes "table_only s s'"
  shows "same_server s s'"
proof -
  obtain cs where "s' = s\<lparr>DhcpServer := (DhcpServer s)\<lparr>Clients := cs\<rparr>\<rparr>" using assms by (auto simp: table_only_def)
  then show ?thesis by (simp add: same_server_def)
qed

lemma same_server_sel:
  assumes "same_server s s'"
  shows "Enable (DhcpServer s') = Enable (DhcpServer s)" "Socket (DhcpServer s') = Socket (DhcpServer s)"
    "ServerIpAddr (DhcpServer s') = ServerIpAddr (DhcpServer s)"
  using assms by (cases "DhcpServer s"; cases "DhcpServer s'"; simp add: same_server_def)+

lemma alloc_frame:
  "tls_mem_alloc n s = (b, s') \<Longrightarrow> DhcpServer s' = DhcpServer s \<and> timers s' = timers s \<and> wlan s' = wlan s \<and> sent s' = sent s"
  by (auto simp: tls_mem_alloc_def split: list.splits if_splits)

lemma pbuf_frame:
  "pbuf_alloc s = (b, s') \<Longrightarrow> DhcpServer s' = DhcpServer s \<and> timers s' = timers s \<and> wlan s' = wlan s \<and> sent s' = sent s"
  by (auto simp: pbuf_alloc_def dest!: alloc_frame split: prod.splits)

lemma lease_send_frame:
  "lease_send t i mac xid flags s = Some s' \<Longrightarrow> DhcpServer s' = DhcpServer s \<and> timers s' = timers s \<and> wlan s' = wlan s"
  by (auto simp: lease_send_def Let_def udp_sendto_def dest!: pbuf_frame split: prod.splits if_splits)

lemma nak_send_frame:
  "DHCPNakGenAndSend mac xid s = Some s' \<Longrightarrow> DhcpServer s' = DhcpServer s \<and> timers s' = timers s \<and> wlan s' = wlan s"
  by (auto simp: DHCPNakGenAndSend_def Let_def udp_sendto_def dest!: pbuf_frame split: prod.splits if_splits)

lemma same_server_table: "DhcpServer s' = DhcpServer s \<Longrightarrow> table s' = table s"
  by (simp add: table_def)

definition clean :: "bytes \<Rightarrow> dhcp_client \<Rightarrow> dhcp_client" where
  "clean mac c = (if \<not> active c \<and> MacAddr c = mac then c\<lparr>MacAddr := zeros 6\<rparr> else c)"

lemma clean_sel [simp]: "State (clean mac c) = State c" "IpAddr (clean mac c) = IpAddr c" "Timeout (clean mac c) = Timeout c"
  "Lease (clean mac c) = Lease c" "active (clean mac c) = active c" "active c \<Longrightarrow> clean mac c = c"
  "length (MacAddr c) = 6 \<Longrightarrow> length (MacAddr (clean mac c)) = 6"
  by (simp_all add: clean_def)

lemma clean_step_facts:
  "i < length (table s) \<Longrightarrow> table (clean_step mac s i) = (table s)[i := clean mac (table s ! i)]"
  "same_server s (clean_step mac s i)" "sent (clean_step mac s i) = sent s" "heap (clean_step mac s i) = heap s"
  by (simp_all add: clean_step_def client_at_table clean_def active_def)

lemma clean_history_upto:
  assumes "n \<le> length (table s)"
  shows "table (foldl (clean_step mac) s [0..<n]) = map (clean mac) (take n (table s)) @ drop n (table s) \<and>
    same_server s (foldl (clean_step mac) s [0..<n]) \<and> sent (foldl (clean_step mac) s [0..<n]) = sent s \<and>
    heap (foldl (clean_step mac) s [0..<n]) = heap s"
  using assms
proof (induction n)
  case (Suc n)
  let ?t = "foldl (clean_step mac) s [0..<n]"
  have IH: "table ?t = map (clean mac) (take n (table s)) @ drop n (table s)" "same_server s ?t" "sent ?t = sent s" "heap ?t = heap s"
    using Suc by auto
  have drop: "drop n (table s) = table s ! n # drop (Suc n) (table s)" using Suc.prems by (simp add: Cons_nth_drop_Suc)
  have "table ?t ! n = table s ! n" "n < length (table ?t)" using Suc.prems by (simp_all add: IH(1) nth_append)
  then have "table (clean_step mac ?t n) =
      map (clean mac) (take n (table s)) @ clean mac (table s ! n) # drop (Suc n) (table s)"
    using Suc.prems by (simp add: clean_step_facts(1) IH(1) drop list_update_append)
  then show ?case
    using Suc.prems IH(2-4) clean_step_facts(2) [of ?t mac n] same_server_trans [of s ?t]
    by (simp add: take_Suc_conv_app_nth clean_step_facts)
qed simp

lemma clean_history:
  assumes "length (table s) = DHCPS_HISTORY_CLIENT_NUM"
  shows "table (CleanClientHistory mac s) = map (clean mac) (table s)" "same_server s (CleanClientHistory mac s)"
    "sent (CleanClientHistory mac s) = sent s" "heap (CleanClientHistory mac s) = heap s"
  using clean_history_upto [of DHCPS_HISTORY_CLIENT_NUM s mac] assms
  by (simp_all add: CleanClientHistory_def del: upt_rec_numeral)

lemma clean_ok: "table_ok cs \<Longrightarrow> table_ok (map (clean mac) cs)"
proof -
  assume ok: "table_ok cs"
  then have "one_entry (map (clean mac) cs)" by (auto simp: table_ok_def one_entry_def)
  then show ?thesis using ok by (auto simp: table_ok_def client_ok_def)
qed

lemma clean_only: "only_mac mac cs (map (clean mac') cs)"
  by (auto simp: only_mac_def)

text \<open>What the ACK and the OFFER do to the table, and that they return.\<close>

definition bound :: "dhcp_client \<Rightarrow> dhcp_client" where
  "bound c = c\<lparr>Lease := DHCP_DEFAULT_LEASE_TIME, State := BIND\<rparr>"

definition offered :: "dhcp_client \<Rightarrow> dhcp_client" where
  "offered c = c\<lparr>Timeout := DHCP_DEFFAULT_TIMEOUT, State := REQUEST\<rparr>"

lemma ack_table:
  assumes r: "sme_ack i xid flags s = Some s'" and ok: "table_ok (table s)" and i: "i < DHCPS_HISTORY_CLIENT_NUM"
  shows "table s' = map (clean (MacAddr (table s ! i))) ((table s)[i := bound (table s ! i)]) \<and> same_server s s'"
proof -
  have len: "length (table s) = DHCPS_HISTORY_CLIENT_NUM" using ok by (simp add: table_ok_def)
  have b: "(\<lambda>c. c\<lparr>Lease := DHCP_DEFAULT_LEASE_TIME, State := BIND\<rparr>) = bound" by (simp add: bound_def fun_eq_iff)
  obtain s1 where s1: "lease_send DHCP_MSG_ACK i (MacAddr (client_at s i)) xid flags s = Some s1"
      "s' = CleanClientHistory (MacAddr (client_at (upd_client i bound s1) i)) (upd_client i bound s1)"
    using r unfolding sme_ack_def DHCPAckGenAndSend_def Let_def b by (auto simp: bind_eq_Some_conv)
  note f = lease_send_frame [OF s1(1)]
  have t: "table s1 = table s" using f by (intro same_server_table) simp
  have ss: "same_server s s1" using f by (simp add: same_server_def)
  have u: "table (upd_client i bound s1) = (table s)[i := bound (table s ! i)]" by (simp add: t)
  have m: "MacAddr (client_at (upd_client i bound s1) i) = MacAddr (table s ! i)"
    using i len by (simp add: client_at_table t bound_def)
  have l: "length (table (upd_client i bound s1)) = DHCPS_HISTORY_CLIENT_NUM" using len t by simp
  show ?thesis
    using clean_history(1) [OF l] same_server_trans [OF same_server_upd [OF ss] clean_history(2) [OF l]]
    by (simp only: s1(2) m u simp_thms)
qed

lemma offer_table:
  assumes r: "sme_offer i xid flags s = Some s'"
  shows "table s' = (table s)[i := offered (table s ! i)] \<and> same_server s s'"
proof -
  have b: "(\<lambda>c. c\<lparr>Timeout := DHCP_DEFFAULT_TIMEOUT, State := REQUEST\<rparr>) = offered" by (simp add: offered_def fun_eq_iff)
  obtain s1 where s1: "lease_send DHCP_MSG_OFFER i (MacAddr (client_at s i)) xid flags s = Some s1" "s' = upd_client i offered s1"
    using r unfolding sme_offer_def DHCPOfferGenAndSend_def b by (auto simp: bind_eq_Some_conv)
  note f = lease_send_frame [OF s1(1)]
  then have "same_server s s1" "table s1 = table s" by (auto simp: same_server_def intro: same_server_table)
  then show ?thesis using same_server_upd [of s s1 i offered] s1(2) by simp
qed

lemma client_ok_bound: "length (MacAddr c) = 6 \<Longrightarrow> client_ok (bound c)" "length (MacAddr c) = 6 \<Longrightarrow> client_ok (offered c)"
  by (simp_all add: client_ok_def bound_def offered_def)

lemma bound_sel [simp]: "MacAddr (bound c) = MacAddr c" "IpAddr (bound c) = IpAddr c" "State (bound c) = BIND" "active (bound c)"
  "MacAddr (offered c) = MacAddr c" "IpAddr (offered c) = IpAddr c" "State (offered c) = REQUEST" "active (offered c)"
  by (simp_all add: bound_def offered_def active_def)

lemma sme_ok:
  assumes r: "DhcpClientSMEHandle i t xid flags s = Some s'" and ok: "table_ok (table s)" and i: "i < DHCPS_HISTORY_CLIENT_NUM"
    and mac: "MacAddr (table s ! i) = mac" and sole: "sole mac i (table s)"
  shows "table_ok (table s') \<and> only_mac mac (table s) (table s') \<and> same_server s s'"
proof -
  have len: "length (table s) = DHCPS_HISTORY_CLIENT_NUM" using ok by (simp add: table_ok_def)
  have six: "length (MacAddr (table s ! i)) = 6" by (rule mac_length [OF ok i])
  consider (ack) "sme_ack i xid flags s = Some s'" | (offer) "sme_offer i xid flags s = Some s'"
    | (select) "sme_offer i xid flags (upd_client i (\<lambda>c. c\<lparr>State := SELECT\<rparr>) s) = Some s'"
    using r by (auto simp: DhcpClientSMEHandle_def split: dhcp_client_state.splits if_splits)
  then show ?thesis
  proof cases
    case ack
    have "table_ok ((table s)[i := bound (table s ! i)])"
      by (rule table_ok_update_sole [OF ok sole]) (use mac six in \<open>simp_all add: client_ok_bound\<close>)
    moreover have "only_mac mac (table s) ((table s)[i := bound (table s ! i)])"
      by (rule only_mac_update) (use i len mac in auto)
    ultimately show ?thesis
      using ack_table [OF ack ok i] clean_ok clean_only only_mac_trans by (metis mac)
  next
    case offer
    have "table_ok ((table s)[i := offered (table s ! i)])"
      by (rule table_ok_update_sole [OF ok sole]) (use mac six in \<open>simp_all add: client_ok_bound\<close>)
    moreover have "only_mac mac (table s) ((table s)[i := offered (table s ! i)])"
      by (rule only_mac_update) (use i len mac in auto)
    ultimately show ?thesis using offer_table [OF offer] by simp
  next
    case select
    have "offered ((table s ! i)\<lparr>State := SELECT\<rparr>) = offered (table s ! i)" by (simp add: offered_def)
    then have "table s' = (table s)[i := offered (table s ! i)] \<and> same_server s s'"
      using offer_table [OF select] i len same_server_trans [of s "upd_client i (\<lambda>c. c\<lparr>State := SELECT\<rparr>) s" s'] by simp
    moreover have "table_ok ((table s)[i := offered (table s ! i)])"
      by (rule table_ok_update_sole [OF ok sole]) (use mac six in \<open>simp_all add: client_ok_bound\<close>)
    moreover have "only_mac mac (table s) ((table s)[i := offered (table s ! i)])"
      by (rule only_mac_update) (use i len mac in auto)
    ultimately show ?thesis by simp
  qed
qed


section \<open>Messages\<close>

lemma check_mac_frame:
  "CheckMacIsValid w mac s = Some (ok, s') \<Longrightarrow> DhcpServer s' = DhcpServer s \<and> timers s' = timers s \<and> wlan s' = wlan s \<and> sent s' = sent s"
  by (auto simp: CheckMacIsValid_def Let_def bind_eq_Some_conv dest!: alloc_frame split: prod.splits option.splits)

text \<open>The fields of a message as \<open>DHCPS_RecvCb\<close> reads them.\<close>

definition msg_of :: "bytes \<Rightarrow> bytes" where
  "msg_of p = patch (zeros DHCP_MSG_SIZE) 0 (take DHCP_MSG_SIZE p)"

definition msg_mac :: "bytes \<Rightarrow> bytes" where
  "msg_mac p = slice 28 6 (msg_of p)"

lemma length_msg_of [simp]: "length (msg_of p) = DHCP_MSG_SIZE"
  by (simp add: msg_of_def)

lemma length_msg_mac [simp]: "length (msg_mac p) = 6"
  by (simp add: msg_mac_def)

text \<open>What a message amounts to once its filters and options are read.\<close>

definition dispatch :: "bytes \<Rightarrow> dhcp_options \<Rightarrow> u32 \<Rightarrow> u16 \<Rightarrow> ('w, 'z) dhcp_state_scheme \<Rightarrow> ('w, 'z) dhcp_state_scheme option" where
  "dispatch mac v xid flags s =
     (case ClientTableLookup mac (opt_type v) (opt_req_ip v) (opt_server v) s of
        (None, s) \<Rightarrow>
          if opt_type v \<noteq> DHCP_MSG_RELEASE \<and> opt_type v \<noteq> DHCP_MSG_DECLINE then DHCPNakGenAndSend mac xid s else Some s
      | (Some i, s) \<Rightarrow> DhcpClientSMEHandle i (opt_type v) xid flags s)"

definition accepted :: "bytes \<Rightarrow> bool" where
  "accepted p \<longleftrightarrow> p \<noteq> [] \<and> msg_of p ! 0 = 1 \<and> htonl (of_le32 (slice 236 4 (msg_of p))) = DHCP_MAGIC \<and> msg_of p ! 1 = 1"

lemma recv_dispatch:
  "DHCPS_RecvCb w p s =
     (let s = s\<lparr>DhcpMsg := msg_of p\<rparr> in
      if \<not> accepted p \<or> own_mac w (wlan s) = msg_mac p then Some s
      else do {
        (ok, s) \<leftarrow> CheckMacIsValid w (msg_mac p) s;
        if \<not> ok then Some s
        else do {
          v \<leftarrow> ParseDhcpOptions (msg_of p) 0xff 0 0;
          if opt_ret v AND 1 = 0 \<or> opt_type v = DHCP_MSG_INFORM then Some s
          else dispatch (msg_mac p) v (htonl (of_le32 (slice 4 4 (msg_of p)))) (ntohs (of_le16 (slice 10 2 (msg_of p)))) s
        }
      })"
  by (auto simp: DHCPS_RecvCb_def Let_def accepted_def msg_mac_def msg_of_def dispatch_def intro!: Option.bind_cong split: prod.splits)

lemma dispatch_ok:
  assumes r: "dispatch mac v xid flags s = Some s'" and ok: "table_ok (table s)" and mac: "length mac = 6"
  shows "table_ok (table s') \<and> only_mac mac (table s) (table s') \<and> same_server s s'"
proof -
  obtain r s1 where l: "ClientTableLookup mac (opt_type v) (opt_req_ip v) (opt_server v) s = (r, s1)" by fastforce
  note lok = lookup_ok [OF ok mac l]
  show ?thesis
  proof (cases r)
    case None
    then have "DhcpServer s' = DhcpServer s1 \<and> timers s' = timers s1 \<and> wlan s' = wlan s1"
      using r l by (auto simp: dispatch_def dest!: nak_send_frame split: if_splits)
    then have "table s' = table s1" "same_server s1 s'" by (auto simp: same_server_def intro: same_server_table)
    then show ?thesis
      using lok same_server_trans [OF table_only_same_server] by auto
  next
    case (Some i)
    then have h: "DhcpClientSMEHandle i (opt_type v) xid flags s1 = Some s'" using r l by (simp add: dispatch_def)
    have i: "i < DHCPS_HISTORY_CLIENT_NUM" "sole mac i (table s1)" "MacAddr (table s1 ! i) = mac"
      using lok Some by (auto simp: picked_def)
    have "table_ok (table s1)" using lok by simp
    note 1 = sme_ok [OF h this i(1,3,2)]
    show ?thesis
      using 1 lok only_mac_trans [of mac "table s" "table s1" "table s'"]
        same_server_trans [OF table_only_same_server, of s s1 s'] by simp
  qed
qed

lemma recv_ok:
  assumes r: "DHCPS_RecvCb w p s = Some s'" and ok: "table_ok (table s)"
  shows "table_ok (table s') \<and> only_mac (msg_mac p) (table s) (table s') \<and> same_server s s'"
proof -
  let ?s = "s\<lparr>DhcpMsg := msg_of p\<rparr>"
  have t: "table ?s = table s" "same_server s ?s" by (simp_all add: table_def same_server_def)
  consider "s' = ?s" | ok s1 where "CheckMacIsValid w (msg_mac p) ?s = Some (ok, s1)" "s' = s1"
    | s1 v xid flags where "CheckMacIsValid w (msg_mac p) ?s = Some (True, s1)" "dispatch (msg_mac p) v xid flags s1 = Some s'"
    using r unfolding recv_dispatch Let_def by (auto simp: bind_eq_Some_conv split: if_splits)
  then show ?thesis
  proof cases
    case 1
    then show ?thesis using t ok by simp
  next
    case 2
    then have "table s' = table ?s" "same_server ?s s'"
      using check_mac_frame [OF 2(1)] by (auto simp: same_server_def intro: same_server_table)
    then show ?thesis using t ok same_server_trans [of s ?s s'] by simp
  next
    case 3
    then have u: "table s1 = table ?s" "same_server ?s s1"
      using check_mac_frame [OF 3(1)] by (auto simp: same_server_def intro: same_server_table)
    then show ?thesis
      using dispatch_ok [OF 3(2)] t ok same_server_trans [of s ?s s1] same_server_trans [of s s1 s'] by simp
  qed
qed

section \<open>The tick\<close>

text \<open>What a tick may do to an entry: its time runs, or it ends.\<close>

definition ticked :: "dhcp_client \<Rightarrow> dhcp_client \<Rightarrow> bool" where
  "ticked c c' \<longleftrightarrow> IpAddr c' = IpAddr c \<and>
     (case State c of
        IDLE \<Rightarrow> c' = c
      | SELECT \<Rightarrow> c' = c
      | REQUEST \<Rightarrow> (if Timeout c = 0 then c' = c
          else if Timeout c = 1 then c' = c\<lparr>Timeout := 0, MacAddr := zeros 6, State := IDLE\<rparr>
          else c' = c\<lparr>Timeout := Timeout c - 1\<rparr>)
      | BIND \<Rightarrow> c' = c\<lparr>Lease := Lease c - 1, State := IDLE\<rparr> \<or> Lease c \<noteq> 1 \<and> c' = c\<lparr>Lease := Lease c - 1\<rparr>)"

lemma tick_client_table:
  assumes "tick_client w i s = Some s'" "i < length (table s)"
  shows "\<exists>c. ticked (table s ! i) c \<and> table s' = (table s)[i := c] \<and> same_server s s' \<and> sent s' = sent s"
proof -
  let ?c = "table s ! i"
  consider "State ?c = IDLE \<or> State ?c = SELECT" | "State ?c = REQUEST" | "State ?c = BIND" "Lease ?c = 1"
    | "State ?c = BIND" "Lease ?c \<noteq> 1"
    by (cases "State ?c") auto
  then show ?thesis
  proof cases
    case 1
    then show ?thesis
      using assms by (intro exI [of _ ?c]) (auto simp: tick_client_def client_at_table ticked_def)
  next
    case 2
    then show ?thesis
      using assms by (auto simp: tick_client_def client_at_table ticked_def Let_def split: if_splits intro: exI [of _ ?c])
  next
    case 3
    then have "s' = upd_client i (\<lambda>c. c\<lparr>State := IDLE\<rparr>) (upd_client i (\<lambda>c. c\<lparr>Lease := Lease c - 1\<rparr>) s)"
      using assms by (simp add: tick_client_def client_at_table Let_def)
    then show ?thesis
      using assms(2) 3 by (intro exI [of _ "?c\<lparr>Lease := Lease ?c - 1, State := IDLE\<rparr>"]) (simp add: ticked_def upd_client_twice)
  next
    case 4
    define s1 where "s1 = (if Lease ?c \<noteq> 0 then upd_client i (\<lambda>c. c\<lparr>Lease := Lease c - 1\<rparr>) s else s)"
    obtain ok s2 where s2: "CheckMacIsValid w (MacAddr ?c) s1 = Some (ok, s2)"
        "s' = (if \<not> ok then upd_client i (\<lambda>c. c\<lparr>State := IDLE\<rparr>) s2 else s2)"
    proof -
      have "\<not> (0 < Lease ?c \<and> Lease ?c \<le> Suc 0)" using 4(2) by auto
      then have tc: "tick_client w i s = CheckMacIsValid w (MacAddr ?c) s1 \<bind>
          (\<lambda>(ok, s). Some (if \<not> ok then upd_client i (\<lambda>c. c\<lparr>State := IDLE\<rparr>) s else s))"
        using 4(1) by (auto simp: tick_client_def client_at_table Let_def s1_def)
      show ?thesis using assms(1) that unfolding tc by (cases "CheckMacIsValid w (MacAddr ?c) s1") auto
    qed
    have t1: "table s1 = (table s)[i := ?c\<lparr>Lease := Lease ?c - 1\<rparr>]" "same_server s s1" "sent s1 = sent s"
    proof -
      show "table s1 = (table s)[i := ?c\<lparr>Lease := Lease ?c - 1\<rparr>]"
      proof (cases "Lease ?c = 0")
        case True
        then have e: "?c\<lparr>Lease := Lease ?c - 1\<rparr> = ?c" by (cases ?c) simp
        show ?thesis unfolding e using True by (simp add: s1_def)
      qed (simp add: s1_def)
    qed (simp_all add: s1_def)
    note f = check_mac_frame [OF s2(1)]
    have t2: "table s2 = table s1" "same_server s s2" "sent s2 = sent s"
      using f t1(2,3) same_server_table [of s2 s1] by (simp_all add: same_server_def)
    show ?thesis
    proof (cases ok)
      case True
      then show ?thesis
        using s2 t1 t2 4 by (intro exI [of _ "?c\<lparr>Lease := Lease ?c - 1\<rparr>"]) (simp add: ticked_def)
    next
      case False
      then show ?thesis
        using s2 t1 t2 4 assms(2) by (intro exI [of _ "?c\<lparr>Lease := Lease ?c - 1, State := IDLE\<rparr>"]) (simp add: ticked_def)
    qed
  qed
qed

lemma tick_loop_table:
  assumes "tick_loop w i n s = Some s'" "i + n \<le> length (table s)"
  shows "length (table s') = length (table s) \<and> same_server s s' \<and> sent s' = sent s \<and>
    (\<forall>j < length (table s). if i \<le> j \<and> j < i + n then ticked (table s ! j) (table s' ! j) else table s' ! j = table s ! j)"
  using assms
proof (induction n arbitrary: i s)
  case (Suc n)
  obtain s1 where s1: "tick_client w i s = Some s1" "tick_loop w (Suc i) n s1 = Some s'"
    using Suc.prems(1) by (auto simp: bind_eq_Some_conv)
  obtain c where c: "ticked (table s ! i) c" "table s1 = (table s)[i := c]" "same_server s s1" "sent s1 = sent s"
    using tick_client_table [OF s1(1)] Suc.prems(2) by auto
  have "Suc i + n \<le> length (table s1)" using Suc.prems(2) c(2) by simp
  note IH = Suc.IH [OF s1(2) this]
  show ?case
    using IH c same_server_trans [of s s1 s'] by (auto simp: nth_updated)
qed auto

lemma tick_table:
  assumes "DhcpTickHandle w s = Some s'" "length (table s) = DHCPS_HISTORY_CLIENT_NUM"
  shows "length (table s') = DHCPS_HISTORY_CLIENT_NUM \<and> sent s' = sent s \<and>
    Enable (DhcpServer s') = Enable (DhcpServer s) \<and> Socket (DhcpServer s') = Socket (DhcpServer s) \<and> wlan s' = wlan s \<and>
    (\<forall>j < DHCPS_HISTORY_CLIENT_NUM. if Enable (DhcpServer s) then ticked (table s ! j) (table s' ! j) else table s' ! j = table s ! j)"
proof (cases "Enable (DhcpServer s)")
  case True
  let ?s = "s\<lparr>timers := timers s - 1\<rparr>"
  obtain t where t: "tick_loop w 0 8 ?s = Some t" "s' = (if Enable (DhcpServer t) then t\<lparr>timers := timers t + 1\<rparr> else t)"
    using assms(1) True unfolding DhcpTickHandle_def Let_def by (auto simp: bind_eq_Some_conv)
  have "table ?s = table s" by (simp add: table_def)
  then have f: "length (table t) = DHCPS_HISTORY_CLIENT_NUM" "same_server ?s t" "sent t = sent s"
      "\<forall>j < DHCPS_HISTORY_CLIENT_NUM. ticked (table s ! j) (table t ! j)"
    using tick_loop_table [OF t(1)] assms(2) by auto
  have "table s' = table t" using t(2) by (simp add: table_def)
  then show ?thesis using f t(2) same_server_sel [OF f(2)] True by (auto simp: same_server_def)
next
  case False
  then have "s' = s\<lparr>timers := timers s - 1\<rparr>" using assms(1) by (simp add: DhcpTickHandle_def Let_def)
  then show ?thesis using False assms(2) by (simp add: table_def)
qed

lemma ticked_ok:
  assumes "ticked c c'" "client_ok c"
  shows "client_ok c'" "active c' \<Longrightarrow> active c \<and> MacAddr c' = MacAddr c"
  using assms by (auto simp: ticked_def client_ok_def active_def split: dhcp_client_state.splits if_splits)

lemma tick_ok:
  assumes "DhcpTickHandle w s = Some s'" "table_ok (table s)"
  shows "table_ok (table s') \<and> map IpAddr (table s') = map IpAddr (table s)"
proof -
  have len: "length (table s) = DHCPS_HISTORY_CLIENT_NUM" using assms(2) by (simp add: table_ok_def)
  note t = tick_table [OF assms(1) len]
  have cok: "client_ok (table s ! j)" if "j < DHCPS_HISTORY_CLIENT_NUM" for j using assms(2) that by (simp add: table_ok_def)
  have each: "client_ok (table s' ! j) \<and> IpAddr (table s' ! j) = IpAddr (table s ! j) \<and>
      (active (table s' ! j) \<longrightarrow> active (table s ! j) \<and> MacAddr (table s' ! j) = MacAddr (table s ! j))"
    if "j < DHCPS_HISTORY_CLIENT_NUM" for j
  proof -
    have "ticked (table s ! j) (table s' ! j) \<or> table s' ! j = table s ! j" using t that by (metis (full_types))
    then show ?thesis using ticked_ok [OF _ cok [OF that]] cok [OF that] by (auto simp: ticked_def)
  qed
  then have "one_entry (table s')"
    using assms(2) t len by (auto simp: table_ok_def one_entry_def)
  then show ?thesis
    using each t len by (auto simp: table_ok_def list_eq_iff_nth_eq)
qed


section \<open>The interface\<close>

lemma delete_loop_ok:
  assumes "delete_loop mac i n s = (err, s')" "i + n \<le> length (table s)"
  shows "same_server s s' \<and> (s' = s \<or> (\<exists>j < length (table s). err = DHCPS_ERR_SUCCESS \<and> State (table s ! j) = BIND \<and> MacAddr (table s ! j) = mac \<and>
    s' = upd_client j (\<lambda>c. c\<lparr>State := IDLE\<rparr>) s))"
  using assms
proof (induction n arbitrary: i)
  case (Suc n)
  show ?case
  proof (cases "State (table s ! i) \<noteq> IDLE \<and> MacAddr (table s ! i) = mac")
    case True
    then show ?thesis
      using Suc.prems by (cases "State (table s ! i) = BIND") (auto simp: client_at_table intro!: exI [of _ i])
  next
    case False
    then show ?thesis using Suc by (auto simp: client_at_table)
  qed
qed simp

lemma delete_ok:
  assumes r: "DHCPS_ClientDelete mac s = (err, s')" and ok: "table_ok (table s)"
  shows "table_ok (table s') \<and> map IpAddr (table s') = map IpAddr (table s) \<and> same_server s s'"
proof -
  have len: "length (table s) = DHCPS_HISTORY_CLIENT_NUM" using ok by (simp add: table_ok_def)
  have "s' = s \<or> (\<exists>j < DHCPS_HISTORY_CLIENT_NUM. s' = upd_client j (\<lambda>c. c\<lparr>State := IDLE\<rparr>) s)"
    using r delete_loop_ok [of _ 0 DHCPS_HISTORY_CLIENT_NUM s err s'] len
    by (auto simp: DHCPS_ClientDelete_def split: if_splits option.splits)
  then show ?thesis
  proof
    assume "\<exists>j < DHCPS_HISTORY_CLIENT_NUM. s' = upd_client j (\<lambda>c. c\<lparr>State := IDLE\<rparr>) s"
    then obtain j where j: "j < DHCPS_HISTORY_CLIENT_NUM" "s' = upd_client j (\<lambda>c. c\<lparr>State := IDLE\<rparr>) s" by auto
    have "map IpAddr (table s') = map IpAddr (table s)"
      using j len by (simp add: list_eq_iff_nth_eq nth_updated)
    then show ?thesis
      using table_ok_update_idle [OF ok, of "(table s ! j)\<lparr>State := IDLE\<rparr>" j] mac_length [OF ok j(1)] by (simp add: j(2))
  qed (use ok in simp)
qed

lemma set_dns_ok: "table (DHCPS_SetDns numdns dns s) = table s"
  by (simp add: DHCPS_SetDns_def table_def Let_def)

lemma table_ok_idle:
  "length cs = DHCPS_HISTORY_CLIENT_NUM \<Longrightarrow> \<forall>i < DHCPS_HISTORY_CLIENT_NUM. State (cs ! i) = IDLE \<and> MacAddr (cs ! i) = zeros 6 \<Longrightarrow> table_ok cs"
  by (simp add: table_ok_def client_ok_def one_entry_def active_def)

lemma stop_ok: "table_ok (table (DHCPS_Stop s))"
  by (rule table_ok_idle) (simp_all add: DHCPS_Stop_def table_def zero_server_def zero_client_def)

text \<open>The addresses that \<open>DHCPS_Start\<close> gives to the entries.\<close>

definition pool :: "netif \<Rightarrow> u32 list" where
  "pool n = map (\<lambda>i. htonl (pool_addr (htonl (netmask n)) (pool_addr (htonl (netmask n)) (htonl (ip_addr n)) 1) (of_nat i)))
     [0..<DHCPS_HISTORY_CLIENT_NUM]"

lemma start_result:
  assumes "DHCPS_Start n s = Some (err, s')" "err \<noteq> DHCPS_ERR_LINKDOWN"
  shows "table_ok (table s') \<and> map IpAddr (table s') = pool n"
proof -
  have True: "netif_up n" using assms by (auto simp: DHCPS_Start_def split: if_splits)
  define start where "start = pool_addr (htonl (netmask n)) (htonl (ip_addr n)) 1"
  define cs where "cs = map (\<lambda>i. zero_client\<lparr>IpAddr := htonl (pool_addr (htonl (netmask n)) start (of_nat i)),
      Lease := DHCP_DEFAULT_LEASE_TIME\<rparr>) [0..<DHCPS_HISTORY_CLIENT_NUM]"
  have "NOT (htonl (netmask n)) \<noteq> 0" using assms True by (auto simp: DHCPS_Start_def Let_def split: if_splits)
  then have "table s' = cs"
    using assms(1) True by (auto simp: DHCPS_Start_def Let_def table_def start_def [symmetric] cs_def [symmetric]
        simp del: upt_rec_numeral dest!: pbuf_frame split: prod.splits if_splits)
  moreover have "table_ok cs"
    by (rule table_ok_idle) (simp_all add: cs_def zero_client_def del: upt_rec_numeral)
  moreover have "map IpAddr cs = pool n"
    by (simp add: cs_def pool_def start_def o_def del: upt_rec_numeral)
  ultimately show ?thesis by simp
qed

section \<open>All operations\<close>

text \<open>The steps of the server of one network interface, and of the world around it: the heap and the
  stations may change at any time.\<close>

inductive dhcp_step :: "'w wlan_ops \<Rightarrow> ('w, 'z) dhcp_state_scheme \<Rightarrow> ('w, 'z) dhcp_state_scheme \<Rightarrow> bool" for w where
  recv: "Socket (DhcpServer s) \<Longrightarrow> DHCPS_RecvCb w p s = Some s' \<Longrightarrow> dhcp_step w s s'"
| tick: "0 < timers s \<Longrightarrow> DhcpTickHandle w s = Some s' \<Longrightarrow> dhcp_step w s s'"
| delete: "DHCPS_ClientDelete mac s = (err, s') \<Longrightarrow> dhcp_step w s s'"
| set_dns: "dhcp_step w s (DHCPS_SetDns numdns dns s)"
| world: "dhcp_step w s (s\<lparr>wlan := e, heap := h, junk := j\<rparr>)"

inductive_cases dhcp_stepE: "dhcp_step w s s'"

lemma step_ok:
  assumes "dhcp_step w s s'" "table_ok (table s)"
  shows "table_ok (table s') \<and> map IpAddr (table s') = map IpAddr (table s)"
  using assms
proof cases
  case (recv p)
  then show ?thesis using recv_ok assms(2) by (auto simp: only_mac_def)
next
  case tick
  then show ?thesis using tick_ok assms(2) by blast
next
  case (delete mac err)
  then show ?thesis using delete_ok assms(2) by blast
next
  case (world e h j)
  then show ?thesis using assms(2) by (simp add: table_def)
qed (use assms(2) in \<open>simp add: set_dns_ok\<close>)

lemma steps_ok:
  assumes "(dhcp_step w)\<^sup>*\<^sup>* s s'" "table_ok (table s)"
  shows "table_ok (table s') \<and> map IpAddr (table s') = map IpAddr (table s)"
  using assms by (induction rule: rtranclp_induct) (auto dest: step_ok)

end
