(* ===== verification/Dhcp_Props.thy ===== *)
theory Dhcp_Props
  imports Dhcp_Lease
begin

text \<open>
  The properties of the DHCP server: the addresses of the pool, the exclusiveness of leases, what a message
  can change, the exchange that ends in a lease, and which packets the server survives. What a client reads
  and where the code departs from what it should do is in \<open>Dhcp_Replies\<close>, the end of leases in \<open>Dhcp_Time\<close>.
\<close>

section \<open>Options\<close>

text \<open>The options as a walk along the bytes that are left.\<close>

definition store_option :: "u8 \<Rightarrow> bytes \<Rightarrow> dhcp_options \<Rightarrow> dhcp_options option" where
  "store_option c xs v =
     (if c = 53 then (if xs = [] then None else Some (v\<lparr>opt_type := xs ! 0, opt_ret := opt_ret v OR 1\<rparr>))
      else if c = 50 then (if length xs < 4 then None else Some (v\<lparr>opt_req_ip := of_le32 (take 4 xs), opt_ret := opt_ret v OR 2\<rparr>))
      else if c = 54 then (if length xs < 4 then None else Some (v\<lparr>opt_server := of_le32 (take 4 xs), opt_ret := opt_ret v OR 4\<rparr>))
      else Some v)"

function walk :: "bytes \<Rightarrow> dhcp_options \<Rightarrow> dhcp_options option" where
  "walk [] v = None"
| "walk (c # xs) v =
     (if c = 255 then Some v
      else if c = 0 then walk xs v
      else case xs of
        [] \<Rightarrow> None
      | n # ys \<Rightarrow> (case store_option c ys v of None \<Rightarrow> None | Some v \<Rightarrow> walk (drop (unat n) ys) v))"
  by pat_completeness auto
termination by (relation "measure (\<lambda>(xs, v). length xs)") auto

lemma parse_options_walk: "parse_options m p v = walk (drop p m) v"
proof (induction m p v rule: parse_options.induct)
  case (1 m p v)
  show ?case
  proof (cases "p < length m")
    case True
    then have d: "drop p m = m ! p # drop (p + 1) m" by (simp add: Cons_nth_drop_Suc)
    show ?thesis
    proof (cases "m ! p = 255 \<or> m ! p = 0 \<or> p + 1 \<ge> length m")
      case simple: True
      then show ?thesis using 1 True by (subst parse_options.simps) (auto simp: d)
    next
      case False
      then have e: "drop (Suc p) m = m ! Suc p # drop (Suc (Suc p)) m" using Cons_nth_drop_Suc [of "Suc p" m] by simp
      have "drop (p + 2 + k) m = drop k (drop (p + 2) m)" for k by (simp add: add.commute)
      then show ?thesis
        using 1 True False
        by (subst parse_options.simps) (auto simp: d e store_option_def buf_get_def slice_def nth_drop not_less split: if_splits)
    qed
  next
    case False
    then show ?thesis by (subst parse_options.simps) simp
  qed
qed

lemma ParseDhcpOptions_walk:
  "ParseDhcpOptions m t req srv = walk (drop 240 m) \<lparr>opt_ret = 0, opt_type = t, opt_req_ip = req, opt_server = srv\<rparr>"
  by (simp add: ParseDhcpOptions_def parse_options_walk)

lemma walk_needs_end: "walk xs v = Some v' \<Longrightarrow> 255 \<in> set xs"
proof (induction xs v rule: walk.induct)
  case (2 c xs v)
  then show ?case by (auto split: if_splits list.splits option.splits dest: in_set_dropD)
qed simp

section \<open>Addresses\<close>

lemma length_rev_le32 [simp]: "length (rev (le32 x)) = 4"
  by simp

lemma htonl_htonl [simp]: "htonl (htonl x) = x"
  by (simp add: htonl_def le32_of_le32)

lemma htonl_eq [simp]: "htonl x = htonl y \<longleftrightarrow> x = y"
  by (metis htonl_htonl)

text \<open>A network interface with room for the pool behind its own address: \<open>k\<close> bits of host part.\<close>

definition pool_room :: "netif \<Rightarrow> nat \<Rightarrow> bool" where
  "pool_room n k \<longleftrightarrow> k < 32 \<and> NOT (htonl (netmask n)) = mask k \<and>
     unat (take_bit k (htonl (ip_addr n))) + DHCPS_HISTORY_CLIENT_NUM < 2 ^ k - 1"

lemma unat_mask: "k < 32 \<Longrightarrow> unat (mask k :: u32) = 2 ^ k - 1"
proof -
  assume k: "k < 32"
  then have "(2 :: nat) ^ k < 2 ^ 32" by (intro power_strict_increasing) simp_all
  moreover have "unat (of_nat (mask k) :: u32) = mask k mod 2 ^ 32" by (subst unat_of_nat) simp
  moreover have "(of_nat (mask k) :: u32) = mask k" by (rule of_nat_mask_eq)
  ultimately show ?thesis by (simp only: mask_eq_exp_minus_1) simp
qed

lemma host_part:
  assumes "k < 32" "unat t < 2 ^ k"
  shows "((h AND NOT (mask k)) OR t) AND mask k = (t :: u32)" "((h AND NOT (mask k)) OR t) AND NOT (mask k) = h AND NOT (mask k)"
proof -
  have bits: "bit t i \<Longrightarrow> i < k" for i
  proof (rule ccontr)
    assume "bit t i" "\<not> i < k"
    moreover have "take_bit k t = t"
      using assms by (simp add: word_unat_eq_iff unsigned_take_bit_eq take_bit_nat_eq_self)
    ultimately show False by (metis bit_take_bit_iff)
  qed
  then show "((h AND NOT (mask k)) OR t) AND mask k = t" "((h AND NOT (mask k)) OR t) AND NOT (mask k) = h AND NOT (mask k)"
    by (auto simp: bit_eq_iff bit_simps)
qed

lemma pool_addr_room:
  assumes "k < 32" "NOT m = mask k" "0 < unat (h AND mask k) + unat i" "unat (h AND mask k) + unat i < 2 ^ k - 1"
  shows "pool_addr m h i = (h AND NOT (mask k)) OR ((h AND mask k) + i)" "unat ((h AND mask k) + i) = unat (h AND mask k) + unat i"
proof -
  have m: "m = NOT (mask k)" using assms(2) by (metis bit.double_compl)
  have "(2 :: nat) ^ k < 2 ^ 32" using assms(1) by (rule power_strict_increasing) simp
  then show u: "unat ((h AND mask k) + i) = unat (h AND mask k) + unat i"
    using assms(4) unat_word_ariths(1) [of "h AND mask k" i] by simp
  have "((h AND mask k) + i) mod mask k = (h AND mask k) + i"
    using assms(4) by (simp add: word_unat_eq_iff unat_mod u unat_mask [OF assms(1)])
  moreover have "(h AND mask k) + i \<noteq> 0" using u assms(3) by (metis less_irrefl unat_0)
  ultimately show "pool_addr m h i = (h AND NOT (mask k)) OR ((h AND mask k) + i)"
    by (simp add: pool_addr_def Let_def m)
qed

lemma pool_nth:
  assumes "pool_room n k" "i < DHCPS_HISTORY_CLIENT_NUM"
  defines "h \<equiv> htonl (ip_addr n)"
  shows "htonl (pool n ! i) AND NOT (mask k) = h AND NOT (mask k)" "unat (htonl (pool n ! i) AND mask k) = unat (h AND mask k) + 1 + i"
    "length (pool n) = DHCPS_HISTORY_CLIENT_NUM"
proof -
  have room: "k < 32" "NOT (htonl (netmask n)) = mask k" "unat (h AND mask k) + 8 < 2 ^ k - 1"
    using assms(1) by (simp_all add: pool_room_def take_bit_eq_mask h_def)
  define start where "start = pool_addr (htonl (netmask n)) h 1"
  have s1: "start = (h AND NOT (mask k)) OR ((h AND mask k) + 1)" "unat ((h AND mask k) + 1) = unat (h AND mask k) + 1"
    using pool_addr_room [OF room(1,2), of h 1] room(3) by (simp_all add: start_def)
  have s2: "start AND mask k = (h AND mask k) + 1" "start AND NOT (mask k) = h AND NOT (mask k)"
    using host_part [OF room(1), of "(h AND mask k) + 1" h] s1 room(3) by simp_all
  have i: "unat (of_nat i :: u32) = i" using assms(2) by (simp add: unat_of_nat)
  have p: "pool_addr (htonl (netmask n)) start (of_nat i) = (h AND NOT (mask k)) OR ((h AND mask k) + 1 + of_nat i)"
      "unat ((h AND mask k) + 1 + of_nat i) = unat (h AND mask k) + 1 + i"
    using pool_addr_room [OF room(1,2), of start "of_nat i"] s1 s2 i room(3) assms(2) by simp_all
  have nth: "htonl (pool n ! i) = pool_addr (htonl (netmask n)) start (of_nat i)"
    using assms(2) by (simp add: pool_def start_def h_def del: upt_rec_numeral)
  show "htonl (pool n ! i) AND NOT (mask k) = h AND NOT (mask k)" "unat (htonl (pool n ! i) AND mask k) = unat (h AND mask k) + 1 + i"
    using host_part [OF room(1), of "(h AND mask k) + 1 + of_nat i" h] p nth room(3) assms(2) by simp_all
  show "length (pool n) = DHCPS_HISTORY_CLIENT_NUM" by (simp add: pool_def)
qed

lemma pool_distinct:
  assumes "pool_room n k"
  shows "distinct (pool n)" "ip_addr n \<notin> set (pool n)" "0 \<notin> set (pool n)"
proof -
  let ?h = "htonl (ip_addr n)"
  note nth = pool_nth [OF assms]
  show "distinct (pool n)"
    unfolding distinct_conv_nth nth(3) [of 0, simplified]
    by (metis nth(2) add_left_cancel)
  show "ip_addr n \<notin> set (pool n)"
  proof
    assume "ip_addr n \<in> set (pool n)"
    then obtain i where "i < DHCPS_HISTORY_CLIENT_NUM" "pool n ! i = ip_addr n"
      using nth(3) [of 0] by (auto simp: in_set_conv_nth)
    then show False using nth(2) [of i] by simp
  qed
  show "0 \<notin> set (pool n)"
  proof
    assume "0 \<in> set (pool n)"
    then obtain i where "i < DHCPS_HISTORY_CLIENT_NUM" "pool n ! i = 0"
      using nth(3) [of 0] by (auto simp: in_set_conv_nth)
    then show False using nth(2) [of i] by (simp add: htonl_def le32_def of_le32_def)
  qed
qed


section \<open>Leases\<close>

text \<open>The address that is leased to a client.\<close>

definition lease_of :: "('w, 'z) dhcp_state_scheme \<Rightarrow> bytes \<Rightarrow> u32 option" where
  "lease_of s mac = map_option IpAddr (find (\<lambda>c. State c = BIND \<and> MacAddr c = mac) (table s))"

lemma find_same:
  assumes "length xs = length ys" "\<And>i. i < length xs \<Longrightarrow> P (xs ! i) \<or> P (ys ! i) \<Longrightarrow> ys ! i = xs ! i"
  shows "find P ys = find P xs"
  using assms
proof (induction xs ys rule: list_induct2)
  case (Cons x xs y ys)
  have "P x \<or> P y \<Longrightarrow> y = x" using Cons.prems [of 0] by simp
  moreover have "find P ys = find P xs"
  proof (rule Cons.IH)
    fix i
    assume "i < length xs" "P (xs ! i) \<or> P (ys ! i)"
    then show "ys ! i = xs ! i" using Cons.prems [of "Suc i"] by simp
  qed
  ultimately show ?case by auto
qed simp

lemma only_mac_lease:
  assumes "only_mac mac (table s) (table s')" "m \<noteq> mac"
  shows "lease_of s' m = lease_of s m"
proof -
  let ?P = "\<lambda>c. State c = BIND \<and> MacAddr c = m"
  have "table s' ! i = table s ! i" if "i < length (table s)" "?P (table s ! i) \<or> ?P (table s' ! i)" for i
  proof -
    have "active (table s ! i) \<and> MacAddr (table s ! i) \<noteq> mac \<or> active (table s' ! i) \<and> MacAddr (table s' ! i) \<noteq> mac"
      using that(2) assms(2) by (elim disjE conjE) (simp_all add: active_def)
    then show ?thesis using assms(1) that(1) unfolding only_mac_def by blast
  qed
  then have "find ?P (table s') = find ?P (table s)"
    using only_mac_length [OF assms(1)] by (intro find_same) (simp_all only:)
  then show ?thesis by (simp only: lease_of_def)
qed

lemma lease_of_Some:
  assumes "lease_of s m = Some ip"
  shows "\<exists>i < length (table s). State (table s ! i) = BIND \<and> MacAddr (table s ! i) = m \<and> IpAddr (table s ! i) = ip"
proof -
  obtain c where "find (\<lambda>c. State c = BIND \<and> MacAddr c = m) (table s) = Some c" "ip = IpAddr c"
    using assms unfolding lease_of_def map_option_eq_Some by blast
  then show ?thesis unfolding find_Some_iff by blast
qed

lemma lease_unique:
  assumes "distinct (map IpAddr (table s))" "lease_of s m = Some ip" "lease_of s m' = Some ip"
  shows "m = m'"
proof -
  obtain i j where i: "i < length (table s)" "MacAddr (table s ! i) = m" "IpAddr (table s ! i) = ip"
    and j: "j < length (table s)" "MacAddr (table s ! j) = m'" "IpAddr (table s ! j) = ip"
    using lease_of_Some [OF assms(2)] lease_of_Some [OF assms(3)] by auto
  then have "i = j" using assms(1) by (metis length_map nth_eq_iff_index_eq nth_map)
  then show ?thesis using i j by simp
qed

section \<open>Messages of a client\<close>

definition request_msg :: "u32 \<Rightarrow> u16 \<Rightarrow> bytes \<Rightarrow> bytes \<Rightarrow> bytes" where
  "request_msg xid flags mac opts =
     [1, 1, 6, 0] @ le32 (htonl xid) @ [0, 0] @ le16 (ntohs flags) @ zeros 16 @ mac @ zeros (10 + 64 + 128) @
     le32 (htonl DHCP_MAGIC) @ opts @ zeros (308 - length opts)"

lemma ntohs_ntohs [simp]: "ntohs (ntohs x) = x"
proof -
  have "le16 (of_le16 (rev (le16 x))) = rev (le16 x)"
    by (simp add: le16_def of_le16_def) (auto simp: bit_eq_iff bit_simps)
  then show ?thesis by (simp add: ntohs_def)
qed

lemma request_msg_fields:
  fixes xid flags
  assumes "length mac = 6" "length opts \<le> 308"
  defines "p \<equiv> request_msg xid flags mac opts"
  shows "msg_of p = p" "msg_mac p = mac" "accepted p" "htonl (of_le32 (slice 4 4 (msg_of p))) = xid"
    "ntohs (of_le16 (slice 10 2 (msg_of p))) = flags" "drop 240 (msg_of p) = opts @ zeros (308 - length opts)"
proof -
  have len: "length p = DHCP_MSG_SIZE" using assms(1,2) by (simp add: p_def request_msg_def)
  show m: "msg_of p = p" by (simp add: msg_of_def len patch_all)
  have z: "take n (zeros k @ xs) = zeros n" if "n \<le> k" for n k and xs :: bytes using that by (simp add: zeros_def)
  have dz: "drop n (zeros k @ xs) = zeros (k - n) @ xs" if "n \<le> k" for n k and xs :: bytes using that by (simp add: zeros_def)
  have d: "drop (k + n) (zeros k @ xs) = drop n xs" for n k and xs :: bytes by simp
  show "msg_mac p = mac" "htonl (of_le32 (slice 4 4 (msg_of p))) = xid" "ntohs (of_le16 (slice 10 2 (msg_of p))) = flags"
    "drop 240 (msg_of p) = opts @ zeros (308 - length opts)"
    unfolding msg_mac_def m unfolding p_def request_msg_def slice_def using assms(1) by simp_all
  show "accepted p"
    unfolding accepted_def m unfolding p_def request_msg_def slice_def using assms(1) by simp
qed


section \<open>That the operations return\<close>

lemma tls_mem_alloc_result:
  "tls_mem_alloc n s = (if heap s = [] \<or> hd (heap s) then Some (fresh n s) else None, s\<lparr>heap := tl (heap s)\<rparr>)"
  by (cases s) (auto simp: tls_mem_alloc_def split: list.splits)

lemma pbuf_alloc_result: "pbuf_alloc s = (heap s = [] \<or> hd (heap s), s\<lparr>heap := tl (heap s)\<rparr>)"
  by (simp add: pbuf_alloc_def tls_mem_alloc_result)

text \<open>The WLAN library keeps to the size of the buffer, and the stations it names.\<close>

definition wlan_ok :: "'w wlan_ops \<Rightarrow> 'w \<Rightarrow> bool" where
  "wlan_ok w e \<longleftrightarrow> length (snd (authed_sta w e)) \<le> STA_MAC_BUF_LEN \<and> 6 * fst (authed_sta w e) \<le> STA_MAC_BUF_LEN"

definition is_station :: "'w wlan_ops \<Rightarrow> 'w \<Rightarrow> bytes \<Rightarrow> bool" where
  "is_station w e mac \<longleftrightarrow>
     (\<exists>j < fst (authed_sta w e). slice (6 * j) 6 (patch (zeros STA_MAC_BUF_LEN) 0 (snd (authed_sta w e))) = mac)"

lemma sta_scan_result:
  "sta + 6 * n \<le> length buf \<Longrightarrow> sta_scan mac buf sta n = Some (\<exists>j<n. slice (sta + 6 * j) 6 buf = mac)"
proof (induction n arbitrary: sta)
  case (Suc n)
  have "(\<exists>j<Suc n. slice (sta + 6 * j) 6 buf = mac) \<longleftrightarrow> slice sta 6 buf = mac \<or> (\<exists>j<n. slice (sta + 6 + 6 * j) 6 buf = mac)"
    by (simp add: Ex_less_Suc2 add.assoc)
  then show ?case using Suc.IH [of "sta + 6"] Suc.prems by (auto simp: eq_commute)
qed simp

lemma check_mac_result:
  assumes "wlan_ok w (wlan s)"
  shows "CheckMacIsValid w mac s = Some ((heap s = [] \<or> hd (heap s)) \<and> is_station w (wlan s) mac, s\<lparr>heap := tl (heap s)\<rparr>)"
proof -
  obtain num info where a: "authed_sta w (wlan s) = (num, info)" by fastforce
  then have "length info \<le> 64" "6 * num \<le> 64" using assms by (simp_all add: wlan_ok_def)
  then show ?thesis
    using sta_scan_result [of 0 num "patch (zeros 64) 0 info" mac]
    by (simp add: CheckMacIsValid_def tls_mem_alloc_result a is_station_def)
qed

lemma udp_sendto_result: "Socket (DhcpServer s) \<Longrightarrow> udp_sendto dst m s = Some (s\<lparr>sent := sent s @ [Udp dst m]\<rparr>)"
  by (simp add: udp_sendto_def)

lemma lease_send_result:
  assumes "Socket (DhcpServer s)"
  shows "\<exists>s'. lease_send t i mac xid flags s = Some s' \<and> (heap s = [] \<longrightarrow> heap s' = [] \<and> (\<exists>pre dst.
      sent s' = sent s @ pre @ [Udp dst (take (240 + length (lease_options t (DhcpServer s)))
        (reply_msg xid (IpAddr (table s ! i)) 0 mac (lease_options t (DhcpServer s))))]))"
  using assms by (auto simp: lease_send_def pbuf_alloc_result Let_def udp_sendto_def client_at_table [symmetric] client_at_def)

lemma nak_send_result:
  assumes "Socket (DhcpServer s)"
  shows "\<exists>s'. DHCPNakGenAndSend mac xid s = Some s' \<and> (heap s = [] \<longrightarrow>
      sent s' = sent s @ [Udp 0xFFFFFFFF (take (240 + length nak_options)
        (reply_msg xid 0 (ServerIpAddr (DhcpServer s)) mac nak_options))])"
  using assms by (auto simp: DHCPNakGenAndSend_def pbuf_alloc_result Let_def udp_sendto_def)

lemma sme_ack_returns:
  assumes "Socket (DhcpServer s)" "table_ok (table s)" "i < DHCPS_HISTORY_CLIENT_NUM"
  shows "\<exists>s'. sme_ack i xid flags s = Some s' \<and> (heap s = [] \<longrightarrow> (\<exists>pre dst.
      sent s' = sent s @ pre @ [Udp dst (take (240 + length (lease_options DHCP_MSG_ACK (DhcpServer s)))
        (reply_msg xid (IpAddr (table s ! i)) 0 (MacAddr (table s ! i)) (lease_options DHCP_MSG_ACK (DhcpServer s))))]))"
proof -
  obtain s1 where s1: "lease_send DHCP_MSG_ACK i (MacAddr (client_at s i)) xid flags s = Some s1" and out: "heap s = [] \<longrightarrow> (\<exists>pre dst.
      sent s1 = sent s @ pre @ [Udp dst (take (240 + length (lease_options DHCP_MSG_ACK (DhcpServer s)))
        (reply_msg xid (IpAddr (table s ! i)) 0 (MacAddr (table s ! i)) (lease_options DHCP_MSG_ACK (DhcpServer s))))])"
    using lease_send_result [OF assms(1), of DHCP_MSG_ACK i "MacAddr (client_at s i)" xid flags] by (auto simp: client_at_table)
  let ?u = "upd_client i (\<lambda>c. c\<lparr>Lease := DHCP_DEFAULT_LEASE_TIME, State := BIND\<rparr>) s1"
  have "length (table ?u) = DHCPS_HISTORY_CLIENT_NUM"
    using same_server_table [of s1 s] lease_send_frame [OF s1] assms(2) by (simp add: table_ok_def)
  from clean_history(3) [OF this] show ?thesis
    using s1 out by (simp add: sme_ack_def DHCPAckGenAndSend_def Let_def)
qed

lemma sme_offer_returns:
  assumes "Socket (DhcpServer s)"
  shows "\<exists>s'. sme_offer i xid flags s = Some s' \<and> (heap s = [] \<longrightarrow> heap s' = [] \<and> (\<exists>pre dst.
      sent s' = sent s @ pre @ [Udp dst (take (240 + length (lease_options DHCP_MSG_OFFER (DhcpServer s)))
        (reply_msg xid (IpAddr (table s ! i)) 0 (MacAddr (table s ! i)) (lease_options DHCP_MSG_OFFER (DhcpServer s))))]))"
  using lease_send_result [OF assms, of DHCP_MSG_OFFER i "MacAddr (client_at s i)" xid flags]
  by (auto simp: sme_offer_def DHCPOfferGenAndSend_def client_at_table)

lemma sme_returns:
  assumes "Socket (DhcpServer s)" "table_ok (table s)" "i < DHCPS_HISTORY_CLIENT_NUM"
  shows "\<exists>s'. DhcpClientSMEHandle i t xid flags s = Some s'"
proof -
  have "\<exists>s'. sme_ack i xid flags s = Some s'" using sme_ack_returns [OF assms] by blast
  moreover have "\<exists>s'. sme_offer i xid flags s = Some s'" using sme_offer_returns [OF assms(1)] by blast
  moreover have "\<exists>s'. sme_offer i xid flags (upd_client i (\<lambda>c. c\<lparr>State := SELECT\<rparr>) s) = Some s'"
    using sme_offer_returns [of "upd_client i (\<lambda>c. c\<lparr>State := SELECT\<rparr>) s" i xid flags] assms(1) by fastforce
  ultimately show ?thesis
    by (auto simp: DhcpClientSMEHandle_def split: dhcp_client_state.splits)
qed

lemma dispatch_returns:
  assumes "Socket (DhcpServer s)" "table_ok (table s)" "length mac = 6"
  shows "\<exists>s'. dispatch mac v xid flags s = Some s'"
proof -
  obtain r s1 where l: "ClientTableLookup mac (opt_type v) (opt_req_ip v) (opt_server v) s = (r, s1)" by fastforce
  note lok = lookup_ok [OF assms(2,3) l]
  have sock: "Socket (DhcpServer s1)" using lok assms(1) same_server_sel [OF table_only_same_server] by blast
  show ?thesis
  proof (cases r)
    case None
    then show ?thesis using l nak_send_result [OF sock] by (auto simp: dispatch_def)
  next
    case (Some i)
    then show ?thesis using l lok sme_returns [OF sock] by (auto simp: dispatch_def picked_def)
  qed
qed

section \<open>The exchange of messages\<close>

text \<open>A message of a station that gets as far as the client table.\<close>

definition reachable_by :: "'w wlan_ops \<Rightarrow> bytes \<Rightarrow> ('w, 'z) dhcp_state_scheme \<Rightarrow> bool" where
  "reachable_by w mac s \<longleftrightarrow> table_ok (table s) \<and> Socket (DhcpServer s) \<and> heap s = [] \<and> wlan_ok w (wlan s) \<and>
     is_station w (wlan s) mac \<and> own_mac w (wlan s) \<noteq> mac \<and> length mac = 6"

lemma recv_request_msg:
  assumes r: "reachable_by w mac s" and opts: "length opts \<le> 308"
    and walk: "walk (opts @ zeros (308 - length opts)) \<lparr>opt_ret = 0, opt_type = 0xff, opt_req_ip = 0, opt_server = 0\<rparr> = Some v"
    and v: "opt_ret v AND 1 \<noteq> 0" "opt_type v \<noteq> DHCP_MSG_INFORM"
  shows "DHCPS_RecvCb w (request_msg xid flags mac opts) s =
    dispatch mac v xid flags (s\<lparr>DhcpMsg := request_msg xid flags mac opts\<rparr>)"
proof -
  let ?p = "request_msg xid flags mac opts"
  have mac: "length mac = 6" using r by (simp add: reachable_by_def)
  note f = request_msg_fields [OF mac opts, of xid flags]
  have c: "CheckMacIsValid w mac (s\<lparr>DhcpMsg := ?p\<rparr>) = Some (True, s\<lparr>DhcpMsg := ?p\<rparr>)"
    using check_mac_result [of w "s\<lparr>DhcpMsg := ?p\<rparr>" mac] r by (cases s) (auto simp: reachable_by_def)
  have "ParseDhcpOptions ?p 0xff 0 0 = Some v" using walk f(1,6) by (simp add: ParseDhcpOptions_walk)
  moreover have "own_mac w (wlan s) \<noteq> mac" using r by (simp add: reachable_by_def)
  ultimately show ?thesis
    unfolding recv_dispatch f Let_def using c f(3) v by (simp add: f(1,4,5)) (use f(1,4,5) in simp)
qed

lemma walk_discover:
  "walk ([53, 1, DHCP_MSG_DISCOVER, 255] @ xs) v = Some (v\<lparr>opt_type := DHCP_MSG_DISCOVER, opt_ret := opt_ret v OR 1\<rparr>)"
  by (simp add: store_option_def)

lemma walk_request:
  "walk ([53, 1, DHCP_MSG_REQUEST] @ opt_u32 50 ip @ opt_u32 54 srv @ [255] @ xs) v =
     Some (v\<lparr>opt_type := DHCP_MSG_REQUEST, opt_req_ip := ip, opt_server := srv, opt_ret := ((opt_ret v OR 1) OR 2) OR 4\<rparr>)"
proof -
  have "take 4 (le32 x @ ys) = le32 x" "drop 4 (le32 x @ ys) = ys" for x ys by simp_all
  then show ?thesis by (simp add: store_option_def opt_u32_def)
qed

definition discover_msg :: "u32 \<Rightarrow> u16 \<Rightarrow> bytes \<Rightarrow> bytes" where
  "discover_msg xid flags mac = request_msg xid flags mac [53, 1, DHCP_MSG_DISCOVER, 255]"

definition select_msg :: "u32 \<Rightarrow> u16 \<Rightarrow> bytes \<Rightarrow> u32 \<Rightarrow> u32 \<Rightarrow> bytes" where
  "select_msg xid flags mac ip srv =
     request_msg xid flags mac ([53, 1, DHCP_MSG_REQUEST] @ opt_u32 50 ip @ opt_u32 54 srv @ [255])"

definition lease_payload :: "u8 \<Rightarrow> u32 \<Rightarrow> u32 \<Rightarrow> bytes \<Rightarrow> dhcp_server \<Rightarrow> bytes" where
  "lease_payload t xid ip mac srv = take (240 + length (lease_options t srv)) (reply_msg xid ip 0 mac (lease_options t srv))"

lemma lookup_new_client:
  assumes ok: "table_ok cs" and none: "\<forall>i < DHCPS_HISTORY_CLIENT_NUM. active (cs ! i) \<longrightarrow> MacAddr (cs ! i) \<noteq> mac"
    and ip: "\<forall>i < DHCPS_HISTORY_CLIENT_NUM. IpAddr (cs ! i) \<noteq> 0" and room: "i0 < DHCPS_HISTORY_CLIENT_NUM" "\<not> active (cs ! i0)"
    and s: "table s = cs"
  shows "\<exists>i < DHCPS_HISTORY_CLIENT_NUM. \<not> active (cs ! i) \<and>
    ClientTableLookup mac DHCP_MSG_DISCOVER 0 srv s = (Some i, upd_client i (\<lambda>c. c\<lparr>MacAddr := mac\<rparr>) s)"
proof -
  define v where "v = lookup_scan mac 0 cs"
  have v: "scan_ok mac 0 cs DHCPS_HISTORY_CLIENT_NUM v" by (simp add: v_def lookup_scan_ok)
  have my: "pMyClient v = None" using v none by (auto simp: scan_ok_def points_def split: option.splits)
  have req: "pReqClient v = None" using v ip by (auto simp: scan_ok_def points_def split: option.splits)
  have "pFreeClient v \<noteq> None \<or> pHistoryClient v \<noteq> None"
    using v room by (auto simp: scan_ok_def points_def split: option.splits)
  then obtain i where i: "lookup_discover v s = (Some i, s)" "i < DHCPS_HISTORY_CLIENT_NUM" "\<not> active (cs ! i)"
    using my req v by (auto simp: lookup_discover_def scan_ok_def points_def split: option.splits)
  then show ?thesis
    using s by (intro exI [of _ i]) (simp add: ClientTableLookup_def table_def [symmetric] v_def [symmetric])
qed

lemma discover_offers:
  assumes r: "reachable_by w mac s" and none: "\<forall>i < DHCPS_HISTORY_CLIENT_NUM. active (table s ! i) \<longrightarrow> MacAddr (table s ! i) \<noteq> mac"
    and ip: "\<forall>i < DHCPS_HISTORY_CLIENT_NUM. IpAddr (table s ! i) \<noteq> 0" and room: "i0 < DHCPS_HISTORY_CLIENT_NUM" "\<not> active (table s ! i0)"
  shows "\<exists>i s1 pre dst. DHCPS_RecvCb w (discover_msg xid flags mac) s = Some s1 \<and> i < DHCPS_HISTORY_CLIENT_NUM \<and> \<not> active (table s ! i) \<and>
    table s1 = (table s)[i := offered ((table s ! i)\<lparr>MacAddr := mac\<rparr>)] \<and> heap s1 = [] \<and> same_server s s1 \<and>
    sent s1 = sent s @ pre @ [Udp dst (lease_payload DHCP_MSG_OFFER xid (IpAddr (table s ! i)) mac (DhcpServer s))]"
proof -
  let ?s = "s\<lparr>DhcpMsg := discover_msg xid flags mac\<rparr>"
  let ?v = "\<lparr>opt_ret = 1, opt_type = DHCP_MSG_DISCOVER, opt_req_ip = 0, opt_server = 0\<rparr>"
  have ok: "table_ok (table s)" "Socket (DhcpServer s)" "heap s = []" using r by (auto simp: reachable_by_def)
  have t: "table ?s = table s" by (simp add: table_def)
  obtain i where i: "i < DHCPS_HISTORY_CLIENT_NUM" "\<not> active (table s ! i)"
      "ClientTableLookup mac DHCP_MSG_DISCOVER 0 0 ?s = (Some i, upd_client i (\<lambda>c. c\<lparr>MacAddr := mac\<rparr>) ?s)"
    using lookup_new_client [OF ok(1) none ip room t] by blast
  have len: "length (table s) = DHCPS_HISTORY_CLIENT_NUM" using ok(1) by (simp add: table_ok_def)
  let ?u = "upd_client i (\<lambda>c. c\<lparr>MacAddr := mac, State := SELECT\<rparr>) ?s"
  have u: "upd_client i (\<lambda>c. c\<lparr>State := SELECT\<rparr>) (upd_client i (\<lambda>c. c\<lparr>MacAddr := mac\<rparr>) ?s) = ?u"
    using i(1) len by (simp add: upd_client_twice t)
  have "DHCPS_RecvCb w (discover_msg xid flags mac) s = dispatch mac ?v xid flags ?s"
    unfolding discover_msg_def by (rule recv_request_msg [OF r]) (use walk_discover in simp_all)
  also have "\<dots> = sme_offer i xid flags ?u"
    using i(2) u len i(1) by (simp add: dispatch_def i(3) DhcpClientSMEHandle_def client_at_table t active_def)
  finally have recv: "DHCPS_RecvCb w (discover_msg xid flags mac) s = sme_offer i xid flags ?u" .
  have "Socket (DhcpServer ?u)" "heap ?u = []" using ok by simp_all
  then obtain s1 pre dst where s1: "sme_offer i xid flags ?u = Some s1" "heap s1 = []"
      "sent s1 = sent ?u @ pre @ [Udp dst (take (240 + length (lease_options DHCP_MSG_OFFER (DhcpServer ?u)))
        (reply_msg xid (IpAddr (table ?u ! i)) 0 (MacAddr (table ?u ! i)) (lease_options DHCP_MSG_OFFER (DhcpServer ?u))))]"
    using sme_offer_returns by blast
  have "offered ((table s ! i)\<lparr>MacAddr := mac, State := SELECT\<rparr>) = offered ((table s ! i)\<lparr>MacAddr := mac\<rparr>)"
    by (simp add: offered_def)
  moreover have "same_server s ?u" by (rule same_server_upd) (simp add: same_server_def)
  ultimately have "table s1 = (table s)[i := offered ((table s ! i)\<lparr>MacAddr := mac\<rparr>)]" "same_server s s1"
    using offer_table [OF s1(1)] same_server_trans [of s ?u s1] i(1) len by (simp_all add: t)
  then show ?thesis
    using recv s1 i(1,2) len by (intro exI [of _ i] exI [of _ s1] exI [of _ pre] exI [of _ dst]) (simp add: lease_payload_def t)
qed

lemma lookup_own_offer:
  assumes ok: "table_ok cs" and i: "i < DHCPS_HISTORY_CLIENT_NUM" "active (cs ! i)" "MacAddr (cs ! i) = mac"
    and ip: "\<forall>j < DHCPS_HISTORY_CLIENT_NUM. IpAddr (cs ! j) = ip \<longrightarrow> j = i" and s: "table s = cs"
  shows "ClientTableLookup mac DHCP_MSG_REQUEST ip srv s =
    (if srv = 0 \<or> ServerIpAddr (DhcpServer s) = srv then (Some i, upd_client i (\<lambda>c. c\<lparr>MacAddr := mac\<rparr>) s) else (None, s))"
proof -
  define v where "v = lookup_scan mac ip cs"
  have v: "scan_ok mac ip cs DHCPS_HISTORY_CLIENT_NUM v" by (simp add: v_def lookup_scan_ok)
  have uniq: "j = i" if "j < DHCPS_HISTORY_CLIENT_NUM" "active (cs ! j)" "MacAddr (cs ! j) = mac" for j
    using ok i that unfolding table_ok_def one_entry_def by metis
  have mine: "points (\<lambda>j. active (cs ! j) \<and> MacAddr (cs ! j) = mac) DHCPS_HISTORY_CLIENT_NUM (pMyClient v)"
    using v by (simp add: scan_ok_def)
  have my: "pMyClient v = Some i"
  proof (cases "pMyClient v")
    case None
    then show ?thesis using mine i by (simp add: points_def)
  next
    case (Some j)
    then have "j = i" using mine by (intro uniq) (simp_all add: points_def)
    then show ?thesis using Some by simp
  qed
  have "points (\<lambda>j. \<not> active (cs ! j) \<and> IpAddr (cs ! j) = ip) DHCPS_HISTORY_CLIENT_NUM (pReqClient v)"
    using v by (simp add: scan_ok_def)
  then have req: "pReqClient v = None" using i ip by (cases "pReqClient v") (auto simp: points_def)
  have un: "\<not> IpUnavailable v" using v i ip unfolding scan_ok_def by metis
  show ?thesis
    using s my req un
    by (simp add: ClientTableLookup_def table_def [symmetric] v_def [symmetric] lookup_request_def Let_def)
qed

lemma same_mac_upd:
  assumes "MacAddr (table s ! i) = mac"
  shows "upd_client i (\<lambda>c. c\<lparr>MacAddr := mac\<rparr>) s = s"
proof -
  have "(table s ! i)\<lparr>MacAddr := mac\<rparr> = table s ! i" using assms by (cases "table s ! i") simp
  then show ?thesis by (simp add: upd_client_def client_at_table table_def)
qed

text \<open>The requested address is the one of the client's entry, or no entry has it.\<close>

lemma request_binds:
  assumes r: "reachable_by w mac s" and i: "i < DHCPS_HISTORY_CLIENT_NUM" "active (table s ! i)" "MacAddr (table s ! i) = mac"
    and ip: "\<forall>j < DHCPS_HISTORY_CLIENT_NUM. IpAddr (table s ! j) = ip \<longrightarrow> j = i"
    and srv: "srv = 0 \<or> ServerIpAddr (DhcpServer s) = srv"
  shows "\<exists>s1 pre dst. DHCPS_RecvCb w (select_msg xid flags mac ip srv) s = Some s1 \<and>
    State (table s1 ! i) = BIND \<and> MacAddr (table s1 ! i) = mac \<and> IpAddr (table s1 ! i) = IpAddr (table s ! i) \<and> Lease (table s1 ! i) = DHCP_DEFAULT_LEASE_TIME \<and>
    sent s1 = sent s @ pre @ [Udp dst (lease_payload DHCP_MSG_ACK xid (IpAddr (table s ! i)) mac (DhcpServer s))]"
proof -
  let ?m = "select_msg xid flags mac ip srv"
  let ?s = "s\<lparr>DhcpMsg := ?m\<rparr>"
  let ?v = "\<lparr>opt_ret = ((0 OR 1) OR 2) OR 4, opt_type = DHCP_MSG_REQUEST, opt_req_ip = ip, opt_server = srv\<rparr>"
  let ?opts = "[53, 1, DHCP_MSG_REQUEST] @ opt_u32 50 ip @ opt_u32 54 srv @ [255]"
  have ok: "table_ok (table s)" "Socket (DhcpServer s)" "heap s = []" using r by (auto simp: reachable_by_def)
  have t: "table ?s = table s" by (simp add: table_def)
  have l: "ClientTableLookup mac DHCP_MSG_REQUEST ip srv ?s = (Some i, ?s)"
    using lookup_own_offer [OF ok(1) i ip t, of srv] srv same_mac_upd [of ?s i mac] i(3) t by simp
  have "walk (?opts @ zeros (308 - length ?opts)) \<lparr>opt_ret = 0, opt_type = 0xff, opt_req_ip = 0, opt_server = 0\<rparr> = Some ?v"
    using walk_request [of ip srv "zeros (308 - length ?opts)"] by simp
  then have "DHCPS_RecvCb w ?m s = dispatch mac ?v xid flags ?s"
    unfolding select_msg_def by (intro recv_request_msg [OF r]) (simp_all add: opt_u32_def)
  also have "\<dots> = sme_ack i xid flags ?s"
    using i(2) ok(1) i(1) mac_length [OF ok(1) i(1)]
    by (cases "State (table s ! i)") (auto simp: dispatch_def l DhcpClientSMEHandle_def client_at_table t active_def table_ok_def client_ok_def)
  finally have recv: "DHCPS_RecvCb w ?m s = sme_ack i xid flags ?s" .
  have "Socket (DhcpServer ?s)" "table_ok (table ?s)" "heap ?s = []" using ok t by simp_all
  then obtain s1 pre dst where s1: "sme_ack i xid flags ?s = Some s1"
      "sent s1 = sent ?s @ pre @ [Udp dst (take (240 + length (lease_options DHCP_MSG_ACK (DhcpServer ?s)))
        (reply_msg xid (IpAddr (table ?s ! i)) 0 (MacAddr (table ?s ! i)) (lease_options DHCP_MSG_ACK (DhcpServer ?s))))]"
    using sme_ack_returns [of ?s i xid flags] i(1) by blast
  have "table s1 = map (clean mac) ((table s)[i := bound (table s ! i)])"
    using ack_table [OF s1(1)] ok(1) i t by simp
  moreover have "length (table s) = DHCPS_HISTORY_CLIENT_NUM" using ok(1) by (simp add: table_ok_def)
  ultimately have "table s1 ! i = bound (table s ! i)" using i(1) by simp
  then show ?thesis
    using recv s1 i t by (intro exI [of _ s1] exI [of _ pre] exI [of _ dst]) (simp add: lease_payload_def bound_def)
qed

lemma lease_options_same: "same_server s s' \<Longrightarrow> lease_options t (DhcpServer s') = lease_options t (DhcpServer s)"
  by (cases "DhcpServer s"; cases "DhcpServer s'") (simp add: same_server_def lease_options_def)

lemma lease_of_bound:
  assumes "table_ok (table s)" "i < DHCPS_HISTORY_CLIENT_NUM" "State (table s ! i) = BIND" "MacAddr (table s ! i) = mac"
  shows "lease_of s mac = Some (IpAddr (table s ! i))"
proof -
  have "find (\<lambda>c. State c = BIND \<and> MacAddr c = mac) (table s) = Some (table s ! i)"
    unfolding find_Some_iff
  proof (intro exI [of _ i] conjI allI impI)
    fix j
    assume "j < i"
    then have "\<not> (active (table s ! j) \<and> MacAddr (table s ! j) = mac)"
      using assms unfolding table_ok_def one_entry_def active_def by (metis dhcp_client_state.distinct(5) less_irrefl less_trans)
    then show "\<not> (State (table s ! j) = BIND \<and> MacAddr (table s ! j) = mac)" by (auto simp: active_def)
  qed (use assms in \<open>simp_all add: table_ok_def\<close>)
  then show ?thesis by (simp add: lease_of_def)
qed

section \<open>A running server\<close>

text \<open>A server at 192.168.1.1/24 with two stations.\<close>

definition ap_netif :: netif where
  "ap_netif = \<lparr>netif_up = True, ip_addr = 0x0101A8C0, netmask = 0x00FFFFFF\<rparr>"

definition two_stations :: "unit wlan_ops" where
  "two_stations = \<lparr>authed_sta = (\<lambda>_. (2, [2, 0, 0, 0, 0, 1, 2, 0, 0, 0, 0, 2])), own_mac = (\<lambda>_. [2, 0, 0, 0, 0, 0])\<rparr>"

definition stopped :: "unit dhcp_state" where
  "stopped = \<lparr>heap = [], junk = (\<lambda>_. 0), DhcpServer = zero_server, DhcpMsg = zeros 548, timers = 0, wlan = (), sent = []\<rparr>"

definition started :: "unit dhcp_state" where
  "started = snd (the (DHCPS_Start ap_netif stopped))"

lemma ap_room: "pool_room ap_netif 8"
proof -
  have "htonl 0x0101A8C0 = 0xC0A80101" "htonl 0x00FFFFFF = 0xFFFFFF00"
    by (simp_all add: htonl_def le32_def of_le32_def)
  then show ?thesis by (simp add: pool_room_def ap_netif_def take_bit_eq_mod mask_eq_exp_minus_1)
qed

lemma started_facts:
  "DHCPS_Start ap_netif stopped = Some (DHCPS_ERR_SUCCESS, started)" "heap started = []" "wlan started = ()"
  "Socket (DhcpServer started)" "Enable (DhcpServer started)" "timers started = 1"
  "\<forall>i < DHCPS_HISTORY_CLIENT_NUM. \<not> active (table started ! i)" "ServerIpAddr (DhcpServer started) = 0x0101A8C0"
proof -
  have "NOT (htonl (netmask ap_netif)) \<noteq> 0" using ap_room by (simp add: pool_room_def mask_eq_exp_minus_1)
  then obtain s where s: "DHCPS_Start ap_netif stopped = Some (DHCPS_ERR_SUCCESS, s)" "heap s = []" "wlan s = ()"
      "Socket (DhcpServer s)" "Enable (DhcpServer s)" "timers s = 1"
      "\<forall>i < DHCPS_HISTORY_CLIENT_NUM. \<not> active (table s ! i)" "ServerIpAddr (DhcpServer s) = 0x0101A8C0"
    by (simp add: DHCPS_Start_def ap_netif_def Let_def pbuf_alloc_result stopped_def table_def active_def zero_client_def
        zero_server_def del: upt_rec_numeral)
  then have "s = started" by (simp add: started_def)
  then show "DHCPS_Start ap_netif stopped = Some (DHCPS_ERR_SUCCESS, started)" "heap started = []" "wlan started = ()"
    "Socket (DhcpServer started)" "Enable (DhcpServer started)" "timers started = 1"
    "\<forall>i < DHCPS_HISTORY_CLIENT_NUM. \<not> active (table started ! i)" "ServerIpAddr (DhcpServer started) = 0x0101A8C0"
    using s by auto
qed

lemma started_table: "table_ok (table started)" "map IpAddr (table started) = pool ap_netif"
  using start_result [OF started_facts(1)] by auto

lemma stations_ok: "wlan_ok two_stations e" "is_station two_stations e [2, 0, 0, 0, 0, 1]" "is_station two_stations e [2, 0, 0, 0, 0, 2]"
proof -
  show "wlan_ok two_stations e" by (simp add: wlan_ok_def two_stations_def)
  show "is_station two_stations e [2, 0, 0, 0, 0, 1]"
    by (auto simp: is_station_def two_stations_def slice_def patch_def intro!: exI [of _ 0])
  show "is_station two_stations e [2, 0, 0, 0, 0, 2]"
    by (auto simp: is_station_def two_stations_def slice_def patch_def intro!: exI [of _ 1])
qed

lemma started_reachable:
  "reachable_by two_stations [2, 0, 0, 0, 0, 1] started" "reachable_by two_stations [2, 0, 0, 0, 0, 2] started"
  using started_facts started_table stations_ok by (auto simp: reachable_by_def two_stations_def)

text \<open>Two clients that have an offer each.\<close>

lemma reachable_by_step:
  assumes "reachable_by w mac s" "table_ok (table s1)" "same_server s s1" "heap s1 = []"
  shows "reachable_by w mac s1"
  using assms same_server_sel [OF assms(3)] by (simp add: reachable_by_def same_server_def)

lemma nonzero_pool:
  assumes "map IpAddr cs = pool ap_netif" "i < DHCPS_HISTORY_CLIENT_NUM"
  shows "IpAddr (cs ! i) \<noteq> 0"
proof -
  have "length cs = DHCPS_HISTORY_CLIENT_NUM" using assms(1) pool_nth(3) [OF ap_room, of 0] by (metis length_map zero_less_numeral)
  then have "IpAddr (cs ! i) \<in> set (pool ap_netif)" using assms by (metis length_map nth_map nth_mem)
  then show ?thesis using pool_distinct(3) [OF ap_room] by metis
qed

lemma two_offers:
  "\<exists>s i j. (dhcp_step two_stations)\<^sup>*\<^sup>* started s \<and> i < DHCPS_HISTORY_CLIENT_NUM \<and> j < DHCPS_HISTORY_CLIENT_NUM \<and> i \<noteq> j \<and>
    State (client_at s i) \<noteq> IDLE \<and> State (client_at s j) \<noteq> IDLE"
proof -
  let ?a = "[2, 0, 0, 0, 0, 1] :: bytes" and ?b = "[2, 0, 0, 0, 0, 2] :: bytes"
  have ip: "\<forall>i < DHCPS_HISTORY_CLIENT_NUM. IpAddr (table started ! i) \<noteq> 0" using nonzero_pool [OF started_table(2)] by blast
  have none: "\<forall>i < DHCPS_HISTORY_CLIENT_NUM. active (table started ! i) \<longrightarrow> MacAddr (table started ! i) \<noteq> m" for m
    using started_facts(7) by blast
  have len: "length (table started) = DHCPS_HISTORY_CLIENT_NUM" using started_table(1) by (simp add: table_ok_def)
  obtain i s1 where s1: "DHCPS_RecvCb two_stations (discover_msg 1 0 ?a) started = Some s1" "i < DHCPS_HISTORY_CLIENT_NUM"
      "table s1 = (table started)[i := offered ((table started ! i)\<lparr>MacAddr := ?a\<rparr>)]" "heap s1 = []" "same_server started s1"
    using discover_offers [OF started_reachable(1) none ip, of 0 1 0] started_facts(7) by auto
  have ok1: "table_ok (table s1)" "map IpAddr (table s1) = map IpAddr (table started)"
    using recv_ok [OF s1(1) started_table(1)] by (auto simp: only_mac_def)
  have ip1: "\<forall>k < DHCPS_HISTORY_CLIENT_NUM. IpAddr (table s1 ! k) \<noteq> 0"
    using nonzero_pool [of "table s1"] ok1(2) started_table(2) by simp
  define i0 :: nat where "i0 = (if i = 0 then 1 else 0)"
  have i0: "i0 < DHCPS_HISTORY_CLIENT_NUM" "\<not> active (table s1 ! i0)"
    using started_facts(7) s1(2) len by (auto simp: i0_def s1(3) nth_updated)
  have none1: "\<forall>k < DHCPS_HISTORY_CLIENT_NUM. active (table s1 ! k) \<longrightarrow> MacAddr (table s1 ! k) \<noteq> ?b"
    using started_facts(7) len s1(2) by (auto simp: s1(3) nth_updated)
  obtain j s2 where s2: "DHCPS_RecvCb two_stations (discover_msg 2 0 ?b) s1 = Some s2" "j < DHCPS_HISTORY_CLIENT_NUM" "\<not> active (table s1 ! j)"
      "table s2 = (table s1)[j := offered ((table s1 ! j)\<lparr>MacAddr := ?b\<rparr>)]"
    using discover_offers [OF reachable_by_step [OF started_reachable(2) ok1(1) s1(5,4)] none1 ip1 i0, of 2 0] by auto
  have "active (table s1 ! i)" using s1(2,3) len by (simp add: nth_updated)
  then have "i \<noteq> j" using s2(3) by auto
  moreover have "active (table s2 ! i)" "active (table s2 ! j)"
    using \<open>active (table s1 ! i)\<close> \<open>i \<noteq> j\<close> s2(2,4) s1(2,3) len by (simp_all add: nth_updated)
  moreover have "(dhcp_step two_stations)\<^sup>*\<^sup>* started s2"
    using dhcp_step.recv [OF _ s1(1)] dhcp_step.recv [OF _ s2(1)] started_facts(4) same_server_sel(2) [OF s1(5)]
    by (meson rtranclp.rtrancl_into_rtrancl rtranclp.rtrancl_refl)
  ultimately show ?thesis
    using s1(2) s2(2) by (intro exI [of _ s2] exI [of _ i] exI [of _ j]) (simp add: client_at_table active_def)
qed

section \<open>Properties of every sequence of steps\<close>

text \<open>C2: after \<open>DHCPS_Start\<close> on an interface with room for the pool behind its own address, over any
  sequence of messages (well-formed or not), ticks, calls of the interface and changes of the stations and
  the free memory, no two clients that are offered or leased an address share it, no client has two
  addresses, every such address is in the subnet of the interface and none is the server's own.\<close>

theorem dhcp_leases_exclusive:
  assumes "DHCPS_Start n s0 = Some (DHCPS_ERR_SUCCESS, s)" "pool_room n k" "(dhcp_step w)\<^sup>*\<^sup>* s s'"
    and "i < DHCPS_HISTORY_CLIENT_NUM" "State (client_at s' i) \<noteq> IDLE" "j < DHCPS_HISTORY_CLIENT_NUM" "State (client_at s' j) \<noteq> IDLE" "i \<noteq> j"
  shows "IpAddr (client_at s' i) \<noteq> IpAddr (client_at s' j) \<and> MacAddr (client_at s' i) \<noteq> MacAddr (client_at s' j) \<and>
    IpAddr (client_at s' i) \<noteq> ip_addr n \<and>
    htonl (IpAddr (client_at s' i)) AND htonl (netmask n) = htonl (ip_addr n) AND htonl (netmask n)"
proof -
  have "table_ok (table s) \<and> map IpAddr (table s) = pool n" using start_result [OF assms(1)] by simp
  then have ok: "table_ok (table s')" "map IpAddr (table s') = pool n" using steps_ok [OF assms(3)] by auto
  have len: "length (table s') = DHCPS_HISTORY_CLIENT_NUM" using ok(1) by (simp add: table_ok_def)
  have ip: "IpAddr (table s' ! l) = pool n ! l" if "l < DHCPS_HISTORY_CLIENT_NUM" for l
    using ok(2) len that by (metis nth_map)
  have m: "htonl (netmask n) = NOT (mask k)" using assms(2) by (metis pool_room_def bit.double_compl)
  have "pool n ! i \<in> set (pool n)" using pool_nth(3) [OF assms(2), of i] assms(4) by simp
  then have "pool n ! i \<noteq> ip_addr n" using pool_distinct(2) [OF assms(2)] by auto
  then show ?thesis
    using assms(4-8) ok(1) len pool_distinct(1,2) [OF assms(2)] pool_nth(1,3) [OF assms(2), of i]
    by (auto simp: client_at_table ip m table_ok_def one_entry_def active_def nth_eq_iff_index_eq)
qed


theorem dhcp_leases_exclusive_witness:
  "\<exists>s i j. (dhcp_step two_stations)\<^sup>*\<^sup>* started s \<and> i \<noteq> j \<and> State (client_at s i) \<noteq> IDLE \<and> State (client_at s j) \<noteq> IDLE \<and>
    IpAddr (client_at s i) \<noteq> IpAddr (client_at s j) \<and> MacAddr (client_at s i) \<noteq> MacAddr (client_at s j)"
proof -
  obtain s i j where s: "(dhcp_step two_stations)\<^sup>*\<^sup>* started s" "i < DHCPS_HISTORY_CLIENT_NUM" "State (client_at s i) \<noteq> IDLE"
      "j < DHCPS_HISTORY_CLIENT_NUM" "State (client_at s j) \<noteq> IDLE" "i \<noteq> j"
    using two_offers by blast
  show ?thesis
    using dhcp_leases_exclusive [OF started_facts(1) ap_room s] s by blast
qed

text \<open>C6: a message changes the lease of its sender only: against the specification of the server as a map
  from clients to leased addresses, the message of one client is an update of this map at that client, and
  the map stays injective. This holds for every message, well-formed or not, at every reachable state.\<close>

theorem dhcp_message_changes_own_lease:
  assumes "DHCPS_Start n s0 = Some (DHCPS_ERR_SUCCESS, s1)" "pool_room n k" "(dhcp_step w)\<^sup>*\<^sup>* s1 s"
    and "DHCPS_RecvCb w p s = Some s'"
  shows "lease_of s' = (lease_of s)(msg_mac p := lease_of s' (msg_mac p)) \<and> inj_on (lease_of s') (dom (lease_of s'))"
proof
  have "table_ok (table s1) \<and> map IpAddr (table s1) = pool n" using start_result [OF assms(1)] by simp
  then have ok: "table_ok (table s)" "map IpAddr (table s) = pool n" using steps_ok [OF assms(3)] by auto
  note r = recv_ok [OF assms(4) ok(1)]
  show "lease_of s' = (lease_of s)(msg_mac p := lease_of s' (msg_mac p))"
  proof
    fix m
    show "lease_of s' m = ((lease_of s)(msg_mac p := lease_of s' (msg_mac p))) m"
      using only_mac_lease [of "msg_mac p" s s' m] r by simp
  qed
  have d: "distinct (map IpAddr (table s'))" using r ok(2) pool_distinct(1) [OF assms(2)] by (simp add: only_mac_def)
  show "inj_on (lease_of s') (dom (lease_of s'))"
  proof (rule inj_onI)
    fix m m'
    assume "m \<in> dom (lease_of s')" "lease_of s' m = lease_of s' m'"
    then obtain ip where "lease_of s' m = Some ip" "lease_of s' m' = Some ip" by (metis domD)
    then show "m = m'" by (rule lease_unique [OF d])
  qed
qed

theorem dhcp_message_changes_own_lease_witness:
  "\<exists>s'. DHCPS_RecvCb two_stations (discover_msg 1 0 [2, 0, 0, 0, 0, 1]) started = Some s' \<and>
    lease_of s' = (lease_of started)(msg_mac (discover_msg 1 0 [2, 0, 0, 0, 0, 1]) := lease_of s' (msg_mac (discover_msg 1 0 [2, 0, 0, 0, 0, 1])))"
proof -
  have "\<forall>i < DHCPS_HISTORY_CLIENT_NUM. IpAddr (table started ! i) \<noteq> 0" using nonzero_pool [OF started_table(2)] by blast
  moreover have "\<forall>i < DHCPS_HISTORY_CLIENT_NUM. active (table started ! i) \<longrightarrow> MacAddr (table started ! i) \<noteq> [2, 0, 0, 0, 0, 1]"
    using started_facts(7) by blast
  ultimately obtain s' where "DHCPS_RecvCb two_stations (discover_msg 1 0 [2, 0, 0, 0, 0, 1]) started = Some s'"
    using discover_offers [OF started_reachable(1), of 0 1 0] started_facts(7) by auto
  then show ?thesis
    using dhcp_message_changes_own_lease [OF started_facts(1) ap_room rtranclp.rtrancl_refl] by blast
qed

text \<open>C15: a new station that sends a DISCOVER while an entry is free gets an OFFER with an address of the pool,
  and when it requests this address from this server, an ACK with the same address, which is then leased
  to it for 7200 seconds.\<close>

theorem dhcp_exchange_binds:
  assumes "reachable_by w mac s" "distinct (map IpAddr (table s))"
    and "\<forall>i < DHCPS_HISTORY_CLIENT_NUM. IpAddr (client_at s i) \<noteq> 0 \<and> (State (client_at s i) \<noteq> IDLE \<longrightarrow> MacAddr (client_at s i) \<noteq> mac)"
    and "i0 < DHCPS_HISTORY_CLIENT_NUM" "State (client_at s i0) = IDLE"
  shows "\<exists>ip s1 pre1 dst1 s2 pre2 dst2. DHCPS_RecvCb w (discover_msg xid flags mac) s = Some s1 \<and>
    sent s1 = sent s @ pre1 @ [Udp dst1 (lease_payload DHCP_MSG_OFFER xid ip mac (DhcpServer s))] \<and>
    DHCPS_RecvCb w (select_msg xid flags mac ip (ServerIpAddr (DhcpServer s))) s1 = Some s2 \<and>
    sent s2 = sent s1 @ pre2 @ [Udp dst2 (lease_payload DHCP_MSG_ACK xid ip mac (DhcpServer s))] \<and>
    lease_of s2 mac = Some ip \<and> (\<exists>i < DHCPS_HISTORY_CLIENT_NUM. IpAddr (client_at s2 i) = ip \<and> Lease (client_at s2 i) = DHCP_DEFAULT_LEASE_TIME)"
proof -
  have ok: "table_ok (table s)" and mac6: "length mac = 6" using assms(1) by (simp_all add: reachable_by_def)
  have len: "length (table s) = DHCPS_HISTORY_CLIENT_NUM" using ok by (simp add: table_ok_def)
  have none: "\<forall>i < DHCPS_HISTORY_CLIENT_NUM. active (table s ! i) \<longrightarrow> MacAddr (table s ! i) \<noteq> mac"
    and ip: "\<forall>i < DHCPS_HISTORY_CLIENT_NUM. IpAddr (table s ! i) \<noteq> 0" and idle: "\<not> active (table s ! i0)"
    using assms(3,5) by (simp_all add: client_at_table active_def)
  obtain i s1 pre1 dst1 where s1: "DHCPS_RecvCb w (discover_msg xid flags mac) s = Some s1" "i < DHCPS_HISTORY_CLIENT_NUM"
      "table s1 = (table s)[i := offered ((table s ! i)\<lparr>MacAddr := mac\<rparr>)]" "heap s1 = []" "same_server s s1"
      "sent s1 = sent s @ pre1 @ [Udp dst1 (lease_payload DHCP_MSG_OFFER xid (IpAddr (table s ! i)) mac (DhcpServer s))]"
    using discover_offers [OF assms(1) none ip assms(4) idle] by blast
  let ?ip = "IpAddr (table s ! i)"
  have ok1: "table_ok (table s1)" "map IpAddr (table s1) = map IpAddr (table s)"
    using recv_ok [OF s1(1) ok] by (auto simp: only_mac_def)
  have r1: "reachable_by w mac s1" by (rule reachable_by_step [OF assms(1) ok1(1) s1(5,4)])
  have i1: "active (table s1 ! i)" "MacAddr (table s1 ! i) = mac" "IpAddr (table s1 ! i) = ?ip"
    using s1(2,3) len by (simp_all add: nth_updated)
  have len1: "length (table s1) = DHCPS_HISTORY_CLIENT_NUM" using ok1(1) by (simp add: table_ok_def)
  have sole: "\<forall>j < DHCPS_HISTORY_CLIENT_NUM. IpAddr (table s1 ! j) = ?ip \<longrightarrow> j = i"
  proof (intro allI impI)
    fix j
    assume j: "j < DHCPS_HISTORY_CLIENT_NUM" "IpAddr (table s1 ! j) = ?ip"
    then have "map IpAddr (table s) ! j = map IpAddr (table s) ! i"
      using ok1(2) len len1 s1(2) by (metis nth_map)
    then show "j = i" using assms(2) len j(1) s1(2) by (simp add: nth_eq_iff_index_eq del: nth_map)
  qed
  have srv: "ServerIpAddr (DhcpServer s1) = ServerIpAddr (DhcpServer s)" using same_server_sel(3) [OF s1(5)] .
  obtain s2 pre2 dst2 where s2: "DHCPS_RecvCb w (select_msg xid flags mac ?ip (ServerIpAddr (DhcpServer s))) s1 = Some s2"
      "State (table s2 ! i) = BIND" "MacAddr (table s2 ! i) = mac" "IpAddr (table s2 ! i) = ?ip" "Lease (table s2 ! i) = DHCP_DEFAULT_LEASE_TIME"
      "sent s2 = sent s1 @ pre2 @ [Udp dst2 (lease_payload DHCP_MSG_ACK xid ?ip mac (DhcpServer s1))]"
    using request_binds [OF r1 s1(2) i1(1,2) sole, of "ServerIpAddr (DhcpServer s)" xid flags] srv i1(3) by auto
  have "table_ok (table s2)" using recv_ok [OF s2(1) ok1(1)] by simp
  from lease_of_bound [OF this s1(2) s2(2,3)] have "lease_of s2 mac = Some ?ip" by (simp add: s2(4))
  moreover have "lease_payload DHCP_MSG_ACK xid ?ip mac (DhcpServer s1) = lease_payload DHCP_MSG_ACK xid ?ip mac (DhcpServer s)"
    by (simp only: lease_payload_def lease_options_same [OF s1(5)])
  moreover have "IpAddr (client_at s2 i) = ?ip \<and> Lease (client_at s2 i) = DHCP_DEFAULT_LEASE_TIME"
    using s2(4,5) by (simp add: client_at_table)
  ultimately show ?thesis using s1(1,2,6) s2(1,6) by metis
qed

theorem dhcp_exchange_binds_witness:
  "\<exists>ip s1 s2. DHCPS_RecvCb two_stations (discover_msg 1 0 [2, 0, 0, 0, 0, 1]) started = Some s1 \<and>
    DHCPS_RecvCb two_stations (select_msg 1 0 [2, 0, 0, 0, 0, 1] ip 0x0101A8C0) s1 = Some s2 \<and> lease_of s2 [2, 0, 0, 0, 0, 1] = Some ip"
proof -
  have d: "distinct (map IpAddr (table started))" using started_table(2) pool_distinct(1) [OF ap_room] by simp
  have h: "\<forall>i < DHCPS_HISTORY_CLIENT_NUM. IpAddr (client_at started i) \<noteq> 0 \<and>
      (State (client_at started i) \<noteq> IDLE \<longrightarrow> MacAddr (client_at started i) \<noteq> [2, 0, 0, 0, 0, 1])"
    using nonzero_pool [OF started_table(2)] started_facts(7) by (simp add: client_at_table active_def)
  show ?thesis
    using dhcp_exchange_binds [OF started_reachable(1) d h, of 0 1 0] started_facts(7,8) by (auto simp: client_at_table active_def)
qed

text \<open>C30: \<open>DHCPS_RecvCb\<close> returns for every packet whose options end inside the message, and only then: an
  accepted packet of a station whose walk along the options runs off the message makes the server read
  behind it.\<close>

theorem dhcp_recv_returns_iff:
  assumes "table_ok (table s)" "Socket (DhcpServer s)" "wlan_ok w (wlan s)"
  shows "DHCPS_RecvCb w p s = None \<longleftrightarrow>
    accepted p \<and> own_mac w (wlan s) \<noteq> msg_mac p \<and> (heap s = [] \<or> hd (heap s)) \<and> is_station w (wlan s) (msg_mac p) \<and>
    walk (drop 240 (msg_of p)) \<lparr>opt_ret = 0, opt_type = 0xff, opt_req_ip = 0, opt_server = 0\<rparr> = None"
proof -
  let ?s = "s\<lparr>DhcpMsg := msg_of p\<rparr>"
  have c: "CheckMacIsValid w (msg_mac p) ?s =
      Some ((heap s = [] \<or> hd (heap s)) \<and> is_station w (wlan s) (msg_mac p), ?s\<lparr>heap := tl (heap s)\<rparr>)"
    using check_mac_result [of w ?s "msg_mac p"] assms(3) by simp
  have "\<exists>s'. dispatch (msg_mac p) v xid flags (?s\<lparr>heap := tl (heap s)\<rparr>) = Some s'" for v xid flags
    using dispatch_returns [of "?s\<lparr>heap := tl (heap s)\<rparr>" "msg_mac p"] assms(1,2) by (simp add: table_def)
  then have "dispatch (msg_mac p) v xid flags (?s\<lparr>heap := tl (heap s)\<rparr>) \<noteq> None" for v xid flags by (metis option.distinct(1))
  then show ?thesis
    unfolding recv_dispatch Let_def
    by (auto simp: c ParseDhcpOptions_walk split: option.splits bind_splits)
qed

theorem dhcp_recv_returns_iff_witness:
  "DHCPS_RecvCb two_stations (discover_msg 1 0 [2, 0, 0, 0, 0, 1]) started \<noteq> None"
proof -
  have m: "length ([2, 0, 0, 0, 0, 1] :: bytes) = 6" by simp
  have "walk (drop 240 (msg_of (discover_msg 1 0 [2, 0, 0, 0, 0, 1]))) v \<noteq> None" for v
    using request_msg_fields(6) [OF m, of "[53, 1, 1, 255]" 1 0] walk_discover [of "zeros 304" v] by (simp add: discover_msg_def)
  then show ?thesis
    using dhcp_recv_returns_iff [of started two_stations "discover_msg 1 0 [2, 0, 0, 0, 0, 1]"] started_table(1) started_facts(4) stations_ok(1)
    by simp
qed

end
