(* ===== verification/Dhcp_Time.thy ===== *)
theory Dhcp_Time
  imports Dhcp_Props
begin

text \<open>
  The tick of the DHCP server over time: every tick returns, what it does to each entry, how long an offer
  and a lease last, and what happens to the leases when there is no memory for the list of stations.
\<close>

section \<open>One tick\<close>

text \<open>What the tick makes of an entry; \<open>there\<close> is whether the client was found among the stations.\<close>

definition tick_entry :: "bool \<Rightarrow> dhcp_client \<Rightarrow> dhcp_client" where
  "tick_entry there c =
     (case State c of
        REQUEST \<Rightarrow> (if Timeout c = 0 then c
          else if Timeout c = 1 then c\<lparr>Timeout := 0, MacAddr := zeros 6, State := IDLE\<rparr>
          else c\<lparr>Timeout := Timeout c - 1\<rparr>)
      | BIND \<Rightarrow> (if Lease c = 1 \<or> \<not> there then c\<lparr>Lease := Lease c - 1, State := IDLE\<rparr> else c\<lparr>Lease := Lease c - 1\<rparr>)
      | _ \<Rightarrow> c)"

definition asks_stations :: "dhcp_client \<Rightarrow> bool" where
  "asks_stations c \<longleftrightarrow> State c = BIND \<and> Lease c \<noteq> 1"

definition memory_left :: "('w, 'z) dhcp_state_scheme \<Rightarrow> bool" where
  "memory_left s \<longleftrightarrow> heap s = [] \<or> hd (heap s)"

lemma upd_client_heap: "upd_client i g (s\<lparr>heap := h\<rparr>) = (upd_client i g s)\<lparr>heap := h\<rparr>"
  by (simp add: upd_client_def client_at_def)

lemma table_world [simp]: "table (s\<lparr>heap := h\<rparr>) = table s" "table (s\<lparr>timers := k\<rparr>) = table s" "table (s\<lparr>DhcpMsg := m\<rparr>) = table s"
  by (simp_all add: table_def)

lemma upd_client_same: "g (table s ! i) = table s ! i \<Longrightarrow> upd_client i g s = s"
  by (simp add: upd_client_def client_at_table table_def)

lemma upd_client_value:
  assumes "g (table s ! i) = f (table s ! i)"
  shows "upd_client i g s = upd_client i f s"
  using assms by (simp add: upd_client_def client_at_table)

lemma tick_client_result:
  assumes "wlan_ok w (wlan s)" "i < length (table s)"
  defines "c \<equiv> table s ! i"
  shows "tick_client w i s =
    Some (upd_client i (tick_entry (memory_left s \<and> is_station w (wlan s) (MacAddr c)))
      (s\<lparr>heap := (if asks_stations c then tl (heap s) else heap s)\<rparr>))"
proof -
  consider "State c = IDLE \<or> State c = SELECT" | "State c = REQUEST" | "State c = BIND" "Lease c = 1" | "State c = BIND" "Lease c \<noteq> 1"
    by (cases "State c") auto
  then show ?thesis
  proof cases
    case 1
    then have "upd_client i (tick_entry b) s = s" for b
      by (intro upd_client_same) (auto simp: tick_entry_def c_def [symmetric])
    then show ?thesis using 1 by (auto simp: tick_client_def client_at_table c_def [symmetric] asks_stations_def)
  next
    case 2
    have "upd_client i (tick_entry b) s = s" if "Timeout c = 0" for b
      using 2 that by (intro upd_client_same) (simp add: tick_entry_def c_def [symmetric])
    moreover have "upd_client i (tick_entry b) s = upd_client i (\<lambda>c. c\<lparr>Timeout := 0, MacAddr := zeros 6, State := IDLE\<rparr>) s"
      if "Timeout c = 1" for b
      using 2 that by (intro upd_client_value) (simp add: tick_entry_def c_def [symmetric])
    moreover have "upd_client i (tick_entry b) s = upd_client i (\<lambda>c. c\<lparr>Timeout := Timeout c - 1\<rparr>) s"
      if "Timeout c \<noteq> 0" "Timeout c \<noteq> 1" for b
      using 2 that by (intro upd_client_value) (simp add: tick_entry_def c_def [symmetric])
    ultimately show ?thesis
      using 2 by (auto simp: tick_client_def client_at_table c_def [symmetric] asks_stations_def Let_def)
  next
    case 3
    have "upd_client i (tick_entry b) s = upd_client i (\<lambda>c. c\<lparr>State := IDLE\<rparr>) (upd_client i (\<lambda>c. c\<lparr>Lease := Lease c - 1\<rparr>) s)" for b
      using 3 assms(2) by (subst upd_client_twice) (auto intro!: upd_client_value simp: tick_entry_def c_def [symmetric])
    then show ?thesis
      using 3 by (simp add: tick_client_def client_at_table c_def [symmetric] asks_stations_def Let_def)
  next
    case 4
    define s1 where "s1 = upd_client i (\<lambda>c. c\<lparr>Lease := Lease c - 1\<rparr>) s"
    have s1: "(if Lease c \<noteq> 0 then upd_client i (\<lambda>c. c\<lparr>Lease := Lease c - 1\<rparr>) s else s) = s1"
      unfolding s1_def by (auto intro!: upd_client_same [symmetric] simp: c_def [symmetric])
    have "\<not> (0 < Lease c \<and> Lease c \<le> Suc 0)" using 4(2) by auto
    then have "tick_client w i s = CheckMacIsValid w (MacAddr c) s1 \<bind>
        (\<lambda>(ok, s). Some (if \<not> ok then upd_client i (\<lambda>c. c\<lparr>State := IDLE\<rparr>) s else s))"
      using 4(1) s1 by (auto simp: tick_client_def client_at_table c_def [symmetric] Let_def)
    moreover have "CheckMacIsValid w (MacAddr c) s1 = Some (memory_left s \<and> is_station w (wlan s) (MacAddr c), s1\<lparr>heap := tl (heap s)\<rparr>)"
      using check_mac_result [of w s1 "MacAddr c"] assms(1) by (simp add: s1_def memory_left_def)
    moreover have "upd_client i (tick_entry True) s = s1"
      using 4 unfolding s1_def by (intro upd_client_value) (simp add: tick_entry_def c_def [symmetric])
    moreover have "upd_client i (tick_entry False) s = upd_client i (\<lambda>c. c\<lparr>State := IDLE\<rparr>) s1"
      using 4 assms(2) unfolding s1_def
      by (subst upd_client_twice) (auto intro!: upd_client_value simp: tick_entry_def c_def [symmetric])
    ultimately show ?thesis
      using 4 by (auto simp: asks_stations_def upd_client_heap)
  qed
qed

lemma tick_entry_sel [simp]: "IpAddr (tick_entry b c) = IpAddr c"
  by (auto simp: tick_entry_def split: dhcp_client_state.splits)

lemma tick_loop_returns:
  assumes "wlan_ok w (wlan s)" "i + n \<le> length (table s)"
  shows "\<exists>s'. tick_loop w i n s = Some s'"
  using assms
proof (induction n arbitrary: i s)
  case (Suc n)
  then show ?case by (simp add: tick_client_result)
qed simp

lemma tick_returns:
  assumes "wlan_ok w (wlan s)" "length (table s) = DHCPS_HISTORY_CLIENT_NUM"
  shows "\<exists>s'. DhcpTickHandle w s = Some s'"
proof -
  let ?s = "s\<lparr>timers := timers s - 1\<rparr>"
  have "table ?s = table s" by (simp add: table_def)
  then show ?thesis
    using tick_loop_returns [of w ?s 0 DHCPS_HISTORY_CLIENT_NUM] assms by (auto simp: DhcpTickHandle_def Let_def)
qed

text \<open>A tick with enough memory works on every entry alike.\<close>

lemma tick_loop_all:
  assumes "wlan_ok w (wlan s)" "i + n \<le> length (table s)" "heap s = []"
  shows "\<exists>s'. tick_loop w i n s = Some s' \<and> heap s' = [] \<and> wlan s' = wlan s \<and> length (table s') = length (table s) \<and>
    Enable (DhcpServer s') = Enable (DhcpServer s) \<and>
    (\<forall>j < length (table s). table s' ! j =
      (if i \<le> j \<and> j < i + n then tick_entry (is_station w (wlan s) (MacAddr (table s ! j))) (table s ! j) else table s ! j))"
  using assms
proof (induction n arbitrary: i s)
  case (Suc n)
  let ?c = "table s ! i"
  let ?u = "upd_client i (tick_entry (is_station w (wlan s) (MacAddr ?c))) s"
  have h: "s\<lparr>heap := []\<rparr> = s" using Suc.prems(3) by (cases s) simp
  have t: "tick_client w i s = Some ?u"
    using tick_client_result [of w s i] Suc.prems by (simp add: memory_left_def h)
  have "wlan_ok w (wlan ?u)" "Suc i + n \<le> length (table ?u)" "heap ?u = []" using Suc.prems by simp_all
  have fr: "wlan ?u = wlan s" "length (table ?u) = length (table s)" "Enable (DhcpServer ?u) = Enable (DhcpServer s)" by simp_all
  from Suc.IH [OF \<open>wlan_ok w (wlan ?u)\<close> \<open>Suc i + n \<le> length (table ?u)\<close> \<open>heap ?u = []\<close>, unfolded fr]
  obtain s' where s': "tick_loop w (Suc i) n ?u = Some s'" "heap s' = []" "wlan s' = wlan s"
      "length (table s') = length (table s)" "Enable (DhcpServer s') = Enable (DhcpServer s)"
      "\<forall>j < length (table s). table s' ! j = (if Suc i \<le> j \<and> j < Suc i + n
        then tick_entry (is_station w (wlan s) (MacAddr (table ?u ! j))) (table ?u ! j) else table ?u ! j)"
    by blast
  have "table s' ! j = (if i \<le> j \<and> j < i + Suc n then tick_entry (is_station w (wlan s) (MacAddr (table s ! j))) (table s ! j) else table s ! j)"
    if "j < length (table s)" for j
  proof (cases "j = i")
    case True
    then show ?thesis using s'(6) that by (simp add: nth_updated)
  next
    case False
    then have "table ?u ! j = table s ! j" "Suc i \<le> j \<longleftrightarrow> i \<le> j" using that by auto
    then show ?thesis using s'(6) that by simp
  qed
  then show ?case using s' t by simp
qed auto

lemma tick_all:
  assumes "wlan_ok w (wlan s)" "length (table s) = DHCPS_HISTORY_CLIENT_NUM" "heap s = []" "Enable (DhcpServer s)"
  shows "\<exists>s'. DhcpTickHandle w s = Some s' \<and> heap s' = [] \<and> wlan s' = wlan s \<and> length (table s') = DHCPS_HISTORY_CLIENT_NUM \<and> Enable (DhcpServer s') \<and>
    (\<forall>j < DHCPS_HISTORY_CLIENT_NUM. table s' ! j = tick_entry (is_station w (wlan s) (MacAddr (table s ! j))) (table s ! j))"
proof -
  let ?s = "s\<lparr>timers := timers s - 1\<rparr>"
  have t: "table ?s = table s" by (simp add: table_def)
  obtain s1 where s1: "tick_loop w 0 DHCPS_HISTORY_CLIENT_NUM ?s = Some s1" "heap s1 = []" "wlan s1 = wlan s" "length (table s1) = DHCPS_HISTORY_CLIENT_NUM"
      "Enable (DhcpServer s1)"
      "\<forall>j < DHCPS_HISTORY_CLIENT_NUM. table s1 ! j = tick_entry (is_station w (wlan s) (MacAddr (table s ! j))) (table s ! j)"
    using tick_loop_all [of w ?s 0 DHCPS_HISTORY_CLIENT_NUM] assms t by auto
  have "table (s1\<lparr>timers := k\<rparr>) = table s1" for k by (simp add: table_def)
  then show ?thesis
    using s1 assms(4) by (intro exI [of _ "s1\<lparr>timers := timers s1 + 1\<rparr>"]) (simp add: DhcpTickHandle_def Let_def)
qed

section \<open>Many ticks\<close>

fun tick_n :: "'w wlan_ops \<Rightarrow> nat \<Rightarrow> ('w, 'z) dhcp_state_scheme \<Rightarrow> ('w, 'z) dhcp_state_scheme option" where
  "tick_n w 0 s = Some s"
| "tick_n w (Suc n) s = do { s \<leftarrow> DhcpTickHandle w s; tick_n w n s }"

text \<open>The seconds that an entry has left at most.\<close>

definition remaining :: "dhcp_client \<Rightarrow> nat" where
  "remaining c = (case State c of REQUEST \<Rightarrow> Timeout c | BIND \<Rightarrow> Lease c | _ \<Rightarrow> 0)"

lemma client_ok_remaining:
  assumes "client_ok c"
  shows "remaining c \<le> DHCP_DEFAULT_LEASE_TIME" "active c \<longleftrightarrow> 0 < remaining c"
  using assms by (auto simp: client_ok_def remaining_def active_def split: dhcp_client_state.splits)

lemma ticked_remaining: "ticked c c' \<Longrightarrow> client_ok c \<Longrightarrow> remaining c' \<le> remaining c - 1"
  by (auto simp: ticked_def client_ok_def remaining_def split: dhcp_client_state.splits if_splits)

lemma tick_n_remaining:
  assumes "wlan_ok w (wlan s)" "table_ok (table s)" "Enable (DhcpServer s)"
  shows "\<exists>s'. tick_n w n s = Some s' \<and> table_ok (table s') \<and>
    (\<forall>i < DHCPS_HISTORY_CLIENT_NUM. remaining (table s' ! i) \<le> remaining (table s ! i) - n)"
  using assms
proof (induction n arbitrary: s)
  case (Suc n)
  have len: "length (table s) = DHCPS_HISTORY_CLIENT_NUM" using Suc.prems(2) by (simp add: table_ok_def)
  obtain s1 where s1: "DhcpTickHandle w s = Some s1" using tick_returns [OF Suc.prems(1) len] by blast
  note t = tick_table [OF s1 len]
  have ok1: "table_ok (table s1)" using tick_ok [OF s1 Suc.prems(2)] by simp
  have r1: "remaining (table s1 ! i) \<le> remaining (table s ! i) - 1" if "i < DHCPS_HISTORY_CLIENT_NUM" for i
    by (rule ticked_remaining) (use t that Suc.prems(2,3) in \<open>auto simp: table_ok_def\<close>)
  have "wlan_ok w (wlan s1)" "Enable (DhcpServer s1)" using t Suc.prems(1,3) by auto
  from Suc.IH [OF this(1) ok1 this(2)] obtain s2 where s2: "tick_n w n s1 = Some s2" "table_ok (table s2)"
      "\<forall>i < DHCPS_HISTORY_CLIENT_NUM. remaining (table s2 ! i) \<le> remaining (table s1 ! i) - n" by blast
  have "remaining (table s2 ! i) \<le> remaining (table s ! i) - Suc n" if "i < DHCPS_HISTORY_CLIENT_NUM" for i
  proof -
    have "remaining (table s2 ! i) \<le> remaining (table s1 ! i) - n" using s2(3) that by blast
    then show ?thesis using r1 [OF that] by linarith
  qed
  then show ?case using s1 s2 by simp
qed simp


text \<open>An entry that is not in use stays as it is; a lease whose client is there counts down.\<close>

lemma tick_entry_idle: "State c = IDLE \<Longrightarrow> tick_entry b c = c"
  by (simp add: tick_entry_def)

lemma tick_entry_lease:
  "State c = BIND \<Longrightarrow> 0 < Lease c \<Longrightarrow>
     tick_entry True c = c\<lparr>Lease := Lease c - 1, State := (if Lease c = 1 then IDLE else BIND)\<rparr>"
  by (cases c) (simp add: tick_entry_def)

lemma tick_n_entry:
  assumes "wlan_ok w (wlan s)" "length (table s) = DHCPS_HISTORY_CLIENT_NUM" "heap s = []" "Enable (DhcpServer s)" "i < DHCPS_HISTORY_CLIENT_NUM"
    and "State (table s ! i) = (if l = 0 then IDLE else BIND)" "0 < l \<longrightarrow> Lease (table s ! i) = l" "is_station w (wlan s) (MacAddr (table s ! i))"
  shows "\<exists>s'. tick_n w n s = Some s' \<and> State (table s' ! i) = (if n < l then BIND else IDLE) \<and>
    IpAddr (table s' ! i) = IpAddr (table s ! i) \<and> MacAddr (table s' ! i) = MacAddr (table s ! i)"
  using assms
proof (induction n arbitrary: s l)
  case (Suc n)
  let ?c = "table s ! i"
  obtain s1 where s1: "DhcpTickHandle w s = Some s1" "heap s1 = []" "wlan s1 = wlan s" "length (table s1) = DHCPS_HISTORY_CLIENT_NUM"
      "Enable (DhcpServer s1)" "table s1 ! i = tick_entry True ?c"
    using tick_all [OF Suc.prems(1,2,3,4)] Suc.prems(5,8) by auto
  have e: "State (table s1 ! i) = (if l - 1 = 0 then IDLE else BIND)" "0 < l - 1 \<longrightarrow> Lease (table s1 ! i) = l - 1"
      "MacAddr (table s1 ! i) = MacAddr ?c" "IpAddr (table s1 ! i) = IpAddr ?c"
    using s1(6) Suc.prems(6,7) tick_entry_idle [of ?c True] tick_entry_lease [of ?c] by (cases "l = 0"; force)+
  have "wlan_ok w (wlan s1)" "is_station w (wlan s1) (MacAddr (table s1 ! i))" using Suc.prems(1,8) s1(3) e(3) by simp_all
  from Suc.IH [OF this(1) s1(4,2,5) Suc.prems(5) e(1,2) this(2)]
  obtain s2 where s2: "tick_n w n s1 = Some s2" "State (table s2 ! i) = (if n < l - 1 then BIND else IDLE)"
      "IpAddr (table s2 ! i) = IpAddr (table s1 ! i)" "MacAddr (table s2 ! i) = MacAddr (table s1 ! i)" by blast
  moreover have "n < l - 1 \<longleftrightarrow> Suc n < l" by auto
  ultimately show ?case using s1(1) e(3,4) by simp
qed auto

section \<open>No memory\<close>

lemma tick_loop_no_memory:
  assumes "wlan_ok w (wlan s)" "i + n \<le> length (table s)" "heap s = replicate k False @ h" "n \<le> k"
    and "tick_loop w i n s = Some s'"
  shows "\<forall>j < length (table s). if i \<le> j \<and> j < i + n then State (table s' ! j) \<noteq> BIND else table s' ! j = table s ! j"
  using assms
proof (induction n arbitrary: i s k)
  case (Suc n)
  let ?c = "table s ! i"
  obtain k' where k: "k = Suc k'" using Suc.prems(4) by (cases k) auto
  have none: "\<not> memory_left s" using Suc.prems(3) k by (simp add: memory_left_def)
  let ?h = "if asks_stations ?c then tl (heap s) else heap s"
  let ?u = "upd_client i (tick_entry False) (s\<lparr>heap := ?h\<rparr>)"
  have t: "tick_client w i s = Some ?u" using tick_client_result [of w s i] Suc.prems(1,2) none by simp
  then have rest: "tick_loop w (Suc i) n ?u = Some s'" using Suc.prems(5) by simp
  have "\<exists>k''. heap ?u = replicate k'' False @ h \<and> n \<le> k''"
    using Suc.prems(3,4) k by (cases "asks_stations ?c") (auto intro: exI [of _ k'] exI [of _ k])
  then obtain k'' where "heap ?u = replicate k'' False @ h" "n \<le> k''" by blast
  moreover have "wlan_ok w (wlan ?u)" "Suc i + n \<le> length (table ?u)" using Suc.prems by simp_all
  ultimately have IH: "\<forall>j < length (table ?u). if Suc i \<le> j \<and> j < Suc i + n then State (table s' ! j) \<noteq> BIND else table s' ! j = table ?u ! j"
    using Suc.IH rest by blast
  have "State (tick_entry False ?c) \<noteq> BIND" by (auto simp: tick_entry_def split: dhcp_client_state.splits)
  then show ?case
    using IH Suc.prems(2) by (auto simp: nth_updated split: if_splits)
qed auto


section \<open>Properties of the lifetime of leases\<close>

text \<open>A server with one lease.\<close>

definition one_lease :: "unit dhcp_state" where
  "one_lease = upd_client 0 (\<lambda>c. c\<lparr>State := BIND, MacAddr := [2, 0, 0, 0, 0, 1], Lease := DHCP_DEFAULT_LEASE_TIME\<rparr>) started"

lemma one_lease_facts:
  "table_ok (table one_lease)" "wlan_ok two_stations (wlan one_lease)" "Enable (DhcpServer one_lease)" "heap one_lease = []"
  "State (client_at one_lease 0) = BIND" "Lease (client_at one_lease 0) = DHCP_DEFAULT_LEASE_TIME"
  "is_station two_stations (wlan one_lease) (MacAddr (client_at one_lease 0))"
proof -
  have len: "0 < length (table started)" using started_table(1) by (simp add: table_ok_def)
  have "sole [2, 0, 0, 0, 0, 1] 0 (table started)" using started_facts(7) started_table(1) by (auto simp: sole_def table_ok_def)
  from table_ok_update_sole [OF started_table(1) this] show "table_ok (table one_lease)"
    by (simp add: one_lease_def client_ok_def)
  show "wlan_ok two_stations (wlan one_lease)" "Enable (DhcpServer one_lease)" "heap one_lease = []"
    using stations_ok(1) started_facts by (simp_all add: one_lease_def)
  show "State (client_at one_lease 0) = BIND" "Lease (client_at one_lease 0) = DHCP_DEFAULT_LEASE_TIME"
    "is_station two_stations (wlan one_lease) (MacAddr (client_at one_lease 0))"
    using len stations_ok(2) by (simp_all add: client_at_table one_lease_def)
qed

text \<open>C11: a lease lasts exactly its time: while the client stays connected and memory is there, the entry is
  bound to it with the same address after \<open>n\<close> ticks, one a second, if and only if \<open>n\<close> is less than the
  lease time; every tick returns.\<close>

theorem dhcp_lease_lasts:
  assumes "table_ok (table s)" "wlan_ok w (wlan s)" "Enable (DhcpServer s)" "heap s = []"
    and "i < DHCPS_HISTORY_CLIENT_NUM" "State (client_at s i) = BIND" "is_station w (wlan s) (MacAddr (client_at s i))"
  shows "\<exists>s'. tick_n w n s = Some s' \<and> State (client_at s' i) = (if n < Lease (client_at s i) then BIND else IDLE) \<and>
    IpAddr (client_at s' i) = IpAddr (client_at s i) \<and> MacAddr (client_at s' i) = MacAddr (client_at s i)"
proof -
  have "length (table s) = DHCPS_HISTORY_CLIENT_NUM" "0 < Lease (table s ! i)"
    using assms(1,5,6) by (auto simp: table_ok_def client_ok_def client_at_table)
  then show ?thesis
    using tick_n_entry [of w s i "Lease (table s ! i)" n] assms by (simp add: client_at_table)
qed

theorem dhcp_lease_lasts_witness:
  "(\<exists>s'. tick_n two_stations 7199 one_lease = Some s' \<and> State (client_at s' 0) = BIND) \<and>
   (\<exists>s'. tick_n two_stations 7200 one_lease = Some s' \<and> State (client_at s' 0) = IDLE)"
  using dhcp_lease_lasts [OF one_lease_facts(1-4) _ one_lease_facts(5,7), of 7199]
    dhcp_lease_lasts [OF one_lease_facts(1-4) _ one_lease_facts(5,7), of 7200] one_lease_facts(6)
  by (auto simp del: tick_n.simps)

text \<open>Every offer and every lease ends: after 7200 ticks without a message all entries of the table are
  free again, whatever the stations and the memory were.\<close>

theorem dhcp_all_leases_end:
  assumes "table_ok (table s)" "wlan_ok w (wlan s)" "Enable (DhcpServer s)"
  shows "\<exists>s'. tick_n w DHCP_DEFAULT_LEASE_TIME s = Some s' \<and> (\<forall>i < DHCPS_HISTORY_CLIENT_NUM. State (client_at s' i) = IDLE)"
proof -
  obtain s' where s': "tick_n w DHCP_DEFAULT_LEASE_TIME s = Some s'" "table_ok (table s')"
      "\<forall>i < DHCPS_HISTORY_CLIENT_NUM. remaining (table s' ! i) \<le> remaining (table s ! i) - DHCP_DEFAULT_LEASE_TIME"
    using tick_n_remaining [OF assms(2,1,3)] by blast
  have "State (client_at s' i) = IDLE" if "i < DHCPS_HISTORY_CLIENT_NUM" for i
  proof -
    have "client_ok (table s ! i)" "client_ok (table s' ! i)" using assms(1) s'(2) that by (simp_all add: table_ok_def)
    then have "remaining (table s' ! i) = 0" using s'(3) that client_ok_remaining(1) by fastforce
    then show ?thesis using client_ok_remaining(2) [OF \<open>client_ok (table s' ! i)\<close>] by (simp add: client_at_table active_def)
  qed
  then show ?thesis using s'(1) by blast
qed

theorem dhcp_all_leases_end_witness:
  "State (client_at one_lease 0) = BIND \<and> (\<exists>s'. tick_n two_stations 7200 one_lease = Some s' \<and> State (client_at s' 0) = IDLE)"
  using dhcp_all_leases_end [OF one_lease_facts(1-3)] one_lease_facts(5) by (auto simp del: tick_n.simps)

text \<open>A tick that gets no memory for the list of stations ends every lease, although all clients are
  connected and their time has not run out.\<close>

theorem dhcp_tick_without_memory:
  assumes "table_ok (table s)" "wlan_ok w (wlan s)" "Enable (DhcpServer s)" "heap s = replicate DHCPS_HISTORY_CLIENT_NUM False @ h"
  shows "\<exists>s'. DhcpTickHandle w s = Some s' \<and> (\<forall>i < DHCPS_HISTORY_CLIENT_NUM. State (client_at s' i) \<noteq> BIND)"
proof -
  let ?s = "s\<lparr>timers := timers s - 1\<rparr>"
  have len: "length (table s) = DHCPS_HISTORY_CLIENT_NUM" using assms(1) by (simp add: table_ok_def)
  obtain s1 where s1: "tick_loop w 0 DHCPS_HISTORY_CLIENT_NUM ?s = Some s1"
    using tick_loop_returns [of w ?s 0 DHCPS_HISTORY_CLIENT_NUM] assms(2) len by auto
  have "\<forall>i < DHCPS_HISTORY_CLIENT_NUM. State (table s1 ! i) \<noteq> BIND"
    using tick_loop_no_memory [of w ?s 0 DHCPS_HISTORY_CLIENT_NUM DHCPS_HISTORY_CLIENT_NUM h s1] s1 assms(2,4) len by simp
  then show ?thesis
    using s1 assms(3) by (simp add: DhcpTickHandle_def Let_def client_at_table)
qed

theorem dhcp_tick_without_memory_witness:
  "State (client_at (one_lease\<lparr>heap := replicate 8 False\<rparr>) 0) = BIND \<and>
   (\<exists>s'. DhcpTickHandle two_stations (one_lease\<lparr>heap := replicate 8 False\<rparr>) = Some s' \<and> State (client_at s' 0) \<noteq> BIND)"
  using dhcp_tick_without_memory [of "one_lease\<lparr>heap := replicate 8 False\<rparr>" two_stations "[]"] one_lease_facts
  by (auto simp: client_at_table)

end
