(* ===== verification/Dhcp_Replies.thy ===== *)
theory Dhcp_Replies
  imports Dhcp_Props
begin

text \<open>
  The replies of the DHCP server as a client reads them, the interface of \<^verbatim>\<open>dhcp_server_if.c\<close>, and the
  places where the server departs from what its comments or the protocol ask for.
\<close>

section \<open>The interface of the SDK\<close>

abbreviation (input) WM_SUCCESS :: int where "WM_SUCCESS \<equiv> 0"
abbreviation (input) WM_FAILED :: int where "WM_FAILED \<equiv> - 1"

text \<open>The configuration of the SDK has no \<open>TLS_CONFIG_APSTA\<close>; \<open>nif\<close> is what \<open>tls_get_netif\<close> returns.\<close>

definition tls_dhcps_start :: "netif \<Rightarrow> ('w, 'z) dhcp_state_scheme \<Rightarrow> (int \<times> ('w, 'z) dhcp_state_scheme) option" where
  "tls_dhcps_start nif s = do {
     (ret, s) \<leftarrow> DHCPS_Start nif s;
     Some (if ret = DHCPS_ERR_SUCCESS then WM_SUCCESS else WM_FAILED, s)
   }"

definition tls_dhcps_stop :: "('w, 'z) dhcp_state_scheme \<Rightarrow> ('w, 'z) dhcp_state_scheme" where
  "tls_dhcps_stop s = DHCPS_Stop s"

definition tls_dhcps_getip :: "bytes \<Rightarrow> ('w, 'z) dhcp_state_scheme \<Rightarrow> u32 option" where
  "tls_dhcps_getip mac s = DHCPS_GetIpByMac mac s"

text \<open>\<open>dns_getserver\<close> belongs to lwIP, a parameter.\<close>

definition tls_dhcps_setdns :: "(u8 \<Rightarrow> u32) \<Rightarrow> u8 \<Rightarrow> ('w, 'z) dhcp_state_scheme \<Rightarrow> ('w, 'z) dhcp_state_scheme" where
  "tls_dhcps_setdns dns_getserver numdns s = DHCPS_SetDns numdns (dns_getserver numdns) s"

section \<open>The layout of a reply\<close>

lemma drop_zeros [simp]: "n \<le> k \<Longrightarrow> drop n (zeros k) = zeros (k - n)"
  by (simp add: zeros_def)

lemma take_zeros [simp]: "n \<le> k \<Longrightarrow> take n (zeros k) = zeros n"
  by (simp add: zeros_def)

lemma zeros_split: "a \<le> n \<Longrightarrow> zeros n = zeros a @ zeros (n - a)"
  by (simp add: zeros_def flip: replicate_add)

lemma patch_zeros: "off + length ys \<le> n \<Longrightarrow> patch (zeros n) off ys = zeros off @ ys @ zeros (n - off - length ys)"
  by (simp add: patch_def)

text \<open>Patching behind everything patched so far.\<close>

lemma patch_behind:
  "length xs \<le> off \<Longrightarrow> off + length ys \<le> length xs + k \<Longrightarrow>
     patch (xs @ zeros k) off ys = xs @ zeros (off - length xs) @ ys @ zeros (length xs + k - off - length ys)"
  by (simp add: patch_def add.commute)

lemma reply_msg_layout:
  assumes "length mac = 6" "length opts \<le> 308"
  shows "reply_msg xid yi si mac opts =
    [2, 1, 6, 0] @ le32 (htonl xid) @ zeros 8 @ le32 yi @ le32 si @ zeros 4 @ mac @ zeros 202 @ le32 (htonl DHCP_MAGIC) @
    opts @ zeros (308 - length opts)"
proof -
  have "zeros (Suc 0) = [0]" "zeros 0 = []" by (simp_all add: zeros_def)
  then show ?thesis
    using assms patch_behind [of "[2, 1, 6] :: bytes" 4 "le32 (htonl xid)" 545]
      patch_behind [of "[2, 1, 6, 0] @ le32 (htonl xid)" 16 "le32 yi" 540]
      patch_behind [of "[2, 1, 6, 0] @ le32 (htonl xid) @ zeros 8 @ le32 yi" 20 "le32 si" 528]
      patch_behind [of "[2, 1, 6, 0] @ le32 (htonl xid) @ zeros 8 @ le32 yi @ le32 si" 28 mac 524]
      patch_behind [of "[2, 1, 6, 0] @ le32 (htonl xid) @ zeros 8 @ le32 yi @ le32 si @ zeros 4 @ mac" 236 "le32 (htonl DHCP_MAGIC)" 514]
      patch_behind [of "[2, 1, 6, 0] @ le32 (htonl xid) @ zeros 8 @ le32 yi @ le32 si @ zeros 4 @ mac @ zeros 202 @ le32 (htonl DHCP_MAGIC)" 240 opts 308]
      patch_zeros [of 0 "[2, 1, 6] :: bytes" DHCP_MSG_SIZE]
    by (simp add: reply_msg_def Let_def)
qed

lemma reply_fields:
  fixes xid yi si
  assumes "length mac = 6" "length opts \<le> 308"
  defines "m \<equiv> reply_msg xid yi si mac opts"
  shows "length m = DHCP_MSG_SIZE" "m ! 0 = 2" "htonl (of_le32 (slice 4 4 m)) = xid" "of_le32 (slice 16 4 m) = yi" "of_le32 (slice 20 4 m) = si"
    "slice 28 6 m = mac" "htonl (of_le32 (slice 236 4 m)) = DHCP_MAGIC" "drop 240 m = opts @ zeros (308 - length opts)"
  unfolding m_def reply_msg_layout [OF assms(1,2)] slice_def using assms(1,2) by simp_all

lemma walk_option:
  "c \<noteq> 255 \<Longrightarrow> c \<noteq> 0 \<Longrightarrow> c \<noteq> 53 \<Longrightarrow> c \<noteq> 50 \<Longrightarrow> c \<noteq> 54 \<Longrightarrow> walk (opt_u32 c x @ ys) v = walk ys v"
  by (simp add: opt_u32_def store_option_def)

lemma walk_server: "walk (opt_u32 54 x @ ys) v = walk ys (v\<lparr>opt_server := x, opt_ret := opt_ret v OR 4\<rparr>)"
proof -
  have "take 4 (le32 x @ ys) = le32 x" "drop 4 (le32 x @ ys) = ys" by simp_all
  then show ?thesis by (simp add: opt_u32_def store_option_def)
qed

lemma walk_type: "walk (opt_msg_type t @ ys) v = walk ys (v\<lparr>opt_type := t, opt_ret := opt_ret v OR 1\<rparr>)"
  by (simp add: opt_msg_type_def store_option_def)

lemma walk_dns: "walk (opt_dns a b @ ys) v = walk ys v"
  by (simp add: opt_dns_def store_option_def)

lemma walk_end: "walk (255 # ys) v = Some v"
  by simp

lemma walk_lease_options:
  "walk (lease_options t srv @ ys) v =
     Some (v\<lparr>opt_type := t, opt_server := ServerIpAddr srv, opt_ret := (opt_ret v OR 1) OR 4\<rparr>)"
  unfolding lease_options_def append_assoc append_Cons append_Nil
  by (simp add: walk_type walk_option walk_server walk_dns del: walk.simps) (simp add: walk_end)

lemma length_lease_options [simp]: "length (lease_options t srv) = 38"
  by (simp add: lease_options_def opt_msg_type_def opt_u32_def opt_dns_def)


text \<open>What the server writes into an OFFER or an ACK a client reads back: the transaction, the offered
  address, the client's own hardware address, and by the server's own option parser the message type and the
  identity of the server; nothing is written past the message.\<close>

theorem dhcp_reply_roundtrip:
  assumes "length mac = 6" "m = reply_msg xid ip 0 mac (lease_options t srv)"
  shows "ParseDhcpOptions m 0xff 0 0 = Some \<lparr>opt_ret = 5, opt_type = t, opt_req_ip = 0, opt_server = ServerIpAddr srv\<rparr> \<and>
    htonl (of_le32 (slice 4 4 m)) = xid \<and> of_le32 (slice 16 4 m) = ip \<and> slice 28 6 m = mac \<and>
    htonl (of_le32 (slice 236 4 m)) = DHCP_MAGIC \<and> length m = DHCP_MSG_SIZE"
proof -
  have l: "length (lease_options t srv) \<le> 308" by simp
  note f = reply_fields [OF assms(1) l, of xid ip 0]
  show ?thesis
    unfolding assms(2) ParseDhcpOptions_walk f(8) walk_lease_options using f by simp
qed

theorem dhcp_reply_roundtrip_witness:
  "ParseDhcpOptions (reply_msg 7 0x0201A8C0 0 [2, 0, 0, 0, 0, 1] (lease_options DHCP_MSG_OFFER zero_server)) 0xff 0 0 =
     Some \<lparr>opt_ret = 5, opt_type = DHCP_MSG_OFFER, opt_req_ip = 0, opt_server = 0\<rparr>"
  using dhcp_reply_roundtrip [of "[2, 0, 0, 0, 0, 1]" _ 7 "0x0201A8C0" DHCP_MSG_OFFER zero_server, OF _ refl] by (simp add: zero_server_def)

section \<open>A range of addresses that wraps\<close>

lemma pool_addr_wrap:
  assumes "1 < unat (NOT m)" "unat (NOT m) + 1 < 2 ^ 32" "unat (h AND NOT m) + i = unat (NOT m)"
  shows "pool_addr m h (of_nat i) = pool_addr m h (of_nat (Suc i))"
proof -
  let ?N = "NOT m" and ?t = "h AND NOT m"
  have N0: "?N \<noteq> 0" using assms(1) by auto
  have i: "i < 2 ^ 32" "Suc i < 2 ^ 32" using assms(2,3) by simp_all
  have u: "unat (?t + of_nat i) = unat ?N" "unat (?t + of_nat (Suc i)) = unat ?N + 1"
  proof -
    show 1: "unat (?t + of_nat i) = unat ?N"
      using assms i unat_word_ariths(1) [of ?t "of_nat i"] by (simp add: unat_of_nat)
    have "?t + of_nat (Suc i) = (?t + of_nat i) + 1" by (simp add: add.assoc add.commute)
    then show "unat (?t + of_nat (Suc i)) = unat ?N + 1"
      using unat_word_ariths(1) [of "?t + of_nat i" 1] 1 assms(2) by (simp only: add.assoc) simp
  qed
  have "(?t + of_nat i) mod ?N = 0" using u(1) by (simp add: word_unat_eq_iff unat_mod)
  moreover have "(?t + of_nat (Suc i)) mod ?N = 1"
    using u(2) assms(1) by (simp add: word_unat_eq_iff unat_mod mod_Suc)
  ultimately show ?thesis by (simp add: pool_addr_def Let_def)
qed

lemma start_server:
  assumes "DHCPS_Start n s = Some (DHCPS_ERR_SUCCESS, s')"
  shows "StartIpAddr (DhcpServer s') = htonl (pool_addr (htonl (netmask n)) (htonl (ip_addr n)) 1)"
proof -
  have "netif_up n" using assms by (auto simp: DHCPS_Start_def split: if_splits)
  moreover have "NOT (htonl (netmask n)) \<noteq> 0" using assms calculation by (auto simp: DHCPS_Start_def Let_def split: if_splits)
  ultimately show ?thesis
    using assms by (auto simp: DHCPS_Start_def Let_def pbuf_alloc_result simp del: upt_rec_numeral split: if_splits)
qed

text \<open>On an interface whose own address lies within the last eight of its subnet the pool wraps, and two
  entries of the table get the same address: it can be leased to two clients at once.\<close>

theorem dhcp_pool_duplicate:
  assumes "DHCPS_Start n s0 = Some (DHCPS_ERR_SUCCESS, s)" "1 < unat (NOT (htonl (netmask n)))" "unat (NOT (htonl (netmask n))) + 1 < 2 ^ 32"
    and "unat (htonl (StartIpAddr (DhcpServer s)) AND NOT (htonl (netmask n))) + i = unat (NOT (htonl (netmask n)))"
    and "Suc i < DHCPS_HISTORY_CLIENT_NUM"
  shows "IpAddr (client_at s i) = IpAddr (client_at s (Suc i))"
proof -
  have t: "map IpAddr (table s) = pool n" using start_result [OF assms(1)] by simp
  have "length (table s) = DHCPS_HISTORY_CLIENT_NUM" using start_result [OF assms(1)] by (simp add: table_ok_def)
  then have ip: "IpAddr (table s ! j) = pool n ! j" if "j < DHCPS_HISTORY_CLIENT_NUM" for j using t that by (metis nth_map)
  have "pool n ! j = htonl (pool_addr (htonl (netmask n)) (htonl (StartIpAddr (DhcpServer s))) (of_nat j))"
    if "j < DHCPS_HISTORY_CLIENT_NUM" for j
    using that by (simp add: pool_def start_server [OF assms(1)] del: upt_rec_numeral)
  then show ?thesis
    using pool_addr_wrap [OF assms(2-4)] ip assms(5) by (simp add: client_at_table)
qed

text \<open>The access point at 192.168.1.250/24.\<close>

theorem dhcp_pool_duplicate_witness:
  "\<exists>s. DHCPS_Start \<lparr>netif_up = True, ip_addr = 0xFA01A8C0, netmask = 0x00FFFFFF\<rparr> stopped = Some (DHCPS_ERR_SUCCESS, s) \<and>
     IpAddr (client_at s 4) = IpAddr (client_at s 5)"
proof -
  let ?n = "\<lparr>netif_up = True, ip_addr = 0xFA01A8C0, netmask = 0x00FFFFFF\<rparr>"
  have h: "htonl 0xFA01A8C0 = 0xC0A801FA" "htonl 0x00FFFFFF = 0xFFFFFF00" by (simp_all add: htonl_def le32_def of_le32_def)
  then have "NOT (htonl (netmask ?n)) \<noteq> 0" by simp
  then obtain s where s: "DHCPS_Start ?n stopped = Some (DHCPS_ERR_SUCCESS, s)"
    by (auto simp: DHCPS_Start_def Let_def pbuf_alloc_result stopped_def simp del: upt_rec_numeral)
  have "htonl (StartIpAddr (DhcpServer s)) = 0xC0A801FB" using start_server [OF s] by (simp add: h pool_addr_def)
  then show ?thesis
    using dhcp_pool_duplicate [OF s, of 4] s h by simp
qed


section \<open>Replies that should not be sent\<close>

definition nak_payload :: "u32 \<Rightarrow> bytes \<Rightarrow> dhcp_server \<Rightarrow> bytes" where
  "nak_payload xid mac srv = take (240 + length nak_options) (reply_msg xid 0 (ServerIpAddr srv) mac nak_options)"

lemma recv_select:
  assumes r: "reachable_by w mac s"
  shows "DHCPS_RecvCb w (select_msg xid flags mac ip srv) s =
    dispatch mac \<lparr>opt_ret = ((0 OR 1) OR 2) OR 4, opt_type = DHCP_MSG_REQUEST, opt_req_ip = ip, opt_server = srv\<rparr> xid flags
      (s\<lparr>DhcpMsg := select_msg xid flags mac ip srv\<rparr>)"
proof -
  let ?opts = "[53, 1, DHCP_MSG_REQUEST] @ opt_u32 50 ip @ opt_u32 54 srv @ [255]"
  have "walk (?opts @ zeros (308 - length ?opts)) \<lparr>opt_ret = 0, opt_type = 0xff, opt_req_ip = 0, opt_server = 0\<rparr> =
      Some \<lparr>opt_ret = ((0 OR 1) OR 2) OR 4, opt_type = DHCP_MSG_REQUEST, opt_req_ip = ip, opt_server = srv\<rparr>"
    using walk_request [of ip srv "zeros (308 - length ?opts)"] by simp
  then show ?thesis
    unfolding select_msg_def by (intro recv_request_msg [OF r]) (simp_all add: opt_u32_def)
qed

text \<open>A client that was offered an address and selects the offer of another server gets a NAK, broadcast on
  the access point, although the choice of another server is a refusal of this offer only; the entry keeps the
  address reserved for the client.\<close>

theorem dhcp_other_server_gets_nak:
  assumes "reachable_by w mac s" "i < DHCPS_HISTORY_CLIENT_NUM" "State (client_at s i) = REQUEST" "MacAddr (client_at s i) = mac"
    and "\<forall>j < DHCPS_HISTORY_CLIENT_NUM. IpAddr (client_at s j) \<noteq> ip" "srv \<noteq> 0" "srv \<noteq> ServerIpAddr (DhcpServer s)"
  shows "\<exists>s'. DHCPS_RecvCb w (select_msg xid flags mac ip srv) s = Some s' \<and> table s' = table s \<and>
    sent s' = sent s @ [Udp 0xFFFFFFFF (nak_payload xid mac (DhcpServer s))]"
proof -
  let ?s = "s\<lparr>DhcpMsg := select_msg xid flags mac ip srv\<rparr>"
  have ok: "table_ok (table s)" "Socket (DhcpServer s)" "heap s = []" using assms(1) by (auto simp: reachable_by_def)
  have t: "table ?s = table s" by (simp add: table_def)
  have i: "active (table s ! i)" "MacAddr (table s ! i) = mac" using assms(3,4) by (simp_all add: client_at_table active_def)
  have "\<forall>j < DHCPS_HISTORY_CLIENT_NUM. IpAddr (table s ! j) = ip \<longrightarrow> j = i" using assms(5) by (simp add: client_at_table)
  from lookup_own_offer [OF ok(1) assms(2) i this t, of srv]
  have l: "ClientTableLookup mac DHCP_MSG_REQUEST ip srv ?s = (None, ?s)" using assms(6,7) by simp
  obtain s1 where s1: "DHCPNakGenAndSend mac xid ?s = Some s1" "sent s1 = sent s @ [Udp 0xFFFFFFFF (nak_payload xid mac (DhcpServer s))]"
    using nak_send_result [of ?s mac xid] ok by (auto simp: nak_payload_def)
  have "DhcpServer s1 = DhcpServer s" using nak_send_frame [OF s1(1)] by simp
  then have "table s1 = table s" by (rule same_server_table)
  then show ?thesis using s1 by (simp add: recv_select [OF assms(1)] dispatch_def l)
qed

text \<open>The offers of the server after two messages, for the witnesses.\<close>

lemma one_offer:
  "\<exists>(s :: unit dhcp_state) i. reachable_by two_stations [2, 0, 0, 0, 0, 1] s \<and> i < DHCPS_HISTORY_CLIENT_NUM \<and> State (client_at s i) = REQUEST \<and>
     MacAddr (client_at s i) = [2, 0, 0, 0, 0, 1] \<and> (\<forall>j < DHCPS_HISTORY_CLIENT_NUM. IpAddr (client_at s j) \<noteq> 0) \<and>
     ServerIpAddr (DhcpServer s) = 0x0101A8C0"
proof -
  have none: "\<forall>j < DHCPS_HISTORY_CLIENT_NUM. active (table started ! j) \<longrightarrow> MacAddr (table started ! j) \<noteq> [2, 0, 0, 0, 0, 1]"
    and ip: "\<forall>j < DHCPS_HISTORY_CLIENT_NUM. IpAddr (table started ! j) \<noteq> 0"
    using started_facts(7) nonzero_pool [OF started_table(2)] by blast+
  have len: "length (table started) = DHCPS_HISTORY_CLIENT_NUM" using started_table(1) by (simp add: table_ok_def)
  obtain i s1 where s1: "DHCPS_RecvCb two_stations (discover_msg 1 0 [2, 0, 0, 0, 0, 1]) started = Some s1" "i < DHCPS_HISTORY_CLIENT_NUM"
      "table s1 = (table started)[i := offered ((table started ! i)\<lparr>MacAddr := [2, 0, 0, 0, 0, 1]\<rparr>)]" "heap s1 = []" "same_server started s1"
    using discover_offers [OF started_reachable(1) none ip, of 0 1 0] started_facts(7) by auto
  have "table_ok (table s1)" using recv_ok [OF s1(1) started_table(1)] by simp
  then have "reachable_by two_stations [2, 0, 0, 0, 0, 1] s1" using reachable_by_step [OF started_reachable(1) _ s1(5,4)] by blast
  moreover have "ServerIpAddr (DhcpServer s1) = 0x0101A8C0" using same_server_sel(3) [OF s1(5)] started_facts(8) by simp
  moreover have "\<forall>j < DHCPS_HISTORY_CLIENT_NUM. IpAddr (table s1 ! j) \<noteq> 0" using ip s1(3) len by (simp add: nth_updated)
  ultimately show ?thesis
    using s1(2,3) len by (intro exI [of _ s1] exI [of _ i]) (simp add: client_at_table)
qed

theorem dhcp_other_server_gets_nak_witness:
  "\<exists>(s :: unit dhcp_state) s'. DHCPS_RecvCb two_stations (select_msg 1 0 [2, 0, 0, 0, 0, 1] 0 0x0901A8C0) s = Some s' \<and>
     sent s' = sent s @ [Udp 0xFFFFFFFF (nak_payload 1 [2, 0, 0, 0, 0, 1] (DhcpServer s))]"
proof -
  obtain s :: "unit dhcp_state" and i where s: "reachable_by two_stations [2, 0, 0, 0, 0, 1] s" "i < DHCPS_HISTORY_CLIENT_NUM" "State (client_at s i) = REQUEST"
      "MacAddr (client_at s i) = [2, 0, 0, 0, 0, 1]" "\<forall>j < DHCPS_HISTORY_CLIENT_NUM. IpAddr (client_at s j) \<noteq> 0"
      "ServerIpAddr (DhcpServer s) = 0x0101A8C0"
    using one_offer by blast
  then show ?thesis
    using dhcp_other_server_gets_nak [OF s(1-5), of "0x0901A8C0" 1 0] by auto
qed

text \<open>A client with an entry that requests an address outside the pool is sent an ACK for the address of its
  entry, which is not the one it asked for, instead of a NAK.\<close>

theorem dhcp_foreign_address_acked:
  assumes "reachable_by w mac s" "i < DHCPS_HISTORY_CLIENT_NUM" "State (client_at s i) \<noteq> IDLE" "MacAddr (client_at s i) = mac"
    and "\<forall>j < DHCPS_HISTORY_CLIENT_NUM. IpAddr (client_at s j) \<noteq> ip" "srv = 0 \<or> srv = ServerIpAddr (DhcpServer s)"
  shows "\<exists>s' pre dst. DHCPS_RecvCb w (select_msg xid flags mac ip srv) s = Some s' \<and> State (client_at s' i) = BIND \<and>
    sent s' = sent s @ pre @ [Udp dst (lease_payload DHCP_MSG_ACK xid (IpAddr (client_at s i)) mac (DhcpServer s))] \<and>
    IpAddr (client_at s i) \<noteq> ip"
proof -
  have "\<forall>j < DHCPS_HISTORY_CLIENT_NUM. IpAddr (table s ! j) = ip \<longrightarrow> j = i" using assms(5) by (simp add: client_at_table)
  moreover have "srv = 0 \<or> ServerIpAddr (DhcpServer s) = srv" using assms(6) by auto
  ultimately obtain s' pre dst where "DHCPS_RecvCb w (select_msg xid flags mac ip srv) s = Some s'" "State (table s' ! i) = BIND"
      "sent s' = sent s @ pre @ [Udp dst (lease_payload DHCP_MSG_ACK xid (IpAddr (table s ! i)) mac (DhcpServer s))]"
    using request_binds [OF assms(1,2), of ip srv xid flags] assms(3,4) by (auto simp: client_at_table active_def)
  then show ?thesis using assms(2,5) by (simp add: client_at_table)
qed

theorem dhcp_foreign_address_acked_witness:
  "\<exists>(s :: unit dhcp_state) s' i. State (client_at s i) = REQUEST \<and> IpAddr (client_at s i) \<noteq> 0 \<and>
     DHCPS_RecvCb two_stations (select_msg 1 0 [2, 0, 0, 0, 0, 1] 0 0) s = Some s' \<and> State (client_at s' i) = BIND"
proof -
  obtain s :: "unit dhcp_state" and i where s: "reachable_by two_stations [2, 0, 0, 0, 0, 1] s" "i < DHCPS_HISTORY_CLIENT_NUM" "State (client_at s i) = REQUEST"
      "MacAddr (client_at s i) = [2, 0, 0, 0, 0, 1]" "\<forall>j < DHCPS_HISTORY_CLIENT_NUM. IpAddr (client_at s j) \<noteq> 0"
      "ServerIpAddr (DhcpServer s) = 0x0101A8C0"
    using one_offer by blast
  have "State (client_at s i) \<noteq> IDLE" using s(3) by simp
  from dhcp_foreign_address_acked [OF s(1,2) this s(4,5), of 0 1 0] s(3) show ?thesis by blast
qed

text \<open>A packet of a station whose options have no end mark makes \<open>_ParseDhcpOptions\<close> read behind the
  message: the loop reads the byte before it compares its position with the end.\<close>

theorem dhcp_options_overread:
  assumes "accepted p" "wlan_ok w (wlan s)" "is_station w (wlan s) (msg_mac p)" "own_mac w (wlan s) \<noteq> msg_mac p" "heap s = []"
    and "255 \<notin> set (drop 240 (msg_of p))"
  shows "DHCPS_RecvCb w p s = None"
proof -
  let ?s = "s\<lparr>DhcpMsg := msg_of p\<rparr>"
  have "ParseDhcpOptions (msg_of p) 0xff 0 0 = None"
    unfolding ParseDhcpOptions_walk using walk_needs_end assms(6) by (metis not_Some_eq)
  moreover have "CheckMacIsValid w (msg_mac p) ?s = Some (True, ?s\<lparr>heap := tl (heap s)\<rparr>)"
    using check_mac_result [of w ?s "msg_mac p"] assms(2,3,5) by simp
  ultimately show ?thesis using assms(1,4) by (simp add: recv_dispatch Let_def)
qed

theorem dhcp_options_overread_witness:
  "DHCPS_RecvCb two_stations (request_msg 1 0 [2, 0, 0, 0, 0, 1] [53, 1, DHCP_MSG_DISCOVER]) started = None"
proof -
  have m: "length ([2, 0, 0, 0, 0, 1] :: bytes) = 6" "length ([53, 1, DHCP_MSG_DISCOVER] :: bytes) \<le> 308" by simp_all
  note f = request_msg_fields [OF m, of 1 0]
  have "255 \<notin> set (drop 240 (msg_of (request_msg 1 0 [2, 0, 0, 0, 0, 1] [53, 1, DHCP_MSG_DISCOVER])))"
    unfolding f(6) by (simp add: zeros_def)
  then show ?thesis
    using dhcp_options_overread [OF f(3), of two_stations started] f(2) stations_ok started_facts(2)
    by (simp add: two_stations_def)
qed

end
