(* ===== verification/Wl_Task.thy ===== *)
theory Wl_Task
  imports Prelude
begin

text \<open>
  The tasks of the SDK with their timeouts and mailboxes: \<^verbatim>\<open>wm_wl_timers.c\<close>, \<^verbatim>\<open>wm_wl_mbox.c\<close> and
  \<^verbatim>\<open>wm_wl_task.c\<close> under \<^verbatim>\<open>src/Platform/Common/task\<close>. A timeout list is a list of its nodes, each with the
  time after its predecessor; a mailbox is a bounded queue of pointers to messages, where the pointer to a
  block of the heap stands for the message in it. Waiting on a queue, what other tasks do during a delay and
  the handlers, which may call everything here, are the parameter \<open>rtos\<close>. \<open>None\<close> stands for an
  access outside an array or through a pointer that was never set, and for a fetch that does not end.
\<close>

section \<open>Data\<close>

abbreviation (input) SYS_ARCH_TIMEOUT :: u32 where "SYS_ARCH_TIMEOUT \<equiv> 0xFFFFFFFF"
abbreviation (input) TLS_OS_SUCCESS :: int where "TLS_OS_SUCCESS \<equiv> 0"
abbreviation (input) TLS_OS_ERROR :: int where "TLS_OS_ERROR \<equiv> 1"
abbreviation (input) TLS_TIMEO_ALL_COUONT :: nat where "TLS_TIMEO_ALL_COUONT \<equiv> 9"

text \<open>\<open>'h\<close> are the addresses of handlers, \<open>'c\<close> their arguments.\<close>

record ('h, 'c) tls_timeo =
  timeo_time :: u32
  timeo_h :: "'h option"
  timeo_arg :: 'c

datatype ('h, 'c) task_msg =
    TASK_MSG_TIMEOUT u32 "'h option" 'c
  | TASK_MSG_UNTIMEOUT "'h option" 'c
  | TASK_MSG_CALLBACK 'h 'c

text \<open>What a mailbox holds: a pointer to a block of the heap or to an element of \<open>wl_msg\<close>.\<close>

datatype ('h, 'c) msg_ptr = HeapMsg "('h, 'c) task_msg" | StaticMsg nat

text \<open>The part of \<open>struct task_msg\<close> that a static callback uses; \<open>None\<close> before its first use.\<close>

record ('h, 'c) task_cbs =
  cbs_call :: "('h \<times> 'c) option"
  cbs_cnt :: u8

record ('h, 'c) mbox =
  mbox_size :: nat
  mbox_msgs :: "('h, 'c) msg_ptr list"

record task_parameter =
  mbox_id :: nat
  timeo_id :: nat

record ('h, 'c, 'w) wl_state = os_state +
  next_timeout :: "('h, 'c) tls_timeo list list"
  task_mbox :: "('h, 'c) mbox option list"
  wl_msg :: "('h, 'c) task_cbs list"
  world :: 'w

text \<open>
  The operating system and the handlers: the ticks per second, the time in ticks, \<open>tls_os_queue_receive\<close> on
  a mailbox for a number of ticks (0 is for ever), \<open>tls_os_time_delay\<close>, and the call of a handler.
\<close>

record ('h, 'c, 'w) rtos =
  HZ :: u32
  os_time :: "'w \<Rightarrow> u32"
  queue_receive :: "nat \<Rightarrow> u32 \<Rightarrow> ('h, 'c, 'w) wl_state \<Rightarrow> ('h, 'c) msg_ptr option \<times> ('h, 'c, 'w) wl_state"
  time_delay :: "u32 \<Rightarrow> ('h, 'c, 'w) wl_state \<Rightarrow> ('h, 'c, 'w) wl_state"
  call_handler :: "'h \<Rightarrow> 'c \<Rightarrow> ('h, 'c, 'w) wl_state \<Rightarrow> ('h, 'c, 'w) wl_state"

definition set_timeo :: "nat \<Rightarrow> ('h, 'c) tls_timeo list \<Rightarrow> ('h, 'c, 'w) wl_state \<Rightarrow> ('h, 'c, 'w) wl_state" where
  "set_timeo i l s = s\<lparr>next_timeout := (next_timeout s)[i := l]\<rparr>"

section \<open>Timeouts\<close>

text \<open>The loop of \<open>tls_timeout_p\<close> behind the node \<open>t\<close>; \<open>timeout\<close> is the new node.\<close>

fun timeout_loop :: "('h, 'c) tls_timeo \<Rightarrow> ('h, 'c) tls_timeo \<Rightarrow> ('h, 'c) tls_timeo list \<Rightarrow> ('h, 'c) tls_timeo list" where
  "timeout_loop timeout t [] = [t, timeout\<lparr>timeo_time := timeo_time timeout - timeo_time t\<rparr>]"
| "timeout_loop timeout t (u # r) =
     (let timeout = timeout\<lparr>timeo_time := timeo_time timeout - timeo_time t\<rparr> in
      if timeo_time u > timeo_time timeout
      then t # timeout # u\<lparr>timeo_time := timeo_time u - timeo_time timeout\<rparr> # r
      else t # timeout_loop timeout u r)"

definition timeout_insert :: "('h, 'c) tls_timeo \<Rightarrow> ('h, 'c) tls_timeo list \<Rightarrow> ('h, 'c) tls_timeo list" where
  "timeout_insert timeout l =
     (case l of
        [] \<Rightarrow> [timeout]
      | t # r \<Rightarrow>
          if timeo_time t > timeo_time timeout
          then timeout # t\<lparr>timeo_time := timeo_time t - timeo_time timeout\<rparr> # r
          else timeout_loop timeout t r)"

definition tls_timeout_p ::
    "nat \<Rightarrow> u32 \<Rightarrow> 'h option \<Rightarrow> 'c \<Rightarrow> ('h, 'c, 'w) wl_state \<Rightarrow> ('h, 'c, 'w) wl_state option" where
  "tls_timeout_p i msecs handler a s =
     (if i \<ge> length (next_timeout s) then None
      else (let (b, s) = tls_mem_alloc 16 s in
        Some (case b of
            None \<Rightarrow> s
          | Some _ \<Rightarrow> set_timeo i (timeout_insert \<lparr>timeo_time = msecs, timeo_h = handler, timeo_arg = a\<rparr> (next_timeout s ! i)) s)))"

text \<open>The loop of \<open>tls_untimeout_p\<close>.\<close>

fun untimeout_loop :: "'h option \<Rightarrow> 'c \<Rightarrow> ('h, 'c) tls_timeo list \<Rightarrow> ('h, 'c) tls_timeo list" where
  "untimeout_loop handler a [] = []"
| "untimeout_loop handler a (t # r) =
     (if timeo_h t = handler \<and> timeo_arg t = a
      then (case r of [] \<Rightarrow> [] | u # r \<Rightarrow> u\<lparr>timeo_time := timeo_time u + timeo_time t\<rparr> # r)
      else t # untimeout_loop handler a r)"

definition tls_untimeout_p :: "nat \<Rightarrow> 'h option \<Rightarrow> 'c \<Rightarrow> ('h, 'c, 'w) wl_state \<Rightarrow> ('h, 'c, 'w) wl_state option" where
  "tls_untimeout_p i handler a s =
     (if i \<ge> length (next_timeout s) then None
      else Some (set_timeo i (untimeout_loop handler a (next_timeout s ! i)) s))"

definition tls_wl_timer_init :: "('h, 'c, 'w) wl_state \<Rightarrow> int \<times> ('h, 'c, 'w) wl_state" where
  "tls_wl_timer_init s = (0, s\<lparr>next_timeout := replicate TLS_TIMEO_ALL_COUONT []\<rparr>)"

section \<open>Mailboxes\<close>

definition tls_mbox_valid :: "nat \<Rightarrow> ('h, 'c, 'w) wl_state \<Rightarrow> bool" where
  "tls_mbox_valid i s = (task_mbox s ! i \<noteq> None)"

text \<open>\<open>tls_os_queue_send\<close> without waiting: it fails on a full queue.\<close>

definition queue_send :: "nat \<Rightarrow> ('h, 'c) msg_ptr \<Rightarrow> ('h, 'c, 'w) wl_state \<Rightarrow> bool \<times> ('h, 'c, 'w) wl_state" where
  "queue_send i m s =
     (case task_mbox s ! i of
        None \<Rightarrow> (False, s)
      | Some q \<Rightarrow>
          if length (mbox_msgs q) < mbox_size q
          then (True, s\<lparr>task_mbox := (task_mbox s)[i := Some (q\<lparr>mbox_msgs := mbox_msgs q @ [m]\<rparr>)]\<rparr>)
          else (False, s))"

fun post_loop :: "('h, 'c, 'w) rtos \<Rightarrow> nat \<Rightarrow> ('h, 'c) msg_ptr \<Rightarrow> nat \<Rightarrow> ('h, 'c, 'w) wl_state \<Rightarrow> ('h, 'c, 'w) wl_state" where
  "post_loop r i m 0 s = s"
| "post_loop r i m (Suc n) s =
     (let (ok, s) = queue_send i m s in if ok then s else post_loop r i m n (time_delay r 5 s))"

definition tls_mbox_post :: "('h, 'c, 'w) rtos \<Rightarrow> nat \<Rightarrow> ('h, 'c) msg_ptr \<Rightarrow> ('h, 'c, 'w) wl_state \<Rightarrow> ('h, 'c, 'w) wl_state" where
  "tls_mbox_post r i m s = post_loop r i m 10 s"

definition tls_mbox_trypost :: "nat \<Rightarrow> ('h, 'c) msg_ptr \<Rightarrow> ('h, 'c, 'w) wl_state \<Rightarrow> int \<times> ('h, 'c, 'w) wl_state" where
  "tls_mbox_trypost i m s =
     (let (ok, s) = queue_send i m s in (if ok then TLS_OS_SUCCESS else TLS_OS_ERROR, s))"

text \<open>The time in milliseconds that the wait took, or \<open>SYS_ARCH_TIMEOUT\<close>, with the message.\<close>

definition tls_arch_mbox_fetch ::
    "('h, 'c, 'w) rtos \<Rightarrow> nat \<Rightarrow> u32 \<Rightarrow> ('h, 'c, 'w) wl_state \<Rightarrow> u32 \<times> ('h, 'c) msg_ptr option \<times> ('h, 'c, 'w) wl_state" where
  "tls_arch_mbox_fetch r i timeout s =
     (let in_timeout = timeout * HZ r div 1000;
          in_timeout = (if timeout \<noteq> 0 \<and> in_timeout = 0 then 1 else in_timeout);
          tick_start = os_time r (world s);
          (m, s) = queue_receive r i in_timeout s
      in case m of
           None \<Rightarrow> (SYS_ARCH_TIMEOUT, None, s)
         | Some m \<Rightarrow>
             (let tick_stop = os_time r (world s);
                  tick_elapsed = (if tick_stop \<ge> tick_start then tick_stop - tick_start
                                  else 0xFFFFFFFF - tick_start + tick_stop)
              in (tick_elapsed * 1000 div HZ r, Some m, s)))"

text \<open>\<open>msg\<close> is what the caller's pointer holds so far; \<open>goto again\<close> is the recursive call.\<close>

partial_function (option) tls_timeouts_mbox_fetch_p ::
    "('h, 'c, 'w) rtos \<Rightarrow> nat \<Rightarrow> nat \<Rightarrow> ('h, 'c) msg_ptr option \<Rightarrow> ('h, 'c, 'w) wl_state \<Rightarrow>
       (('h, 'c) msg_ptr option \<times> ('h, 'c, 'w) wl_state) option" where
  "tls_timeouts_mbox_fetch_p r t i msg s =
     (if t \<ge> length (next_timeout s) then None
      else case next_timeout s ! t of
        [] \<Rightarrow>
          (let (time_needed, m, s) = tls_arch_mbox_fetch r i 0 s
           in Some (if m = None then msg else m, s))
      | n # _ \<Rightarrow>
          (let (time_needed, m, s) = (if timeo_time n > 0 then tls_arch_mbox_fetch r i (timeo_time n) s
                                      else (SYS_ARCH_TIMEOUT, None, s));
               msg = (if m = None then msg else m)
           in case next_timeout s ! t of
                [] \<Rightarrow> None
              | n # rest \<Rightarrow>
                  if time_needed = SYS_ARCH_TIMEOUT
                  then (let s = set_timeo t rest s;
                            s = (case timeo_h n of None \<Rightarrow> s | Some f \<Rightarrow> call_handler r f (timeo_arg n) s)
                        in tls_timeouts_mbox_fetch_p r t i msg s)
                  else Some (msg, set_timeo t (n\<lparr>timeo_time :=
                    (if time_needed < timeo_time n then timeo_time n - time_needed else 0)\<rparr> # rest) s)))"

section \<open>Tasks\<close>

text \<open>One round of the main loop of \<open>task_thread\<close>.\<close>

definition task_round :: "('h, 'c, 'w) rtos \<Rightarrow> task_parameter \<Rightarrow> ('h, 'c, 'w) wl_state \<Rightarrow> ('h, 'c, 'w) wl_state option" where
  "task_round r p s =
     (case tls_timeouts_mbox_fetch_p r (timeo_id p) (mbox_id p) None s of
        None \<Rightarrow> None
      | Some (None, s) \<Rightarrow> None
      | Some (Some msg, s) \<Rightarrow>
          (case msg of
             HeapMsg (TASK_MSG_CALLBACK f ctx) \<Rightarrow> Some (call_handler r f ctx s)
           | HeapMsg (TASK_MSG_TIMEOUT msecs f a) \<Rightarrow> tls_timeout_p (timeo_id p) msecs f a s
           | HeapMsg (TASK_MSG_UNTIMEOUT f a) \<Rightarrow> tls_untimeout_p (timeo_id p) f a s
           | StaticMsg k \<Rightarrow>
               if k \<ge> length (wl_msg s) then None
               else (let c = wl_msg s ! k; s = s\<lparr>wl_msg := (wl_msg s)[k := c\<lparr>cbs_cnt := cbs_cnt c - 1\<rparr>]\<rparr> in
                 case cbs_call c of None \<Rightarrow> None | Some (f, ctx) \<Rightarrow> Some (call_handler r f ctx s))))"

text \<open>The first \<open>n\<close> rounds.\<close>

fun task_thread :: "('h, 'c, 'w) rtos \<Rightarrow> task_parameter \<Rightarrow> nat \<Rightarrow> ('h, 'c, 'w) wl_state \<Rightarrow> ('h, 'c, 'w) wl_state option" where
  "task_thread r p 0 s = Some s"
| "task_thread r p (Suc n) s = do { s \<leftarrow> task_round r p s; task_thread r p n s }"

definition tls_wl_task_callback_static ::
    "('h, 'c, 'w) rtos \<Rightarrow> task_parameter \<Rightarrow> 'h \<Rightarrow> 'c \<Rightarrow> bool \<Rightarrow> nat \<Rightarrow> ('h, 'c, 'w) wl_state \<Rightarrow>
       (int \<times> ('h, 'c, 'w) wl_state) option" where
  "tls_wl_task_callback_static r p f ctx block msg_id s =
     (if msg_id \<ge> length (wl_msg s) \<or> mbox_id p \<ge> length (task_mbox s) then None
      else if cbs_cnt (wl_msg s ! msg_id) > 0 then Some (TLS_OS_ERROR, s)
      else if tls_mbox_valid (mbox_id p) s
      then (let s = s\<lparr>wl_msg := (wl_msg s)[msg_id := (wl_msg s ! msg_id)\<lparr>cbs_call := Some (f, ctx)\<rparr>]\<rparr>;
                (err, s) = (if block then (TLS_OS_SUCCESS, tls_mbox_post r (mbox_id p) (StaticMsg msg_id) s)
                            else tls_mbox_trypost (mbox_id p) (StaticMsg msg_id) s)
            in if err \<noteq> TLS_OS_SUCCESS then Some (TLS_OS_ERROR, s)
               else Some (TLS_OS_SUCCESS, s\<lparr>wl_msg := (wl_msg s)[msg_id :=
                 (wl_msg s ! msg_id)\<lparr>cbs_cnt := cbs_cnt (wl_msg s ! msg_id) + 1\<rparr>]\<rparr>))
      else Some (TLS_OS_ERROR, s))"

definition tls_wl_task_callback ::
    "('h, 'c, 'w) rtos \<Rightarrow> task_parameter \<Rightarrow> 'h \<Rightarrow> 'c \<Rightarrow> bool \<Rightarrow> ('h, 'c, 'w) wl_state \<Rightarrow>
       (int \<times> ('h, 'c, 'w) wl_state) option" where
  "tls_wl_task_callback r p f ctx block s =
     (if mbox_id p \<ge> length (task_mbox s) then None
      else if tls_mbox_valid (mbox_id p) s
      then (let (b, s) = tls_mem_alloc 20 s in
        case b of
          None \<Rightarrow> Some (TLS_OS_ERROR, s)
        | Some _ \<Rightarrow>
            if block then Some (TLS_OS_SUCCESS, tls_mbox_post r (mbox_id p) (HeapMsg (TASK_MSG_CALLBACK f ctx)) s)
            else (let (err, s) = tls_mbox_trypost (mbox_id p) (HeapMsg (TASK_MSG_CALLBACK f ctx)) s
                  in if err \<noteq> TLS_OS_SUCCESS then Some (TLS_OS_ERROR, s) else Some (TLS_OS_SUCCESS, s)))
      else Some (TLS_OS_ERROR, s))"

text \<open>\<open>tls_wl_task_add_timeout\<close> and \<open>tls_wl_task_untimeout\<close> differ in the message.\<close>

definition post_timer_msg ::
    "('h, 'c, 'w) rtos \<Rightarrow> task_parameter \<Rightarrow> ('h, 'c) task_msg \<Rightarrow> ('h, 'c, 'w) wl_state \<Rightarrow> (int \<times> ('h, 'c, 'w) wl_state) option" where
  "post_timer_msg r p m s =
     (if mbox_id p \<ge> length (task_mbox s) then None
      else if tls_mbox_valid (mbox_id p) s
      then (let (b, s) = tls_mem_alloc 20 s in
        case b of
          None \<Rightarrow> Some (TLS_OS_ERROR, s)
        | Some _ \<Rightarrow> Some (TLS_OS_SUCCESS, tls_mbox_post r (mbox_id p) (HeapMsg m) s))
      else Some (TLS_OS_ERROR, s))"

definition tls_wl_task_add_timeout ::
    "('h, 'c, 'w) rtos \<Rightarrow> task_parameter \<Rightarrow> u32 \<Rightarrow> 'h option \<Rightarrow> 'c \<Rightarrow> ('h, 'c, 'w) wl_state \<Rightarrow>
       (int \<times> ('h, 'c, 'w) wl_state) option" where
  "tls_wl_task_add_timeout r p msecs f a s = post_timer_msg r p (TASK_MSG_TIMEOUT msecs f a) s"

definition tls_wl_task_untimeout ::
    "('h, 'c, 'w) rtos \<Rightarrow> task_parameter \<Rightarrow> 'h option \<Rightarrow> 'c \<Rightarrow> ('h, 'c, 'w) wl_state \<Rightarrow>
       (int \<times> ('h, 'c, 'w) wl_state) option" where
  "tls_wl_task_untimeout r p f a s = post_timer_msg r p (TASK_MSG_UNTIMEOUT f a) s"

text \<open>The size given to \<open>memset\<close> is the one of a single message.\<close>

definition tls_wl_task_init :: "('h, 'c, 'w) wl_state \<Rightarrow> int \<times> ('h, 'c, 'w) wl_state" where
  "tls_wl_task_init s = (0, s\<lparr>wl_msg := (wl_msg s)[0 := \<lparr>cbs_call = None, cbs_cnt = 0\<rparr>]\<rparr>)"

end
