(* ===== verification/Wl_Props.thy ===== *)
theory Wl_Props
  imports Wl_Task
begin

text \<open>
  The timeouts of a task against their specification: the list of the times at which they are due, in
  milliseconds from now, with their handlers. \<open>due\<close> is the abstraction, and every operation of the
  timeout list is shown to be the one of the specification. Then the wait for a message, the requests that go
  through the mailbox, and where the code departs from what it promises.
\<close>

section \<open>The abstraction\<close>

type_synonym ('h, 'c) due_list = "(nat \<times> 'h option \<times> 'c) list"

fun due :: "nat \<Rightarrow> ('h, 'c) tls_timeo list \<Rightarrow> ('h, 'c) due_list" where
  "due b [] = []"
| "due b (n # r) = (b + unat (timeo_time n), timeo_h n, timeo_arg n) # due (b + unat (timeo_time n)) r"

definition timeouts :: "('h, 'c, 'w) wl_state \<Rightarrow> nat \<Rightarrow> ('h, 'c) due_list" where
  "timeouts s i = due 0 (next_timeout s ! i)"

text \<open>A new timeout comes behind all that are due at the same time or earlier.\<close>

definition add_due :: "nat \<times> 'h option \<times> 'c \<Rightarrow> ('h, 'c) due_list \<Rightarrow> ('h, 'c) due_list" where
  "add_due x l = takeWhile (\<lambda>y. fst y \<le> fst x) l @ x # dropWhile (\<lambda>y. fst y \<le> fst x) l"

text \<open>Only the first timeout with the handler and the argument goes.\<close>

definition remove_due :: "'h option \<Rightarrow> 'c \<Rightarrow> ('h, 'c) due_list \<Rightarrow> ('h, 'c) due_list" where
  "remove_due f a l = takeWhile (\<lambda>y. snd y \<noteq> (f, a)) l @ tl (dropWhile (\<lambda>y. snd y \<noteq> (f, a)) l)"

definition in_range :: "('h, 'c) due_list \<Rightarrow> bool" where
  "in_range l \<longleftrightarrow> (\<forall>x \<in> set l. fst x < 2 ^ 32)"

lemma add_due_simps [simp]:
  "add_due x [] = [x]"
  "add_due x (y # l) = (if fst y \<le> fst x then y # add_due x l else x # y # l)"
  by (simp_all add: add_due_def)

lemma remove_due_simps [simp]:
  "remove_due f a [] = []"
  "remove_due f a (y # l) = (if snd y = (f, a) then l else y # remove_due f a l)"
  by (simp_all add: remove_due_def)

lemma set_add_due: "set (add_due x l) = insert x (set l)"
  by (induction l) auto

lemma set_remove_due: "set (remove_due f a l) \<subseteq> set l"
  by (induction l) auto

lemma sorted_add_due: "sorted (map fst l) \<Longrightarrow> sorted (map fst (add_due x l))"
  by (induction l) (auto simp: set_add_due)

lemma due_ge: "x \<in> set (due b l) \<Longrightarrow> b \<le> fst x"
  by (induction l arbitrary: b) fastforce+

lemma sorted_due: "sorted (map fst (due b l))"
  by (induction l arbitrary: b) (auto dest: due_ge)

lemma in_range_add: "in_range (add_due x l) \<longleftrightarrow> fst x < 2 ^ 32 \<and> in_range l"
  by (auto simp: in_range_def set_add_due)

lemma in_range_remove: "in_range l \<Longrightarrow> in_range (remove_due f a l)"
  using set_remove_due by (fastforce simp: in_range_def)

section \<open>The operations of the list\<close>

lemma unat_minus: "unat y \<le> unat x \<Longrightarrow> unat (x - y) = unat x - unat (y :: u32)"
  by (simp add: unat_sub word_le_nat_alt)

lemma timeout_loop_due:
  assumes "timeo_time t \<le> timeo_time n"
  shows "due b (timeout_loop n t r) = add_due (b + unat (timeo_time n), timeo_h n, timeo_arg n) (due b (t # r))"
  using assms
proof (induction n t r arbitrary: b rule: timeout_loop.induct)
  case (1 n t)
  then show ?case by (simp add: unat_minus word_le_nat_alt)
next
  case (2 n t u r)
  let ?n = "n\<lparr>timeo_time := timeo_time n - timeo_time t\<rparr>"
  have n: "unat (timeo_time ?n) = unat (timeo_time n) - unat (timeo_time t)" "unat (timeo_time t) \<le> unat (timeo_time n)"
    using 2(2) by (simp_all add: unat_minus word_le_nat_alt)
  show ?case
  proof (cases "timeo_time u > timeo_time ?n")
    case True
    then have "unat (timeo_time u - timeo_time ?n) = unat (timeo_time u) - unat (timeo_time ?n)" "unat (timeo_time ?n) < unat (timeo_time u)"
      by (simp_all add: unat_minus word_less_nat_alt)
    moreover have "\<not> unat (timeo_time t) + unat (timeo_time u) \<le> unat (timeo_time n)" using calculation(2) n by linarith
    ultimately show ?thesis using True n by (simp add: Let_def ac_simps)
  next
    case False
    then have "timeo_time u \<le> timeo_time ?n" by simp
    moreover have "unat (timeo_time u) \<le> unat (timeo_time n) - unat (timeo_time t)"
      using calculation n(1) by (simp add: word_le_nat_alt)
    ultimately show ?thesis
      using 2(1) [OF refl False, of "b + unat (timeo_time t)"] False n by (simp add: Let_def)
  qed
qed

lemma timeout_insert_due:
  "due 0 (timeout_insert n l) = add_due (unat (timeo_time n), timeo_h n, timeo_arg n) (due 0 l)"
proof (cases l)
  case Nil
  then show ?thesis by (simp add: timeout_insert_def)
next
  case (Cons t r)
  show ?thesis
  proof (cases "timeo_time t > timeo_time n")
    case True
    then have "unat (timeo_time t - timeo_time n) = unat (timeo_time t) - unat (timeo_time n)" "unat (timeo_time n) < unat (timeo_time t)"
      by (simp_all add: unat_minus word_less_nat_alt)
    then show ?thesis using True Cons by (simp add: timeout_insert_def)
  next
    case False
    then show ?thesis using Cons timeout_loop_due [of t n 0 r] by (simp add: timeout_insert_def)
  qed
qed

lemma untimeout_loop_due:
  assumes "\<forall>x \<in> set (due b l). fst x < 2 ^ 32"
  shows "due b (untimeout_loop f a l) = remove_due f a (due b l)"
  using assms
proof (induction f a l arbitrary: b rule: untimeout_loop.induct)
  case (2 f a t r)
  show ?case
  proof (cases "timeo_h t = f \<and> timeo_arg t = a")
    case True
    show ?thesis
    proof (cases r)
      case (Cons u r')
      then have "b + unat (timeo_time t) + unat (timeo_time u) < 2 ^ 32" using 2(2) by simp
      then have "unat (timeo_time u + timeo_time t) = unat (timeo_time u) + unat (timeo_time t)"
        by (simp add: unat_word_ariths)
      then show ?thesis using True Cons by (simp add: ac_simps)
    qed (use True in simp)
  next
    case False
    then show ?thesis using 2 by auto
  qed
qed simp

lemma set_timeo_sel [simp]:
  "next_timeout (set_timeo i l s) = (next_timeout s)[i := l]" "task_mbox (set_timeo i l s) = task_mbox s"
  "wl_msg (set_timeo i l s) = wl_msg s" "world (set_timeo i l s) = world s" "heap (set_timeo i l s) = heap s"
  by (simp_all add: set_timeo_def)

lemma timeouts_set [simp]:
  "i < length (next_timeout s) \<Longrightarrow> timeouts (set_timeo i l s) i = due 0 l"
  "i \<noteq> j \<Longrightarrow> timeouts (set_timeo i l s) j = timeouts s j"
  by (simp_all add: timeouts_def)


section \<open>Properties of the timeout list\<close>

text \<open>C10: \<open>tls_timeout_p\<close> implements the insertion of a timeout: the new one is due \<open>msecs\<close> milliseconds
  from now, behind all that are due at the same time or earlier, every other timeout keeps its time and its
  handler, the list stays in order and in range, and no other list changes. Without memory nothing changes.\<close>

theorem tls_timeout_p_refines:
  assumes "i < length (next_timeout s)" "in_range (timeouts s i)"
  shows "\<exists>s'. tls_timeout_p i msecs f a s = Some s' \<and>
    timeouts s' i = (if heap s = [] \<or> hd (heap s) then add_due (unat msecs, f, a) (timeouts s i) else timeouts s i) \<and>
    in_range (timeouts s' i) \<and> sorted (map fst (timeouts s' i)) \<and> (\<forall>j. j \<noteq> i \<longrightarrow> next_timeout s' ! j = next_timeout s ! j)"
proof -
  let ?h = "s\<lparr>heap := tl (heap s)\<rparr>"
  let ?n = "\<lparr>timeo_time = msecs, timeo_h = f, timeo_arg = a\<rparr>"
  have alloc: "tls_mem_alloc 16 s = (if heap s = [] \<or> hd (heap s) then Some (fresh 16 s) else None, ?h)"
    by (cases s) (auto simp: tls_mem_alloc_def split: list.splits)
  have t: "timeouts ?h i = timeouts s i" "next_timeout ?h = next_timeout s" by (simp_all add: timeouts_def)
  have "unat msecs < 2 ^ 32" using unsigned_less [of msecs] by simp
  then have r: "in_range (add_due (unat msecs, f, a) (timeouts s i))" using assms(2) by (simp add: in_range_add)
  have d: "due 0 (timeout_insert ?n (next_timeout s ! i)) = add_due (unat msecs, f, a) (timeouts s i)"
    by (simp add: timeout_insert_due timeouts_def)
  show ?thesis
  proof (cases "heap s = [] \<or> hd (heap s)")
    case True
    then have "tls_timeout_p i msecs f a s = Some (set_timeo i (timeout_insert ?n (next_timeout s ! i)) ?h)"
      using assms(1) alloc t(2) by (simp add: tls_timeout_p_def)
    then show ?thesis
      using True assms(1) r d sorted_add_due [OF sorted_due, of "(unat msecs, f, a)" 0 "next_timeout s ! i"]
      by (simp add: timeouts_def)
  next
    case False
    then have "tls_timeout_p i msecs f a s = Some ?h" using assms(1) alloc by (simp add: tls_timeout_p_def)
    then show ?thesis using False assms(2) t sorted_due [of 0 "next_timeout s ! i"] by (simp add: timeouts_def)
  qed
qed

text \<open>A state with two timeouts, due after 5 and after 12 milliseconds.\<close>

definition two_timeouts :: "(nat, nat, unit) wl_state" where
  "two_timeouts = \<lparr>heap = [], junk = (\<lambda>_. 0),
     next_timeout = [[\<lparr>timeo_time = 5, timeo_h = Some 1, timeo_arg = 0\<rparr>, \<lparr>timeo_time = 7, timeo_h = Some 2, timeo_arg = 0\<rparr>]],
     task_mbox = [], wl_msg = [], world = ()\<rparr>"

theorem tls_timeout_p_refines_witness:
  "\<exists>s'. tls_timeout_p 0 8 (Some 3) 4 two_timeouts = Some s' \<and>
     timeouts s' 0 = [(5, Some 1, 0), (8, Some 3, 4), (12, Some 2, 0)]"
proof -
  have "0 < length (next_timeout two_timeouts)" "timeouts two_timeouts 0 = [(5, Some 1, 0), (12, Some 2, 0)]"
    by (simp_all add: two_timeouts_def timeouts_def)
  moreover have "in_range (timeouts two_timeouts 0)" by (simp add: calculation in_range_def)
  ultimately show ?thesis
    using tls_timeout_p_refines [of 0 two_timeouts 8 "Some 3" 4] by (auto simp: two_timeouts_def)
qed

text \<open>C31: \<open>tls_untimeout_p\<close> implements the removal: the first timeout with the handler and the argument goes,
  all others keep their times, and no other list changes.\<close>

theorem tls_untimeout_p_refines:
  assumes "i < length (next_timeout s)" "in_range (timeouts s i)"
  shows "\<exists>s'. tls_untimeout_p i f a s = Some s' \<and> timeouts s' i = remove_due f a (timeouts s i) \<and> in_range (timeouts s' i) \<and>
    (\<forall>j. j \<noteq> i \<longrightarrow> next_timeout s' ! j = next_timeout s ! j)"
proof -
  have "due 0 (untimeout_loop f a (next_timeout s ! i)) = remove_due f a (timeouts s i)"
    using assms(2) untimeout_loop_due [of 0 "next_timeout s ! i" f a] by (simp add: timeouts_def in_range_def)
  then show ?thesis using assms in_range_remove [OF assms(2), of f a] by (simp add: tls_untimeout_p_def)
qed

theorem tls_untimeout_p_refines_witness:
  "\<exists>s'. tls_untimeout_p 0 (Some 1) 0 two_timeouts = Some s' \<and> timeouts s' 0 = [(12, Some 2, 0)]"
proof -
  have "0 < length (next_timeout two_timeouts)" "timeouts two_timeouts 0 = [(5, Some 1, 0), (12, Some 2, 0)]"
    by (simp_all add: two_timeouts_def timeouts_def)
  moreover have "in_range (timeouts two_timeouts 0)" by (simp add: calculation in_range_def)
  ultimately show ?thesis using tls_untimeout_p_refines [of 0 two_timeouts "Some 1" 0] by auto
qed


section \<open>Waiting for a message\<close>

text \<open>The time that passes: all due times go down by \<open>d\<close>.\<close>

definition pass :: "nat \<Rightarrow> ('h, 'c) due_list \<Rightarrow> ('h, 'c) due_list" where
  "pass d l = map (\<lambda>(x, f, a). (x - d, f, a)) l"



lemma pass_0 [simp]: "pass 0 l = l"
  by (simp add: pass_def)









text \<open>An operating system without other tasks, for the witnesses: waiting on a mailbox takes its first
  message, or times out; the handlers only record that they were called.\<close>

definition mbox_pop :: "nat \<Rightarrow> ('h, 'c, 'w) wl_state \<Rightarrow> ('h, 'c) msg_ptr option \<times> ('h, 'c, 'w) wl_state" where
  "mbox_pop i s =
     (case task_mbox s ! i of
        None \<Rightarrow> (None, s)
      | Some q \<Rightarrow> (case mbox_msgs q of
          [] \<Rightarrow> (None, s)
        | m # ms \<Rightarrow> (Some m, s\<lparr>task_mbox := (task_mbox s)[i := Some (q\<lparr>mbox_msgs := ms\<rparr>)]\<rparr>)))"

definition lone_task :: "(nat, nat, (nat \<times> nat) list) rtos" where
  "lone_task = \<lparr>HZ = 500, os_time = (\<lambda>_. 0), queue_receive = (\<lambda>i k. mbox_pop i), time_delay = (\<lambda>_ s. s),
     call_handler = (\<lambda>f a s. s\<lparr>world := world s @ [(f, a)]\<rparr>)\<rparr>"

definition lone_state :: "(nat, nat, (nat \<times> nat) list) wl_state" where
  "lone_state = \<lparr>heap = [], junk = (\<lambda>_. 0),
     next_timeout = [[\<lparr>timeo_time = 0, timeo_h = Some 1, timeo_arg = 5\<rparr>, \<lparr>timeo_time = 7, timeo_h = Some 2, timeo_arg = 0\<rparr>]],
     task_mbox = [Some \<lparr>mbox_size = 2, mbox_msgs = [HeapMsg (TASK_MSG_CALLBACK 3 0)]\<rparr>],
     wl_msg = [\<lparr>cbs_call = None, cbs_cnt = 0\<rparr>], world = []\<rparr>"







section \<open>Requests through the mailbox\<close>

text \<open>\<open>tls_os_queue_receive\<close> on a mailbox that is not empty takes its first message at once.\<close>

definition fifo :: "('h, 'c, 'w) rtos \<Rightarrow> nat \<Rightarrow> bool" where
  "fifo r i \<longleftrightarrow> (\<forall>k s q. task_mbox s ! i = Some q \<and> mbox_msgs q \<noteq> [] \<longrightarrow> queue_receive r i k s = mbox_pop i s)"

lemma fetch_message:
  assumes "fifo r i" "i < length (task_mbox s)" "task_mbox s ! i = Some q" "mbox_msgs q = [m]"
  shows "tls_arch_mbox_fetch r i k s = (0, Some m, s\<lparr>task_mbox := (task_mbox s)[i := Some (q\<lparr>mbox_msgs := []\<rparr>)]\<rparr>)"
proof -
  have "queue_receive r i j s = (Some m, s\<lparr>task_mbox := (task_mbox s)[i := Some (q\<lparr>mbox_msgs := []\<rparr>)]\<rparr>)" for j
  proof -
    have "queue_receive r i j s = mbox_pop i s" using assms(1,3,4) unfolding fifo_def by (metis list.distinct(1))
    then show ?thesis using assms(3,4) by (simp add: mbox_pop_def)
  qed
  then show ?thesis by (simp add: tls_arch_mbox_fetch_def Let_def word_div_def)
qed

lemma fetch_pending:
  assumes "fifo r i" "i < length (task_mbox s)" "task_mbox s ! i = Some q" "mbox_msgs q = [m]"
    and "t < length (next_timeout s)" "\<forall>x \<in> set (timeouts s t). 0 < fst x"
  shows "tls_timeouts_mbox_fetch_p r t i msg s = Some (Some m, s\<lparr>task_mbox := (task_mbox s)[i := Some (q\<lparr>mbox_msgs := []\<rparr>)]\<rparr>)"
proof (cases "next_timeout s ! t")
  case Nil
  then show ?thesis
    using assms fetch_message [OF assms(1-4), of 0] by (subst tls_timeouts_mbox_fetch_p.simps) simp
next
  case (Cons n l)
  then have n: "0 < timeo_time n" using assms(6) by (simp add: timeouts_def word_greater_zero_iff unat_gt_0)
  let ?s = "s\<lparr>task_mbox := (task_mbox s)[i := Some (q\<lparr>mbox_msgs := []\<rparr>)]\<rparr>"
  have "set_timeo t (n\<lparr>timeo_time := timeo_time n - 0\<rparr> # l) ?s = ?s"
    using Cons by (cases s) (simp add: set_timeo_def list_update_same_conv [THEN iffD2] Cons [symmetric])
  then show ?thesis
    using assms(5) Cons n fetch_message [OF assms(1-4), of "timeo_time n"]
    by (subst tls_timeouts_mbox_fetch_p.simps) simp
qed

text \<open>A timeout that another task asks for with \<open>tls_wl_task_add_timeout\<close> is in the list of the task after
  its next round, in its place and with its full time, and the mailbox is empty again.\<close>

theorem tls_wl_task_add_timeout_arrives:
  assumes "fifo r (mbox_id p)" "mbox_id p < length (task_mbox s)" "task_mbox s ! mbox_id p = Some q" "mbox_msgs q = []" "0 < mbox_size q"
    and "timeo_id p < length (next_timeout s)" "in_range (timeouts s (timeo_id p))" "\<forall>x \<in> set (timeouts s (timeo_id p)). 0 < fst x"
    and "heap s = []"
  shows "\<exists>s1 s2. tls_wl_task_add_timeout r p msecs f a s = Some (TLS_OS_SUCCESS, s1) \<and> task_round r p s1 = Some s2 \<and>
    timeouts s2 (timeo_id p) = add_due (unat msecs, f, a) (timeouts s (timeo_id p)) \<and> task_mbox s2 = task_mbox s"
proof -
  let ?i = "mbox_id p" and ?m = "TASK_MSG_TIMEOUT msecs f a"
  let ?q = "q\<lparr>mbox_msgs := [HeapMsg ?m]\<rparr>"
  let ?s1 = "s\<lparr>task_mbox := (task_mbox s)[?i := Some ?q]\<rparr>"
  let ?s2 = "?s1\<lparr>task_mbox := (task_mbox ?s1)[?i := Some (?q\<lparr>mbox_msgs := []\<rparr>)]\<rparr>"
  have s1: "tls_wl_task_add_timeout r p msecs f a s = Some (TLS_OS_SUCCESS, ?s1)"
    using assms by (simp add: tls_wl_task_add_timeout_def post_timer_msg_def tls_mbox_valid_def tls_mbox_post_def queue_send_def
        numeral_nat Let_def)
  have t: "timeouts ?s1 = timeouts s" "timeouts ?s2 = timeouts s" by (simp_all add: timeouts_def fun_eq_iff)
  have "tls_timeouts_mbox_fetch_p r (timeo_id p) ?i None ?s1 = Some (Some (HeapMsg ?m), ?s2)"
    using assms t by (intro fetch_pending) simp_all
  then have round: "task_round r p ?s1 = tls_timeout_p (timeo_id p) msecs f a ?s2"
    by (simp add: task_round_def)
  have "tls_timeout_p (timeo_id p) msecs f a ?s2 =
      Some (set_timeo (timeo_id p) (timeout_insert \<lparr>timeo_time = msecs, timeo_h = f, timeo_arg = a\<rparr> (next_timeout s ! timeo_id p)) ?s2)"
    using assms(6,9) by (simp add: tls_timeout_p_def)
  moreover have "task_mbox ?s2 = task_mbox s"
  proof -
    have "q\<lparr>mbox_msgs := []\<rparr> = q" using assms(4) by (cases q) simp
    then show ?thesis using assms(2,3) by (simp add: list_update_same_conv)
  qed
  ultimately show ?thesis
    using s1 round assms(6) timeout_insert_due [of "\<lparr>timeo_time = msecs, timeo_h = f, timeo_arg = a\<rparr>" "next_timeout s ! timeo_id p"]
    by (simp add: timeouts_def)
qed

theorem tls_wl_task_add_timeout_arrives_witness:
  "\<exists>s1 s2. tls_wl_task_add_timeout lone_task \<lparr>mbox_id = 0, timeo_id = 0\<rparr> 9 (Some 4) 0
       (lone_state\<lparr>next_timeout := [[]], task_mbox := [Some \<lparr>mbox_size = 2, mbox_msgs = []\<rparr>]\<rparr>) = Some (TLS_OS_SUCCESS, s1) \<and>
     task_round lone_task \<lparr>mbox_id = 0, timeo_id = 0\<rparr> s1 = Some s2 \<and> timeouts s2 0 = [(9, Some 4, 0)]"
proof -
  let ?p = "\<lparr>mbox_id = 0, timeo_id = 0\<rparr>"
  let ?q = "\<lparr>mbox_size = 2, mbox_msgs = []\<rparr> :: (nat, nat) mbox"
  let ?s = "lone_state\<lparr>next_timeout := [[]], task_mbox := [Some ?q]\<rparr>"
  have "fifo lone_task (mbox_id ?p)" by (simp add: fifo_def lone_task_def)
  moreover have "timeouts ?s 0 = []" "in_range (timeouts ?s 0)" "heap ?s = []"
    by (simp_all add: timeouts_def in_range_def lone_state_def)
  ultimately show ?thesis
    using tls_wl_task_add_timeout_arrives [of lone_task ?p ?s ?q 9 "Some 4" 0] by auto
qed


section \<open>Where the code departs from its promises\<close>

text \<open>The mailbox is full and stays so.\<close>

definition stays_full :: "('h, 'c, 'w) rtos \<Rightarrow> nat \<Rightarrow> ('h, 'c, 'w) wl_state \<Rightarrow> bool" where
  "stays_full r i s \<longleftrightarrow> (\<exists>q. task_mbox s ! i = Some q \<and> mbox_size q \<le> length (mbox_msgs q)) \<and>
     (\<forall>k s'. wl_msg (time_delay r k s') = wl_msg s' \<and> task_mbox (time_delay r k s') = task_mbox s')"

lemma post_loop_full:
  assumes "stays_full r i s"
  shows "wl_msg (post_loop r i m n s) = wl_msg s \<and> task_mbox (post_loop r i m n s) = task_mbox s"
  using assms
proof (induction n arbitrary: s)
  case (Suc n)
  obtain q where q: "task_mbox s ! i = Some q" "mbox_size q \<le> length (mbox_msgs q)" using Suc.prems by (auto simp: stays_full_def)
  then have "queue_send i m s = (False, s)" by (simp add: queue_send_def)
  moreover have "stays_full r i (time_delay r 5 s)" using Suc.prems by (simp add: stays_full_def)
  ultimately show ?case using Suc.IH [of "time_delay r 5 s"] Suc.prems by (simp add: stays_full_def)
qed simp

text \<open>A static callback that waits for a mailbox that stays full, as a handler of the task itself does
  that nobody else can drain the mailbox for, is reported as posted although it is not in the mailbox, and from
  then on every callback with this message is refused.\<close>

theorem tls_wl_task_callback_static_lost:
  assumes "msg_id < length (wl_msg s)" "mbox_id p < length (task_mbox s)" "cbs_cnt (wl_msg s ! msg_id) = 0" "stays_full r (mbox_id p) s"
  shows "\<exists>s'. tls_wl_task_callback_static r p f ctx True msg_id s = Some (TLS_OS_SUCCESS, s') \<and> task_mbox s' = task_mbox s \<and>
    tls_wl_task_callback_static r p f' ctx' block msg_id s' = Some (TLS_OS_ERROR, s')"
proof -
  let ?s = "s\<lparr>wl_msg := (wl_msg s)[msg_id := (wl_msg s ! msg_id)\<lparr>cbs_call := Some (f, ctx)\<rparr>]\<rparr>"
  let ?t = "tls_mbox_post r (mbox_id p) (StaticMsg msg_id) ?s"
  have full: "stays_full r (mbox_id p) ?s" using assms(4) by (simp add: stays_full_def)
  have t: "wl_msg ?t = wl_msg ?s" "task_mbox ?t = task_mbox s"
    using post_loop_full [OF full, of "StaticMsg msg_id" 10] by (simp_all add: tls_mbox_post_def)
  let ?u = "?t\<lparr>wl_msg := (wl_msg ?t)[msg_id := (wl_msg ?t ! msg_id)\<lparr>cbs_cnt := cbs_cnt (wl_msg ?t ! msg_id) + 1\<rparr>]\<rparr>"
  have valid: "tls_mbox_valid (mbox_id p) s" using assms(4) by (auto simp: stays_full_def tls_mbox_valid_def)
  have "tls_wl_task_callback_static r p f ctx True msg_id s = Some (TLS_OS_SUCCESS, ?u)"
    using assms(1-3) valid by (simp add: tls_wl_task_callback_static_def Let_def tls_mbox_valid_def)
  moreover have "tls_wl_task_callback_static r p f' ctx' block msg_id ?u = Some (TLS_OS_ERROR, ?u)"
    using assms(1-3) t by (simp add: tls_wl_task_callback_static_def)
  ultimately show ?thesis using t(2) by (intro exI [of _ ?u]) simp
qed

theorem tls_wl_task_callback_static_lost_witness:
  "\<exists>s'. tls_wl_task_callback_static lone_task \<lparr>mbox_id = 0, timeo_id = 0\<rparr> 7 1 True 0
       (lone_state\<lparr>task_mbox := [Some \<lparr>mbox_size = 0, mbox_msgs = []\<rparr>]\<rparr>) = Some (TLS_OS_SUCCESS, s') \<and>
     tls_wl_task_callback_static lone_task \<lparr>mbox_id = 0, timeo_id = 0\<rparr> 7 1 False 0 s' = Some (TLS_OS_ERROR, s')"
proof -
  let ?s = "lone_state\<lparr>task_mbox := [Some \<lparr>mbox_size = 0, mbox_msgs = []\<rparr>]\<rparr>"
  have "stays_full lone_task 0 ?s" by (simp add: stays_full_def lone_task_def)
  then show ?thesis
    using tls_wl_task_callback_static_lost [of 0 ?s "\<lparr>mbox_id = 0, timeo_id = 0\<rparr>" lone_task 7 1 7 1 False] by (auto simp: lone_state_def)
qed

text \<open>A wait whose number of milliseconds times the ticks per second leaves 32 bits, some hours, ends too
  early: the queue is waited on for fewer ticks than the time asked for.\<close>

theorem tls_arch_mbox_fetch_too_early:
  assumes "2 ^ 32 \<le> unat timeout * unat (HZ r)"
  shows "\<exists>ticks. tls_arch_mbox_fetch r i timeout s =
      (case queue_receive r i ticks s of
         (None, s') \<Rightarrow> (SYS_ARCH_TIMEOUT, None, s')
       | (Some m, s') \<Rightarrow> ((if os_time r (world s) \<le> os_time r (world s') then os_time r (world s') - os_time r (world s)
           else 0xFFFFFFFF - os_time r (world s) + os_time r (world s')) * 1000 div HZ r, Some m, s')) \<and>
    unat ticks < unat timeout * unat (HZ r) div 1000"
proof -
  let ?w = "timeout * HZ r div 1000"
  let ?ticks = "if timeout \<noteq> 0 \<and> ?w = 0 then 1 else ?w"
  have "unat ?w = (unat timeout * unat (HZ r)) mod 2 ^ 32 div 1000"
    by (simp add: unat_div unat_word_ariths)
  also have "\<dots> \<le> (2 ^ 32 - 1) div 1000" by (rule div_le_mono) simp
  finally have "unat ?w \<le> 4294967" by simp
  moreover have "4294967 \<le> unat timeout * unat (HZ r) div 1000"
    using div_le_mono [OF assms(1), of 1000] by simp
  moreover have "unat ?w < unat timeout * unat (HZ r) div 1000"
  proof (cases "unat timeout * unat (HZ r) < 2 ^ 32 + 2 ^ 32")
    case True
    then have "(unat timeout * unat (HZ r)) mod 2 ^ 32 = unat timeout * unat (HZ r) - 2 ^ 32"
      using assms(1) by (simp add: mod_if)
    then have "unat ?w = (unat timeout * unat (HZ r) - 2 ^ 32) div 1000" by (simp add: unat_div unat_word_ariths)
    also have "\<dots> < unat timeout * unat (HZ r) div 1000"
      using assms(1) div_le_mono [of "unat timeout * unat (HZ r) - 2 ^ 32 + 1000" "unat timeout * unat (HZ r)" 1000] by simp
    finally show ?thesis .
  next
    case False
    then have "8589934 \<le> unat timeout * unat (HZ r) div 1000"
      using div_le_mono [of "2 ^ 32 + 2 ^ 32" "unat timeout * unat (HZ r)" 1000] by simp
    then show ?thesis using \<open>unat ?w \<le> 4294967\<close> by linarith
  qed
  ultimately have "unat ?ticks < unat timeout * unat (HZ r) div 1000" by (simp add: unat_eq_zero)
  then show ?thesis
    by (intro exI [of _ ?ticks]) (simp add: tls_arch_mbox_fetch_def Let_def split: prod.splits option.splits)
qed

text \<open>A wait of two hours, 23 minutes and ten seconds at 500 ticks per second.\<close>

theorem tls_arch_mbox_fetch_too_early_witness:
  "\<exists>ticks m s'. tls_arch_mbox_fetch lone_task 0 8590000 lone_state = (0, m, s') \<and>
     queue_receive lone_task 0 ticks lone_state = (m, s') \<and> unat ticks < 4295000"
proof -
  have "2 ^ 32 \<le> unat (8590000 :: u32) * unat (HZ lone_task)" by (simp add: lone_task_def)
  from tls_arch_mbox_fetch_too_early [OF this, of 0 lone_state] show ?thesis
    by (auto simp: lone_task_def mbox_pop_def lone_state_def)
qed

end
