(* ===== verification/Dns_Server.thy ===== *)
theory Dns_Server
  imports Dhcp_Server
begin

text \<open>
  The DNS server of the soft AP, \<^verbatim>\<open>dns_server.c\<close> and \<^verbatim>\<open>dns_server_if.c\<close> under
  \<^verbatim>\<open>src/Src/App/dnsserver\<close>, in the configuration with lwIP 2.0.3. The static \<open>DnsServer\<close> is a record; what
  is sent is the list \<open>dns_sent\<close> of addresses, ports and payloads. The socket is a pointer that is set or not,
  and a control block that is allocated or not. \<open>None\<close> stands for an access outside an object, through a
  null pointer or to a released socket.
\<close>

section \<open>Data\<close>

abbreviation (input) DNSS_ERR_SUCCESS :: int where "DNSS_ERR_SUCCESS \<equiv> 0"
abbreviation (input) DNSS_ERR_LINKDOWN :: int where "DNSS_ERR_LINKDOWN \<equiv> 1"
abbreviation (input) DNSS_ERR_PARAM :: int where "DNSS_ERR_PARAM \<equiv> 2"
abbreviation (input) DNSS_ERR_MEM :: int where "DNSS_ERR_MEM \<equiv> 3"
abbreviation (input) DNS_DEFAULT_TTL :: u32 where "DNS_DEFAULT_TTL \<equiv> 3600"
abbreviation (input) DNS_RRTYPE_A :: u16 where "DNS_RRTYPE_A \<equiv> 1"
abbreviation (input) DNS_RRCLASS_IN :: u16 where "DNS_RRCLASS_IN \<equiv> 1"
abbreviation (input) DNS_HEADER_SIZE :: nat where "DNS_HEADER_SIZE \<equiv> 12"

record dns_server =
  DnsSocket :: bool
  DnsName :: bytes
  HostIp :: u32

record dns_state = os_state +
  DnsServer :: dns_server
  socket_live :: bool
  dns_sent :: "(u32 \<times> u16 \<times> bytes) list"

definition zero_dns_server :: dns_server where
  "zero_dns_server = \<lparr>DnsSocket = False, DnsName = zeros 32, HostIp = 0\<rparr>"

text \<open>\<open>strlen\<close> on the rest of a buffer.\<close>

fun c_strlen :: "bytes \<Rightarrow> nat option" where
  "c_strlen [] = None"
| "c_strlen (x # xs) = (if x = 0 then Some 0 else map_option Suc (c_strlen xs))"

section \<open>Comparison of names\<close>

text \<open>The inner loop over a label of \<open>n\<close> bytes, and the outer loop with its last test. \<open>j\<close> and \<open>k\<close> are the
  positions of \<open>MyDns\<close> and \<open>Query\<close>.\<close>

fun match_label :: "bytes \<Rightarrow> nat \<Rightarrow> bytes \<Rightarrow> nat \<Rightarrow> nat \<Rightarrow> bool option" where
  "match_label my j q k 0 = Some True"
| "match_label my j q k (Suc n) =
     (if j \<ge> length my \<or> k \<ge> length q then None
      else if my ! j \<noteq> q ! k then Some False
      else match_label my (j + 1) q (k + 1) n)"

definition name_ended :: "bytes \<Rightarrow> nat \<Rightarrow> int option" where
  "name_ended my j = (if j = 0 \<or> j > length my then None else Some (if my ! (j - 1) = 0 then 0 else 1))"

function compare_labels :: "bytes \<Rightarrow> nat \<Rightarrow> bytes \<Rightarrow> nat \<Rightarrow> int option" where
  "compare_labels my j q k =
     (if k \<ge> length q then None
      else if q ! k AND 0xC0 = 0xC0 then name_ended my j
      else case match_label my j q (k + 1) (unat (q ! k)) of
          None \<Rightarrow> None
        | Some ok \<Rightarrow>
            if \<not> ok then Some 1
            else if k + 1 + unat (q ! k) \<ge> length q then None
            else if q ! (k + 1 + unat (q ! k)) \<noteq> 0 then compare_labels my (j + unat (q ! k) + 1) q (k + 1 + unat (q ! k))
            else name_ended my (j + unat (q ! k) + 1))"
  by pat_completeness auto
termination by (relation "measure (\<lambda>(my, j, q, k). length q - k)") auto

declare compare_labels.simps [simp del]

text \<open>\<open>strlen(Query) - 1\<close> is an unsigned number: an empty name is too long.\<close>

definition DnsCompareName :: "bytes \<Rightarrow> bytes \<Rightarrow> int option" where
  "DnsCompareName my q =
     (case c_strlen q of
        None \<Rightarrow> None
      | Some n \<Rightarrow> if n = 0 \<or> n - 1 > 32 then Some 1 else compare_labels my 0 q 0)"

section \<open>Replies\<close>

definition dns_header :: "bytes \<Rightarrow> u8 \<Rightarrow> u16 \<Rightarrow> bytes" where
  "dns_header tid flag2 answers = tid @ [0x80, flag2] @ le16 (ntohs 1) @ le16 (ntohs answers) @ [0, 0, 0, 0]"

text \<open>\<open>udp_sendto\<close> on the socket of the server.\<close>

definition dns_sendto :: "u32 \<Rightarrow> u16 \<Rightarrow> bytes \<Rightarrow> dns_state \<Rightarrow> dns_state option" where
  "dns_sendto dst port payload s =
     (if DnsSocket (DnsServer s) \<and> socket_live s then Some (s\<lparr>dns_sent := dns_sent s @ [(dst, port, payload)]\<rparr>) else None)"

text \<open>The reply is built in a block of the heap, copied to a packet buffer and sent.\<close>

definition send_reply :: "u32 \<Rightarrow> u16 \<Rightarrow> nat \<Rightarrow> (bytes \<Rightarrow> bytes option) \<Rightarrow> nat \<Rightarrow> dns_state \<Rightarrow> dns_state option" where
  "send_reply dst port alloc_len build len s =
     (let (b, s) = tls_mem_alloc alloc_len s in
      case b of
        None \<Rightarrow> Some s
      | Some reply \<Rightarrow> do {
          reply \<leftarrow> build reply;
          let (b, s) = tls_mem_alloc len s;
          if b = None then Some s else dns_sendto dst port (take len reply) s
        })"

definition round4 :: "nat \<Rightarrow> nat" where
  "round4 n = (n + 3) div 4 * 4"

text \<open>\<open>name\<close> is the name of the query without its final zero, \<open>query\<close> the bytes of \<open>DNS_QUERY\<close>.\<close>

definition DNSNameErrGenAndSend :: "u32 \<Rightarrow> u16 \<Rightarrow> bytes \<Rightarrow> bytes \<Rightarrow> bytes \<Rightarrow> dns_state \<Rightarrow> dns_state option" where
  "DNSNameErrGenAndSend dst port query name tid s =
     (let n = length name + 1 in
      send_reply dst port (round4 (DNS_HEADER_SIZE + n + 4))
        (\<lambda>m. do {
           m \<leftarrow> buf_put m 0 (dns_header tid 3 0);
           m \<leftarrow> buf_put m 12 (name @ [0]);
           buf_put m (12 + n) query
         })
        (DNS_HEADER_SIZE + n + 4) s)"

definition DNSAnswerGenAndSend :: "u32 \<Rightarrow> u16 \<Rightarrow> bytes \<Rightarrow> bytes \<Rightarrow> bytes \<Rightarrow> dns_state \<Rightarrow> dns_state option" where
  "DNSAnswerGenAndSend dst port query name tid s =
     (let n = length name + 1 in
      send_reply dst port (round4 (DNS_HEADER_SIZE + n + 4 + 2 + 8 + 2 + 4))
        (\<lambda>m. do {
           m \<leftarrow> buf_put m 0 (dns_header tid 0 1);
           m \<leftarrow> buf_put m 12 (name @ [0]);
           m \<leftarrow> buf_put m (12 + n) query;
           m \<leftarrow> buf_put m (16 + n) (le16 (ntohs (0xC000 OR 12)));
           m \<leftarrow> buf_put m (18 + n) (le16 (ntohs DNS_RRTYPE_A) @ le16 (ntohs DNS_RRCLASS_IN) @ le32 (htonl DNS_DEFAULT_TTL));
           m \<leftarrow> buf_put m (26 + n) (le16 (ntohs 4));
           buf_put m (28 + n) (le32 (HostIp (DnsServer s)))
         })
        (DNS_HEADER_SIZE + n + 4 + 2 + 8 + 2 + 4) s)"

section \<open>The interface\<close>

text \<open>\<open>nif\<close> is what \<open>tls_get_netif\<close> returns.\<close>

definition DNSS_RecvCb :: "netif \<Rightarrow> bytes \<Rightarrow> u32 \<Rightarrow> u16 \<Rightarrow> dns_state \<Rightarrow> dns_state option" where
  "DNSS_RecvCb nif p dst port s =
     (let (b, s) = tls_mem_alloc (length p) s in
      if b = None then Some s
      else do {
        flag1 \<leftarrow> buf_get p 2 1;
        if flag1 ! 0 AND 0x80 \<noteq> 0 \<or> flag1 ! 0 AND 0x78 \<noteq> 0 then Some s
        else do {
          n \<leftarrow> c_strlen (drop DNS_HEADER_SIZE p);
          query \<leftarrow> buf_get p (DNS_HEADER_SIZE + n + 1) 4;
          if of_le16 (slice 2 2 query) \<noteq> ntohs DNS_RRCLASS_IN \<and> of_le16 (slice 0 2 query) \<noteq> ntohs DNS_RRTYPE_A then Some s
          else do {
            differs \<leftarrow> DnsCompareName (DnsName (DnsServer s)) (drop DNS_HEADER_SIZE p);
            let name = slice DNS_HEADER_SIZE n p;
            let tid = slice 0 2 p;
            if differs \<noteq> 0
            then (if \<not> netif_up nif then DNSNameErrGenAndSend dst port query name tid s else Some s)
            else DNSAnswerGenAndSend dst port query name tid s
          }
        }
      })"

text \<open>A name is a string without its final zero; \<open>None\<close> is the null pointer.\<close>

definition DNSS_Config :: "bytes option \<Rightarrow> dns_state \<Rightarrow> int \<times> dns_state" where
  "DNSS_Config name s =
     (case name of
        None \<Rightarrow> (DNSS_ERR_PARAM, s)
      | Some name \<Rightarrow>
          if length name > 32 then (DNSS_ERR_PARAM, s)
          else (DNSS_ERR_SUCCESS, s\<lparr>DnsServer := (DnsServer s)\<lparr>DnsName := patch (zeros 32) 0 name\<rparr>\<rparr>))"

definition DNSS_Start :: "netif option \<Rightarrow> bytes option \<Rightarrow> dns_state \<Rightarrow> (int \<times> dns_state) option" where
  "DNSS_Start nif name s =
     (case nif of
        None \<Rightarrow> Some (DNSS_ERR_PARAM, s)
      | Some nif \<Rightarrow> do {
          name \<leftarrow> name;
          if length name > 32 then Some (DNSS_ERR_PARAM, s)
          else if \<not> netif_up nif then Some (DNSS_ERR_LINKDOWN, s)
          else (let srv = zero_dns_server\<lparr>DnsName := patch (zeros 32) 0 name, HostIp := ip_addr nif\<rparr>;
                    (b, s) = tls_mem_alloc 32 (s\<lparr>DnsServer := srv\<rparr>)
                in if b = None then Some (DNSS_ERR_MEM, s)
                   else Some (DNSS_ERR_SUCCESS, s\<lparr>DnsServer := srv\<lparr>DnsSocket := True\<rparr>, socket_live := True\<rparr>))
        })"

definition DNSS_Stop :: "dns_state \<Rightarrow> dns_state option" where
  "DNSS_Stop s =
     (if DnsSocket (DnsServer s) then (if socket_live s then Some (s\<lparr>socket_live := False\<rparr>) else None) else Some s)"

definition tls_dnss_start :: "netif option \<Rightarrow> bytes option \<Rightarrow> dns_state \<Rightarrow> (int \<times> dns_state) option" where
  "tls_dnss_start nif name s = do {
     (ret, s) \<leftarrow> DNSS_Start nif name s;
     Some (if ret = DNSS_ERR_SUCCESS then 0 else - 1, s)
   }"

definition tls_dnss_stop :: "dns_state \<Rightarrow> dns_state option" where
  "tls_dnss_stop s = DNSS_Stop s"

end
