(* ===== verification/Dns_Props.thy ===== *)
theory Dns_Props
  imports Dns_Server
begin

text \<open>
  The DNS server answers the query for its own name with its address. Names are lists of labels: \<open>encode\<close>
  is their form in a query, \<open>dotted\<close> the form in which the server is configured.
\<close>

section \<open>Names\<close>

definition encode :: "bytes list \<Rightarrow> bytes" where
  "encode ls = concat (map (\<lambda>l. of_nat (length l) # l) ls)"

fun dotted :: "bytes list \<Rightarrow> bytes" where
  "dotted [] = []"
| "dotted [l] = l"
| "dotted (l # ls) = l @ 46 # dotted ls"

definition labels_ok :: "bytes list \<Rightarrow> bool" where
  "labels_ok ls \<longleftrightarrow> ls \<noteq> [] \<and> (\<forall>l \<in> set ls. l \<noteq> [] \<and> 0 \<notin> set l) \<and> length (dotted ls) < 32"

lemma label_length: "l \<in> set ls \<Longrightarrow> length l \<le> length (dotted ls)"
  by (induction ls rule: dotted.induct) auto

lemma length_encode: "ls \<noteq> [] \<Longrightarrow> length (encode ls) = Suc (length (dotted ls))"
  by (induction ls rule: dotted.induct) (simp_all add: encode_def)

lemma unat_small: "n < 32 \<Longrightarrow> unat (of_nat n :: u8) = n"
  by (simp add: unat_of_nat)

lemma no_pointer: "n < 32 \<Longrightarrow> (of_nat n :: u8) AND 0xC0 \<noteq> 0xC0"
proof
  assume n: "n < 32" and e: "(of_nat n :: u8) AND 0xC0 = 0xC0"
  have "bit (0xC0 :: u8) 7" by simp
  then have "bit ((of_nat n :: u8) AND 0xC0) 7" using e by simp
  then have "bit n 7" by (simp add: bit_simps)
  then show False using n by (simp add: bit_iff_odd)
qed

lemma c_strlen_append: "0 \<notin> set xs \<Longrightarrow> c_strlen (xs @ 0 # ys) = Some (length xs)"
  by (induction xs) auto

lemma encode_nonzero:
  assumes "labels_ok ls"
  shows "0 \<notin> set (encode ls)"
proof
  assume "0 \<in> set (encode ls)"
  then obtain l where l: "l \<in> set ls" "0 = (of_nat (length l) :: u8) \<or> 0 \<in> set l" by (auto simp: encode_def)
  have "length l < 32" "l \<noteq> []" "0 \<notin> set l" using assms l(1) label_length [OF l(1)] by (auto simp: labels_ok_def)
  then have "unat (of_nat (length l) :: u8) \<noteq> 0" using unat_small by simp
  then show False using l(2) \<open>0 \<notin> set l\<close> by auto
qed

lemma match_label_same:
  "match_label (pre @ l @ x) (length pre) (qpre @ l @ y) (length qpre) (length l) = Some True"
proof (induction l arbitrary: pre qpre)
  case (Cons b l)
  from Cons.IH [of "pre @ [b]" "qpre @ [b]"] show ?case by (simp add: nth_append)
qed simp

lemma compare_same:
  assumes "ls \<noteq> []" "\<forall>l \<in> set ls. l \<noteq> [] \<and> length l < 32"
  shows "compare_labels (pre @ dotted ls @ 0 # x) (length pre) (qpre @ encode ls @ 0 # y) (length qpre) = Some 0"
  using assms
proof (induction ls arbitrary: pre qpre rule: dotted.induct)
  case (2 l)
  let ?my = "pre @ l @ 0 # x" and ?q = "qpre @ of_nat (length l) # l @ 0 # y"
  have n: "unat (of_nat (length l) :: u8) = length l" "(of_nat (length l) :: u8) AND 0xC0 \<noteq> 0xC0"
    using 2(2) unat_small no_pointer by simp_all
  have k: "?q ! length qpre = of_nat (length l)" "?q ! (length qpre + 1 + length l) = 0" by (simp_all add: nth_append)
  have "match_label ?my (length pre) ?q (length qpre + 1) (length l) = Some True"
    using match_label_same [of pre l "0 # x" "qpre @ [of_nat (length l)]" "0 # y"] by simp
  moreover have "name_ended ?my (length pre + length l + 1) = Some 0" by (simp add: name_ended_def nth_append)
  ultimately have "compare_labels ?my (length pre) ?q (length qpre) = Some 0"
    using n k by (subst compare_labels.simps) simp
  then show ?case by (simp add: encode_def)
next
  case (3 l m ls)
  let ?my = "pre @ l @ 46 # dotted (m # ls) @ 0 # x" and ?q = "qpre @ of_nat (length l) # l @ encode (m # ls) @ 0 # y"
  have n: "unat (of_nat (length l) :: u8) = length l" "(of_nat (length l) :: u8) AND 0xC0 \<noteq> 0xC0"
    using 3(3) unat_small no_pointer by simp_all
  have m: "(of_nat (length m) :: u8) \<noteq> 0" using 3(3) unat_small [of "length m"] by (metis length_0_conv list.set_intros(1,2) unat_0)
  have k: "?q ! length qpre = of_nat (length l)" "?q ! (length qpre + 1 + length l) = of_nat (length m)"
    by (simp_all add: nth_append encode_def)
  have "match_label ?my (length pre) ?q (length qpre + 1) (length l) = Some True"
    using match_label_same [of pre l "46 # dotted (m # ls) @ 0 # x" "qpre @ [of_nat (length l)]" "encode (m # ls) @ 0 # y"] by simp
  then have "compare_labels ?my (length pre) ?q (length qpre) =
      compare_labels ?my (length pre + length l + 1) ?q (length qpre + 1 + length l)"
    using n k m by (subst compare_labels.simps) simp
  also have "\<dots> = Some 0"
    using 3(1) [of "pre @ l @ [46]" "qpre @ of_nat (length l) # l"] 3(3) by simp
  finally show ?case by (simp add: encode_def)
qed simp

lemma compare_own_name:
  assumes "labels_ok ls"
  shows "DnsCompareName (patch (zeros 32) 0 (dotted ls)) (encode ls @ 0 # y) = Some 0"
proof -
  have l: "\<forall>l \<in> set ls. l \<noteq> [] \<and> length l < 32" "ls \<noteq> []" "length (dotted ls) < 32"
    using assms label_length by (fastforce simp: labels_ok_def)+
  have "zeros (32 - length (dotted ls)) = 0 # zeros (31 - length (dotted ls))"
    using l(3) by (cases "32 - length (dotted ls)") (auto simp: zeros_def Suc_diff_le)
  then have "patch (zeros 32) 0 (dotted ls) = dotted ls @ 0 # zeros (31 - length (dotted ls))"
    by (simp add: patch_def zeros_def)
  then have "compare_labels (patch (zeros 32) 0 (dotted ls)) 0 (encode ls @ 0 # y) 0 = Some 0"
    using compare_same [OF l(2,1), of "[]" _ "[]" y] by simp
  moreover have "dotted ls \<noteq> []" using assms by (cases ls rule: dotted.cases) (auto simp: labels_ok_def)
  ultimately show ?thesis
    using c_strlen_append [OF encode_nonzero [OF assms], of y] length_encode [OF l(2)] l(3)
    by (simp add: DnsCompareName_def)
qed


section \<open>Queries and answers\<close>

text \<open>A query with \<open>question\<close> for type and class, anything behind it, and its answer.\<close>

definition dns_query :: "bytes \<Rightarrow> u8 \<Rightarrow> bytes \<Rightarrow> bytes list \<Rightarrow> bytes \<Rightarrow> bytes \<Rightarrow> bytes" where
  "dns_query tid flag1 counts ls question rest = tid @ [flag1] @ counts @ encode ls @ [0] @ question @ rest"

definition dns_answer :: "bytes \<Rightarrow> bytes list \<Rightarrow> bytes \<Rightarrow> u32 \<Rightarrow> bytes" where
  "dns_answer tid ls question ip =
     tid @ [0x80, 0, 0, 1, 0, 1, 0, 0, 0, 0] @ encode ls @ [0] @ question @
     [0xC0, 0x0C, 0, 1, 0, 1, 0, 0, 0x0E, 0x10, 0, 4] @ le32 ip"

lemma round4_ge: "n \<le> round4 n"
proof -
  have "n + 3 = (n + 3) div 4 * 4 + (n + 3) mod 4" by simp
  moreover have "(n + 3) mod 4 < 4" by simp
  ultimately show ?thesis unfolding round4_def by linarith
qed

lemma network_consts:
  "le16 (ntohs 1) = [0, 1]" "le16 (ntohs 0) = [0, 0]" "le16 (ntohs 4) = [0, 4]" "le16 (ntohs (0xC000 OR 12)) = [0xC0, 0x0C]"
  "le32 (htonl 3600) = [0, 0, 0x0E, 0x10]"
  by (simp_all add: ntohs_def htonl_def le16_def of_le16_def le32_def of_le32_def)

lemma take_patch_0: "length xs \<le> length m \<Longrightarrow> take (length xs) (patch m 0 xs) = xs"
  by (simp add: patch_def)

lemma send_reply_result:
  assumes "heap s = []" "DnsSocket (DnsServer s)" "socket_live s" "build (fresh n s) = Some m"
  shows "send_reply dst port n build len s = Some (s\<lparr>dns_sent := dns_sent s @ [(dst, port, take len m)]\<rparr>)"
  using assms by (simp add: send_reply_def Let_def dns_sendto_def)

lemma answer_sent:
  assumes "heap s = []" "DnsSocket (DnsServer s)" "socket_live s" "length tid = 2" "length question = 4"
  shows "DNSAnswerGenAndSend dst port question (encode ls) tid s =
    Some (s\<lparr>dns_sent := dns_sent s @ [(dst, port, dns_answer tid ls question (HostIp (DnsServer s)))]\<rparr>)"
proof -
  let ?n = "length (encode ls) + 1" and ?ip = "le32 (HostIp (DnsServer s))"
  let ?a = "tid @ [0x80, 0, 0, 1, 0, 1, 0, 0, 0, 0]"
  let ?b = "?a @ encode ls @ [0]"
  let ?c = "?b @ question"
  let ?d = "?c @ [0xC0, 0x0C]"
  let ?e = "?d @ [0, 1, 0, 1, 0, 0, 0x0E, 0x10]"
  let ?f = "?e @ [0, 4]"
  define m where "m = fresh (round4 (DNS_HEADER_SIZE + ?n + 4 + 2 + 8 + 2 + 4)) s"
  have m: "32 + ?n \<le> length m" using round4_ge [of "32 + ?n"] by (simp add: m_def algebra_simps)
  have put: "buf_put (patch m 0 xs) k ys = Some (patch m 0 (xs @ ys))" if "length xs = k" "k + length ys \<le> length m" for xs k ys
    using that patch_append [of 0 xs ys m] by (simp add: buf_put_def)
  have len: "length ?a = 12" "length ?b = 12 + ?n" "length ?c = 16 + ?n" "length ?d = 18 + ?n" "length ?e = 26 + ?n" "length ?f = 28 + ?n"
    "length (?f @ ?ip) = 32 + ?n"
    using assms(4,5) by simp_all
  have build: "do {
        m \<leftarrow> buf_put m 0 (dns_header tid 0 1);
        m \<leftarrow> buf_put m 12 (encode ls @ [0]);
        m \<leftarrow> buf_put m (12 + ?n) question;
        m \<leftarrow> buf_put m (16 + ?n) (le16 (ntohs (0xC000 OR 12)));
        m \<leftarrow> buf_put m (18 + ?n) (le16 (ntohs DNS_RRTYPE_A) @ le16 (ntohs DNS_RRCLASS_IN) @ le32 (htonl DNS_DEFAULT_TTL));
        m \<leftarrow> buf_put m (26 + ?n) (le16 (ntohs 4));
        buf_put m (28 + ?n) ?ip
      } = Some (patch m 0 (?f @ ?ip))"
  proof -
    have "buf_put m 0 (dns_header tid 0 1) = Some (patch m 0 ?a)"
      using m assms(4) by (simp add: buf_put_def dns_header_def network_consts)
    moreover have "buf_put (patch m 0 ?a) 12 (encode ls @ [0]) = Some (patch m 0 ?b)" by (rule put) (use len m in simp_all)
    moreover have "buf_put (patch m 0 ?b) (12 + ?n) question = Some (patch m 0 ?c)"
      using put [of ?b "12 + ?n" question] len m assms(5) by simp
    moreover have "buf_put (patch m 0 ?c) (16 + ?n) (le16 (ntohs (0xC000 OR 12))) = Some (patch m 0 ?d)"
      using put [of ?c "16 + ?n" "le16 (ntohs (0xC000 OR 12))"] len m by (simp only: network_consts) simp
    moreover have "buf_put (patch m 0 ?d) (18 + ?n) (le16 (ntohs DNS_RRTYPE_A) @ le16 (ntohs DNS_RRCLASS_IN) @ le32 (htonl DNS_DEFAULT_TTL)) = Some (patch m 0 ?e)"
      using put [of ?d "18 + ?n" "le16 (ntohs 1) @ le16 (ntohs 1) @ le32 (htonl 3600)"] len m by (simp only: network_consts) simp
    moreover have "buf_put (patch m 0 ?e) (26 + ?n) (le16 (ntohs 4)) = Some (patch m 0 ?f)"
      using put [of ?e "26 + ?n" "le16 (ntohs 4)"] len m by (simp only: network_consts) simp
    moreover have "buf_put (patch m 0 ?f) (28 + ?n) ?ip = Some (patch m 0 (?f @ ?ip))"
      using put [of ?f "28 + ?n" ?ip] len m by simp
    ultimately show ?thesis by (simp only: bind.bind_lunit)
  qed
  have out: "take (32 + ?n) (patch m 0 (?f @ ?ip)) = ?f @ ?ip"
    using take_patch_0 [of "?f @ ?ip" m] m unfolding len(7) by blast
  have N: "DNS_HEADER_SIZE + ?n + 4 + 2 + 8 + 2 + 4 = 32 + ?n" by simp
  have ans: "?f @ ?ip = dns_answer tid ls question (HostIp (DnsServer s))" by (simp add: dns_answer_def)
  show ?thesis
    unfolding DNSAnswerGenAndSend_def Let_def
    by (rule trans [OF send_reply_result [OF assms(1-3)]], rule build [unfolded m_def]) (simp only: N out [unfolded m_def N ans] ans)
qed

lemma slice_middle: "slice (length xs) (length ys) (xs @ ys @ zs) = ys"
  by (simp add: slice_def)

lemma recv_own_name:
  assumes "heap s = []" "DnsSocket (DnsServer s)" "socket_live s" "labels_ok ls" "DnsName (DnsServer s) = patch (zeros 32) 0 (dotted ls)"
    and "length tid = 2" "length counts = 9" "length question = 4" "flag1 AND 0xF8 = 0"
    and "of_le16 (drop 2 question) = ntohs DNS_RRCLASS_IN \<or> of_le16 (take 2 question) = ntohs DNS_RRTYPE_A"
  shows "DNSS_RecvCb nif (dns_query tid flag1 counts ls question rest) dst port s =
    Some (s\<lparr>dns_sent := dns_sent s @ [(dst, port, dns_answer tid ls question (HostIp (DnsServer s)))]\<rparr>)"
proof -
  let ?p = "dns_query tid flag1 counts ls question rest" and ?n = "length (encode ls)"
  have d: "drop 12 ?p = encode ls @ 0 # question @ rest" using assms(6,7) by (simp add: dns_query_def)
  have strlen: "c_strlen (drop 12 ?p) = Some ?n"
    using c_strlen_append [OF encode_nonzero [OF assms(4)], of "question @ rest"] by (simp add: d)
  have f: "buf_get ?p 2 1 = Some [flag1]" "buf_get ?p (DNS_HEADER_SIZE + ?n + 1) 4 = Some question" "slice 0 2 ?p = tid" "slice 12 ?n ?p = encode ls"
  proof -
    have p: "?p = tid @ flag1 # counts @ encode ls @ 0 # question @ rest" "?p = ((tid @ flag1 # counts) @ encode ls @ [0]) @ question @ rest"
      "?p = (tid @ flag1 # counts) @ encode ls @ 0 # question @ rest"
      by (simp_all add: dns_query_def)
    have l: "length ((tid @ flag1 # counts) @ encode ls @ [0]) = DNS_HEADER_SIZE + ?n + 1" "length (tid @ flag1 # counts) = 12"
      using assms(6,7) by simp_all
    show "buf_get ?p 2 1 = Some [flag1]" "slice 0 2 ?p = tid" using assms(6-8) by (simp_all add: buf_get_def slice_def p(1))
    show "buf_get ?p (DNS_HEADER_SIZE + ?n + 1) 4 = Some question"
      unfolding p(2) l(1) [symmetric] assms(8) [symmetric] buf_get_def slice_middle by simp
    show "slice 12 ?n ?p = encode ls" unfolding p(3) l(2) [symmetric] by (rule slice_middle)
  qed
  have q: "slice 2 2 question = drop 2 question" "slice 0 2 question = take 2 question" using assms(8) by (simp_all add: slice_def)
  have flags: "flag1 AND 0x80 = 0" "flag1 AND 0x78 = 0"
  proof -
    have "flag1 AND 0x80 = (flag1 AND 0xF8) AND 0x80" "flag1 AND 0x78 = (flag1 AND 0xF8) AND 0x78" by (simp_all add: and.assoc)
    then show "flag1 AND 0x80 = 0" "flag1 AND 0x78 = 0" using assms(9) by simp_all
  qed
  have "DnsCompareName (DnsName (DnsServer s)) (drop 12 ?p) = Some 0"
    using compare_own_name [OF assms(4), of "question @ rest"] by (simp add: assms(5) d)
  then show ?thesis
    using answer_sent [OF assms(1-3,6,8), of dst port ls] assms(1,10) strlen f q flags by (auto simp: DNSS_RecvCb_def)
qed

section \<open>Properties\<close>

text \<open>The server at 192.168.1.1 with the name own.net.\<close>

definition own_labels :: "bytes list" where
  "own_labels = [[111, 119, 110], [110, 101, 116]]"

definition dns_started :: dns_state where
  "dns_started = \<lparr>heap = [], junk = (\<lambda>_. 0),
     DnsServer = \<lparr>DnsSocket = True, DnsName = patch (zeros 32) 0 (dotted own_labels), HostIp = 0x0101A8C0\<rparr>,
     socket_live = True, dns_sent = []\<rparr>"

lemma own_labels_ok: "labels_ok own_labels"
  by (simp add: labels_ok_def own_labels_def)

text \<open>C32: a started server answers the query for the address of the name it was started with, whatever follows
  the question: the reply repeats the transaction and the question and gives the address of the interface.\<close>

theorem dns_answers_own_name:
  assumes "DNSS_Start (Some nif0) (Some (dotted ls)) s0 = Some (DNSS_ERR_SUCCESS, s)" "heap s0 = []" "labels_ok ls"
    and "length tid = 2" "length counts = 9" "flag1 AND 0xF8 = 0"
  shows "\<exists>s'. DNSS_RecvCb nif (dns_query tid flag1 counts ls [0, 1, 0, 1] rest) dst port s = Some s' \<and>
    dns_sent s' = dns_sent s @ [(dst, port, dns_answer tid ls [0, 1, 0, 1] (ip_addr nif0))]"
proof -
  have s: "DnsServer s = \<lparr>DnsSocket = True, DnsName = patch (zeros 32) 0 (dotted ls), HostIp = ip_addr nif0\<rparr>" "socket_live s" "heap s = []"
    using assms(1-3) by (auto simp: DNSS_Start_def zero_dns_server_def Let_def labels_ok_def split: if_splits)
  have "of_le16 (drop 2 [0, 1, 0, 1]) = ntohs DNS_RRCLASS_IN" by (simp add: of_le16_def ntohs_def le16_def)
  then show ?thesis
    using recv_own_name [of s ls tid counts "[0, 1, 0, 1]" flag1 nif rest dst port] s assms(3-6) by simp
qed

theorem dns_answers_own_name_witness:
  "\<exists>s s'. DNSS_Start (Some \<lparr>netif_up = True, ip_addr = 0x0101A8C0, netmask = 0x00FFFFFF\<rparr>) (Some (dotted own_labels)) dns_started =
       Some (DNSS_ERR_SUCCESS, s) \<and>
     DNSS_RecvCb \<lparr>netif_up = True, ip_addr = 0x0101A8C0, netmask = 0x00FFFFFF\<rparr>
       (dns_query [7, 8] 1 [0, 0, 1, 0, 0, 0, 0, 0, 0] own_labels [0, 1, 0, 1] []) 0x0201A8C0 5353 s = Some s'"
proof -
  let ?n = "\<lparr>netif_up = True, ip_addr = 0x0101A8C0, netmask = 0x00FFFFFF\<rparr>"
  obtain s where s: "DNSS_Start (Some ?n) (Some (dotted own_labels)) dns_started = Some (DNSS_ERR_SUCCESS, s)"
    by (simp add: DNSS_Start_def dns_started_def own_labels_def Let_def)
  show ?thesis
    using dns_answers_own_name [OF s _ own_labels_ok, of "[7, 8]" "[0, 0, 1, 0, 0, 0, 0, 0, 0]" 1 ?n "[]" "0x0201A8C0" 5353] s
    by (auto simp: dns_started_def)
qed

text \<open>A query of another type, such as AAAA, for the own name is answered too, with a record of type A.\<close>

theorem dns_other_type_answered:
  assumes "heap s = []" "DnsSocket (DnsServer s)" "socket_live s" "labels_ok ls" "DnsName (DnsServer s) = patch (zeros 32) 0 (dotted ls)"
    and "length tid = 2" "length counts = 9" "flag1 AND 0xF8 = 0" "(t1, t2) \<noteq> (0, 1)"
  shows "\<exists>s'. DNSS_RecvCb nif (dns_query tid flag1 counts ls [t1, t2, 0, 1] rest) dst port s = Some s' \<and>
    dns_sent s' = dns_sent s @ [(dst, port, dns_answer tid ls [t1, t2, 0, 1] (HostIp (DnsServer s)))]"
proof -
  have "of_le16 (drop 2 [t1, t2, 0, 1]) = ntohs DNS_RRCLASS_IN" by (simp add: of_le16_def ntohs_def le16_def)
  then show ?thesis
    using recv_own_name [of s ls tid counts "[t1, t2, 0, 1]" flag1 nif rest dst port] assms by simp
qed

theorem dns_other_type_answered_witness:
  "\<exists>s'. DNSS_RecvCb \<lparr>netif_up = True, ip_addr = 0x0101A8C0, netmask = 0x00FFFFFF\<rparr>
       (dns_query [7, 8] 1 [0, 0, 1, 0, 0, 0, 0, 0, 0] own_labels [0, 28, 0, 1] []) 0x0201A8C0 5353 dns_started = Some s' \<and>
     length (dns_sent s') = 1"
  using dns_other_type_answered [of dns_started own_labels "[7, 8]" "[0, 0, 1, 0, 0, 0, 0, 0, 0]" 1 0 28
      "\<lparr>netif_up = True, ip_addr = 0x0101A8C0, netmask = 0x00FFFFFF\<rparr>" "[]" "0x0201A8C0" 5353] own_labels_ok
  by (auto simp: dns_started_def)

end
