(* ===== verification/Mmio.thy ===== *)
theory Mmio
  imports Prelude
begin

text \<open>
  Peripherals as the drivers see them: registers at addresses, read and written by
  \<open>tls_reg_read32\<close> and \<open>tls_reg_write32\<close> of \<^verbatim>\<open>src/Include/wm_regs.h\<close>, and the interrupt controller. The
  hardware is a parameter, the record \<open>mmio\<close> over a state of any type: reading a register may change the
  hardware. The contract \<open>mmio_regs\<close> is that of registers that are plain storage. On top of it, the clocks
  of \<^verbatim>\<open>src/Platform/Drivers/cpu/wm_cpu.c\<close>.
\<close>

section \<open>Registers\<close>

record 'h mmio =
  reg_read :: "nat \<Rightarrow> 'h \<Rightarrow> u32 \<times> 'h"
  reg_write :: "nat \<Rightarrow> u32 \<Rightarrow> 'h \<Rightarrow> 'h"
  irq_set :: "nat \<Rightarrow> bool \<Rightarrow> 'h \<Rightarrow> 'h"

record 'h hw_state = os_state +
  hw :: 'h

definition tls_reg_read32 :: "'h mmio \<Rightarrow> nat \<Rightarrow> ('h, 'z) hw_state_scheme \<Rightarrow> u32 \<times> ('h, 'z) hw_state_scheme" where
  "tls_reg_read32 m reg s = (let (val, h) = reg_read m reg (hw s) in (val, s\<lparr>hw := h\<rparr>))"

definition tls_reg_write32 :: "'h mmio \<Rightarrow> nat \<Rightarrow> u32 \<Rightarrow> ('h, 'z) hw_state_scheme \<Rightarrow> ('h, 'z) hw_state_scheme" where
  "tls_reg_write32 m reg val s = s\<lparr>hw := reg_write m reg val (hw s)\<rparr>"

text \<open>An assignment like \<open>*reg |= x\<close>: a read, then a write.\<close>

definition reg_update :: "'h mmio \<Rightarrow> nat \<Rightarrow> (u32 \<Rightarrow> u32) \<Rightarrow> ('h, 'z) hw_state_scheme \<Rightarrow> ('h, 'z) hw_state_scheme" where
  "reg_update m reg f s = (let (val, s) = tls_reg_read32 m reg s in tls_reg_write32 m reg (f val) s)"

text \<open>\<open>NVIC_ClearPendingIRQ\<close> and \<open>NVIC_Configration\<close> are the interrupt controller, part of the hardware.\<close>

definition tls_irq_enable :: "'h mmio \<Rightarrow> nat \<Rightarrow> ('h, 'z) hw_state_scheme \<Rightarrow> ('h, 'z) hw_state_scheme" where
  "tls_irq_enable m vec_no s = s\<lparr>hw := irq_set m vec_no True (hw s)\<rparr>"

definition tls_irq_disable :: "'h mmio \<Rightarrow> nat \<Rightarrow> ('h, 'z) hw_state_scheme \<Rightarrow> ('h, 'z) hw_state_scheme" where
  "tls_irq_disable m vec_no s = s\<lparr>hw := irq_set m vec_no False (hw s)\<rparr>"

section \<open>Registers that are storage\<close>

text \<open>
  \<open>regs\<close> are the addresses of registers that read back what was written last, \<open>val\<close> their contents; no other
  access changes them.
\<close>

locale mmio_regs =
  fixes m :: "'h mmio" and regs :: "nat set" and val :: "'h \<Rightarrow> nat \<Rightarrow> u32"
  assumes read_val: "r \<in> regs \<Longrightarrow> fst (reg_read m r h) = val h r"
    and read_keeps: "a \<in> regs \<Longrightarrow> val (snd (reg_read m r h)) a = val h a"
    and write_val: "r \<in> regs \<Longrightarrow> a \<in> regs \<Longrightarrow> val (reg_write m r v h) a = (if a = r then v else val h a)"
    and write_keeps: "r \<notin> regs \<Longrightarrow> a \<in> regs \<Longrightarrow> val (reg_write m r v h) a = val h a"
    and irq_keeps: "a \<in> regs \<Longrightarrow> val (irq_set m n b h) a = val h a"
begin

lemma read32:
  assumes "r \<in> regs"
  obtains h' where "tls_reg_read32 m r s = (val (hw s) r, s\<lparr>hw := h'\<rparr>)" "\<And>a. a \<in> regs \<Longrightarrow> val h' a = val (hw s) a"
proof -
  have "tls_reg_read32 m r s = (val (hw s) r, s\<lparr>hw := snd (reg_read m r (hw s))\<rparr>)"
    by (simp add: tls_reg_read32_def case_prod_beta read_val [OF assms])
  then show thesis using that read_keeps by blast
qed

lemma write32:
  assumes "r \<in> regs" "a \<in> regs"
  shows "val (hw (tls_reg_write32 m r v s)) a = (if a = r then v else val (hw s) a)"
  using write_val [OF assms] by (simp add: tls_reg_write32_def)

lemma update32:
  assumes "r \<in> regs" "a \<in> regs"
  shows "val (hw (reg_update m r f s)) a = (if a = r then f (val (hw s) r) else val (hw s) a)"
  using assms by (simp add: reg_update_def tls_reg_read32_def case_prod_beta write32 read_val read_keeps)

lemma irq32:
  assumes "a \<in> regs"
  shows "val (hw (tls_irq_enable m n s)) a = val (hw s) a" "val (hw (tls_irq_disable m n s)) a = val (hw s) a"
  using irq_keeps [OF assms] by (simp_all add: tls_irq_enable_def tls_irq_disable_def)

end

section \<open>The clocks\<close>

abbreviation (input) HR_CLK_DIV_CTL :: nat where "HR_CLK_DIV_CTL \<equiv> 0x40000710"
abbreviation (input) CPU_CLK_40M :: u32 where "CPU_CLK_40M \<equiv> 1"
abbreviation (input) W600_PLL_CLK_MHZ :: u32 where "W600_PLL_CLK_MHZ \<equiv> 160"

record tls_sys_clk =
  apbclk :: u32
  cpuclk :: u32
  wlanclk :: u32

definition tls_sys_clk_set :: "'h mmio \<Rightarrow> u32 \<Rightarrow> ('h, 'z) hw_state_scheme \<Rightarrow> ('h, 'z) hw_state_scheme" where
  "tls_sys_clk_set m clk s =
     (let (RegValue, s) = tls_reg_read32 m HR_CLK_DIV_CTL s;
          wlanDiv = drop_bit 4 RegValue AND 0x0F;
          RegValue = RegValue AND 0xFFFFF000;
          RegValue = RegValue OR 0x80000000;
          cpuDiv = (if clk = CPU_CLK_40M then 4 else 2);
          RegValue = RegValue OR (push_bit 8 (wlanDiv * 4 div cpuDiv) OR push_bit 4 wlanDiv OR cpuDiv)
      in tls_reg_write32 m HR_CLK_DIV_CTL RegValue s)"

text \<open>A division by zero is \<open>None\<close>.\<close>

definition tls_sys_clk_get :: "'h mmio \<Rightarrow> ('h, 'z) hw_state_scheme \<Rightarrow> (tls_sys_clk \<times> ('h, 'z) hw_state_scheme) option" where
  "tls_sys_clk_get m s =
     (let (val, s) = tls_reg_read32 m HR_CLK_DIV_CTL s in
      if drop_bit 4 val AND 0x0F = 0 \<or> val AND 0x0F = 0 then None
      else Some (\<lparr>apbclk = W600_PLL_CLK_MHZ div 4 div (drop_bit 4 val AND 0x0F),
                  cpuclk = W600_PLL_CLK_MHZ div (val AND 0x0F),
                  wlanclk = W600_PLL_CLK_MHZ div (drop_bit 4 val AND 0x0F)\<rparr>, s))"

text \<open>Setting the clock of the processor leaves the fields of the divider that the other clocks use.\<close>

lemma nibbles_of_divider:
  fixes w c r :: u32
  assumes "r AND 0xFFF = 0" "w AND 0xF = w" "c = 2 \<or> c = 4"
  shows "drop_bit 4 (r OR (push_bit 8 (w * 4 div c) OR push_bit 4 w OR c)) AND 0xF = w"
    and "(r OR (push_bit 8 (w * 4 div c) OR push_bit 4 w OR c)) AND 0xF = c"
proof -
  have r: "\<not> bit r n" if "n < 12" for n
  proof -
    have "bit (r AND 0xFFF) n = (bit r n \<and> bit (mask 12 :: u32) n)"
      by (simp add: bit_and_iff mask_eq_exp_minus_1)
    then show ?thesis using that assms(1) by (simp add: bit_mask_iff)
  qed
  have m: "(0xF :: u32) = mask 4" by (simp add: mask_eq_exp_minus_1)
  have w: "bit w n \<Longrightarrow> n < 4" for n
    using assms(2) unfolding m by (metis bit_and_iff bit_mask_iff)
  have "c AND 0xF = c" using assms(3) by auto
  then have c: "bit c n \<Longrightarrow> n < 4" for n
    unfolding m by (metis bit_and_iff bit_mask_iff)
  show "drop_bit 4 (r OR (push_bit 8 (w * 4 div c) OR push_bit 4 w OR c)) AND 0xF = w"
    unfolding m using r by (auto simp: bit_eq_iff bit_simps dest: w c)
  show "(r OR (push_bit 8 (w * 4 div c) OR push_bit 4 w OR c)) AND 0xF = c"
    unfolding m using r by (auto simp: bit_eq_iff bit_simps dest: w c)
qed

context mmio_regs
begin

text \<open>The clocks that are read are those that were set, where the divider register is storage.\<close>

lemma tls_sys_clk_set_get:
  assumes "HR_CLK_DIV_CTL \<in> regs" and w: "w = drop_bit 4 (val (hw s) HR_CLK_DIV_CTL) AND 0xF" and "w \<noteq> 0"
  shows "\<exists>h. tls_sys_clk_get m (tls_sys_clk_set m clk s)
           = Some (\<lparr>apbclk = 40 div w, cpuclk = (if clk = CPU_CLK_40M then 40 else 80), wlanclk = 160 div w\<rparr>, s\<lparr>hw := h\<rparr>)"
proof -
  have ww: "w AND 0xF = w" unfolding w by (simp add: and.assoc)
  have r: "((v AND 0xFFFFF000) OR 0x80000000) AND 0xFFF = 0" for v :: u32
    by (simp add: bit.conj_disj_distrib2 and.assoc)
  define c :: u32 where "c = (if clk = CPU_CLK_40M then 4 else 2)"
  define x where "x = ((val (hw s) HR_CLK_DIV_CTL AND 0xFFFFF000) OR 0x80000000)
    OR (push_bit 8 (w * 4 div c) OR push_bit 4 w OR c)"
  have x: "drop_bit 4 x AND 0xF = w" "x AND 0xF = c"
    unfolding x_def by (rule nibbles_of_divider [OF r ww]; simp add: c_def)+
  have "hw (tls_sys_clk_set m clk s) = reg_write m HR_CLK_DIV_CTL x (snd (reg_read m HR_CLK_DIV_CTL (hw s)))"
    unfolding tls_sys_clk_set_def x_def c_def tls_reg_read32_def tls_reg_write32_def case_prod_beta
      read_val [OF assms(1)] w Let_def by simp
  then have "tls_sys_clk_set m clk s
      = s\<lparr>hw := reg_write m HR_CLK_DIV_CTL x (snd (reg_read m HR_CLK_DIV_CTL (hw s)))\<rparr>"
    by (simp add: tls_sys_clk_set_def tls_reg_read32_def tls_reg_write32_def case_prod_beta Let_def)
  then show ?thesis
    using x assms(3) by (simp add: tls_sys_clk_get_def tls_reg_read32_def case_prod_beta
        read_val [OF assms(1)] write_val [OF assms(1) assms(1)] c_def) blast
qed

end

end
