(* ===== verification/Dma.thy ===== *)
theory Dma
  imports Mmio
begin

text \<open>
  The DMA driver, \<^verbatim>\<open>src/Platform/Drivers/dma/wm_dma.c\<close>: the table of channels in use, the
  callbacks of the channels, and the interrupt handlers that call them. Memory is named by addresses;
  a callback is an element of \<open>'f\<close>, and calling it is the argument \<open>call\<close>, which may do anything. \<open>None\<close>
  stands for an access outside \<open>dma_context\<close> or \<open>channels\<close>, through a null pointer, for a shift by more than the
  width of an \<open>int\<close>, and for a wait that does not end.
\<close>

section \<open>Data\<close>

abbreviation (input) DMA_INTMASK_REG :: nat where "DMA_INTMASK_REG \<equiv> 0x40000400"
abbreviation (input) DMA_INTSRC_REG :: nat where "DMA_INTSRC_REG \<equiv> 0x40000404"
abbreviation (input) DMA_CHNL_REG_BASE :: nat where "DMA_CHNL_REG_BASE \<equiv> 0x40000410"

definition DMA_SRCADDR_REG :: "nat \<Rightarrow> nat" where "DMA_SRCADDR_REG ch = DMA_CHNL_REG_BASE + 0x30 * ch"
definition DMA_DESTADDR_REG :: "nat \<Rightarrow> nat" where "DMA_DESTADDR_REG ch = DMA_CHNL_REG_BASE + 0x30 * ch + 0x04"
definition DMA_SRCWRAPADDR_REG :: "nat \<Rightarrow> nat" where "DMA_SRCWRAPADDR_REG ch = DMA_CHNL_REG_BASE + 0x30 * ch + 0x08"
definition DMA_DESTWRAPADDR_REG :: "nat \<Rightarrow> nat" where "DMA_DESTWRAPADDR_REG ch = DMA_CHNL_REG_BASE + 0x30 * ch + 0x0C"
definition DMA_WRAPSIZE_REG :: "nat \<Rightarrow> nat" where "DMA_WRAPSIZE_REG ch = DMA_CHNL_REG_BASE + 0x30 * ch + 0x10"
definition DMA_CHNLCTRL_REG :: "nat \<Rightarrow> nat" where "DMA_CHNLCTRL_REG ch = DMA_CHNL_REG_BASE + 0x30 * ch + 0x14"
definition DMA_MODE_REG :: "nat \<Rightarrow> nat" where "DMA_MODE_REG ch = DMA_CHNL_REG_BASE + 0x30 * ch + 0x18"
definition DMA_CTRL_REG :: "nat \<Rightarrow> nat" where "DMA_CTRL_REG ch = DMA_CHNL_REG_BASE + 0x30 * ch + 0x1C"

lemmas dma_regs = DMA_SRCADDR_REG_def DMA_DESTADDR_REG_def DMA_SRCWRAPADDR_REG_def DMA_DESTWRAPADDR_REG_def
  DMA_WRAPSIZE_REG_def DMA_CHNLCTRL_REG_def DMA_MODE_REG_def DMA_CTRL_REG_def

abbreviation (input) DMA_CHNL_CTRL_CHNL_ON :: u32 where "DMA_CHNL_CTRL_CHNL_ON \<equiv> 1"
abbreviation (input) DMA_CHNL_CTRL_CHNL_OFF :: u32 where "DMA_CHNL_CTRL_CHNL_OFF \<equiv> 2"
abbreviation (input) TLS_DMA_FLAGS_HARD_MODE :: u8 where "TLS_DMA_FLAGS_HARD_MODE \<equiv> 1"
abbreviation (input) TLS_DMA_FLAGS_CHANNEL_VALID :: u8 where "TLS_DMA_FLAGS_CHANNEL_VALID \<equiv> 0x80"
abbreviation (input) TLS_DMA_IRQ_BURST_DONE :: u8 where "TLS_DMA_IRQ_BURST_DONE \<equiv> 1"
abbreviation (input) TLS_DMA_IRQ_TRANSFER_DONE :: u8 where "TLS_DMA_IRQ_TRANSFER_DONE \<equiv> 2"
abbreviation (input) TLS_DMA_IRQ_BOTH_DONE :: u8 where "TLS_DMA_IRQ_BOTH_DONE \<equiv> 3"
abbreviation (input) DMA0_INT :: nat where "DMA0_INT \<equiv> 13"

record 'f dma_irq_context =
  dc_flags :: u8
  burst_done_pf :: "'f option"
  burst_done_priv :: u32
  transfer_done_pf :: "'f option"
  transfer_done_priv :: u32

record tls_dma_descriptor =
  desc_valid :: u32
  dma_ctrl :: u32
  src_addr :: u32
  dest_addr :: u32

record ('h, 'f) dma_state = "'h hw_state" +
  dma_context :: "'f dma_irq_context list"
  dma_channels :: "u8 list"

text \<open>The static variables before anything runs.\<close>

definition dma_context_0 :: "'f dma_irq_context" where
  "dma_context_0 = \<lparr>dc_flags = 0, burst_done_pf = None, burst_done_priv = 0, transfer_done_pf = None, transfer_done_priv = 0\<rparr>"

section \<open>Interrupts\<close>

definition tls_dma_irq_clr :: "'h mmio \<Rightarrow> nat \<Rightarrow> u8 \<Rightarrow> ('h, 'f, 'z) dma_state_scheme \<Rightarrow> ('h, 'f, 'z) dma_state_scheme option" where
  "tls_dma_irq_clr m ch flags s =
     (if 2 * ch \<ge> 32 then None
      else Some (tls_reg_write32 m DMA_INTSRC_REG (push_bit (2 * ch) (ucast flags)) s))"

definition tls_dma_irq_register ::
    "'h mmio \<Rightarrow> nat \<Rightarrow> 'f option \<Rightarrow> u32 \<Rightarrow> u8 \<Rightarrow> ('h, 'f, 'z) dma_state_scheme \<Rightarrow> ('h, 'f, 'z) dma_state_scheme option" where
  "tls_dma_irq_register m ch callback a flags s =
     (if ch \<ge> length (dma_context s) then None
      else (let (mask, s) = tls_reg_read32 m DMA_INTMASK_REG s;
                mask = mask OR push_bit (2 * ch) (ucast TLS_DMA_IRQ_BOTH_DONE);
                mask = mask AND NOT (push_bit (2 * ch) (ucast flags));
                s = tls_reg_write32 m DMA_INTMASK_REG mask s;
                c = (dma_context s ! ch)\<lparr>dc_flags := flags\<rparr>;
                c = (if flags AND TLS_DMA_IRQ_BURST_DONE \<noteq> 0 then c\<lparr>burst_done_pf := callback, burst_done_priv := a\<rparr> else c);
                c = (if flags AND TLS_DMA_IRQ_TRANSFER_DONE \<noteq> 0 then c\<lparr>transfer_done_pf := callback, transfer_done_priv := a\<rparr> else c);
                s = s\<lparr>dma_context := (dma_context s)[ch := c]\<rparr>
            in Some (tls_irq_enable m (DMA0_INT + (if ch > 3 then 4 else ch)) s)))"

text \<open>Which of the channels from \<open>ch\<close> on has an event in \<open>int_src\<close>; 8 if none has.\<close>

fun first_event :: "u32 \<Rightarrow> nat list \<Rightarrow> nat" where
  "first_event int_src [] = 8"
| "first_event int_src (ch # r) = (if int_src AND push_bit (2 * ch) 3 \<noteq> 0 then ch else first_event int_src r)"

definition run_pf ::
    "('f \<Rightarrow> u32 \<Rightarrow> ('h, 'f, 'z) dma_state_scheme \<Rightarrow> ('h, 'f, 'z) dma_state_scheme) \<Rightarrow> 'f option \<Rightarrow> u32 \<Rightarrow>
       ('h, 'f, 'z) dma_state_scheme \<Rightarrow> ('h, 'f, 'z) dma_state_scheme" where
  "run_pf call pf priv s = (case pf of None \<Rightarrow> s | Some f \<Rightarrow> call f priv s)"

definition dma_irq_proc ::
    "'h mmio \<Rightarrow> ('f \<Rightarrow> u32 \<Rightarrow> ('h, 'f, 'z) dma_state_scheme \<Rightarrow> ('h, 'f, 'z) dma_state_scheme) \<Rightarrow> nat \<Rightarrow>
       ('h, 'f, 'z) dma_state_scheme \<Rightarrow> ('h, 'f, 'z) dma_state_scheme option" where
  "dma_irq_proc m call p s =
     (let (int_src, s) = tls_reg_read32 m DMA_INTSRC_REG s;
          ch = (if p > 3 then first_event int_src [4, 5, 6, 7] else p)
      in if ch = 8 then Some s
         else if ch \<ge> length (dma_context s) then None
         else (let c = dma_context s ! ch in
           if int_src AND push_bit (2 * ch) 3 \<noteq> 0 \<and> dc_flags c = TLS_DMA_IRQ_BOTH_DONE
           then do { s \<leftarrow> tls_dma_irq_clr m ch TLS_DMA_IRQ_BOTH_DONE s;
                     Some (run_pf call (burst_done_pf c) (burst_done_priv c) s) }
           else if int_src AND push_bit (2 * ch) 1 \<noteq> 0 \<and> dc_flags c = TLS_DMA_IRQ_BURST_DONE
           then do { s \<leftarrow> tls_dma_irq_clr m ch TLS_DMA_IRQ_BOTH_DONE s;
                     Some (run_pf call (burst_done_pf c) (burst_done_priv c) s) }
           else if int_src AND push_bit (2 * ch) 2 \<noteq> 0 \<and> dc_flags c = TLS_DMA_IRQ_TRANSFER_DONE
           then do { s \<leftarrow> tls_dma_irq_clr m ch TLS_DMA_IRQ_BOTH_DONE s;
                     Some (run_pf call (transfer_done_pf c) (transfer_done_priv c) s) }
           else Some s))"

definition DMA_Channel0_IRQHandler where "DMA_Channel0_IRQHandler m call s = dma_irq_proc m call 0 s"
definition DMA_Channel1_IRQHandler where "DMA_Channel1_IRQHandler m call s = dma_irq_proc m call 1 s"
definition DMA_Channel2_IRQHandler where "DMA_Channel2_IRQHandler m call s = dma_irq_proc m call 2 s"
definition DMA_Channel3_IRQHandler where "DMA_Channel3_IRQHandler m call s = dma_irq_proc m call 3 s"
definition DMA_Channel4_7_IRQHandler where "DMA_Channel4_7_IRQHandler m call s = dma_irq_proc m call 4 s"

section \<open>Transfers\<close>

text \<open>The loop of \<open>tls_dma_wait_complt\<close>; \<open>delay\<close> is \<open>tls_os_time_delay(1)\<close>, in which other tasks and the hardware run.\<close>

function wait_complt ::
    "'h mmio \<Rightarrow> (('h, 'f, 'z) dma_state_scheme \<Rightarrow> ('h, 'f, 'z) dma_state_scheme) \<Rightarrow> nat \<Rightarrow> nat \<Rightarrow>
       ('h, 'f, 'z) dma_state_scheme \<Rightarrow> int \<times> ('h, 'f, 'z) dma_state_scheme" where
  "wait_complt m delay ch timeout s =
     (let (v, s) = tls_reg_read32 m (DMA_CHNLCTRL_REG ch) s in
      if v AND DMA_CHNL_CTRL_CHNL_ON = 0 then (0, s)
      else (let s = delay s; timeout = timeout + 1 in
            if timeout > 500 then (-1, s) else wait_complt m delay ch timeout s))"
  by pat_completeness auto
termination by (relation "measure (\<lambda>(m, d, ch, timeout, s). 501 - timeout)") auto

declare wait_complt.simps [simp del]

definition tls_dma_wait_complt ::
    "'h mmio \<Rightarrow> (('h, 'f, 'z) dma_state_scheme \<Rightarrow> ('h, 'f, 'z) dma_state_scheme) \<Rightarrow> nat \<Rightarrow>
       ('h, 'f, 'z) dma_state_scheme \<Rightarrow> int \<times> ('h, 'f, 'z) dma_state_scheme" where
  "tls_dma_wait_complt m delay ch s = wait_complt m delay ch 0 s"

definition tls_dma_start_by_wrap ::
    "'h mmio \<Rightarrow> nat \<Rightarrow> tls_dma_descriptor option \<Rightarrow> u8 \<Rightarrow> u16 \<Rightarrow> u16 \<Rightarrow> ('h, 'f, 'z) dma_state_scheme \<Rightarrow>
       (u8 \<times> ('h, 'f, 'z) dma_state_scheme) option" where
  "tls_dma_start_by_wrap m ch dma_desc auto_reload src_zize dest_zize s =
     (case dma_desc of
        None \<Rightarrow> if ch > 7 then Some (1, s) else None
      | Some d \<Rightarrow>
         (let s = tls_reg_write32 m (DMA_SRCWRAPADDR_REG ch) (src_addr d) s;
              s = tls_reg_write32 m (DMA_DESTWRAPADDR_REG ch) (dest_addr d) s;
              s = tls_reg_write32 m (DMA_WRAPSIZE_REG ch) (push_bit 16 (ucast dest_zize) OR ucast src_zize) s;
              s = tls_reg_write32 m (DMA_CTRL_REG ch)
                    (push_bit 1 (dma_ctrl d AND 0x1ffff) OR (if auto_reload \<noteq> 0 then 1 else 0)) s;
              s = reg_update m (DMA_CHNLCTRL_REG ch) (\<lambda>v. v OR DMA_CHNL_CTRL_CHNL_ON) s
          in Some (0, s)))"

definition tls_dma_start ::
    "'h mmio \<Rightarrow> nat \<Rightarrow> tls_dma_descriptor option \<Rightarrow> u8 \<Rightarrow> ('h, 'f, 'z) dma_state_scheme \<Rightarrow>
       (u8 \<times> ('h, 'f, 'z) dma_state_scheme) option" where
  "tls_dma_start m ch dma_desc auto_reload s =
     (case dma_desc of
        None \<Rightarrow> if ch > 7 then Some (1, s) else None
      | Some d \<Rightarrow>
         (let s = tls_reg_write32 m (DMA_SRCADDR_REG ch) (src_addr d) s;
              s = tls_reg_write32 m (DMA_DESTADDR_REG ch) (dest_addr d) s;
              s = tls_reg_write32 m (DMA_CTRL_REG ch)
                    (push_bit 1 (dma_ctrl d AND 0x7fffff) OR (if auto_reload \<noteq> 0 then 1 else 0)) s;
              s = reg_update m (DMA_CHNLCTRL_REG ch) (\<lambda>v. v OR DMA_CHNL_CTRL_CHNL_ON) s
          in Some (0, s)))"

partial_function (option) stop_wait ::
    "'h mmio \<Rightarrow> nat \<Rightarrow> ('h, 'f, 'z) dma_state_scheme \<Rightarrow> ('h, 'f, 'z) dma_state_scheme option" where
  "stop_wait m ch s =
     (let (v, s) = tls_reg_read32 m (DMA_CHNLCTRL_REG ch) s in
      if v AND DMA_CHNL_CTRL_CHNL_ON = 0 then Some s else stop_wait m ch s)"

definition tls_dma_stop :: "'h mmio \<Rightarrow> nat \<Rightarrow> ('h, 'f, 'z) dma_state_scheme \<Rightarrow> (u8 \<times> ('h, 'f, 'z) dma_state_scheme) option" where
  "tls_dma_stop m ch s =
     (if ch > 7 then Some (1, s)
      else (let (v, s) = tls_reg_read32 m (DMA_CHNLCTRL_REG ch) s in
            if v AND DMA_CHNL_CTRL_CHNL_ON \<noteq> 0
            then do {
              let s = reg_update m (DMA_CHNLCTRL_REG ch) (\<lambda>v. v OR DMA_CHNL_CTRL_CHNL_OFF) s;
              s \<leftarrow> stop_wait m ch s;
              Some (0, s)
            }
            else Some (0, s)))"

section \<open>Channels\<close>

text \<open>The search for a free channel: the loop ends with \<open>i\<close> at the free channel or at 8.\<close>

fun free_channel :: "u8 list \<Rightarrow> nat \<Rightarrow> nat option" where
  "free_channel [] i = None"
| "free_channel (c # r) i = (if c AND TLS_DMA_FLAGS_CHANNEL_VALID = 0 then Some i else free_channel r (i + 1))"

definition tls_dma_request ::
    "'h mmio \<Rightarrow> nat \<Rightarrow> u8 \<Rightarrow> ('h, 'f, 'z) dma_state_scheme \<Rightarrow> nat \<times> ('h, 'f, 'z) dma_state_scheme" where
  "tls_dma_request m ch flags s =
     (let freeCh = (if ch = 0 then (case free_channel (dma_channels s) 0 of Some i \<Rightarrow> i | None \<Rightarrow> 0)
                    else if ch < 8
                    then (if dma_channels s ! ch AND TLS_DMA_FLAGS_CHANNEL_VALID = 0 then ch else 0)
                    else 0);
          s = s\<lparr>dma_channels := (dma_channels s)[freeCh := flags OR TLS_DMA_FLAGS_CHANNEL_VALID]\<rparr>;
          s = tls_reg_write32 m (DMA_MODE_REG freeCh) (ucast flags) s
      in (freeCh, s))"

definition tls_dma_free :: "'h mmio \<Rightarrow> nat \<Rightarrow> ('h, 'f, 'z) dma_state_scheme \<Rightarrow> ('h, 'f, 'z) dma_state_scheme option" where
  "tls_dma_free m ch s =
     (if ch < 8
      then do {
        (r, s) \<leftarrow> tls_dma_stop m ch s;
        let s = tls_reg_write32 m (DMA_SRCADDR_REG ch) 0 s;
        let s = tls_reg_write32 m (DMA_DESTADDR_REG ch) 0 s;
        let s = tls_reg_write32 m (DMA_MODE_REG ch) 0 s;
        let s = tls_reg_write32 m (DMA_CTRL_REG ch) 0 s;
        let s = reg_update m DMA_INTSRC_REG (\<lambda>v. v OR push_bit (ch * 2) 3) s;
        Some (s\<lparr>dma_channels := (dma_channels s)[ch := 0]\<rparr>)
      }
      else Some s)"

definition tls_dma_init :: "'h mmio \<Rightarrow> ('h, 'f, 'z) dma_state_scheme \<Rightarrow> ('h, 'f, 'z) dma_state_scheme" where
  "tls_dma_init m s = tls_reg_write32 m DMA_INTSRC_REG 0xffff (tls_reg_write32 m DMA_INTMASK_REG 0xffff s)"

end
