(* ===== verification/Uart.thy ===== *)
theory Uart
  imports Dma
begin

text \<open>
  The UART driver, \<^verbatim>\<open>src/Platform/Drivers/uart/wm_uart.c\<close>: the three ports with their receive ring buffers
  and their lists of messages to send, the settings of a port, the interrupt handlers, and reading and writing.
  A pointer to a port is its index in the static array \<open>uart_port\<close>. The lists of messages are lists; the
  callback \<open>uart_tx_finish_callback\<close> and the frees behind it only return memory. The user's callbacks are
  elements of \<open>'f\<close>, run by the record \<open>uart_env\<close>, and may do anything. \<open>None\<close> stands for an access outside an
  object or through a null pointer, and for a wait or a loop that does not end.
\<close>

section \<open>Data\<close>

abbreviation (input) TLS_UART_RX_BUF_SIZE :: nat where "TLS_UART_RX_BUF_SIZE \<equiv> 4096"
abbreviation (input) TLS_UART_TX_BUF_SIZE :: nat where "TLS_UART_TX_BUF_SIZE \<equiv> 4096"
abbreviation (input) RX_CACHE_LIMIT :: u32 where "RX_CACHE_LIMIT \<equiv> 128"

abbreviation (input) UR_LC :: nat where "UR_LC \<equiv> 0x00"
abbreviation (input) UR_FC :: nat where "UR_FC \<equiv> 0x04"
abbreviation (input) UR_DMAC :: nat where "UR_DMAC \<equiv> 0x08"
abbreviation (input) UR_FIFOC :: nat where "UR_FIFOC \<equiv> 0x0C"
abbreviation (input) UR_BD :: nat where "UR_BD \<equiv> 0x10"
abbreviation (input) UR_INTM :: nat where "UR_INTM \<equiv> 0x14"
abbreviation (input) UR_INTS :: nat where "UR_INTS \<equiv> 0x18"
abbreviation (input) UR_FIFOS :: nat where "UR_FIFOS \<equiv> 0x1C"
abbreviation (input) UR_TXW :: nat where "UR_TXW \<equiv> 0x20"
abbreviation (input) UR_RXW :: nat where "UR_RXW \<equiv> 0x30"

definition HR_UART_BASE_ADDR :: "nat \<Rightarrow> nat" where
  "HR_UART_BASE_ADDR p = (if p = 0 then 0x40010800 else if p = 1 then 0x40010A00 else 0x40011C00)"

abbreviation (input) ULCON_WL_MASK :: u32 where "ULCON_WL_MASK \<equiv> 0x03"
abbreviation (input) ULCON_STOP_2 :: u32 where "ULCON_STOP_2 \<equiv> 0x04"
abbreviation (input) ULCON_PMD_MASK :: u32 where "ULCON_PMD_MASK \<equiv> 0x18"
abbreviation (input) ULCON_PMD_EN :: u32 where "ULCON_PMD_EN \<equiv> 0x08"
abbreviation (input) ULCON_PMD_ODD :: u32 where "ULCON_PMD_ODD \<equiv> 0x18"
abbreviation (input) ULCON_PMD_EVEN :: u32 where "ULCON_PMD_EVEN \<equiv> 0x08"
abbreviation (input) ULCON_TX_EN :: u32 where "ULCON_TX_EN \<equiv> 0x40"
abbreviation (input) ULCON_RX_EN :: u32 where "ULCON_RX_EN \<equiv> 0x80"
abbreviation (input) UFS_TX_FIFO_CNT_MASK :: u32 where "UFS_TX_FIFO_CNT_MASK \<equiv> 0x3F"
abbreviation (input) UFS_RX_FIFO_CNT_MASK :: u32 where "UFS_RX_FIFO_CNT_MASK \<equiv> 0x3C0"
abbreviation (input) UFS_CST_STS :: u32 where "UFS_CST_STS \<equiv> 0x1000"
abbreviation (input) UIS_RX_FIFO :: u32 where "UIS_RX_FIFO \<equiv> 0x04"
abbreviation (input) UIS_CTS_CHNG :: u32 where "UIS_CTS_CHNG \<equiv> 0x10"
abbreviation (input) UIS_OVERRUN :: u32 where "UIS_OVERRUN \<equiv> 0x100"
abbreviation (input) UART_RX_INT_FLAG :: u32 where "UART_RX_INT_FLAG \<equiv> 0x1EC"
abbreviation (input) UART_RX_ERR_INT_FLAG :: u32 where "UART_RX_ERR_INT_FLAG \<equiv> 0xE0"
abbreviation (input) UART_TX_INT_FLAG :: u32 where "UART_TX_INT_FLAG \<equiv> 0x03"

abbreviation (input) WM_SUCCESS :: int where "WM_SUCCESS \<equiv> 0"
abbreviation (input) WM_FAILED :: int where "WM_FAILED \<equiv> -1"

text \<open>The enumerations are numbers, because callers convert numbers of a stored configuration into them.\<close>

abbreviation (input) TLS_UART_PMODE_DISABLED :: u32 where "TLS_UART_PMODE_DISABLED \<equiv> 0"
abbreviation (input) TLS_UART_PMODE_ODD :: u32 where "TLS_UART_PMODE_ODD \<equiv> 1"
abbreviation (input) TLS_UART_PMODE_EVEN :: u32 where "TLS_UART_PMODE_EVEN \<equiv> 2"
abbreviation (input) TLS_UART_CHSIZE_8BIT :: u32 where "TLS_UART_CHSIZE_8BIT \<equiv> 3"
abbreviation (input) TLS_UART_FLOW_CTRL_NONE :: u32 where "TLS_UART_FLOW_CTRL_NONE \<equiv> 0"
abbreviation (input) TLS_UART_FLOW_CTRL_HARDWARE :: u32 where "TLS_UART_FLOW_CTRL_HARDWARE \<equiv> 1"
abbreviation (input) TLS_UART_RX_DISABLE :: u32 where "TLS_UART_RX_DISABLE \<equiv> 0"
abbreviation (input) TLS_UART_RX_ENABLE :: u32 where "TLS_UART_RX_ENABLE \<equiv> 1"
abbreviation (input) TLS_UART_ONE_STOPBITS :: u32 where "TLS_UART_ONE_STOPBITS \<equiv> 0"
abbreviation (input) TLS_UART_TWO_STOPBITS :: u32 where "TLS_UART_TWO_STOPBITS \<equiv> 1"

record tls_uart_options =
  baudrate :: u32
  charlength :: u32
  paritytype :: u32
  flow_ctrl :: u32
  stopbits :: u32

record tls_uart_circ_buf =
  recv_buf :: "bytes option"
  recv_head :: u32
  recv_tail :: u32

record tls_uart_tx_msg =
  tx_buf :: bytes
  tx_buflen :: u16
  tx_offset :: u16

text \<open>The transmit callback: the driver's own \<open>tls_uart_free_tx_sent_data\<close> or one of the user's.\<close>

datatype 'f tx_callback = Free_sent_data | User_callback 'f

record 'f tls_uart_port =
  uart_no :: u32
  uart_irq_no :: nat
  plus_char_cnt :: u32
  opts :: tls_uart_options
  fcStatus :: u32
  rxstatus :: u32
  tx_fifofull :: u32
  regs :: "nat option"
  icount_tx :: u32
  recv :: tls_uart_circ_buf
  tx_msg_pending :: "tls_uart_tx_msg list"
  tx_msg_to_be_freed :: "tls_uart_tx_msg list"
  hw_stopped :: bool
  tx_sem :: "nat option"
  rx_callback :: "'f option"
  tx_callback :: "'f tx_callback option"
  tx_dma_on :: bool

text \<open>A port after \<open>memset(&uart_port[i], 0, ...)\<close>, which is also how the static array starts.\<close>

definition uart_port_0 :: "'f tls_uart_port" where
  "uart_port_0 = \<lparr>uart_no = 0, uart_irq_no = 0, plus_char_cnt = 0,
     opts = \<lparr>baudrate = 0, charlength = 0, paritytype = 0, flow_ctrl = 0, stopbits = 0\<rparr>,
     fcStatus = 0, rxstatus = 0, tx_fifofull = 0, regs = None, icount_tx = 0,
     recv = \<lparr>recv_buf = None, recv_head = 0, recv_tail = 0\<rparr>, tx_msg_pending = [], tx_msg_to_be_freed = [],
     hw_stopped = False, tx_sem = None, rx_callback = None, tx_callback = None, tx_dma_on = False\<rparr>"

record ('h, 'f) uart_state = "('h, 'f) dma_state" +
  uart_port :: "'f tls_uart_port list"

record ('h, 'f) uart_env =
  io :: "'h mmio"
  run_rx :: "'f \<Rightarrow> u16 \<Rightarrow> ('h, 'f) uart_state \<Rightarrow> ('h, 'f) uart_state"
  run_tx :: "'f \<Rightarrow> nat \<Rightarrow> ('h, 'f) uart_state \<Rightarrow> ('h, 'f) uart_state"

definition port :: "nat \<Rightarrow> ('h, 'f) uart_state \<Rightarrow> 'f tls_uart_port" where
  "port p s = uart_port s ! p"

definition upd_port :: "nat \<Rightarrow> ('f tls_uart_port \<Rightarrow> 'f tls_uart_port) \<Rightarrow> ('h, 'f) uart_state \<Rightarrow> ('h, 'f) uart_state" where
  "upd_port p g s = s\<lparr>uart_port := (uart_port s)[p := g (port p s)]\<rparr>"

text \<open>The registers \<open>port->regs->...\<close>.\<close>

definition ur_read :: "('h, 'f) uart_env \<Rightarrow> nat \<Rightarrow> nat \<Rightarrow> ('h, 'f) uart_state \<Rightarrow> (u32 \<times> ('h, 'f) uart_state) option" where
  "ur_read e p r s = do { base \<leftarrow> regs (port p s); Some (tls_reg_read32 (io e) (base + r) s) }"

definition ur_write :: "('h, 'f) uart_env \<Rightarrow> nat \<Rightarrow> nat \<Rightarrow> u32 \<Rightarrow> ('h, 'f) uart_state \<Rightarrow> ('h, 'f) uart_state option" where
  "ur_write e p r v s = do { base \<leftarrow> regs (port p s); Some (tls_reg_write32 (io e) (base + r) v s) }"

definition ur_update :: "('h, 'f) uart_env \<Rightarrow> nat \<Rightarrow> nat \<Rightarrow> (u32 \<Rightarrow> u32) \<Rightarrow> ('h, 'f) uart_state \<Rightarrow> ('h, 'f) uart_state option" where
  "ur_update e p r f s = do { base \<leftarrow> regs (port p s); Some (reg_update (io e) (base + r) f s) }"

text \<open>\<open>CIRC_CNT\<close> and \<open>CIRC_SPACE\<close> with the size of the receive buffer.\<close>

definition CIRC_CNT :: "u32 \<Rightarrow> u32 \<Rightarrow> u32" where
  "CIRC_CNT head tail = (head - tail) AND 4095"

definition CIRC_SPACE :: "u32 \<Rightarrow> u32 \<Rightarrow> u32" where
  "CIRC_SPACE head tail = CIRC_CNT tail (head + 1)"

section \<open>Settings\<close>

text \<open>The divider for a baud rate: its integer part less one, and sixteenths in the upper half.\<close>

definition baud_divider :: "u32 \<Rightarrow> u32 \<Rightarrow> u32" where
  "baud_divider apb_hz baud =
     (apb_hz div (16 * baud) - 1) OR push_bit 16 ((apb_hz mod (baud * 16)) * 16 div (baud * 16))"

definition Uart0Init :: "('h, 'f) uart_env \<Rightarrow> ('h, 'f) uart_state \<Rightarrow> ('h, 'f) uart_state option" where
  "Uart0Init e s = do {
     (sysclk, s) \<leftarrow> tls_sys_clk_get (io e) s;
     let w = (\<lambda>r v. tls_reg_write32 (io e) (HR_UART_BASE_ADDR 0 + r) v);
     Some (w UR_INTM 0xFF (w UR_FIFOC 0 (w UR_DMAC 0 (w UR_FC 0 (w UR_LC 0x43
       (w UR_BD (baud_divider (apbclk sysclk * 1000000) 115200) s))))))
   }"

definition UartRegInit :: "('h, 'f) uart_env \<Rightarrow> nat \<Rightarrow> ('h, 'f) uart_state \<Rightarrow> ('h, 'f) uart_state option" where
  "UartRegInit e p s = do {
     (sysclk, s) \<leftarrow> tls_sys_clk_get (io e) s;
     let w = (\<lambda>r v. tls_reg_write32 (io e) (HR_UART_BASE_ADDR p + r) v);
     Some (if p = 0
           then w UR_INTM 0xFF (w UR_FIFOC 0 (w UR_DMAC 0 (w UR_FC 0 (w UR_LC 0x43
                  (w UR_BD (baud_divider (apbclk sysclk * 1000000) 115200) s)))))
           else if p = 1 \<or> p = 2
           then w UR_INTM (NOT 0x0C) (w UR_DMAC 0x44 (w UR_FIFOC 0x24 s))
           else s)
   }"

definition baud_rates :: "u32 list" where
  "baud_rates = [2000000, 1500000, 1250000, 1000000, 921600, 460800, 230400, 115200, 57600, 38400,
     19200, 9600, 4800, 2400, 1800, 1200, 600]"

definition tls_uart_check_baudrate :: "u32 \<Rightarrow> int" where
  "tls_uart_check_baudrate b = (if b \<in> set baud_rates then 1 else -1)"

definition tls_uart_get_baud_rate :: "nat option \<Rightarrow> ('h, 'f) uart_state \<Rightarrow> u32" where
  "tls_uart_get_baud_rate p s =
     (case p of None \<Rightarrow> 0 | Some p \<Rightarrow> if regs (port p s) \<noteq> None then baudrate (opts (port p s)) else 0)"

definition tls_uart_set_baud_rate_inside ::
    "('h, 'f) uart_env \<Rightarrow> nat \<Rightarrow> u32 \<Rightarrow> ('h, 'f) uart_state \<Rightarrow> (int \<times> ('h, 'f) uart_state) option" where
  "tls_uart_set_baud_rate_inside e p b s =
     (if tls_uart_check_baudrate b < 0 then Some (WM_FAILED, s)
      else do {
        (sysclk, s) \<leftarrow> tls_sys_clk_get (io e) s;
        s \<leftarrow> ur_write e p UR_BD (baud_divider (apbclk sysclk * 1000000) b) s;
        Some (WM_SUCCESS, upd_port p (\<lambda>q. q\<lparr>opts := (opts q)\<lparr>baudrate := b\<rparr>\<rparr>) s)
      })"

definition tls_uart_set_parity_inside ::
    "('h, 'f) uart_env \<Rightarrow> nat option \<Rightarrow> u32 \<Rightarrow> ('h, 'f) uart_state \<Rightarrow> (int \<times> ('h, 'f) uart_state) option" where
  "tls_uart_set_parity_inside e p par s =
     (case p of
        None \<Rightarrow> Some (WM_FAILED, s)
      | Some p \<Rightarrow>
         (let s = upd_port p (\<lambda>q. q\<lparr>opts := (opts q)\<lparr>paritytype := par\<rparr>\<rparr>) s in
          if par = TLS_UART_PMODE_DISABLED
          then do { s \<leftarrow> ur_update e p UR_LC (\<lambda>v. v AND NOT ULCON_PMD_EN) s; Some (WM_SUCCESS, s) }
          else if par = TLS_UART_PMODE_EVEN
          then do { s \<leftarrow> ur_update e p UR_LC (\<lambda>v. v AND NOT ULCON_PMD_MASK) s;
                    s \<leftarrow> ur_update e p UR_LC (\<lambda>v. v OR ULCON_PMD_EVEN) s; Some (WM_SUCCESS, s) }
          else if par = TLS_UART_PMODE_ODD
          then do { s \<leftarrow> ur_update e p UR_LC (\<lambda>v. v AND NOT ULCON_PMD_MASK) s;
                    s \<leftarrow> ur_update e p UR_LC (\<lambda>v. v OR ULCON_PMD_ODD) s; Some (WM_SUCCESS, s) }
          else Some (WM_FAILED, s)))"

definition tls_uart_get_parity :: "nat \<Rightarrow> ('h, 'f) uart_state \<Rightarrow> u32" where
  "tls_uart_get_parity p s = paritytype (opts (port p s))"

definition tls_uart_set_data_bits ::
    "('h, 'f) uart_env \<Rightarrow> nat option \<Rightarrow> u32 \<Rightarrow> ('h, 'f) uart_state \<Rightarrow> (int \<times> ('h, 'f) uart_state) option" where
  "tls_uart_set_data_bits e p c s =
     (case p of
        None \<Rightarrow> Some (WM_FAILED, s)
      | Some p \<Rightarrow> do {
          let s = upd_port p (\<lambda>q. q\<lparr>opts := (opts q)\<lparr>charlength := c\<rparr>\<rparr>) s;
          s \<leftarrow> ur_update e p UR_LC (\<lambda>v. v AND NOT ULCON_WL_MASK) s;
          if c \<le> 3 then do { s \<leftarrow> ur_update e p UR_LC (\<lambda>v. v OR c) s; Some (WM_SUCCESS, s) }
          else Some (WM_FAILED, s)
        })"

definition tls_uart_get_data_bits :: "nat \<Rightarrow> ('h, 'f) uart_state \<Rightarrow> u32" where
  "tls_uart_get_data_bits p s = charlength (opts (port p s))"

definition tls_uart_set_stop_bits_inside ::
    "('h, 'f) uart_env \<Rightarrow> nat option \<Rightarrow> u32 \<Rightarrow> ('h, 'f) uart_state \<Rightarrow> (int \<times> ('h, 'f) uart_state) option" where
  "tls_uart_set_stop_bits_inside e p b s =
     (case p of
        None \<Rightarrow> Some (WM_FAILED, s)
      | Some p \<Rightarrow> do {
          let s = upd_port p (\<lambda>q. q\<lparr>opts := (opts q)\<lparr>stopbits := b\<rparr>\<rparr>) s;
          s \<leftarrow> ur_update e p UR_LC
                 (\<lambda>v. if b = TLS_UART_TWO_STOPBITS then v OR ULCON_STOP_2 else v AND NOT ULCON_STOP_2) s;
          Some (WM_SUCCESS, s)
        })"

definition tls_uart_get_stop_bits :: "nat \<Rightarrow> ('h, 'f) uart_state \<Rightarrow> u32" where
  "tls_uart_get_stop_bits p s = stopbits (opts (port p s))"

text \<open>The result is \<open>TLS_UART_STATUS_OK\<close> (0) or \<open>TLS_UART_STATUS_ERROR\<close> (1).\<close>

definition tls_uart_set_flow_ctrl ::
    "('h, 'f) uart_env \<Rightarrow> nat option \<Rightarrow> u32 \<Rightarrow> ('h, 'f) uart_state \<Rightarrow> (int \<times> ('h, 'f) uart_state) option" where
  "tls_uart_set_flow_ctrl e p fc s =
     (case p of
        None \<Rightarrow> Some (1, s)
      | Some p \<Rightarrow>
          if fc = TLS_UART_FLOW_CTRL_NONE then do { s \<leftarrow> ur_write e p UR_FC 0 s; Some (0, s) }
          else if fc = TLS_UART_FLOW_CTRL_HARDWARE
          then (if flow_ctrl (opts (port p s)) = TLS_UART_FLOW_CTRL_HARDWARE
                then do { s \<leftarrow> ur_write e p UR_FC 0x19 s; Some (0, s) } else Some (0, s))
          else Some (1, s))"

definition tls_uart_rx_disable :: "('h, 'f) uart_env \<Rightarrow> nat \<Rightarrow> ('h, 'f) uart_state \<Rightarrow> ('h, 'f) uart_state option" where
  "tls_uart_rx_disable e p s = ur_update e p UR_LC (\<lambda>v. v AND NOT ULCON_RX_EN) s"

definition tls_uart_rx_enable :: "('h, 'f) uart_env \<Rightarrow> nat \<Rightarrow> ('h, 'f) uart_state \<Rightarrow> ('h, 'f) uart_state option" where
  "tls_uart_rx_enable e p s = ur_update e p UR_LC (\<lambda>v. v OR ULCON_RX_EN) s"

definition tls_uart_tx_enable :: "('h, 'f) uart_env \<Rightarrow> nat \<Rightarrow> ('h, 'f) uart_state \<Rightarrow> ('h, 'f) uart_state option" where
  "tls_uart_tx_enable e p s = ur_update e p UR_LC (\<lambda>v. v OR ULCON_TX_EN) s"

definition tls_uart_tx_disable :: "('h, 'f) uart_env \<Rightarrow> nat \<Rightarrow> ('h, 'f) uart_state \<Rightarrow> ('h, 'f) uart_state option" where
  "tls_uart_tx_disable e p s = ur_update e p UR_LC (\<lambda>v. v AND NOT ULCON_TX_EN) s"

definition tls_uart_config ::
    "('h, 'f) uart_env \<Rightarrow> nat option \<Rightarrow> tls_uart_options option \<Rightarrow> ('h, 'f) uart_state \<Rightarrow> (int \<times> ('h, 'f) uart_state) option" where
  "tls_uart_config e p' opt s =
     (case (p', opt) of
        (Some p, Some opt) \<Rightarrow> do {
          (_, s) \<leftarrow> tls_uart_set_baud_rate_inside e p (baudrate opt) s;
          (_, s) \<leftarrow> tls_uart_set_parity_inside e p' (paritytype opt) s;
          (_, s) \<leftarrow> tls_uart_set_data_bits e p' (charlength opt) s;
          (_, s) \<leftarrow> tls_uart_set_stop_bits_inside e p' (stopbits opt) s;
          let s = upd_port p (\<lambda>q. q\<lparr>opts := (opts q)\<lparr>flow_ctrl := flow_ctrl opt\<rparr>\<rparr>) s;
          (_, s) \<leftarrow> tls_uart_set_flow_ctrl e p' (flow_ctrl opt) s;
          s \<leftarrow> ur_write e p UR_INTS 0xFFFFFFFF s;
          s \<leftarrow> ur_write e p UR_INTM 0 s;
          s \<leftarrow> ur_write e p UR_DMAC 0x24 s;
          s \<leftarrow> ur_write e p UR_FIFOC 0x3F s;
          s \<leftarrow> ur_update e p UR_LC (\<lambda>v. v AND NOT (ULCON_TX_EN OR ULCON_RX_EN)) s;
          s \<leftarrow> ur_update e p UR_LC (\<lambda>v. v OR (ULCON_RX_EN OR ULCON_TX_EN)) s;
          Some (WM_SUCCESS, s)
        }
      | _ \<Rightarrow> Some (WM_FAILED, s))"

section \<open>Sending\<close>

partial_function (option) wait_thr_empty :: "('h, 'f) uart_env \<Rightarrow> nat \<Rightarrow> ('h, 'f) uart_state \<Rightarrow> ('h, 'f) uart_state option" where
  "wait_thr_empty e p s = do {
     (v, s) \<leftarrow> ur_read e p UR_FIFOS s;
     if v AND 0x3F \<noteq> 0 then wait_thr_empty e p s else Some s
   }"

definition tls_uart_poll_put_char :: "('h, 'f) uart_env \<Rightarrow> nat \<Rightarrow> int \<Rightarrow> ('h, 'f) uart_state \<Rightarrow> (int \<times> ('h, 'f) uart_state) option" where
  "tls_uart_poll_put_char e p ch s = do {
     s \<leftarrow> (if ch = 10 then do { s \<leftarrow> wait_thr_empty e p s; ur_write e p UR_TXW 13 s } else Some s);
     s \<leftarrow> wait_thr_empty e p s;
     s \<leftarrow> ur_write e p UR_TXW (ucast (word_of_int ch :: u8)) s;
     Some (ch, s)
   }"

definition tls_uart_poll_get_char :: "('h, 'f) uart_env \<Rightarrow> nat \<Rightarrow> ('h, 'f) uart_state \<Rightarrow> (u32 \<times> ('h, 'f) uart_state) option" where
  "tls_uart_poll_get_char e p s = do {
     (v, s) \<leftarrow> ur_read e p UR_FIFOS s;
     if drop_bit 6 (v AND UFS_RX_FIFO_CNT_MASK) \<noteq> 0 then ur_read e p UR_RXW s else Some (0, s)
   }"

definition tls_uart_tx_remain_len :: "nat \<Rightarrow> ('h, 'f) uart_state \<Rightarrow> int" where
  "tls_uart_tx_remain_len p s =
     int TLS_UART_TX_BUF_SIZE - uint (fold (\<lambda>m n. n + tx_buflen m) (tx_msg_pending (port p s)) (0 :: u16))"

definition tls_uart_fill_buf :: "nat \<Rightarrow> bytes \<Rightarrow> u32 \<Rightarrow> ('h, 'f) uart_state \<Rightarrow> (int \<times> ('h, 'f) uart_state) option" where
  "tls_uart_fill_buf p buf count s =
     (let (msg, s) = tls_mem_alloc 24 s in
      if msg = None then Some (-1, s)
      else (let (b, s) = tls_mem_alloc (unat count) s in
        if b = None then Some (-1, s)
        else do {
          data \<leftarrow> buf_get buf 0 (unat count);
          let msg = \<lparr>tx_buf = data, tx_buflen = ucast count, tx_offset = 0\<rparr>;
          Some (0, upd_port p (\<lambda>q. q\<lparr>tx_msg_pending := tx_msg_pending q @ [msg]\<rparr>) s)
        }))"

text \<open>The buffers of the messages, always set, and the messages are returned to the heap.\<close>

definition tls_uart_free_tx_sent_data :: "nat \<Rightarrow> ('h, 'f) uart_state \<Rightarrow> int \<times> ('h, 'f) uart_state" where
  "tls_uart_free_tx_sent_data p s = (0, upd_port p (\<lambda>q. q\<lparr>tx_msg_to_be_freed := []\<rparr>) s)"

definition call_tx :: "('h, 'f) uart_env \<Rightarrow> nat \<Rightarrow> ('h, 'f) uart_state \<Rightarrow> ('h, 'f) uart_state" where
  "call_tx e p s =
     (case tx_callback (port p s) of
        None \<Rightarrow> s
      | Some Free_sent_data \<Rightarrow> snd (tls_uart_free_tx_sent_data p s)
      | Some (User_callback f) \<Rightarrow> run_tx e f p s)"

definition release_tx_sem :: "nat \<Rightarrow> ('h, 'f) uart_state \<Rightarrow> ('h, 'f) uart_state" where
  "release_tx_sem p s =
     (case tx_sem (port p s) of None \<Rightarrow> s | Some c \<Rightarrow> upd_port p (\<lambda>q. q\<lparr>tx_sem := Some (sem_release c)\<rparr>) s)"

text \<open>
  The inner loop of both transmit functions: it fills the FIFO from the first message while \<open>tx_count\<close> and the
  message last. The result is whether the FIFO is full, the count and the message.
\<close>

function tx_fill ::
    "('h, 'f) uart_env \<Rightarrow> nat \<Rightarrow> int \<Rightarrow> tls_uart_tx_msg \<Rightarrow> ('h, 'f) uart_state \<Rightarrow>
       (bool \<times> int \<times> tls_uart_tx_msg \<times> ('h, 'f) uart_state) option" where
  "tx_fill e p tx_count msg s =
     (if tx_count > 0 \<and> tx_offset msg < tx_buflen msg
      then do {
        (v, s) \<leftarrow> ur_read e p UR_FIFOS s;
        if v AND UFS_TX_FIFO_CNT_MASK = tx_fifofull (port p s) then Some (True, tx_count - 1, msg, s)
        else do {
          c \<leftarrow> buf_get (tx_buf msg) (unat (tx_offset msg)) 1;
          s \<leftarrow> ur_write e p UR_TXW (ucast (c ! 0)) s;
          tx_fill e p (tx_count - 1) (msg\<lparr>tx_offset := tx_offset msg + 1\<rparr>)
            (upd_port p (\<lambda>q. q\<lparr>icount_tx := icount_tx q + 1\<rparr>) s)
        }
      }
      else Some (False, tx_count - 1, msg, s))"
  by pat_completeness auto
termination by (relation "measure (\<lambda>(e, p, tx_count, msg, s). nat tx_count)") auto

declare tx_fill.simps [simp del]

text \<open>What both do with the first message after the inner loop.\<close>

definition tx_put_back ::
    "('h, 'f) uart_env \<Rightarrow> nat \<Rightarrow> tls_uart_tx_msg \<Rightarrow> tls_uart_tx_msg list \<Rightarrow> ('h, 'f) uart_state \<Rightarrow> ('h, 'f) uart_state" where
  "tx_put_back e p msg rest s =
     (if tx_offset msg \<ge> tx_buflen msg
      then call_tx e p (upd_port p (\<lambda>q. q\<lparr>tx_msg_pending := rest, tx_msg_to_be_freed := tx_msg_to_be_freed q @ [msg]\<rparr>) s)
      else upd_port p (\<lambda>q. q\<lparr>tx_msg_pending := msg # rest\<rparr>) s)"

definition tls_uart_tx_chars_start :: "('h, 'f) uart_env \<Rightarrow> nat \<Rightarrow> ('h, 'f) uart_state \<Rightarrow> ('h, 'f) uart_state option" where
  "tls_uart_tx_chars_start e p s =
     (case tx_msg_pending (port p s) of
        [] \<Rightarrow> Some (release_tx_sem p s)
      | msg # rest \<Rightarrow> do {
          (full, tx_count, msg, s) \<leftarrow> tx_fill e p 32 msg s;
          Some (tx_put_back e p msg rest s)
        })"

partial_function (option) tx_chars_loop ::
    "('h, 'f) uart_env \<Rightarrow> nat \<Rightarrow> int \<Rightarrow> ('h, 'f) uart_state \<Rightarrow> ('h, 'f) uart_state option" where
  "tx_chars_loop e p tx_count s =
     (case tx_msg_pending (port p s) of
        [] \<Rightarrow> Some s
      | msg # rest \<Rightarrow> do {
          (full, tx_count, msg, s) \<leftarrow> tx_fill e p tx_count msg s;
          let s = tx_put_back e p msg rest s;
          if full then Some s else tx_chars_loop e p tx_count s
        })"

definition tls_uart_tx_chars :: "('h, 'f) uart_env \<Rightarrow> nat \<Rightarrow> ('h, 'f) uart_state \<Rightarrow> ('h, 'f) uart_state option" where
  "tls_uart_tx_chars e p s =
     (if tx_msg_pending (port p s) = [] then Some (release_tx_sem p s) else tx_chars_loop e p 64 s)"

section \<open>Flow control\<close>

definition tls_uart_set_fc_status :: "('h, 'f) uart_env \<Rightarrow> int \<Rightarrow> u32 \<Rightarrow> ('h, 'f) uart_state \<Rightarrow> ('h, 'f) uart_state option" where
  "tls_uart_set_fc_status e no status s = do {
     let p = (if no = 0 then 0 else if no = 1 then 1 else 2);
     let s = upd_port p (\<lambda>q. q\<lparr>fcStatus := status\<rparr>) s;
     (_, s) \<leftarrow> tls_uart_set_flow_ctrl e (Some p) status s;
     if flow_ctrl (opts (port p s)) = TLS_UART_FLOW_CTRL_HARDWARE \<and> status = 0 \<and> hw_stopped (port p s)
     then do {
       s \<leftarrow> tls_uart_tx_enable e p s;
       s \<leftarrow> tls_uart_tx_chars e p s;
       Some (upd_port p (\<lambda>q. q\<lparr>hw_stopped := False\<rparr>) s)
     }
     else Some s
   }"

definition uart_handle_cts_change :: "('h, 'f) uart_env \<Rightarrow> nat \<Rightarrow> u32 \<Rightarrow> ('h, 'f) uart_state \<Rightarrow> ('h, 'f) uart_state option" where
  "uart_handle_cts_change e p status s =
     (if fcStatus (port p s) = 1 \<and> flow_ctrl (opts (port p s)) = TLS_UART_FLOW_CTRL_HARDWARE \<and> uart_no (port p s) = 1
      then (if hw_stopped (port p s)
            then (if status \<noteq> 0
                  then do {
                    let s = upd_port p (\<lambda>q. q\<lparr>hw_stopped := False\<rparr>) s;
                    s \<leftarrow> tls_uart_tx_enable e p s;
                    tls_uart_tx_chars e p s
                  }
                  else Some s)
            else (if status = 0
                  then do {
                    let s = upd_port p (\<lambda>q. q\<lparr>hw_stopped := True\<rparr>) s;
                    tls_uart_tx_disable e p s
                  }
                  else Some s))
      else Some s)"

definition tls_set_uart_rx_status :: "('h, 'f) uart_env \<Rightarrow> u32 \<Rightarrow> u32 \<Rightarrow> ('h, 'f) uart_state \<Rightarrow> ('h, 'f) uart_state option" where
  "tls_set_uart_rx_status e no status s =
     (if no \<noteq> 1 then Some s
      else if rxstatus (port 1 s) = TLS_UART_RX_DISABLE \<and> status = TLS_UART_RX_DISABLE
            \<or> rxstatus (port 1 s) = TLS_UART_RX_ENABLE \<and> status = TLS_UART_RX_ENABLE
      then Some s
      else if status = TLS_UART_RX_DISABLE
      then (if flow_ctrl (opts (port 1 s)) = TLS_UART_FLOW_CTRL_HARDWARE \<and> fcStatus (port 1 s) = TLS_UART_FLOW_CTRL_HARDWARE
            then do {
              s \<leftarrow> ur_update e 1 UR_INTM (\<lambda>v. v OR 0x104) s;
              Some (upd_port 1 (\<lambda>q. q\<lparr>rxstatus := TLS_UART_RX_DISABLE\<rparr>) s)
            }
            else Some s)
      else do {
        s \<leftarrow> ur_update e 1 UR_INTM (\<lambda>v. v AND NOT 0x104) s;
        Some (upd_port 1 (\<lambda>q. q\<lparr>rxstatus := TLS_UART_RX_ENABLE\<rparr>) s)
      })"

section \<open>Interrupts\<close>

text \<open>\<open>recv->buf[recv->head] = ch\<close> and the step of \<open>head\<close>.\<close>

definition recv_put :: "nat \<Rightarrow> u8 \<Rightarrow> ('h, 'f) uart_state \<Rightarrow> ('h, 'f) uart_state option" where
  "recv_put p ch s = do {
     let r = recv (port p s);
     buf \<leftarrow> recv_buf r;
     buf \<leftarrow> buf_put buf (unat (recv_head r)) [ch];
     Some (upd_port p (\<lambda>q. q\<lparr>recv := r\<lparr>recv_buf := Some buf, recv_head := (recv_head r + 1) AND 4095\<rparr>\<rparr>) s)
   }"

text \<open>The receive loop of UART 0 and 2 over \<open>rx_fifocnt\<close> characters; the result is \<open>rxlen\<close>.\<close>

fun rx_loop :: "('h, 'f) uart_env \<Rightarrow> nat \<Rightarrow> u32 \<Rightarrow> nat \<Rightarrow> u32 \<Rightarrow> ('h, 'f) uart_state \<Rightarrow> (u32 \<times> ('h, 'f) uart_state) option" where
  "rx_loop e p intr_src 0 rxlen s = Some (rxlen, s)"
| "rx_loop e p intr_src (Suc n) rxlen s = do {
     (v, s) \<leftarrow> ur_read e p UR_RXW s;
     let ch = (ucast v :: u8);
     if intr_src AND UART_RX_ERR_INT_FLAG \<noteq> 0
     then do {
       s \<leftarrow> ur_update e p UR_INTS (\<lambda>v. v OR UART_RX_ERR_INT_FLAG) s;
       rx_loop e p intr_src n rxlen s
     }
     else if CIRC_SPACE (recv_head (recv (port p s))) (recv_tail (recv (port p s))) \<le> 2
     then (if fcStatus (port p s) = TLS_UART_FLOW_CTRL_HARDWARE
           then do {
             s \<leftarrow> tls_set_uart_rx_status e (uart_no (port p s)) TLS_UART_RX_DISABLE s;
             s \<leftarrow> recv_put p ch s;
             Some (rxlen + 1, s)
           }
           else Some (rxlen, s))
     else do {
       s \<leftarrow> recv_put p ch s;
       rx_loop e p intr_src n (rxlen + 1) s
     }
   }"

text \<open>The receive loop of UART 1; the result is the last character.\<close>

fun rx_loop1 :: "('h, 'f) uart_env \<Rightarrow> u32 \<Rightarrow> nat \<Rightarrow> u8 \<Rightarrow> ('h, 'f) uart_state \<Rightarrow> (u8 \<times> ('h, 'f) uart_state) option" where
  "rx_loop1 e intr_src 0 ch s = Some (ch, s)"
| "rx_loop1 e intr_src (Suc n) ch s = do {
     (v, s) \<leftarrow> ur_read e 1 UR_RXW s;
     let ch = (ucast v :: u8);
     if intr_src AND UART_RX_ERR_INT_FLAG \<noteq> 0
     then do {
       s \<leftarrow> ur_update e 1 UR_INTS (\<lambda>v. v OR UART_RX_ERR_INT_FLAG) s;
       rx_loop1 e intr_src n ch s
     }
     else do {
       s \<leftarrow> recv_put 1 ch s;
       rx_loop1 e intr_src n ch s
     }
   }"

definition call_rx :: "('h, 'f) uart_env \<Rightarrow> nat \<Rightarrow> u32 \<Rightarrow> ('h, 'f) uart_state \<Rightarrow> ('h, 'f) uart_state" where
  "call_rx e p rxlen s = (case rx_callback (port p s) of None \<Rightarrow> s | Some f \<Rightarrow> run_rx e f (ucast rxlen) s)"

text \<open>The end of all three handlers.\<close>

definition irq_tx_cts :: "('h, 'f) uart_env \<Rightarrow> nat \<Rightarrow> u32 \<Rightarrow> ('h, 'f) uart_state \<Rightarrow> ('h, 'f) uart_state option" where
  "irq_tx_cts e p intr_src s = do {
     s \<leftarrow> (if intr_src AND UART_TX_INT_FLAG \<noteq> 0 then tls_uart_tx_chars e p s else Some s);
     if intr_src AND UIS_CTS_CHNG \<noteq> 0
     then do {
       (fifos, s) \<leftarrow> ur_read e p UR_FIFOS s;
       uart_handle_cts_change e p (fifos AND UFS_CST_STS) s
     }
     else Some s
   }"

text \<open>Reading and acknowledging the interrupts, at the start of all three.\<close>

definition irq_ack :: "('h, 'f) uart_env \<Rightarrow> nat \<Rightarrow> ('h, 'f) uart_state \<Rightarrow> (u32 \<times> ('h, 'f) uart_state) option" where
  "irq_ack e p s = do {
     (intr_src, s) \<leftarrow> ur_read e p UR_INTS s;
     s \<leftarrow> ur_write e p UR_INTS intr_src s;
     Some (intr_src, s)
   }"

text \<open>The overrun of UART 1 and 2.\<close>

definition irq_overrun :: "('h, 'f) uart_env \<Rightarrow> nat \<Rightarrow> u32 \<Rightarrow> ('h, 'f) uart_state \<Rightarrow> ('h, 'f) uart_state option" where
  "irq_overrun e p intr_src s =
     (if intr_src AND UIS_OVERRUN = 0 then Some s
      else do {
        s \<leftarrow> ur_update e p UR_INTS (\<lambda>v. v OR UIS_OVERRUN) s;
        if tx_dma_on (port p s)
        then do {
          s \<leftarrow> ur_update e p UR_DMAC (\<lambda>v. v AND NOT 1) s;
          ur_update e p UR_DMAC (\<lambda>v. v OR 1) s
        }
        else Some s
      })"

text \<open>The condition of the receive part and the number of characters in the FIFO, \<open>None\<close> inside where it is skipped.\<close>

definition irq_rx_count :: "('h, 'f) uart_env \<Rightarrow> nat \<Rightarrow> u32 \<Rightarrow> ('h, 'f) uart_state \<Rightarrow> (u32 option \<times> ('h, 'f) uart_state) option" where
  "irq_rx_count e p intr_src s =
     (if intr_src AND UART_RX_INT_FLAG = 0 then Some (None, s)
      else do {
        (v, s) \<leftarrow> ur_read e p UR_INTM s;
        if v AND UIS_RX_FIFO \<noteq> 0 then Some (None, s)
        else do {
          (v, s) \<leftarrow> ur_read e p UR_FIFOS s;
          Some (Some (drop_bit 6 v AND 0x3F), s)
        }
      })"

definition UART0_IRQHandler :: "('h, 'f) uart_env \<Rightarrow> ('h, 'f) uart_state \<Rightarrow> ('h, 'f) uart_state option" where
  "UART0_IRQHandler e s = do {
     (intr_src, s) \<leftarrow> irq_ack e 0 s;
     (cnt, s) \<leftarrow> irq_rx_count e 0 intr_src s;
     s \<leftarrow> (case cnt of
            None \<Rightarrow> Some s
          | Some cnt \<Rightarrow> do {
              (rxlen, s) \<leftarrow> rx_loop e 0 intr_src (unat cnt) 0 s;
              Some (call_rx e 0 rxlen s)
            });
     irq_tx_cts e 0 intr_src s
   }"

text \<open>\<open>recv->buf[i] == '+'\<close>\<close>

definition recv_is_plus :: "tls_uart_circ_buf \<Rightarrow> u32 \<Rightarrow> bool option" where
  "recv_is_plus r i = do { buf \<leftarrow> recv_buf r; c \<leftarrow> buf_get buf (unat i) 1; Some (c ! 0 = 0x2B) }"

definition plus_check :: "tls_uart_circ_buf \<Rightarrow> bool option" where
  "plus_check r =
     (let (i, j) = (if recv_head r - 1 = 0 then (4095, 4094)
                    else if recv_head r - 1 = 1 then (0, 4095)
                    else (recv_head r - 2, recv_head r - 3)) in
      do { a \<leftarrow> recv_is_plus r i; if a then recv_is_plus r j else Some False })"

definition UART1_IRQHandler :: "('h, 'f) uart_env \<Rightarrow> ('h, 'f) uart_state \<Rightarrow> ('h, 'f) uart_state option" where
  "UART1_IRQHandler e s = do {
     (intr_src, s) \<leftarrow> irq_ack e 1 s;
     s \<leftarrow> irq_overrun e 1 intr_src s;
     (cnt, s) \<leftarrow> irq_rx_count e 1 intr_src s;
     s \<leftarrow> (case cnt of
            None \<Rightarrow> Some s
          | Some cnt \<Rightarrow> do {
              let s = upd_port 1 (\<lambda>q. q\<lparr>plus_char_cnt := 0\<rparr>) s;
              let r = recv (port 1 s);
              let s = (if CIRC_SPACE (recv_head r) (recv_tail r) \<le> RX_CACHE_LIMIT
                       then upd_port 1 (\<lambda>q. q\<lparr>recv := r\<lparr>recv_tail := (recv_tail r + RX_CACHE_LIMIT) AND 4095\<rparr>\<rparr>) s
                       else s);
              (ch, s) \<leftarrow> rx_loop1 e intr_src (unat cnt) 0 s;
              plus \<leftarrow> (if cnt = 3 \<and> ch = 0x2B then plus_check (recv (port 1 s)) else Some False);
              let s = (if plus then upd_port 1 (\<lambda>q. q\<lparr>plus_char_cnt := 3\<rparr>) s else s);
              Some (call_rx e 1 cnt s)
            });
     irq_tx_cts e 1 intr_src s
   }"

definition UART2_IRQHandler :: "('h, 'f) uart_env \<Rightarrow> ('h, 'f) uart_state \<Rightarrow> ('h, 'f) uart_state option" where
  "UART2_IRQHandler e s = do {
     (intr_src, s) \<leftarrow> irq_ack e 2 s;
     s \<leftarrow> irq_overrun e 2 intr_src s;
     (cnt, s) \<leftarrow> irq_rx_count e 2 intr_src s;
     s \<leftarrow> (case cnt of
            None \<Rightarrow> Some s
          | Some cnt \<Rightarrow> do {
              (rxlen, s) \<leftarrow> rx_loop e 2 intr_src (unat cnt) 0 s;
              Some (if rxlen \<noteq> 0 then call_rx e 2 rxlen s else s)
            });
     irq_tx_cts e 2 intr_src s
   }"

definition uart_irq :: "('h, 'f) uart_env \<Rightarrow> nat \<Rightarrow> ('h, 'f) uart_state \<Rightarrow> ('h, 'f) uart_state option" where
  "uart_irq e p s =
     (if p = 0 then UART0_IRQHandler e s else if p = 1 then UART1_IRQHandler e s else UART2_IRQHandler e s)"

section \<open>The interface\<close>

definition tls_uart_rx_callback_register :: "u16 \<Rightarrow> 'f option \<Rightarrow> ('h, 'f) uart_state \<Rightarrow> ('h, 'f) uart_state" where
  "tls_uart_rx_callback_register no f s = (if no \<le> 2 then upd_port (unat no) (\<lambda>q. q\<lparr>rx_callback := f\<rparr>) s else s)"

definition tls_uart_tx_callback_register :: "u16 \<Rightarrow> 'f tx_callback option \<Rightarrow> ('h, 'f) uart_state \<Rightarrow> ('h, 'f) uart_state" where
  "tls_uart_tx_callback_register no f s = (if no \<le> 2 then upd_port (unat no) (\<lambda>q. q\<lparr>tx_callback := f\<rparr>) s else s)"

definition tls_uart_port_init ::
    "('h, 'f) uart_env \<Rightarrow> u16 \<Rightarrow> tls_uart_options option \<Rightarrow> u8 \<Rightarrow> ('h, 'f) uart_state \<Rightarrow> (int \<times> ('h, 'f) uart_state) option" where
  "tls_uart_port_init e no opt modeChoose s = do {
     s \<leftarrow> UartRegInit e (unat no) s;
     if no > 2 then Some (WM_FAILED, s)
     else do {
       let p = unat no;
       let s = upd_port p (\<lambda>q. uart_port_0\<lparr>regs := Some (HR_UART_BASE_ADDR p)\<rparr>) s;
       s \<leftarrow> (if p = 2
             then ur_update e p UR_LC (\<lambda>v. if modeChoose = 1 then v OR 0x1000000 else v AND NOT 0x1000000) s
             else Some s);
       let s = upd_port p (\<lambda>q. q\<lparr>uart_no := ucast no\<rparr>) s;
       let opt = (case opt of
          None \<Rightarrow> \<lparr>baudrate = 115200, charlength = TLS_UART_CHSIZE_8BIT, paritytype = TLS_UART_PMODE_DISABLED,
                   flow_ctrl = TLS_UART_FLOW_CTRL_NONE, stopbits = TLS_UART_ONE_STOPBITS\<rparr>
        | Some opt \<Rightarrow> opt);
       (ret, s) \<leftarrow> tls_uart_config e (Some p) (Some opt) s;
       if ret \<noteq> WM_SUCCESS then Some (WM_FAILED, s)
       else do {
         let irq = (if p = 0 then 23 else if p = 1 then 24 else 41);
         let s = upd_port p (\<lambda>q. q\<lparr>rxstatus := TLS_UART_RX_ENABLE, uart_irq_no := irq\<rparr>) s;
         let s = tls_irq_disable (io e) irq s;
         let (bufrx, s) = (if recv_buf (recv (port p s)) = None
                           then (let (b, s) = tls_mem_alloc TLS_UART_RX_BUF_SIZE s in
                                 (if b = None then None else Some (zeros TLS_UART_RX_BUF_SIZE), s))
                           else (recv_buf (recv (port p s)), s));
         if bufrx = None then Some (WM_FAILED, s)
         else do {
           let s = upd_port p (\<lambda>q. q\<lparr>recv := \<lparr>recv_buf = bufrx, recv_head = 0, recv_tail = 0\<rparr>, tx_fifofull := 16,
                                     tx_msg_pending := [], tx_msg_to_be_freed := []\<rparr>) s;
           let s = tls_uart_tx_callback_register no (Some Free_sent_data) s;
           Some (WM_SUCCESS, tls_irq_enable (io e) irq s)
         }
       }
     }
   }"

text \<open>\<open>buf\<close> is the user's buffer, \<open>None\<close> for a null pointer; the result has its contents after the call.\<close>

definition tls_uart_read :: "u16 \<Rightarrow> bytes option \<Rightarrow> u16 \<Rightarrow> ('h, 'f) uart_state \<Rightarrow> (int \<times> bytes option \<times> ('h, 'f) uart_state) option" where
  "tls_uart_read no buf readsize s =
     (case buf of
        None \<Rightarrow> Some (WM_FAILED, buf, s)
      | Some b \<Rightarrow>
          if readsize < 1 then Some (WM_FAILED, buf, s)
          else if no > 2 then None
          else do {
            let p = unat no;
            let r = recv (port p s);
            let data_cnt = CIRC_CNT (recv_head r) (recv_tail r);
            if data_cnt < ucast readsize then Some (0, buf, s)
            else do {
              let buflen = unat readsize;
              rb \<leftarrow> recv_buf r;
              b \<leftarrow> (if unat (recv_tail r + of_nat buflen) > TLS_UART_RX_BUF_SIZE
                   then do {
                     let bufcopylen = TLS_UART_RX_BUF_SIZE - unat (recv_tail r);
                     d1 \<leftarrow> buf_get rb (unat (recv_tail r)) bufcopylen;
                     b \<leftarrow> buf_put b 0 d1;
                     d2 \<leftarrow> buf_get rb 0 (buflen - bufcopylen);
                     buf_put b bufcopylen d2
                   }
                   else do {
                     d \<leftarrow> buf_get rb (unat (recv_tail r)) buflen;
                     buf_put b 0 d
                   });
              Some (int buflen, Some b,
                    upd_port p (\<lambda>q. q\<lparr>recv := (recv q)\<lparr>recv_tail := (recv_tail r + of_nat buflen) AND 4095\<rparr>\<rparr>) s)
            }
          })"

text \<open>\<open>buf\<close> and \<open>cmpl_callback\<close> are addresses; a null pointer to the data is 0.\<close>

definition tls_uart_dma_write ::
    "('h, 'f) uart_env \<Rightarrow> u32 \<Rightarrow> u16 \<Rightarrow> 'f option \<Rightarrow> u16 \<Rightarrow> ('h, 'f) uart_state \<Rightarrow> (int \<times> ('h, 'f) uart_state) option" where
  "tls_uart_dma_write e buf writesize cmpl_callback no s =
     (if buf = 0 \<or> writesize < 1 \<or> writesize \<ge> 4096 then Some (WM_FAILED, s)
      else if no > 2 then None
      else if tx_dma_on (port (unat no) s) then Some (WM_FAILED, s)
      else do {
        let p = unat no;
        let s = tls_reg_write32 (io e) 0x40000408 (ucast no) s;
        let (dmaCh, s) = tls_dma_request (io e) 2 5 s;
        if dmaCh \<noteq> 2 then Some (WM_FAILED, s)
        else do {
          s \<leftarrow> ur_update e p UR_DMAC (\<lambda>v. v AND NOT 1) s;
          s \<leftarrow> tls_dma_irq_register (io e) dmaCh cmpl_callback (ucast no) TLS_DMA_IRQ_TRANSFER_DONE s;
          base \<leftarrow> regs (port p s);
          (_, s) \<leftarrow> tls_dma_start (io e) dmaCh
            (Some \<lparr>desc_valid = 0x80000000, dma_ctrl = 1 OR push_bit 7 (ucast writesize), src_addr = buf,
                   dest_addr = of_nat (base + UR_TXW)\<rparr>) 0 s;
          let s = upd_port p (\<lambda>q. q\<lparr>tx_dma_on := True\<rparr>) s;
          s \<leftarrow> ur_update e p UR_DMAC (\<lambda>v. v OR 1) s;
          let s = reg_update (io e) DMA_INTMASK_REG (\<lambda>v. v AND NOT 0x20) s;
          Some (WM_SUCCESS, tls_irq_enable (io e) 15 s)
        }
      })"

definition tls_uart_write_async ::
    "('h, 'f) uart_env \<Rightarrow> u16 \<Rightarrow> bytes option \<Rightarrow> u16 \<Rightarrow> ('h, 'f) uart_state \<Rightarrow> (int \<times> ('h, 'f) uart_state) option" where
  "tls_uart_write_async e no buf writesize s =
     (case buf of
        None \<Rightarrow> Some (WM_FAILED, s)
      | Some b \<Rightarrow>
          if writesize < 1 then Some (WM_FAILED, s)
          else if no > 2 then None
          else do {
            (ret, s) \<leftarrow> tls_uart_fill_buf (unat no) b (ucast writesize) s;
            s \<leftarrow> (if ret = 0 then tls_uart_tx_chars_start e (unat no) s else Some s);
            Some (ret, s)
          })"

definition tls_uart_tx_length :: "u16 \<Rightarrow> ('h, 'f) uart_state \<Rightarrow> u32 option" where
  "tls_uart_tx_length no s = (if no > 2 then None else Some (icount_tx (port (unat no) s)))"

text \<open>
  Waiting on the semaphore of a port: interrupts of the ports \<open>irqs\<close> come one after the other until it has been
  released. \<open>None\<close> where it is not.
\<close>

fun tx_wait :: "('h, 'f) uart_env \<Rightarrow> nat \<Rightarrow> nat list \<Rightarrow> ('h, 'f) uart_state \<Rightarrow> ('h, 'f) uart_state option" where
  "tx_wait e p irqs s =
     (case tx_sem (port p s) of
        None \<Rightarrow> None
      | Some (Suc c) \<Rightarrow> Some (upd_port p (\<lambda>q. q\<lparr>tx_sem := Some c\<rparr>) s)
      | Some 0 \<Rightarrow>
         (case irqs of [] \<Rightarrow> None | i # irqs \<Rightarrow> do { s \<leftarrow> uart_irq e i s; tx_wait e p irqs s }))"

definition tls_uart_write ::
    "('h, 'f) uart_env \<Rightarrow> u16 \<Rightarrow> bytes option \<Rightarrow> u16 \<Rightarrow> nat list \<Rightarrow> ('h, 'f) uart_state \<Rightarrow> (int \<times> ('h, 'f) uart_state) option" where
  "tls_uart_write e no buf writesize irqs s =
     (if no > 2 then None
      else do {
        let p = unat no;
        let (ok, s) = tls_os_sem_create s;
        if \<not> ok then Some (WM_FAILED, s)
        else do {
          let s = upd_port p (\<lambda>q. q\<lparr>tx_sem := Some 0\<rparr>) s;
          (ret, s) \<leftarrow> tls_uart_write_async e no buf writesize s;
          s \<leftarrow> (if ret = 0 then tx_wait e p irqs s else Some s);
          Some (WM_SUCCESS, upd_port p (\<lambda>q. q\<lparr>tx_sem := None\<rparr>) s)
        }
      })"

definition tls_uart_set_parity :: "('h, 'f) uart_env \<Rightarrow> u16 \<Rightarrow> u32 \<Rightarrow> ('h, 'f) uart_state \<Rightarrow> (int \<times> ('h, 'f) uart_state) option" where
  "tls_uart_set_parity e no par s =
     (if no \<le> 2 then tls_uart_set_parity_inside e (Some (unat no)) par s else Some (WM_FAILED, s))"

definition tls_uart_set_baud_rate :: "('h, 'f) uart_env \<Rightarrow> u16 \<Rightarrow> u32 \<Rightarrow> ('h, 'f) uart_state \<Rightarrow> (int \<times> ('h, 'f) uart_state) option" where
  "tls_uart_set_baud_rate e no b s =
     (if no \<le> 2 then tls_uart_set_baud_rate_inside e (unat no) b s else Some (WM_FAILED, s))"

definition tls_uart_set_stop_bits :: "('h, 'f) uart_env \<Rightarrow> u16 \<Rightarrow> u32 \<Rightarrow> ('h, 'f) uart_state \<Rightarrow> (int \<times> ('h, 'f) uart_state) option" where
  "tls_uart_set_stop_bits e no b s =
     (if no \<le> 2 then tls_uart_set_stop_bits_inside e (Some (unat no)) b s else Some (WM_FAILED, s))"

definition tls_uart_dma_off :: "u16 \<Rightarrow> ('h, 'f) uart_state \<Rightarrow> (int \<times> ('h, 'f) uart_state) option" where
  "tls_uart_dma_off no s =
     (if no > 2 then None else Some (WM_SUCCESS, upd_port (unat no) (\<lambda>q. q\<lparr>tx_dma_on := False\<rparr>) s))"

end
