(* ===== verification/Uart_Ring.thy ===== *)
theory Uart_Ring
  imports Uart
begin

text \<open>
  The receive buffer of a UART port as a queue of bytes: \<open>queue\<close> reads the ring from its tail to its head.
  The index arithmetic of the driver is shown to append at the end, to take from the front, and to count.
\<close>

section \<open>The abstraction\<close>

definition ring_ok :: "tls_uart_circ_buf \<Rightarrow> bool" where
  "ring_ok r = ((\<exists>b. recv_buf r = Some b \<and> length b = 4096) \<and> unat (recv_head r) < 4096 \<and> unat (recv_tail r) < 4096)"

definition queue_len :: "tls_uart_circ_buf \<Rightarrow> nat" where
  "queue_len r = (unat (recv_head r) + 4096 - unat (recv_tail r)) mod 4096"

definition queue :: "tls_uart_circ_buf \<Rightarrow> bytes" where
  "queue r = map (\<lambda>i. the (recv_buf r) ! ((unat (recv_tail r) + i) mod 4096)) [0..<queue_len r]"

lemma length_queue [simp]: "length (queue r) = queue_len r"
  by (simp add: queue_def)

lemma queue_len_less: "queue_len r < 4096"
  by (simp add: queue_len_def)

lemma queue_nth [simp]: "i < queue_len r \<Longrightarrow> queue r ! i = the (recv_buf r) ! ((unat (recv_tail r) + i) mod 4096)"
  by (simp add: queue_def)

section \<open>Index arithmetic\<close>

lemma ring_index:
  "a < 4096 \<Longrightarrow> b < 4096 \<Longrightarrow> (a + b :: nat) mod 4096 = (if a + b < 4096 then a + b else a + b - 4096)"
  by (simp add: le_mod_geq)

lemma ring_distance:
  "h < 4096 \<Longrightarrow> t < 4096 \<Longrightarrow> (h + 4096 - t :: nat) mod 4096 = (if t \<le> h then h - t else h + 4096 - t)"
  by (simp add: le_mod_geq)

lemma and_4095: "unat ((x :: u32) AND 4095) = unat x mod 4096"
proof -
  have "x AND 4095 = take_bit 12 x" by (simp add: take_bit_eq_mask mask_eq_exp_minus_1)
  then have "unat (x AND 4095) = take_bit 12 (unat x)" by (simp only: unsigned_take_bit_eq)
  then show ?thesis by (simp add: take_bit_eq_mod)
qed

lemma uint_diff_4096: "uint (a - b :: u32) mod 4096 = (uint a - uint b) mod 4096"
  using mod_mod_cancel [of 4096 "4294967296 :: int" "uint a - uint b"] by (simp add: uint_word_ariths)

lemma uint_add_4096: "uint (a + b :: u32) mod 4096 = (uint a + uint b) mod 4096"
  using mod_mod_cancel [of 4096 "4294967296 :: int" "uint a + uint b"] by (simp add: uint_word_ariths)

lemma unat_add_4096:
  fixes t :: u32
  assumes "unat t < 4096" "k < 65536"
  shows "unat (t + of_nat k) = unat t + k" "unat ((t + of_nat k) AND 4095) = (unat t + k) mod 4096"
proof -
  have k: "unat (of_nat k :: u32) = k"
    using assms(2) by (simp add: unat_of_nat take_bit_eq_mod)
  have "unat (t + of_nat k) = (unat t + unat (of_nat k :: u32)) mod 4294967296"
    by (simp only: unat_word_ariths) simp
  then show "unat (t + of_nat k) = unat t + k" using assms by (simp add: k)
  then show "unat ((t + of_nat k) AND 4095) = (unat t + k) mod 4096" by (simp add: and_4095)
qed

lemma int_queue_len:
  assumes "ring_ok r"
  shows "int (queue_len r) = (uint (recv_head r) - uint (recv_tail r)) mod 4096"
proof -
  have "unat (recv_tail r) \<le> unat (recv_head r) + 4096" using assms by (simp add: ring_ok_def)
  then have "int (queue_len r) = (uint (recv_head r) + 4096 - uint (recv_tail r)) mod 4096"
    unfolding queue_len_def by (simp only: zmod_int of_nat_diff of_nat_add of_nat_unat of_nat_numeral)
  also have "uint (recv_head r) + 4096 - uint (recv_tail r) = (uint (recv_head r) - uint (recv_tail r)) + 4096" by simp
  finally show ?thesis by (simp only: mod_add_self2)
qed

lemma unat_CIRC_CNT:
  assumes "ring_ok r"
  shows "unat (CIRC_CNT (recv_head r) (recv_tail r)) = queue_len r"
proof -
  have "int (unat (CIRC_CNT (recv_head r) (recv_tail r))) = int (queue_len r)"
    unfolding CIRC_CNT_def and_4095 int_queue_len [OF assms] uint_diff_4096 [symmetric]
    by (simp only: zmod_int of_nat_unat of_nat_numeral)
  then show ?thesis by (simp only: of_nat_eq_iff)
qed

lemma unat_CIRC_SPACE:
  assumes "ring_ok r"
  shows "unat (CIRC_SPACE (recv_head r) (recv_tail r)) = 4095 - queue_len r"
proof -
  let ?h = "recv_head r" and ?t = "recv_tail r" and ?d = "uint (recv_head r) - uint (recv_tail r)"
  have one: "uint (?h + 1) mod 4096 = (uint ?h + 1) mod 4096" using uint_add_4096 [of ?h 1] by simp
  have "uint (?t - (?h + 1)) mod 4096 = (uint ?t - uint (?h + 1)) mod 4096" by (rule uint_diff_4096)
  also have "\<dots> = (uint ?t - (uint ?h + 1)) mod 4096"
    by (rule mod_diff_cong [OF refl one])
  also have "\<dots> = (- 1 - ?d) mod 4096" by (simp add: algebra_simps)
  also have "\<dots> = (- 1 - ?d mod 4096) mod 4096" by (simp only: mod_diff_right_eq)
  also have "\<dots> = 4095 - ?d mod 4096"
  proof -
    define q where "q = ?d mod 4096"
    have "0 \<le> q" "q < 4096" unfolding q_def by simp_all
    then have "(- 1 - q + 1 * 4096) mod 4096 = 4095 - q" by simp
    then show ?thesis unfolding q_def [symmetric] by (simp only: mod_mult_self1)
  qed
  finally have "uint (?t - (?h + 1)) mod 4096 = 4095 - int (queue_len r)"
    by (simp only: int_queue_len [OF assms])
  then have "int (unat (CIRC_SPACE ?h ?t)) = 4095 - int (queue_len r)"
    unfolding CIRC_SPACE_def CIRC_CNT_def and_4095 by (simp only: zmod_int of_nat_unat of_nat_numeral)
  then show ?thesis by linarith
qed

section \<open>The operations\<close>

text \<open>A byte that is put at the head.\<close>

lemma queue_put:
  assumes "ring_ok r" "queue_len r < 4095"
    and r': "r' = r\<lparr>recv_buf := Some (patch (the (recv_buf r)) (unat (recv_head r)) [ch]), recv_head := (recv_head r + 1) AND 4095\<rparr>"
  shows "ring_ok r'" "queue r' = queue r @ [ch]" "queue_len r' = Suc (queue_len r)"
proof -
  let ?h = "unat (recv_head r)" and ?t = "unat (recv_tail r)"
  obtain b where b: "recv_buf r = Some b" "length b = 4096" and h: "?h < 4096" and t: "?t < 4096"
    using assms(1) by (auto simp: ring_ok_def)
  have h': "unat (recv_head r') = (?h + 1) mod 4096"
    using unat_add_4096 (2) [OF h, of 1] by (simp add: r')
  show ok: "ring_ok r'" using assms(1) h' b by (auto simp: ring_ok_def r')
  have len0: "queue_len r = (if ?t \<le> ?h then ?h - ?t else ?h + 4096 - ?t)"
    unfolding queue_len_def by (rule ring_distance [OF h t])
  have "queue_len r' = ((?h + 1) mod 4096 + 4096 - ?t) mod 4096"
    unfolding queue_len_def h' by (simp add: r')
  also have "\<dots> = Suc (queue_len r)"
    using ring_distance [of "(?h + 1) mod 4096" ?t] ring_index [OF h, of 1] t h assms(2)
    unfolding len0 by (simp split: if_splits)
  finally show len: "queue_len r' = Suc (queue_len r)" .
  have last: "(?t + queue_len r) mod 4096 = ?h"
    using ring_index [OF t, of "queue_len r"] queue_len_less [of r] h t unfolding len0 by (simp split: if_splits)
  have other: "(?t + i) mod 4096 \<noteq> ?h" if "i < queue_len r" for i
    using ring_index [OF t, of i] that queue_len_less [of r] h t unfolding len0 by (simp split: if_splits)
  show "queue r' = queue r @ [ch]"
  proof (rule nth_equalityI)
    show "length (queue r') = length (queue r @ [ch])" using len by simp
    fix i assume "i < length (queue r')"
    then have i: "i < Suc (queue_len r)" using len by simp
    show "queue r' ! i = (queue r @ [ch]) ! i"
    proof (cases "i = queue_len r")
      case True
      then show ?thesis using len b h last by (simp add: nth_append r' nth_patch)
    next
      case False
      then have "i < queue_len r" using i by simp
      then show ?thesis using len b h other [of i] by (auto simp: nth_append r' nth_patch)
    qed
  qed
qed

text \<open>Bytes that are dropped at the tail.\<close>

lemma queue_drop:
  assumes "ring_ok r" "k \<le> queue_len r"
    and r': "r' = r\<lparr>recv_tail := (recv_tail r + of_nat k) AND 4095\<rparr>"
  shows "ring_ok r'" "queue r' = drop k (queue r)" "queue_len r' = queue_len r - k"
proof -
  let ?h = "unat (recv_head r)" and ?t = "unat (recv_tail r)"
  have h: "?h < 4096" and t: "?t < 4096" using assms(1) by (auto simp: ring_ok_def)
  have k: "k < 4096" using assms(2) queue_len_less [of r] by simp
  have t': "unat (recv_tail r') = (?t + k) mod 4096"
    using unat_add_4096 (2) [OF t, of k] k by (simp add: r')
  show "ring_ok r'" using assms(1) t' by (auto simp: ring_ok_def r')
  have len0: "queue_len r = (if ?t \<le> ?h then ?h - ?t else ?h + 4096 - ?t)"
    unfolding queue_len_def by (rule ring_distance [OF h t])
  have "queue_len r' = (?h + 4096 - (?t + k) mod 4096) mod 4096"
    unfolding queue_len_def t' by (simp add: r')
  also have "\<dots> = queue_len r - k"
    using ring_distance [OF h, of "(?t + k) mod 4096"] ring_index [OF t k] t h k assms(2)
    unfolding len0 by (simp split: if_splits)
  finally show len: "queue_len r' = queue_len r - k" .
  show "queue r' = drop k (queue r)"
  proof (rule nth_equalityI)
    show "length (queue r') = length (drop k (queue r))" using len by simp
    fix i assume "i < length (queue r')"
    then have i: "k + i < queue_len r" using len by simp
    then show "queue r' ! i = drop k (queue r) ! i"
      using len by (simp add: t') (simp add: r' mod_simps add.assoc)
  qed
qed

text \<open>The bytes at the tail, where they go past the end of the buffer and where they do not.\<close>

lemma take_queue:
  assumes "ring_ok r" "n \<le> queue_len r" "recv_buf r = Some b"
  shows "take n (queue r) =
    (if unat (recv_tail r) + n > 4096
     then slice (unat (recv_tail r)) (4096 - unat (recv_tail r)) b @ slice 0 (n - (4096 - unat (recv_tail r))) b
     else slice (unat (recv_tail r)) n b)"
proof -
  let ?t = "unat (recv_tail r)"
  have t: "?t < 4096" and b: "length b = 4096" using assms(1,3) by (auto simp: ring_ok_def)
  have n: "n < 4096" using assms(2) queue_len_less [of r] by simp
  have nth: "queue r ! i = b ! (if ?t + i < 4096 then ?t + i else ?t + i - 4096)" if "i < n" for i
    using that assms(2,3) n ring_index [OF t, of i] by simp
  show ?thesis
    using t n b assms(2) nth
    by (intro nth_equalityI) (auto simp: nth_append nth_slice length_slice add.commute)
qed

text \<open>Reading from a port takes what was asked for from the front of the queue, or nothing.\<close>

lemma tls_uart_read_queue:
  assumes "ring_ok (recv (port (unat no) s))" "no \<le> 2" "n \<noteq> 0" "unat n \<le> length buf"
  shows "tls_uart_read no (Some buf) n s =
    (if unat n \<le> queue_len (recv (port (unat no) s))
     then Some (int (unat n), Some (patch buf 0 (take (unat n) (queue (recv (port (unat no) s))))),
       upd_port (unat no) (\<lambda>q. q\<lparr>recv := (recv q)\<lparr>recv_tail := (recv_tail (recv (port (unat no) s)) + of_nat (unat n)) AND 4095\<rparr>\<rparr>) s)
     else Some (0, Some buf, s))"
proof -
  let ?r = "recv (port (unat no) s)" and ?t = "unat (recv_tail (recv (port (unat no) s)))"
  obtain b where b: "recv_buf ?r = Some b" "length b = 4096" and t: "?t < 4096"
    using assms(1) by (auto simp: ring_ok_def)
  have k: "unat n < 65536" using unsigned_less [of n, where ?'a = nat] by simp
  have cnt: "CIRC_CNT (recv_head ?r) (recv_tail ?r) < ucast n \<longleftrightarrow> queue_len ?r < unat n"
    unfolding word_less_nat_alt unat_CIRC_CNT [OF assms(1)] using k
    by (simp add: unsigned_ucast_eq take_bit_eq_mod not_less)
  have sum: "unat (recv_tail ?r + of_nat (unat n)) = ?t + unat n" by (rule unat_add_4096 (1) [OF t k])
  have no: "\<not> no > 2" using assms(2) by simp
  have n1: "\<not> n < 1" using assms(3) by (simp add: word_less_1 | unat_arith)
  show ?thesis
  proof (cases "unat n \<le> queue_len ?r")
    case False
    then show ?thesis using n1 no cnt by (simp add: tls_uart_read_def Let_def)
  next
    case True
    have n: "unat n < 4096" using True queue_len_less [of ?r] by simp
    note tq = take_queue [OF assms(1) True b(1)]
    have two: "patch (patch buf 0 (slice ?t (4096 - ?t) b)) (4096 - ?t) (slice 0 (unat n - (4096 - ?t)) b)
        = patch buf 0 (slice ?t (4096 - ?t) b @ slice 0 (unat n - (4096 - ?t)) b)" if "?t + unat n > 4096"
      using patch_append [of 0 "slice ?t (4096 - ?t) b" "slice 0 (unat n - (4096 - ?t)) b" buf] t b(2) that n assms(4)
      by simp
    show ?thesis
      using True n1 no assms(4) cnt b t n sum two
      by (simp add: tls_uart_read_def Let_def tq length_slice)
  qed
qed

end
