(* ===== verification/Uart_Dev.thy ===== *)
theory Uart_Dev
  imports Uart_Ring "HOL-Library.Sublist"
begin

text \<open>
  What the UART promises, the contract \<open>uart_dev\<close>: \<open>line\<close> is what a port has received so far and \<open>taken\<close> how
  much of it the driver has read, \<open>sent\<close> is what the driver has handed over for sending and \<open>level\<close> how much of it is
  still in the FIFO, and \<open>mask\<close> the interrupts that are masked. A port
  is \<open>idle\<close> when nothing comes in: then all its interrupts say that its FIFO has drained. Bytes may arrive at any time. The FIFO does not drain while the driver fills it, as the line is
  slower than the processor. Resetting the FIFOs is outside the contract. On top of it: what transmitting does.
\<close>

section \<open>The contract\<close>

locale uart_dev =
  fixes m :: "'h mmio" and line :: "nat \<Rightarrow> 'h \<Rightarrow> bytes" and taken :: "nat \<Rightarrow> 'h \<Rightarrow> nat"
    and sent :: "nat \<Rightarrow> 'h \<Rightarrow> bytes" and level :: "nat \<Rightarrow> 'h \<Rightarrow> nat" and mask :: "nat \<Rightarrow> 'h \<Rightarrow> u32"
    and idle :: "nat \<Rightarrow> 'h \<Rightarrow> bool"
  assumes taken_le: "p < 3 \<Longrightarrow> taken p h \<le> length (line p h)"
    and read_line: "p < 3 \<Longrightarrow> prefix (line p h) (line p (snd (reg_read m a h)))"
    and write_line: "p < 3 \<Longrightarrow> a \<noteq> HR_UART_BASE_ADDR p + UR_FIFOC \<Longrightarrow> prefix (line p h) (line p (reg_write m a v h))"
    and read_taken: "p < 3 \<Longrightarrow> a \<noteq> HR_UART_BASE_ADDR p + UR_RXW \<Longrightarrow> taken p (snd (reg_read m a h)) = taken p h"
    and write_taken: "p < 3 \<Longrightarrow> a \<noteq> HR_UART_BASE_ADDR p + UR_FIFOC \<Longrightarrow> taken p (reg_write m a v h) = taken p h"
    and read_rxw: "p < 3 \<Longrightarrow> taken p h < length (line p h) \<Longrightarrow>
      ucast (fst (reg_read m (HR_UART_BASE_ADDR p + UR_RXW) h)) = line p h ! taken p h
      \<and> taken p (snd (reg_read m (HR_UART_BASE_ADDR p + UR_RXW) h)) = Suc (taken p h)"
    and read_fifos_rx: "p < 3 \<Longrightarrow>
      unat (drop_bit 6 (fst (reg_read m (HR_UART_BASE_ADDR p + UR_FIFOS) h)) AND 0x3F)
        = length (line p (snd (reg_read m (HR_UART_BASE_ADDR p + UR_FIFOS) h)))
          - taken p (snd (reg_read m (HR_UART_BASE_ADDR p + UR_FIFOS) h))"
    and read_sent: "p < 3 \<Longrightarrow> sent p (snd (reg_read m a h)) = sent p h"
    and write_sent: "p < 3 \<Longrightarrow> a \<noteq> HR_UART_BASE_ADDR p + UR_TXW \<Longrightarrow> a \<noteq> HR_UART_BASE_ADDR p + UR_FIFOC \<Longrightarrow>
      sent p (reg_write m a v h) = sent p h"
    and write_txw: "p < 3 \<Longrightarrow> level p h < 32 \<Longrightarrow>
      sent p (reg_write m (HR_UART_BASE_ADDR p + UR_TXW) v h) = sent p h @ [ucast v]
      \<and> level p (reg_write m (HR_UART_BASE_ADDR p + UR_TXW) v h) = Suc (level p h)"
    and read_fifos_tx: "p < 3 \<Longrightarrow>
      fst (reg_read m (HR_UART_BASE_ADDR p + UR_FIFOS) h) AND 0x3F = of_nat (level p h)
      \<and> level p (snd (reg_read m (HR_UART_BASE_ADDR p + UR_FIFOS) h)) = level p h"
    and read_level: "p < 3 \<Longrightarrow> level p (snd (reg_read m a h)) \<le> level p h"
    and write_level: "p < 3 \<Longrightarrow> a \<noteq> HR_UART_BASE_ADDR p + UR_TXW \<Longrightarrow> a \<noteq> HR_UART_BASE_ADDR p + UR_FIFOC \<Longrightarrow>
      level p (reg_write m a v h) \<le> level p h"
    and read_mask: "p < 3 \<Longrightarrow> fst (reg_read m (HR_UART_BASE_ADDR p + UR_INTM) h) = mask p h"
      "p < 3 \<Longrightarrow> mask p (snd (reg_read m a h)) = mask p h"
    and write_mask: "p < 3 \<Longrightarrow> a \<noteq> HR_UART_BASE_ADDR p + UR_INTM \<Longrightarrow> mask p (reg_write m a v h) = mask p h"
    and keep_idle: "p < 3 \<Longrightarrow> idle p h \<Longrightarrow> idle p (snd (reg_read m a h))" "p < 3 \<Longrightarrow> idle p h \<Longrightarrow> idle p (reg_write m a v h)"
    and read_ints_idle: "p < 3 \<Longrightarrow> idle p h \<Longrightarrow>
      fst (reg_read m (HR_UART_BASE_ADDR p + UR_INTS) h) AND UART_TX_INT_FLAG \<noteq> 0
      \<and> fst (reg_read m (HR_UART_BASE_ADDR p + UR_INTS) h) AND (UART_RX_INT_FLAG OR UIS_CTS_CHNG) = 0
      \<and> level p (snd (reg_read m (HR_UART_BASE_ADDR p + UR_INTS) h)) = 0"

text \<open>The registers of the ports do not overlap.\<close>

lemma uart_addr_eq [simp]:
  "p < 3 \<Longrightarrow> q < 3 \<Longrightarrow> r < 0x200 \<Longrightarrow> r' < 0x200 \<Longrightarrow>
   HR_UART_BASE_ADDR p + r = HR_UART_BASE_ADDR q + r' \<longleftrightarrow> p = q \<and> r = r'"
  by (auto simp: HR_UART_BASE_ADDR_def)

lemma uart_base_eq [simp]:
  "p < 3 \<Longrightarrow> q < 3 \<Longrightarrow> HR_UART_BASE_ADDR p = HR_UART_BASE_ADDR q \<longleftrightarrow> p = q"
  "p < 3 \<Longrightarrow> q < 3 \<Longrightarrow> 0 < r \<Longrightarrow> r < 0x200 \<Longrightarrow> HR_UART_BASE_ADDR p \<noteq> HR_UART_BASE_ADDR q + r"
  "p < 3 \<Longrightarrow> q < 3 \<Longrightarrow> 0 < r \<Longrightarrow> r < 0x200 \<Longrightarrow> HR_UART_BASE_ADDR q + r \<noteq> HR_UART_BASE_ADDR p"
  by (auto simp: HR_UART_BASE_ADDR_def)

section \<open>States\<close>

text \<open>A user's callback leaves the hardware and the ports alone, as one that sends a message to a task does.\<close>

definition quiet_callbacks :: "('h, 'f) uart_env \<Rightarrow> bool" where
  "quiet_callbacks e =
     ((\<forall>f n s. hw (run_rx e f n s) = hw s \<and> uart_port (run_rx e f n s) = uart_port s)
      \<and> (\<forall>f p s. hw (run_tx e f p s) = hw s \<and> uart_port (run_tx e f p s) = uart_port s))"

text \<open>A message that waits has bytes left, and they are in its buffer.\<close>

definition msg_ok :: "tls_uart_tx_msg \<Rightarrow> bool" where
  "msg_ok t = (tx_offset t < tx_buflen t \<and> unat (tx_buflen t) \<le> length (tx_buf t))"

definition remaining :: "tls_uart_tx_msg \<Rightarrow> bytes" where
  "remaining t = slice (unat (tx_offset t)) (unat (tx_buflen t) - unat (tx_offset t)) (tx_buf t)"

definition outstanding :: "nat \<Rightarrow> ('h, 'f) uart_state \<Rightarrow> bytes" where
  "outstanding p s = concat (map remaining (tx_msg_pending (port p s)))"

definition port_ok :: "nat \<Rightarrow> ('h, 'f) uart_state \<Rightarrow> bool" where
  "port_ok p s = (p < 3 \<and> length (uart_port s) = 3 \<and> regs (port p s) = Some (HR_UART_BASE_ADDR p))"

definition tx_ok :: "nat \<Rightarrow> ('h, 'f) uart_state \<Rightarrow> bool" where
  "tx_ok p s = (tx_fifofull (port p s) = 16 \<and> list_all msg_ok (tx_msg_pending (port p s)))"

lemma port_upd_port [simp]: "p < length (uart_port s) \<Longrightarrow> port q (upd_port p g s) = (if q = p then g (port p s) else port q s)"
  by (simp add: port_def upd_port_def)

lemma port_hw [simp]: "port p (s\<lparr>hw := h\<rparr>) = port p s"
  by (simp add: port_def)

lemma upd_port_hw [simp]: "hw (upd_port p g s) = hw s" "length (uart_port (upd_port p g s)) = length (uart_port s)"
  by (simp_all add: upd_port_def)

lemma upd_port_upd_port: "p < length (uart_port s) \<Longrightarrow> upd_port p g (upd_port p f s) = upd_port p (\<lambda>q. g (f q)) s"
  by (simp add: upd_port_def port_def)

lemma upd_port_hw_commute: "upd_port p g (s\<lparr>hw := h\<rparr>) = (upd_port p g s)\<lparr>hw := h\<rparr>"
  by (simp add: upd_port_def port_def)

text \<open>
  What transmitting may change: the list of messages, the count, the semaphore and whether the other side has stopped it. Nothing else of any
  port, and not how many ports there are.
\<close>

definition tx_erase :: "'f tls_uart_port \<Rightarrow> 'f tls_uart_port" where
  "tx_erase q = q\<lparr>icount_tx := 0, tx_msg_pending := [], tx_msg_to_be_freed := [], tx_sem := None, hw_stopped := False\<rparr>"

definition tx_frame :: "nat \<Rightarrow> ('h, 'f) uart_state \<Rightarrow> ('h, 'f) uart_state \<Rightarrow> bool" where
  "tx_frame p s s' =
     (length (uart_port s') = length (uart_port s) \<and> (\<forall>q. q \<noteq> p \<longrightarrow> port q s' = port q s)
      \<and> tx_erase (port p s') = tx_erase (port p s))"

lemma tx_frame_refl [simp]: "tx_frame p s s"
  by (simp add: tx_frame_def)

lemma tx_frame_trans: "tx_frame p s s' \<Longrightarrow> tx_frame p s' s'' \<Longrightarrow> tx_frame p s s''"
  by (simp add: tx_frame_def)

lemma tx_frame_upd:
  "p < length (uart_port s) \<Longrightarrow> tx_erase (g (port p s)) = tx_erase (port p s) \<Longrightarrow> tx_frame p s (upd_port p g s)"
  by (simp add: tx_frame_def)

lemma tx_frame_hw [simp]: "tx_frame p s (s\<lparr>hw := h\<rparr>)"
  by (simp add: tx_frame_def)

lemma tx_frame_uart_port: "uart_port s' = uart_port s \<Longrightarrow> tx_frame p s s'"
  by (simp add: tx_frame_def port_def)

lemma tx_erase_eq:
  assumes "tx_erase a = tx_erase b"
  shows "recv a = recv b" "regs a = regs b" "tx_fifofull a = tx_fifofull b" "rx_callback a = rx_callback b"
    "tx_callback a = tx_callback b" "fcStatus a = fcStatus b" "opts a = opts b" "plus_char_cnt a = plus_char_cnt b"
    "uart_no a = uart_no b"
  using arg_cong [OF assms, of recv] arg_cong [OF assms, of regs] arg_cong [OF assms, of tx_fifofull]
    arg_cong [OF assms, of rx_callback] arg_cong [OF assms, of tx_callback] arg_cong [OF assms, of fcStatus]
    arg_cong [OF assms, of opts] arg_cong [OF assms, of plus_char_cnt] arg_cong [OF assms, of uart_no]
  by (simp_all add: tx_erase_def)

lemma tx_frame_keeps:
  assumes "tx_frame p s s'"
  shows "recv (port q s') = recv (port q s)" "port_ok q s' = port_ok q s" "tx_fifofull (port q s') = tx_fifofull (port q s)"
    "rx_callback (port q s') = rx_callback (port q s)" "tx_callback (port q s') = tx_callback (port q s)"
    "regs (port q s') = regs (port q s)" "fcStatus (port q s') = fcStatus (port q s)"
    "length (uart_port s') = length (uart_port s)" "opts (port q s') = opts (port q s)"
    "plus_char_cnt (port q s') = plus_char_cnt (port q s)" "uart_no (port q s') = uart_no (port q s)"
proof -
  have "tx_erase (port q s') = tx_erase (port q s)" using assms by (cases "q = p") (simp_all add: tx_frame_def)
  note k = tx_erase_eq [OF this]
  show "length (uart_port s') = length (uart_port s)" using assms by (simp add: tx_frame_def)
  then show "port_ok q s' = port_ok q s" by (simp add: port_ok_def k)
qed (use assms in \<open>cases "q = p"; simp add: tx_frame_def tx_erase_eq [of "port p s'" "port p s"]\<close>)+

section \<open>Transmitting\<close>

context uart_dev
begin

text \<open>An access that neither takes a received byte nor sends one, nor masks an interrupt.\<close>

definition calm :: "'h \<Rightarrow> 'h \<Rightarrow> bool" where
  "calm h h' = (\<forall>p < 3. prefix (line p h) (line p h') \<and> taken p h' = taken p h \<and> sent p h' = sent p h \<and> level p h' \<le> level p h
     \<and> mask p h' = mask p h \<and> (idle p h \<longrightarrow> idle p h'))"

lemma calm_refl [simp]: "calm h h"
  by (simp add: calm_def)

lemma calm_trans:
  assumes "calm h h'" "calm h' h''"
  shows "calm h h''"
  unfolding calm_def
proof (intro allI impI)
  fix p :: nat assume "p < 3"
  then have "prefix (line p h) (line p h') \<and> taken p h' = taken p h \<and> sent p h' = sent p h \<and> level p h' \<le> level p h \<and> mask p h' = mask p h \<and> (idle p h \<longrightarrow> idle p h')"
    "prefix (line p h') (line p h'') \<and> taken p h'' = taken p h' \<and> sent p h'' = sent p h' \<and> level p h'' \<le> level p h' \<and> mask p h'' = mask p h' \<and> (idle p h' \<longrightarrow> idle p h'')"
    using assms by (simp_all add: calm_def)
  then show "prefix (line p h) (line p h'') \<and> taken p h'' = taken p h \<and> sent p h'' = sent p h \<and> level p h'' \<le> level p h \<and> mask p h'' = mask p h \<and> (idle p h \<longrightarrow> idle p h'')"
    by (auto intro: prefix_order.order_trans)
qed

lemma calm_read:
  "(\<And>p. p < 3 \<Longrightarrow> a \<noteq> HR_UART_BASE_ADDR p + UR_RXW) \<Longrightarrow> calm h (snd (reg_read m a h))"
  by (simp add: calm_def read_line read_taken read_sent read_level read_mask keep_idle)

lemma calm_write:
  "(\<And>p. p < 3 \<Longrightarrow> a \<noteq> HR_UART_BASE_ADDR p + UR_TXW \<and> a \<noteq> HR_UART_BASE_ADDR p + UR_FIFOC
     \<and> a \<noteq> HR_UART_BASE_ADDR p + UR_INTM) \<Longrightarrow> calm h (reg_write m a v h)"
  by (simp add: calm_def write_line write_taken write_sent write_level write_mask keep_idle)

text \<open>What an access for sending on the port \<open>p\<close> leaves alone.\<close>

definition tx_calm :: "nat \<Rightarrow> 'h \<Rightarrow> 'h \<Rightarrow> bool" where
  "tx_calm p h h' = (\<forall>q < 3. prefix (line q h) (line q h') \<and> taken q h' = taken q h \<and> (idle q h \<longrightarrow> idle q h')
     \<and> (q \<noteq> p \<longrightarrow> sent q h' = sent q h \<and> level q h' \<le> level q h))"

lemma calm_tx_calm: "calm h h' \<Longrightarrow> tx_calm p h h'"
  by (simp add: calm_def tx_calm_def)

lemma tx_calm_refl [simp]: "tx_calm p h h"
  by (simp add: tx_calm_def)

lemma tx_calm_trans:
  assumes "tx_calm p h h'" "tx_calm p h' h''"
  shows "tx_calm p h h''"
  unfolding tx_calm_def
proof (intro allI impI)
  fix q :: nat assume "q < 3"
  then have "prefix (line q h) (line q h') \<and> taken q h' = taken q h \<and> (idle q h \<longrightarrow> idle q h') \<and> (q \<noteq> p \<longrightarrow> sent q h' = sent q h \<and> level q h' \<le> level q h)"
    "prefix (line q h') (line q h'') \<and> taken q h'' = taken q h' \<and> (idle q h' \<longrightarrow> idle q h'') \<and> (q \<noteq> p \<longrightarrow> sent q h'' = sent q h' \<and> level q h'' \<le> level q h')"
    using assms by (simp_all add: tx_calm_def)
  then show "prefix (line q h) (line q h'') \<and> taken q h'' = taken q h \<and> (idle q h \<longrightarrow> idle q h'') \<and> (q \<noteq> p \<longrightarrow> sent q h'' = sent q h \<and> level q h'' \<le> level q h)"
    by (auto intro: prefix_order.order_trans)
qed

lemma ur_read_fifos:
  assumes "io e = m" "port_ok p s"
  obtains v h' where "ur_read e p UR_FIFOS s = Some (v, s\<lparr>hw := h'\<rparr>)" "v AND 0x3F = of_nat (level p (hw s))"
    "calm (hw s) h'" "level p h' = level p (hw s)"
    "unat (drop_bit 6 v AND 0x3F) = length (line p h') - taken p h'"
proof -
  have p: "p < 3" "regs (port p s) = Some (HR_UART_BASE_ADDR p)" using assms(2) by (simp_all add: port_ok_def)
  let ?a = "HR_UART_BASE_ADDR p + UR_FIFOS"
  show thesis
  proof (rule that)
    show "ur_read e p UR_FIFOS s = Some (fst (reg_read m ?a (hw s)), s\<lparr>hw := snd (reg_read m ?a (hw s))\<rparr>)"
      using p assms(1) by (simp add: ur_read_def tls_reg_read32_def case_prod_beta)
    show "calm (hw s) (snd (reg_read m ?a (hw s)))" using p by (intro calm_read) simp
  qed (use p read_fifos_tx [of p "hw s"] read_fifos_rx [of p "hw s"] in auto)
qed

lemma ur_write_txw:
  assumes "io e = m" "port_ok p s" "level p h < 32"
  obtains h' where "ur_write e p UR_TXW (ucast c) (s\<lparr>hw := h\<rparr>) = Some (s\<lparr>hw := h'\<rparr>)" "sent p h' = sent p h @ [c]"
    "level p h' = Suc (level p h)" "tx_calm p h h'"
proof -
  have p: "p < 3" "regs (port p s) = Some (HR_UART_BASE_ADDR p)" using assms(2) by (simp_all add: port_ok_def)
  let ?a = "HR_UART_BASE_ADDR p + UR_TXW" and ?c = "ucast c :: u32"
  have c: "ucast ?c = c" by (simp add: bit_eq_iff bit_simps)
  have "?a \<noteq> HR_UART_BASE_ADDR q + UR_FIFOC" "q \<noteq> p \<Longrightarrow> ?a \<noteq> HR_UART_BASE_ADDR q + UR_TXW" if "q < 3" for q
    using p that by simp_all
  then have "tx_calm p h (reg_write m ?a ?c h)"
    by (simp add: tx_calm_def write_line write_taken write_sent write_level keep_idle)
  moreover have "ur_write e p UR_TXW ?c (s\<lparr>hw := h\<rparr>) = Some (s\<lparr>hw := reg_write m ?a ?c h\<rparr>)"
    using p assms(1) by (simp add: ur_write_def tls_reg_write32_def)
  moreover have "sent p (reg_write m ?a ?c h) = sent p h @ [c]" "level p (reg_write m ?a ?c h) = Suc (level p h)"
    using write_txw [OF p(1) assms(3), of ?c] by (simp_all add: c)
  ultimately show thesis using that by blast
qed

lemma tx_fill_spec:
  assumes "io e = m"
  shows "port_ok p s \<Longrightarrow> tx_fifofull (port p s) = 16 \<Longrightarrow> unat (tx_buflen t) \<le> length (tx_buf t) \<Longrightarrow> tx_offset t \<le> tx_buflen t \<Longrightarrow>
    level p (hw s) \<le> 16 \<Longrightarrow> cnt > 16 - int (level p (hw s)) \<Longrightarrow>
    \<exists>full s' k. tx_fill e p cnt t s = Some (full, cnt - 1 - int k, t\<lparr>tx_offset := of_nat (unat (tx_offset t) + k)\<rparr>, s')
      \<and> unat (tx_offset t) + k \<le> unat (tx_buflen t) \<and> tx_frame p s s'
      \<and> tx_msg_pending (port p s') = tx_msg_pending (port p s) \<and> tx_sem (port p s') = tx_sem (port p s)
      \<and> tx_calm p (hw s) (hw s') \<and> sent p (hw s') = sent p (hw s) @ slice (unat (tx_offset t)) k (tx_buf t)
      \<and> level p (hw s') = level p (hw s) + k \<and> level p (hw s') \<le> 16
      \<and> full = (unat (tx_offset t) + k < unat (tx_buflen t)) \<and> (full \<longrightarrow> level p (hw s') = 16)"
proof (induction "nat cnt" arbitrary: cnt t s)
  case 0
  then show ?case by simp
next
  case (Suc n)
  have cnt: "cnt > 0" "n = nat (cnt - 1)" using Suc.hyps(2) by simp_all
  have p: "p < length (uart_port s)" using Suc.prems(1) by (simp add: port_ok_def)
  show ?case
  proof (cases "tx_offset t < tx_buflen t")
    case False
    then have "tx_offset t = tx_buflen t" using Suc.prems(4) by simp
    then show ?thesis using Suc.prems
      by (subst tx_fill.simps) (intro exI [of _ False] exI [of _ s] exI [of _ 0], simp)
  next
    case True
    let ?off = "unat (tx_offset t)"
    obtain v h where v: "ur_read e p UR_FIFOS s = Some (v, s\<lparr>hw := h\<rparr>)" "v AND 0x3F = of_nat (level p (hw s))"
      and h: "calm (hw s) h" "level p h = level p (hw s)"
      using ur_read_fifos [OF assms Suc.prems(1)] by metis
    have eq16: "v AND 0x3F = 16 \<longleftrightarrow> level p (hw s) = 16"
    proof -
      have "(of_nat (level p (hw s)) :: u32) = of_nat 16 \<longleftrightarrow> level p (hw s) = 16"
        using Suc.prems(5) by (subst word_of_nat_eq_iff) (simp add: take_bit_eq_mod)
      then show ?thesis unfolding v(2) by simp
    qed
    show ?thesis
    proof (cases "level p (hw s) = 16")
      case True
      then show ?thesis using Suc.prems cnt v h eq16 \<open>tx_offset t < tx_buflen t\<close>
        by (subst tx_fill.simps)
          (intro exI [of _ True] exI [of _ "s\<lparr>hw := h\<rparr>"] exI [of _ 0], simp add: word_less_nat_alt calm_tx_calm calm_def port_ok_def)
    next
      case False
      have off: "?off < unat (tx_buflen t)" using True by (simp add: word_less_nat_alt)
      then have get: "buf_get (tx_buf t) ?off 1 = Some (slice ?off 1 (tx_buf t))" using Suc.prems(3) by simp
      let ?c = "slice ?off 1 (tx_buf t) ! 0" and ?t = "t\<lparr>tx_offset := tx_offset t + 1\<rparr>"
      have lv: "level p h < 32" using h(2) Suc.prems(5) by simp
      obtain h' where w: "ur_write e p UR_TXW (ucast ?c) (s\<lparr>hw := h\<rparr>) = Some (s\<lparr>hw := h'\<rparr>)"
        and h': "sent p h' = sent p h @ [?c]" "level p h' = Suc (level p h)" "tx_calm p h h'"
        by (rule ur_write_txw [OF assms Suc.prems(1) lv])
      let ?s = "upd_port p (\<lambda>q. q\<lparr>icount_tx := icount_tx q + 1\<rparr>) (s\<lparr>hw := h'\<rparr>)"
      have off1: "unat (tx_offset ?t) = Suc ?off"
        using off unsigned_less [of "tx_buflen t", where 'a = nat] by (simp add: unat_word_ariths)
      have frame: "tx_frame p s ?s"
        using p by (intro tx_frame_trans [OF tx_frame_hw tx_frame_upd]) (simp_all add: tx_erase_def)
      have IH: "\<exists>full s' k. tx_fill e p (cnt - 1) ?t ?s = Some (full, (cnt - 1) - 1 - int k, ?t\<lparr>tx_offset := of_nat (unat (tx_offset ?t) + k)\<rparr>, s')
        \<and> unat (tx_offset ?t) + k \<le> unat (tx_buflen ?t) \<and> tx_frame p ?s s'
        \<and> tx_msg_pending (port p s') = tx_msg_pending (port p ?s) \<and> tx_sem (port p s') = tx_sem (port p ?s)
        \<and> tx_calm p (hw ?s) (hw s') \<and> sent p (hw s') = sent p (hw ?s) @ slice (unat (tx_offset ?t)) k (tx_buf ?t)
        \<and> level p (hw s') = level p (hw ?s) + k \<and> level p (hw s') \<le> 16
        \<and> full = (unat (tx_offset ?t) + k < unat (tx_buflen ?t)) \<and> (full \<longrightarrow> level p (hw s') = 16)"
      proof (rule Suc.hyps(1) [OF cnt(2)])
        show "port_ok p ?s" using Suc.prems(1) tx_frame_keeps(2) [OF frame, of p] by simp
        show "tx_offset ?t \<le> tx_buflen ?t" using off off1 by (simp add: word_le_nat_alt)
      qed (use Suc.prems p h h' False in simp_all)
      obtain full s' k where r: "tx_fill e p (cnt - 1) ?t ?s = Some (full, cnt - 1 - 1 - int k, ?t\<lparr>tx_offset := of_nat (Suc ?off + k)\<rparr>, s')"
        and r2: "Suc ?off + k \<le> unat (tx_buflen t)" "tx_frame p ?s s'" "tx_msg_pending (port p s') = tx_msg_pending (port p s)"
          "tx_sem (port p s') = tx_sem (port p s)" "tx_calm p h' (hw s')" "sent p (hw s') = sent p h' @ slice (Suc ?off) k (tx_buf t)"
          "level p (hw s') = level p h' + k" "level p (hw s') \<le> 16"
          "full = (Suc ?off + k < unat (tx_buflen t))" "full \<longrightarrow> level p (hw s') = 16"
        using IH unfolding off1 by (elim exE conjE) (rule that; (assumption | simp add: p))
      have eq: "tx_fill e p cnt t s = tx_fill e p (cnt - 1) ?t ?s"
        using cnt(1) True v(1) eq16 False get w Suc.prems(2) by (subst tx_fill.simps) simp
      have one: "slice ?off 1 (tx_buf t) = [?c]" using off Suc.prems(3) by (simp add: slice_def take_Suc_conv_app_nth)
      have sl: "slice ?off (Suc k) (tx_buf t) = ?c # slice (Suc ?off) k (tx_buf t)"
        using slice_append_slice [of ?off 1 "tx_buf t" k] one by (metis One_nat_def Suc_eq_plus1 append_Cons append_Nil plus_1_eq_Suc)
      have hs: "sent p h = sent p (hw s)" using h(1) Suc.prems(1) by (simp add: calm_def port_ok_def)
      show ?thesis
        unfolding eq
      proof (intro exI conjI)
        show "tx_fill e p (cnt - 1) ?t ?s = Some (full, cnt - 1 - int (Suc k), t\<lparr>tx_offset := of_nat (?off + Suc k)\<rparr>, s')"
          unfolding r by simp
        show "tx_calm p (hw s) (hw s')"
          using tx_calm_trans [OF calm_tx_calm [OF h(1)] tx_calm_trans [OF h'(3) r2(5)]] .
        show "sent p (hw s') = sent p (hw s) @ slice ?off (Suc k) (tx_buf t)"
          unfolding r2(6) h'(1) hs sl by simp
      qed (use r2 tx_frame_trans [OF frame r2(2)] h(2) h'(2) in simp_all)
    qed
  qed
qed

text \<open>The callback after a message, and the list after it.\<close>

lemma call_tx_frame:
  assumes "quiet_callbacks e" "p < length (uart_port s)"
  shows "tx_frame p s (call_tx e p s)" "hw (call_tx e p s) = hw s"
    "tx_msg_pending (port p (call_tx e p s)) = tx_msg_pending (port p s)" "tx_sem (port p (call_tx e p s)) = tx_sem (port p s)"
proof -
  have u: "port q (run_tx e f p s) = port q s" "hw (run_tx e f p s) = hw s" "uart_port (run_tx e f p s) = uart_port s" for f q
    using assms(1) by (simp_all add: quiet_callbacks_def port_def)
  show "tx_frame p s (call_tx e p s)" "hw (call_tx e p s) = hw s"
    "tx_msg_pending (port p (call_tx e p s)) = tx_msg_pending (port p s)" "tx_sem (port p (call_tx e p s)) = tx_sem (port p s)"
    using assms(2)
    by (auto simp: call_tx_def tls_uart_free_tx_sent_data_def tx_erase_def u
        split: option.split tx_callback.split intro: tx_frame_upd tx_frame_uart_port)
qed

lemma tx_put_back_frame:
  assumes "quiet_callbacks e" "p < length (uart_port s)"
  shows "tx_frame p s (tx_put_back e p t rest s)" "hw (tx_put_back e p t rest s) = hw s"
    "tx_msg_pending (port p (tx_put_back e p t rest s)) = (if tx_offset t \<ge> tx_buflen t then rest else t # rest)"
    "tx_sem (port p (tx_put_back e p t rest s)) = tx_sem (port p s)"
proof -
  let ?s = "upd_port p (\<lambda>q. q\<lparr>tx_msg_pending := rest, tx_msg_to_be_freed := tx_msg_to_be_freed q @ [t]\<rparr>) s"
  have f: "tx_frame p s ?s" using assms(2) by (rule tx_frame_upd) (simp add: tx_erase_def)
  have l: "p < length (uart_port ?s)" using assms(2) by simp
  note c = call_tx_frame [OF assms(1) l]
  show "tx_frame p s (tx_put_back e p t rest s)"
    using tx_frame_trans [OF f c(1)] tx_frame_upd [OF assms(2), of "\<lambda>q. q\<lparr>tx_msg_pending := t # rest\<rparr>"]
    by (simp add: tx_put_back_def tx_erase_def)
  show "hw (tx_put_back e p t rest s) = hw s"
    "tx_msg_pending (port p (tx_put_back e p t rest s)) = (if tx_offset t \<ge> tx_buflen t then rest else t # rest)"
    "tx_sem (port p (tx_put_back e p t rest s)) = tx_sem (port p s)"
    using c(2-4) assms(2) by (simp_all add: tx_put_back_def)
qed

lemma remaining_step:
  assumes "unat (tx_offset t) + k \<le> unat (tx_buflen t)"
  shows "remaining t = slice (unat (tx_offset t)) k (tx_buf t) @ remaining (t\<lparr>tx_offset := of_nat (unat (tx_offset t) + k)\<rparr>)"
proof -
  have "unat (of_nat (unat (tx_offset t) + k) :: u16) = unat (tx_offset t) + k"
    using assms unsigned_less [of "tx_buflen t", where 'a = nat] by (simp add: unat_of_nat take_bit_eq_mod del: of_nat_add)
  then show ?thesis
    using slice_append_slice [of "unat (tx_offset t)" k "tx_buf t" "unat (tx_buflen t) - (unat (tx_offset t) + k)"] assms
    by (simp add: remaining_def del: of_nat_add)
qed

text \<open>
  One message: what was outstanding is either sent or still outstanding, and the FIFO is full unless the
  message is done.
\<close>

lemma tx_first_spec:
  assumes "io e = m" "quiet_callbacks e" "port_ok p s" "tx_ok p s" "level p (hw s) \<le> 16"
    and pend: "tx_msg_pending (port p s) = t # rest" and cnt: "cnt > 16 - int (level p (hw s))"
  obtains full k t' s1 s2 where "tx_fill e p cnt t s = Some (full, cnt - 1 - int k, t', s1)" "s2 = tx_put_back e p t' rest s1"
    "tx_frame p s s2" "tx_calm p (hw s) (hw s2)" "sent p (hw s2) @ outstanding p s2 = sent p (hw s) @ outstanding p s"
    "level p (hw s2) = level p (hw s) + k" "level p (hw s2) \<le> 16" "tx_ok p s2" "tx_sem (port p s2) = tx_sem (port p s)"
    "full \<Longrightarrow> level p (hw s2) = 16" "\<not> full \<Longrightarrow> tx_msg_pending (port p s2) = rest \<and> k > 0"
    "length (sent p (hw s2)) + level p (hw s) = length (sent p (hw s)) + level p (hw s2)"
proof -
  have ok: "msg_ok t" "tx_fifofull (port p s) = 16" "list_all msg_ok rest" using assms(4) pend by (simp_all add: tx_ok_def)
  have p: "p < length (uart_port s)" using assms(3) by (simp add: port_ok_def)
  have le: "unat (tx_buflen t) \<le> length (tx_buf t)" "tx_offset t \<le> tx_buflen t" "unat (tx_offset t) < unat (tx_buflen t)"
    using ok(1) by (simp add: msg_ok_def, simp add: msg_ok_def order_less_imp_le, simp add: msg_ok_def word_less_nat_alt)
  obtain full s1 k where f: "tx_fill e p cnt t s = Some (full, cnt - 1 - int k, t\<lparr>tx_offset := of_nat (unat (tx_offset t) + k)\<rparr>, s1)"
    and k: "unat (tx_offset t) + k \<le> unat (tx_buflen t)" and fr: "tx_frame p s s1" 
    and pd: "tx_msg_pending (port p s1) = tx_msg_pending (port p s)" and sem: "tx_sem (port p s1) = tx_sem (port p s)"
    and calm: "tx_calm p (hw s) (hw s1)" and st: "sent p (hw s1) = sent p (hw s) @ slice (unat (tx_offset t)) k (tx_buf t)"
    and lv: "level p (hw s1) = level p (hw s) + k" "level p (hw s1) \<le> 16"
    and full: "full = (unat (tx_offset t) + k < unat (tx_buflen t))" "full \<longrightarrow> level p (hw s1) = 16"
    using tx_fill_spec [OF assms(1) assms(3) ok(2) le(1,2) assms(5) cnt] by blast
  let ?t = "t\<lparr>tx_offset := of_nat (unat (tx_offset t) + k)\<rparr>"
  have p1: "p < length (uart_port s1)" using p tx_frame_keeps(8) [OF fr] by simp
  note b = tx_put_back_frame [OF assms(2) p1, of ?t rest]
  have off: "unat (tx_offset ?t) = unat (tx_offset t) + k"
    using k unsigned_less [of "tx_buflen t", where 'a = nat] by (simp add: unat_of_nat take_bit_eq_mod del: of_nat_add)
  have dn: "tx_buflen ?t \<le> tx_offset ?t \<longleftrightarrow> \<not> full" unfolding full(1) word_le_nat_alt off by (simp add: not_less)
  have out: "outstanding p s = remaining t @ concat (map remaining rest)" using pend by (simp add: outstanding_def)
  have emp: "\<not> full \<Longrightarrow> remaining ?t = []" using full(1) k unfolding remaining_def off by (simp add: slice_def)
  show thesis
  proof (rule that [OF f refl])
    show "tx_frame p s (tx_put_back e p ?t rest s1)" using tx_frame_trans [OF fr b(1)] .
    show "tx_calm p (hw s) (hw (tx_put_back e p ?t rest s1))" using calm b(2) by simp
    show "sent p (hw (tx_put_back e p ?t rest s1)) @ outstanding p (tx_put_back e p ?t rest s1) = sent p (hw s) @ outstanding p s"
      using b(3) dn emp unfolding b(2) st out remaining_step [OF k] by (cases full) (simp_all add: outstanding_def)
    show "tx_ok p (tx_put_back e p ?t rest s1)"
      using b(3) dn ok tx_frame_keeps(3) [OF b(1)] tx_frame_keeps(3) [OF fr] le(1) unfolding tx_ok_def
      by (cases full) (simp_all add: msg_ok_def not_le)
    show "tx_msg_pending (port p (tx_put_back e p ?t rest s1)) = rest \<and> k > 0" if "\<not> full"
      using that b(3) dn full(1) le(3) by simp
    show "length (sent p (hw (tx_put_back e p ?t rest s1))) + level p (hw s) = length (sent p (hw s)) + level p (hw (tx_put_back e p ?t rest s1))"
      unfolding b(2) st lv(1) using k le(1) by simp
  qed (use b lv sem full in simp_all)
qed

lemma tx_chars_loop_spec:
  assumes "io e = m" "quiet_callbacks e"
  shows "port_ok p s \<Longrightarrow> tx_ok p s \<Longrightarrow> level p (hw s) \<le> 16 \<Longrightarrow> cnt > 2 * (16 - int (level p (hw s))) \<Longrightarrow>
    \<exists>s'. tx_chars_loop e p cnt s = Some s' \<and> tx_frame p s s' \<and> tx_calm p (hw s) (hw s')
      \<and> sent p (hw s') @ outstanding p s' = sent p (hw s) @ outstanding p s \<and> level p (hw s') \<le> 16 \<and> tx_ok p s'
      \<and> tx_sem (port p s') = tx_sem (port p s) \<and> (tx_msg_pending (port p s') = [] \<or> level p (hw s') = 16)
      \<and> length (sent p (hw s')) + level p (hw s) = length (sent p (hw s)) + level p (hw s')"
proof (induction "tx_msg_pending (port p s)" arbitrary: s cnt)
  case Nil
  then show ?case by (subst tx_chars_loop.simps) simp
next
  case (Cons t rest)
  have c: "cnt > 16 - int (level p (hw s))" using Cons.prems(3,4) by simp
  obtain full k t' s1 s2 where f: "tx_fill e p cnt t s = Some (full, cnt - 1 - int k, t', s1)" "s2 = tx_put_back e p t' rest s1"
    and r: "tx_frame p s s2" "tx_calm p (hw s) (hw s2)" "sent p (hw s2) @ outstanding p s2 = sent p (hw s) @ outstanding p s"
      "level p (hw s2) = level p (hw s) + k" "level p (hw s2) \<le> 16" "tx_ok p s2" "tx_sem (port p s2) = tx_sem (port p s)"
      "full \<Longrightarrow> level p (hw s2) = 16" "\<not> full \<Longrightarrow> tx_msg_pending (port p s2) = rest \<and> k > 0"
      "length (sent p (hw s2)) + level p (hw s) = length (sent p (hw s)) + level p (hw s2)"
    by (rule tx_first_spec [OF assms Cons.prems(1-3) Cons.hyps(2) [symmetric] c]) blast
  have step: "tx_chars_loop e p cnt s = (if full then Some s2 else tx_chars_loop e p (cnt - 1 - int k) s2)"
    by (subst tx_chars_loop.simps) (simp add: f Cons.hyps(2) [symmetric])
  show ?case
  proof (cases full)
    case True
    then show ?thesis unfolding step using r by auto
  next
    case False
    have "\<exists>s'. tx_chars_loop e p (cnt - 1 - int k) s2 = Some s' \<and> tx_frame p s2 s' \<and> tx_calm p (hw s2) (hw s')
      \<and> sent p (hw s') @ outstanding p s' = sent p (hw s2) @ outstanding p s2 \<and> level p (hw s') \<le> 16 \<and> tx_ok p s'
      \<and> tx_sem (port p s') = tx_sem (port p s2) \<and> (tx_msg_pending (port p s') = [] \<or> level p (hw s') = 16)
      \<and> length (sent p (hw s')) + level p (hw s2) = length (sent p (hw s2)) + level p (hw s')"
    proof (rule Cons.hyps(1))
      show "rest = tx_msg_pending (port p s2)" using r(9) [OF False] by simp
      show "port_ok p s2" using Cons.prems(1) tx_frame_keeps(2) [OF r(1)] by simp
      show "cnt - 1 - int k > 2 * (16 - int (level p (hw s2)))" using Cons.prems(4) r(4) r(9) [OF False] by simp
    qed (use r in simp_all)
    then obtain s' where s': "tx_chars_loop e p (cnt - 1 - int k) s2 = Some s'" "tx_frame p s2 s'" "tx_calm p (hw s2) (hw s')"
      "sent p (hw s') @ outstanding p s' = sent p (hw s2) @ outstanding p s2" "level p (hw s') \<le> 16" "tx_ok p s'"
      "tx_sem (port p s') = tx_sem (port p s2)" "tx_msg_pending (port p s') = [] \<or> level p (hw s') = 16"
      "length (sent p (hw s')) + level p (hw s2) = length (sent p (hw s2)) + level p (hw s')" by blast
    show ?thesis
      unfolding step using False s' r(3,7,10) tx_frame_trans [OF r(1) s'(2)] tx_calm_trans [OF r(2) s'(3)]
      by (intro exI [of _ s']) simp
  qed
qed

text \<open>\<open>tls_uart_tx_chars\<close>: it goes on until nothing is left or the FIFO is full, and gives the semaphore when there
  was nothing to send.\<close>

lemma release_tx_sem_frame:
  "p < length (uart_port s) \<Longrightarrow> tx_frame p s (release_tx_sem p s)"
  "hw (release_tx_sem p s) = hw s" "p < length (uart_port s) \<Longrightarrow> tx_msg_pending (port p (release_tx_sem p s)) = tx_msg_pending (port p s)"
  by (auto simp: release_tx_sem_def tx_erase_def split: option.split intro: tx_frame_upd)

lemma tls_uart_tx_chars_spec:
  assumes "io e = m" "quiet_callbacks e" "port_ok p s" "tx_ok p s" "level p (hw s) \<le> 16"
  shows "\<exists>s'. tls_uart_tx_chars e p s = Some s' \<and> tx_frame p s s' \<and> tx_calm p (hw s) (hw s')
      \<and> sent p (hw s') @ outstanding p s' = sent p (hw s) @ outstanding p s \<and> level p (hw s') \<le> 16 \<and> tx_ok p s'
      \<and> (tx_msg_pending (port p s') = [] \<or> level p (hw s') = 16)
      \<and> (tx_msg_pending (port p s) = [] \<longrightarrow> s' = release_tx_sem p s)
      \<and> (tx_msg_pending (port p s) \<noteq> [] \<longrightarrow> tx_sem (port p s') = tx_sem (port p s))
      \<and> length (sent p (hw s')) + level p (hw s) = length (sent p (hw s)) + level p (hw s')"
proof (cases "tx_msg_pending (port p s) = []")
  case True
  have p: "p < length (uart_port s)" using assms(3) by (simp add: port_ok_def)
  note r = release_tx_sem_frame (1) [OF p] release_tx_sem_frame (2) [of p s] release_tx_sem_frame (3) [OF p]
  show ?thesis
    using True assms(4,5) r tx_frame_keeps(3) [OF r(1), of p]
    by (simp add: tls_uart_tx_chars_def outstanding_def tx_ok_def)
next
  case False
  have "(64 :: int) > 2 * (16 - int (level p (hw s)))" by simp
  from tx_chars_loop_spec [OF assms this] False show ?thesis by (auto simp: tls_uart_tx_chars_def)
qed

end

end
