(* ===== verification/Uart_Irq.thy ===== *)
theory Uart_Irq
  imports Uart_Dev
begin

text \<open>
  The interrupt handlers of the UART on a device that meets its contract: receiving moves bytes from the FIFO
  to the end of the ring in order. \<open>hist\<close> is all that the driver has taken from the line of a port.
\<close>

definition uart_ok :: "(nat \<Rightarrow> 'h \<Rightarrow> nat) \<Rightarrow> nat \<Rightarrow> ('h, 'f) uart_state \<Rightarrow> bool" where
  "uart_ok level p s = (port_ok p s \<and> tx_ok p s \<and> ring_ok (recv (port p s)) \<and> level p (hw s) \<le> 16 \<and> uart_no (port p s) = of_nat p)"

definition hist :: "(nat \<Rightarrow> 'h \<Rightarrow> bytes) \<Rightarrow> (nat \<Rightarrow> 'h \<Rightarrow> nat) \<Rightarrow> nat \<Rightarrow> 'h \<Rightarrow> bytes" where
  "hist line taken p h = take (taken p h) (line p h)"

abbreviation set_recv :: "nat \<Rightarrow> tls_uart_circ_buf \<Rightarrow> ('h, 'f) uart_state \<Rightarrow> ('h, 'f) uart_state" where
  "set_recv p r s \<equiv> upd_port p (\<lambda>q. q\<lparr>recv := r\<rparr>) s"

text \<open>The receive part of the handler of UART 1.\<close>

definition irq_body1 :: "('h, 'f) uart_env \<Rightarrow> u32 \<Rightarrow> u32 \<Rightarrow> ('h, 'f) uart_state \<Rightarrow> ('h, 'f) uart_state option" where
  "irq_body1 e intr_src cnt s = do {
     let s = upd_port 1 (\<lambda>q. q\<lparr>plus_char_cnt := 0\<rparr>) s;
     let r = recv (port 1 s);
     let s = (if CIRC_SPACE (recv_head r) (recv_tail r) \<le> RX_CACHE_LIMIT
              then upd_port 1 (\<lambda>q. q\<lparr>recv := r\<lparr>recv_tail := (recv_tail r + RX_CACHE_LIMIT) AND 4095\<rparr>\<rparr>) s
              else s);
     (ch, s) \<leftarrow> rx_loop1 e intr_src (unat cnt) 0 s;
     plus \<leftarrow> (if cnt = 3 \<and> ch = 0x2B then plus_check (recv (port 1 s)) else Some False);
     let s = (if plus then upd_port 1 (\<lambda>q. q\<lparr>plus_char_cnt := 3\<rparr>) s else s);
     Some (call_rx e 1 cnt s)
   }"

lemma prefix_take_drop:
  assumes "prefix xs ys" "k + n \<le> length xs"
  shows "take n (drop k ys) = take n (drop k xs)"
  using assms by (auto elim!: prefixE)

section \<open>The check for three plus signs\<close>

text \<open>Where the head is not at the start of the buffer, the check looks at the last two bytes but one of the queue.\<close>

lemma plus_check_queue:
  assumes "ring_ok r" "queue r = xs @ [a, b, c]" "recv_head r \<noteq> 0"
  shows "plus_check r = Some (a = 0x2B \<and> b = 0x2B)"
proof -
  let ?h = "unat (recv_head r)" and ?t = "unat (recv_tail r)"
  obtain buf where buf: "recv_buf r = Some buf" "length buf = 4096" and h: "?h < 4096" and t: "?t < 4096"
    using assms(1) by (auto simp: ring_ok_def)
  have len: "queue_len r = length xs + 3" using arg_cong [OF assms(2), of length] by simp
  have len0: "queue_len r = (if ?t \<le> ?h then ?h - ?t else ?h + 4096 - ?t)"
    unfolding queue_len_def by (rule ring_distance [OF h t])
  have h0: "?h \<noteq> 0" using assms(3) by (simp add: unat_eq_0)
  have at: "queue r ! (queue_len r - k) = buf ! ((?h + 4096 - k) mod 4096)" if "0 < k" "k \<le> 3" for k
  proof -
    have i: "queue_len r - k < queue_len r" using that len by simp
    have "?t + queue_len r = ?h \<or> ?t + queue_len r = ?h + 4096" unfolding len0 using t by simp
    then have "(?t + (queue_len r - k)) mod 4096 = (?h + 4096 - k) mod 4096"
    proof
      assume "?t + queue_len r = ?h"
      then have "?t + (queue_len r - k) = ?h - k" "?h + 4096 - k = ?h - k + 4096" using that len by simp_all
      then show ?thesis by (simp only: mod_add_self2)
    next
      assume "?t + queue_len r = ?h + 4096"
      then have "?t + (queue_len r - k) = ?h + 4096 - k" using that len by simp
      then show ?thesis by simp
    qed
    then show ?thesis using i buf(1) by simp
  qed
  have b: "buf ! ((?h + 4094) mod 4096) = b" using at [of 2] len unfolding assms(2) by (simp add: nth_append add.commute)
  have a: "buf ! ((?h + 4093) mod 4096) = a" using at [of 3] len unfolding assms(2) by (simp add: nth_append add.commute)
  have one: "recv_head r - 1 = 0 \<longleftrightarrow> ?h = 1"
  proof -
    have "recv_head r - 1 = 0 \<longleftrightarrow> recv_head r = 1" by (simp add: diff_eq_eq)
    then show ?thesis by (simp add: word_unat_eq_iff)
  qed
  have two: "recv_head r - 1 = 1 \<longleftrightarrow> ?h = 2"
  proof -
    have "recv_head r - 1 = 1 \<longleftrightarrow> recv_head r = 2" by (simp add: diff_eq_eq)
    then show ?thesis by (simp add: word_unat_eq_iff)
  qed
  have is_plus: "recv_is_plus r i = Some (buf ! unat i = 0x2B)" if "unat i < 4096" for i
    using that buf by (simp add: recv_is_plus_def slice_def nth_drop)
  consider "?h = 1" | "?h = 2" | "?h \<ge> 3" using h0 by linarith
  then show ?thesis
  proof cases
    case 1
    then show ?thesis using one two is_plus a b by (simp add: plus_check_def conj_commute)
  next
    case 2
    then show ?thesis using one two is_plus a b by (simp add: plus_check_def conj_commute)
  next
    case 3
    have u: "unat (recv_head r - 2) = ?h - 2" "unat (recv_head r - 3) = ?h - 3"
      using 3 by (simp_all add: unat_sub word_le_nat_alt)
    have m: "(?h + 4094) mod 4096 = ?h - 2" "(?h + 4093) mod 4096 = ?h - 3"
      using 3 h by (simp_all add: le_mod_geq)
    show ?thesis using 3 one two is_plus [of "recv_head r - 2"] is_plus [of "recv_head r - 3"] u m a b h
      by (simp add: plus_check_def conj_commute)
  qed
qed

context uart_dev
begin

section \<open>Receiving\<close>

text \<open>\<open>n\<close> bytes have been taken from the line of \<open>p\<close>; nothing else has happened.\<close>

definition took :: "nat \<Rightarrow> nat \<Rightarrow> 'h \<Rightarrow> 'h \<Rightarrow> bool" where
  "took p n h h' = (\<forall>q < 3. prefix (line q h) (line q h') \<and> taken q h' = taken q h + (if q = p then n else 0)
     \<and> sent q h' = sent q h \<and> level q h' \<le> level q h)"

lemma took_0: "took p 0 h h"
  by (simp add: took_def)

lemma calm_took: "calm h h' \<Longrightarrow> took p 0 h h'"
  by (simp add: took_def calm_def)

lemma took_trans:
  assumes "took p a h h'" "took p b h' h''"
  shows "took p (a + b) h h''"
  unfolding took_def
proof (intro allI impI)
  fix q :: nat assume "q < 3"
  then have "prefix (line q h) (line q h') \<and> taken q h' = taken q h + (if q = p then a else 0) \<and> sent q h' = sent q h \<and> level q h' \<le> level q h"
    "prefix (line q h') (line q h'') \<and> taken q h'' = taken q h' + (if q = p then b else 0) \<and> sent q h'' = sent q h' \<and> level q h'' \<le> level q h'"
    using assms by (simp_all add: took_def)
  then show "prefix (line q h) (line q h'') \<and> taken q h'' = taken q h + (if q = p then a + b else 0) \<and> sent q h'' = sent q h \<and> level q h'' \<le> level q h"
    by (auto intro: prefix_order.order_trans)
qed

lemma hist_took:
  assumes "took p n h h'" "p < 3" "n \<le> length (line p h) - taken p h"
  shows "hist line taken p h' = hist line taken p h @ take n (drop (taken p h) (line p h))"
proof -
  have t: "prefix (line p h) (line p h')" "taken p h' = taken p h + n" using assms(1,2) by (simp_all add: took_def)
  then obtain xs where "line p h' = line p h @ xs" by (auto elim: prefixE)
  then show ?thesis
    using t(2) assms(3) taken_le [OF assms(2), of h] by (simp add: hist_def take_add)
qed

lemma hist_calm: "calm h h' \<Longrightarrow> p < 3 \<Longrightarrow> hist line taken p h' = hist line taken p h"
  using hist_took [of p 0 h h'] by (simp add: calm_took)

lemma hist_tx_calm:
  assumes "tx_calm q h h'" "p < 3"
  shows "hist line taken p h' = hist line taken p h"
proof -
  have "prefix (line p h) (line p h')" "taken p h' = taken p h" using assms by (simp_all add: tx_calm_def)
  then show ?thesis using taken_le [OF assms(2), of h] by (auto simp: hist_def elim!: prefixE)
qed

lemma ur_access:
  assumes "io e = m" "port_ok p s"
  shows "ur_read e p r s = Some (fst (reg_read m (HR_UART_BASE_ADDR p + r) (hw s)), s\<lparr>hw := snd (reg_read m (HR_UART_BASE_ADDR p + r) (hw s))\<rparr>)"
    "ur_write e p r v s = Some (s\<lparr>hw := reg_write m (HR_UART_BASE_ADDR p + r) v (hw s)\<rparr>)"
  using assms by (simp_all add: ur_read_def ur_write_def tls_reg_read32_def tls_reg_write32_def port_ok_def case_prod_beta)

lemma ur_update_calm:
  assumes "io e = m" "port_ok p s" "r < 0x200" "r \<noteq> UR_RXW" "r \<noteq> UR_TXW" "r \<noteq> UR_FIFOC" "r \<noteq> UR_INTM"
  shows "\<exists>h. ur_update e p r f s = Some (s\<lparr>hw := h\<rparr>) \<and> calm (hw s) h"
proof -
  let ?a = "HR_UART_BASE_ADDR p + r"
  have p: "p < 3" "regs (port p s) = Some (HR_UART_BASE_ADDR p)" using assms(2) by (simp_all add: port_ok_def)
  have "calm (hw s) (snd (reg_read m ?a (hw s)))" using p(1) assms(3-7) by (intro calm_read) simp
  moreover have "calm (snd (reg_read m ?a (hw s))) (reg_write m ?a v (snd (reg_read m ?a (hw s))))" for v
    using p(1) assms(3-7) by (intro calm_write) simp
  ultimately show ?thesis
    using p assms(1) calm_trans
    by (simp add: ur_update_def reg_update_def tls_reg_read32_def tls_reg_write32_def case_prod_beta) blast
qed

lemma recv_put_spec:
  assumes "p < length (uart_port s)" "ring_ok (recv (port p s))" "queue_len (recv (port p s)) < 4095"
  shows "\<exists>r. recv_put p ch s = Some (set_recv p r s) \<and> ring_ok r \<and> queue r = queue (recv (port p s)) @ [ch]
    \<and> recv_head r = (recv_head (recv (port p s)) + 1) AND 4095 \<and> recv_tail r = recv_tail (recv (port p s))"
proof -
  let ?r = "recv (port p s)"
  obtain b where b: "recv_buf ?r = Some b" "length b = 4096" "unat (recv_head ?r) < 4096" using assms(2) by (auto simp: ring_ok_def)
  let ?r' = "?r\<lparr>recv_buf := Some (patch (the (recv_buf ?r)) (unat (recv_head ?r)) [ch]), recv_head := (recv_head ?r + 1) AND 4095\<rparr>"
  have "recv_put p ch s = Some (set_recv p ?r' s)"
    using b by (simp add: recv_put_def Let_def upd_port_def)
  then show ?thesis using queue_put [OF assms(2,3) refl, of ch] by (intro exI [of _ ?r']) simp
qed

text \<open>One byte is taken from the FIFO, and put into the ring.\<close>

lemma rx_take:
  assumes "io e = m" "port_ok p s" "taken p (hw s) < length (line p (hw s))"
  obtains v h where "ur_read e p UR_RXW s = Some (v, s\<lparr>hw := h\<rparr>)" "ucast v = line p (hw s) ! taken p (hw s)" "took p 1 (hw s) h"
proof -
  let ?a = "HR_UART_BASE_ADDR p + UR_RXW"
  define v where "v = fst (reg_read m ?a (hw s))"
  define h where "h = snd (reg_read m ?a (hw s))"
  have p: "p < 3" using assms(2) by (simp add: port_ok_def)
  have v: "ur_read e p UR_RXW s = Some (v, s\<lparr>hw := h\<rparr>)" unfolding v_def h_def by (rule ur_access [OF assms(1,2)])
  have c: "ucast v = line p (hw s) ! taken p (hw s)" "taken p h = Suc (taken p (hw s))"
    unfolding v_def h_def using read_rxw [OF p assms(3)] by simp_all
  have "took p 1 (hw s) h"
    unfolding took_def
  proof (intro allI impI)
    fix q :: nat assume q: "q < 3"
    show "prefix (line q (hw s)) (line q h) \<and> taken q h = taken q (hw s) + (if q = p then 1 else 0)
      \<and> sent q h = sent q (hw s) \<and> level q h \<le> level q (hw s)"
      using q p c(2) read_taken [OF q, of ?a "hw s"]
      by (cases "q = p") (simp_all add: read_line read_sent read_level h_def)
  qed
  then show thesis using that [OF v c(1)] by simp
qed

lemma rx_byte:
  assumes "io e = m" "port_ok p s" "ring_ok (recv (port p s))" "queue_len (recv (port p s)) < 4095"
    and "taken p (hw s) < length (line p (hw s))"
  obtains v h r where "ur_read e p UR_RXW s = Some (v, s\<lparr>hw := h\<rparr>)" "ucast v = line p (hw s) ! taken p (hw s)"
    "recv_put p (ucast v) (s\<lparr>hw := h\<rparr>) = Some ((set_recv p r s)\<lparr>hw := h\<rparr>)" "ring_ok r"
    "queue r = queue (recv (port p s)) @ [line p (hw s) ! taken p (hw s)]" "took p 1 (hw s) h"
    "recv_head r = (recv_head (recv (port p s)) + 1) AND 4095" "recv_tail r = recv_tail (recv (port p s))"
proof -
  have p: "p < length (uart_port s)" using assms(2) by (simp add: port_ok_def)
  obtain v h where v: "ur_read e p UR_RXW s = Some (v, s\<lparr>hw := h\<rparr>)" "ucast v = line p (hw s) ! taken p (hw s)" "took p 1 (hw s) h"
    by (rule rx_take [OF assms(1,2,5)])
  obtain r where "recv_put p (ucast v) (s\<lparr>hw := h\<rparr>) = Some (set_recv p r (s\<lparr>hw := h\<rparr>))" "ring_ok r"
    "queue r = queue (recv (port p s)) @ [ucast v]" "recv_head r = (recv_head (recv (port p s)) + 1) AND 4095"
    "recv_tail r = recv_tail (recv (port p s))"
    using recv_put_spec [of p "s\<lparr>hw := h\<rparr>" "ucast v"] p assms(3,4) by auto
  then show thesis using that [OF v(1,2)] v(2,3) by (simp add: upd_port_hw_commute)
qed

text \<open>The rest of the line after one byte, and the bytes the next accesses take.\<close>

lemma took_rest:
  assumes "took p 1 h h'" "p < 3" "Suc n \<le> length (line p h) - taken p h"
  shows "n \<le> length (line p h') - taken p h'"
    "take (Suc n) (drop (taken p h) (line p h)) = line p h ! taken p h # take n (drop (taken p h') (line p h'))"
proof -
  have t: "prefix (line p h) (line p h')" "taken p h' = Suc (taken p h)" using assms(1,2) by (simp_all add: took_def)
  have "length (line p h) \<le> length (line p h')" using t(1) by (rule prefix_length_le)
  then show "n \<le> length (line p h') - taken p h'" using t(2) assms(3) by simp
  have "take n (drop (Suc (taken p h)) (line p h')) = take n (drop (Suc (taken p h)) (line p h))"
    using assms(3) by (intro prefix_take_drop [OF t(1)]) simp
  then show "take (Suc n) (drop (taken p h) (line p h)) = line p h ! taken p h # take n (drop (taken p h') (line p h'))"
    unfolding t(2) using assms(3) by (simp add: Cons_nth_drop_Suc [symmetric])
qed

lemma rx_state:
  assumes "port_ok p s"
  shows "port_ok p ((set_recv p r s)\<lparr>hw := h\<rparr>)" "recv (port p ((set_recv p r s)\<lparr>hw := h\<rparr>)) = r"
    "hw ((set_recv p r s)\<lparr>hw := h\<rparr>) = h" "set_recv p r' ((set_recv p r s)\<lparr>hw := h\<rparr>) = (set_recv p r' s)\<lparr>hw := h\<rparr>"
proof -
  have p: "p < length (uart_port s)" using assms by (simp add: port_ok_def)
  show "port_ok p ((set_recv p r s)\<lparr>hw := h\<rparr>)" "recv (port p ((set_recv p r s)\<lparr>hw := h\<rparr>)) = r" "hw ((set_recv p r s)\<lparr>hw := h\<rparr>) = h"
    using assms p by (simp_all add: port_ok_def)
  show "set_recv p r' ((set_recv p r s)\<lparr>hw := h\<rparr>) = (set_recv p r' s)\<lparr>hw := h\<rparr>"
    unfolding upd_port_hw_commute upd_port_upd_port [OF p] by simp
qed

lemma rx_loop_spec:
  assumes "io e = m" "i AND 0xE0 = 0"
  shows "port_ok p s \<Longrightarrow> ring_ok (recv (port p s)) \<Longrightarrow> queue_len (recv (port p s)) + n \<le> 4093 \<Longrightarrow>
    n \<le> length (line p (hw s)) - taken p (hw s) \<Longrightarrow>
    \<exists>r h. rx_loop e p i n k s = Some (k + of_nat n, (set_recv p r s)\<lparr>hw := h\<rparr>) \<and> ring_ok r
      \<and> queue r = queue (recv (port p s)) @ take n (drop (taken p (hw s)) (line p (hw s))) \<and> took p n (hw s) h"
proof (induction n arbitrary: k s)
  case 0
  have "s = (set_recv p (recv (port p s)) s)\<lparr>hw := hw s\<rparr>" by (simp add: upd_port_def port_def)
  then show ?case using 0 by (intro exI [of _ "recv (port p s)"] exI [of _ "hw s"]) (simp add: took_0)
next
  case (Suc n)
  have p: "p < 3" using Suc.prems(1) by (simp add: port_ok_def)
  have lt: "taken p (hw s) < length (line p (hw s))" "queue_len (recv (port p s)) < 4095" using Suc.prems(3,4) by simp_all
  obtain v h r where b: "ur_read e p UR_RXW s = Some (v, s\<lparr>hw := h\<rparr>)" 
    "recv_put p (ucast v) (s\<lparr>hw := h\<rparr>) = Some ((set_recv p r s)\<lparr>hw := h\<rparr>)" "ring_ok r"
    "queue r = queue (recv (port p s)) @ [line p (hw s) ! taken p (hw s)]" "took p 1 (hw s) h"
    by (rule rx_byte [OF assms(1) Suc.prems(1,2) lt(2,1)])
  let ?s = "(set_recv p r s)\<lparr>hw := h\<rparr>"
  have room: "\<not> CIRC_SPACE (recv_head (recv (port p s))) (recv_tail (recv (port p s))) \<le> 2"
    using unat_CIRC_SPACE [OF Suc.prems(2)] Suc.prems(3) by (simp add: word_le_nat_alt)
  note st = rx_state [OF Suc.prems(1), where r = r and h = h]
  have len: "queue_len r = Suc (queue_len (recv (port p s)))" using arg_cong [OF b(4), of length] by simp
  note rest = took_rest [OF b(5) p Suc.prems(4)]
  have step: "rx_loop e p i (Suc n) k s = rx_loop e p i n (k + 1) ?s"
    using b(1,2) assms(2) room by (simp add: Let_def)
  have "\<exists>r' h'. rx_loop e p i n (k + 1) ?s = Some (k + 1 + of_nat n, (set_recv p r' ?s)\<lparr>hw := h'\<rparr>) \<and> ring_ok r'
      \<and> queue r' = queue (recv (port p ?s)) @ take n (drop (taken p (hw ?s)) (line p (hw ?s))) \<and> took p n (hw ?s) h'"
    by (rule Suc.IH [OF st(1)]; unfold st(2,3); use Suc.prems(3) b(3) rest(1) len in simp)
  then obtain r' h' where "rx_loop e p i n (k + 1) ?s = Some (k + 1 + of_nat n, (set_recv p r' s)\<lparr>hw := h'\<rparr>)" "ring_ok r'"
      "queue r' = queue r @ take n (drop (taken p h) (line p h))" "took p n h h'"
    unfolding st(2-4) by auto
  then show ?case
    unfolding step rest(2) using b(4) took_trans [OF b(5), of n h'] by (intro exI [of _ r'] exI [of _ h']) (simp add: add.assoc)
qed

lemma rx_loop1_spec:
  assumes "io e = m" "i AND 0xE0 = 0"
  shows "port_ok 1 s \<Longrightarrow> ring_ok (recv (port 1 s)) \<Longrightarrow> queue_len (recv (port 1 s)) + n \<le> 4095 \<Longrightarrow>
    n \<le> length (line 1 (hw s)) - taken 1 (hw s) \<Longrightarrow>
    \<exists>r h. rx_loop1 e i n ch s = Some (last (ch # take n (drop (taken 1 (hw s)) (line 1 (hw s)))), (set_recv 1 r s)\<lparr>hw := h\<rparr>) \<and> ring_ok r
      \<and> queue r = queue (recv (port 1 s)) @ take n (drop (taken 1 (hw s)) (line 1 (hw s))) \<and> took 1 n (hw s) h
      \<and> unat (recv_head r) = (unat (recv_head (recv (port 1 s))) + n) mod 4096 \<and> recv_tail r = recv_tail (recv (port 1 s))"
proof (induction n arbitrary: ch s)
  case 0
  have "s = (set_recv 1 (recv (port 1 s)) s)\<lparr>hw := hw s\<rparr>" by (simp add: upd_port_def port_def)
  then show ?case using 0 by (intro exI [of _ "recv (port 1 s)"] exI [of _ "hw s"]) (simp add: took_0 ring_ok_def)
next
  case (Suc n)
  have p: "(1 :: nat) < 3" by simp
  have hd: "unat (recv_head (recv (port 1 s))) < 4096" using Suc.prems(2) by (simp add: ring_ok_def)
  have lt: "taken 1 (hw s) < length (line 1 (hw s))" "queue_len (recv (port 1 s)) < 4095" using Suc.prems(3,4) by simp_all
  obtain v h r where b: "ur_read e 1 UR_RXW s = Some (v, s\<lparr>hw := h\<rparr>)" 
    "recv_put 1 (ucast v) (s\<lparr>hw := h\<rparr>) = Some ((set_recv 1 r s)\<lparr>hw := h\<rparr>)" "ring_ok r"
    "queue r = queue (recv (port 1 s)) @ [line 1 (hw s) ! taken 1 (hw s)]" "took 1 1 (hw s) h"
    and v: "ucast v = line 1 (hw s) ! taken 1 (hw s)"
    and ht: "recv_head r = (recv_head (recv (port 1 s)) + 1) AND 4095" "recv_tail r = recv_tail (recv (port 1 s))"
    by (rule rx_byte [OF assms(1) Suc.prems(1,2) lt(2,1)])
  let ?s = "(set_recv 1 r s)\<lparr>hw := h\<rparr>"
  note st = rx_state [OF Suc.prems(1), where r = r and h = h]
  have len: "queue_len r = Suc (queue_len (recv (port 1 s)))" using arg_cong [OF b(4), of length] by simp
  note rest = took_rest [OF b(5) p Suc.prems(4)]
  have head: "unat (recv_head r) = (unat (recv_head (recv (port 1 s))) + 1) mod 4096"
    unfolding ht(1) using unat_add_4096 (2) [OF hd, of 1] by simp
  have step: "rx_loop1 e i (Suc n) ch s = rx_loop1 e i n (line 1 (hw s) ! taken 1 (hw s)) ?s"
    using b(1,2) assms(2) v by (simp add: Let_def)
  have "\<exists>r' h'. rx_loop1 e i n (line 1 (hw s) ! taken 1 (hw s)) ?s
        = Some (last (line 1 (hw s) ! taken 1 (hw s) # take n (drop (taken 1 (hw ?s)) (line 1 (hw ?s)))), (set_recv 1 r' ?s)\<lparr>hw := h'\<rparr>) \<and> ring_ok r'
      \<and> queue r' = queue (recv (port 1 ?s)) @ take n (drop (taken 1 (hw ?s)) (line 1 (hw ?s))) \<and> took 1 n (hw ?s) h'
      \<and> unat (recv_head r') = (unat (recv_head (recv (port 1 ?s))) + n) mod 4096 \<and> recv_tail r' = recv_tail (recv (port 1 ?s))"
    by (rule Suc.IH [OF st(1)]; unfold st(2,3); use Suc.prems(3) b(3) rest(1) len in simp)
  then obtain r' h' where "rx_loop1 e i n (line 1 (hw s) ! taken 1 (hw s)) ?s
        = Some (last (line 1 (hw s) ! taken 1 (hw s) # take n (drop (taken 1 h) (line 1 h))), (set_recv 1 r' s)\<lparr>hw := h'\<rparr>)" "ring_ok r'"
      "queue r' = queue r @ take n (drop (taken 1 h) (line 1 h))" "took 1 n h h'"
      "unat (recv_head r') = (unat (recv_head r) + n) mod 4096" "recv_tail r' = recv_tail r"
    unfolding st(2-4) by auto
  then show ?case
    unfolding step rest(2) using b(4) took_trans [OF b(5), of n h'] head ht(2)
    by (intro exI [of _ r'] exI [of _ h']) (simp add: mod_simps)
qed

section \<open>The parts of the handlers\<close>

text \<open>A step that may send from the port \<open>p\<close>: nothing outstanding is lost, reordered or sent twice.\<close>

definition tx_step :: "nat \<Rightarrow> ('h, 'f) uart_state \<Rightarrow> ('h, 'f) uart_state \<Rightarrow> bool" where
  "tx_step p s s' = (tx_frame p s s' \<and> tx_calm p (hw s) (hw s')
     \<and> sent p (hw s') @ outstanding p s' = sent p (hw s) @ outstanding p s \<and> level p (hw s') \<le> 16 \<and> tx_ok p s'
     \<and> length (sent p (hw s)) \<le> length (sent p (hw s'))
     \<and> (tx_msg_pending (port p s) = [] \<longrightarrow> tx_msg_pending (port p s') = []))"

text \<open>As much was sent as there is, or as the FIFO had room for.\<close>

definition tx_progress :: "nat \<Rightarrow> ('h, 'f) uart_state \<Rightarrow> ('h, 'f) uart_state \<Rightarrow> bool" where
  "tx_progress p s s' = (tx_msg_pending (port p s') = []
     \<or> length (sent p (hw s)) + (16 - level p (hw s)) \<le> length (sent p (hw s')))"

lemma tx_progress_step:
  assumes "tx_progress p s s'" "tx_step p s' s''"
  shows "tx_progress p s s''"
  using assms by (auto simp: tx_progress_def tx_step_def)

lemma tx_step_trans:
  assumes "tx_step p s s'" "tx_step p s' s''"
  shows "tx_step p s s''"
proof -
  have "tx_frame p s s''" using assms tx_frame_trans unfolding tx_step_def by blast
  moreover have "tx_calm p (hw s) (hw s'')" using assms tx_calm_trans unfolding tx_step_def by blast
  ultimately show ?thesis using assms by (simp add: tx_step_def)
qed

lemma tx_step_calm:
  assumes "calm (hw s) h" "p < 3" "level p (hw s) \<le> 16" "tx_ok p s"
  shows "tx_step p s (s\<lparr>hw := h\<rparr>)"
  using assms calm_tx_calm [OF assms(1)] by (auto simp: tx_step_def calm_def outstanding_def tx_ok_def)

lemma tx_step_stopped:
  assumes "port_ok p s" "level p (hw s) \<le> 16" "tx_ok p s"
  shows "tx_step p s (upd_port p (\<lambda>q. q\<lparr>hw_stopped := b\<rparr>) s)"
proof -
  have p: "p < length (uart_port s)" using assms(1) by (simp add: port_ok_def)
  show ?thesis
    unfolding tx_step_def using p assms by (intro conjI tx_frame_upd) (simp_all add: tx_erase_def outstanding_def tx_ok_def)
qed

lemma tx_step_keeps:
  assumes "tx_step p s s'"
  shows "port_ok p s' = port_ok p s" "level p (hw s') \<le> 16" "tx_ok p s'"
  using assms tx_frame_keeps(2) by (auto simp: tx_step_def)

lemma tx_chars_step:
  assumes "io e = m" "quiet_callbacks e" "port_ok p s" "tx_ok p s" "level p (hw s) \<le> 16"
  shows "\<exists>s'. tls_uart_tx_chars e p s = Some s' \<and> tx_step p s s' \<and> tx_progress p s s'"
proof -
  have p: "p < length (uart_port s)" using assms(3) by (simp add: port_ok_def)
  obtain s' where s': "tls_uart_tx_chars e p s = Some s'" "tx_frame p s s'" "tx_calm p (hw s) (hw s')"
    "sent p (hw s') @ outstanding p s' = sent p (hw s) @ outstanding p s" "level p (hw s') \<le> 16" "tx_ok p s'"
    "tx_msg_pending (port p s') = [] \<or> level p (hw s') = 16" "tx_msg_pending (port p s) = [] \<longrightarrow> s' = release_tx_sem p s"
    "length (sent p (hw s')) + level p (hw s) = length (sent p (hw s)) + level p (hw s')"
    using tls_uart_tx_chars_spec [OF assms] by blast
  have "tx_msg_pending (port p s) = [] \<longrightarrow> tx_msg_pending (port p s') = []"
    using s'(8) release_tx_sem_frame(3) [OF p] by simp
  moreover have "length (sent p (hw s)) \<le> length (sent p (hw s'))"
  proof (cases "tx_msg_pending (port p s') = []")
    case True
    then have "sent p (hw s') = sent p (hw s) @ outstanding p s" using s'(4) by (simp add: outstanding_def)
    then show ?thesis by simp
  qed (use s'(7,9) assms(5) in linarith)
  ultimately show ?thesis using s' by (auto simp: tx_step_def tx_progress_def)
qed

lemma update_step:
  assumes "io e = m" "port_ok p s" "tx_ok p s" "level p (hw s) \<le> 16" "r < 0x200" "r \<noteq> UR_RXW" "r \<noteq> UR_TXW" "r \<noteq> UR_FIFOC" "r \<noteq> UR_INTM"
  shows "\<exists>s'. ur_update e p r f s = Some s' \<and> tx_step p s s'"
proof -
  have p: "p < 3" using assms(2) by (simp add: port_ok_def)
  obtain h where "ur_update e p r f s = Some (s\<lparr>hw := h\<rparr>)" "calm (hw s) h"
    using ur_update_calm [OF assms(1,2,5-9)] by blast
  then show ?thesis using tx_step_calm [OF _ p assms(4,3)] by blast
qed

lemma cts_step:
  assumes "io e = m" "quiet_callbacks e" "port_ok p s" "tx_ok p s" "level p (hw s) \<le> 16"
  shows "\<exists>s'. uart_handle_cts_change e p v s = Some s' \<and> tx_step p s s'"
proof -
  have p: "p < 3" using assms(3) by (simp add: port_ok_def)
  have refl: "tx_step p s s" using tx_step_calm [of s "hw s" p] p assms(4,5) by simp
  let ?s = "\<lambda>b. upd_port p (\<lambda>q. q\<lparr>hw_stopped := b\<rparr>) s"
  have st: "tx_step p s (?s b)" for b by (rule tx_step_stopped [OF assms(3,5,4)])
  have lc: "\<exists>s'. ur_update e p UR_LC f (?s b) = Some s' \<and> tx_step p (?s b) s'" for f b
    by (rule update_step [OF assms(1)]) (use tx_step_keeps [OF st] assms(3) in simp_all)
  obtain s1 where s1: "tls_uart_tx_enable e p (?s False) = Some s1" "tx_step p (?s False) s1"
    using lc [of "\<lambda>v. v OR ULCON_TX_EN" False] unfolding tls_uart_tx_enable_def by blast
  obtain s2 where s2: "tls_uart_tx_disable e p (?s True) = Some s2" "tx_step p (?s True) s2"
    using lc [of "\<lambda>v. v AND NOT ULCON_TX_EN" True] unfolding tls_uart_tx_disable_def by blast
  note s1' = tx_step_trans [OF st s1(2)]
  have "port_ok p s1" using tx_step_keeps(1) [OF s1'] assms(3) by simp
  then obtain s3 where s3: "tls_uart_tx_chars e p s1 = Some s3" "tx_step p s1 s3"
    using tx_chars_step [OF assms(1,2)] tx_step_keeps(2,3) [OF s1'] by blast
  show ?thesis
    using s1(1) s3(1) s2(1) refl tx_step_trans [OF s1' s3(2)] tx_step_trans [OF st s2(2)]
    by (simp add: uart_handle_cts_change_def Let_def)
qed

lemma irq_tx_cts_step:
  assumes "io e = m" "quiet_callbacks e" "port_ok p s" "tx_ok p s" "level p (hw s) \<le> 16"
  shows "\<exists>s'. irq_tx_cts e p i s = Some s' \<and> tx_step p s s' \<and> (i AND UART_TX_INT_FLAG \<noteq> 0 \<longrightarrow> tx_progress p s s')"
proof -
  have p: "p < 3" using assms(3) by (simp add: port_ok_def)
  have refl: "tx_step p s s" using tx_step_calm [of s "hw s" p] p assms(4,5) by simp
  obtain s1 where s1: "(if i AND UART_TX_INT_FLAG \<noteq> 0 then tls_uart_tx_chars e p s else Some s) = Some s1" "tx_step p s s1"
      "i AND UART_TX_INT_FLAG \<noteq> 0 \<longrightarrow> tx_progress p s s1"
    using tx_chars_step [OF assms] refl by (cases "i AND UART_TX_INT_FLAG \<noteq> 0") auto
  have ok1: "port_ok p s1" using tx_step_keeps(1) [OF s1(2)] assms(3) by simp
  obtain v h where v: "ur_read e p UR_FIFOS s1 = Some (v, s1\<lparr>hw := h\<rparr>)" "calm (hw s1) h"
    using ur_read_fifos [OF assms(1) ok1] by metis
  note s2 = tx_step_calm [OF v(2) p tx_step_keeps(2,3) [OF s1(2)]]
  have ok2: "port_ok p (s1\<lparr>hw := h\<rparr>)" using tx_step_keeps(1) [OF s2] ok1 by simp
  obtain s3 where s3: "uart_handle_cts_change e p (v AND UFS_CST_STS) (s1\<lparr>hw := h\<rparr>) = Some s3" "tx_step p (s1\<lparr>hw := h\<rparr>) s3"
    using cts_step [OF assms(1,2) ok2 tx_step_keeps(3,2) [OF s2]] by blast
  show ?thesis
    using s1 v(1) s3(1) tx_step_trans [OF tx_step_trans [OF s1(2) s2] s3(2)] tx_progress_step [OF _ tx_step_trans [OF s2 s3(2)]]
    by (cases "i AND UIS_CTS_CHNG = 0") (simp_all add: irq_tx_cts_def)
qed

lemma irq_ack_spec:
  assumes "io e = m" "port_ok p s"
  shows "\<exists>h. irq_ack e p s = Some (fst (reg_read m (HR_UART_BASE_ADDR p + UR_INTS) (hw s)), s\<lparr>hw := h\<rparr>) \<and> calm (hw s) h"
proof -
  let ?a = "HR_UART_BASE_ADDR p + UR_INTS"
  have p: "p < 3" "regs (port p s) = Some (HR_UART_BASE_ADDR p)" using assms(2) by (simp_all add: port_ok_def)
  have "calm (hw s) (snd (reg_read m ?a (hw s)))" using p by (intro calm_read) simp
  moreover have "calm (snd (reg_read m ?a (hw s))) (reg_write m ?a v (snd (reg_read m ?a (hw s))))" for v
    using p by (intro calm_write) simp
  ultimately show ?thesis using p assms(1) calm_trans
    by (simp add: irq_ack_def ur_read_def ur_write_def tls_reg_read32_def tls_reg_write32_def case_prod_beta) blast
qed

lemma irq_overrun_spec:
  assumes "io e = m" "port_ok p s"
  shows "\<exists>h. irq_overrun e p i s = Some (s\<lparr>hw := h\<rparr>) \<and> calm (hw s) h"
proof -
  have u: "\<exists>h'. ur_update e p r f (s\<lparr>hw := h\<rparr>) = Some (s\<lparr>hw := h'\<rparr>) \<and> calm h h'" if "r = UR_INTS \<or> r = UR_DMAC" for r f h
    using ur_update_calm [OF assms(1), of p "s\<lparr>hw := h\<rparr>" r f] assms(2) that by (auto simp: port_ok_def)
  obtain h1 where h1: "ur_update e p UR_INTS (\<lambda>v. v OR UIS_OVERRUN) s = Some (s\<lparr>hw := h1\<rparr>)" "calm (hw s) h1"
    using u [of UR_INTS "\<lambda>v. v OR UIS_OVERRUN" "hw s"] by auto
  obtain h2 where h2: "ur_update e p UR_DMAC (\<lambda>v. v AND NOT 1) (s\<lparr>hw := h1\<rparr>) = Some (s\<lparr>hw := h2\<rparr>)" "calm h1 h2"
    using u by blast
  obtain h3 where h3: "ur_update e p UR_DMAC (\<lambda>v. v OR 1) (s\<lparr>hw := h2\<rparr>) = Some (s\<lparr>hw := h3\<rparr>)" "calm h2 h3"
    using u by blast
  consider "i AND UIS_OVERRUN = 0" | "i AND UIS_OVERRUN \<noteq> 0" "tx_dma_on (port p s)" | "i AND UIS_OVERRUN \<noteq> 0" "\<not> tx_dma_on (port p s)"
    by blast
  then show ?thesis
  proof cases
    case 1
    then show ?thesis by (intro exI [of _ "hw s"]) (simp add: irq_overrun_def)
  next
    case 2
    then show ?thesis using h1(1) h2(1) h3(1) calm_trans [OF calm_trans [OF h1(2) h2(2)] h3(2)]
      by (intro exI [of _ h3]) (simp add: irq_overrun_def)
  next
    case 3
    then show ?thesis using h1 by (intro exI [of _ h1]) (simp add: irq_overrun_def)
  qed
qed

lemma irq_rx_count_spec:
  assumes "io e = m" "port_ok p s"
  shows "\<exists>c h. irq_rx_count e p i s = Some (c, s\<lparr>hw := h\<rparr>) \<and> calm (hw s) h
    \<and> (\<forall>n. c = Some n \<longrightarrow> unat n = length (line p h) - taken p h \<and> unat n < 64)
    \<and> (i AND UART_RX_INT_FLAG \<noteq> 0 \<longrightarrow> mask p (hw s) AND UIS_RX_FIFO = 0 \<longrightarrow> c \<noteq> None)"
proof -
  let ?a = "HR_UART_BASE_ADDR p + UR_INTM"
  have p: "p < 3" using assms(2) by (simp add: port_ok_def)
  define v h where "v = fst (reg_read m ?a (hw s))" and "h = snd (reg_read m ?a (hw s))"
  have r1: "ur_read e p UR_INTM s = Some (v, s\<lparr>hw := h\<rparr>)" unfolding v_def h_def by (rule ur_access [OF assms])
  have c1: "calm (hw s) h" unfolding h_def using p by (intro calm_read) simp
  have ok1: "port_ok p (s\<lparr>hw := h\<rparr>)" using assms(2) by (simp add: port_ok_def)
  obtain w h' where r2: "ur_read e p UR_FIFOS (s\<lparr>hw := h\<rparr>) = Some (w, s\<lparr>hw := h'\<rparr>)" "calm h h'"
    "unat (drop_bit 6 w AND 0x3F) = length (line p h') - taken p h'"
    by (rule ur_read_fifos [OF assms(1) ok1]) simp
  have lt: "unat (drop_bit 6 w AND (0x3F :: u32)) < 64"
  proof -
    have "drop_bit 6 w AND (0x3F :: u32) = take_bit 6 (drop_bit 6 w)" by (simp add: take_bit_eq_mask mask_eq_exp_minus_1)
    then have "unat (drop_bit 6 w AND (0x3F :: u32)) = take_bit 6 (unat (drop_bit 6 w))" by (simp only: unsigned_take_bit_eq)
    then show ?thesis by (simp add: take_bit_eq_mod)
  qed
  have refl: "s = s\<lparr>hw := hw s\<rparr>" by simp
  consider "i AND UART_RX_INT_FLAG = 0" | "i AND UART_RX_INT_FLAG \<noteq> 0" "v AND UIS_RX_FIFO \<noteq> 0"
    | "i AND UART_RX_INT_FLAG \<noteq> 0" "v AND UIS_RX_FIFO = 0" by blast
  then show ?thesis
  proof cases
    case 1
    then show ?thesis by (intro exI [of _ None] exI [of _ "hw s"]) (simp add: irq_rx_count_def)
  next
    case 2
    then have "mask p (hw s) AND UIS_RX_FIFO \<noteq> 0" unfolding v_def using read_mask(1) [OF p] by simp
    then show ?thesis using 2 r1 c1 by (intro exI [of _ None] exI [of _ h]) (simp add: irq_rx_count_def)
  next
    case 3
    then show ?thesis using r1 r2 c1 lt calm_trans [OF c1 r2(2)]
      by (intro exI [of _ "Some (drop_bit 6 w AND 0x3F)"] exI [of _ h']) (simp add: irq_rx_count_def)
  qed
qed

section \<open>The handlers\<close>

text \<open>
  The end of a handler: from a state \<open>s\<close> the handler has come to \<open>s4\<close>, where the port has the ring \<open>r\<close> and
  \<open>n\<close> bytes have been taken between \<open>h3\<close> and now.
\<close>

lemma irq_finish:
  assumes "io e = m" "quiet_callbacks e" "uart_ok level p s"
    and s4: "length (uart_port s4) = 3" "\<exists>c. port p s4 = (port p s)\<lparr>recv := r, plus_char_cnt := c\<rparr>" "took p n h3 (hw s4)"
    and h3: "calm (hw s) h3" "n \<le> length (line p h3) - taken p h3" and r: "ring_ok r"
  shows "\<exists>s'. irq_tx_cts e p i s4 = Some s' \<and> uart_ok level p s' \<and> recv (port p s') = r
    \<and> plus_char_cnt (port p s') = plus_char_cnt (port p s4)
    \<and> hist line taken p (hw s') = hist line taken p (hw s) @ take n (drop (taken p h3) (line p h3))
    \<and> sent p (hw s') @ outstanding p s' = sent p (hw s) @ outstanding p s
    \<and> (n = length (line p h3) - taken p h3 \<longrightarrow> prefix (line p (hw s)) (hist line taken p (hw s')))
    \<and> (i AND UART_TX_INT_FLAG \<noteq> 0 \<longrightarrow> tx_progress p s s')"
proof -
  obtain c where c: "port p s4 = (port p s)\<lparr>recv := r, plus_char_cnt := c\<rparr>" using s4(2) by blast
  have ok: "port_ok p s" "tx_ok p s" "level p (hw s) \<le> 16" "uart_no (port p s) = of_nat p" using assms(3) by (simp_all add: uart_ok_def)
  have p: "p < 3" using ok(1) by (simp add: port_ok_def)
  have lv: "level p (hw s4) \<le> 16" "sent p (hw s4) = sent p (hw s)" "level p (hw s4) \<le> level p (hw s)"
    using s4(3) h3(1) ok(3) p by (simp_all add: took_def calm_def) (meson le_trans)+
  have ok4: "port_ok p s4" "tx_ok p s4" "outstanding p s4 = outstanding p s"
    using ok c s4(1) by (simp_all add: port_ok_def tx_ok_def outstanding_def)
  obtain s' where s': "irq_tx_cts e p i s4 = Some s'" "tx_step p s4 s'" "i AND UART_TX_INT_FLAG \<noteq> 0 \<longrightarrow> tx_progress p s4 s'"
    using irq_tx_cts_step [OF assms(1,2) ok4(1,2) lv(1)] by blast
  have f: "tx_frame p s4 s'" "tx_calm p (hw s4) (hw s')" using s'(2) by (simp_all add: tx_step_def)
  note kp = tx_frame_keeps (1-7,9-) [OF f(1), of p]
  have hist: "hist line taken p (hw s') = hist line taken p (hw s) @ take n (drop (taken p h3) (line p h3))"
    using hist_tx_calm [OF f(2) p] hist_took [OF s4(3) p h3(2)] hist_calm [OF h3(1) p] by simp
  have "prefix (line p (hw s)) (hist line taken p (hw s'))" if "n = length (line p h3) - taken p h3"
  proof -
    have "hist line taken p (hw s') = take (taken p h3) (line p h3) @ drop (taken p h3) (line p h3)"
      unfolding hist using hist_calm [OF h3(1) p] that by (simp add: hist_def)
    then show ?thesis using h3(1) p by (simp add: calm_def)
  qed
  moreover have "uart_ok level p s'"
    using tx_step_keeps [OF s'(2)] ok4(1) kp c r ok(4) by (simp add: uart_ok_def)
  moreover have "tx_progress p s4 s' \<longrightarrow> tx_progress p s s'"
    using lv(2,3) by (auto simp: tx_progress_def)
  ultimately show ?thesis
    using s' kp c hist lv(2) ok4(3) by (auto simp: tx_step_def)
qed

lemma quiet_call_rx:
  assumes "quiet_callbacks e"
  shows "hw (call_rx e p n s) = hw s" "uart_port (call_rx e p n s) = uart_port s" "port q (call_rx e p n s) = port q s"
  using assms by (auto simp: call_rx_def quiet_callbacks_def port_def split: option.split)

text \<open>UART 0 and 2, whose handlers differ in the overrun and in when they call back.\<close>

lemma irq_receive_02:
  assumes "io e = m" "quiet_callbacks e" "uart_ok level p s" "i AND 0xE0 = 0"
    and room: "queue_len (recv (port p s)) \<le> 4030" and h: "calm (hw s) h"
  shows "\<exists>s' new. (do { (cnt, s) \<leftarrow> irq_rx_count e p i (s\<lparr>hw := h\<rparr>);
        s \<leftarrow> (case cnt of None \<Rightarrow> Some s
              | Some cnt \<Rightarrow> do { (rxlen, s) \<leftarrow> rx_loop e p i (unat cnt) 0 s; Some (if b rxlen then call_rx e p rxlen s else s) });
        irq_tx_cts e p i s }) = Some s' \<and> uart_ok level p s' \<and> queue (recv (port p s')) = queue (recv (port p s)) @ new
    \<and> hist line taken p (hw s') = hist line taken p (hw s) @ new
    \<and> sent p (hw s') @ outstanding p s' = sent p (hw s) @ outstanding p s
    \<and> (i AND UART_RX_INT_FLAG \<noteq> 0 \<longrightarrow> mask p (hw s) AND UIS_RX_FIFO = 0
        \<longrightarrow> prefix (line p (hw s)) (hist line taken p (hw s')))
    \<and> (i AND UART_TX_INT_FLAG \<noteq> 0 \<longrightarrow> tx_progress p s s')"
proof -
  have ok: "port_ok p s" "ring_ok (recv (port p s))" using assms(3) by (simp_all add: uart_ok_def)
  have p: "p < 3" "p < length (uart_port s)" "length (uart_port s) = 3" using ok(1) by (simp_all add: port_ok_def)
  have ok': "port_ok p (s\<lparr>hw := h\<rparr>)" using ok(1) by (simp add: port_ok_def)
  obtain c h3 where c: "irq_rx_count e p i (s\<lparr>hw := h\<rparr>) = Some (c, s\<lparr>hw := h3\<rparr>)" "calm h h3"
    "\<And>n. c = Some n \<Longrightarrow> unat n = length (line p h3) - taken p h3 \<and> unat n < 64"
    "i AND UART_RX_INT_FLAG \<noteq> 0 \<longrightarrow> mask p h AND UIS_RX_FIFO = 0 \<longrightarrow> c \<noteq> None"
    using irq_rx_count_spec [OF assms(1) ok', of i] by auto
  have mask: "mask p h = mask p (hw s)" using h p(1) by (simp add: calm_def)
  note h3 = calm_trans [OF h c(2)]
  show ?thesis
  proof (cases c)
    case None
    have "\<exists>c. port p (s\<lparr>hw := h3\<rparr>) = (port p s)\<lparr>recv := recv (port p s), plus_char_cnt := c\<rparr>"
      by (rule exI [of _ "plus_char_cnt (port p s)"]) simp
    then obtain s' where "irq_tx_cts e p i (s\<lparr>hw := h3\<rparr>) = Some s'" "uart_ok level p s'" "recv (port p s') = recv (port p s)"
      "hist line taken p (hw s') = hist line taken p (hw s)" "sent p (hw s') @ outstanding p s' = sent p (hw s) @ outstanding p s"
      "i AND UART_TX_INT_FLAG \<noteq> 0 \<longrightarrow> tx_progress p s s'"
      using irq_finish [OF assms(1-3), of "s\<lparr>hw := h3\<rparr>" "recv (port p s)" 0 h3 i] p h3 ok(2) by (auto simp: took_0)
    then show ?thesis using c(1,4) mask None by (intro exI [of _ s'] exI [of _ "[]"]) auto
  next
    case (Some n)
    let ?n = "unat n" and ?new = "take (unat n) (drop (taken p h3) (line p h3))"
    have n: "?n = length (line p h3) - taken p h3" "?n < 64" using c(3) [OF Some] by simp_all
    have "\<exists>r h4. rx_loop e p i ?n 0 (s\<lparr>hw := h3\<rparr>) = Some (0 + of_nat ?n, (set_recv p r (s\<lparr>hw := h3\<rparr>))\<lparr>hw := h4\<rparr>) \<and> ring_ok r
      \<and> queue r = queue (recv (port p (s\<lparr>hw := h3\<rparr>))) @ take ?n (drop (taken p (hw (s\<lparr>hw := h3\<rparr>))) (line p (hw (s\<lparr>hw := h3\<rparr>))))
      \<and> took p ?n (hw (s\<lparr>hw := h3\<rparr>)) h4"
      by (rule rx_loop_spec [OF assms(1,4)]; use ok room n in \<open>simp add: port_ok_def\<close>)
    then obtain r h4 where rx: "rx_loop e p i ?n 0 (s\<lparr>hw := h3\<rparr>) = Some (n, (set_recv p r s)\<lparr>hw := h4\<rparr>)" "ring_ok r"
      "queue r = queue (recv (port p s)) @ ?new" "took p ?n h3 h4"
      by (auto simp: upd_port_hw_commute)
    let ?s4 = "if b n then call_rx e p n ((set_recv p r s)\<lparr>hw := h4\<rparr>) else (set_recv p r s)\<lparr>hw := h4\<rparr>"
    have s4: "hw ?s4 = h4" "length (uart_port ?s4) = 3" "port p ?s4 = (port p s)\<lparr>recv := r\<rparr>"
      using p by (simp_all add: quiet_call_rx [OF assms(2)])
    have "\<exists>c. port p ?s4 = (port p s)\<lparr>recv := r, plus_char_cnt := c\<rparr>"
      unfolding s4(3) by (rule exI [of _ "plus_char_cnt (port p s)"]) simp
    then obtain s' where "irq_tx_cts e p i ?s4 = Some s'" "uart_ok level p s'" "recv (port p s') = r"
      "hist line taken p (hw s') = hist line taken p (hw s) @ ?new" "sent p (hw s') @ outstanding p s' = sent p (hw s) @ outstanding p s"
      "prefix (line p (hw s)) (hist line taken p (hw s'))" "i AND UART_TX_INT_FLAG \<noteq> 0 \<longrightarrow> tx_progress p s s'"
      using irq_finish [OF assms(1-3) s4(2), of r ?n h3 i] rx(2,4) s4(1) h3 n(1) by auto
    then show ?thesis using c(1) Some rx(1,3) by (intro exI [of _ s'] exI [of _ ?new]) simp
  qed
qed

text \<open>UART 1: it makes room by dropping the oldest 128 bytes, and looks for three plus signs.\<close>

lemma irq_body1_loop:
  assumes "io e = m" "port_ok 1 s" "ring_ok (recv (port 1 s))" "i AND 0xE0 = 0"
    and cnt: "unat cnt = length (line 1 (hw s)) - taken 1 (hw s)" "unat cnt < 64"
  defines "new \<equiv> take (unat cnt) (drop (taken 1 (hw s)) (line 1 (hw s)))"
  obtains r h s3 where "ring_ok r"
    "queue r = drop (if queue_len (recv (port 1 s)) < 3967 then 0 else 128) (queue (recv (port 1 s))) @ new"
    "took 1 (unat cnt) (hw s) h" "unat (recv_head r) = (unat (recv_head (recv (port 1 s))) + unat cnt) mod 4096"
    "s3 = (upd_port 1 (\<lambda>q. q\<lparr>plus_char_cnt := 0, recv := r\<rparr>) s)\<lparr>hw := h\<rparr>"
    "irq_body1 e i cnt s = do {
       plus \<leftarrow> (if cnt = 3 \<and> last (0 # new) = 0x2B then plus_check r else Some False);
       Some (call_rx e 1 cnt (if plus then upd_port 1 (\<lambda>q. q\<lparr>plus_char_cnt := 3\<rparr>) s3 else s3)) }"
proof -
  let ?r = "recv (port 1 s)"
  let ?d = "if queue_len ?r < 3967 then 0 else (128 :: nat)"
  let ?r1 = "?r\<lparr>recv_tail := (recv_tail ?r + of_nat ?d) AND 4095\<rparr>"
  have p: "1 < length (uart_port s)" "length (uart_port s) = 3" using assms(2) by (simp_all add: port_ok_def)
  have d: "?d \<le> queue_len ?r" by simp
  note q1 = queue_drop [OF assms(3) d refl]
  have sp: "CIRC_SPACE (recv_head ?r) (recv_tail ?r) \<le> 128 \<longleftrightarrow> \<not> queue_len ?r < 3967"
    using unat_CIRC_SPACE [OF assms(3)] queue_len_less [of ?r] by (simp add: word_le_nat_alt) linarith
  have tail0: "?r\<lparr>recv_tail := recv_tail ?r AND 4095\<rparr> = ?r"
  proof -
    have "unat (recv_tail ?r AND 4095) = unat (recv_tail ?r)" using assms(3) unfolding and_4095 by (simp add: ring_ok_def)
    then have "recv_tail ?r AND 4095 = recv_tail ?r" by (simp only: word_unat_eq_iff)
    then show ?thesis by simp
  qed
  define s1 where "s1 = upd_port 1 (\<lambda>q. q\<lparr>plus_char_cnt := 0, recv := ?r1\<rparr>) s"
  have s1: "(let s = upd_port 1 (\<lambda>q. q\<lparr>plus_char_cnt := 0\<rparr>) s; r = recv (port 1 s) in
      if CIRC_SPACE (recv_head r) (recv_tail r) \<le> RX_CACHE_LIMIT
      then upd_port 1 (\<lambda>q. q\<lparr>recv := r\<lparr>recv_tail := (recv_tail r + RX_CACHE_LIMIT) AND 4095\<rparr>\<rparr>) s else s) = s1"
    using p sp tail0 unfolding s1_def by (simp add: upd_port_def port_def Let_def)
  have port1: "port 1 s1 = (port 1 s)\<lparr>recv := ?r1, plus_char_cnt := 0\<rparr>" "hw s1 = hw s" "length (uart_port s1) = 3"
    unfolding s1_def using p by simp_all
  have ok1: "port_ok 1 s1" using assms(2) port1 by (simp add: port_ok_def)
  have room: "queue_len ?r1 + unat cnt \<le> 4095" unfolding q1(3) using cnt(2) queue_len_less [of ?r] by (cases "queue_len ?r < 3967") simp_all
  have "\<exists>r h. rx_loop1 e i (unat cnt) 0 s1 = Some (last (0 # take (unat cnt) (drop (taken 1 (hw s1)) (line 1 (hw s1)))), (set_recv 1 r s1)\<lparr>hw := h\<rparr>) \<and> ring_ok r
      \<and> queue r = queue (recv (port 1 s1)) @ take (unat cnt) (drop (taken 1 (hw s1)) (line 1 (hw s1))) \<and> took 1 (unat cnt) (hw s1) h
      \<and> unat (recv_head r) = (unat (recv_head (recv (port 1 s1))) + unat cnt) mod 4096 \<and> recv_tail r = recv_tail (recv (port 1 s1))"
    by (rule rx_loop1_spec [OF assms(1,4) ok1]; use port1 q1(1) room cnt(1) in simp)
  then obtain r h where rx: "rx_loop1 e i (unat cnt) 0 s1 = Some (last (0 # new), (set_recv 1 r s1)\<lparr>hw := h\<rparr>)" "ring_ok r"
    "queue r = queue ?r1 @ new" "took 1 (unat cnt) (hw s) h" "unat (recv_head r) = (unat (recv_head ?r) + unat cnt) mod 4096"
    unfolding new_def port1(2) using port1(1) by auto
  let ?s3 = "(upd_port 1 (\<lambda>q. q\<lparr>plus_char_cnt := 0, recv := r\<rparr>) s)\<lparr>hw := h\<rparr>"
  have s3: "(set_recv 1 r s1)\<lparr>hw := h\<rparr> = ?s3" unfolding s1_def using p by (simp add: upd_port_upd_port)
  have r3: "recv (port 1 ?s3) = r" using p by simp
  have "irq_body1 e i cnt s = do {
       plus \<leftarrow> (if cnt = 3 \<and> last (0 # new) = 0x2B then plus_check r else Some False);
       Some (call_rx e 1 cnt (if plus then upd_port 1 (\<lambda>q. q\<lparr>plus_char_cnt := 3\<rparr>) ?s3 else ?s3)) }"
    by (simp only: irq_body1_def s1 [unfolded Let_def] Let_def rx(1) [unfolded s3] Option.bind.simps prod.case r3)
  then show thesis using that [OF rx(2) _ rx(4) _ refl] rx(3) q1(2) rx(5) by simp
qed

lemma irq_body1_spec:
  assumes "io e = m" "quiet_callbacks e" "port_ok 1 s" "ring_ok (recv (port 1 s))" "i AND 0xE0 = 0"
    and cnt: "unat cnt = length (line 1 (hw s)) - taken 1 (hw s)" "unat cnt < 64"
    and wrap: "unat (recv_head (recv (port 1 s))) \<noteq> 4093"
  defines "new \<equiv> take (unat cnt) (drop (taken 1 (hw s)) (line 1 (hw s)))"
  shows "\<exists>s' r. irq_body1 e i cnt s = Some s' \<and> ring_ok r
    \<and> port 1 s' = (port 1 s)\<lparr>recv := r, plus_char_cnt := (if new = [0x2B, 0x2B, 0x2B] then 3 else 0)\<rparr>
    \<and> length (uart_port s') = length (uart_port s)
    \<and> queue r = drop (if queue_len (recv (port 1 s)) < 3967 then 0 else 128) (queue (recv (port 1 s))) @ new
    \<and> took 1 (unat cnt) (hw s) (hw s')"
proof -
  let ?r = "recv (port 1 s)"
  have p: "1 < length (uart_port s)" "length (uart_port s) = 3" using assms(3) by (simp_all add: port_ok_def)
  obtain r h s3 where r: "ring_ok r" "queue r = drop (if queue_len ?r < 3967 then 0 else 128) (queue ?r) @ new"
    "took 1 (unat cnt) (hw s) h" "unat (recv_head r) = (unat (recv_head ?r) + unat cnt) mod 4096"
    and s3: "s3 = (upd_port 1 (\<lambda>q. q\<lparr>plus_char_cnt := 0, recv := r\<rparr>) s)\<lparr>hw := h\<rparr>"
    and body: "irq_body1 e i cnt s = do {
       plus \<leftarrow> (if cnt = 3 \<and> last (0 # new) = 0x2B then plus_check r else Some False);
       Some (call_rx e 1 cnt (if plus then upd_port 1 (\<lambda>q. q\<lparr>plus_char_cnt := 3\<rparr>) s3 else s3)) }"
    using irq_body1_loop [OF assms(1,3,4,5) cnt] unfolding new_def by metis
  have lnew: "length new = unat cnt" unfolding new_def using cnt(1) by simp
  have plus: "(if cnt = 3 \<and> last (0 # new) = 0x2B then plus_check r else Some False) = Some (new = [0x2B, 0x2B, 0x2B])"
  proof (cases "cnt = 3 \<and> last (0 # new) = 0x2B")
    case True
    then have "length new = 3" using lnew by simp
    then obtain a b c where abc: "new = [a, b, c]" by (auto simp: length_Suc_conv numeral_3_eq_3)
    have c3: "unat cnt = 3" using True by simp
    have hb: "unat (recv_head ?r) < 4096" using assms(4) by (simp add: ring_ok_def)
    have "unat (recv_head r) \<noteq> 0"
      unfolding r(4) c3 using ring_index [OF hb, of 3] hb wrap by (simp split: if_splits)
    then have "recv_head r \<noteq> 0" by auto
    then show ?thesis using plus_check_queue [OF r(1), of "drop (if queue_len ?r < 3967 then 0 else 128) (queue ?r)" a b c] r(2) abc True by auto
  next
    case False
    have "new \<noteq> [0x2B, 0x2B, 0x2B]"
    proof
      assume n: "new = [0x2B, 0x2B, 0x2B]"
      then have "unat cnt = unat (3 :: u32)" using lnew by simp
      then have "cnt = 3" by (simp only: word_unat_eq_iff)
      then show False using False n by simp
    qed
    then show ?thesis using False by auto
  qed
  let ?s4 = "call_rx e 1 cnt (if new = [0x2B, 0x2B, 0x2B] then upd_port 1 (\<lambda>q. q\<lparr>plus_char_cnt := 3\<rparr>) s3 else s3)"
  have "irq_body1 e i cnt s = Some ?s4" unfolding body plus by simp
  moreover have "port 1 ?s4 = (port 1 s)\<lparr>recv := r, plus_char_cnt := (if new = [0x2B, 0x2B, 0x2B] then 3 else 0)\<rparr>"
    "length (uart_port ?s4) = length (uart_port s)" "hw ?s4 = h"
    using p by (simp_all add: s3 quiet_call_rx [OF assms(2)])
  ultimately show ?thesis using r(1-3) by (intro exI [of _ ?s4] exI [of _ r]) simp
qed

text \<open>Three characters that end with a plus sign at the end of the buffer: the check reads outside the buffer.\<close>

lemma plus_check_0:
  assumes "ring_ok r" "recv_head r = 0"
  shows "plus_check r = None"
  using assms by (auto simp: plus_check_def recv_is_plus_def ring_ok_def buf_get_def)

lemma irq_body1_wrap:
  assumes "io e = m" "port_ok 1 s" "ring_ok (recv (port 1 s))" "i AND 0xE0 = 0"
    and "length (line 1 (hw s)) - taken 1 (hw s) = 3" "line 1 (hw s) ! (taken 1 (hw s) + 2) = 0x2B"
    and "unat (recv_head (recv (port 1 s))) = 4093"
  shows "irq_body1 e i 3 s = None"
proof -
  let ?new = "take (unat (3 :: u32)) (drop (taken 1 (hw s)) (line 1 (hw s)))"
  have c: "unat (3 :: u32) = length (line 1 (hw s)) - taken 1 (hw s)" "unat (3 :: u32) < 64" using assms(5) by simp_all
  have "last (0 # ?new) = ?new ! 2" using assms(5) by (subst last_conv_nth) (auto simp: nth_Cons')
  also have "\<dots> = 0x2B" using assms(5,6) by simp
  finally have l: "last (0 # ?new) = 0x2B" .
  obtain r where r: "ring_ok r" "unat (recv_head r) = (unat (recv_head (recv (port 1 s))) + unat (3 :: u32)) mod 4096"
    and body: "\<exists>s3. irq_body1 e i 3 s = do {
       plus \<leftarrow> (if (3 :: u32) = 3 \<and> last (0 # ?new) = 0x2B then plus_check r else Some False);
       Some (call_rx e 1 3 (if plus then upd_port 1 (\<lambda>q. q\<lparr>plus_char_cnt := 3\<rparr>) s3 else s3)) }"
    by (rule irq_body1_loop [OF assms(1-4) c]) blast
  have "unat (recv_head r) = 0" using r(2) assms(7) by simp
  then have "plus_check r = None" using plus_check_0 [OF r(1)] by (simp add: unat_eq_0)
  then show ?thesis using body unfolding l by auto
qed

end

end
