(* ===== verification/Uart_Wire.thy ===== *)
theory Uart_Wire
  imports Uart_Irq
begin

text \<open>
  A concrete UART, which meets the contract \<open>uart_dev\<close>: three ports with FIFOs of 32 bytes each way. What is put
  into \<open>w_rx\<close> arrives in the FIFO as soon as there is room; the transmit FIFO drains whenever the
  driver reads the interrupts, which are those of \<open>w_ints\<close>. All other registers are storage.
\<close>

record wire =
  w_ctl :: "nat \<Rightarrow> u32"
  w_ints :: "nat \<Rightarrow> u32"
  w_seen :: "nat \<Rightarrow> bytes"
  w_rx :: "nat \<Rightarrow> bytes"
  w_sent :: "nat \<Rightarrow> bytes"
  w_count :: "nat \<Rightarrow> nat"

definition w_fifo :: "nat \<Rightarrow> wire \<Rightarrow> bytes" where "w_fifo p h = take 32 (w_rx h p)"
definition w_line :: "nat \<Rightarrow> wire \<Rightarrow> bytes" where "w_line p h = w_seen h p @ w_fifo p h"
definition w_taken :: "nat \<Rightarrow> wire \<Rightarrow> nat" where "w_taken p h = length (w_seen h p)"
definition w_out :: "nat \<Rightarrow> wire \<Rightarrow> bytes" where "w_out p h = w_sent h p"
definition w_level :: "nat \<Rightarrow> wire \<Rightarrow> nat" where "w_level p h = min 32 (w_count h p)"
definition w_mask :: "nat \<Rightarrow> wire \<Rightarrow> u32" where "w_mask p h = w_ctl h (HR_UART_BASE_ADDR p + UR_INTM)"

definition w_idle :: "nat \<Rightarrow> wire \<Rightarrow> bool" where "w_idle p h = (w_ints h p = 2)"

text \<open>Which port and register an address is, if it is one of those that are not storage.\<close>

definition w_reg :: "nat \<Rightarrow> (nat \<times> nat) option" where
  "w_reg = map_of
     [(0x40010818, (0, 0x18)), (0x4001081C, (0, 0x1C)), (0x40010820, (0, 0x20)), (0x40010830, (0, 0x30)),
      (0x40010A18, (1, 0x18)), (0x40010A1C, (1, 0x1C)), (0x40010A20, (1, 0x20)), (0x40010A30, (1, 0x30)),
      (0x40011C18, (2, 0x18)), (0x40011C1C, (2, 0x1C)), (0x40011C20, (2, 0x20)), (0x40011C30, (2, 0x30))]"

definition w_read :: "nat \<Rightarrow> wire \<Rightarrow> u32 \<times> wire" where
  "w_read a h =
     (case w_reg a of
        None \<Rightarrow> (w_ctl h a, h)
      | Some (p, r) \<Rightarrow>
          if r = UR_INTS then (w_ints h p, h\<lparr>w_count := (w_count h)(p := 0)\<rparr>)
          else if r = UR_FIFOS then (push_bit 6 (of_nat (length (w_fifo p h))) OR of_nat (w_level p h), h)
          else if r = UR_RXW
          then (case w_rx h p of [] \<Rightarrow> (0, h)
                | x # xs \<Rightarrow> (ucast x, h\<lparr>w_seen := (w_seen h)(p := w_seen h p @ [x]), w_rx := (w_rx h)(p := xs)\<rparr>))
          else (0, h))"

definition w_write :: "nat \<Rightarrow> u32 \<Rightarrow> wire \<Rightarrow> wire" where
  "w_write a v h =
     (case w_reg a of
        None \<Rightarrow> h\<lparr>w_ctl := (w_ctl h)(a := v)\<rparr>
      | Some (p, r) \<Rightarrow>
          if r = UR_TXW \<and> w_count h p < 32
          then h\<lparr>w_sent := (w_sent h)(p := w_sent h p @ [ucast v]), w_count := (w_count h)(p := Suc (w_count h p))\<rparr>
          else h)"

definition wire_io :: "wire mmio" where
  "wire_io = \<lparr>reg_read = w_read, reg_write = w_write, irq_set = (\<lambda>n b h. h)\<rparr>"

lemma wire_io_simps [simp]: "reg_read wire_io = w_read" "reg_write wire_io = w_write" "irq_set wire_io = (\<lambda>n b h. h)"
  by (simp_all add: wire_io_def)

lemma w_reg_uart [simp]:
  "p < 3 \<Longrightarrow> w_reg (HR_UART_BASE_ADDR p + 0x14) = None"
  "p < 3 \<Longrightarrow> w_reg (HR_UART_BASE_ADDR p + 0x1C) = Some (p, 0x1C)"
  "p < 3 \<Longrightarrow> w_reg (HR_UART_BASE_ADDR p + 0x18) = Some (p, 0x18)"
  "p < 3 \<Longrightarrow> w_reg (HR_UART_BASE_ADDR p + 0x20) = Some (p, 0x20)"
  "p < 3 \<Longrightarrow> w_reg (HR_UART_BASE_ADDR p + 0x30) = Some (p, 0x30)"
  by (auto simp: w_reg_def HR_UART_BASE_ADDR_def less_Suc_eq numeral_3_eq_3)

lemma w_reg_Some:
  assumes "w_reg a = Some (p, r)"
  shows "p < 3" "a = HR_UART_BASE_ADDR p + r" "r \<in> {0x18, 0x1C, 0x20, 0x30}"
  using map_of_SomeD [OF assms [unfolded w_reg_def]] by (auto simp: HR_UART_BASE_ADDR_def)

lemma push_drop: "(\<And>i. bit (w :: u32) i \<Longrightarrow> i < 6) \<Longrightarrow> drop_bit 6 (push_bit 6 w) = w"
  by (force simp: bit_eq_iff bit_simps)

lemma fifo_counts:
  fixes n l :: nat
  assumes "n \<le> 32" "l \<le> 32"
  shows "unat (drop_bit 6 (push_bit 6 (of_nat n) OR of_nat l :: u32) AND 0x3F) = n"
    and "(push_bit 6 (of_nat n) OR of_nat l :: u32) AND 0x3F = of_nat l"
proof -
  have m: "(0x3F :: u32) = mask 6" by (simp add: mask_eq_exp_minus_1)
  have small: "take_bit 6 (of_nat k :: u32) = of_nat k" if "k \<le> 32" for k
    using that by (simp add: take_bit_of_nat) (simp add: take_bit_eq_mod)
  have l: "drop_bit 6 (of_nat l :: u32) = 0"
    by (subst small [OF assms(2), symmetric]) (simp only: drop_bit_take_bit diff_self_eq_0 take_bit_0)
  have bits: "bit (of_nat n :: u32) i \<Longrightarrow> i < 6" for i
    using small [OF assms(1)] by (metis bit_take_bit_iff)
  have "drop_bit 6 (push_bit 6 (of_nat n) :: u32) = of_nat n"
    using bits by (rule push_drop)
  then have "drop_bit 6 (push_bit 6 (of_nat n) OR of_nat l :: u32) AND 0x3F = of_nat n"
    unfolding m by (simp add: drop_bit_or l take_bit_eq_mask [symmetric] small [OF assms(1)])
  then show "unat (drop_bit 6 (push_bit 6 (of_nat n) OR of_nat l :: u32) AND 0x3F) = n"
    using assms(1) by (simp add: unat_of_nat take_bit_eq_mod)
  have "take_bit 6 (push_bit 6 (of_nat n) :: u32) = 0" by (simp add: bit_eq_iff bit_simps)
  then show "(push_bit 6 (of_nat n) OR of_nat l :: u32) AND 0x3F = of_nat l"
    unfolding m take_bit_eq_mask [symmetric] by (simp add: take_bit_or small [OF assms(2)])
qed

lemma w_read_cases:
  assumes "p < 3"
  shows "prefix (w_line p h) (w_line p (snd (w_read a h)))"
    "a \<noteq> HR_UART_BASE_ADDR p + 0x30 \<Longrightarrow> w_taken p (snd (w_read a h)) = w_taken p h"
    "w_out p (snd (w_read a h)) = w_out p h" "w_level p (snd (w_read a h)) \<le> w_level p h"
    "w_mask p (snd (w_read a h)) = w_mask p h"
proof -
  have pre: "prefix (w_line p h) (w_line p h')" if "w_seen h' p = w_seen h p @ [x]" "w_rx h p = x # w_rx h' p" for h' x
  proof -
    have "take 32 (w_rx h p) = x # take 31 (w_rx h' p)" using that(2) by (simp add: take_Cons')
    moreover have "take 32 (w_rx h' p) = take 31 (w_rx h' p) @ take 1 (drop 31 (w_rx h' p))"
      using take_add [of 31 1 "w_rx h' p"] by simp
    ultimately show ?thesis using that(1) by (simp add: w_line_def w_fifo_def)
  qed
  show "prefix (w_line p h) (w_line p (snd (w_read a h)))"
  proof (cases "w_reg a")
    case None
    then show ?thesis by (simp add: w_read_def)
  next
    case (Some qr)
    obtain q r where qr: "qr = (q, r)" by fastforce
    show ?thesis
    proof (cases "q = p \<and> r = UR_RXW \<and> w_rx h p \<noteq> []")
      case True
      then obtain x xs where "w_rx h p = x # xs" by (cases "w_rx h p") auto
      then show ?thesis using Some qr True pre by (simp add: w_read_def)
    next
      case False
      then show ?thesis using Some qr by (auto simp: w_read_def w_line_def w_fifo_def split: list.split)
    qed
  qed
  show "a \<noteq> HR_UART_BASE_ADDR p + 0x30 \<Longrightarrow> w_taken p (snd (w_read a h)) = w_taken p h"
    by (auto simp: w_read_def w_taken_def dest!: w_reg_Some (2) split: option.split list.split)
  show "w_out p (snd (w_read a h)) = w_out p h" "w_level p (snd (w_read a h)) \<le> w_level p h"
    "w_mask p (snd (w_read a h)) = w_mask p h"
    by (auto simp: w_read_def w_out_def w_level_def w_mask_def split: option.split list.split)
qed

interpretation wire: uart_dev wire_io w_line w_taken w_out w_level w_mask w_idle
proof
  fix p a :: nat and h :: wire and v :: u32
  assume p: "p < 3"
  let ?b = "HR_UART_BASE_ADDR p"
  have byte: "ucast (ucast x :: u32) = x" for x :: u8 by (simp add: bit_eq_iff bit_simps)
  show "w_taken p h \<le> length (w_line p h)" by (simp add: w_taken_def w_line_def)
  show "prefix (w_line p h) (w_line p (snd (reg_read wire_io a h)))" using w_read_cases (1) [OF p] by simp
  show "a \<noteq> ?b + 0x30 \<Longrightarrow> w_taken p (snd (reg_read wire_io a h)) = w_taken p h" using w_read_cases (2) [OF p] by simp
  show "w_out p (snd (reg_read wire_io a h)) = w_out p h" using w_read_cases (3) [OF p] by simp
  show "w_level p (snd (reg_read wire_io a h)) \<le> w_level p h" using w_read_cases (4) [OF p] by simp
  show "w_mask p (snd (reg_read wire_io a h)) = w_mask p h" using w_read_cases (5) [OF p] by simp
  show "prefix (w_line p h) (w_line p (reg_write wire_io a v h))" "w_taken p (reg_write wire_io a v h) = w_taken p h"
    by (auto simp: w_write_def w_line_def w_fifo_def w_taken_def split: option.split)
  show "w_taken p h < length (w_line p h) \<Longrightarrow>
      ucast (fst (reg_read wire_io (?b + 0x30) h)) = w_line p h ! w_taken p h \<and> w_taken p (snd (reg_read wire_io (?b + 0x30) h)) = Suc (w_taken p h)"
    using p by (cases "w_rx h p") (simp_all add: w_read_def w_line_def w_taken_def w_fifo_def nth_append byte)
  show "unat (drop_bit 6 (fst (reg_read wire_io (?b + 0x1C) h)) AND 0x3F)
      = length (w_line p (snd (reg_read wire_io (?b + 0x1C) h))) - w_taken p (snd (reg_read wire_io (?b + 0x1C) h))"
    using p fifo_counts (1) [of "length (w_fifo p h)" "w_level p h"]
    by (simp add: w_read_def w_line_def w_taken_def w_fifo_def w_level_def)
  show "fst (reg_read wire_io (?b + 0x1C) h) AND 0x3F = of_nat (w_level p h) \<and> w_level p (snd (reg_read wire_io (?b + 0x1C) h)) = w_level p h"
    using p fifo_counts (2) [of "length (w_fifo p h)" "w_level p h"]
    by (simp add: w_read_def w_fifo_def) (simp add: w_level_def)
  show "a \<noteq> ?b + 0x20 \<Longrightarrow> w_out p (reg_write wire_io a v h) = w_out p h"
    by (auto simp: w_write_def w_out_def dest!: w_reg_Some (2) split: option.split)
  show "a \<noteq> ?b + 0x20 \<Longrightarrow> w_level p (reg_write wire_io a v h) \<le> w_level p h"
    by (auto simp: w_write_def w_level_def dest!: w_reg_Some (2) split: option.split)
  show "w_level p h < 32 \<Longrightarrow> w_out p (reg_write wire_io (?b + 0x20) v h) = w_out p h @ [ucast v]
      \<and> w_level p (reg_write wire_io (?b + 0x20) v h) = Suc (w_level p h)"
    using p by (auto simp: w_write_def w_out_def w_level_def)
  show "fst (reg_read wire_io (?b + 0x14) h) = w_mask p h" using p by (simp add: w_read_def w_mask_def)
  show "a \<noteq> ?b + 0x14 \<Longrightarrow> w_mask p (reg_write wire_io a v h) = w_mask p h"
    by (auto simp: w_write_def w_mask_def split: option.split)
  show "w_idle p h \<Longrightarrow> w_idle p (snd (reg_read wire_io a h))" "w_idle p h \<Longrightarrow> w_idle p (reg_write wire_io a v h)"
    by (auto simp: w_read_def w_write_def w_idle_def split: option.split list.split)
  show "w_idle p h \<Longrightarrow> fst (reg_read wire_io (?b + 0x18) h) AND 3 \<noteq> 0 \<and>
      fst (reg_read wire_io (?b + 0x18) h) AND (0x1EC OR 0x10) = 0 \<and> w_level p (snd (reg_read wire_io (?b + 0x18) h)) = 0"
    using p by (simp add: w_read_def w_idle_def w_level_def)
qed

text \<open>Its other registers are storage.\<close>

interpretation wire_regs: mmio_regs wire_io "{a. w_reg a = None}" w_ctl
  by unfold_locales (auto simp: w_read_def w_write_def split: option.split list.split)

end
