(* ===== verification/Uart_Serve.thy ===== *)
theory Uart_Serve
  imports Uart_Wire
begin

text \<open>
  The UART driver at work, from the lemmas of \<open>Uart_Dev\<close> and \<open>Uart_Irq\<close>: a whole interrupt handler, writing
  with its wait, interrupts and reads in any order, and what happens when the ring buffer is full. It ends with a port
  on the concrete device of \<open>Uart_Wire\<close>, for the examples.
\<close>

section \<open>Handlers as their parts\<close>

lemma UART0_parts:
  "uart_irq e 0 s = do { (i, s) \<leftarrow> irq_ack e 0 s; (cnt, s) \<leftarrow> irq_rx_count e 0 i s;
     s \<leftarrow> (case cnt of None \<Rightarrow> Some s
           | Some cnt \<Rightarrow> do { (rxlen, s) \<leftarrow> rx_loop e 0 i (unat cnt) 0 s; Some (if True then call_rx e 0 rxlen s else s) });
     irq_tx_cts e 0 i s }"
  by (simp add: uart_irq_def UART0_IRQHandler_def cong: option.case_cong)

lemma UART1_parts:
  "uart_irq e 1 s = do { (i, s) \<leftarrow> irq_ack e 1 s; s \<leftarrow> irq_overrun e 1 i s; (cnt, s) \<leftarrow> irq_rx_count e 1 i s;
     s \<leftarrow> (case cnt of None \<Rightarrow> Some s | Some cnt \<Rightarrow> irq_body1 e i cnt s);
     irq_tx_cts e 1 i s }"
  unfolding uart_irq_def UART1_IRQHandler_def irq_body1_def by simp

lemma UART2_parts:
  "uart_irq e 2 s = do { (i, s) \<leftarrow> irq_ack e 2 s; s \<leftarrow> irq_overrun e 2 i s; (cnt, s) \<leftarrow> irq_rx_count e 2 i s;
     s \<leftarrow> (case cnt of None \<Rightarrow> Some s
           | Some cnt \<Rightarrow> do { (rxlen, s) \<leftarrow> rx_loop e 2 i (unat cnt) 0 s; Some (if rxlen \<noteq> 0 then call_rx e 2 rxlen s else s) });
     irq_tx_cts e 2 i s }"
  by (simp add: uart_irq_def UART2_IRQHandler_def)

text \<open>The interrupts that the handler of a port finds.\<close>

definition pending_irq :: "('h, 'f) uart_env \<Rightarrow> nat \<Rightarrow> ('h, 'f) uart_state \<Rightarrow> u32" where
  "pending_irq e p s = fst (reg_read (io e) (HR_UART_BASE_ADDR p + UR_INTS) (hw s))"

context uart_dev
begin

lemma uart_irq_02:
  assumes "io e = m" "quiet_callbacks e" "p = 0 \<or> p = 2" "uart_ok level p s" "pending_irq e p s AND 0xE0 = 0"
    and "queue_len (recv (port p s)) \<le> 4030"
  shows "\<exists>s' new. uart_irq e p s = Some s' \<and> uart_ok level p s' \<and> queue (recv (port p s')) = queue (recv (port p s)) @ new
    \<and> hist line taken p (hw s') = hist line taken p (hw s) @ new
    \<and> sent p (hw s') @ outstanding p s' = sent p (hw s) @ outstanding p s
    \<and> (pending_irq e p s AND UART_RX_INT_FLAG \<noteq> 0 \<longrightarrow> mask p (hw s) AND UIS_RX_FIFO = 0
        \<longrightarrow> prefix (line p (hw s)) (hist line taken p (hw s')))
    \<and> (pending_irq e p s AND UART_TX_INT_FLAG \<noteq> 0 \<longrightarrow> tx_progress p s s')"
proof -
  let ?i = "pending_irq e p s"
  have ok: "port_ok p s" using assms(4) by (simp add: uart_ok_def)
  obtain h1 where h1: "irq_ack e p s = Some (?i, s\<lparr>hw := h1\<rparr>)" "calm (hw s) h1"
    using irq_ack_spec [OF assms(1) ok] assms(1) by (auto simp: pending_irq_def)
  have "port_ok p (s\<lparr>hw := h1\<rparr>)" using ok by (simp add: port_ok_def)
  then obtain h2 where h2: "irq_overrun e p ?i (s\<lparr>hw := h1\<rparr>) = Some (s\<lparr>hw := h2\<rparr>)" "calm h1 h2"
    using irq_overrun_spec [OF assms(1), of p "s\<lparr>hw := h1\<rparr>" ?i] by auto
  note r = irq_receive_02 [OF assms(1,2,4,5,6)]
  from assms(3) show ?thesis
  proof
    assume p: "p = 0"
    show ?thesis using r [OF h1(2), of "\<lambda>_. True"] h1(1) unfolding p UART0_parts by simp
  next
    assume p: "p = 2"
    show ?thesis using r [OF calm_trans [OF h1(2) h2(2)], of "\<lambda>n. n \<noteq> 0"] h1(1) h2(1) unfolding p UART2_parts by simp
  qed
qed

lemma uart_irq_1:
  assumes "io e = m" "quiet_callbacks e" "uart_ok level 1 s" "pending_irq e 1 s AND 0xE0 = 0"
    and rx: "pending_irq e 1 s AND UART_RX_INT_FLAG \<noteq> 0" "mask 1 (hw s) AND UIS_RX_FIFO = 0"
    and wrap: "unat (recv_head (recv (port 1 s))) \<noteq> 4093"
  shows "\<exists>s' new. uart_irq e 1 s = Some s' \<and> uart_ok level 1 s'
    \<and> queue (recv (port 1 s')) = drop (if queue_len (recv (port 1 s)) < 3967 then 0 else 128) (queue (recv (port 1 s))) @ new
    \<and> hist line taken 1 (hw s') = hist line taken 1 (hw s) @ new
    \<and> prefix (line 1 (hw s)) (hist line taken 1 (hw s'))
    \<and> plus_char_cnt (port 1 s') = (if new = [0x2B, 0x2B, 0x2B] then 3 else 0)
    \<and> sent 1 (hw s') @ outstanding 1 s' = sent 1 (hw s) @ outstanding 1 s"
proof -
  let ?i = "pending_irq e 1 s"
  have ok: "port_ok 1 s" "ring_ok (recv (port 1 s))" using assms(3) by (simp_all add: uart_ok_def)
  obtain h1 where h1: "irq_ack e 1 s = Some (?i, s\<lparr>hw := h1\<rparr>)" "calm (hw s) h1"
    using irq_ack_spec [OF assms(1) ok(1)] assms(1) by (auto simp: pending_irq_def)
  have "port_ok 1 (s\<lparr>hw := h1\<rparr>)" using ok by (simp add: port_ok_def)
  then obtain h2 where h2: "irq_overrun e 1 ?i (s\<lparr>hw := h1\<rparr>) = Some (s\<lparr>hw := h2\<rparr>)" "calm h1 h2"
    using irq_overrun_spec [OF assms(1), of 1 "s\<lparr>hw := h1\<rparr>" ?i] by auto
  note c2 = calm_trans [OF h1(2) h2(2)]
  have m2: "mask 1 h2 AND UIS_RX_FIFO = 0" using c2 rx(2) by (simp add: calm_def)
  have ok2: "port_ok 1 (s\<lparr>hw := h2\<rparr>)" using ok by (simp add: port_ok_def)
  obtain c h3 where c: "irq_rx_count e 1 ?i (s\<lparr>hw := h2\<rparr>) = Some (Some c, s\<lparr>hw := h3\<rparr>)" "calm h2 h3"
    "unat c = length (line 1 h3) - taken 1 h3" "unat c < 64"
    using irq_rx_count_spec [OF assms(1) ok2, of ?i] rx(1) m2 by auto
  note c3 = calm_trans [OF c2 c(2)]
  have ok3: "port_ok 1 (s\<lparr>hw := h3\<rparr>)" using ok by (simp add: port_ok_def)
  let ?new = "take (unat c) (drop (taken 1 h3) (line 1 h3))"
  have "\<exists>s' r. irq_body1 e ?i c (s\<lparr>hw := h3\<rparr>) = Some s' \<and> ring_ok r
    \<and> port 1 s' = (port 1 (s\<lparr>hw := h3\<rparr>))\<lparr>recv := r, plus_char_cnt := (if take (unat c) (drop (taken 1 (hw (s\<lparr>hw := h3\<rparr>))) (line 1 (hw (s\<lparr>hw := h3\<rparr>)))) = [0x2B, 0x2B, 0x2B] then 3 else 0)\<rparr>
    \<and> length (uart_port s') = length (uart_port (s\<lparr>hw := h3\<rparr>))
    \<and> queue r = drop (if queue_len (recv (port 1 (s\<lparr>hw := h3\<rparr>))) < 3967 then 0 else 128) (queue (recv (port 1 (s\<lparr>hw := h3\<rparr>)))) @ take (unat c) (drop (taken 1 (hw (s\<lparr>hw := h3\<rparr>))) (line 1 (hw (s\<lparr>hw := h3\<rparr>))))
    \<and> took 1 (unat c) (hw (s\<lparr>hw := h3\<rparr>)) (hw s')"
    by (rule irq_body1_spec [OF assms(1,2) ok3]; use ok(2) assms(4) c(3,4) wrap in simp)
  then obtain s4 r where s4: "irq_body1 e ?i c (s\<lparr>hw := h3\<rparr>) = Some s4" "ring_ok r"
    "port 1 s4 = (port 1 s)\<lparr>recv := r, plus_char_cnt := (if ?new = [0x2B, 0x2B, 0x2B] then 3 else 0)\<rparr>"
    "length (uart_port s4) = length (uart_port s)"
    "queue r = drop (if queue_len (recv (port 1 s)) < 3967 then 0 else 128) (queue (recv (port 1 s))) @ ?new"
    "took 1 (unat c) h3 (hw s4)"
    by auto
  have l4: "length (uart_port s4) = 3" using s4(4) ok(1) by (simp add: port_ok_def)
  have le: "unat c \<le> length (line 1 h3) - taken 1 h3" using c(3) by simp
  obtain s' where "irq_tx_cts e 1 ?i s4 = Some s'" "uart_ok level 1 s'" "recv (port 1 s') = r"
    "plus_char_cnt (port 1 s') = plus_char_cnt (port 1 s4)"
    "hist line taken 1 (hw s') = hist line taken 1 (hw s) @ ?new"
    "sent 1 (hw s') @ outstanding 1 s' = sent 1 (hw s) @ outstanding 1 s"
    "prefix (line 1 (hw s)) (hist line taken 1 (hw s'))"
    using irq_finish [OF assms(1-3) l4 exI [of _ "if ?new = [0x2B, 0x2B, 0x2B] then 3 else 0"] s4(6) c3 le s4(2), of ?i] s4(3) c(3) by auto
  then show ?thesis
    unfolding UART1_parts using h1(1) h2(1) c(1) s4(1,3,5) by (intro exI [of _ s'] exI [of _ ?new]) simp
qed

section \<open>Writing\<close>

text \<open>What is handed to \<open>tls_uart_write_async\<close> goes out after all that was outstanding.\<close>

lemma fill_buf_ok:
  assumes "heap s = []" "unat n \<le> length buf" "p < length (uart_port s)"
  shows "tls_uart_fill_buf p buf (ucast (n :: u16)) s
    = Some (0, upd_port p (\<lambda>q. q\<lparr>tx_msg_pending := tx_msg_pending q @ [\<lparr>tx_buf = take (unat n) buf, tx_buflen = n, tx_offset = 0\<rparr>]\<rparr>) s)"
proof -
  have n: "unat (ucast n :: u32) = unat n" "ucast (ucast n :: u32) = n"
    using unsigned_less [of n, where 'a = nat]
    by (simp add: unsigned_ucast_eq take_bit_eq_mod, simp add: bit_eq_iff bit_simps)
  show ?thesis using assms by (simp add: tls_uart_fill_buf_def n slice_def)
qed

lemma write_async_spec:
  assumes "io e = m" "quiet_callbacks e" "uart_ok level (unat no) s" "no \<le> 2" "heap s = []" "n \<noteq> 0" "unat n \<le> length buf"
  shows "\<exists>s'. tls_uart_write_async e no (Some buf) n s = Some (0, s') \<and> tx_frame (unat no) s s'
    \<and> tx_calm (unat no) (hw s) (hw s') \<and> tx_ok (unat no) s' \<and> level (unat no) (hw s') \<le> 16
    \<and> tx_sem (port (unat no) s') = tx_sem (port (unat no) s)
    \<and> sent (unat no) (hw s') @ outstanding (unat no) s' = sent (unat no) (hw s) @ outstanding (unat no) s @ take (unat n) buf
    \<and> length (outstanding (unat no) s') \<le> length (outstanding (unat no) s) + unat n"
proof -
  let ?p = "unat no" and ?m = "\<lparr>tx_buf = take (unat n) buf, tx_buflen = n, tx_offset = 0\<rparr>"
  have ok: "port_ok ?p s" "tx_ok ?p s" "level ?p (hw s) \<le> 16" using assms(3) by (simp_all add: uart_ok_def)
  have p: "?p < length (uart_port s)" using ok(1) by (simp add: port_ok_def)
  let ?s = "upd_port ?p (\<lambda>q. q\<lparr>tx_msg_pending := tx_msg_pending q @ [?m]\<rparr>) s"
  have fr: "tx_frame ?p s ?s" using p by (rule tx_frame_upd) (simp add: tx_erase_def)
  have ok1: "port_ok ?p ?s" using ok(1) tx_frame_keeps(2) [OF fr] by simp
  have "msg_ok ?m" using assms(6,7) by (simp add: msg_ok_def word_neq_0_conv)
  then have ok2: "tx_ok ?p ?s" using ok(2) p by (simp add: tx_ok_def)
  have out: "outstanding ?p ?s = outstanding ?p s @ take (unat n) buf"
    using p assms(7) by (simp add: outstanding_def remaining_def slice_def)
  have no: "\<not> no > 2" "\<not> n < 1" using assms(4,6) by (simp_all add: word_less_1)
  obtain t rest where pend: "tx_msg_pending (port ?p ?s) = t # rest" using p by (cases "tx_msg_pending (port ?p s)") auto
  have cnt: "(32 :: int) > 16 - int (level ?p (hw ?s))" by simp
  have lv: "level ?p (hw ?s) \<le> 16" using ok(3) by simp
  obtain full k t' s1 s2 where f: "tx_fill e ?p 32 t ?s = Some (full, 32 - 1 - int k, t', s1)" "s2 = tx_put_back e ?p t' rest s1"
    "tx_frame ?p ?s s2" "tx_calm ?p (hw ?s) (hw s2)" "sent ?p (hw s2) @ outstanding ?p s2 = sent ?p (hw ?s) @ outstanding ?p ?s"
    "level ?p (hw s2) \<le> 16" "tx_ok ?p s2" "tx_sem (port ?p s2) = tx_sem (port ?p ?s)"
    "length (sent ?p (hw s2)) + level ?p (hw ?s) = length (sent ?p (hw ?s)) + level ?p (hw s2)" "level ?p (hw s2) = level ?p (hw ?s) + k"
    by (rule tx_first_spec [OF assms(1,2) ok1 ok2 lv pend cnt]) blast
  have "tls_uart_write_async e no (Some buf) n s = Some (0, s2)"
    using no fill_buf_ok [OF assms(5,7) p] f(1,2) pend by (simp add: tls_uart_write_async_def tls_uart_tx_chars_start_def)
  moreover have "length (outstanding ?p s2) \<le> length (outstanding ?p s) + unat n"
    using arg_cong [OF f(5), of length] f(9,10) out assms(7) by simp
  ultimately show ?thesis using f(3-8) tx_frame_trans [OF fr f(3)] out p by (intro exI [of _ s2]) simp
qed

text \<open>Interrupts of an idle port: each sends more, and the first that finds nothing left gives the semaphore.\<close>

lemma idle_irq:
  assumes "io e = m" "quiet_callbacks e" "port_ok p s" "tx_ok p s" "idle p (hw s)"
  shows "\<exists>s'. uart_irq e p s = Some s' \<and> tx_frame p s s' \<and> tx_calm p (hw s) (hw s') \<and> tx_ok p s' \<and> level p (hw s') \<le> 16
    \<and> sent p (hw s') @ outstanding p s' = sent p (hw s) @ outstanding p s
    \<and> (if tx_msg_pending (port p s) = [] then tx_msg_pending (port p s') = [] \<and> tx_sem (port p s') = map_option Suc (tx_sem (port p s))
       else tx_sem (port p s') = tx_sem (port p s)
         \<and> (tx_msg_pending (port p s') = [] \<or> length (outstanding p s') < length (outstanding p s)))"
proof -
  let ?a = "HR_UART_BASE_ADDR p + UR_INTS" and ?i = "fst (reg_read m (HR_UART_BASE_ADDR p + UR_INTS) (hw s))"
  have p: "p < 3" "regs (port p s) = Some (HR_UART_BASE_ADDR p)" "p < length (uart_port s)" using assms(3) by (simp_all add: port_ok_def)
  define h where "h = reg_write m ?a ?i (snd (reg_read m ?a (hw s)))"
  have ack: "irq_ack e p s = Some (?i, s\<lparr>hw := h\<rparr>)"
    using p(2) assms(1) by (simp add: irq_ack_def ur_read_def ur_write_def tls_reg_read32_def tls_reg_write32_def case_prod_beta h_def)
  have c1: "calm (hw s) (snd (reg_read m ?a (hw s)))" using p by (intro calm_read) simp
  have c2: "calm (snd (reg_read m ?a (hw s))) h" unfolding h_def using p by (intro calm_write) simp
  note c = calm_trans [OF c1 c2]
  have "level p h \<le> level p (snd (reg_read m ?a (hw s)))" using c2 p(1) by (simp add: calm_def)
  then have lv: "level p h = 0" using read_ints_idle [OF p(1) assms(5)] by simp
  have i: "?i AND UART_TX_INT_FLAG \<noteq> 0" "?i AND (UART_RX_INT_FLAG OR UIS_CTS_CHNG) = 0"
    using read_ints_idle [OF p(1) assms(5)] by simp_all
  have i0: "?i AND 0x1FC = 0" using i(2) by simp
  have sub: "?i AND v = 0" if "v AND 0x1FC = v" for v
  proof -
    have "?i AND v = (?i AND 0x1FC) AND v" using that by (metis and.assoc and.commute)
    then show ?thesis using i0 by simp
  qed
  have none: "?i AND UART_RX_INT_FLAG = 0" "?i AND UIS_CTS_CHNG = 0" "?i AND UIS_OVERRUN = 0" by (rule sub; simp)+
  let ?s = "s\<lparr>hw := h\<rparr>"
  have ok: "port_ok p ?s" "tx_ok p ?s" "level p (hw ?s) \<le> 16" using assms(3,4) lv by (simp_all add: port_ok_def tx_ok_def)
  obtain s' where s': "tls_uart_tx_chars e p ?s = Some s'" "tx_frame p ?s s'" "tx_calm p h (hw s')"
    "sent p (hw s') @ outstanding p s' = sent p h @ outstanding p ?s" "level p (hw s') \<le> 16" "tx_ok p s'"
    "tx_msg_pending (port p s') = [] \<or> level p (hw s') = 16"
    "tx_msg_pending (port p ?s) = [] \<longrightarrow> s' = release_tx_sem p ?s"
    "tx_msg_pending (port p ?s) \<noteq> [] \<longrightarrow> tx_sem (port p s') = tx_sem (port p ?s)"
    "length (sent p (hw s')) + level p h = length (sent p h) + level p (hw s')"
    using tls_uart_tx_chars_spec [OF assms(1,2) ok] by auto
  have irq: "uart_irq e p s = Some s'"
  proof -
    have "p = 0 \<or> p = 1 \<or> p = 2" using p(1) by linarith
    then show ?thesis
      using ack none i(1) s'(1)
      by (elim disjE) (simp_all add: uart_irq_def UART0_IRQHandler_def UART1_IRQHandler_def UART2_IRQHandler_def
          irq_rx_count_def irq_tx_cts_def irq_overrun_def)
  qed
  have out: "outstanding p ?s = outstanding p s" "sent p h = sent p (hw s)" using c p(1) by (simp_all add: outstanding_def calm_def)
  have len: "length (sent p (hw s')) + length (outstanding p s') = length (sent p (hw s)) + length (outstanding p s)"
    using arg_cong [OF s'(4), of length] out by simp
  show ?thesis
  proof (intro exI conjI)
    show "tx_frame p s s'" using tx_frame_trans [OF tx_frame_hw s'(2)] .
    show "tx_calm p (hw s) (hw s')" using tx_calm_trans [OF calm_tx_calm [OF c] s'(3)] .
    show "if tx_msg_pending (port p s) = [] then tx_msg_pending (port p s') = [] \<and> tx_sem (port p s') = map_option Suc (tx_sem (port p s))
       else tx_sem (port p s') = tx_sem (port p s)
         \<and> (tx_msg_pending (port p s') = [] \<or> length (outstanding p s') < length (outstanding p s))"
      using s'(7-10) len lv out(2) p(3) by (auto simp: release_tx_sem_def split: option.split)
  qed (use irq s' out in simp_all)
qed

lemma tx_wait_returns:
  assumes "io e = m" "quiet_callbacks e"
  shows "idle p (hw s) \<Longrightarrow> port_ok p s \<Longrightarrow> tx_ok p s \<Longrightarrow> level p (hw s) \<le> 16 \<Longrightarrow> tx_sem (port p s) = Some 0 \<Longrightarrow> set irqs \<subseteq> {p} \<Longrightarrow>
    length irqs > length (outstanding p s) + (if tx_msg_pending (port p s) = [] then 0 else 1) \<Longrightarrow>
    \<exists>s'. tx_wait e p irqs s = Some s' \<and> tx_frame p s s' \<and> tx_calm p (hw s) (hw s') \<and> tx_ok p s' \<and> level p (hw s') \<le> 16
      \<and> sent p (hw s') = sent p (hw s) @ outstanding p s \<and> tx_msg_pending (port p s') = []"
proof (induction irqs arbitrary: s)
  case Nil
  then show ?case by simp
next
  case (Cons i irqs)
  have i: "i = p" "set irqs \<subseteq> {p}" using Cons.prems(6) by simp_all
  obtain s1 where s1: "uart_irq e p s = Some s1" "tx_frame p s s1" "tx_calm p (hw s) (hw s1)" "tx_ok p s1" "level p (hw s1) \<le> 16"
    "sent p (hw s1) @ outstanding p s1 = sent p (hw s) @ outstanding p s"
    and pr: "if tx_msg_pending (port p s) = [] then tx_msg_pending (port p s1) = [] \<and> tx_sem (port p s1) = map_option Suc (tx_sem (port p s))
       else tx_sem (port p s1) = tx_sem (port p s)
         \<and> (tx_msg_pending (port p s1) = [] \<or> length (outstanding p s1) < length (outstanding p s))"
    using idle_irq [OF assms(1,2) Cons.prems(2,3,1)] by blast
  have ok1: "port_ok p s1" using Cons.prems(2) tx_frame_keeps(2) [OF s1(2)] by simp
  have idle1: "idle p (hw s1)" using s1(3) Cons.prems(1) ok1 by (simp add: tx_calm_def port_ok_def)
  have p1: "p < length (uart_port s1)" using ok1 by (simp add: port_ok_def)
  have step: "tx_wait e p (i # irqs) s = tx_wait e p irqs s1" using Cons.prems(5) s1(1) i(1) by simp
  show ?case
  proof (cases "tx_msg_pending (port p s) = []")
    case True
    let ?s = "upd_port p (\<lambda>q. q\<lparr>tx_sem := Some 0\<rparr>) s1"
    have sem: "tx_sem (port p s1) = Some 1" "tx_msg_pending (port p s1) = []" using pr True Cons.prems(5) by simp_all
    have w: "tx_wait e p irqs s1 = Some ?s" using sem(1) by (cases irqs) simp_all
    have f: "tx_frame p s1 ?s" using p1 by (rule tx_frame_upd) (simp add: tx_erase_def)
    have out: "outstanding p s1 = []" using sem(2) by (simp add: outstanding_def)
    have "tx_ok p ?s" using s1(4) p1 by (simp add: tx_ok_def)
    then show ?thesis unfolding step w using s1 tx_frame_trans [OF s1(2) f] out sem(2) p1 by (intro exI [of _ ?s]) simp
  next
    case False
    have sem: "tx_sem (port p s1) = Some 0" using pr False Cons.prems(5) by simp
    have out0: "outstanding p s1 = []" if "tx_msg_pending (port p s1) = []" using that by (simp add: outstanding_def)
    have "length irqs > length (outstanding p s1) + (if tx_msg_pending (port p s1) = [] then 0 else 1)"
      using pr False Cons.prems(7) out0 by (auto split: if_splits)
    then obtain s' where s': "tx_wait e p irqs s1 = Some s'" "tx_frame p s1 s'" "tx_calm p (hw s1) (hw s')" "tx_ok p s'" "level p (hw s') \<le> 16"
      "sent p (hw s') = sent p (hw s1) @ outstanding p s1" "tx_msg_pending (port p s') = []"
      using Cons.IH [OF idle1 ok1 s1(4,5) sem i(2)] by blast
    show ?thesis unfolding step using s' s1(6) tx_frame_trans [OF s1(2) s'(2)] tx_calm_trans [OF s1(3) s'(3)]
      by (intro exI [of _ s']) simp
  qed
qed

lemma tls_uart_write_spec:
  assumes "io e = m" "quiet_callbacks e" "uart_ok level (unat no) s" "no \<le> 2" "heap s = []" "n \<noteq> 0" "unat n \<le> length buf"
    and "idle (unat no) (hw s)" "set irqs \<subseteq> {unat no}" "length irqs > Suc (length (outstanding (unat no) s) + unat n)"
  shows "\<exists>s'. tls_uart_write e no (Some buf) n irqs s = Some (0, s') \<and> uart_ok level (unat no) s'
    \<and> recv (port (unat no) s') = recv (port (unat no) s) \<and> outstanding (unat no) s' = []
    \<and> sent (unat no) (hw s') = sent (unat no) (hw s) @ outstanding (unat no) s @ take (unat n) buf"
proof -
  let ?p = "unat no" and ?s = "upd_port (unat no) (\<lambda>q. q\<lparr>tx_sem := Some 0\<rparr>) s"
  have ok: "port_ok ?p s" "tx_ok ?p s" "level ?p (hw s) \<le> 16" using assms(3) by (simp_all add: uart_ok_def)
  have p: "?p < length (uart_port s)" "?p < 3" using ok(1) by (simp_all add: port_ok_def)
  have f0: "tx_frame ?p s ?s" using p(1) by (rule tx_frame_upd) (simp add: tx_erase_def)
  have u: "uart_ok level ?p ?s" "outstanding ?p ?s = outstanding ?p s" "heap ?s = []"
    using assms(3,5) p(1) by (simp_all add: uart_ok_def port_ok_def tx_ok_def outstanding_def) (simp add: upd_port_def)
  obtain s1 where s1: "tls_uart_write_async e no (Some buf) n ?s = Some (0, s1)" "tx_frame ?p ?s s1" "tx_calm ?p (hw s) (hw s1)"
    "tx_ok ?p s1" "level ?p (hw s1) \<le> 16" "tx_sem (port ?p s1) = Some 0"
    "sent ?p (hw s1) @ outstanding ?p s1 = sent ?p (hw s) @ outstanding ?p s @ take (unat n) buf"
    "length (outstanding ?p s1) \<le> length (outstanding ?p s) + unat n"
    using write_async_spec [OF assms(1,2) u(1) assms(4) u(3) assms(6,7)] p(1) u(2) by auto
  note f1 = tx_frame_trans [OF f0 s1(2)]
  have ok1: "port_ok ?p s1" using ok(1) tx_frame_keeps(2) [OF f1] by simp
  have len: "length irqs > length (outstanding ?p s1) + (if tx_msg_pending (port ?p s1) = [] then 0 else 1)"
    using s1(8) assms(10) by simp
  have idle1: "idle ?p (hw s1)" using s1(3) assms(8) p(2) by (simp add: tx_calm_def)
  obtain s2 where s2: "tx_wait e ?p irqs s1 = Some s2" "tx_frame ?p s1 s2" "tx_calm ?p (hw s1) (hw s2)" "tx_ok ?p s2" "level ?p (hw s2) \<le> 16"
    "sent ?p (hw s2) = sent ?p (hw s1) @ outstanding ?p s1" "tx_msg_pending (port ?p s2) = []"
    using tx_wait_returns [OF assms(1,2) idle1 ok1 s1(4-6) assms(9) len] by blast
  let ?s' = "upd_port ?p (\<lambda>q. q\<lparr>tx_sem := None\<rparr>) s2"
  have p2: "?p < length (uart_port s2)" using p(1) tx_frame_keeps(8) [OF tx_frame_trans [OF f1 s2(2)]] by simp
  have f3: "tx_frame ?p s2 ?s'" using p2 by (rule tx_frame_upd) (simp add: tx_erase_def)
  note f = tx_frame_trans [OF tx_frame_trans [OF f1 s2(2)] f3]
  note kp = tx_frame_keeps (1-7,9-) [OF f, of ?p]
  have no: "\<not> no > 2" using assms(4) by simp
  have "tls_uart_write e no (Some buf) n irqs s = Some (0, ?s')"
    using no s1(1) s2(1) assms(5) by (simp add: tls_uart_write_def Let_def)
  moreover have "uart_ok level ?p ?s'"
    using assms(3) kp s2(4,5) p2 by (simp add: uart_ok_def tx_ok_def)
  ultimately show ?thesis
    using kp s1(7) s2(6,7) p2 by (intro exI [of _ ?s']) (simp add: outstanding_def)
qed

section \<open>Overruns\<close>

text \<open>A byte put into a ring that has no place left makes the ring empty.\<close>

lemma recv_put_full:
  assumes "p < length (uart_port s)" "ring_ok (recv (port p s))" "queue_len (recv (port p s)) = 4095"
  shows "\<exists>r. recv_put p ch s = Some (set_recv p r s) \<and> ring_ok r \<and> queue r = []"
proof -
  let ?r = "recv (port p s)" and ?h = "unat (recv_head (recv (port p s)))" and ?t = "unat (recv_tail (recv (port p s)))"
  obtain b where b: "recv_buf ?r = Some b" "length b = 4096" and h: "?h < 4096" and t: "?t < 4096" using assms(2) by (auto simp: ring_ok_def)
  let ?r' = "?r\<lparr>recv_buf := Some (patch b ?h [ch]), recv_head := (recv_head ?r + 1) AND 4095\<rparr>"
  have h': "unat (recv_head ?r') = (?h + 1) mod 4096" using unat_add_4096 (2) [OF h, of 1] by simp
  have "?t = (?h + 1) mod 4096"
    using assms(3) ring_distance [OF h t] ring_index [OF h, of 1] h t unfolding queue_len_def by (simp split: if_splits)
  then have "queue_len ?r' = 0" unfolding queue_len_def h' by simp
  moreover have "ring_ok ?r'" using b h h' t by (simp add: ring_ok_def)
  moreover have "recv_put p ch s = Some (set_recv p ?r' s)" using b h by (simp add: recv_put_def Let_def upd_port_def)
  ultimately show ?thesis by (intro exI [of _ ?r']) (simp add: queue_def)
qed

lemma uart_irq_02_full:
  assumes "io e = m" "quiet_callbacks e" "p = 0 \<or> p = 2" "uart_ok level p s" "pending_irq e p s AND 0xE0 = 0"
    and rx: "pending_irq e p s AND UART_RX_INT_FLAG \<noteq> 0" "mask p (hw s) AND UIS_RX_FIFO = 0"
    and full: "queue_len (recv (port p s)) = 4095" "fcStatus (port p s) = TLS_UART_FLOW_CTRL_HARDWARE"
    and more: "taken p (hw s) < length (line p (hw s))"
  shows "\<exists>s'. uart_irq e p s = Some s' \<and> uart_ok level p s' \<and> queue (recv (port p s')) = []"
proof -
  let ?i = "pending_irq e p s"
  have ok: "port_ok p s" "ring_ok (recv (port p s))" "uart_no (port p s) = of_nat p" using assms(4) by (simp_all add: uart_ok_def)
  have p: "p < 3" "p < length (uart_port s)" "length (uart_port s) = 3" using ok(1) by (simp_all add: port_ok_def)
  obtain h1 where h1: "irq_ack e p s = Some (?i, s\<lparr>hw := h1\<rparr>)" "calm (hw s) h1"
    using irq_ack_spec [OF assms(1) ok(1)] assms(1) by (auto simp: pending_irq_def)
  have "port_ok p (s\<lparr>hw := h1\<rparr>)" using ok by (simp add: port_ok_def)
  then obtain h2 where h2: "irq_overrun e p ?i (s\<lparr>hw := h1\<rparr>) = Some (s\<lparr>hw := h2\<rparr>)" "calm h1 h2"
    using irq_overrun_spec [OF assms(1), of p "s\<lparr>hw := h1\<rparr>" ?i] by auto
  have recv: "\<exists>s4 h3. (do { (cnt, s) \<leftarrow> irq_rx_count e p ?i (s\<lparr>hw := h\<rparr>);
        (case cnt of None \<Rightarrow> Some s
         | Some cnt \<Rightarrow> do { (rxlen, s) \<leftarrow> rx_loop e p ?i (unat cnt) 0 s; Some (if b rxlen then call_rx e p rxlen s else s) }) }) = Some s4
      \<and> length (uart_port s4) = 3 \<and> (\<exists>r c. port p s4 = (port p s)\<lparr>recv := r, plus_char_cnt := c\<rparr> \<and> ring_ok r \<and> queue r = [])
      \<and> calm (hw s) h3 \<and> 1 \<le> length (line p h3) - taken p h3 \<and> took p 1 h3 (hw s4)"
    if h: "calm (hw s) h" for h b
  proof -
    have ok': "port_ok p (s\<lparr>hw := h\<rparr>)" using ok(1) by (simp add: port_ok_def)
    have "mask p h AND UIS_RX_FIFO = 0" using h p(1) rx(2) by (simp add: calm_def)
    then obtain n h3 where c: "irq_rx_count e p ?i (s\<lparr>hw := h\<rparr>) = Some (Some n, s\<lparr>hw := h3\<rparr>)" "calm h h3"
      "unat n = length (line p h3) - taken p h3"
      using irq_rx_count_spec [OF assms(1) ok', of ?i] rx(1) by auto
    note h3 = calm_trans [OF h c(2)]
    have "prefix (line p (hw s)) (line p h3)" "taken p h3 = taken p (hw s)" using h3 p(1) by (simp_all add: calm_def)
    then have more3: "taken p h3 < length (line p h3)" using more by (metis prefix_length_le order_less_le_trans)
    then have "unat n \<noteq> 0" using c(3) by simp
    then obtain k where k: "unat n = Suc k" using not0_implies_Suc by blast
    have ok3: "port_ok p (s\<lparr>hw := h3\<rparr>)" using ok(1) by (simp add: port_ok_def)
    obtain v h4 where v: "ur_read e p UR_RXW (s\<lparr>hw := h3\<rparr>) = Some (v, s\<lparr>hw := h4\<rparr>)" "took p 1 h3 h4"
      by (rule rx_take [OF assms(1) ok3]) (use more3 in simp_all)
    obtain r where r: "recv_put p (ucast v) (s\<lparr>hw := h4\<rparr>) = Some (set_recv p r (s\<lparr>hw := h4\<rparr>))" "ring_ok r" "queue r = []"
      using recv_put_full [of p "s\<lparr>hw := h4\<rparr>" "ucast v"] p ok(2) full(1) by auto
    have room: "CIRC_SPACE (recv_head (recv (port p s))) (recv_tail (recv (port p s))) \<le> 2"
      using unat_CIRC_SPACE [OF ok(2)] full(1) by (simp add: word_le_nat_alt)
    have no1: "uart_no (port p s) \<noteq> 1" unfolding ok(3) using assms(3) by auto
    have loop: "rx_loop e p ?i (unat n) 0 (s\<lparr>hw := h3\<rparr>) = Some (1, set_recv p r (s\<lparr>hw := h4\<rparr>))"
      unfolding k using v(1) assms(5) room full(2) no1 r(1) by (simp add: Let_def tls_set_uart_rx_status_def)
    let ?s4 = "if b 1 then call_rx e p 1 (set_recv p r (s\<lparr>hw := h4\<rparr>)) else set_recv p r (s\<lparr>hw := h4\<rparr>)"
    have s4: "hw ?s4 = h4" "length (uart_port ?s4) = 3" "port p ?s4 = (port p s)\<lparr>recv := r, plus_char_cnt := plus_char_cnt (port p s)\<rparr>"
      using p by (simp_all add: quiet_call_rx [OF assms(2)])
    have "\<exists>r c. port p ?s4 = (port p s)\<lparr>recv := r, plus_char_cnt := c\<rparr> \<and> ring_ok r \<and> queue r = []"
      using s4(3) r(2,3) by blast
    then show ?thesis
      using c(1) loop s4(1,2) h3 more3 v(2) by (intro exI [of _ ?s4] exI [of _ h3]) simp
  qed
  have fin: "\<exists>s'. irq_tx_cts e p ?i s4 = Some s' \<and> uart_ok level p s' \<and> queue (recv (port p s')) = []"
    if s4: "length (uart_port s4) = 3" "\<exists>r c. port p s4 = (port p s)\<lparr>recv := r, plus_char_cnt := c\<rparr> \<and> ring_ok r \<and> queue r = []"
      "calm (hw s) h3" "1 \<le> length (line p h3) - taken p h3" "took p 1 h3 (hw s4)" for s4 h3
  proof -
    obtain r c where r: "port p s4 = (port p s)\<lparr>recv := r, plus_char_cnt := c\<rparr>" "ring_ok r" "queue r = []" using s4(2) by blast
    show ?thesis
      using irq_finish [OF assms(1,2,4) s4(1) exI [of _ c] s4(5,3,4) r(2), of ?i] r by auto
  qed
  from assms(3) show ?thesis
  proof
    assume p0: "p = 0"
    obtain s4 h3 where s4: "(do { (cnt, s) \<leftarrow> irq_rx_count e p ?i (s\<lparr>hw := h1\<rparr>);
        (case cnt of None \<Rightarrow> Some s
         | Some cnt \<Rightarrow> do { (rxlen, s) \<leftarrow> rx_loop e p ?i (unat cnt) 0 s; Some (if True then call_rx e p rxlen s else s) }) }) = Some s4"
      and r4: "length (uart_port s4) = 3" "\<exists>r c. port p s4 = (port p s)\<lparr>recv := r, plus_char_cnt := c\<rparr> \<and> ring_ok r \<and> queue r = []"
        "calm (hw s) h3" "1 \<le> length (line p h3) - taken p h3" "took p 1 h3 (hw s4)"
      using recv [OF h1(2), of "\<lambda>_. True"] by blast
    show ?thesis
      using fin [OF r4] h1(1) s4 unfolding p0 UART0_parts by (auto split: Option.bind_splits)
  next
    assume p2: "p = 2"
    obtain s4 h3 where s4: "(do { (cnt, s) \<leftarrow> irq_rx_count e p ?i (s\<lparr>hw := h2\<rparr>);
        (case cnt of None \<Rightarrow> Some s
         | Some cnt \<Rightarrow> do { (rxlen, s) \<leftarrow> rx_loop e p ?i (unat cnt) 0 s; Some (if rxlen \<noteq> 0 then call_rx e p rxlen s else s) }) }) = Some s4"
      and r4: "length (uart_port s4) = 3" "\<exists>r c. port p s4 = (port p s)\<lparr>recv := r, plus_char_cnt := c\<rparr> \<and> ring_ok r \<and> queue r = []"
        "calm (hw s) h3" "1 \<le> length (line p h3) - taken p h3" "took p 1 h3 (hw s4)"
      using recv [OF calm_trans [OF h1(2) h2(2)], of "\<lambda>n. n \<noteq> 0"] by blast
    show ?thesis
      using fin [OF r4] h1(1) h2(1) s4 unfolding p2 UART2_parts by (auto split: Option.bind_splits)
  qed
qed

end

section \<open>Interrupts and reads in any order\<close>

text \<open>
  Interrupts of a port and calls of \<open>tls_uart_read\<close>, in any order; \<open>xs\<close> is what the calls have returned, one after
  the other. An interrupt comes without a receive error and while the ring has room, as it has when the reader keeps up.
\<close>

inductive uart_steps :: "('h, 'f) uart_env \<Rightarrow> nat \<Rightarrow> ('h, 'f) uart_state \<Rightarrow> bytes \<Rightarrow> ('h, 'f) uart_state \<Rightarrow> bool" where
  steps_none: "uart_steps e p s [] s"
| steps_irq: "uart_steps e p s xs s1 \<Longrightarrow> pending_irq e p s1 AND 0xE0 = 0 \<Longrightarrow> queue_len (recv (port p s1)) \<le> 4030 \<Longrightarrow>
    uart_irq e p s1 = Some s2 \<Longrightarrow> uart_steps e p s xs s2"
| steps_read: "uart_steps e p s xs s1 \<Longrightarrow> n \<noteq> 0 \<Longrightarrow> unat n \<le> length buf \<Longrightarrow>
    tls_uart_read (of_nat p) (Some buf) n s1 = Some (r, Some buf', s2) \<Longrightarrow> uart_steps e p s (xs @ take (nat r) buf') s2"

context uart_dev
begin

lemma read_step:
  assumes "uart_ok level p s" "n \<noteq> 0" "unat n \<le> length buf"
    and "tls_uart_read (of_nat p) (Some buf) n s = Some (r, Some buf', s')"
  shows "uart_ok level p s' \<and> hw s' = hw s \<and> take (nat r) buf' @ queue (recv (port p s')) = queue (recv (port p s))"
proof -
  let ?r = "recv (port p s)"
  have ok: "port_ok p s" "ring_ok ?r" using assms(1) by (simp_all add: uart_ok_def)
  have p: "p < 3" "p < length (uart_port s)" using ok(1) by (simp_all add: port_ok_def)
  have u: "unat (of_nat p :: u16) = p" "(of_nat p :: u16) \<le> 2"
  proof -
    show "unat (of_nat p :: u16) = p" using p(1) by (simp add: unat_of_nat take_bit_eq_mod)
    then show "(of_nat p :: u16) \<le> 2" using p(1) by (simp add: word_le_nat_alt)
  qed
  note rd = tls_uart_read_queue [where no = "of_nat p", unfolded u(1), OF ok(2) u(2) assms(2,3)]
  show ?thesis
  proof (cases "unat n \<le> queue_len ?r")
    case False
    then show ?thesis using rd assms(1,4) by simp
  next
    case True
    let ?g = "\<lambda>q. q\<lparr>recv := (recv q)\<lparr>recv_tail := (recv_tail ?r + of_nat (unat n)) AND 4095\<rparr>\<rparr>"
    have e: "r = int (unat n)" "buf' = patch buf 0 (take (unat n) (queue ?r))" "s' = upd_port p ?g s"
      using rd assms(4) True by simp_all
    have "take (unat n) buf' = take (unat n) (queue ?r)"
      unfolding e(2) patch_def using True by (simp add: min_absorb1)
    moreover have "uart_ok level p s'" unfolding e(3)
      using assms(1) p queue_drop(1) [OF ok(2) True refl] by (simp add: uart_ok_def port_ok_def tx_ok_def)
    ultimately show ?thesis
      using queue_drop(2) [OF ok(2) True refl] p unfolding e by simp
  qed
qed

lemma uart_steps_stream:
  assumes "uart_steps e p s xs s'" "io e = m" "quiet_callbacks e" "p = 0 \<or> p = 2" "uart_ok level p s"
  shows "uart_ok level p s' \<and> (\<exists>new. hist line taken p (hw s') = hist line taken p (hw s) @ new
    \<and> xs @ queue (recv (port p s')) = queue (recv (port p s)) @ new)"
  using assms
proof (induction rule: uart_steps.induct)
  case (steps_none e p s)
  then show ?case by simp
next
  case (steps_irq e p s xs s1 s2)
  then obtain new where a: "uart_ok level p s1" "hist line taken p (hw s1) = hist line taken p (hw s) @ new"
    "xs @ queue (recv (port p s1)) = queue (recv (port p s)) @ new" by blast
  obtain new' where "uart_ok level p s2" "queue (recv (port p s2)) = queue (recv (port p s1)) @ new'"
    "hist line taken p (hw s2) = hist line taken p (hw s1) @ new'"
    using uart_irq_02 [OF steps_irq.prems(1-3) a(1) steps_irq.hyps(2,3)] steps_irq.hyps(4) by auto
  then show ?case using a(2,3) by (intro conjI exI [of _ "new @ new'"]) (simp_all add: append_assoc [symmetric] del: append_assoc)
next
  case (steps_read e p s xs s1 n buf r buf' s2)
  then obtain new where a: "uart_ok level p s1" "hist line taken p (hw s1) = hist line taken p (hw s) @ new"
    "xs @ queue (recv (port p s1)) = queue (recv (port p s)) @ new" by blast
  show ?case using read_step [OF a(1) steps_read.hyps(2-4)] a(2,3) by auto
qed

end

section \<open>A port on the wire\<close>

definition wire_env :: "(wire, nat) uart_env" where
  "wire_env = \<lparr>io = wire_io, run_rx = (\<lambda>f n s. s), run_tx = (\<lambda>f p s. s)\<rparr>"

definition wire_port :: "nat \<Rightarrow> nat tls_uart_port" where
  "wire_port p = uart_port_0\<lparr>regs := Some (HR_UART_BASE_ADDR p), uart_no := of_nat p, tx_fifofull := 16,
     recv := \<lparr>recv_buf = Some (zeros 4096), recv_head = 0, recv_tail = 0\<rparr>, tx_callback := Some Free_sent_data\<rparr>"

definition wire_state :: "nat tls_uart_port list \<Rightarrow> u32 \<Rightarrow> bytes \<Rightarrow> (wire, nat) uart_state" where
  "wire_state ports ints rx = \<lparr>heap = [], junk = (\<lambda>_. 0),
     hw = \<lparr>w_ctl = (\<lambda>_. 0)(0x40000710 := 0x42), w_ints = (\<lambda>_. ints), w_seen = (\<lambda>_. []), w_rx = (\<lambda>_. rx), w_sent = (\<lambda>_. []), w_count = (\<lambda>_. 0)\<rparr>,
     dma_context = replicate 8 dma_context_0, dma_channels = replicate 8 0, uart_port = ports\<rparr>"

definition wire_ports :: "nat tls_uart_port list" where
  "wire_ports = [wire_port 0, wire_port 1, wire_port 2]"

lemma wire_env_simps [simp]: "io wire_env = wire_io" "quiet_callbacks wire_env"
  by (simp_all add: wire_env_def quiet_callbacks_def)

lemma wire_state_simps [simp]:
  "heap (wire_state ps i rx) = []" "uart_port (wire_state ps i rx) = ps" "port p (wire_state ps i rx) = ps ! p"
  "w_level p (hw (wire_state ps i rx)) = 0" "w_mask p (hw (wire_state ps i rx)) = 0" "w_taken p (hw (wire_state ps i rx)) = 0"
  "w_line p (hw (wire_state ps i rx)) = take 32 rx" "w_out p (hw (wire_state ps i rx)) = []" "hist w_line w_taken p (hw (wire_state ps i rx)) = []"
  "w_rx (hw (wire_state ps i rx)) = (\<lambda>_. rx)" "w_ints (hw (wire_state ps i rx)) = (\<lambda>_. i)"
  by (simp_all add: wire_state_def port_def w_level_def w_mask_def w_taken_def w_line_def w_fifo_def w_out_def hist_def HR_UART_BASE_ADDR_def)

lemma wire_port_ok:
  "p < 3 \<Longrightarrow> uart_ok w_level p (wire_state wire_ports i rx)"
  "p < 3 \<Longrightarrow> queue (recv (wire_ports ! p)) = []" "p < 3 \<Longrightarrow> outstanding p (wire_state wire_ports i rx) = []"
  "p < 3 \<Longrightarrow> fcStatus (wire_ports ! p) = 0" "p < 3 \<Longrightarrow> unat (recv_head (recv (wire_ports ! p))) = 0" 
  by (auto simp: uart_ok_def port_ok_def tx_ok_def ring_ok_def wire_ports_def wire_port_def uart_port_0_def less_Suc_eq numeral_3_eq_3
      queue_def queue_len_def outstanding_def)

lemma wire_pending [simp]: "p < 3 \<Longrightarrow> pending_irq wire_env p (wire_state ps i rx) = i"
  by (simp add: pending_irq_def w_read_def)

end
