(* ===== verification/Clock.thy ===== *)
theory Clock
  imports Mmio
begin

text \<open>
  The clocks of \<open>Mmio\<close> for the drivers that divide them: the register of the dividers is storage, no write to another
  register changes it, and \<open>tls_sys_clk_get\<close> divides by none of its fields when they are not zero.
\<close>

definition clk_ok :: "('h \<Rightarrow> nat \<Rightarrow> u32) \<Rightarrow> 'h \<Rightarrow> bool" where
  "clk_ok val h = (drop_bit 4 (val h HR_CLK_DIV_CTL) AND 0xF \<noteq> 0 \<and> val h HR_CLK_DIV_CTL AND 0xF \<noteq> 0)"

context mmio_regs
begin

lemma clk_keeps:
  assumes "HR_CLK_DIV_CTL \<in> regs"
  shows "a \<noteq> HR_CLK_DIV_CTL \<Longrightarrow> val (reg_write m a v h) HR_CLK_DIV_CTL = val h HR_CLK_DIV_CTL"
    "val (snd (reg_read m a h)) HR_CLK_DIV_CTL = val h HR_CLK_DIV_CTL"
  using write_val [OF _ assms] write_keeps [OF _ assms] read_keeps [OF assms] by (metis, simp)

lemma clk_get:
  assumes "HR_CLK_DIV_CTL \<in> regs" "drop_bit 4 (val (hw s) HR_CLK_DIV_CTL) AND 0xF \<noteq> 0" "val (hw s) HR_CLK_DIV_CTL AND 0xF \<noteq> 0"
  shows "\<exists>c h. tls_sys_clk_get m s = Some (c, s\<lparr>hw := h\<rparr>) \<and> val h HR_CLK_DIV_CTL = val (hw s) HR_CLK_DIV_CTL"
  using assms read_val [OF assms(1)] clk_keeps(2) [OF assms(1)]
  by (auto simp: tls_sys_clk_get_def tls_reg_read32_def case_prod_beta intro: exI [of _ "snd (reg_read m HR_CLK_DIV_CTL (hw s))"])

end

end
