(* ===== verification/Uart_Setup.thy ===== *)
theory Uart_Setup
  imports Uart_Wire Clock
begin

text \<open>
  Setting up a port of the UART: the divider for a baud rate, what \<open>tls_uart_config\<close> does, and the state
  that \<open>tls_uart_port_init\<close> leaves, on which the handlers of \<open>Uart_Irq\<close> work.
\<close>

section \<open>Baud rates\<close>

lemma small16:
  assumes "unat (x :: u32) < 65536"
  shows "take_bit 16 x = x"
proof -
  have "unat (take_bit 16 x) = take_bit 16 (unat x)" by (simp only: unsigned_take_bit_eq)
  then have "unat (take_bit 16 x) = unat x" using assms by (simp add: take_bit_eq_mod)
  then show ?thesis by (simp only: word_unat_eq_iff)
qed

lemma fields16:
  fixes x y :: u32
  assumes "unat x < 65536" "unat y < 65536"
  shows "(x OR push_bit 16 y) AND 0xFFFF = x" "drop_bit 16 (x OR push_bit 16 y) = y"
proof -
  have m: "(0xFFFF :: u32) = mask 16" by (simp add: mask_eq_exp_minus_1)
  have b: "bit x i \<Longrightarrow> i < 16" "bit y i \<Longrightarrow> i < 16" for i
    using small16 [OF assms(1)] small16 [OF assms(2)] by (metis bit_take_bit_iff)+
  show "(x OR push_bit 16 y) AND 0xFFFF = x" unfolding m using b by (auto simp: bit_eq_iff bit_simps)
  show "drop_bit 16 (x OR push_bit 16 y) = y" using b by (force simp: bit_eq_iff bit_simps)
qed

text \<open>
  The fields of the divider are the whole and the sixteenths of the quotient of the clock and sixteen times the rate.
\<close>

lemma baud_divider_exact:
  fixes c b :: u32
  assumes "600 \<le> unat b" "16 * unat b \<le> unat c" "unat c \<le> 40000000"
  shows "16 * (unat (baud_divider c b AND 0xFFFF) + 1) + unat (drop_bit 16 (baud_divider c b)) = unat c div unat b"
proof -
  define C B where "C = unat c" and "B = unat b"
  have bnd: "600 \<le> B" "16 * B \<le> C" "C \<le> 40000000" using assms by (simp_all add: C_def B_def)
  have b16: "unat (16 * b) = 16 * B" "unat (b * 16) = 16 * B"
    using bnd by (simp_all add: unat_word_ariths B_def mult.commute)
  define q where "q = C div (16 * B)"
  define r where "r = C mod (16 * B)"
  have q1: "1 \<le> q" using div_le_mono [OF bnd(2), of "16 * B"] bnd(1) unfolding q_def by simp
  have "q * 9600 \<le> q * (16 * B)" using bnd(1) by simp
  also have "\<dots> \<le> C" unfolding q_def by simp
  finally have q2: "q < 65536" using bnd(3) by linarith
  have r1: "r < 16 * B" unfolding r_def using bnd(1) by simp
  have lo: "unat (c div (16 * b) - 1) = q - 1"
  proof -
    have u: "unat (c div (16 * b)) = q" by (simp add: unat_div_distrib b16 q_def C_def)
    then have "(1 :: u32) \<le> c div (16 * b)" using q1 by (simp add: word_le_nat_alt)
    then show ?thesis using u by (simp add: unat_sub)
  qed
  have hi: "unat ((c mod (b * 16)) * 16 div (b * 16)) = r div B"
  proof -
    have m: "unat (c mod (b * 16)) = r" by (simp add: unat_mod_distrib b16 r_def C_def)
    have "r * 16 < 4294967296" using r1 bnd by linarith
    then have m16: "unat (c mod (b * 16) * 16) = r * 16" by (subst unat_mult_lem [THEN iffD1]) (simp_all add: m)
    have "unat ((c mod (b * 16)) * 16 div (b * 16)) = (r * 16) div (16 * B)"
      unfolding unat_div_distrib m16 b16 ..
    then show ?thesis by (simp add: mult.commute)
  qed
  have hi16: "r div B < 16" using r1 bnd(1) by (simp add: less_mult_imp_div_less)
  have "C = 16 * B * q + r" unfolding q_def r_def by simp
  then have "C = B * (16 * q) + r" by simp
  then have split: "C div B = 16 * q + r div B" using bnd(1) by (metis div_mult_self4 add.commute not_numeral_le_zero)
  have lt: "unat (c div (16 * b) - 1) < 65536" "unat ((c mod (b * 16)) * 16 div (b * 16)) < 65536"
    unfolding lo hi using q2 hi16 by simp_all
  show ?thesis
    unfolding baud_divider_def fields16 [OF lt] lo hi
    using split q1 by (simp add: C_def B_def)
qed

section \<open>The settings of a port\<close>

lemma ur_write_hw: "port_ok p s \<Longrightarrow> \<exists>h. ur_write e p r v s = Some (s\<lparr>hw := h\<rparr>)"
  by (auto simp: ur_write_def tls_reg_write32_def port_ok_def)

lemma ur_update_hw: "port_ok p s \<Longrightarrow> \<exists>h. ur_update e p r f s = Some (s\<lparr>hw := h\<rparr>)"
  by (auto simp: ur_update_def reg_update_def tls_reg_read32_def tls_reg_write32_def port_ok_def case_prod_beta)

text \<open>The settings change the options of the port and the hardware, and the port is as good as before.\<close>

definition set_opts :: "nat \<Rightarrow> tls_uart_options \<Rightarrow> 'h \<Rightarrow> ('h, 'f) uart_state \<Rightarrow> ('h, 'f) uart_state" where
  "set_opts p o' h s = (upd_port p (\<lambda>q. q\<lparr>opts := o'\<rparr>) s)\<lparr>hw := h\<rparr>"

lemma set_opts_simps:
  assumes "port_ok p s"
  shows "port_ok p (set_opts p o' h s)" "opts (port p (set_opts p o' h s)) = o'" "hw (set_opts p o' h s) = h"
    "set_opts p o'' h' (set_opts p o' h s) = set_opts p o'' h' s"
    "set_opts p o' h (s\<lparr>hw := h'\<rparr>) = set_opts p o' h s" "(set_opts p o' h s)\<lparr>hw := h'\<rparr> = set_opts p o' h' s"
proof -
  have p: "p < length (uart_port s)" using assms by (simp add: port_ok_def)
  show "port_ok p (set_opts p o' h s)" "opts (port p (set_opts p o' h s)) = o'" "hw (set_opts p o' h s) = h"
    using assms p by (simp_all add: set_opts_def port_ok_def)
  show "set_opts p o'' h' (set_opts p o' h s) = set_opts p o'' h' s"
    unfolding set_opts_def upd_port_hw_commute upd_port_upd_port [OF p] by simp
  show "set_opts p o' h (s\<lparr>hw := h'\<rparr>) = set_opts p o' h s" "(set_opts p o' h s)\<lparr>hw := h'\<rparr> = set_opts p o' h' s"
    unfolding set_opts_def upd_port_hw_commute by simp_all
qed

lemma upd_opts: "upd_port p (\<lambda>q. q\<lparr>opts := f (opts q)\<rparr>) s = set_opts p (f (opts (port p s))) (hw s) s"
  by (simp add: set_opts_def upd_port_def port_def)

lemma parity_opts:
  assumes "port_ok p s"
  shows "\<exists>r h. tls_uart_set_parity_inside e (Some p) par s = Some (r, set_opts p ((opts (port p s))\<lparr>paritytype := par\<rparr>) h s)"
proof -
  let ?o = "(opts (port p s))\<lparr>paritytype := par\<rparr>"
  note st = set_opts_simps [OF assms]
  have u: "\<exists>h'. ur_update e p r f (set_opts p ?o h s) = Some (set_opts p ?o h' s)" for r f h
    using ur_update_hw [OF st(1), of e r f ?o h] st(6) by metis
  have s0: "upd_port p (\<lambda>q. q\<lparr>opts := (opts q)\<lparr>paritytype := par\<rparr>\<rparr>) s = set_opts p ?o (hw s) s"
    by (simp add: set_opts_def upd_port_def port_def)
  obtain h1 where h1: "ur_update e p UR_LC (\<lambda>v. v AND NOT ULCON_PMD_EN) (set_opts p ?o (hw s) s) = Some (set_opts p ?o h1 s)" using u by blast
  obtain h2 where h2: "ur_update e p UR_LC (\<lambda>v. v AND NOT ULCON_PMD_MASK) (set_opts p ?o (hw s) s) = Some (set_opts p ?o h2 s)" using u by blast
  obtain h3 where h3: "ur_update e p UR_LC (\<lambda>v. v OR ULCON_PMD_EVEN) (set_opts p ?o h2 s) = Some (set_opts p ?o h3 s)" using u by blast
  obtain h4 where h4: "ur_update e p UR_LC (\<lambda>v. v OR ULCON_PMD_ODD) (set_opts p ?o h2 s) = Some (set_opts p ?o h4 s)" using u by blast
  show ?thesis using s0 h1 h2 h3 h4 by (auto simp: tls_uart_set_parity_inside_def Let_def)
qed

lemma data_bits_opts:
  assumes "port_ok p s"
  shows "\<exists>r h. tls_uart_set_data_bits e (Some p) c s = Some (r, set_opts p ((opts (port p s))\<lparr>charlength := c\<rparr>) h s)"
proof -
  let ?o = "(opts (port p s))\<lparr>charlength := c\<rparr>"
  note st = set_opts_simps [OF assms]
  have u: "\<exists>h'. ur_update e p r f (set_opts p ?o h s) = Some (set_opts p ?o h' s)" for r f h
    using ur_update_hw [OF st(1), of e r f ?o h] st(6) by metis
  have s0: "upd_port p (\<lambda>q. q\<lparr>opts := (opts q)\<lparr>charlength := c\<rparr>\<rparr>) s = set_opts p ?o (hw s) s"
    by (simp add: set_opts_def upd_port_def port_def)
  obtain h1 where h1: "ur_update e p UR_LC (\<lambda>v. v AND NOT ULCON_WL_MASK) (set_opts p ?o (hw s) s) = Some (set_opts p ?o h1 s)" using u by blast
  obtain h2 where h2: "ur_update e p UR_LC (\<lambda>v. v OR c) (set_opts p ?o h1 s) = Some (set_opts p ?o h2 s)" using u by blast
  show ?thesis unfolding tls_uart_set_data_bits_def using s0 h1 h2 by (auto simp: Let_def)
qed

lemma stop_bits_opts:
  assumes "port_ok p s"
  shows "\<exists>r h. tls_uart_set_stop_bits_inside e (Some p) b s = Some (r, set_opts p ((opts (port p s))\<lparr>stopbits := b\<rparr>) h s)"
proof -
  let ?o = "(opts (port p s))\<lparr>stopbits := b\<rparr>"
  note st = set_opts_simps [OF assms]
  have s0: "upd_port p (\<lambda>q. q\<lparr>opts := (opts q)\<lparr>stopbits := b\<rparr>\<rparr>) s = set_opts p ?o (hw s) s"
    by (simp add: set_opts_def upd_port_def port_def)
  have u: "\<exists>h'. ur_update e p r f (set_opts p ?o h s) = Some (set_opts p ?o h' s)" for r f h
    using ur_update_hw [OF st(1), of e r f ?o h] st(6) by metis
  obtain h1 where h1: "ur_update e p UR_LC (\<lambda>v. if b = TLS_UART_TWO_STOPBITS then v OR ULCON_STOP_2 else v AND NOT ULCON_STOP_2)
      (set_opts p ?o (hw s) s) = Some (set_opts p ?o h1 s)"
    using u by blast
  show ?thesis unfolding tls_uart_set_stop_bits_inside_def using s0 h1 by (auto simp: Let_def)
qed

lemma flow_ctrl_hw:
  assumes "port_ok p s"
  shows "\<exists>r h. tls_uart_set_flow_ctrl e (Some p) fc s = Some (r, s\<lparr>hw := h\<rparr>)"
proof -
  obtain h1 h2 where "ur_write e p UR_FC 0 s = Some (s\<lparr>hw := h1\<rparr>)" "ur_write e p UR_FC 0x19 s = Some (s\<lparr>hw := h2\<rparr>)"
    using ur_write_hw [OF assms] by metis
  moreover have "\<exists>h. s = s\<lparr>hw := h\<rparr>" by (rule exI [of _ "hw s"]) simp
  ultimately show ?thesis by (simp add: tls_uart_set_flow_ctrl_def) blast
qed

text \<open>
  A rate that is not supported is refused by \<open>tls_uart_set_baud_rate\<close>; \<open>tls_uart_config\<close> passes over that, leaves the
  old rate, and reports success.
\<close>

lemma config_opts:
  assumes "port_ok p s" "\<exists>r h. tls_uart_set_baud_rate_inside e p (baudrate opt) s = Some (r, set_opts p ((opts (port p s))\<lparr>baudrate := b\<rparr>) h s)"
  shows "\<exists>h. tls_uart_config e (Some p) (Some opt) s = Some (0, set_opts p (opt\<lparr>baudrate := b\<rparr>) h s)"
proof -
  let ?o1 = "(opts (port p s))\<lparr>baudrate := b\<rparr>"
  let ?o2 = "?o1\<lparr>paritytype := paritytype opt\<rparr>"
  let ?o3 = "?o2\<lparr>charlength := charlength opt\<rparr>"
  let ?o4 = "?o3\<lparr>stopbits := stopbits opt\<rparr>"
  let ?o5 = "?o4\<lparr>flow_ctrl := flow_ctrl opt\<rparr>"
  note st = set_opts_simps [OF assms(1)]
  obtain r1 h1 where s1: "tls_uart_set_baud_rate_inside e p (baudrate opt) s = Some (r1, set_opts p ?o1 h1 s)" using assms(2) by blast
  obtain r2 h2 where s2: "tls_uart_set_parity_inside e (Some p) (paritytype opt) (set_opts p ?o1 h1 s) = Some (r2, set_opts p ?o2 h2 s)"
    using parity_opts [OF st(1)] st(2,4) by metis
  obtain r3 h3 where s3: "tls_uart_set_data_bits e (Some p) (charlength opt) (set_opts p ?o2 h2 s) = Some (r3, set_opts p ?o3 h3 s)"
    using data_bits_opts [OF st(1)] st(2,4) by metis
  obtain r4 h4 where s4: "tls_uart_set_stop_bits_inside e (Some p) (stopbits opt) (set_opts p ?o3 h3 s) = Some (r4, set_opts p ?o4 h4 s)"
    using stop_bits_opts [OF st(1)] st(2,4) by metis
  have s5: "upd_port p (\<lambda>q. q\<lparr>opts := (opts q)\<lparr>flow_ctrl := flow_ctrl opt\<rparr>\<rparr>) (set_opts p ?o4 h4 s) = set_opts p ?o5 h4 s"
  proof -
    have "upd_port p (\<lambda>q. q\<lparr>opts := (opts q)\<lparr>flow_ctrl := flow_ctrl opt\<rparr>\<rparr>) (set_opts p ?o4 h4 s)
        = set_opts p ((opts (port p (set_opts p ?o4 h4 s)))\<lparr>flow_ctrl := flow_ctrl opt\<rparr>) (hw (set_opts p ?o4 h4 s)) (set_opts p ?o4 h4 s)"
      by (rule upd_opts)
    then show ?thesis unfolding st(2-4) .
  qed
  obtain r6 h6 where s6: "tls_uart_set_flow_ctrl e (Some p) (flow_ctrl opt) (set_opts p ?o5 h4 s) = Some (r6, set_opts p ?o5 h6 s)"
    using flow_ctrl_hw [OF st(1)] st(6) by metis
  have w: "\<exists>h'. ur_write e p r v (set_opts p ?o5 h s) = Some (set_opts p ?o5 h' s)" for r v h
    using ur_write_hw [OF st(1)] st(6) by metis
  have u: "\<exists>h'. ur_update e p r f (set_opts p ?o5 h s) = Some (set_opts p ?o5 h' s)" for r f h
    using ur_update_hw [OF st(1)] st(6) by metis
  obtain h7 where s7: "ur_write e p UR_INTS 0xFFFFFFFF (set_opts p ?o5 h6 s) = Some (set_opts p ?o5 h7 s)" using w by blast
  obtain h8 where s8: "ur_write e p UR_INTM 0 (set_opts p ?o5 h7 s) = Some (set_opts p ?o5 h8 s)" using w by blast
  obtain h9 where s9: "ur_write e p UR_DMAC 0x24 (set_opts p ?o5 h8 s) = Some (set_opts p ?o5 h9 s)" using w by blast
  obtain h10 where s10: "ur_write e p UR_FIFOC 0x3F (set_opts p ?o5 h9 s) = Some (set_opts p ?o5 h10 s)" using w by blast
  obtain h11 where s11: "ur_update e p UR_LC (\<lambda>v. v AND NOT (ULCON_TX_EN OR ULCON_RX_EN)) (set_opts p ?o5 h10 s) = Some (set_opts p ?o5 h11 s)"
    using u by blast
  obtain h12 where s12: "ur_update e p UR_LC (\<lambda>v. v OR (ULCON_RX_EN OR ULCON_TX_EN)) (set_opts p ?o5 h11 s) = Some (set_opts p ?o5 h12 s)"
    using u by blast
  have o: "?o5 = opt\<lparr>baudrate := b\<rparr>" by simp
  show ?thesis
    unfolding tls_uart_config_def using s1 s2 s3 s4 s5 s6 s7 s8 s9 s10 s11 s12 unfolding o by (auto simp: Let_def)
qed

section \<open>Initialisation\<close>

lemma uart_not_clk: "r < 0x200 \<Longrightarrow> HR_UART_BASE_ADDR p + r \<noteq> HR_CLK_DIV_CTL"
  by (simp add: HR_UART_BASE_ADDR_def)

lemma set_opts_same: "set_opts p (opts (port p s)) (hw s) s = s"
  by (simp add: set_opts_def upd_port_def port_def)

lemma baud_opts:
  assumes "mmio_regs (io e) R val" "HR_CLK_DIV_CTL \<in> R" "clk_ok val (hw s)" "port_ok p s"
  shows "\<exists>r h. tls_uart_set_baud_rate_inside e p b s
    = Some (r, set_opts p ((opts (port p s))\<lparr>baudrate := if b \<in> set baud_rates then b else baudrate (opts (port p s))\<rparr>) h s)"
proof (cases "b \<in> set baud_rates")
  case True
  obtain c h where c: "tls_sys_clk_get (io e) s = Some (c, s\<lparr>hw := h\<rparr>)"
    using mmio_regs.clk_get [OF assms(1,2), of s] assms(3) by (auto simp: clk_ok_def)
  have "port_ok p (s\<lparr>hw := h\<rparr>)" using assms(4) by (simp add: port_ok_def)
  then obtain h2 where "ur_write e p UR_BD (baud_divider (apbclk c * 1000000) b) (s\<lparr>hw := h\<rparr>) = Some (s\<lparr>hw := h2\<rparr>)"
    using ur_write_hw [of p "s\<lparr>hw := h\<rparr>"] by fastforce
  then show ?thesis using c True
    by (simp add: tls_uart_set_baud_rate_inside_def tls_uart_check_baudrate_def upd_opts [where f = "\<lambda>q. q\<lparr>baudrate := b\<rparr>"])
      (metis set_opts_simps(5) assms(4))
next
  case False
  then show ?thesis
    by (simp add: tls_uart_set_baud_rate_inside_def tls_uart_check_baudrate_def) (metis set_opts_same)
qed

lemma UartRegInit_hw:
  assumes "mmio_regs (io e) R val" "HR_CLK_DIV_CTL \<in> R" "clk_ok val (hw s)"
  shows "\<exists>h. UartRegInit e p s = Some (s\<lparr>hw := h\<rparr>) \<and> clk_ok val h"
proof -
  obtain c h where c: "tls_sys_clk_get (io e) s = Some (c, s\<lparr>hw := h\<rparr>)" "val h HR_CLK_DIV_CTL = val (hw s) HR_CLK_DIV_CTL"
    using mmio_regs.clk_get [OF assms(1,2), of s] assms(3) by (auto simp: clk_ok_def)
  have w: "\<exists>h''. tls_reg_write32 (io e) (HR_UART_BASE_ADDR p + r) v (s\<lparr>hw := h'\<rparr>) = s\<lparr>hw := h''\<rparr>
      \<and> val h'' HR_CLK_DIV_CTL = val h' HR_CLK_DIV_CTL" if "r < 0x200" for r v h'
    using mmio_regs.clk_keeps(1) [OF assms(1,2) uart_not_clk [OF that]] by (auto simp: tls_reg_write32_def)
  let ?bd = "baud_divider (apbclk c * 1000000) 115200" and ?b = "HR_UART_BASE_ADDR p"
  let ?w = "\<lambda>r v. tls_reg_write32 (io e) (HR_UART_BASE_ADDR p + r) v"
  have "\<exists>h'. ?w UR_INTM 0xFF (?w UR_FIFOC 0 (?w UR_DMAC 0 (?w UR_FC 0 (?w UR_LC 0x43 (?w UR_BD ?bd (s\<lparr>hw := h\<rparr>))))))
      = s\<lparr>hw := h'\<rparr> \<and> val h' HR_CLK_DIV_CTL = val h HR_CLK_DIV_CTL"
    using w [of UR_BD] w [of UR_LC] w [of UR_FC] w [of UR_DMAC] w [of UR_FIFOC] w [of UR_INTM] by simp metis
  moreover have "\<exists>h'. ?w UR_INTM (NOT 0x0C) (?w UR_DMAC 0x44 (?w UR_FIFOC 0x24 (s\<lparr>hw := h\<rparr>)))
      = s\<lparr>hw := h'\<rparr> \<and> val h' HR_CLK_DIV_CTL = val h HR_CLK_DIV_CTL"
    using w [of UR_DMAC] w [of UR_FIFOC] w [of UR_INTM] by simp metis
  ultimately show ?thesis
    using c assms(3) by (auto simp: UartRegInit_def clk_ok_def Let_def)
qed

text \<open>
  \<open>tls_uart_port_init\<close> makes the port ready, with an empty ring buffer and nothing to send; of the options, a baud rate that is
  not supported is lost, as the old one is already overwritten.
\<close>

definition default_options :: "tls_uart_options option \<Rightarrow> tls_uart_options" where
  "default_options opt =
     (let opt = (case opt of
        None \<Rightarrow> \<lparr>baudrate = 115200, charlength = 3, paritytype = 0, flow_ctrl = 0, stopbits = 0\<rparr> | Some opt \<Rightarrow> opt)
      in if baudrate opt \<in> set baud_rates then opt else opt\<lparr>baudrate := 0\<rparr>)"

lemma ur_update_clk:
  assumes "mmio_regs (io e) R val" "HR_CLK_DIV_CTL \<in> R" "clk_ok val (hw s)" "port_ok p s" "r < 0x200"
  shows "\<exists>h. ur_update e p r f s = Some (s\<lparr>hw := h\<rparr>) \<and> clk_ok val h"
  using assms(3,4) mmio_regs.clk_keeps [OF assms(1,2)] uart_not_clk [OF assms(5), of p]
  by (auto simp: ur_update_def reg_update_def tls_reg_read32_def tls_reg_write32_def port_ok_def case_prod_beta clk_ok_def
      intro!: exI [of _ "reg_write (io e) (HR_UART_BASE_ADDR p + r) (f (fst (reg_read (io e) (HR_UART_BASE_ADDR p + r) (hw s))))
        (snd (reg_read (io e) (HR_UART_BASE_ADDR p + r) (hw s)))"])

lemma port_init:
  assumes "mmio_regs (io e) R val" "HR_CLK_DIV_CTL \<in> R" "clk_ok val (hw s)" "no \<le> 2" "length (uart_port s) = 3" "heap s = []"
  shows "\<exists>h g. tls_uart_port_init e no opt md s = Some (0, (upd_port (unat no) g s)\<lparr>hw := h\<rparr>)
    \<and> g (port (unat no) s) = uart_port_0\<lparr>uart_no := ucast no, uart_irq_no := (if no = 0 then 23 else if no = 1 then 24 else 41),
        opts := default_options opt, rxstatus := 1, tx_fifofull := 16, regs := Some (HR_UART_BASE_ADDR (unat no)),
        recv := \<lparr>recv_buf = Some (zeros 4096), recv_head = 0, recv_tail = 0\<rparr>, tx_callback := Some Free_sent_data\<rparr>"
proof -
  let ?p = "unat no"
  have no: "?p < 3" "\<not> no > 2" "?p = 0 \<longleftrightarrow> no = 0" "?p = 1 \<longleftrightarrow> no = 1"
  proof -
    show "?p < 3" using assms(4) unfolding word_le_nat_alt by simp
    show "\<not> no > 2" using assms(4) by simp
    show "?p = 0 \<longleftrightarrow> no = 0" by (rule unat_eq_0)
    show "?p = 1 \<longleftrightarrow> no = 1" using word_unat_eq_iff [of no 1] by simp
  qed
  have p: "?p < length (uart_port s)" using no(1) assms(5) by simp
  obtain h1 where h1: "UartRegInit e ?p s = Some (s\<lparr>hw := h1\<rparr>)" "clk_ok val h1" using UartRegInit_hw [OF assms(1-3)] by blast
  let ?q1 = "uart_port_0\<lparr>regs := Some (HR_UART_BASE_ADDR ?p)\<rparr>"
  let ?s1 = "upd_port ?p (\<lambda>q. ?q1) (s\<lparr>hw := h1\<rparr>)"
  have "\<exists>h. (if ?p = 2 then ur_update e ?p UR_LC (\<lambda>v. if md = 1 then v OR 0x1000000 else v AND NOT 0x1000000) ?s1 else Some ?s1)
      = Some (?s1\<lparr>hw := h\<rparr>) \<and> clk_ok val h"
  proof (cases "?p = 2")
    case True
    have "port_ok ?p ?s1" "clk_ok val (hw ?s1)" using no(1) p h1(2) by (simp_all add: port_ok_def assms(5))
    then show ?thesis using ur_update_clk [OF assms(1,2), of ?s1 ?p UR_LC] True by simp
  next
    case False
    then show ?thesis using h1(2) by (intro exI [of _ h1]) simp
  qed
  then obtain h2 where h2: "(if ?p = 2 then ur_update e ?p UR_LC (\<lambda>v. if md = 1 then v OR 0x1000000 else v AND NOT 0x1000000) ?s1 else Some ?s1)
      = Some (?s1\<lparr>hw := h2\<rparr>)" "clk_ok val h2" by blast
  let ?q2 = "?q1\<lparr>uart_no := ucast no\<rparr>"
  let ?s2 = "(upd_port ?p (\<lambda>q. ?q2) s)\<lparr>hw := h2\<rparr>"
  have s2: "upd_port ?p (\<lambda>q. q\<lparr>uart_no := ucast no\<rparr>) (?s1\<lparr>hw := h2\<rparr>) = ?s2"
    using p by (simp add: upd_port_hw_commute upd_port_upd_port)
  have ok2: "port_ok ?p ?s2" "clk_ok val (hw ?s2)" "baudrate (opts (port ?p ?s2)) = 0"
    using no(1) p h2(2) by (simp_all add: port_ok_def assms(5) uart_port_0_def)
  define opt' where "opt' = (case opt of
        None \<Rightarrow> \<lparr>baudrate = 115200, charlength = 3, paritytype = 0, flow_ctrl = 0, stopbits = 0\<rparr> | Some opt \<Rightarrow> opt)"
  have "\<exists>h. tls_uart_config e (Some ?p) (Some opt') ?s2 = Some (0, set_opts ?p (default_options opt) h ?s2)"
    using config_opts [OF ok2(1) baud_opts [OF assms(1,2) ok2(2,1)], of opt'] ok2(3)
    by (auto simp: default_options_def opt'_def [symmetric] Let_def)
  then obtain h3 where h3: "tls_uart_config e (Some ?p) (Some opt') ?s2 = Some (0, set_opts ?p (default_options opt) h3 ?s2)" by blast
  have s3: "set_opts ?p (default_options opt) h3 ?s2 = (upd_port ?p (\<lambda>q. ?q2\<lparr>opts := default_options opt\<rparr>) s)\<lparr>hw := h3\<rparr>"
    using p by (simp add: set_opts_def upd_port_hw_commute upd_port_upd_port)
  let ?irq = "if no = 0 then 23 else if no = 1 then 24 else 41 :: nat"
  have hp: "heap (upd_port q g (t :: ('a, 'b) uart_state)) = heap t" for q g t by (simp add: upd_port_def)
  let ?g = "\<lambda>q. ?q2\<lparr>opts := default_options opt, rxstatus := 1, uart_irq_no := ?irq, tx_fifofull := 16,
      recv := \<lparr>recv_buf = Some (zeros 4096), recv_head = 0, recv_tail = 0\<rparr>, tx_callback := Some Free_sent_data\<rparr>"
  have q: "(if ?p = 0 then 23 else if ?p = 1 then 24 else 41) = ?irq" using no(3,4) by simp
  have "\<exists>h. tls_uart_port_init e no opt md s = Some (0, (upd_port ?p ?g s)\<lparr>hw := h\<rparr>)"
    unfolding tls_uart_port_init_def h1(1) Let_def opt'_def [symmetric] Option.bind.bind_lunit prod.case
    unfolding h2(1) Option.bind.bind_lunit s2 h3 prod.case s3 q
    using assms(4,6) p no(2)
    by (intro exI [of _ "irq_set (io e) ?irq True (irq_set (io e) ?irq False h3)"])
      (simp add: upd_port_hw_commute upd_port_upd_port hp tls_irq_enable_def tls_irq_disable_def
        tls_uart_tx_callback_register_def uart_port_0_def)
  then obtain h where h: "tls_uart_port_init e no opt md s = Some (0, (upd_port ?p ?g s)\<lparr>hw := h\<rparr>)" by blast
  show ?thesis by (rule exI [of _ h], rule exI [of _ ?g]) (use h in \<open>simp add: uart_port_0_def\<close>)
qed

end
