(* ===== verification/Uart_Props.thy ===== *)
theory Uart_Props
  imports Uart_Serve Uart_Setup
begin

text \<open>
  The properties of the UART driver: what is received comes out of \<open>tls_uart_read\<close> in order, what is written
  goes out in order, writing returns, the divider for the baud rate, and where the handlers go wrong. The
  hypothesis \<open>uart_dev (io e) \<dots>\<close> is the contract of the hardware; the device of \<open>Uart_Wire\<close> meets it in the witnesses.
\<close>

section \<open>Receiving and sending\<close>

lemma wire_dev: "uart_dev (io wire_env) w_line w_taken w_out w_level w_mask w_idle"
  using wire.uart_dev_axioms by simp

lemma wire_port_empty: "p < 3 \<Longrightarrow> queue_len (recv (wire_ports ! p)) = 0"
  using arg_cong [OF wire_port_ok(2), of p length] by simp

text \<open>C8: Whatever the order of interrupts and calls of \<open>tls_uart_read\<close> on UART 0 or 2, what the calls return, followed by
  what is still in the ring buffer, is what was in the ring buffer before, followed by what the port has received since: no
  byte is lost, repeated or out of order as long as the ring has room and no receive error comes.\<close>

theorem uart_stream_in_order:
  assumes "uart_dev (io e) line taken sent level masked idle" "quiet_callbacks e" "p = 0 \<or> p = 2" "uart_ok level p s"
    and "uart_steps e p s xs s'"
  shows "uart_ok level p s' \<and> (\<exists>new. hist line taken p (hw s') = hist line taken p (hw s) @ new
    \<and> xs @ queue (recv (port p s')) = queue (recv (port p s)) @ new)"
  by (rule uart_dev.uart_steps_stream [OF assms(1,5) refl assms(2-4)])

lemma wire_steps: "\<exists>s'. uart_steps wire_env 0 (wire_state wire_ports 4 [7, 8]) [7, 8] s'"
proof -
  let ?s = "wire_state wire_ports 4 [7, 8]"
  have ok: "uart_ok w_level 0 ?s" "queue (recv (wire_ports ! 0)) = []" by (simp_all add: wire_port_ok)
  have e: "queue_len (recv (wire_ports ! 0)) = 0" by (simp add: wire_port_empty)
  have "uart_ok w_level 0 ?s" "pending_irq wire_env 0 ?s AND 0xE0 = 0" "queue_len (recv (port 0 ?s)) \<le> 4030"
    using ok e by simp_all
  then obtain s1 new where s1: "uart_irq wire_env 0 ?s = Some s1" "uart_ok w_level 0 s1" "queue (recv (port 0 s1)) = new"
    "prefix [7, 8] new"
    using wire.uart_irq_02 [of wire_env 0 ?s] ok(2) by auto
  have st: "uart_steps wire_env 0 ?s [] s1"
    using steps_irq [OF steps_none _ _ s1(1)] e by simp
  obtain r where new: "new = [7, 8] @ r" using s1(4) by (auto simp: prefix_def)
  have len: "queue_len (recv (port 0 s1)) = 2 + length r" using arg_cong [OF s1(3), of length] new by simp
  have ring: "ring_ok (recv (port 0 s1))" using s1(2) by (simp add: uart_ok_def)
  obtain s2 where s2: "tls_uart_read (of_nat 0) (Some [0, 0]) 2 s1 = Some (2, Some [7, 8], s2)"
    using tls_uart_read_queue [of 0 s1 2 "[0, 0]"] ring len s1(3) new by (simp add: patch_def)
  have "uart_steps wire_env 0 ?s ([] @ take (nat 2) [7, 8]) s2"
    by (rule steps_read [OF st _ _ s2]) simp_all
  then show ?thesis by auto
qed

theorem uart_stream_in_order_witness:
  "\<exists>s'. uart_steps wire_env 0 (wire_state wire_ports 4 [7, 8]) [7, 8] s' \<and> uart_ok w_level 0 s'
    \<and> [7, 8] @ queue (recv (port 0 s')) = hist w_line w_taken 0 (hw s')"
proof -
  obtain s' where s': "uart_steps wire_env 0 (wire_state wire_ports 4 [7, 8]) [7, 8] s'" using wire_steps by blast
  have "uart_ok w_level 0 s' \<and> (\<exists>new. hist w_line w_taken 0 (hw s') = hist w_line w_taken 0 (hw (wire_state wire_ports 4 [7, 8])) @ new
    \<and> [7, 8] @ queue (recv (port 0 s')) = queue (recv (port 0 (wire_state wire_ports 4 [7, 8]))) @ new)"
    by (rule uart_stream_in_order [OF wire_dev _ _ _ s']) (simp_all add: wire_port_ok)
  then show ?thesis using s' by (auto simp: wire_port_ok)
qed

text \<open>C33: The interrupt handler of UART 0 and 2, when the ring buffer has room for a full FIFO (it holds at most 4030 bytes),
  appends what it takes from the FIFO to the ring buffer, unless the interrupts report a receive error; when they report
  data that is not masked, all that had arrived by then is taken. The bytes that waited to be sent go to the line in order and
  none is lost; when the interrupts report room for sending, all of them are sent, or at least as many as the FIFO had
  room for.\<close>

theorem uart_irq_receives:
  assumes "uart_dev (io e) line taken sent level masked idle" "quiet_callbacks e" "p = 0 \<or> p = 2" "uart_ok level p s"
    and "pending_irq e p s AND 0xE0 = 0" "queue_len (recv (port p s)) \<le> 4030"
  shows "\<exists>s' new. uart_irq e p s = Some s' \<and> uart_ok level p s' \<and> queue (recv (port p s')) = queue (recv (port p s)) @ new
    \<and> hist line taken p (hw s') = hist line taken p (hw s) @ new
    \<and> sent p (hw s') @ outstanding p s' = sent p (hw s) @ outstanding p s
    \<and> (pending_irq e p s AND 0x1EC \<noteq> 0 \<longrightarrow> masked p (hw s) AND 4 = 0
        \<longrightarrow> prefix (line p (hw s)) (hist line taken p (hw s')))
    \<and> (pending_irq e p s AND 3 \<noteq> 0 \<longrightarrow> tx_msg_pending (port p s') = []
        \<or> length (sent p (hw s)) + (16 - level p (hw s)) \<le> length (sent p (hw s')))"
  using uart_dev.uart_irq_02 [OF assms(1) refl assms(2-6)] unfolding uart_dev.tx_progress_def [OF assms(1)] .

theorem uart_irq_receives_witness:
  "\<exists>s'. uart_irq wire_env 2 (wire_state wire_ports 4 [65, 66, 67]) = Some s' \<and> prefix [65, 66, 67] (queue (recv (port 2 s')))"
  using uart_irq_receives [OF wire_dev, of 2 "wire_state wire_ports 4 [65, 66, 67]"] wire_port_ok(1) [of 2 4 "[65, 66, 67]"]
    wire_port_ok(2) [of 2] wire_port_empty [of 2]
  by auto

text \<open>C34: The interrupt handler of UART 1 takes all that has arrived, appends it to the ring buffer, and drops the 128
  oldest bytes first when the ring has little room left. Exactly when what it took is three plus signs, it reports the
  escape sequence. A head at 4093, from which three bytes end with the buffer, is left out; that case follows below.\<close>

theorem uart1_irq_drops_oldest:
  assumes "uart_dev (io e) line taken sent level masked idle" "quiet_callbacks e" "uart_ok level 1 s"
    and "pending_irq e 1 s AND 0xE0 = 0" "pending_irq e 1 s AND 0x1EC \<noteq> 0" "masked 1 (hw s) AND 4 = 0"
    and "unat (recv_head (recv (port 1 s))) \<noteq> 4093"
  shows "\<exists>s' new. uart_irq e 1 s = Some s' \<and> uart_ok level 1 s'
    \<and> queue (recv (port 1 s')) = drop (if queue_len (recv (port 1 s)) < 3967 then 0 else 128) (queue (recv (port 1 s))) @ new
    \<and> hist line taken 1 (hw s') = hist line taken 1 (hw s) @ new
    \<and> prefix (line 1 (hw s)) (hist line taken 1 (hw s'))
    \<and> plus_char_cnt (port 1 s') = (if new = [0x2B, 0x2B, 0x2B] then 3 else 0)
    \<and> sent 1 (hw s') @ outstanding 1 s' = sent 1 (hw s) @ outstanding 1 s"
  by (rule uart_dev.uart_irq_1 [OF assms(1) refl assms(2-7)])

theorem uart1_irq_drops_oldest_witness:
  "\<exists>s'. uart_irq wire_env 1 (wire_state wire_ports 4 [65, 66]) = Some s' \<and> prefix [65, 66] (queue (recv (port 1 s')))"
  using uart1_irq_drops_oldest [OF wire_dev, of "wire_state wire_ports 4 [65, 66]"] wire_port_ok(1) [of 1 4 "[65, 66]"]
    wire_port_ok(2) [of 1] wire_port_ok(5) [of 1]
  by auto

text \<open>C16: On a port that nothing comes in on, \<open>tls_uart_write\<close> returns success once enough interrupts have come, one for each byte
  that waits and two more; by then all that waited and the whole buffer have been given to the line, in order.\<close>

theorem tls_uart_write_returns:
  assumes "uart_dev (io e) line taken sent level masked idle" "quiet_callbacks e" "uart_ok level (unat no) s" "no \<le> 2" "heap s = []"
    and "n \<noteq> 0" "unat n \<le> length buf" "idle (unat no) (hw s)"
    and "set irqs \<subseteq> {unat no}" "length irqs > Suc (length (outstanding (unat no) s) + unat n)"
  shows "\<exists>s'. tls_uart_write e no (Some buf) n irqs s = Some (0, s') \<and> uart_ok level (unat no) s'
    \<and> recv (port (unat no) s') = recv (port (unat no) s) \<and> outstanding (unat no) s' = []
    \<and> sent (unat no) (hw s') = sent (unat no) (hw s) @ outstanding (unat no) s @ take (unat n) buf"
  by (rule uart_dev.tls_uart_write_spec [OF assms(1) refl assms(2-10)])

theorem tls_uart_write_returns_witness:
  "\<exists>s'. tls_uart_write wire_env 1 (Some [72, 105]) 2 [1, 1, 1, 1] (wire_state wire_ports 2 []) = Some (0, s')
    \<and> w_out 1 (hw s') = [72, 105]"
  using tls_uart_write_returns [OF wire_dev, of 1 "wire_state wire_ports 2 []" 2 "[72, 105]" "[1, 1, 1, 1]"] wire_port_ok(1) [of 1 2 "[]"]
    wire_port_ok(3) [of 1 2 "[]"]
  by (auto simp: w_idle_def)

section \<open>The baud rate\<close>

text \<open>C35: Setting a supported baud rate stores a divider that is the quotient of the clock of the bus and the rate, whole and
  sixteenths, rounded down, and the rate in the options; a rate that is not supported is refused and nothing changes. The clock
  register and that of the divider are storage.\<close>

theorem tls_uart_set_baud_rate_exact:
  assumes "mmio_regs (io e) R val" "0x40000710 \<in> R" "HR_UART_BASE_ADDR (unat no) + 0x10 \<in> R"
    and "port_ok (unat no) s" "no \<le> 2"
    and w: "w = drop_bit 4 (val (hw s) 0x40000710) AND 0xF" "w \<noteq> 0" "val (hw s) 0x40000710 AND 0xF \<noteq> 0"
    and fast: "16 * unat b \<le> unat (40 div w) * 1000000"
  shows "if b \<in> set baud_rates
    then \<exists>s'. tls_uart_set_baud_rate e no b s = Some (0, s') \<and> tls_uart_get_baud_rate (Some (unat no)) s' = b
      \<and> 16 * (unat (val (hw s') (HR_UART_BASE_ADDR (unat no) + 0x10) AND 0xFFFF) + 1)
          + unat (drop_bit 16 (val (hw s') (HR_UART_BASE_ADDR (unat no) + 0x10)))
        = unat (40 div w) * 1000000 div unat b
    else tls_uart_set_baud_rate e no b s = Some (-1, s)"
proof (cases "b \<in> set baud_rates")
  case False
  then show ?thesis using assms(5) by (simp add: tls_uart_set_baud_rate_def tls_uart_set_baud_rate_inside_def tls_uart_check_baudrate_def)
next
  case True
  let ?p = "unat no" and ?c = "40 div w * 1000000 :: u32"
  let ?a = "HR_UART_BASE_ADDR ?p + UR_BD"
  have p: "?p < length (uart_port s)" "regs (port ?p s) = Some (HR_UART_BASE_ADDR ?p)" using assms(4) by (simp_all add: port_ok_def)
  have le: "unat (40 div w) \<le> 40" by (simp add: unat_div_distrib)
  have c: "unat ?c = unat (40 div w) * 1000000"
    using le by (subst unat_mult_lem [THEN iffD1]) simp_all
  have b: "600 \<le> unat b" using True by (auto simp: baud_rates_def)
  have div: "16 * (unat (baud_divider ?c b AND 0xFFFF) + 1) + unat (drop_bit 16 (baud_divider ?c b)) = unat (40 div w) * 1000000 div unat b"
    using baud_divider_exact [of b ?c] b fast le unfolding c by simp
  obtain h where h: "tls_reg_read32 (io e) HR_CLK_DIV_CTL s = (val (hw s) HR_CLK_DIV_CTL, s\<lparr>hw := h\<rparr>)"
    using mmio_regs.read32 [OF assms(1,2)] by blast
  have wr: "val (hw (tls_reg_write32 (io e) ?a v t)) ?a = v" for v and t :: "('a, 'b) uart_state"
    using mmio_regs.write32 [OF assms(1,3,3)] by simp
  let ?s' = "upd_port ?p (\<lambda>q. q\<lparr>opts := (opts q)\<lparr>baudrate := b\<rparr>\<rparr>) (tls_reg_write32 (io e) ?a (baud_divider ?c b) (s\<lparr>hw := h\<rparr>))"
  have "tls_uart_set_baud_rate e no b s = Some (0, ?s')"
    using True assms(5) p h w
    by (simp add: tls_uart_set_baud_rate_def tls_uart_set_baud_rate_inside_def tls_uart_check_baudrate_def
        tls_sys_clk_get_def ur_write_def)
  moreover have "tls_uart_get_baud_rate (Some ?p) ?s' = b" using p by (simp add: tls_uart_get_baud_rate_def tls_reg_write32_def)
  ultimately show ?thesis using True div wr by simp
qed

theorem tls_uart_set_baud_rate_exact_witness:
  "\<exists>s'. tls_uart_set_baud_rate wire_env 1 115200 (wire_state wire_ports 0 []) = Some (0, s')
     \<and> 16 * (unat (w_ctl (hw s') 0x40010A10 AND 0xFFFF) + 1) + unat (drop_bit 16 (w_ctl (hw s') 0x40010A10)) = 86"
proof -
  have m: "mmio_regs (io wire_env) {a. w_reg a = None} w_ctl" using wire_regs.mmio_regs_axioms by simp
  have ok: "port_ok 1 (wire_state wire_ports 0 [])" using wire_port_ok(1) [of 1 0 "[]"] by (simp add: uart_ok_def)
  show ?thesis
    using tls_uart_set_baud_rate_exact [OF m, of 1 "wire_state wire_ports 0 []" 4 115200] ok
    by (simp add: w_reg_def HR_UART_BASE_ADDR_def wire_state_def baud_rates_def) blast
qed

section \<open>A full buffer\<close>

text \<open>C36: With flow control on, a byte that arrives on UART 0 or 2 when the ring buffer is full makes the head meet the tail:
  everything in the buffer, all 4095 bytes and the new one, is lost.\<close>

theorem uart_irq_full_ring_lost:
  assumes "uart_dev (io e) line taken sent level masked idle" "quiet_callbacks e" "p = 0 \<or> p = 2" "uart_ok level p s"
    and "pending_irq e p s AND 0xE0 = 0" "pending_irq e p s AND 0x1EC \<noteq> 0" "masked p (hw s) AND 4 = 0"
    and "queue_len (recv (port p s)) = 4095" "fcStatus (port p s) = 1" "taken p (hw s) < length (line p (hw s))"
  shows "\<exists>s'. uart_irq e p s = Some s' \<and> uart_ok level p s' \<and> queue (recv (port p s')) = []"
  by (rule uart_dev.uart_irq_02_full [OF assms(1) refl assms(2-10)])

definition wire_full :: "nat tls_uart_port list" where
  "wire_full = [(wire_port 0)\<lparr>fcStatus := 1, recv := \<lparr>recv_buf = Some (zeros 4096), recv_head = 4095, recv_tail = 0\<rparr>\<rparr>,
     (wire_port 1)\<lparr>recv := \<lparr>recv_buf = Some (zeros 4096), recv_head = 4093, recv_tail = 0\<rparr>\<rparr>, wire_port 2]"

lemma wire_full_ok:
  "uart_ok w_level 0 (wire_state wire_full i rx)" "uart_ok w_level 1 (wire_state wire_full i rx)"
  "queue_len (recv (wire_full ! 0)) = 4095" "fcStatus (wire_full ! 0) = 1" "recv_head (recv (wire_full ! 1)) = 4093"
  by (auto simp: uart_ok_def port_ok_def tx_ok_def ring_ok_def wire_full_def wire_port_def uart_port_0_def queue_len_def)

theorem uart_irq_full_ring_lost_witness:
  "\<exists>s'. uart_irq wire_env 0 (wire_state wire_full 4 [9]) = Some s' \<and> queue_len (recv (port 0 (wire_state wire_full 4 [9]))) = 4095
     \<and> queue (recv (port 0 s')) = []"
  using uart_irq_full_ring_lost [OF wire_dev, of 0 "wire_state wire_full 4 [9]"] wire_full_ok by auto

text \<open>C37: When three bytes arrive on UART 1 that end with a plus sign and fill its buffer exactly to the end, the handler
  looks for the plus signs before them in front of the buffer: it takes the head, which is 0 again, for one less than it is.\<close>

theorem uart1_irq_plus_overread:
  assumes "io e = wire_io" "uart_ok w_level 1 s" "unat (recv_head (recv (port 1 s))) = 4093"
    and "w_rx (hw s) 1 = [a, b, 0x2B]" "w_ints (hw s) 1 = 4" "w_mask 1 (hw s) AND 4 = 0"
  shows "uart_irq e 1 s = None"
proof -
  define h where "h = (hw s)\<lparr>w_count := (w_count (hw s))(1 := 0)\<rparr>"
  have ok: "port_ok 1 s" "ring_ok (recv (port 1 s))" using assms(2) by (simp_all add: uart_ok_def)
  have r: "regs (port 1 s) = Some (HR_UART_BASE_ADDR 1)" using ok(1) by (simp add: port_ok_def)
  have ack: "irq_ack e 1 s = Some (4, s\<lparr>hw := h\<rparr>)"
    using assms(1,5) r by (simp add: irq_ack_def ur_read_def ur_write_def tls_reg_read32_def tls_reg_write32_def w_read_def w_write_def h_def)
  have cnt: "irq_rx_count e 1 4 (s\<lparr>hw := h\<rparr>) = Some (Some 3, s\<lparr>hw := h\<rparr>)"
    using assms(1,4,6) r
    by (simp add: irq_rx_count_def ur_read_def tls_reg_read32_def w_read_def w_mask_def w_fifo_def w_level_def h_def)
  have "irq_body1 e 4 3 (s\<lparr>hw := h\<rparr>) = None"
    by (rule wire.irq_body1_wrap)
      (use assms ok in \<open>simp_all add: port_ok_def w_line_def w_taken_def w_fifo_def h_def nth_append\<close>)
  then show ?thesis unfolding UART1_parts using ack cnt by (simp add: irq_overrun_def)
qed

theorem uart1_irq_plus_overread_witness:
  "uart_irq wire_env 1 (wire_state wire_full 4 [1, 2, 0x2B]) = None"
  by (rule uart1_irq_plus_overread) (use wire_full_ok in simp_all)

section \<open>Setting up a port\<close>

text \<open>C38: \<open>tls_uart_port_init\<close> leaves a port that is well formed, as the handlers, reading and writing need it: its registers
  are those of the port, its ring buffer has 4096 bytes and is empty, nothing waits to be sent; the options are those asked for, or
  8N1 at 115200, except that a rate that is not supported becomes 0. The other ports do not change.\<close>

theorem tls_uart_port_init_ready:
  assumes "mmio_regs (io e) R val" "0x40000710 \<in> R" "clk_ok val (hw s)"
    and "no \<le> 2" "length (uart_port s) = 3" "heap s = []"
  shows "\<exists>s'. tls_uart_port_init e no opt md s = Some (0, s') \<and> port_ok (unat no) s' \<and> tx_ok (unat no) s'
    \<and> ring_ok (recv (port (unat no) s')) \<and> queue (recv (port (unat no) s')) = [] \<and> outstanding (unat no) s' = []
    \<and> uart_no (port (unat no) s') = ucast no \<and> opts (port (unat no) s') = default_options opt
    \<and> (\<forall>q. q \<noteq> unat no \<longrightarrow> port q s' = port q s)"
proof -
  obtain h g where "tls_uart_port_init e no opt md s = Some (0, (upd_port (unat no) g s)\<lparr>hw := h\<rparr>)"
    and "g (port (unat no) s) = uart_port_0\<lparr>uart_no := ucast no, uart_irq_no := (if no = 0 then 23 else if no = 1 then 24 else 41),
        opts := default_options opt, rxstatus := 1, tx_fifofull := 16, regs := Some (HR_UART_BASE_ADDR (unat no)),
        recv := \<lparr>recv_buf = Some (zeros 4096), recv_head = 0, recv_tail = 0\<rparr>, tx_callback := Some Free_sent_data\<rparr>"
    using port_init [OF assms] by metis
  moreover have "unat no < 3" using assms(4) unfolding word_le_nat_alt by simp
  ultimately show ?thesis
    using assms(5) by (intro exI [of _ "(upd_port (unat no) g s)\<lparr>hw := h\<rparr>"])
      (simp add: port_ok_def tx_ok_def ring_ok_def queue_def queue_len_def outstanding_def uart_port_0_def)
qed

theorem tls_uart_port_init_ready_witness:
  "\<exists>s'. tls_uart_port_init wire_env 1 None 0 (wire_state wire_full 0 []) = Some (0, s')
     \<and> port_ok 1 s' \<and> queue (recv (port 1 s')) = [] \<and> baudrate (opts (port 1 s')) = 115200"
proof -
  have "mmio_regs (io wire_env) {a. w_reg a = None} w_ctl" using wire_regs.mmio_regs_axioms by simp
  then obtain s' where "tls_uart_port_init wire_env 1 None 0 (wire_state wire_full 0 []) = Some (0, s')" "port_ok 1 s'"
    "queue (recv (port 1 s')) = []" "opts (port 1 s') = default_options None"
    using tls_uart_port_init_ready [of wire_env "{a. w_reg a = None}" w_ctl "wire_state wire_full 0 []" 1 None 0]
    by (auto simp: w_reg_def clk_ok_def wire_state_def wire_full_def)
  then show ?thesis by (auto simp: default_options_def baud_rates_def)
qed

end
