(* ===== verification/Dma_Props.thy ===== *)
theory Dma_Props
  imports Dma
begin

text \<open>
  The table of channels of the DMA driver: what \<open>tls_dma_request\<close> gives away, and what it does when the channel
  that is asked for is in use.
\<close>

definition channel_free :: "('h, 'f, 'z) dma_state_scheme \<Rightarrow> nat \<Rightarrow> bool" where
  "channel_free s i = (dma_channels s ! i AND 0x80 = 0)"

lemma free_channel_Some:
  assumes "free_channel cs k = Some i"
  shows "k \<le> i \<and> i < k + length cs \<and> cs ! (i - k) AND 0x80 = 0 \<and> (\<forall>j < i - k. cs ! j AND 0x80 \<noteq> 0)"
  using assms
proof (induction cs arbitrary: k)
  case Nil
  then show ?case by simp
next
  case (Cons c r)
  show ?case
  proof (cases "c AND 0x80 = 0")
    case True
    then show ?thesis using Cons.prems by auto
  next
    case False
    then have ih: "Suc k \<le> i" "i < Suc k + length r" "r ! (i - Suc k) AND 0x80 = 0" "\<forall>j < i - Suc k. r ! j AND 0x80 \<noteq> 0"
      using Cons.IH [of "Suc k"] Cons.prems by auto
    have "(c # r) ! j AND 0x80 \<noteq> 0" if "j < i - k" for j
      using that ih False by (cases j) auto
    moreover have "(c # r) ! (i - k) = r ! (i - Suc k)" using ih(1) by (simp add: nth_Cons' diff_diff_add)
    ultimately show ?thesis using ih by simp
  qed
qed

lemma free_channel_None: "free_channel cs k = None \<Longrightarrow> c \<in> set cs \<Longrightarrow> c AND 0x80 \<noteq> 0"
  by (induction cs k rule: free_channel.induct) (auto split: if_splits)

lemma channel_taken: "(f OR 0x80) AND 0x80 \<noteq> (0 :: u8)"
proof -
  have "bit ((f OR 0x80) AND 0x80 :: u8) 7" by (simp add: bit_simps bit_or_iff bit_and_iff)
  then show ?thesis by (metis bit_0_eq bot_apply bot_bool_def)
qed

text \<open>A request for a channel that is free, or for any channel (number 0) while one is free, returns that channel, or the
  first free one; it is then in use, with the flags asked for in its mode register, and no other channel changes.\<close>

theorem tls_dma_request_grants:
  assumes "length (dma_channels s) = 8" "ch < 8" "if ch = 0 then \<exists>i < 8. channel_free s i else channel_free s ch"
    and "tls_dma_request m ch flags s = (c, s')"
  shows "c < 8 \<and> channel_free s c \<and> (ch \<noteq> 0 \<longrightarrow> c = ch) \<and> (ch = 0 \<longrightarrow> (\<forall>i < c. \<not> channel_free s i))
    \<and> \<not> channel_free s' c \<and> (\<forall>i. i \<noteq> c \<longrightarrow> dma_channels s' ! i = dma_channels s ! i)
    \<and> hw s' = reg_write m (DMA_MODE_REG c) (ucast flags) (hw s)"
proof -
  have c: "c < 8 \<and> channel_free s c \<and> (ch \<noteq> 0 \<longrightarrow> c = ch) \<and> (ch = 0 \<longrightarrow> (\<forall>i < c. \<not> channel_free s i))"
  proof (cases "ch = 0")
    case False
    then show ?thesis using assms by (auto simp: tls_dma_request_def channel_free_def)
  next
    case True
    then obtain i where i: "i < 8" "dma_channels s ! i AND 0x80 = 0" using assms(3) by (auto simp: channel_free_def)
    then have "dma_channels s ! i \<in> set (dma_channels s)" using assms(1) by simp
    then obtain k where k: "free_channel (dma_channels s) 0 = Some k"
      using free_channel_None i(2) by (cases "free_channel (dma_channels s) 0") blast+
    then have "c = k" using True assms(4) by (simp add: tls_dma_request_def Let_def)
    then show ?thesis using free_channel_Some [OF k] True assms(1) by (simp add: channel_free_def)
  qed
  have s': "s' = tls_reg_write32 m (DMA_MODE_REG c) (ucast flags) (s\<lparr>dma_channels := (dma_channels s)[c := flags OR 0x80]\<rparr>)"
    using assms(4) by (auto simp: tls_dma_request_def Let_def)
  show ?thesis using c assms(1) channel_taken unfolding s' by (auto simp: tls_reg_write32_def channel_free_def)
qed

definition dma_storage :: "(nat \<Rightarrow> u32) mmio" where
  "dma_storage = \<lparr>reg_read = (\<lambda>a h. (h a, h)), reg_write = (\<lambda>a v h. h(a := v)), irq_set = (\<lambda>n b h. h)\<rparr>"

interpretation dma_storage: mmio_regs dma_storage UNIV "\<lambda>h. h"
  by unfold_locales (auto simp: dma_storage_def)

definition dma_start_state :: "u8 list \<Rightarrow> (nat \<Rightarrow> u32, nat) dma_state" where
  "dma_start_state cs = \<lparr>heap = [], junk = (\<lambda>_. 0), hw = (\<lambda>_. 0), dma_context = replicate 8 dma_context_0, dma_channels = cs\<rparr>"

theorem tls_dma_request_grants_witness:
  "fst (tls_dma_request dma_storage 0 1 (dma_start_state [0x80, 0x81, 0, 0, 0x80, 0, 0, 0])) = 2
   \<and> \<not> channel_free (snd (tls_dma_request dma_storage 0 1 (dma_start_state [0x80, 0x81, 0, 0, 0x80, 0, 0, 0]))) 2"
proof -
  let ?s = "dma_start_state [0x80, 0x81, 0, 0, 0x80, 0, 0, 0]"
  obtain c s' where r: "tls_dma_request dma_storage 0 1 ?s = (c, s')" by fastforce
  have "c < 8 \<and> channel_free ?s c \<and> (0 \<noteq> (0 :: nat) \<longrightarrow> c = 0) \<and> (0 = (0 :: nat) \<longrightarrow> (\<forall>i < c. \<not> channel_free ?s i))
    \<and> \<not> channel_free s' c \<and> (\<forall>i. i \<noteq> c \<longrightarrow> dma_channels s' ! i = dma_channels ?s ! i)
    \<and> hw s' = reg_write dma_storage (DMA_MODE_REG c) (ucast (1 :: u8)) (hw ?s)"
    by (rule tls_dma_request_grants [OF _ _ _ r])
      (auto simp: dma_start_state_def channel_free_def intro!: exI [of _ 2])
  moreover have "c = 2" using r by (simp add: tls_dma_request_def dma_start_state_def Let_def)
  ultimately show ?thesis using r by simp
qed

text \<open>C39: A request for a channel that is in use does not fail: it returns channel 0 and gives it away, whoever uses channel 0, and
  overwrites its mode register. The same happens when no channel at all is free.\<close>

theorem tls_dma_request_takes_channel_0:
  assumes "length (dma_channels s) = 8" "if ch = 0 then \<forall>i < 8. \<not> channel_free s i else ch \<ge> 8 \<or> \<not> channel_free s ch"
  shows "tls_dma_request m ch flags s
    = (0, s\<lparr>dma_channels := (dma_channels s)[0 := flags OR 0x80], hw := reg_write m (DMA_MODE_REG 0) (ucast flags) (hw s)\<rparr>)"
proof (cases "ch = 0")
  case False
  then show ?thesis using assms by (auto simp: tls_dma_request_def channel_free_def tls_reg_write32_def)
next
  case True
  have "free_channel (dma_channels s) 0 = None"
  proof (cases "free_channel (dma_channels s) 0")
    case (Some k)
    then show ?thesis using free_channel_Some [OF Some] True assms by (auto simp: channel_free_def)
  qed simp
  then show ?thesis using True by (simp add: tls_dma_request_def tls_reg_write32_def)
qed

theorem tls_dma_request_takes_channel_0_witness:
  "fst (tls_dma_request dma_storage 2 5 (dma_start_state [0x81, 0, 0x80, 0, 0, 0, 0, 0])) = 0
   \<and> \<not> channel_free (dma_start_state [0x81, 0, 0x80, 0, 0, 0, 0, 0]) 0"
  by (subst tls_dma_request_takes_channel_0) (simp_all add: dma_start_state_def channel_free_def)

end
