(* ===== verification/Timer.thy ===== *)
theory Timer
  imports Mmio
begin

text \<open>
  The hardware timers, \<^verbatim>\<open>src/Platform/Drivers/timer/wm_timer.c\<close>: timer 0 serves the delays, timers 1 to 5
  are given to callers with a callback each. The static \<open>wm_timer_bitmap\<close> says which are given away. A callback
  is an element of \<open>'f\<close>, and calling it is the argument \<open>call\<close>. All timers share one control register, with five
  bits each, the last of which reads as one when the timer has expired and is cleared by writing a one; \<open>Timer_Props\<close>
  states that as a contract. \<open>None\<close> stands for a shift by 32 or more, an access outside
  \<open>timer_context\<close>, a division by zero in \<open>tls_sys_clk_get\<close>, or a delay that does not end.
\<close>

section \<open>Data\<close>

abbreviation (input) HR_TIMER_CFG :: nat where "HR_TIMER_CFG \<equiv> 0x40010E00"
abbreviation (input) HR_TIMER0_5_CSR :: nat where "HR_TIMER0_5_CSR \<equiv> 0x40010E04"
abbreviation (input) HR_TIMER0_PRD :: nat where "HR_TIMER0_PRD \<equiv> 0x40010E08"
abbreviation (input) TIMER0_INT :: nat where "TIMER0_INT \<equiv> 26"
abbreviation (input) TLS_TIMER_ID_MAX :: nat where "TLS_TIMER_ID_MAX \<equiv> 6"
abbreviation (input) WM_TIMER_ID_INVALID :: nat where "WM_TIMER_ID_INVALID \<equiv> 0xFF"

definition TLS_TIMER_MS_UNIT :: "nat \<Rightarrow> u32" where "TLS_TIMER_MS_UNIT n = push_bit (5 * n) 1"
definition TLS_TIMER_ONE_TIME :: "nat \<Rightarrow> u32" where "TLS_TIMER_ONE_TIME n = push_bit (1 + 5 * n) 1"
definition TLS_TIMER_EN :: "nat \<Rightarrow> u32" where "TLS_TIMER_EN n = push_bit (2 + 5 * n) 1"
definition TLS_TIMER_INT_EN :: "nat \<Rightarrow> u32" where "TLS_TIMER_INT_EN n = push_bit (3 + 5 * n) 1"
definition TLS_TIMER_INT_CLR :: "nat \<Rightarrow> u32" where "TLS_TIMER_INT_CLR n = push_bit (4 + 5 * n) 1"

lemmas timer_bits = TLS_TIMER_MS_UNIT_def TLS_TIMER_ONE_TIME_def TLS_TIMER_EN_def TLS_TIMER_INT_EN_def TLS_TIMER_INT_CLR_def

datatype tls_timer_unit = TLS_TIMER_UNIT_US | TLS_TIMER_UNIT_MS

record 'f tls_timer_cfg =
  cfg_unit :: tls_timer_unit
  cfg_timeout :: u32
  cfg_is_repeat :: bool
  cfg_callback :: "'f option"
  cfg_arg :: u32

record 'f timer_irq_context =
  tc_callback :: "'f option"
  tc_arg :: u32

record ('h, 'f) timer_state = "'h hw_state" +
  timer_context :: "'f timer_irq_context list"
  wm_timer_bitmap :: u8

text \<open>\<open>wm_timer_bitmap & BIT(n)\<close>.\<close>

definition timer_used :: "nat \<Rightarrow> ('h, 'f, 'z) timer_state_scheme \<Rightarrow> bool option" where
  "timer_used n s = (if n \<ge> 32 then None else Some (n < 8 \<and> bit (wm_timer_bitmap s) n))"

section \<open>Interrupts\<close>

definition timer_clear_irq :: "'h mmio \<Rightarrow> nat \<Rightarrow> ('h, 'z) hw_state_scheme \<Rightarrow> ('h, 'z) hw_state_scheme" where
  "timer_clear_irq m timer_id s = reg_update m HR_TIMER0_5_CSR (\<lambda>v. v OR TLS_TIMER_INT_CLR timer_id) s"

definition timer_irq_callback ::
    "'h mmio \<Rightarrow> ('f \<Rightarrow> u32 \<Rightarrow> ('h, 'f, 'z) timer_state_scheme \<Rightarrow> ('h, 'f, 'z) timer_state_scheme) \<Rightarrow> nat \<Rightarrow>
       ('h, 'f, 'z) timer_state_scheme \<Rightarrow> ('h, 'f, 'z) timer_state_scheme option" where
  "timer_irq_callback m call timer_id s =
     (if timer_id \<ge> length (timer_context s) then None
      else (let s = timer_clear_irq m timer_id s; c = timer_context s ! timer_id in
            Some (case tc_callback c of None \<Rightarrow> s | Some f \<Rightarrow> call f (tc_arg c) s)))"

definition TIM0_IRQHandler where "TIM0_IRQHandler m call s = timer_irq_callback m call 0 s"
definition TIM1_IRQHandler where "TIM1_IRQHandler m call s = timer_irq_callback m call 1 s"
definition TIM2_IRQHandler where "TIM2_IRQHandler m call s = timer_irq_callback m call 2 s"
definition TIM3_IRQHandler where "TIM3_IRQHandler m call s = timer_irq_callback m call 3 s"
definition TIM4_IRQHandler where "TIM4_IRQHandler m call s = timer_irq_callback m call 4 s"
definition TIM5_IRQHandler where "TIM5_IRQHandler m call s = timer_irq_callback m call 5 s"

section \<open>Timers\<close>

text \<open>The search of \<open>tls_timer_create\<close>: the first free timer among those listed, 6 if there is none.\<close>

fun first_free :: "u8 \<Rightarrow> nat list \<Rightarrow> nat" where
  "first_free b [] = TLS_TIMER_ID_MAX"
| "first_free b (i # r) = (if \<not> bit b i then i else first_free b r)"

definition tls_timer_create ::
    "'h mmio \<Rightarrow> 'f tls_timer_cfg \<Rightarrow> ('h, 'f, 'z) timer_state_scheme \<Rightarrow> (nat \<times> ('h, 'f, 'z) timer_state_scheme) option" where
  "tls_timer_create m cfg s =
     (let i = first_free (wm_timer_bitmap s) [1, 2, 3, 4, 5] in
      if i = TLS_TIMER_ID_MAX then Some (WM_TIMER_ID_INVALID, s)
      else do {
        let s = s\<lparr>wm_timer_bitmap := set_bit i (wm_timer_bitmap s),
                  timer_context := (timer_context s)[i := \<lparr>tc_callback = cfg_callback cfg, tc_arg = cfg_arg cfg\<rparr>]\<rparr>;
        (sysclk, s) \<leftarrow> tls_sys_clk_get m s;
        let s = tls_reg_write32 m HR_TIMER_CFG (apbclk sysclk - 1) s;
        let (timer_csr, s) = tls_reg_read32 m HR_TIMER0_5_CSR s;
        let timer_csr = (if \<not> cfg_is_repeat cfg then timer_csr OR TLS_TIMER_ONE_TIME i
                         else timer_csr AND NOT (TLS_TIMER_ONE_TIME i));
        let timer_csr = (if cfg_unit cfg = TLS_TIMER_UNIT_MS then timer_csr OR TLS_TIMER_MS_UNIT i
                         else timer_csr AND NOT (TLS_TIMER_MS_UNIT i));
        let s = tls_reg_write32 m HR_TIMER0_5_CSR (timer_csr OR TLS_TIMER_INT_CLR i) s;
        let s = (if cfg_timeout cfg \<noteq> 0 then tls_reg_write32 m (HR_TIMER0_PRD + 4 * i) (cfg_timeout cfg) s else s);
        Some (i, tls_irq_enable m (TIMER0_INT + i) s)
      })"

definition tls_timer_start :: "'h mmio \<Rightarrow> nat \<Rightarrow> ('h, 'f, 'z) timer_state_scheme \<Rightarrow> ('h, 'f, 'z) timer_state_scheme option" where
  "tls_timer_start m timer_id s = do {
     used \<leftarrow> timer_used timer_id s;
     Some (if \<not> used then s
           else reg_update m HR_TIMER0_5_CSR (\<lambda>v. v OR TLS_TIMER_INT_EN timer_id OR TLS_TIMER_EN timer_id) s)
   }"

definition tls_timer_stop :: "'h mmio \<Rightarrow> nat \<Rightarrow> ('h, 'f, 'z) timer_state_scheme \<Rightarrow> ('h, 'f, 'z) timer_state_scheme option" where
  "tls_timer_stop m timer_id s = do {
     used \<leftarrow> timer_used timer_id s;
     Some (if \<not> used then s
           else (let s = reg_update m HR_TIMER0_5_CSR (\<lambda>v. v OR TLS_TIMER_INT_CLR timer_id) s
                 in reg_update m HR_TIMER0_5_CSR (\<lambda>v. v AND NOT (TLS_TIMER_EN timer_id)) s))
   }"

definition tls_timer_change :: "'h mmio \<Rightarrow> nat \<Rightarrow> u32 \<Rightarrow> ('h, 'f, 'z) timer_state_scheme \<Rightarrow> ('h, 'f, 'z) timer_state_scheme option" where
  "tls_timer_change m timer_id newtime s = do {
     used \<leftarrow> timer_used timer_id s;
     if \<not> used then Some s
     else do {
       s \<leftarrow> tls_timer_stop m timer_id s;
       let s = (if newtime \<noteq> 0 then tls_reg_write32 m (HR_TIMER0_PRD + 4 * timer_id) newtime s else s);
       tls_timer_start m timer_id s
     }
   }"

definition tls_timer_destroy :: "'h mmio \<Rightarrow> nat \<Rightarrow> ('h, 'f, 'z) timer_state_scheme \<Rightarrow> ('h, 'f, 'z) timer_state_scheme option" where
  "tls_timer_destroy m timer_id s = do {
     used \<leftarrow> timer_used timer_id s;
     if \<not> used then Some s
     else do {
       s \<leftarrow> tls_timer_stop m timer_id s;
       if timer_id \<ge> length (timer_context s) then None
       else Some (s\<lparr>timer_context := (timer_context s)[timer_id := \<lparr>tc_callback = None, tc_arg = 0\<rparr>],
                    wm_timer_bitmap := unset_bit timer_id (wm_timer_bitmap s)\<rparr>)
     }
   }"

section \<open>Delays\<close>

partial_function (option) delay_wait :: "'h mmio \<Rightarrow> ('h, 'z) hw_state_scheme \<Rightarrow> ('h, 'z) hw_state_scheme option" where
  "delay_wait m s =
     (let (v, s) = tls_reg_read32 m HR_TIMER0_5_CSR s in
      if v AND TLS_TIMER_INT_CLR 0 = 0 then delay_wait m s else Some s)"

definition tls_delay_via_timer ::
    "'h mmio \<Rightarrow> u32 \<Rightarrow> u32 \<Rightarrow> ('h, 'z) hw_state_scheme \<Rightarrow> (int \<times> ('h, 'z) hw_state_scheme) option" where
  "tls_delay_via_timer m timeout m_flag s =
     (if timeout = 0 then Some (0, s)
      else do {
        let s = tls_irq_disable m TIMER0_INT s;
        let s = tls_reg_write32 m HR_TIMER0_PRD timeout s;
        (sysclk, s) \<leftarrow> tls_sys_clk_get m s;
        let s = tls_reg_write32 m HR_TIMER_CFG (apbclk sysclk - 1) s;
        let (timer_csr, s) = tls_reg_read32 m HR_TIMER0_5_CSR s;
        let timer_csr = (if m_flag = 1 then timer_csr OR TLS_TIMER_MS_UNIT 0
                         else if m_flag = 0 then timer_csr AND NOT (TLS_TIMER_MS_UNIT 0) else timer_csr);
        let timer_csr = timer_csr OR TLS_TIMER_ONE_TIME 0;
        let timer_csr = timer_csr OR TLS_TIMER_INT_CLR 0;
        let timer_csr = timer_csr OR TLS_TIMER_INT_EN 0;
        let timer_csr = timer_csr OR TLS_TIMER_EN 0;
        let s = tls_reg_write32 m HR_TIMER0_5_CSR timer_csr s;
        s \<leftarrow> delay_wait m s;
        let timer_csr = timer_csr OR TLS_TIMER_INT_CLR 0;
        let s = tls_reg_write32 m HR_TIMER0_5_CSR timer_csr s;
        Some (0, tls_irq_enable m TIMER0_INT s)
      })"

end
