(* ===== verification/Timer_Props.thy ===== *)
theory Timer_Props
  imports Timer Clock
begin

text \<open>
  The hardware timers: which timer \<open>tls_timer_create\<close> gives away and that \<open>tls_timer_destroy\<close> takes it back, and the
  control register that all timers share. Its contract is \<open>timer_csr\<close>; the device \<open>timer_io\<close> meets it.
\<close>

section \<open>Giving timers away\<close>

lemma first_free_timer:
  assumes "\<not> (\<forall>i \<in> {1..5}. bit b i)"
  shows "first_free b [1, 2, 3, 4, 5] \<in> {1..5} \<and> \<not> bit b (first_free b [1, 2, 3, 4, 5])
    \<and> (\<forall>j \<in> {1..<first_free b [1, 2, 3, 4, 5]}. bit b j)"
proof -
  have five: "i \<in> {1..5} \<longleftrightarrow> i = 1 \<or> i = 2 \<or> i = 3 \<or> i = 4 \<or> i = (5 :: nat)" for i by auto
  show ?thesis using assms unfolding five Ball_def by (auto simp: less_Suc_eq numeral_eq_Suc)
qed

lemma first_free_none: "\<forall>i \<in> {1..5}. bit b i \<Longrightarrow> first_free b [1, 2, 3, 4, 5] = 6"
  by simp

lemma create_cases:
  assumes "mmio_regs m R val" "0x40000710 \<in> R" "clk_ok val (hw s)" "length (timer_context s) = 6"
  shows "if \<forall>i \<in> {1..5}. bit (wm_timer_bitmap s) i then tls_timer_create m cfg s = Some (0xFF, s)
    else \<exists>i s'. tls_timer_create m cfg s = Some (i, s') \<and> i \<in> {1..5} \<and> \<not> bit (wm_timer_bitmap s) i
      \<and> (\<forall>j \<in> {1..<i}. bit (wm_timer_bitmap s) j) \<and> wm_timer_bitmap s' = set_bit i (wm_timer_bitmap s)
      \<and> timer_context s' = (timer_context s)[i := \<lparr>tc_callback = cfg_callback cfg, tc_arg = cfg_arg cfg\<rparr>]"
proof (cases "\<forall>i \<in> {1..5}. bit (wm_timer_bitmap s) i")
  case True
  then show ?thesis using first_free_none [OF True] by (simp add: tls_timer_create_def)
next
  case False
  obtain i where f: "first_free (wm_timer_bitmap s) [1, 2, 3, 4, 5] = i" and i: "i \<in> {1..5}" "\<not> bit (wm_timer_bitmap s) i"
    "\<forall>j \<in> {1..<i}. bit (wm_timer_bitmap s) j"
    using first_free_timer [OF False] by blast
  define t where "t = s\<lparr>wm_timer_bitmap := set_bit i (wm_timer_bitmap s),
    timer_context := (timer_context s)[i := \<lparr>tc_callback = cfg_callback cfg, tc_arg = cfg_arg cfg\<rparr>]\<rparr>"
  obtain c h where c: "tls_sys_clk_get m t = Some (c, t\<lparr>hw := h\<rparr>)"
    using mmio_regs.clk_get [OF assms(1,2), of t] assms(3) by (auto simp: clk_ok_def t_def)
  have six: "(i = 6) = False" using i by auto
  have "\<exists>h. tls_timer_create m cfg s = Some (i, t\<lparr>hw := h\<rparr>)"
    unfolding tls_timer_create_def f Let_def six if_False t_def [symmetric] c Option.bind.bind_lunit prod.case
    by (cases "cfg_timeout cfg = 0")
      (simp_all add: tls_reg_read32_def tls_reg_write32_def tls_irq_enable_def case_prod_beta, blast+)
  then obtain h where "tls_timer_create m cfg s = Some (i, t\<lparr>hw := h\<rparr>)" by blast
  then show ?thesis unfolding if_not_P [OF False] using i
    by (intro exI [of _ i] exI [of _ "t\<lparr>hw := h\<rparr>"]) (simp add: t_def)
qed

text \<open>\<open>tls_timer_create\<close> gives the first of the timers 1 to 5 that is free, marks it, and stores the callback with its argument;
  no other timer changes. When none is free it returns the invalid number and changes nothing.\<close>

theorem tls_timer_create_first_free:
  assumes "mmio_regs m R val" "0x40000710 \<in> R" "clk_ok val (hw s)" "length (timer_context s) = 6"
  shows "if \<forall>i \<in> {1..5}. bit (wm_timer_bitmap s) i then tls_timer_create m cfg s = Some (0xFF, s)
    else \<exists>i s'. tls_timer_create m cfg s = Some (i, s') \<and> i \<in> {1..5} \<and> \<not> bit (wm_timer_bitmap s) i
      \<and> (\<forall>j \<in> {1..<i}. bit (wm_timer_bitmap s) j) \<and> wm_timer_bitmap s' = set_bit i (wm_timer_bitmap s)
      \<and> timer_context s' = (timer_context s)[i := \<lparr>tc_callback = cfg_callback cfg, tc_arg = cfg_arg cfg\<rparr>]"
  by (rule create_cases [OF assms])

text \<open>Destroying a timer right after it was created gives back the bitmap and all other timers as they were.\<close>

theorem tls_timer_create_destroy:
  assumes "mmio_regs m R val" "0x40000710 \<in> R" "clk_ok val (hw s)" "length (timer_context s) = 6"
    and "tls_timer_create m cfg s = Some (i, s')" "i \<noteq> 0xFF"
  shows "\<exists>s''. tls_timer_destroy m i s' = Some s'' \<and> wm_timer_bitmap s'' = wm_timer_bitmap s
    \<and> timer_context s'' = (timer_context s)[i := \<lparr>tc_callback = None, tc_arg = 0\<rparr>]"
proof -
  have i: "i \<in> {1..5}" "\<not> bit (wm_timer_bitmap s) i" "wm_timer_bitmap s' = set_bit i (wm_timer_bitmap s)"
    "timer_context s' = (timer_context s)[i := \<lparr>tc_callback = cfg_callback cfg, tc_arg = cfg_arg cfg\<rparr>]"
    using create_cases [OF assms(1-4), of cfg] assms(5,6) by (auto split: if_splits)
  have "bit (wm_timer_bitmap s') i" using i(1,3) by (auto simp: bit_simps)
  then have used: "timer_used i s' = Some True" using i(1) by (auto simp: timer_used_def)
  then have stop: "\<exists>h. tls_timer_stop m i s' = Some (s'\<lparr>hw := h\<rparr>)"
    by (auto simp: tls_timer_stop_def reg_update_def tls_reg_read32_def tls_reg_write32_def case_prod_beta)
  have "unset_bit i (set_bit i (wm_timer_bitmap s)) = wm_timer_bitmap s"
    by (rule bit_word_eqI) (use i(2) in \<open>auto simp: bit_simps\<close>)
  then show ?thesis using stop used i assms(4) by (auto simp: tls_timer_destroy_def)
qed

section \<open>The control register\<close>

abbreviation (input) TIMER_FLAGS :: u32 where "TIMER_FLAGS \<equiv> 0x21084210"

text \<open>
  \<open>pend\<close> are the timers that have expired, at their bits of the control register; a one that is written there clears them. Reading
  does not, and a timer may expire at any time.
\<close>

locale timer_csr =
  fixes m :: "'h mmio" and pend :: "'h \<Rightarrow> u32"
  assumes read_csr: "fst (reg_read m HR_TIMER0_5_CSR h) AND TIMER_FLAGS = pend h"
    and read_pend: "pend h AND NOT (pend (snd (reg_read m a h))) = 0"
    and write_csr: "pend (reg_write m HR_TIMER0_5_CSR v h) = pend h AND NOT v"
begin

lemma clears_all: "pend (hw s) AND pend (hw (timer_clear_irq m n s)) = 0"
proof -
  let ?r = "reg_read m HR_TIMER0_5_CSR (hw s)"
  have "pend (hw (timer_clear_irq m n s)) = pend (snd ?r) AND NOT (fst ?r OR TLS_TIMER_INT_CLR n)"
    by (simp add: timer_clear_irq_def reg_update_def tls_reg_read32_def tls_reg_write32_def case_prod_beta write_csr)
  moreover have "bit (fst ?r) k" if "bit (pend (hw s)) k" for k
    using that unfolding read_csr [symmetric] by (simp add: bit_and_iff)
  ultimately show ?thesis by (auto simp: bit_eq_iff bit_simps)
qed

end

text \<open>A device where timer 0 expires with the \<open>t_left\<close>-th access from now, when it runs.\<close>

record timer_hw =
  t_regs :: "nat \<Rightarrow> u32"
  t_pend :: u32
  t_left :: nat

definition t_flags :: "timer_hw \<Rightarrow> u32" where "t_flags h = t_pend h AND TIMER_FLAGS"

definition t_tick :: "timer_hw \<Rightarrow> timer_hw" where
  "t_tick h = h\<lparr>t_left := t_left h - 1, t_pend := (if t_left h = 1 then t_pend h OR 0x10 else t_pend h)\<rparr>"

definition timer_io :: "timer_hw mmio" where
  "timer_io = \<lparr>reg_read = (\<lambda>a h. (if a = HR_TIMER0_5_CSR then t_regs h a AND NOT TIMER_FLAGS OR t_flags h else t_regs h a, t_tick h)),
     reg_write = (\<lambda>a v h. if a = HR_TIMER0_5_CSR then h\<lparr>t_regs := (t_regs h)(a := v), t_pend := t_pend h AND NOT v\<rparr>
                           else h\<lparr>t_regs := (t_regs h)(a := v)\<rparr>),
     irq_set = (\<lambda>n b h. h)\<rparr>"

lemma t_tick_flags: "t_flags h AND NOT (t_flags (t_tick h)) = 0" "t_left h = 0 \<Longrightarrow> t_flags (t_tick h) = t_flags h"
  by (auto simp: t_tick_def t_flags_def bit_eq_iff bit_simps)

interpretation timer_io: timer_csr timer_io t_flags
proof
  fix h v a
  show "fst (reg_read timer_io HR_TIMER0_5_CSR h) AND TIMER_FLAGS = t_flags h"
    by (simp add: timer_io_def t_flags_def bit.conj_disj_distrib2 and.assoc)
  show "t_flags h AND NOT (t_flags (snd (reg_read timer_io a h))) = 0" by (simp add: timer_io_def t_tick_flags)
  show "t_flags (reg_write timer_io HR_TIMER0_5_CSR v h) = t_flags h AND NOT v"
    by (simp add: timer_io_def t_flags_def and.assoc and.commute)
qed

interpretation timer_regs: mmio_regs timer_io "- {HR_TIMER0_5_CSR}" t_regs
  by unfold_locales (auto simp: timer_io_def t_tick_def)

text \<open>Timer 0 counts once and has expired, in the states \<open>fired\<close>: it does not raise its flag again, neither while the control
  register is read nor in a callback, until it is started anew.\<close>

definition one_shot :: "'h mmio \<Rightarrow> ('h \<Rightarrow> u32) \<Rightarrow> ('h \<Rightarrow> bool) \<Rightarrow> bool" where
  "one_shot m pend fired \<longleftrightarrow>
     (\<forall>h. fired h \<longrightarrow> fired (snd (reg_read m HR_TIMER0_5_CSR h)) \<and>
        (bit (pend (snd (reg_read m HR_TIMER0_5_CSR h))) 4 \<longrightarrow> bit (pend h) 4)) \<and>
     (\<forall>h v. fired h \<longrightarrow> fired (reg_write m HR_TIMER0_5_CSR v h))"

definition leaves_timer_0 ::
    "('f \<Rightarrow> u32 \<Rightarrow> ('h, 'f, 'z) timer_state_scheme \<Rightarrow> ('h, 'f, 'z) timer_state_scheme) \<Rightarrow> ('h \<Rightarrow> u32) \<Rightarrow> ('h \<Rightarrow> bool) \<Rightarrow> bool" where
  "leaves_timer_0 call pend fired \<longleftrightarrow>
     (\<forall>f a s. fired (hw s) \<longrightarrow> fired (hw (call f a s)) \<and> (bit (pend (hw (call f a s))) 4 \<longrightarrow> bit (pend (hw s)) 4))"

lemma bit_16: "bit (0x10 :: u32) n \<longleftrightarrow> n = 4"
proof -
  have "bit (push_bit 4 1 :: u32) n \<longleftrightarrow> n = 4"
    unfolding bit_push_bit_iff bit_1_iff by auto
  then show ?thesis by simp
qed

lemma and_16: "(v :: u32) AND 0x10 = 0 \<longleftrightarrow> \<not> bit v 4"
proof
  assume "v AND 0x10 = 0"
  then show "\<not> bit v 4" using bit_16 [of 4] by (metis bit_0_eq bit_and_iff bot_apply bot_bool_def)
next
  assume v: "\<not> bit v 4"
  show "v AND 0x10 = 0"
  proof (rule bit_word_eqI)
    fix n show "bit (v AND 0x10) n = bit 0 n" using v unfolding bit_and_iff bit_16 by auto
  qed
qed

context timer_csr
begin

lemma flag_0: "fst (reg_read m HR_TIMER0_5_CSR h) AND TLS_TIMER_INT_CLR 0 = 0 \<longleftrightarrow> \<not> bit (pend h) 4"
proof -
  have "bit (TIMER_FLAGS :: u32) 4" by simp
  then have "bit (fst (reg_read m HR_TIMER0_5_CSR h)) 4 \<longleftrightarrow> bit (pend h) 4"
    unfolding read_csr [symmetric] by (simp only: bit_and_iff simp_thms)
  moreover have "TLS_TIMER_INT_CLR 0 = 0x10" by (simp add: TLS_TIMER_INT_CLR_def)
  ultimately show ?thesis by (simp only: and_16)
qed

lemma delay_wait_returns:
  assumes "bit (pend (hw s)) 4"
  shows "\<exists>s'. delay_wait m s = Some s'"
  using flag_0 [of "hw s"] assms by (subst delay_wait.simps) (simp add: tls_reg_read32_def case_prod_beta)

lemma delay_wait_hangs:
  fixes s :: "('h, 'z) hw_state_scheme"
  assumes "one_shot m pend fired" "fired (hw s)" "\<not> bit (pend (hw s)) 4"
  shows "delay_wait m s = None"
proof -
  have "m' = m \<longrightarrow> fired (hw s) \<longrightarrow> bit (pend (hw s)) 4" if d: "delay_wait m' s = Some y"
    for m' and s y :: "('h, 'z) hw_state_scheme"
  proof (rule delay_wait.raw_induct [where P = "\<lambda>m' s y. m' = m \<longrightarrow> fired (hw s) \<longrightarrow> bit (pend (hw s)) 4", OF _ d])
    fix dw m' and s y :: "('h, 'z) hw_state_scheme"
    assume ih: "\<And>m' s y. dw m' s = Some y \<Longrightarrow> m' = m \<longrightarrow> fired (hw s) \<longrightarrow> bit (pend (hw s)) 4"
      and step: "(let (v, s) = tls_reg_read32 m' HR_TIMER0_5_CSR s in if v AND TLS_TIMER_INT_CLR 0 = 0 then dw m' s else Some s) = Some y"
    show "m' = m \<longrightarrow> fired (hw s) \<longrightarrow> bit (pend (hw s)) 4"
    proof (intro impI, rule ccontr)
      assume hyp: "m' = m" "fired (hw s)" "\<not> bit (pend (hw s)) 4"
      let ?s = "s\<lparr>hw := snd (reg_read m HR_TIMER0_5_CSR (hw s))\<rparr>"
      have rd: "tls_reg_read32 m HR_TIMER0_5_CSR s = (fst (reg_read m HR_TIMER0_5_CSR (hw s)), ?s)"
        by (simp add: tls_reg_read32_def case_prod_beta)
      have "dw m ?s = Some y"
        using step unfolding hyp(1) rd Let_def prod.case if_P [OF flag_0 [THEN iffD2, OF hyp(3)]] .
      then have "fired (hw ?s) \<longrightarrow> bit (pend (hw ?s)) 4" using ih by blast
      moreover have "hw ?s = snd (reg_read m HR_TIMER0_5_CSR (hw s))" by simp
      ultimately show False using assms(1) hyp(2,3) unfolding one_shot_def by metis
    qed
  qed
  then show ?thesis using assms(2,3) by (cases "delay_wait m s") auto
qed

lemma clear_fired:
  assumes "one_shot m pend fired" "fired (hw s)"
  shows "fired (hw (timer_clear_irq m n s))"
  using assms by (simp add: one_shot_def timer_clear_irq_def reg_update_def tls_reg_read32_def tls_reg_write32_def case_prod_beta)

end

text \<open>C40: The interrupt of any timer, with or without a callback, clears the flags of all timers, because it writes back the ones
  it reads. So a delay that waits for timer 0, which has expired, and would return, never returns when the interrupt
  of a timer comes first. The device keeps the contract of the control register (\<open>timer_csr\<close>); timer 0, which counts once,
  does not expire a second time (\<open>one_shot\<close>), and the callback neither starts it nor raises its flag (\<open>leaves_timer_0\<close>).\<close>

theorem timer_irq_stops_delay:
  assumes "timer_csr m pend" "one_shot m pend fired" "leaves_timer_0 call pend fired"
    and "fired (hw s)" "bit (pend (hw s)) 4" "n < length (timer_context s)"
  shows "(\<exists>s'. delay_wait m s = Some s')
    \<and> (\<exists>s'. timer_irq_callback m call n s = Some s' \<and> delay_wait m s' = None)"
proof
  show "\<exists>s'. delay_wait m s = Some s'" by (rule timer_csr.delay_wait_returns [OF assms(1,5)])
  let ?t = "timer_clear_irq m n s" and ?c = "timer_context s ! n"
  let ?s = "case tc_callback ?c of None \<Rightarrow> ?t | Some f \<Rightarrow> call f (tc_arg ?c) ?t"
  have "pend (hw s) AND pend (hw ?t) = 0" by (rule timer_csr.clears_all [OF assms(1)])
  then have t: "\<not> bit (pend (hw ?t)) 4" using assms(5) by (metis bit_0_eq bit_and_iff bot_apply bot_bool_def)
  have f: "fired (hw ?t)" by (rule timer_csr.clear_fired [OF assms(1,2,4)])
  have "fired (hw ?s) \<and> \<not> bit (pend (hw ?s)) 4"
    using t f assms(3) by (auto simp: leaves_timer_0_def split: option.split)
  then have "delay_wait m ?s = None" using timer_csr.delay_wait_hangs [OF assms(1,2)] by blast
  moreover have ctx: "timer_context ?t = timer_context s"
    by (simp add: timer_clear_irq_def reg_update_def tls_reg_read32_def tls_reg_write32_def case_prod_beta)
  have "timer_irq_callback m call n s = Some ?s"
    unfolding timer_irq_callback_def Let_def ctx using assms(6) by simp
  ultimately show "\<exists>s'. timer_irq_callback m call n s = Some s' \<and> delay_wait m s' = None" by blast
qed

section \<open>Examples\<close>

definition timer_start_state :: "u8 \<Rightarrow> u32 \<Rightarrow> (timer_hw, nat) timer_state" where
  "timer_start_state b f = \<lparr>heap = [], junk = (\<lambda>_. 0), hw = \<lparr>t_regs = (\<lambda>_. 0)(0x40000710 := 0x42), t_pend = f, t_left = 0\<rparr>,
     timer_context = replicate 6 \<lparr>tc_callback = None, tc_arg = 0\<rparr>, wm_timer_bitmap = b\<rparr>"

definition some_cfg :: "nat tls_timer_cfg" where
  "some_cfg = \<lparr>cfg_unit = TLS_TIMER_UNIT_MS, cfg_timeout = 10, cfg_is_repeat = False, cfg_callback = Some 7, cfg_arg = 0\<rparr>"

lemma timer_start_ok:
  "clk_ok t_regs (hw (timer_start_state b f))" "length (timer_context (timer_start_state b f)) = 6"
  "wm_timer_bitmap (timer_start_state b f) = b"
  by (simp_all add: timer_start_state_def clk_ok_def)

lemma some_clk: "0x40000710 \<in> - {HR_TIMER0_5_CSR}"
  by simp

theorem tls_timer_create_first_free_witness:
  "\<exists>s'. tls_timer_create timer_io some_cfg (timer_start_state 0x06 0) = Some (3, s') \<and> wm_timer_bitmap s' = 0x0E"
proof -
  have five: "i \<in> {1..5} \<longleftrightarrow> i = 1 \<or> i = 2 \<or> i = 3 \<or> i = 4 \<or> i = (5 :: nat)" for i by auto
  have free: "\<not> (\<forall>i \<in> {1..5}. bit (0x06 :: u8) i)" by (auto intro!: bexI [of _ 3])
  obtain i s' where s': "tls_timer_create timer_io some_cfg (timer_start_state 0x06 0) = Some (i, s')" "i \<in> {1..5}"
    "\<not> bit (0x06 :: u8) i" "\<forall>j \<in> {1..<i}. bit (0x06 :: u8) j" "wm_timer_bitmap s' = set_bit i 0x06"
    using tls_timer_create_first_free [where s = "timer_start_state 0x06 0" and cfg = some_cfg,
      OF timer_regs.mmio_regs_axioms some_clk timer_start_ok(1,2)]
    unfolding timer_start_ok(3) if_not_P [OF free] by blast
  have "\<not> bit (0x06 :: u8) 3" by simp
  then have "i = 3" using s'(2-4) unfolding five by (auto dest: bspec [of _ _ 3])
  then show ?thesis using s' by simp
qed

theorem tls_timer_create_destroy_witness:
  "\<exists>i s' s''. tls_timer_create timer_io some_cfg (timer_start_state 0x06 0) = Some (i, s')
     \<and> tls_timer_destroy timer_io i s' = Some s'' \<and> wm_timer_bitmap s'' = 0x06"
proof -
  have free: "\<not> (\<forall>i \<in> {1..5}. bit (0x06 :: u8) i)" by (auto intro!: bexI [of _ 3])
  obtain i s' where s': "tls_timer_create timer_io some_cfg (timer_start_state 0x06 0) = Some (i, s')" "i \<in> {1..5}"
    using create_cases [where s = "timer_start_state 0x06 0" and cfg = some_cfg,
      OF timer_regs.mmio_regs_axioms some_clk timer_start_ok(1,2)]
    unfolding timer_start_ok(3) if_not_P [OF free] by blast
  have "i \<noteq> 0xFF" using s'(2) by auto
  then show ?thesis
    using tls_timer_create_destroy [OF timer_regs.mmio_regs_axioms some_clk timer_start_ok(1,2) s'(1)] s'(1)
    unfolding timer_start_ok(3) by blast
qed

text \<open>Timer 2 with a callback that counts its calls in a register of the device; timer 0 expires with the next access, which
  is a reading of the control register.\<close>

definition count_calls :: "nat \<Rightarrow> u32 \<Rightarrow> (timer_hw, nat) timer_state \<Rightarrow> (timer_hw, nat) timer_state" where
  "count_calls f a s = s\<lparr>hw := (hw s)\<lparr>t_regs := (t_regs (hw s))(f := t_regs (hw s) f + 1)\<rparr>\<rparr>"

definition delay_state :: "(timer_hw, nat) timer_state" where
  "delay_state = snd (tls_reg_read32 timer_io HR_TIMER0_5_CSR ((timer_start_state 0x04 0)
     \<lparr>hw := (hw (timer_start_state 0x04 0))\<lparr>t_left := 1\<rparr>,
      timer_context := (timer_context (timer_start_state 0x04 0))[2 := \<lparr>tc_callback = Some 7, tc_arg = 0\<rparr>]\<rparr>))"

lemma delay_state_facts:
  "t_left (hw delay_state) = 0" "bit (t_flags (hw delay_state)) 4" "2 < length (timer_context delay_state)"
  "tc_callback (timer_context delay_state ! 2) = Some 7"
  by (simp_all add: delay_state_def timer_start_state_def tls_reg_read32_def timer_io_def t_tick_def t_flags_def)

lemma timer_io_one_shot: "one_shot timer_io t_flags (\<lambda>h. t_left h = 0)"
  using t_tick_flags(2) by (auto simp: one_shot_def timer_io_def t_tick_def)

lemma count_leaves: "leaves_timer_0 count_calls t_flags (\<lambda>h. t_left h = 0)"
  by (simp add: leaves_timer_0_def count_calls_def t_flags_def)

theorem timer_irq_stops_delay_witness:
  "(\<exists>s'. delay_wait timer_io delay_state = Some s')
   \<and> (\<exists>s'. TIM2_IRQHandler timer_io count_calls delay_state = Some s' \<and> delay_wait timer_io s' = None)"
  unfolding TIM2_IRQHandler_def
  by (rule timer_irq_stops_delay [OF timer_io.timer_csr_axioms timer_io_one_shot count_leaves delay_state_facts(1-3)])

end
