(* ===== verification/Spec2Isabelle.thy ===== *)
theory Spec2Isabelle
  imports Conv Param_Store Fwup_Props Dhcp_Time Dhcp_Replies Wl_Props Dns_Props Uart_Props Dma_Props Timer_Props
begin

text \<open>
  Verification development for the WM600 SDK, the software of a Wi-Fi chip: drivers and services around an
  operating system kernel, a TCP/IP stack and a WLAN library. Modelled are the parts the SDK itself is made
  of and that keep state worth an invariant: the flash and what is stored in it, the update of the firmware,
  the tasks with their timeouts, the address and name servers of the soft access point, and the drivers of the
  UART, the DMA controller and the hardware timers.

  \<^bold>\<open>The parts and how they interact.\<close>
  The flash is at the bottom. The internal flash driver offers one address range; its second megabyte, where
  there is one, is on the SPI flash, so that it calls the SPI flash driver. The flash map places the areas of the
  image, the update and the parameters in that range. The parameter store keeps two copies of the system
  parameters in two of its sectors and chooses one after a reset. The firmware updater receives an image in
  pieces from a client, writes it through the flash driver, verifies it with the CRC of the crypto
  engine and stores its header, which makes it visible to the boot loader. The task module is used by tasks
  that wait for messages and timeouts. The UART driver stands between its interrupts and the tasks that read and write, with a
  ring buffer one way and a list of messages the other; it uses the clocks for its baud rate and a DMA channel. The DHCP and
  the DNS server run in the callbacks of the network stack and in a
  timer. Every one of them shares the semaphores and the heap of the operating system.

  \<^bold>\<open>Theories and sources.\<close>
  \<^item> \<open>Prelude\<close>: words for the integer types of C, buffers as byte lists, memories as functions, the 32-bit
    sums with their wrap-around, little-endian layouts, the semaphores and the heap (\<open>os_state\<close>).
  \<^item> \<open>Conv\<close> and \<open>Crc\<close>: \<^verbatim>\<open>src/Platform/Common/utils/utils.c\<close>. The conversions of numbers, IP and MAC addresses,
    and the checksums, shown equal to bitwise references.
  \<^item> \<open>Flash_Spec\<close>: the algebra of NOR flash contents and the contract \<open>flash_store\<close> of a flash driver.
  \<^item> \<open>Spi_Flash\<close>: \<^verbatim>\<open>src/Platform/Drivers/flash/wm_fls.c\<close> and \<^verbatim>\<open>wm_fls_gd25qxx.c\<close>. The record \<open>spi_state\<close> holds
    the static pointer to the driver, its lock, and the bus. The contract \<open>spi_nor\<close> is the data sheet of the chip.
  \<^item> \<open>Internal_Flash\<close>: \<^verbatim>\<open>src/Platform/Drivers/internalflash/wm_internal_fls.c\<close>. \<open>fls_state\<close> extends \<open>spi_state\<close> by the
    flash controller and the static variables, the write cache among them. The contract is \<open>inner_nor\<close>.
  \<^item> \<open>Flash_Layout\<close>: the image header \<open>T_BOOTER\<close>, \<open>tls_fls_layout_init\<close> of
    \<^verbatim>\<open>src/Platform/Common/fwup/wm_fwup.c\<close>, and \<open>fls_ops\<close>, the driver as its clients call it.
  \<^item> \<open>Hard_Crc\<close>: the CRC functions of \<^verbatim>\<open>src/Platform/Common/crypto/wm_crypto_hard.c\<close>.
  \<^item> \<open>Param\<close>, \<open>Param_Store\<close>: \<^verbatim>\<open>src/Platform/Common/Params/wm_param.c\<close>. The structures are kept as their bytes,
    because the code copies, checks and writes them as bytes; the tables of cases of \<open>tls_param_set\<close>,
    \<open>tls_param_get\<close> and \<open>tls_param_to_flash\<close> are data. \<open>Param_Store\<close> says what a reset recovers, also when the power
    fails while the flash is written (\<open>cut_fls\<close>, a driver that stops after a number of operations).
  \<^item> \<open>Fwup\<close>, \<open>Fwup_Session\<close>, \<open>Fwup_Update\<close>, \<open>Fwup_Props\<close>: \<^verbatim>\<open>wm_fwup.c\<close>. The control block with its queue of
    requests and the locals of the task are the records \<open>tls_fwup\<close> and \<open>sched_locals\<close>; the task is split at the points at which
    another task may run. \<open>Fwup_Session\<close> has the invariant over all interleavings,
    \<open>Fwup_Update\<close> the course of an update on any flash that meets the contract, \<open>Fwup_Props\<close> the same on
    the boards.
  \<^item> \<open>Dhcp_Server\<close>, \<open>Dhcp_Lease\<close>, \<open>Dhcp_Props\<close>, \<open>Dhcp_Time\<close>, \<open>Dhcp_Replies\<close>:
    \<^verbatim>\<open>src/Src/App/dhcpserver/dhcp_server.c\<close> and \<^verbatim>\<open>dhcp_server_if.c\<close>. The model, the invariant of the client table
    over every sequence of operations, the leases as a map from clients to addresses, the tick over time, and
    the replies as a client reads them.
  \<^item> \<open>Wl_Task\<close>, \<open>Wl_Props\<close>: \<^verbatim>\<open>wm_wl_timers.c\<close>, \<^verbatim>\<open>wm_wl_mbox.c\<close> and \<^verbatim>\<open>wm_wl_task.c\<close> under
    \<^verbatim>\<open>src/Platform/Common/task\<close>. The timeout list stores differences; it refines the list of the times at which the
    timeouts are due. What is seen of a fetch, the waits and the calls, is a run of \<open>fetch_run\<close>.
  \<^item> \<open>Dns_Server\<close>, \<open>Dns_Props\<close>: \<^verbatim>\<open>dns_server.c\<close> and \<^verbatim>\<open>dns_server_if.c\<close> under \<^verbatim>\<open>src/Src/App/dnsserver\<close>. Names, queries and
    the answer for the name of the server.

  \<^item> \<open>Mmio\<close>, \<open>Clock\<close>: access to registers (\<^verbatim>\<open>src/Include/wm_regs.h\<close>), enabling interrupts
    (\<^verbatim>\<open>src/Platform/Drivers/irq/wm_irq.c\<close>) and the clocks (\<^verbatim>\<open>src/Platform/Drivers/cpu/wm_cpu.c\<close>). \<open>hw_state\<close> extends
    \<open>os_state\<close> by the state of the hardware.
  \<^item> \<open>Uart\<close>: \<^verbatim>\<open>src/Platform/Drivers/uart/wm_uart.c\<close>. \<open>uart_state\<close> holds the three ports; a pointer to a port is its
    index. \<open>Uart_Ring\<close> shows that the ring buffer is a queue, \<open>Uart_Dev\<close> has the contract of the hardware and what sending
    does, \<open>Uart_Irq\<close> the parts of the interrupt handlers, \<open>Uart_Wire\<close> a concrete device, \<open>Uart_Serve\<close> whole handlers, writing
    and sequences of events, \<open>Uart_Setup\<close> the settings, and \<open>Uart_Props\<close> the properties.
  \<^item> \<open>Dma\<close>, \<open>Dma_Props\<close>: \<^verbatim>\<open>src/Platform/Drivers/dma/wm_dma.c\<close>, with the table of channels and the callbacks in \<open>dma_state\<close>.
  \<^item> \<open>Timer\<close>, \<open>Timer_Props\<close>: \<^verbatim>\<open>src/Platform/Drivers/timer/wm_timer.c\<close>, with the bitmap and the callbacks in \<open>timer_state\<close>.

  \<^bold>\<open>Interfaces.\<close>
  A \<open>flash_store\<close> reads what was written and changes nothing else; \<open>flash_client\<close> adds the erasure of a
  sector, \<open>param_flash\<close> the place of the partitions, \<open>fwup_site\<close> a \<open>crc_engine\<close> and the flash map. The SPI
  flash driver is a \<open>flash_store\<close> on every \<open>spi_nor\<close> chip, and a \<open>flash_board\<close>, which joins an \<open>inner_nor\<close>
  and a \<open>spi_nor\<close>, is a \<open>flash_store\<close> and a \<open>flash_client\<close> through the internal driver. Concrete devices show that
  the hardware contracts can be met: \<open>chip\<close> (a SPI flash), \<open>nor\<close> (a flash controller) and \<open>soft\<close> (a CRC
  engine). Registers that are storage are \<open>mmio_regs\<close>, a UART is a \<open>uart_dev\<close>, and the control register of the timers a
  \<open>timer_csr\<close>; \<open>wire\<close> and \<open>wire_regs\<close>, \<open>dma_storage\<close>, \<open>timer_io\<close> and \<open>timer_regs\<close> are the devices that meet them. \<open>board1\<close> and \<open>board2\<close> are the boards of one and of two megabytes, \<open>params1\<close>,
  \<open>params2\<close>, \<open>update1\<close> and \<open>update2\<close> the parameter store and the updater on them. The proofs about the
  parameters and the updates use the contracts only; the properties are stated for the boards.

  \<^bold>\<open>Parameters.\<close>
  What is not in the repository or is hardware is an argument of the definitions: the transfer functions of
  the SPI master (\<open>spi_ops\<close>), the flash controller (\<open>qf_ops\<close>), the crypto engine (\<open>crypto_hw\<close>), the WLAN library
  and the random numbers as the updater calls them (\<open>env_ops\<close>) and as the servers call them (\<open>wlan_ops\<close>), the waiting on
  queues, delays and handlers of the tasks (\<open>rtos\<close>), the registers and the interrupt controller (\<open>mmio\<close>), and the callbacks of
  the users of the UART (\<open>uart_env\<close>). Whether an allocation succeeds is read from the list
  of outcomes \<open>heap\<close>, so that every pattern of failures is covered.

  \<^bold>\<open>Failure and termination.\<close>
  \<open>None\<close> is an access outside an object, a semaphore that is never given, or a loop that does not
  return. Loops that may run for ever are \<open>partial_function\<close>s: the waits for the flash, the sector loops of
  the two write functions, \<open>rand_nonzero\<close>, \<open>fwup_run\<close>, \<open>tls_timeouts_mbox_fetch_p\<close>, the loop of sending \<open>tx_chars_loop\<close>, and the waits \<open>wait_thr_empty\<close>,
  \<open>stop_wait\<close> and \<open>delay_wait\<close> for the hardware; that they return
  is part of the theorems about them, except for \<open>wait_thr_empty\<close> and \<open>stop_wait\<close>, which no theorem is about. All other functions are total, the function \<open>parse_options\<close> by the
  bytes that are left and \<open>scan_partitions\<close> by the attempts that are left,
  \<open>tx_fill\<close> and \<open>wait_complt\<close> by their counters. No loop has fuel. Where a count of rounds
  is an argument (the ticks of the DHCP server, the
  steps of the updater, the interrupts while \<open>tls_uart_write\<close> waits), it counts the events of the environment.

  \<^bold>\<open>What the theorems show.\<close>
  The drivers replace exactly the bytes they are given; a saved parameter survives a reset, and a power
  failure during a save leaves the old parameters or the new ones; a delivered image is installed, a corrupt one never is, and no
  accepted image touches the boot loader, the area it will run in or the parameters, nor the running image, where
  its header has absolute addresses; leases are exclusive over
  every history and last as long as promised; every message changes the lease of its sender only; timeouts are called in the
  order in which they are due, after waits of the time that is left; what a UART receives is read in order, and what is written goes out in order; replies and answers are read back by their receiver. The theorems of kind error state
  where the code departs from its promises, on inputs it can receive: each has a witness at a concrete input. The conditions
  of a theorem are named in the text before it.

  \<^bold>\<open>Not modelled.\<close>
  \<^item> The LiteOS kernel, lwIP, the TLS and crypto libraries, the IoT agent and most applications are
    third-party code that the SDK builds; of the kernel and of lwIP the modelled code uses the interface.
  \<^item> The AT commands and the host interface are a dispatcher over the WLAN library, whose sources are
    not in the repository.
  \<^item> The drivers of the other peripherals (ADC, eFuse, GPIO, SPI, I2C, I2S, LCD, PWM, RTC, 7816, watchdog, power) store to
    registers, and what happens then is hardware.
  \<^item> Of the modelled files: \<open>readSR\<close> and \<open>flashSRRW\<close> of the internal flash driver, which nothing calls;
    \<open>tls_mbox_new\<close> and \<open>tls_wl_task_run\<close>, which create a queue and a task of the kernel;
    \<open>string_to_ipaddr\<close>, \<open>strdup\<close>, \<open>strndup\<close> and \<open>gettimeofday\<close> of the utility module, which wrap the C library;
    the ciphers, digests and the big-number unit of the crypto engine.
  \<^item> Of the UART driver what is under \<open>#if 0\<close>, \<open>DEBUG_RX_LEN\<close> and \<open>TEST_UART\<close>, and the debug output; of \<open>wm_irq.c\<close> the table of
    handlers, its dispatcher and the set-up of the interrupt controller.
  \<^item> Interrupts that come in the middle of a function, other than while \<open>tls_uart_write\<close> waits. Concurrency finer than the steps of the updater, and the order in which the kernel runs the tasks.
\<close>

end
